(* ===== verification/JS_Prelude.thy ===== *)
theory JS_Prelude
  imports Complex_Main "HOL-Library.Word" "HOL-Library.Multiset" "HOL-Library.Sublist"
begin

text \<open>
  The fragment of JavaScript that the modelled code uses, shared by all component
  theories: strings as lists of UTF-16 code units, the string and array methods the
  sources call, insertion-ordered \<open>Map\<close> and \<open>Set\<close>, the stable array sort, decimal
  printing and parsing, and the generic lemmas about them. The collection \<open>js_simps\<close>
  holds the equations that evaluate string literals.
\<close>

named_theorems js_simps \<open>evaluation of string literals\<close>

section \<open>Definitions\<close>

subsection \<open>Strings\<close>

text \<open>A JavaScript string is a sequence of 16-bit code units; \<open>js\<close> turns a literal into one.\<close>

type_synonym jschar = "16 word"
type_synonym jsstr = "jschar list"

definition jsc :: "char \<Rightarrow> jschar" where
  "jsc c = of_char c"

definition js :: "string \<Rightarrow> jsstr" where
  "js s = map jsc s"

text \<open>The code units that \<open>trim\<close> and the regular expression class \<open>\s\<close> treat as white space.\<close>

definition is_ws :: "jschar \<Rightarrow> bool" where
  "is_ws c \<longleftrightarrow> (9 \<le> c \<and> c \<le> 13) \<or> c = 32 \<or> c = 0xA0 \<or> c = 0x1680 \<or>
     (0x2000 \<le> c \<and> c \<le> 0x200A) \<or> c = 0x2028 \<or> c = 0x2029 \<or> c = 0x202F \<or>
     c = 0x205F \<or> c = 0x3000 \<or> c = 0xFEFF"

text \<open>Line terminators: the units that \<open>.\<close> does not match and \<open>^\<close> and \<open>$\<close> look for.\<close>

definition is_lt :: "jschar \<Rightarrow> bool" where
  "is_lt c \<longleftrightarrow> c = 10 \<or> c = 13 \<or> c = 0x2028 \<or> c = 0x2029"

definition trim_start :: "jsstr \<Rightarrow> jsstr" where
  "trim_start s = dropWhile is_ws s"

definition trim :: "jsstr \<Rightarrow> jsstr" where
  "trim s = rev (trim_start (rev (trim_start s)))"

text \<open>\<open>startsWith\<close>, \<open>endsWith\<close>, \<open>includes\<close> and \<open>indexOf\<close> (with \<open>None\<close> for \<open>-1\<close>).\<close>

abbreviation starts_with :: "'a list \<Rightarrow> 'a list \<Rightarrow> bool" where
  "starts_with s p \<equiv> prefix p s"

abbreviation ends_with :: "'a list \<Rightarrow> 'a list \<Rightarrow> bool" where
  "ends_with s p \<equiv> suffix p s"

fun index_of :: "'a list \<Rightarrow> 'a list \<Rightarrow> nat option" where
  "index_of p [] = (if p = [] then Some 0 else None)"
| "index_of p (x # xs) =
     (if prefix p (x # xs) then Some 0 else map_option Suc (index_of p xs))"

definition index_of_from :: "'a list \<Rightarrow> 'a list \<Rightarrow> nat \<Rightarrow> nat option" where
  "index_of_from s p i = map_option ((+) i) (index_of p (drop i s))"

definition js_includes :: "'a list \<Rightarrow> 'a list \<Rightarrow> bool" where
  "js_includes s p \<longleftrightarrow> index_of p s \<noteq> None"

text \<open>\<open>slice(i, j)\<close>, \<open>slice(i)\<close> and \<open>slice(-n)\<close> for \<open>n > 0\<close>.\<close>

definition slice :: "'a list \<Rightarrow> nat \<Rightarrow> nat \<Rightarrow> 'a list" where
  "slice s i j = take (j - i) (drop i s)"

definition slice_last :: "'a list \<Rightarrow> nat \<Rightarrow> 'a list" where
  "slice_last s n = drop (length s - n) s"

text \<open>\<open>split\<close> at a one-unit separator and \<open>join\<close>.\<close>

fun split_on :: "'a \<Rightarrow> 'a list \<Rightarrow> 'a list list" where
  "split_on c [] = [[]]"
| "split_on c (x # xs) =
     (if x = c then [] # split_on c xs
      else (case split_on c xs of [] \<Rightarrow> [[x]] | y # ys \<Rightarrow> (x # y) # ys))"

fun join :: "'a list \<Rightarrow> 'a list list \<Rightarrow> 'a list" where
  "join sep [] = []"
| "join sep [x] = x"
| "join sep (x # y # zs) = x @ sep @ join sep (y # zs)"

text \<open>\<open>findIndex\<close>, with \<open>None\<close> for \<open>-1\<close>.\<close>

fun find_index :: "('a \<Rightarrow> bool) \<Rightarrow> 'a list \<Rightarrow> nat option" where
  "find_index P [] = None"
| "find_index P (x # xs) = (if P x then Some 0 else map_option Suc (find_index P xs))"

subsection \<open>Numbers\<close>

text \<open>
  Decimal rendering of an integer in a template literal, and \<open>parseInt(s, 10)\<close> on a
  string of digits. Numbers that the sources use as counts, identifiers, quotas and
  codes are integers; other numbers are exact rationals of type \<open>jsnum\<close>. The arithmetic of
  doubles agrees with both as long as no operation rounds, in particular on whole numbers
  below \<open>2 ^ 53\<close>.
\<close>

type_synonym jsnum = rat

definition digit_char :: "nat \<Rightarrow> jschar" where
  "digit_char d = of_nat (48 + d)"

fun show_nat :: "nat \<Rightarrow> jsstr" where
  "show_nat n = (if n < 10 then [digit_char n] else show_nat (n div 10) @ [digit_char (n mod 10)])"

definition show_int :: "int \<Rightarrow> jsstr" where
  "show_int i = (if i < 0 then js ''-'' @ show_nat (nat (- i)) else show_nat (nat i))"

definition is_digit :: "jschar \<Rightarrow> bool" where
  "is_digit c \<longleftrightarrow> 48 \<le> c \<and> c \<le> 57"

definition digit_val :: "jschar \<Rightarrow> nat" where
  "digit_val c = unat c - 48"

text \<open>The value of a hexadecimal digit.\<close>

definition hex_digit :: "jschar \<Rightarrow> nat option" where
  "hex_digit c =
     (if is_digit c then Some (unat c - 48)
      else if 97 \<le> c \<and> c \<le> 102 then Some (unat c - 87)
      else if 65 \<le> c \<and> c \<le> 70 then Some (unat c - 55) else None)"

definition parse_digits :: "jsstr \<Rightarrow> nat" where
  "parse_digits s = foldl (\<lambda>n c. 10 * n + digit_val c) 0 s"

subsection \<open>Set, Map and the stable sort\<close>

text \<open>\<open>Array.from(new Set(xs))\<close>: the first occurrences, in order.\<close>

fun dedupe :: "'a list \<Rightarrow> 'a list" where
  "dedupe [] = []"
| "dedupe (x # xs) = x # removeAll x (dedupe xs)"

text \<open>A \<open>Map\<close> keeps its keys in insertion order; \<open>set\<close> on a present key keeps its place.\<close>

type_synonym ('k, 'v) omap = "('k \<times> 'v) list"

definition omap_get :: "('k, 'v) omap \<Rightarrow> 'k \<Rightarrow> 'v option" where
  "omap_get m k = map_of m k"

fun omap_set :: "('k, 'v) omap \<Rightarrow> 'k \<Rightarrow> 'v \<Rightarrow> ('k, 'v) omap" where
  "omap_set [] k v = [(k, v)]"
| "omap_set ((k', v') # m) k v =
     (if k' = k then (k, v) # m else (k', v') # omap_set m k v)"

abbreviation omap_keys :: "('k, 'v) omap \<Rightarrow> 'k list" where
  "omap_keys m \<equiv> map fst m"

abbreviation omap_values :: "('k, 'v) omap \<Rightarrow> 'v list" where
  "omap_values m \<equiv> map snd m"

definition omap_wf :: "('k, 'v) omap \<Rightarrow> bool" where
  "omap_wf m \<longleftrightarrow> distinct (omap_keys m)"

text \<open>\<open>Array.prototype.sort\<close> is stable: an element moves before another only if the
  comparator says so.\<close>

fun insert_cmp :: "('a \<Rightarrow> 'a \<Rightarrow> int) \<Rightarrow> 'a \<Rightarrow> 'a list \<Rightarrow> 'a list" where
  "insert_cmp cmp x [] = [x]"
| "insert_cmp cmp x (y # ys) = (if cmp x y \<le> 0 then x # y # ys else y # insert_cmp cmp x ys)"

definition js_sort :: "('a \<Rightarrow> 'a \<Rightarrow> int) \<Rightarrow> 'a list \<Rightarrow> 'a list" where
  "js_sort cmp xs = foldr (insert_cmp cmp) xs []"

text \<open>The sign of the difference of two numbers, as a comparator result.\<close>

definition num_cmp :: "jsnum \<Rightarrow> jsnum \<Rightarrow> int" where
  "num_cmp x y = (if x < y then - 1 else if x = y then 0 else 1)"

text \<open>\<open>a || b\<close> on comparator results, and \<open>a ?? b\<close> on optional values.\<close>

definition or_cmp :: "int \<Rightarrow> int \<Rightarrow> int" where
  "or_cmp a b = (if a \<noteq> 0 then a else b)"

definition nullish :: "'a option \<Rightarrow> 'a \<Rightarrow> 'a" where
  "nullish a b = (case a of Some x \<Rightarrow> x | None \<Rightarrow> b)"

text \<open>\<open>s || d\<close> on an optional string: the empty string counts as absent.\<close>

definition or_str :: "jsstr option \<Rightarrow> jsstr \<Rightarrow> jsstr" where
  "or_str s d = (case s of None \<Rightarrow> d | Some x \<Rightarrow> if x = [] then d else x)"

section \<open>Lemmas\<close>

subsection \<open>String literals\<close>

lemma unat_jsc: "unat (jsc c) = of_char c"
proof -
  have "of_char c < (2 ^ 16 :: nat)"
    by (rule less_trans [OF nat_of_char_less_256]) simp
  then have "unat (of_nat (of_char c) :: jschar) = of_char c"
    by (simp add: unat_of_nat take_bit_nat_eq_self)
  then show ?thesis by (simp add: jsc_def of_nat_of_char)
qed

lemma jsc_eq_iff [simp]: "jsc c = jsc d \<longleftrightarrow> c = d"
  by (metis unat_jsc of_char_eq_iff)

lemma jsc_neq_wide [js_simps]: "jsc c \<noteq> 0xFF0C"
proof
  assume "jsc c = 0xFF0C"
  then have "of_char c = unat (0xFF0C :: jschar)" by (metis unat_jsc)
  then show False using nat_of_char_less_256 [of c] by simp
qed


lemma js_Nil [js_simps]: "js [] = []"
  by (simp add: js_def)

lemma js_Cons [js_simps]: "js (c # s) = jsc c # js s"
  by (simp add: js_def)

lemma js_append: "js (s @ t) = js s @ js t"
  by (simp add: js_def)

lemma js_eq_iff [simp]: "js s = js t \<longleftrightarrow> s = t"
proof
  assume "js s = js t"
  moreover have "inj jsc" by (simp add: inj_def)
  ultimately show "s = t" by (simp add: js_def inj_map_eq_map)
qed simp

lemma js_eq_Nil [simp]: "js s = [] \<longleftrightarrow> s = []" "[] = js s \<longleftrightarrow> s = []"
  by (auto simp: js_def)

lemma length_js [simp]: "length (js s) = length s"
  by (simp add: js_def)

subsection \<open>White space and trimming\<close>

lemma trim_Nil [simp]: "trim [] = []"
  by (simp add: trim_def trim_start_def)

lemma set_trim: "set (trim s) \<subseteq> set s"
  unfolding trim_def trim_start_def
  by (auto dest!: set_dropWhileD)

lemma dropWhile_rev_hd:
  "xs \<noteq> [] \<Longrightarrow> \<not> P (hd xs) \<Longrightarrow> dropWhile P xs = xs"
  by (cases xs) auto

text \<open>A string with no white space at either end is its own trim.\<close>

lemma trim_id: "s = [] \<or> (\<not> is_ws (hd s) \<and> \<not> is_ws (last s)) \<Longrightarrow> trim s = s"
  unfolding trim_def trim_start_def
  by (cases "s = []") (auto simp: dropWhile_rev_hd hd_rev)

lemma trim_no_ws: "\<forall>c\<in>set s. \<not> is_ws c \<Longrightarrow> trim s = s"
  by (rule trim_id) (cases "s = []"; auto)

lemma trim_ends: "trim s \<noteq> [] \<Longrightarrow> \<not> is_ws (hd (trim s)) \<and> \<not> is_ws (last (trim s))"
proof -
  assume ne: "trim s \<noteq> []"
  define u where "u = dropWhile is_ws s"
  define v where "v = dropWhile is_ws (rev u)"
  have t: "trim s = rev v" by (simp add: trim_def trim_start_def u_def v_def)
  have v: "v \<noteq> []" using ne t by simp
  have last: "\<not> is_ws (last (trim s))"
    using v hd_dropWhile [of is_ws "rev u"] by (simp add: t last_rev v_def)
  obtain w where w: "rev u = w @ v"
    unfolding v_def by (metis takeWhile_dropWhile_id)
  then have u: "u = rev v @ rev w" by (metis rev_append rev_rev_ident)
  then have "u \<noteq> []" using v by simp
  then have "\<not> is_ws (hd u)"
    unfolding u_def by (rule hd_dropWhile)
  moreover have "hd u = hd (rev v)" using u v by simp
  ultimately show ?thesis using t last by simp
qed

lemma trim_trim [simp]: "trim (trim s) = trim s"
  using trim_ends [of s] by (intro trim_id) auto

subsection \<open>Searching, splitting and joining\<close>

lemma split_on_ne [simp]: "split_on c s \<noteq> []"
  by (induction s) (auto split: list.splits)

lemma join_split_on: "join [c] (split_on c s) = s"
proof (induction s)
  case (Cons x xs)
  obtain y ys where y: "split_on c xs = y # ys"
    by (meson list.exhaust split_on_ne)
  then show ?case using Cons by (cases ys) auto
qed simp

lemma split_on_no_sep: "c \<notin> set s \<Longrightarrow> split_on c s = [s]"
  by (induction s) auto

lemma split_on_append_sep:
  "c \<notin> set x \<Longrightarrow> split_on c (x @ c # s) = x # split_on c s"
  by (induction x) auto

lemma split_on_join:
  assumes "xs \<noteq> []" and "\<forall>x\<in>set xs. c \<notin> set x"
  shows "split_on c (join [c] xs) = xs"
  using assms
  by (induction "[c]" xs rule: join.induct) (auto simp: split_on_no_sep split_on_append_sep)

lemma split_on_pieces: "x \<in> set (split_on c s) \<Longrightarrow> c \<notin> set x \<and> set x \<subseteq> set s"
proof (induction s arbitrary: x)
  case (Cons a s)
  obtain y ys where y: "split_on c s = y # ys"
    by (meson list.exhaust split_on_ne)
  with Cons.prems consider "x = []" | "a \<noteq> c" "x = a # y" | "x \<in> set (split_on c s)"
    by (auto split: if_splits)
  then show ?case
    using Cons.IH [of x] Cons.IH [of y] y by cases auto
qed simp

lemma index_of_append: "index_of p (p @ s) = Some 0"
  by (cases "p @ s") (auto simp: prefix_def, metis)

lemma index_of_Some: "index_of p s = Some i \<Longrightarrow> \<exists>t. drop i s = p @ t \<and> i + length p \<le> length s"
proof (induction s arbitrary: i)
  case (Cons x xs)
  show ?case
  proof (cases "prefix p (x # xs)")
    case True
    then obtain t where "x # xs = p @ t" by (auto simp: prefix_def)
    moreover have "i = 0" using True Cons.prems by simp
    ultimately show ?thesis by (metis drop0 le_add1 length_append add_0)
  next
    case False
    with Cons.prems obtain j where "index_of p xs = Some j" "i = Suc j" by auto
    with Cons.IH show ?thesis by auto
  qed
qed (auto split: if_splits)

lemma index_of_None: "index_of p s = None \<Longrightarrow> \<not> sublist p s"
  by (induction s) (auto simp: sublist_Cons_right split: if_splits)

lemma index_of_first: "index_of p s = Some i \<Longrightarrow> j < i \<Longrightarrow> \<not> prefix p (drop j s)"
proof (induction s arbitrary: i j)
  case (Cons x xs)
  then show ?case
    by (cases j) (auto split: if_splits)
qed (auto split: if_splits)

lemma js_includes_iff: "js_includes s p \<longleftrightarrow> sublist p s"
proof
  assume "js_includes s p"
  then obtain i where i: "index_of p s = Some i" by (auto simp: js_includes_def)
  from index_of_Some [OF i] obtain t where "drop i s = p @ t" by blast
  then have "s = take i s @ p @ t" by (metis append_take_drop_id)
  then show "sublist p s" by (metis sublist_def)
next
  assume "sublist p s"
  then show "js_includes s p" using index_of_None by (force simp: js_includes_def)
qed

lemma find_index_Some:
  "find_index P xs = Some i \<Longrightarrow> i < length xs \<and> P (xs ! i) \<and> (\<forall>j<i. \<not> P (xs ! j))"
proof (induction xs arbitrary: i)
  case (Cons x xs)
  then show ?case by (auto split: if_splits simp: nth_Cons less_Suc_eq_0_disj split: nat.splits)
qed simp

lemma find_index_None: "find_index P xs = None \<longleftrightarrow> (\<forall>x\<in>set xs. \<not> P x)"
  by (induction xs) auto

subsection \<open>Decimal numbers\<close>

declare show_nat.simps [simp del]

lemma unat_digit_char: "d < 10 \<Longrightarrow> unat (digit_char d) = 48 + d"
  unfolding digit_char_def
  by (subst unat_of_nat) (simp add: take_bit_nat_eq_self)

lemma is_digit_digit_char: "d < 10 \<Longrightarrow> is_digit (digit_char d)"
  by (simp add: is_digit_def word_le_nat_alt unat_digit_char)

lemma digit_val_digit_char: "d < 10 \<Longrightarrow> digit_val (digit_char d) = d"
  by (simp add: digit_val_def unat_digit_char)

lemma show_nat_digits: "\<forall>c\<in>set (show_nat n). is_digit c"
proof (induction n rule: show_nat.induct)
  case (1 n)
  then show ?case
    by (subst show_nat.simps) (auto simp: is_digit_digit_char)
qed

lemma show_nat_ne [simp]: "show_nat n \<noteq> []"
  by (subst show_nat.simps) simp

lemma parse_digits_show_nat: "parse_digits (show_nat n) = n"
proof (induction n rule: show_nat.induct)
  case (1 n)
  show ?case
  proof (cases "n < 10")
    case True
    then show ?thesis
      by (simp add: show_nat.simps [of n] parse_digits_def digit_val_digit_char)
  next
    case False
    with 1 show ?thesis
      by (simp add: show_nat.simps [of n] parse_digits_def digit_val_digit_char)
  qed
qed

lemma show_nat_inj: "show_nat m = show_nat n \<longleftrightarrow> m = n"
  by (metis parse_digits_show_nat)

lemma digit_not_ws: "is_digit c \<Longrightarrow> \<not> is_ws c"
  unfolding is_digit_def is_ws_def word_le_nat_alt word_unat_eq_iff by auto

lemma jsc_comma: "jsc CHR '','' = 44" and jsc_dash: "jsc CHR ''-'' = 45"
  by (simp_all add: jsc_def)

lemma digit_neq:
  "is_digit c \<Longrightarrow> c \<noteq> jsc CHR '',''" "is_digit c \<Longrightarrow> c \<noteq> jsc CHR ''-''"
  by (auto simp: jsc_comma jsc_dash is_digit_def word_le_nat_alt)

text \<open>Classification of the code units of literals.\<close>

lemma is_ws_jsc [js_simps]:
  "is_ws (jsc c) \<longleftrightarrow> c \<in> {CHR 0x09, CHR 0x0A, CHR 0x0B, CHR 0x0C, CHR 0x0D, CHR '' '', CHR 0xA0}"
proof -
  define n where "n = (of_char c :: nat)"
  have n: "n < 256" by (simp add: n_def)
  have "is_ws (jsc c) \<longleftrightarrow> n \<in> {9, 10, 11, 12, 13, 32, 160}"
    using n unfolding is_ws_def word_le_nat_alt word_unat_eq_iff unat_jsc n_def [symmetric] by auto
  also have "\<dots> \<longleftrightarrow> c \<in> {CHR 0x09, CHR 0x0A, CHR 0x0B, CHR 0x0C, CHR 0x0D, CHR '' '', CHR 0xA0}"
    unfolding n_def
    by (simp add: of_char_eq_iff [where 'a = nat, symmetric] del: of_char_eq_iff)
  finally show ?thesis .
qed

lemma is_digit_jsc [js_simps]: "is_digit (jsc c) \<longleftrightarrow> 48 \<le> (of_char c :: nat) \<and> of_char c \<le> (57 :: nat)"
  by (simp add: is_digit_def word_le_nat_alt unat_jsc)

lemma digit_val_jsc [js_simps]: "digit_val (jsc c) = of_char c - 48"
  by (simp add: digit_val_def unat_jsc)

lemma digit_char_jsc [js_simps]:
  "digit_char 0 = jsc CHR ''0''" "digit_char 1 = jsc CHR ''1''" "digit_char 2 = jsc CHR ''2''"
  "digit_char 3 = jsc CHR ''3''" "digit_char 4 = jsc CHR ''4''" "digit_char 5 = jsc CHR ''5''"
  "digit_char 6 = jsc CHR ''6''" "digit_char 7 = jsc CHR ''7''" "digit_char 8 = jsc CHR ''8''"
  "digit_char 9 = jsc CHR ''9''" "digit_char (Suc 0) = jsc CHR ''1''"
  by (simp_all add: digit_char_def jsc_def)

subsection \<open>Insertion-ordered sets\<close>

lemma set_dedupe [simp]: "set (dedupe xs) = set xs"
  by (induction xs) auto

lemma distinct_dedupe [simp]: "distinct (dedupe xs)"
  by (induction xs) (auto simp: distinct_removeAll)

lemma dedupe_distinct: "distinct xs \<Longrightarrow> dedupe xs = xs"
  by (induction xs) (auto simp: removeAll_id)

lemma dedupe_dedupe [simp]: "dedupe (dedupe xs) = dedupe xs"
  by (simp add: dedupe_distinct)

lemma dedupe_eq_Nil [simp]: "dedupe xs = [] \<longleftrightarrow> xs = []"
  by (cases xs) auto

lemma length_dedupe: "length (dedupe xs) \<le> length xs"
  by (induction xs) (auto intro: le_trans [OF length_removeAll_less_eq])

subsection \<open>Insertion-ordered maps\<close>

text \<open>
  The contract of a JavaScript \<open>Map\<close>: what \<open>get\<close> returns after a \<open>set\<close>, that the
  iteration order of the keys is the insertion order, and that an invariant is kept.
  The lemmas of the locale are about repeated updates of one map.
\<close>

locale js_map =
  fixes empty :: 'm
    and get :: "'m \<Rightarrow> 'k \<Rightarrow> 'v option"
    and set_entry :: "'m \<Rightarrow> 'k \<Rightarrow> 'v \<Rightarrow> 'm"
    and keys :: "'m \<Rightarrow> 'k list"
    and wf :: "'m \<Rightarrow> bool"
  assumes get_empty: "get empty k = None"
    and get_set: "get (set_entry m k v) k' = (if k' = k then Some v else get m k')"
    and keys_empty: "keys empty = []"
    and keys_set: "keys (set_entry m k v) = (if k \<in> set (keys m) then keys m else keys m @ [k])"
    and get_keys: "get m k = None \<longleftrightarrow> k \<notin> set (keys m)"
    and wf_empty: "wf empty"
    and wf_set: "wf m \<Longrightarrow> wf (set_entry m k v)"
begin

text \<open>A loop that updates the entry of a key computed from each element.\<close>

definition tally :: "('a \<Rightarrow> 'k) \<Rightarrow> ('a \<Rightarrow> 'v option \<Rightarrow> 'v) \<Rightarrow> 'm \<Rightarrow> 'a list \<Rightarrow> 'm" where
  "tally key upd = foldl (\<lambda>m x. set_entry m (key x) (upd x (get m (key x))))"

lemma wf_tally: "wf m \<Longrightarrow> wf (tally key upd m xs)"
  by (induction xs arbitrary: m) (auto simp: tally_def wf_set)

lemma keys_tally: "set (keys (tally key upd m xs)) = set (keys m) \<union> key ` set xs"
proof (induction xs arbitrary: m)
  case (Cons x xs)
  have "tally key upd m (x # xs)
      = tally key upd (set_entry m (key x) (upd x (get m (key x)))) xs"
    by (simp add: tally_def)
  then show ?case by (auto simp: Cons keys_set)
qed (simp add: tally_def)

text \<open>An entry only depends on the elements that have its key, in their order.\<close>

lemma get_tally:
  "get (tally key upd m xs) k
   = foldl (\<lambda>v x. Some (upd x v)) (get m k) (filter (\<lambda>x. key x = k) xs)"
proof (induction xs arbitrary: m)
  case (Cons x xs)
  have "tally key upd m (x # xs)
      = tally key upd (set_entry m (key x) (upd x (get m (key x)))) xs"
    by (simp add: tally_def)
  then show ?case by (simp add: Cons get_set)
qed (simp add: tally_def)

end

lemma omap_get_set: "omap_get (omap_set m k v) k' = (if k' = k then Some v else omap_get m k')"
  by (induction m) (auto simp: omap_get_def)

lemma omap_keys_set:
  "omap_keys (omap_set m k v) = (if k \<in> set (omap_keys m) then omap_keys m else omap_keys m @ [k])"
  by (induction m) (auto simp: image_iff, force)

text \<open>Writing a list of entries with distinct keys into a map.\<close>

lemma omap_get_put_all:
  assumes "distinct (map fst ps)"
  shows "omap_get (foldl (\<lambda>m (k, v). omap_set m k (f v)) m ps) j =
    (case map_of ps j of None \<Rightarrow> omap_get m j | Some v \<Rightarrow> Some (f v))"
  using assms
proof (induction ps arbitrary: m)
  case (Cons x ps)
  then have "map_of ps (fst x) = None" by (simp add: map_of_eq_None_iff)
  with Cons show ?case by (cases x) (auto simp: omap_get_set split: option.split)
qed simp

interpretation om: js_map "[]" omap_get omap_set omap_keys omap_wf
proof unfold_locales
  show "omap_wf m \<Longrightarrow> omap_wf (omap_set m k v)" for m :: "('a, 'b) omap" and k v
    by (simp add: omap_wf_def omap_keys_set)
  show "omap_get m k = None \<longleftrightarrow> k \<notin> set (omap_keys m)" for m :: "('a, 'b) omap" and k
    by (simp add: omap_get_def map_of_eq_None_iff)
qed (simp_all add: omap_get_set omap_keys_set omap_wf_def, simp add: omap_get_def)

subsection \<open>The stable sort\<close>

lemma mset_insert_cmp: "mset (insert_cmp cmp x xs) = add_mset x (mset xs)"
  by (induction xs) auto

lemma mset_js_sort [simp]: "mset (js_sort cmp xs) = mset xs"
  by (induction xs) (auto simp: js_sort_def mset_insert_cmp)

lemma set_js_sort [simp]: "set (js_sort cmp xs) = set xs"
  by (metis mset_js_sort set_mset_mset)

lemma length_js_sort [simp]: "length (js_sort cmp xs) = length xs"
  by (metis mset_js_sort size_mset)

lemma js_sort_eq_Nil [simp]: "js_sort cmp xs = [] \<longleftrightarrow> xs = []"
  by (metis length_0_conv length_js_sort)

lemma sum_list_js_sort:
  "sum_list (map f (js_sort cmp xs)) = (sum_list (map f xs) :: 'b :: comm_monoid_add)"
  by (metis mset_js_sort mset_map sum_mset_sum_list)

text \<open>
  A comparator that refines a transitive relation makes the result ordered by the relation:
  a result of at most zero says that the first element may come first, a positive one that
  the second may.
\<close>

locale js_ordering =
  fixes cmp :: "'a \<Rightarrow> 'a \<Rightarrow> int" and R :: "'a \<Rightarrow> 'a \<Rightarrow> bool"
  assumes before: "cmp x y \<le> 0 \<Longrightarrow> R x y"
    and after: "\<not> cmp x y \<le> 0 \<Longrightarrow> R y x"
    and R_trans: "R x y \<Longrightarrow> R y z \<Longrightarrow> R x z"
begin

lemma set_insert_cmp: "set (insert_cmp cmp x xs) = insert x (set xs)"
  by (induction xs) auto

lemma sorted_insert: "sorted_wrt R xs \<Longrightarrow> sorted_wrt R (insert_cmp cmp x xs)"
proof (induction xs)
  case (Cons y ys)
  show ?case
  proof (cases "cmp x y \<le> 0")
    case True
    with Cons.prems before [OF True] show ?thesis by (auto intro: R_trans)
  next
    case False
    with Cons after [OF False] show ?thesis by (auto simp: set_insert_cmp)
  qed
qed simp

lemma ordered_js_sort: "sorted_wrt R (js_sort cmp xs)"
  by (induction xs) (auto simp: js_sort_def sorted_insert)

end

text \<open>A comparator that is a total preorder orders by itself.\<close>

locale js_comparator =
  fixes cmp :: "'a \<Rightarrow> 'a \<Rightarrow> int"
  assumes total: "cmp x y \<le> 0 \<or> cmp y x \<le> 0"
    and trans: "cmp x y \<le> 0 \<Longrightarrow> cmp y z \<le> 0 \<Longrightarrow> cmp x z \<le> 0"

sublocale js_comparator \<subseteq> ord: js_ordering cmp "\<lambda>x y. cmp x y \<le> 0"
  by unfold_locales (use total trans in blast)+

context js_comparator
begin

lemma sorted_js_sort: "sorted_wrt (\<lambda>x y. cmp x y \<le> 0) (js_sort cmp xs)"
  by (rule ord.ordered_js_sort)

end

text \<open>Comparators that look at a number first order by it, whatever breaks the ties.\<close>

interpretation desc: js_ordering "\<lambda>a b. or_cmp (num_cmp (f b) (f a)) (g a b)" "\<lambda>a b. f a \<ge> f b" for f g
  by unfold_locales (auto simp: or_cmp_def num_cmp_def split: if_splits)

subsection \<open>Defaults\<close>

lemma nullish_simps [simp]: "nullish (Some x) d = x" "nullish None d = d"
  by (simp_all add: nullish_def)

lemma or_str_ne: "d \<noteq> [] \<Longrightarrow> or_str s d \<noteq> []"
  by (simp add: or_str_def split: option.splits)

lemma or_str_simps [simp]: "or_str None d = d" "or_str (Some []) d = d"
  "x \<noteq> [] \<Longrightarrow> or_str (Some x) d = x"
  by (simp_all add: or_str_def)

end
