(* ===== verification/HttpStatusRules.thy ===== *)
theory HttpStatusRules
  imports JS_Prelude
begin

text \<open>
  The rule language for HTTP status codes of \<open>lib/http-status-code-rules.ts\<close>: a
  comma-separated list of codes and code ranges is parsed, validated, sorted and merged,
  and printed back in a normal form. The lemmas show that merging keeps the set of
  codes, that its result is ordered with gaps between ranges, that the normal form is
  canonical, and that it parses back to the same rules.
\<close>

section \<open>Definitions\<close>

record StatusCodeRange =
  range_start :: nat
  range_end :: nat

record ParsedHttpStatusCodeRules =
  ok :: bool
  ranges :: "StatusCodeRange list"
  tokens :: "jsstr list"
  normalized :: jsstr
  invalidTokens :: "jsstr list"

definition isNumber :: "jsstr \<Rightarrow> bool" where
  "isNumber s \<longleftrightarrow> s \<noteq> [] \<and> list_all is_digit s"

definition isValidCode :: "nat \<Rightarrow> bool" where
  "isValidCode code \<longleftrightarrow> 100 \<le> code \<and> code \<le> 599"

text \<open>
  A token is a code or two codes joined by a dash; white space inside it is dropped. The
  destructuring \<open>const [a, b] = cleaned.split('-')\<close> ignores what follows a second dash.
\<close>

definition parseToken :: "jsstr \<Rightarrow> StatusCodeRange option" where
  "parseToken token =
     (let cleaned = filter (\<lambda>c. \<not> is_ws c) (trim token) in
      if cleaned = [] then None
      else if js_includes cleaned (js ''-'') then
        (case split_on (jsc CHR ''-'') cleaned of
           a # b # _ \<Rightarrow>
             if \<not> isNumber a \<or> \<not> isNumber b then None
             else let s = parse_digits a; e = parse_digits b in
               if \<not> isValidCode s \<or> \<not> isValidCode e \<or> s > e then None
               else Some \<lparr>range_start = s, range_end = e\<rparr>
         | _ \<Rightarrow> None)
      else if \<not> isNumber cleaned then None
      else let code = parse_digits cleaned in
        if \<not> isValidCode code then None
        else Some \<lparr>range_start = code, range_end = code\<rparr>)"

definition compareRanges :: "StatusCodeRange \<Rightarrow> StatusCodeRange \<Rightarrow> int" where
  "compareRanges a b =
     (if range_start a \<noteq> range_start b then int (range_start a) - int (range_start b)
      else int (range_end a) - int (range_end b))"

text \<open>The body of the \<open>reduce\<close>: append a new range or widen the last one in place.\<close>

definition mergeStep :: "StatusCodeRange list \<Rightarrow> StatusCodeRange \<Rightarrow> StatusCodeRange list" where
  "mergeStep merged current =
     (if merged = [] \<or> range_start current > range_end (last merged) + 1
      then merged @ [current]
      else butlast merged @
        [(last merged)\<lparr>range_end := max (range_end (last merged)) (range_end current)\<rparr>])"

definition mergeRanges :: "StatusCodeRange list \<Rightarrow> StatusCodeRange list" where
  "mergeRanges rs = (if rs = [] then [] else foldl mergeStep [] (js_sort compareRanges rs))"

definition showRange :: "StatusCodeRange \<Rightarrow> jsstr" where
  "showRange r =
     (if range_start r = range_end r then show_nat (range_start r)
      else show_nat (range_start r) @ js ''-'' @ show_nat (range_end r))"

text \<open>The full-width comma \<open>U+FF0C\<close> is accepted as a separator.\<close>

definition segmentsOf :: "jsstr \<Rightarrow> jsstr list" where
  "segmentsOf raw =
     filter (\<lambda>s. s \<noteq> [])
       (map trim (split_on (jsc CHR '','') (map (\<lambda>c. if c = 0xFF0C then jsc CHR '','' else c) raw)))"

definition parseHttpStatusCodeRules :: "jsstr option \<Rightarrow> ParsedHttpStatusCodeRules" where
  "parseHttpStatusCodeRules input =
     (let raw = trim (nullish input []) in
      if length raw = 0 then
        \<lparr>ok = True, ranges = [], tokens = [], normalized = [], invalidTokens = []\<rparr>
      else
        let segments = segmentsOf raw;
            parsed = List.map_filter parseToken segments;
            invalid = filter (\<lambda>s. parseToken s = None) segments in
        if length invalid > 0 then
          \<lparr>ok = False, ranges = [], tokens = [], normalized = raw, invalidTokens = invalid\<rparr>
        else
          let merged = mergeRanges parsed;
              toks = map showRange merged in
          \<lparr>ok = True, ranges = merged, tokens = toks, normalized = join (js '','') toks,
           invalidTokens = []\<rparr>)"

text \<open>The codes a list of ranges stands for, and the invariants of parsed ranges.\<close>

definition codes :: "StatusCodeRange list \<Rightarrow> nat set" where
  "codes rs = (\<Union>r\<in>set rs. {range_start r..range_end r})"

definition valid_range :: "StatusCodeRange \<Rightarrow> bool" where
  "valid_range r \<longleftrightarrow> isValidCode (range_start r) \<and> isValidCode (range_end r) \<and>
     range_start r \<le> range_end r"

definition separated :: "StatusCodeRange list \<Rightarrow> bool" where
  "separated rs \<longleftrightarrow> sorted_wrt (\<lambda>a b. range_end a + 1 < range_start b) rs"

section \<open>Merging\<close>

interpretation rc: js_comparator compareRanges
  by unfold_locales (auto simp: compareRanges_def split: if_splits)

lemma parseToken_valid: "parseToken t = Some r \<Longrightarrow> valid_range r"
  by (auto simp: parseToken_def valid_range_def Let_def split: if_splits list.splits)

lemma codes_Nil [simp]: "codes [] = {}"
  by (simp add: codes_def)

lemma codes_Cons: "codes (x # xs) = {range_start x..range_end x} \<union> codes xs"
  by (simp add: codes_def)

lemma codes_append: "codes (xs @ ys) = codes xs \<union> codes ys"
  by (auto simp: codes_def)

lemma codes_js_sort: "codes (js_sort compareRanges rs) = codes rs"
  by (simp add: codes_def)

text \<open>One merge step adds exactly the codes of the new range and keeps the separation, when
  the new range does not start before the last one.\<close>

lemma mergeStep_ok:
  assumes "separated m" and "list_all valid_range m" and "valid_range c"
    and "m \<noteq> [] \<Longrightarrow> range_start (last m) \<le> range_start c"
  shows "separated (mergeStep m c) \<and> list_all valid_range (mergeStep m c) \<and>
    codes (mergeStep m c) = codes m \<union> codes [c] \<and> mergeStep m c \<noteq> [] \<and>
    range_start (last (mergeStep m c)) \<le> range_start c"
proof (cases m rule: rev_cases)
  case Nil
  with assms show ?thesis by (auto simp: mergeStep_def separated_def)
next
  case (snoc xs l)
  have le: "range_start l \<le> range_end l" "range_start l \<le> range_start c"
    "range_start c \<le> range_end c"
    using assms snoc by (auto simp: valid_range_def)
  have gap: "\<forall>x\<in>set xs. range_end x + 1 < range_start l"
    using assms(1) snoc by (simp add: separated_def sorted_wrt_append)
  show ?thesis
  proof (cases "range_start c > range_end l + 1")
    case True
    with snoc assms gap le show ?thesis
      by (auto simp: mergeStep_def separated_def sorted_wrt_append codes_append codes_Cons)
  next
    case False
    then have eq: "mergeStep m c =
        xs @ [l\<lparr>range_end := max (range_end l) (range_end c)\<rparr>]"
      by (simp add: mergeStep_def snoc)
    have "{range_start l..max (range_end l) (range_end c)} =
        {range_start l..range_end l} \<union> {range_start c..range_end c}"
      using le False by auto
    then have cod: "codes (mergeStep m c) = codes m \<union> codes [c]"
      unfolding eq by (simp add: snoc codes_append codes_Cons Un_assoc)
    have "separated (mergeStep m c)"
      unfolding eq using assms(1) by (simp add: snoc separated_def sorted_wrt_append)
    moreover have "list_all valid_range (mergeStep m c)"
      unfolding eq using assms(2,3) snoc by (auto simp: valid_range_def isValidCode_def)
    ultimately show ?thesis using cod le by (simp add: eq)
  qed
qed

lemma foldl_mergeStep_ok:
  assumes "separated m" and "list_all valid_range m" and "list_all valid_range cs"
    and "sorted_wrt (\<lambda>a b. compareRanges a b \<le> 0) cs"
    and "m \<noteq> [] \<Longrightarrow> \<forall>c\<in>set cs. range_start (last m) \<le> range_start c"
  shows "separated (foldl mergeStep m cs) \<and> list_all valid_range (foldl mergeStep m cs) \<and>
    codes (foldl mergeStep m cs) = codes m \<union> codes cs"
  using assms
proof (induction cs arbitrary: m)
  case Nil
  then show ?case by (simp add: codes_def)
next
  case (Cons c cs)
  let ?m = "mergeStep m c"
  have step: "separated ?m \<and> list_all valid_range ?m \<and> codes ?m = codes m \<union> codes [c] \<and>
      ?m \<noteq> [] \<and> range_start (last ?m) \<le> range_start c"
    using Cons.prems by (intro mergeStep_ok) auto
  have ge: "\<forall>d\<in>set cs. range_start c \<le> range_start d"
    using Cons.prems(4) by (auto simp: compareRanges_def split: if_splits)
  have "separated (foldl mergeStep ?m cs) \<and> list_all valid_range (foldl mergeStep ?m cs) \<and>
      codes (foldl mergeStep ?m cs) = codes ?m \<union> codes cs"
    using step ge Cons.prems by (intro Cons.IH) (auto intro: order_trans)
  then show ?case using step by (auto simp: codes_def)
qed

lemma mergeRanges_ok:
  assumes "list_all valid_range rs"
  shows "separated (mergeRanges rs)" and "list_all valid_range (mergeRanges rs)"
    and "codes (mergeRanges rs) = codes rs"
  using foldl_mergeStep_ok [of "[]" "js_sort compareRanges rs"] assms rc.sorted_js_sort [of rs]
  by (auto simp: mergeRanges_def separated_def list_all_iff codes_js_sort)

text \<open>On ranges that are already ordered with gaps, merging changes nothing.\<close>

lemma insert_cmp_separated:
  "separated (r # rs) \<Longrightarrow> valid_range r \<Longrightarrow> insert_cmp compareRanges r rs = r # rs"
  by (cases rs) (auto simp: separated_def compareRanges_def valid_range_def)

lemma js_sort_separated: "separated rs \<Longrightarrow> list_all valid_range rs \<Longrightarrow> js_sort compareRanges rs = rs"
  by (induction rs) (auto simp: js_sort_def insert_cmp_separated separated_def)

lemma foldl_mergeStep_separated: "separated (m @ rs) \<Longrightarrow> foldl mergeStep m rs = m @ rs"
proof (induction rs arbitrary: m)
  case (Cons r rs)
  have "m = [] \<or> range_end (last m) + 1 < range_start r"
  proof (cases m rule: rev_cases)
    case (snoc ys y)
    with Cons.prems show ?thesis by (simp add: separated_def sorted_wrt_append)
  qed simp
  then have "mergeStep m r = m @ [r]" by (auto simp: mergeStep_def)
  with Cons show ?case by simp
qed simp

lemma mergeRanges_id: "separated rs \<Longrightarrow> list_all valid_range rs \<Longrightarrow> mergeRanges rs = rs"
  using foldl_mergeStep_separated [of "[]" rs] by (simp add: mergeRanges_def js_sort_separated)

text \<open>A list of ranges that is ordered with gaps is determined by its set of codes.\<close>

lemma separated_Cons_codes:
  assumes "separated (r # rs)" and "list_all valid_range (r # rs)"
  shows "Min (codes (r # rs)) = range_start r"
    and "{n \<in> codes (r # rs). {range_start r..n} \<subseteq> codes (r # rs)} = {range_start r..range_end r}"
    and "codes rs = codes (r # rs) - {range_start r..range_end r}"
proof -
  have r: "range_start r \<le> range_end r" using assms(2) by (simp add: valid_range_def)
  have rest: "\<forall>n\<in>codes rs. range_end r + 1 < n"
    using assms(1) by (fastforce simp: separated_def codes_def)
  have cods: "codes (r # rs) = {range_start r..range_end r} \<union> codes rs"
    by (simp add: codes_def)
  have "finite (codes (r # rs))" by (simp add: codes_def)
  then show "Min (codes (r # rs)) = range_start r"
    using r rest cods by (intro Min_eqI) auto
  have gap: "range_end r + 1 \<notin> codes (r # rs)" using rest cods by auto
  have "n \<le> range_end r" if "n \<in> codes (r # rs)" "{range_start r..n} \<subseteq> codes (r # rs)" for n
  proof (rule ccontr)
    assume "\<not> n \<le> range_end r"
    then have "range_end r + 1 \<in> {range_start r..n}" using r by simp
    with that(2) gap show False by blast
  qed
  moreover have "range_start r \<le> n" if "n \<in> codes (r # rs)" for n
    using that r rest cods by fastforce
  ultimately show "{n \<in> codes (r # rs). {range_start r..n} \<subseteq> codes (r # rs)}
      = {range_start r..range_end r}"
    using cods by (auto simp only: set_eq_iff mem_Collect_eq Un_iff atLeastAtMost_iff)
      (auto simp: subset_iff)
  show "codes rs = codes (r # rs) - {range_start r..range_end r}"
    using rest cods by auto
qed

lemma codes_eq_Nil: "list_all valid_range rs \<Longrightarrow> codes rs = {} \<longleftrightarrow> rs = []"
  by (cases rs) (auto simp: codes_def valid_range_def)

lemma separated_unique:
  assumes "separated xs" and "separated ys"
    and "list_all valid_range xs" and "list_all valid_range ys" and "codes xs = codes ys"
  shows "xs = ys"
  using assms
proof (induction xs arbitrary: ys)
  case Nil
  then show ?case by (metis codes_Nil codes_eq_Nil)
next
  case (Cons x xs)
  then have "codes ys \<noteq> {}" using codes_eq_Nil by (metis list.distinct(1))
  then obtain y zs where ys: "ys = y # zs" by (cases ys) auto
  note X = separated_Cons_codes [OF Cons.prems(1) Cons.prems(3)]
  note Y = separated_Cons_codes [OF Cons.prems(2) [unfolded ys] Cons.prems(4) [unfolded ys]]
  have s: "range_start x = range_start y" using X(1) Y(1) Cons.prems(5) ys by simp
  have iv: "{range_start x..range_end x} = {range_start y..range_end y}"
    using X(2) Y(2) Cons.prems(5) ys s by metis
  moreover have "range_start x \<le> range_end x" using Cons.prems(3) by (simp add: valid_range_def)
  ultimately have e: "range_end x = range_end y" by (simp add: Icc_eq_Icc)
  have "codes xs = codes zs" using X(3) Y(3) iv Cons.prems(5) ys by simp
  then have "xs = zs"
    using Cons.prems ys by (intro Cons.IH) (auto simp: separated_def)
  with s e ys show ?case by simp
qed

section \<open>Printing and parsing\<close>

lemma isNumber_show_nat [simp]: "isNumber (show_nat n)"
  by (simp add: isNumber_def list_all_iff show_nat_digits)

lemma showRange_ne [simp]: "showRange r \<noteq> []"
  by (simp add: showRange_def)

lemma showRange_chars: "c \<in> set (showRange r) \<Longrightarrow> is_digit c \<or> c = jsc CHR ''-''"
  using show_nat_digits by (auto simp: showRange_def js_simps split: if_splits)

lemma jsc_dash_not_ws: "\<not> is_ws (jsc CHR ''-'')"
  by (simp add: jsc_dash is_ws_def)

lemma showRange_plain:
  "c \<in> set (showRange r) \<Longrightarrow> \<not> is_ws c \<and> c \<noteq> jsc CHR '','' \<and> c \<noteq> 0xFF0C"
  using showRange_chars [of c r]
  using jsc_dash_not_ws
  by (auto simp: digit_not_ws digit_neq jsc_dash jsc_comma is_digit_def word_le_nat_alt)

lemma parseToken_showRange: "valid_range r \<Longrightarrow> parseToken (showRange r) = Some r"
proof -
  assume v: "valid_range r"
  have clean: "filter (\<lambda>c. \<not> is_ws c) (trim (showRange r)) = showRange r"
    using showRange_plain by (auto simp: trim_no_ws filter_id_conv)
  have nodash: "jsc CHR ''-'' \<notin> set (show_nat n)" for n
    using show_nat_digits digit_neq(2) by blast
  show ?thesis
  proof (cases "range_start r = range_end r")
    case True
    then have "\<not> js_includes (showRange r) (js ''-'')"
      using nodash [of "range_end r"]
      by (auto simp: js_includes_iff showRange_def js_simps sublist_def)
    with True v clean show ?thesis
      by (simp add: parseToken_def Let_def showRange_def parse_digits_show_nat valid_range_def)
  next
    case False
    then have eq: "showRange r =
        show_nat (range_start r) @ jsc CHR ''-'' # show_nat (range_end r)"
      by (simp add: showRange_def js_simps)
    then have "js_includes (showRange r) (js ''-'')"
      by (auto simp: js_includes_iff js_simps sublist_def)
    moreover have "split_on (jsc CHR ''-'') (showRange r) =
        [show_nat (range_start r), show_nat (range_end r)]"
      by (simp add: eq split_on_append_sep split_on_no_sep nodash)
    ultimately show ?thesis
      using v clean
      by (simp add: parseToken_def Let_def parse_digits_show_nat valid_range_def)
  qed
qed

text \<open>The segments of a printed list of ranges are the printed ranges.\<close>

lemma set_join: "set (join sep xs) \<subseteq> set sep \<union> \<Union> (set ` set xs)"
  by (induction sep xs rule: join.induct) auto

lemma segmentsOf_printed:
  assumes "rs \<noteq> []"
  shows "segmentsOf (join (js '','') (map showRange rs)) = map showRange rs"
proof -
  let ?s = "join (js '','') (map showRange rs)"
  have "c \<noteq> 0xFF0C" if "c \<in> set ?s" for c
    using that set_join [of "js '',''" "map showRange rs"] showRange_plain
    by (fastforce simp: js_simps jsc_comma)
  then have "map (\<lambda>c. if c = 0xFF0C then jsc CHR '','' else c) ?s = ?s"
    by (simp add: map_idI)
  moreover have "split_on (jsc CHR '','') ?s = map showRange rs"
    using assms by (auto simp: js_simps dest: showRange_plain intro!: split_on_join)
  moreover have "trim (showRange r) = showRange r" for r
    using showRange_plain by (intro trim_no_ws) blast
  ultimately show ?thesis by (simp add: segmentsOf_def comp_def)
qed

lemma trim_printed: "trim (join (js '','') (map showRange rs)) = join (js '','') (map showRange rs)"
proof (rule trim_no_ws, rule ballI)
  fix c assume "c \<in> set (join (js '','') (map showRange rs))"
  then show "\<not> is_ws c"
    using set_join [of "js '',''" "map showRange rs"] showRange_plain
    by (fastforce simp: js_simps jsc_comma is_ws_def)
qed

lemma map_filter_parse_show:
  "list_all valid_range rs \<Longrightarrow> List.map_filter parseToken (map showRange rs) = rs"
  by (induction rs) (auto simp: map_filter_simps parseToken_showRange)

lemma join_printed_ne: "rs \<noteq> [] \<Longrightarrow> join (js '','') (map showRange rs) \<noteq> []"
  by (cases rs; cases "tl rs") auto

lemma parse_printed:
  assumes "separated rs" and "list_all valid_range rs"
  shows "parseHttpStatusCodeRules (Some (join (js '','') (map showRange rs)))
    = \<lparr>ok = True, ranges = rs, tokens = map showRange rs,
       normalized = join (js '','') (map showRange rs), invalidTokens = []\<rparr>"
proof (cases "rs = []")
  case True
  then show ?thesis by (simp add: parseHttpStatusCodeRules_def)
next
  case False
  have "filter (\<lambda>s. parseToken s = None) (map showRange rs) = []"
    using assms(2) by (auto simp: filter_empty_conv list_all_iff parseToken_showRange)
  with False assms show ?thesis
    by (simp add: parseHttpStatusCodeRules_def trim_printed join_printed_ne segmentsOf_printed
      map_filter_parse_show mergeRanges_id Let_def)
qed

text \<open>What a successful parse returns.\<close>

lemma map_filter_valid: "list_all valid_range (List.map_filter parseToken ts)"
  by (auto simp: list_all_iff List.map_filter_def parseToken_valid)

lemma parse_ok:
  assumes "ok (parseHttpStatusCodeRules input)"
  shows "parseHttpStatusCodeRules input =
    (let rs = mergeRanges (List.map_filter parseToken (segmentsOf (trim (nullish input [])))) in
     \<lparr>ok = True, ranges = rs, tokens = map showRange rs,
      normalized = join (js '','') (map showRange rs), invalidTokens = []\<rparr>)"
  using assms
  by (auto simp: parseHttpStatusCodeRules_def Let_def segmentsOf_def map_filter_simps mergeRanges_def
    split: if_splits)

lemmas parse_eval = parseHttpStatusCodeRules_def segmentsOf_def js_simps trim_def
  trim_start_def parseToken_def js_includes_def isNumber_def parse_digits_def
  isValidCode_def mergeRanges_def js_sort_def compareRanges_def mergeStep_def
  showRange_def show_nat.simps map_filter_simps

section \<open>Properties\<close>

text \<open>C1: For accepted input, the ranges are valid HTTP codes, strictly ordered with a gap of
  at least one code between neighbours, and they stand for exactly the codes named by the
  tokens of the input.\<close>

theorem parse_ranges_correct:
  assumes "ok (parseHttpStatusCodeRules input)"
  shows "separated (ranges (parseHttpStatusCodeRules input)) \<and>
    list_all valid_range (ranges (parseHttpStatusCodeRules input)) \<and>
    codes (ranges (parseHttpStatusCodeRules input)) =
      codes (List.map_filter parseToken (segmentsOf (trim (nullish input []))))"
  unfolding parse_ok [OF assms] Let_def
  using mergeRanges_ok [OF map_filter_valid] by simp

lemma parse_example:
  "parseHttpStatusCodeRules (Some (js ''404,400-403'')) =
    \<lparr>ok = True, ranges = [\<lparr>range_start = 400, range_end = 404\<rparr>], tokens = [js ''400-404''],
     normalized = js ''400-404'', invalidTokens = []\<rparr>"
  by (simp add: parse_eval)

lemma parse_example_normal:
  "parseHttpStatusCodeRules (Some (js ''400-404'')) =
    \<lparr>ok = True, ranges = [\<lparr>range_start = 400, range_end = 404\<rparr>], tokens = [js ''400-404''],
     normalized = js ''400-404'', invalidTokens = []\<rparr>"
  using parse_printed [of "[\<lparr>range_start = 400, range_end = 404\<rparr>]"]
  by (simp add: separated_def valid_range_def isValidCode_def showRange_def show_nat.simps js_simps)

theorem parse_ranges_correct_witness:
  "ok (parseHttpStatusCodeRules (Some (js ''404,400-403'')))
   \<and> separated (ranges (parseHttpStatusCodeRules (Some (js ''404,400-403''))))
   \<and> codes (ranges (parseHttpStatusCodeRules (Some (js ''404,400-403'')))) = {400..404}"
  using parse_ranges_correct [of "Some (js ''404,400-403'')"]
  by (simp add: parse_example codes_def)

text \<open>C2: Printing and parsing round-trip: the normal form of accepted input is accepted,
  and parsing it returns the same ranges, tokens and normal form.\<close>

theorem parse_normalized_roundtrip:
  assumes "ok (parseHttpStatusCodeRules input)"
  shows "parseHttpStatusCodeRules (Some (normalized (parseHttpStatusCodeRules input)))
    = parseHttpStatusCodeRules input"
  unfolding parse_ok [OF assms] Let_def
  using mergeRanges_ok [OF map_filter_valid] by (simp add: parse_printed)

theorem parse_normalized_roundtrip_witness:
  "parseHttpStatusCodeRules (Some (js ''400-404'')) = parseHttpStatusCodeRules (Some (js ''404,400-403''))"
  using parse_normalized_roundtrip [of "Some (js ''404,400-403'')"] by (simp add: parse_example)

text \<open>The normal form is canonical: two accepted inputs whose tokens stand for the same
  set of codes have the same normal form.\<close>

theorem normalized_canonical:
  assumes "ok (parseHttpStatusCodeRules a)" and "ok (parseHttpStatusCodeRules b)"
    and "codes (List.map_filter parseToken (segmentsOf (trim (nullish a []))))
      = codes (List.map_filter parseToken (segmentsOf (trim (nullish b []))))"
  shows "normalized (parseHttpStatusCodeRules a) = normalized (parseHttpStatusCodeRules b)"
  unfolding parse_ok [OF assms(1)] parse_ok [OF assms(2)] Let_def
  using assms(3) separated_unique mergeRanges_ok [OF map_filter_valid] by metis

theorem normalized_canonical_witness:
  "normalized (parseHttpStatusCodeRules (Some (js ''404,400-403'')))
   = normalized (parseHttpStatusCodeRules (Some (js ''400-404'')))"
proof (rule normalized_canonical)
  have a: "List.map_filter parseToken (segmentsOf (trim (js ''404,400-403'')))
      = [\<lparr>range_start = 404, range_end = 404\<rparr>, \<lparr>range_start = 400, range_end = 403\<rparr>]"
    and b: "List.map_filter parseToken (segmentsOf (trim (js ''400-404'')))
      = [\<lparr>range_start = 400, range_end = 404\<rparr>]"
    by (simp_all add: parse_eval)
  show "codes (List.map_filter parseToken (segmentsOf (trim (nullish (Some (js ''404,400-403'')) []))))
    = codes (List.map_filter parseToken (segmentsOf (trim (nullish (Some (js ''400-404'')) []))))"
    by (auto simp: a b codes_Cons)
qed (simp_all add: parse_example parse_example_normal)

text \<open>Input is rejected exactly when some segment is not a valid token; then the invalid
  segments are reported in order, no range is returned, and the normal form is the trimmed
  input.\<close>

theorem parse_rejects_iff:
  "(\<not> ok (parseHttpStatusCodeRules input) \<longleftrightarrow>
     (\<exists>t\<in>set (segmentsOf (trim (nullish input []))). parseToken t = None)) \<and>
   (\<not> ok (parseHttpStatusCodeRules input) \<longrightarrow>
     parseHttpStatusCodeRules input =
       \<lparr>ok = False, ranges = [], tokens = [], normalized = trim (nullish input []),
        invalidTokens = filter (\<lambda>t. parseToken t = None) (segmentsOf (trim (nullish input [])))\<rparr>)"
  by (auto simp: parseHttpStatusCodeRules_def Let_def segmentsOf_def filter_empty_conv
    split: if_splits)

theorem parse_rejects_witness:
  "invalidTokens (parseHttpStatusCodeRules (Some (js ''4x4,200''))) = [js ''4x4'']"
  using parse_rejects_iff [of "Some (js ''4x4,200'')"] by (simp add: parse_eval)

text \<open>A range token with more than one dash is accepted: what follows the second dash is
  dropped instead of being reported as invalid.\<close>

lemma parseToken_ignores_third_part: "parseToken (js ''200-300-x'') = Some \<lparr>range_start = 200, range_end = 300\<rparr>"
  by (simp add: parse_eval)

end
