(* ===== verification/PlaygroundMessages.thy ===== *)
theory PlaygroundMessages
  imports JS_Prelude
begin

text \<open>
  The message data model of the playground (\<open>features/playground/types.ts\<close>,
  \<open>constants.ts\<close>) and the pure functions on single messages of
  \<open>lib/message/message-utils.ts\<close>, \<open>message-timing-utils.ts\<close>,
  \<open>message-update-utils.ts\<close>, \<open>message-error-utils.ts\<close>, \<open>message-editor-utils.ts\<close>,
  \<open>message-action-utils.ts\<close>, \<open>message-layout-utils.ts\<close> and of the request payload in
  \<open>lib/streaming/payload-builder.ts\<close>. An absent optional field is \<open>None\<close>. Identifiers made
  by \<open>nanoid()\<close> and readings of \<open>Date.now()\<close> are arguments, one per call in the source,
  in the order of the calls. The locale \<open>message_updater\<close> is the contract of a function that
  the code passes to \<open>updateLastAssistantMessage\<close>.
\<close>

section \<open>Types and constants\<close>

datatype MessageRole = User | Assistant | System

datatype MessageStatus = Loading | Streaming | Complete | Error

datatype PlaygroundMessageLayoutMode = Alternating | LeftLayout

record MessageVersion =
  version_id :: jsstr
  content :: jsstr

record Source =
  href :: jsstr
  title :: jsstr

record Reasoning =
  reasoning_content :: jsstr
  reasoning_duration :: jsnum
  reasoning_startedAt :: "jsnum option"
  reasoning_completedAt :: "jsnum option"
  reasoning_durationMs :: "jsnum option"

text \<open>\<open>errorCode\<close> distinguishes an absent field, \<open>null\<close> and a string.\<close>

record Message =
  key :: jsstr
  msg_from :: MessageRole
  versions :: "MessageVersion list"
  createdAt :: "jsnum option"
  startedAt :: "jsnum option"
  completedAt :: "jsnum option"
  durationMs :: "jsnum option"
  sources :: "Source list option"
  reasoning :: "Reasoning option"
  isReasoningStreaming :: "bool option"
  isReasoningComplete :: "bool option"
  isContentComplete :: "bool option"
  status :: "MessageStatus option"
  errorCode :: "jsstr option option"

definition API_REQUEST_ERROR :: jsstr where
  "API_REQUEST_ERROR = js ''Request error occurred''"

definition NETWORK_ERROR :: jsstr where
  "NETWORK_ERROR = js ''Network connection failed or server not responding''"

definition PARSE_ERROR :: jsstr where
  "PARSE_ERROR = js ''Error parsing response data''"

definition STREAM_START_ERROR :: jsstr where
  "STREAM_START_ERROR = js ''Error establishing connection''"

definition CONNECTION_CLOSED :: jsstr where
  "CONNECTION_CLOSED = js ''Connection closed''"

definition INTERRUPTED :: jsstr where
  "INTERRUPTED = js ''Generation was interrupted''"

definition ERROR_MESSAGES :: "jsstr list" where
  "ERROR_MESSAGES = [API_REQUEST_ERROR, NETWORK_ERROR, PARSE_ERROR, STREAM_START_ERROR,
     CONNECTION_CLOSED, INTERRUPTED]"

section \<open>Operations on one message\<close>

subsection \<open>Versions and construction\<close>

definition createMessageVersion :: "jsstr \<Rightarrow> jsstr \<Rightarrow> MessageVersion" where
  "createMessageVersion newId c = \<lparr>version_id = newId, content = c\<rparr>"

definition getCurrentVersion :: "Message \<Rightarrow> MessageVersion" where
  "getCurrentVersion m =
     (case versions m of v # _ \<Rightarrow> v | [] \<Rightarrow> \<lparr>version_id = js ''default'', content = []\<rparr>)"

definition getMessageContent :: "Message \<Rightarrow> jsstr" where
  "getMessageContent m = content (getCurrentVersion m)"

definition hasMessageContent :: "Message \<Rightarrow> bool" where
  "hasMessageContent m \<longleftrightarrow> trim (getMessageContent m) \<noteq> []"

definition updateCurrentVersionContent :: "Message \<Rightarrow> jsstr \<Rightarrow> Message" where
  "updateCurrentVersionContent m c = m\<lparr>versions := [(getCurrentVersion m)\<lparr>content := c\<rparr>]\<rparr>"

definition createUserMessage :: "jsstr \<Rightarrow> jsstr \<Rightarrow> jsstr \<Rightarrow> jsnum \<Rightarrow> Message" where
  "createUserMessage newKey newVersion c created =
     \<lparr>key = newKey, msg_from = User, versions = [createMessageVersion newVersion c],
      createdAt = Some created, startedAt = None, completedAt = None, durationMs = None,
      sources = None, reasoning = None, isReasoningStreaming = None, isReasoningComplete = None,
      isContentComplete = None, status = None, errorCode = None\<rparr>"

definition createLoadingAssistantMessage :: "jsstr \<Rightarrow> jsstr \<Rightarrow> jsnum \<Rightarrow> Message" where
  "createLoadingAssistantMessage newKey newVersion started =
     \<lparr>key = newKey, msg_from = Assistant, versions = [createMessageVersion newVersion []],
      createdAt = Some started, startedAt = Some started, completedAt = None, durationMs = None,
      sources = None, reasoning = None, isReasoningStreaming = Some False,
      isReasoningComplete = Some False, isContentComplete = Some False,
      status = Some Loading, errorCode = None\<rparr>"

subsection \<open>API payload\<close>

datatype ContentPart = TextPart "jsstr option" | ImageUrlPart jsstr

datatype MessageContent = PlainContent jsstr | PartsContent "ContentPart list"

record ChatCompletionMessage =
  chat_role :: MessageRole
  chat_content :: MessageContent

definition buildMessageContent :: "jsstr \<Rightarrow> jsstr list \<Rightarrow> MessageContent" where
  "buildMessageContent text imageUrls =
     (let validImages = filter (\<lambda>url. trim url \<noteq> []) imageUrls in
      if length validImages = 0 then PlainContent text
      else PartsContent (TextPart (Some text) # map (\<lambda>url. ImageUrlPart (trim url)) validImages))"

fun firstTextPart :: "ContentPart list \<Rightarrow> jsstr option option" where
  "firstTextPart [] = None"
| "firstTextPart (TextPart t # ps) = Some t"
| "firstTextPart (ImageUrlPart u # ps) = firstTextPart ps"

definition getTextContent :: "MessageContent \<Rightarrow> jsstr" where
  "getTextContent c =
     (case c of
        PlainContent t \<Rightarrow> t
      | PartsContent ps \<Rightarrow> (case firstTextPart ps of Some t \<Rightarrow> or_str t [] | None \<Rightarrow> []))"

definition formatMessageForAPI :: "Message \<Rightarrow> ChatCompletionMessage" where
  "formatMessageForAPI m =
     \<lparr>chat_role = msg_from m, chat_content = PlainContent (content (getCurrentVersion m))\<rparr>"

definition isValidMessage :: "Message \<Rightarrow> bool" where
  "isValidMessage m \<longleftrightarrow>
     versions m \<noteq> [] \<and> \<not> (msg_from m = Assistant \<and> \<not> hasMessageContent m)"

text \<open>Request parameters are only passed along, so they are exact rationals.\<close>

record PlaygroundConfig =
  model :: jsstr
  group :: jsstr
  temperature :: rat
  top_p :: rat
  max_tokens :: rat
  frequency_penalty :: rat
  presence_penalty :: rat
  seed :: "rat option"
  stream :: bool

record ParameterEnabled =
  en_temperature :: bool
  en_top_p :: bool
  en_max_tokens :: bool
  en_frequency_penalty :: bool
  en_presence_penalty :: bool
  en_seed :: bool

record ChatCompletionRequest =
  req_model :: jsstr
  req_group :: "jsstr option"
  req_messages :: "ChatCompletionMessage list"
  req_stream :: bool
  req_temperature :: "rat option"
  req_top_p :: "rat option"
  req_max_tokens :: "rat option"
  req_frequency_penalty :: "rat option"
  req_presence_penalty :: "rat option"
  req_seed :: "rat option"

definition DEFAULT_CONFIG :: PlaygroundConfig where
  "DEFAULT_CONFIG = \<lparr>model = js ''gpt-4o'', group = js ''default'', temperature = 7 / 10, top_p = 1,
     max_tokens = 4096, frequency_penalty = 0, presence_penalty = 0, seed = None, stream = True\<rparr>"

definition DEFAULT_PARAMETER_ENABLED :: ParameterEnabled where
  "DEFAULT_PARAMETER_ENABLED = \<lparr>en_temperature = True, en_top_p = True, en_max_tokens = False,
     en_frequency_penalty = True, en_presence_penalty = True, en_seed = False\<rparr>"

definition buildChatCompletionPayload ::
  "Message list \<Rightarrow> PlaygroundConfig \<Rightarrow> ParameterEnabled \<Rightarrow> ChatCompletionRequest" where
  "buildChatCompletionPayload messages config enabled =
     \<lparr>req_model = model config,
      req_group = Some (group config),
      req_messages = map formatMessageForAPI (filter isValidMessage messages),
      req_stream = stream config,
      req_temperature = (if en_temperature enabled then Some (temperature config) else None),
      req_top_p = (if en_top_p enabled then Some (top_p config) else None),
      req_max_tokens = (if en_max_tokens enabled then Some (max_tokens config) else None),
      req_frequency_penalty =
        (if en_frequency_penalty enabled then Some (frequency_penalty config) else None),
      req_presence_penalty =
        (if en_presence_penalty enabled then Some (presence_penalty config) else None),
      req_seed = (if en_seed enabled \<and> seed config \<noteq> None then seed config else None)\<rparr>"

subsection \<open>Timing\<close>

definition completeAssistantTiming :: "Message \<Rightarrow> jsnum \<Rightarrow> Message" where
  "completeAssistantTiming m completed =
     (if msg_from m \<noteq> Assistant then m
      else
        let started = nullish (startedAt m) (nullish (createdAt m) completed) in
        m\<lparr>startedAt := Some started, completedAt := Some completed,
          durationMs := Some (max 0 (completed - started))\<rparr>)"

definition startReasoningTiming :: "Message \<Rightarrow> jsnum \<Rightarrow> Reasoning" where
  "startReasoningTiming m started =
     (case reasoning m of
        None \<Rightarrow> \<lparr>reasoning_content = [], reasoning_duration = 0, reasoning_startedAt = Some started,
                 reasoning_completedAt = None, reasoning_durationMs = None\<rparr>
      | Some r \<Rightarrow> r\<lparr>reasoning_startedAt := Some (nullish (reasoning_startedAt r) started)\<rparr>)"

text \<open>\<open>Math.ceil(durationMs / 1000)\<close>.\<close>

definition ceil_seconds :: "jsnum \<Rightarrow> jsnum" where
  "ceil_seconds ms = of_int \<lceil>ms / 1000\<rceil>"

definition completeReasoningTiming :: "Message \<Rightarrow> jsnum \<Rightarrow> Message" where
  "completeReasoningTiming m completed =
     (case reasoning m of
        None \<Rightarrow> m
      | Some r \<Rightarrow>
          if reasoning_durationMs r \<noteq> None then m
          else
            let started = nullish (reasoning_startedAt r) (nullish (startedAt m) completed);
                ms = max 0 (completed - started) in
            m\<lparr>reasoning := Some (r\<lparr>reasoning_startedAt := Some started,
               reasoning_completedAt := Some completed, reasoning_durationMs := Some ms,
               reasoning_duration := ceil_seconds ms\<rparr>)\<rparr>)"

subsection \<open>Updating the last assistant message\<close>

definition updateLastAssistantMessage ::
  "Message list \<Rightarrow> (Message \<Rightarrow> Message) \<Rightarrow> Message list" where
  "updateLastAssistantMessage messages updater =
     (if length messages = 0 then messages
      else if msg_from (last messages) \<noteq> Assistant then messages
      else messages[length messages - 1 := updater (last messages)])"

text \<open>The updater that marks a message as failed, as an operation of its own.\<close>

definition messageWithError :: "jsnum \<Rightarrow> jsstr \<Rightarrow> jsstr option \<Rightarrow> jsstr \<Rightarrow> Message \<Rightarrow> Message" where
  "messageWithError now errorMessage code titleText m =
     completeAssistantTiming
       ((updateCurrentVersionContent m (titleText @ js '': '' @ errorMessage))
          \<lparr>status := Some Error, isReasoningStreaming := Some False,
           errorCode := Some (case code of Some (c # cs) \<Rightarrow> Some (c # cs) | _ \<Rightarrow> None)\<rparr>) now"

definition updateAssistantMessageWithError ::
  "jsnum \<Rightarrow> Message list \<Rightarrow> jsstr \<Rightarrow> jsstr option \<Rightarrow> jsstr \<Rightarrow> Message list" where
  "updateAssistantMessageWithError now messages errorMessage code titleText =
     updateLastAssistantMessage messages (messageWithError now errorMessage code titleText)"

subsection \<open>Derived view state\<close>

record MessageErrorState =
  err_content :: jsstr
  isModelPriceKind :: bool
  showSettingsLink :: bool

definition isAdminRole :: "int option \<Rightarrow> bool" where
  "isAdminRole role \<longleftrightarrow> (case role of None \<Rightarrow> False | Some r \<Rightarrow> r \<ge> 10)"

definition isErrorMessage :: "Message \<Rightarrow> bool" where
  "isErrorMessage m \<longleftrightarrow> status m = Some Error"

definition getMessageErrorState :: "Message \<Rightarrow> bool \<Rightarrow> MessageErrorState option" where
  "getMessageErrorState m isAdmin =
     (if \<not> isErrorMessage m then None
      else
        let c = or_str (Some (getMessageContent m)) (js ''An unknown error occurred'');
            price = (errorCode m = Some (Some (js ''model_price_error''))) in
        Some \<lparr>err_content = c, isModelPriceKind = price, showSettingsLink = price \<and> isAdmin\<rparr>)"

record MessageEditorState =
  canSave :: bool
  hasChanged :: bool
  showSaveAndSubmit :: bool

definition getMessageEditorState :: "Message \<Rightarrow> jsstr \<Rightarrow> jsstr \<Rightarrow> MessageEditorState" where
  "getMessageEditorState m editText originalText =
     (let hasText = length (trim editText) > 0; changed = (editText \<noteq> originalText) in
      \<lparr>canSave = hasText \<and> changed, hasChanged = changed, showSaveAndSubmit = (msg_from m = User)\<rparr>)"

record MessageActionState =
  act_content :: jsstr
  act_hasContent :: bool
  act_isAssistant :: bool
  act_isLoading :: bool
  act_isUser :: bool

definition getMessageActionState :: "Message \<Rightarrow> MessageActionState" where
  "getMessageActionState m =
     \<lparr>act_content = getMessageContent m, act_hasContent = hasMessageContent m,
      act_isAssistant = (msg_from m = Assistant),
      act_isLoading = (status m = Some Loading \<or> status m = Some Streaming),
      act_isUser = (msg_from m = User)\<rparr>"

datatype MessageAlignment = AlignLeft | AlignRight

definition getMessageAlignment :: "Message \<Rightarrow> PlaygroundMessageLayoutMode \<Rightarrow> MessageAlignment" where
  "getMessageAlignment m mode =
     (if mode = LeftLayout then AlignLeft else if msg_from m = User then AlignRight else AlignLeft)"

section \<open>Lemmas\<close>

text \<open>A pending assistant message is one whose generation has not ended.\<close>

lemma getCurrentVersion_update [simp]:
  "getCurrentVersion (updateCurrentVersionContent m c) = (getCurrentVersion m)\<lparr>content := c\<rparr>"
  by (simp add: updateCurrentVersionContent_def getCurrentVersion_def)

lemma getMessageContent_update [simp]: "getMessageContent (updateCurrentVersionContent m c) = c"
  by (simp add: getMessageContent_def)

lemma createLoading_simps [simp]:
  "getMessageContent (createLoadingAssistantMessage k v t) = []"
  "status (createLoadingAssistantMessage k v t) = Some Loading"
  "msg_from (createLoadingAssistantMessage k v t) = Assistant"
  "key (createLoadingAssistantMessage k v t) = k"
  "reasoning (createLoadingAssistantMessage k v t) = None"
  by (simp_all add: createLoadingAssistantMessage_def getMessageContent_def getCurrentVersion_def
    createMessageVersion_def)

lemma createUser_simps [simp]:
  "getMessageContent (createUserMessage k v c t) = c"
  "status (createUserMessage k v c t) = None"
  "msg_from (createUserMessage k v c t) = User"
  "key (createUserMessage k v c t) = k"
  by (simp_all add: createUserMessage_def getMessageContent_def getCurrentVersion_def
    createMessageVersion_def)

text \<open>Changing other fields than the versions keeps the current version.\<close>

lemma getCurrentVersion_frame [simp]:
  "getCurrentVersion (m\<lparr>status := s\<rparr>) = getCurrentVersion m"
  "getCurrentVersion (m\<lparr>reasoning := r\<rparr>) = getCurrentVersion m"
  "getCurrentVersion (m\<lparr>isReasoningStreaming := b\<rparr>) = getCurrentVersion m"
  "getCurrentVersion (m\<lparr>errorCode := e\<rparr>) = getCurrentVersion m"
  "getCurrentVersion (m\<lparr>createdAt := t\<rparr>) = getCurrentVersion m"
  "getCurrentVersion (completeAssistantTiming m now) = getCurrentVersion m"
  "getCurrentVersion (completeReasoningTiming m now) = getCurrentVersion m"
  by (simp_all add: getCurrentVersion_def completeAssistantTiming_def completeReasoningTiming_def
    Let_def split: option.splits)

lemma update_frame [simp]:
  "key (updateCurrentVersionContent m c) = key m"
  "msg_from (updateCurrentVersionContent m c) = msg_from m"
  "status (updateCurrentVersionContent m c) = status m"
  "reasoning (updateCurrentVersionContent m c) = reasoning m"
  "isReasoningStreaming (updateCurrentVersionContent m c) = isReasoningStreaming m"
  "startedAt (updateCurrentVersionContent m c) = startedAt m"
  "createdAt (updateCurrentVersionContent m c) = createdAt m"
  "length (versions (updateCurrentVersionContent m c)) = 1"
  by (simp_all add: updateCurrentVersionContent_def)

lemma assistantTiming_frame [simp]:
  "key (completeAssistantTiming m now) = key m"
  "msg_from (completeAssistantTiming m now) = msg_from m"
  "status (completeAssistantTiming m now) = status m"
  "reasoning (completeAssistantTiming m now) = reasoning m"
  "versions (completeAssistantTiming m now) = versions m"
  "isReasoningStreaming (completeAssistantTiming m now) = isReasoningStreaming m"
  "errorCode (completeAssistantTiming m now) = errorCode m"
  by (simp_all add: completeAssistantTiming_def Let_def)

lemma reasoningTiming_frame [simp]:
  "key (completeReasoningTiming m now) = key m"
  "msg_from (completeReasoningTiming m now) = msg_from m"
  "status (completeReasoningTiming m now) = status m"
  "versions (completeReasoningTiming m now) = versions m"
  "isReasoningStreaming (completeReasoningTiming m now) = isReasoningStreaming m"
  "startedAt (completeReasoningTiming m now) = startedAt m"
  "createdAt (completeReasoningTiming m now) = createdAt m"
  by (simp_all add: completeReasoningTiming_def Let_def split: option.splits)

lemma reasoningTiming_content:
  "map_option reasoning_content (reasoning (completeReasoningTiming m now))
   = map_option reasoning_content (reasoning m)"
  by (simp add: completeReasoningTiming_def Let_def split: option.splits)

lemma startReasoning_content [simp]:
  "reasoning_content (startReasoningTiming m now)
   = (case reasoning m of None \<Rightarrow> [] | Some r \<Rightarrow> reasoning_content r)"
  by (simp add: startReasoningTiming_def split: option.splits)

text \<open>An ended assistant message has a start, an end and a non-negative duration that is their
  distance when the clock did not run backwards.\<close>

lemma completeAssistantTiming_times:
  assumes "msg_from m = Assistant"
  shows "\<exists>s d. startedAt (completeAssistantTiming m now) = Some s \<and>
    completedAt (completeAssistantTiming m now) = Some now \<and>
    durationMs (completeAssistantTiming m now) = Some d \<and> d \<ge> 0 \<and> (s \<le> now \<longrightarrow> d = now - s)"
  using assms by (simp add: completeAssistantTiming_def Let_def)

lemma ceil_seconds_bounds:
  "1000 * ceil_seconds ms \<ge> ms" "1000 * ceil_seconds ms < ms + 1000"
proof -
  have "ms / 1000 \<le> ceil_seconds ms" "ceil_seconds ms < ms / 1000 + 1"
    by (simp_all add: ceil_seconds_def) linarith
  then show "1000 * ceil_seconds ms \<ge> ms" "1000 * ceil_seconds ms < ms + 1000"
    by (simp_all add: field_simps)
qed

text \<open>The list operation, unfolded at the end of the list.\<close>

lemma updateLast_snoc [simp]:
  "updateLastAssistantMessage (ms @ [m]) f = ms @ [if msg_from m = Assistant then f m else m]"
  by (auto simp: updateLastAssistantMessage_def list_update_append)

lemma updateLast_Nil [simp]: "updateLastAssistantMessage [] f = []"
  by (simp add: updateLastAssistantMessage_def)

text \<open>
  The contract of an updater: it keeps the identity and the role of the message. The list
  operation then keeps the sequence of identities and roles and all earlier messages.
\<close>

locale message_updater =
  fixes upd :: "Message \<Rightarrow> Message"
  assumes key_upd: "key (upd m) = key m"
    and from_upd: "msg_from (upd m) = msg_from m"
begin

lemma keys_updateLast: "map key (updateLastAssistantMessage ms upd) = map key ms"
  by (cases ms rule: rev_cases) (auto simp: key_upd)

lemma roles_updateLast: "map msg_from (updateLastAssistantMessage ms upd) = map msg_from ms"
  by (cases ms rule: rev_cases) (auto simp: from_upd)

lemma earlier_updateLast: "butlast (updateLastAssistantMessage ms upd) = butlast ms"
  by (cases ms rule: rev_cases) auto

lemma length_updateLast: "length (updateLastAssistantMessage ms upd) = length ms"
  by (cases ms rule: rev_cases) auto

end

lemma messageWithError_frame [simp]:
  "key (messageWithError now e c t m) = key m"
  "msg_from (messageWithError now e c t m) = msg_from m"
  "status (messageWithError now e c t m) = Some Error"
  "getMessageContent (messageWithError now e c t m) = t @ js '': '' @ e"
  by (simp_all add: messageWithError_def getMessageContent_def)

interpretation err_upd: message_updater "messageWithError now e c t" for now e c t
  by unfold_locales simp_all

end
