(* ===== verification/ThinkTags.thy ===== *)
theory ThinkTags
  imports JS_Prelude
begin

text \<open>
  The separation of reasoning from visible text of
  \<open>features/playground/lib/message/message-reasoning-utils.ts\<close>. The scanning loop keeps
  positions into the content, as the source does; it is shown to compute the parts of a
  specification by recursion on the remaining text, and the specification inverts a
  renderer of visible and reasoning segments.
\<close>

section \<open>Definitions\<close>

record ParsedThinkTags =
  visibleContent :: jsstr
  parsed_reasoning :: jsstr
  hasUnclosedTag :: bool

definition think_open :: jsstr where
  "think_open = js ''<think>''"

definition think_close :: jsstr where
  "think_close = js ''</think>''"

text \<open>The loop: the current position and the parts collected so far.\<close>

function thinkLoop ::
  "jsstr \<Rightarrow> nat \<Rightarrow> jsstr list \<Rightarrow> jsstr list \<Rightarrow> jsstr list \<times> jsstr list \<times> bool" where
  "thinkLoop str currentPos visibleParts reasoningParts =
     (case index_of_from str think_open currentPos of
        None \<Rightarrow>
          (if currentPos < length str then visibleParts @ [drop currentPos str] else visibleParts,
           reasoningParts, False)
      | Some openPos \<Rightarrow>
          let visible = (if openPos > currentPos
                         then visibleParts @ [slice str currentPos openPos] else visibleParts) in
          (case index_of_from str think_close (openPos + 7) of
             None \<Rightarrow> (visible, reasoningParts @ [drop (openPos + 7) str], True)
           | Some closePos \<Rightarrow>
               thinkLoop str (closePos + 8) visible
                 (reasoningParts @ [slice str (openPos + 7) closePos])))"
  by pat_completeness auto
termination
proof (relation "measure (\<lambda>(str, pos, _, _). length str - pos)", simp, goal_cases)
  case prems: (1 str currentPos visibleParts reasoningParts openPos visible closePos)
  from prems(1) obtain i where i: "index_of think_open (drop currentPos str) = Some i"
      and opos: "openPos = currentPos + i"
    by (auto simp: index_of_from_def)
  from prems(3) obtain j where j: "index_of think_close (drop (openPos + 7) str) = Some j"
      and c: "closePos = openPos + 7 + j"
    by (auto simp: index_of_from_def)
  have "currentPos + 7 \<le> length str"
    using index_of_Some [OF i] by (auto simp: think_open_def)
  then show ?case using opos c by auto
qed

declare thinkLoop.simps [simp del]

text \<open>The body of the loop as written: it ends in a \<open>break\<close> (\<open>Inl\<close>) or goes on with a new state, and a bound
  on the number of rounds.\<close>

definition thinkBody ::
  "jsstr \<Rightarrow> nat \<times> jsstr list \<times> jsstr list \<Rightarrow> (jsstr list \<times> jsstr list \<times> bool) + (nat \<times> jsstr list \<times> jsstr list)" where
  "thinkBody str st = (case st of (currentPos, visibleParts, reasoningParts) \<Rightarrow>
     (case index_of_from str think_open currentPos of
        None \<Rightarrow> Inl (if currentPos < length str then visibleParts @ [drop currentPos str] else visibleParts, reasoningParts, False)
      | Some openPos \<Rightarrow>
          let visible = (if openPos > currentPos then visibleParts @ [slice str currentPos openPos] else visibleParts) in
          (case index_of_from str think_close (openPos + 7) of
             None \<Rightarrow> Inl (visible, reasoningParts @ [drop (openPos + 7) str], True)
           | Some closePos \<Rightarrow> Inr (closePos + 8, visible, reasoningParts @ [slice str (openPos + 7) closePos]))))"

fun thinkRounds ::
  "nat \<Rightarrow> jsstr \<Rightarrow> nat \<times> jsstr list \<times> jsstr list \<Rightarrow> (jsstr list \<times> jsstr list \<times> bool) option" where
  "thinkRounds 0 str st = None"
| "thinkRounds (Suc n) str st = (case thinkBody str st of Inl r \<Rightarrow> Some r | Inr st' \<Rightarrow> thinkRounds n str st')"

definition parseThinkTags :: "jsstr \<Rightarrow> ParsedThinkTags" where
  "parseThinkTags str =
     (if \<not> js_includes str think_open then
        \<lparr>visibleContent = str, parsed_reasoning = [], hasUnclosedTag = False\<rparr>
      else
        (case thinkLoop str 0 [] [] of
           (visibleParts, reasoningParts, unclosed) \<Rightarrow>
             \<lparr>visibleContent = trim (join [] visibleParts),
              parsed_reasoning = trim (join (js [CHR 0x0A, CHR 0x0A]) reasoningParts),
              hasUnclosedTag = unclosed\<rparr>))"

subsection \<open>Specification\<close>

text \<open>The parts of a text, by recursion on what is left of it: the visible parts (with the
  empty ones kept), the reasoning parts, and whether the last tag is open.\<close>

function thinkParts :: "jsstr \<Rightarrow> jsstr list \<times> jsstr list \<times> bool" where
  "thinkParts s =
     (case index_of think_open s of
        None \<Rightarrow> ([s], [], False)
      | Some i \<Rightarrow>
          let rest = drop (i + 7) s in
          (case index_of think_close rest of
             None \<Rightarrow> ([take i s], [rest], True)
           | Some j \<Rightarrow>
               let (v, r, u) = thinkParts (drop (j + 8) rest) in
               (take i s # v, take j rest # r, u)))"
  by pat_completeness auto
termination
proof (relation "measure length", simp, goal_cases)
  case prems: (1 s i rest j)
  from index_of_Some [OF prems(1)] have "7 \<le> length s" by (auto simp: think_open_def)
  with prems(2) show ?case by auto
qed

declare thinkParts.simps [simp del]

text \<open>A text with closed reasoning segments: visible text, then pairs of a reasoning segment
  and the visible text after it.\<close>

definition renderThink :: "jsstr \<Rightarrow> (jsstr \<times> jsstr) list \<Rightarrow> jsstr" where
  "renderThink v ps = v @ concat (map (\<lambda>(r, w). think_open @ r @ think_close @ w) ps)"

text \<open>The text that parts stand for.\<close>

fun weave :: "jsstr list \<Rightarrow> jsstr list \<Rightarrow> bool \<Rightarrow> jsstr" where
  "weave (v # vs) (r # rs) u =
     v @ think_open @ r @ (if u \<and> rs = [] then [] else think_close @ weave vs rs u)"
| "weave (v # vs) [] u = v"
| "weave [] rs u = []"

section \<open>The loop computes the parts\<close>

lemma think_lengths [simp]: "length think_open = 7" "length think_close = 8"
  by (simp_all add: think_open_def think_close_def)

lemma think_ne [simp]: "think_open \<noteq> []" "think_close \<noteq> []"
  by (simp_all add: think_open_def think_close_def)

lemma join_Nil_concat: "join [] xs = concat xs"
  by (induction "[] :: 'a list" xs rule: join.induct) auto

lemma concat_filter_ne: "concat (filter (\<lambda>x. x \<noteq> []) xs) = concat xs"
  by (induction xs) auto

lemma thinkLoop_parts:
  assumes "pos \<le> length str"
  shows "thinkLoop str pos vs rs =
    (case thinkParts (drop pos str) of
       (v, r, u) \<Rightarrow> (vs @ filter (\<lambda>x. x \<noteq> []) v, rs @ r, u))"
  using assms
proof (induction str pos vs rs rule: thinkLoop.induct)
  case prems: (1 str pos vs rs)
  let ?s = "drop pos str"
  show ?case
  proof (cases "index_of think_open ?s")
    case None
    then show ?thesis
      by (simp add: thinkLoop.simps [of str pos] thinkParts.simps [of ?s] index_of_from_def)
  next
    case (Some i)
    then have bound: "pos + i + 7 \<le> length str"
      using index_of_Some [OF Some] prems(2) by auto
    let ?rest = "drop (i + 7) ?s"
    have rest: "drop (pos + i + 7) str = ?rest" by (simp add: ac_simps)
    have vis: "slice str pos (pos + i) = take i ?s" by (simp add: slice_def)
    have vne: "take i ?s = [] \<longleftrightarrow> i = 0" using bound by auto
    show ?thesis
    proof (cases "index_of think_close ?rest")
      case None
      with Some rest vis vne show ?thesis
        by (simp add: thinkLoop.simps [of str pos] thinkParts.simps [of ?s] index_of_from_def Let_def)
    next
      case (Some j)
      then have jb: "pos + i + 7 + j + 8 \<le> length str"
        using index_of_Some [OF Some] bound by auto
      obtain v r u where sub: "thinkParts (drop (j + 8) ?rest) = (v, r, u)"
        by (metis prod_cases3)
      have d: "drop (pos + i + 7 + j + 8) str = drop (j + 8) ?rest"
        by (simp add: ac_simps)
      have sl: "slice str (pos + i + 7) (pos + i + 7 + j) = take j ?rest"
        by (simp add: slice_def rest)
      let ?vs = "if i > 0 then vs @ [take i ?s] else vs"
      have o1: "index_of_from str think_open pos = Some (pos + i)"
        using \<open>index_of think_open ?s = Some i\<close> by (simp add: index_of_from_def)
      have c1: "index_of_from str think_close (pos + i + 7) = Some (pos + i + 7 + j)"
        using Some rest by (simp add: index_of_from_def)
      have vs: "?vs = (if pos < pos + i then vs @ [slice str pos (pos + i)] else vs)"
        by (simp add: vis)
      have "thinkLoop str pos vs rs =
          thinkLoop str (pos + i + 7 + j + 8) ?vs (rs @ [slice str (pos + i + 7) (pos + i + 7 + j)])"
        using o1 c1 vs by (simp add: thinkLoop.simps [of str pos])
      also have "\<dots> = (?vs @ filter (\<lambda>x. x \<noteq> []) v, (rs @ [take j ?rest]) @ r, u)"
        using prems(1) [OF o1 vs c1 jb] d sub sl by simp
      finally show ?thesis
        using \<open>index_of think_open ?s = Some i\<close> Some sub vne
        by (simp add: thinkParts.simps [of ?s] Let_def)
    qed
  qed
qed

lemma parseThinkTags_parts:
  "js_includes str think_open \<Longrightarrow> parseThinkTags str =
    (case thinkParts str of (v, r, u) \<Rightarrow>
      \<lparr>visibleContent = trim (concat v),
       parsed_reasoning = trim (join (js [CHR 0x0A, CHR 0x0A]) r), hasUnclosedTag = u\<rparr>)"
  using thinkLoop_parts [of 0 str "[]" "[]"]
  by (simp add: parseThinkTags_def join_Nil_concat concat_filter_ne split: prod.splits)

section \<open>The parts determine the text\<close>

lemma thinkParts_shape:
  "thinkParts s = (v, r, u) \<Longrightarrow> v \<noteq> [] \<and> (u \<longrightarrow> r \<noteq> [])"
  by (subst (asm) thinkParts.simps) (auto simp: Let_def split: option.splits prod.splits)

lemma drop_index_of: "index_of p s = Some i \<Longrightarrow> s = take i s @ p @ drop (i + length p) s"
  by (metis append_eq_conv_conj append_take_drop_id drop_drop index_of_Some add.commute)

lemma weave_thinkParts: "thinkParts s = (v, r, u) \<Longrightarrow> weave v r u = s"
proof (induction s arbitrary: v r u rule: thinkParts.induct)
  case prems: (1 s)
  show ?case
  proof (cases "index_of think_open s")
    case None
    with prems(2) show ?thesis by (auto simp: thinkParts.simps [of s])
  next
    case op: (Some i)
    let ?rest = "drop (i + 7) s"
    have s: "s = take i s @ think_open @ ?rest" using drop_index_of [OF op] by simp
    show ?thesis
    proof (cases "index_of think_close ?rest")
      case None
      with op prems(2) s show ?thesis by (auto simp: thinkParts.simps [of s] Let_def)
    next
      case cl: (Some j)
      have rest: "?rest = take j ?rest @ think_close @ drop (j + 8) ?rest"
        using drop_index_of [OF cl] by simp
      obtain v' r' u' where sub: "thinkParts (drop (j + 8) ?rest) = (v', r', u')"
        by (metis prod_cases3)
      have eq: "v = take i s # v'" "r = take j ?rest # r'" "u = u'"
        using prems(2) op cl sub by (auto simp: thinkParts.simps [of s] Let_def)
      have "weave v' r' u' = drop (j + 8) ?rest"
        using prems(1) [OF op refl cl sub] .
      then have "weave v r u = take i s @ think_open @ take j ?rest @ think_close @ drop (j + 8) ?rest"
        using thinkParts_shape [OF sub] by (auto simp: eq)
      then show ?thesis using s rest by simp
    qed
  qed
qed

section \<open>Rendering and parsing\<close>

text \<open>In a text without the pattern, followed by the pattern, the pattern is found at the end:
  its first unit does not occur again in it.\<close>

lemma index_of_skip:
  assumes "c \<notin> set q" and "\<not> sublist (c # q) v"
  shows "index_of (c # q) (v @ (c # q) @ t) = Some (length v)"
  using assms(2)
proof (induction v)
  case Nil
  show ?case using index_of_append [of "c # q" t] by simp
next
  case (Cons x v)
  have "\<not> prefix (c # q) (x # v @ (c # q) @ t)"
  proof
    assume p: "prefix (c # q) (x # v @ (c # q) @ t)"
    show False
    proof (cases "length (c # q) \<le> length (x # v)")
      case True
      with p have "prefix (c # q) (x # v)"
        by (metis append_Cons prefix_length_prefix prefix_def)
      with Cons.prems show False by (metis prefix_imp_sublist)
    next
      case False
      let ?n = "length v"
      obtain z where z: "x # v @ (c # q) @ t = (c # q) @ z" using p by (auto simp: prefix_def)
      have "(x # v @ (c # q) @ t) ! Suc ?n = c" by (simp add: nth_append)
      moreover have "((c # q) @ z) ! Suc ?n = q ! ?n" using False by (simp add: nth_append)
      ultimately have "q ! ?n = c" using z by metis
      with False assms(1) show False by (metis Suc_le_mono length_Cons linorder_not_less nth_mem)
    qed
  qed
  moreover have "\<not> sublist (c # q) v" using Cons.prems by (auto simp: sublist_Cons_right)
  ultimately show ?case using Cons.IH by simp
qed

lemma index_of_open: "\<not> sublist think_open v \<Longrightarrow> index_of think_open (v @ think_open @ t) = Some (length v)"
  using index_of_skip [of "jsc CHR ''<''" "js ''think>''"]
  by (simp add: think_open_def js_simps)

lemma index_of_close: "\<not> sublist think_close v \<Longrightarrow> index_of think_close (v @ think_close @ t) = Some (length v)"
  using index_of_skip [of "jsc CHR ''<''" "js ''/think>''"]
  by (simp add: think_close_def js_simps)

lemma index_of_absent: "\<not> sublist p s \<Longrightarrow> index_of p s = None"
  using js_includes_iff by (metis js_includes_def)

lemma thinkParts_render:
  assumes "\<not> sublist think_open v"
    and "\<forall>(r, w)\<in>set ps. \<not> sublist think_close r \<and> \<not> sublist think_open w"
  shows "thinkParts (renderThink v ps) = (v # map snd ps, map fst ps, False)"
  using assms
proof (induction ps arbitrary: v)
  case Nil
  then show ?case by (simp add: renderThink_def thinkParts.simps [of v] index_of_absent)
next
  case (Cons p ps)
  obtain r w where p: "p = (r, w)" by (cases p)
  have eq: "renderThink v (p # ps) = v @ think_open @ r @ think_close @ renderThink w ps"
    by (simp add: renderThink_def p)
  have "thinkParts (renderThink w ps) = (w # map snd ps, map fst ps, False)"
    using Cons p by auto
  then show ?case
    using Cons.prems p unfolding eq
    by (subst thinkParts.simps) (simp add: index_of_open index_of_close)
qed

lemma js_includes_render: "ps \<noteq> [] \<Longrightarrow> js_includes (renderThink v ps) think_open"
  by (cases ps) (auto simp: js_includes_iff renderThink_def intro: sublist_appendI)

section \<open>The number of rounds\<close>

lemma thinkBody_progress:
  assumes "thinkBody str (pos, vs, rs) = Inr (pos', vs', rs')"
  shows "pos + 15 \<le> pos'" "pos' \<le> length str" "thinkLoop str pos vs rs = thinkLoop str pos' vs' rs'"
proof -
  from assms obtain i where i: "index_of think_open (drop pos str) = Some i"
    by (auto simp: thinkBody_def index_of_from_def split: option.splits)
  with assms obtain j where j: "index_of think_close (drop (pos + i + 7) str) = Some j"
    and st: "pos' = pos + i + 7 + j + 8" by (auto simp: thinkBody_def index_of_from_def Let_def split: option.splits)
  then show "pos + 15 \<le> pos'" "pos' \<le> length str" using index_of_Some [OF j] by auto
  show "thinkLoop str pos vs rs = thinkLoop str pos' vs' rs'"
    using assms by (subst thinkLoop.simps) (auto simp: thinkBody_def Let_def split: option.splits)
qed

lemma thinkRounds_enough:
  assumes "(length str - pos) div 15 < n"
  shows "thinkRounds n str (pos, vs, rs) = Some (thinkLoop str pos vs rs)"
  using assms
proof (induction n arbitrary: pos vs rs)
  case (Suc n)
  show ?case
  proof (cases "thinkBody str (pos, vs, rs)")
    case (Inl r)
    then have "thinkLoop str pos vs rs = r"
      by (subst thinkLoop.simps) (auto simp: thinkBody_def Let_def split: option.splits)
    with Inl show ?thesis by simp
  next
    case (Inr st)
    obtain pos' vs' rs' where st: "st = (pos', vs', rs')" by (cases st)
    note pr = thinkBody_progress [OF Inr [unfolded st]]
    have "(length str - pos') div 15 < (length str - pos) div 15" using pr(1, 2) by linarith
    with Suc.prems have "thinkRounds n str (pos', vs', rs') = Some (thinkLoop str pos' vs' rs')" by (intro Suc.IH) simp
    with Inr st pr(3) show ?thesis by simp
  qed
qed simp

section \<open>Properties\<close>

text \<open>C4: The unbounded loop ends for every content: every round that does not end it moves the position by at
  least the fifteen units of a pair of tags, so after one round per fifteen units of the content, and one
  more, it has returned its result.\<close>

theorem thinkLoop_terminates:
  "thinkRounds (length str div 15 + 1) str (0, [], []) = Some (thinkLoop str 0 [] [])"
  by (rule thinkRounds_enough) simp

text \<open>C3: No character is lost or invented when reasoning is separated from visible text: the
  visible and reasoning parts found by the scanning loop, put back with their tags, give
  the content.\<close>

theorem thinkLoop_lossless:
  "case thinkParts str of (v, r, u) \<Rightarrow>
     weave v r u = str \<and> thinkLoop str 0 [] [] = (filter (\<lambda>x. x \<noteq> []) v, r, u)"
  using weave_thinkParts thinkLoop_parts [of 0 str "[]" "[]"] by (auto split: prod.splits)

text \<open>C5: Content rendered from visible text and closed reasoning segments (none of which contains
  the tag that would end it) is parsed back: the visible texts joined and trimmed, the
  reasoning segments joined by blank lines and trimmed, and no open tag.\<close>

theorem parseThinkTags_render:
  assumes "ps \<noteq> []" and "\<not> sublist think_open v"
    and "\<forall>(r, w)\<in>set ps. \<not> sublist think_close r \<and> \<not> sublist think_open w"
  shows "parseThinkTags (renderThink v ps) =
    \<lparr>visibleContent = trim (v @ concat (map snd ps)),
     parsed_reasoning = trim (join (js [CHR 0x0A, CHR 0x0A]) (map fst ps)),
     hasUnclosedTag = False\<rparr>"
  using assms by (simp add: parseThinkTags_parts js_includes_render thinkParts_render)

theorem parseThinkTags_render_witness:
  "parseThinkTags (renderThink (js ''a'') [(js ''b'', js ''c'')]) =
    \<lparr>visibleContent = js ''ac'', parsed_reasoning = js ''b'', hasUnclosedTag = False\<rparr>"
  using parseThinkTags_render [of "[(js ''b'', js ''c'')]" "js ''a''"]
  by (simp add: think_open_def think_close_def js_simps trim_def trim_start_def
    sublist_Cons_right)

end
