(* ===== verification/MessageStreaming.thy ===== *)
theory MessageStreaming
  imports PlaygroundMessages ThinkTags
begin

text \<open>
  How an assistant message grows while a response streams in, how it is finalized, and how
  messages left over by an interrupted session are repaired on load:
  \<open>features/playground/lib/message/message-streaming-utils.ts\<close>, and the view state of
  \<open>message-content-utils.ts\<close>. Every updater satisfies the contract \<open>message_updater\<close>.
\<close>

section \<open>Definitions\<close>

subsection \<open>Streaming\<close>

definition processStreamingContent :: "jsnum \<Rightarrow> Message \<Rightarrow> jsstr option \<Rightarrow> Message" where
  "processStreamingContent t1 m contentChunk =
     (let current = getCurrentVersion m;
          fullContent = (case contentChunk of
             Some (c # cs) \<Rightarrow> content current @ (c # cs) | _ \<Rightarrow> content current) in
      if reasoning m = None \<and> \<not> js_includes fullContent think_open then
        (updateCurrentVersionContent m fullContent)\<lparr>isReasoningStreaming := Some False\<rparr>
      else
        let parsed = parseThinkTags fullContent;
            finalReasoning =
              (if parsed_reasoning parsed \<noteq> []
               then Some ((startReasoningTiming m t1)\<lparr>reasoning_content := parsed_reasoning parsed\<rparr>)
               else reasoning m) in
        (updateCurrentVersionContent m fullContent)
          \<lparr>reasoning := finalReasoning, isReasoningStreaming := Some (hasUnclosedTag parsed)\<rparr>)"

datatype StreamChunkType = ReasoningChunk | ContentChunk

text \<open>A chunk that repeats the text received so far is taken as a snapshot: only its new tail is
  appended.\<close>

definition getAppendableChunk :: "jsstr \<Rightarrow> jsstr \<Rightarrow> jsstr" where
  "getAppendableChunk currentContent chunk =
     (if currentContent = [] \<or> \<not> starts_with chunk currentContent then chunk
      else drop (length currentContent) chunk)"

definition applyStreamingChunk ::
  "jsnum \<Rightarrow> jsnum \<Rightarrow> StreamChunkType \<Rightarrow> jsstr \<Rightarrow> Message \<Rightarrow> Message" where
  "applyStreamingChunk t1 t2 chunkType chunk m =
     (if status m = Some Error then m
      else case chunkType of
        ReasoningChunk \<Rightarrow>
          let r = startReasoningTiming m t1;
              appendable = getAppendableChunk (reasoning_content r) chunk in
          m\<lparr>reasoning := Some (r\<lparr>reasoning_content := reasoning_content r @ appendable\<rparr>),
            isReasoningStreaming := Some True, status := Some Streaming\<rparr>
      | ContentChunk \<Rightarrow>
          let current = getCurrentVersion m;
              appendable = getAppendableChunk (content current) chunk;
              contentMessage = processStreamingContent t1 m (Some appendable) in
          (if isReasoningStreaming contentMessage = Some True then contentMessage
           else completeReasoningTiming contentMessage t2)\<lparr>status := Some Streaming\<rparr>)"

subsection \<open>Finalization\<close>

definition finalizeMessage :: "jsnum \<Rightarrow> jsnum \<Rightarrow> Message \<Rightarrow> jsstr option \<Rightarrow> Message" where
  "finalizeMessage t1 t2 m apiReasoningContent =
     (let current = getCurrentVersion m;
          parsed = (if js_includes (content current) think_open
                    then Some (parseThinkTags (content current)) else None);
          visible = nullish (map_option visibleContent parsed) (content current);
          finalReasoning =
            or_str apiReasoningContent
              (or_str (map_option reasoning_content (reasoning m))
                (or_str (map_option parsed_reasoning parsed) []));
          finalized = (updateCurrentVersionContent m visible)
            \<lparr>reasoning :=
               (if finalReasoning \<noteq> []
                then Some ((startReasoningTiming m t1)\<lparr>reasoning_content := finalReasoning\<rparr>)
                else None),
             isReasoningStreaming := Some False\<rparr> in
      completeReasoningTiming finalized t2)"

definition completeAssistantMessage :: "jsnum \<Rightarrow> jsnum \<Rightarrow> jsnum \<Rightarrow> Message \<Rightarrow> Message" where
  "completeAssistantMessage t1 t2 t3 m =
     completeAssistantTiming ((finalizeMessage t1 t2 m None)\<lparr>status := Some Complete\<rparr>) t3"

definition isAssistantMessageFinal :: "Message \<Rightarrow> bool" where
  "isAssistantMessageFinal m \<longleftrightarrow> status m = Some Complete \<or> status m = Some Error"

definition isAssistantMessagePending :: "Message \<Rightarrow> bool" where
  "isAssistantMessagePending m \<longleftrightarrow> status m = Some Loading \<or> status m = Some Streaming"

definition isPendingAssistantMessage :: "Message option \<Rightarrow> bool" where
  "isPendingAssistantMessage mo \<longleftrightarrow>
     (case mo of None \<Rightarrow> False | Some m \<Rightarrow> msg_from m = Assistant \<and> isAssistantMessagePending m)"

subsection \<open>Complete responses\<close>

record ChatCompletionChoice =
  choice_content :: "jsstr option"
  choice_reasoning_content :: "jsstr option"

record ChatCompletionResponse =
  choices :: "ChatCompletionChoice list option"

definition firstChoice :: "ChatCompletionResponse \<Rightarrow> ChatCompletionChoice option" where
  "firstChoice response =
     (case choices response of Some (c # _) \<Rightarrow> Some c | _ \<Rightarrow> None)"

definition hasChatCompletionChoice :: "ChatCompletionResponse \<Rightarrow> bool" where
  "hasChatCompletionChoice response \<longleftrightarrow> firstChoice response \<noteq> None"

definition applyChatCompletionChoice ::
  "jsnum \<Rightarrow> jsnum \<Rightarrow> jsnum \<Rightarrow> Message \<Rightarrow> ChatCompletionChoice \<Rightarrow> Message" where
  "applyChatCompletionChoice t1 t2 t3 m choice =
     completeAssistantTiming
       ((finalizeMessage t1 t2
           (updateCurrentVersionContent m (or_str (choice_content choice) []))
           (choice_reasoning_content choice))\<lparr>status := Some Complete\<rparr>) t3"

definition applyChatCompletionResponse ::
  "jsnum \<Rightarrow> jsnum \<Rightarrow> jsnum \<Rightarrow> Message \<Rightarrow> ChatCompletionResponse \<Rightarrow> Message option" where
  "applyChatCompletionResponse t1 t2 t3 m response =
     map_option (applyChatCompletionChoice t1 t2 t3 m) (firstChoice response)"

subsection \<open>Repair on load\<close>

text \<open>The backward scan for the last pending assistant message below position \<open>i\<close>.\<close>

fun findPendingBelow :: "Message list \<Rightarrow> nat \<Rightarrow> nat option" where
  "findPendingBelow ms 0 = None"
| "findPendingBelow ms (Suc i) =
     (if isPendingAssistantMessage (Some (ms ! i)) then Some i else findPendingBelow ms i)"

text \<open>The repaired form of one pending message; \<open>tr\<close> is the translation function.\<close>

definition sanitizeMessage :: "(jsstr \<Rightarrow> jsstr) \<Rightarrow> jsnum \<Rightarrow> jsnum \<Rightarrow> jsnum \<Rightarrow> Message \<Rightarrow> Message" where
  "sanitizeMessage tr t1 t2 t3 m =
     (let finalized = finalizeMessage t1 t2 m None;
          hasContent = hasMessageContent finalized;
          hasReasoning = (case reasoning finalized of
            None \<Rightarrow> False | Some r \<Rightarrow> trim (reasoning_content r) \<noteq> []) in
      if hasContent \<or> hasReasoning then
        completeAssistantTiming
          (finalized\<lparr>status := Some Complete, isReasoningStreaming := Some False\<rparr>) t3
      else
        completeAssistantTiming
          ((updateCurrentVersionContent finalized
              (tr API_REQUEST_ERROR @ js '': '' @ tr INTERRUPTED))
             \<lparr>status := Some Error, isReasoningStreaming := Some False\<rparr>) t3)"

definition sanitizeMessagesOnLoad ::
  "(jsstr \<Rightarrow> jsstr) \<Rightarrow> jsnum \<Rightarrow> jsnum \<Rightarrow> jsnum \<Rightarrow> Message list \<Rightarrow> Message list" where
  "sanitizeMessagesOnLoad tr t1 t2 t3 messages =
     (case findPendingBelow messages (length messages) of
        None \<Rightarrow> messages
      | Some targetIndex \<Rightarrow>
          messages[targetIndex := sanitizeMessage tr t1 t2 t3 (messages ! targetIndex)])"

subsection \<open>View state\<close>

record MessageContentState =
  displayContent :: jsstr
  hasSources :: bool
  mcs_isAssistant :: bool
  showLoader :: bool
  showMessageContent :: bool
  mcs_sources :: "Source list"
  hasReasoning :: bool
  mcs_reasoningContent :: "jsstr option"

definition shouldShowMessageLoader :: "Message \<Rightarrow> bool \<Rightarrow> jsstr \<Rightarrow> bool" where
  "shouldShowMessageLoader m isAssistant versionContent \<longleftrightarrow>
     isAssistant \<and> isReasoningStreaming m \<noteq> Some True \<and>
     (status m = Some Loading \<or> (status m = Some Streaming \<and> versionContent = []))"

definition shouldShowMessageContent :: "Message \<Rightarrow> jsstr \<Rightarrow> bool" where
  "shouldShowMessageContent m versionContent \<longleftrightarrow>
     (msg_from m = User \<or> isReasoningStreaming m \<noteq> Some True) \<and> length versionContent > 0"

definition getDisplayContent :: "Message \<Rightarrow> jsstr \<Rightarrow> jsstr" where
  "getDisplayContent m versionContent =
     (if msg_from m \<noteq> Assistant then versionContent
      else if \<not> js_includes versionContent think_open then versionContent
      else visibleContent (parseThinkTags versionContent))"

definition getMessageContentState :: "Message \<Rightarrow> jsstr \<Rightarrow> MessageContentState" where
  "getMessageContentState m versionContent =
     (let isAssistant = (msg_from m = Assistant);
          srcs = nullish (sources m) [];
          reasoningContent =
            (if isAssistant then map_option reasoning_content (reasoning m) else None);
          has = (case reasoningContent of Some (c # cs) \<Rightarrow> True | _ \<Rightarrow> False) in
      \<lparr>displayContent = getDisplayContent m versionContent,
       hasSources = length srcs > 0,
       mcs_isAssistant = isAssistant,
       showLoader = shouldShowMessageLoader m isAssistant versionContent,
       showMessageContent = shouldShowMessageContent m versionContent,
       mcs_sources = srcs,
       hasReasoning = has,
       mcs_reasoningContent = (if has then reasoningContent else None)\<rparr>)"

section \<open>Lemmas\<close>

lemma processStreamingContent_frame [simp]:
  "key (processStreamingContent t1 m c) = key m"
  "msg_from (processStreamingContent t1 m c) = msg_from m"
  "status (processStreamingContent t1 m c) = status m"
  by (simp_all add: processStreamingContent_def Let_def)

lemma processStreamingContent_content:
  "getMessageContent (processStreamingContent t1 m (Some c)) = getMessageContent m @ c"
  by (cases c) (simp_all add: processStreamingContent_def Let_def getMessageContent_def)

lemma finalizeMessage_frame [simp]:
  "key (finalizeMessage t1 t2 m a) = key m"
  "msg_from (finalizeMessage t1 t2 m a) = msg_from m"
  "status (finalizeMessage t1 t2 m a) = status m"
  "isReasoningStreaming (finalizeMessage t1 t2 m a) = Some False"
  "length (versions (finalizeMessage t1 t2 m a)) = 1"
  by (simp_all add: finalizeMessage_def Let_def)

text \<open>The text after a chunk: the old text extended, or the snapshot that the chunk is.\<close>

definition absorb :: "jsstr \<Rightarrow> jsstr \<Rightarrow> jsstr" where
  "absorb x c = x @ getAppendableChunk x c"

lemma absorb_eq: "absorb x c = (if x \<noteq> [] \<and> prefix x c then c else x @ c)"
  by (auto simp: absorb_def getAppendableChunk_def prefix_def)

lemma absorb_bounds: "prefix x (absorb x c)" "suffix c (absorb x c)"
  by (auto simp: absorb_eq suffix_def)

lemma applyContent:
  assumes "status m \<noteq> Some Error"
  shows "getMessageContent (applyStreamingChunk t1 t2 ContentChunk c m)
    = absorb (getMessageContent m) c"
    and "status (applyStreamingChunk t1 t2 ContentChunk c m) = Some Streaming"
  using assms processStreamingContent_content [of t1 m]
  by (simp_all add: applyStreamingChunk_def Let_def absorb_def getMessageContent_def)

lemma applyReasoning:
  assumes "status m \<noteq> Some Error"
  shows "map_option reasoning_content (reasoning (applyStreamingChunk t1 t2 ReasoningChunk c m))
    = Some (absorb (case reasoning m of None \<Rightarrow> [] | Some r \<Rightarrow> reasoning_content r) c)"
    and "status (applyStreamingChunk t1 t2 ReasoningChunk c m) = Some Streaming"
    and "getMessageContent (applyStreamingChunk t1 t2 ReasoningChunk c m) = getMessageContent m"
  using assms
  by (simp_all add: applyStreamingChunk_def Let_def absorb_def getMessageContent_def
    split: option.splits)

lemma applyStreamingChunk_frame [simp]:
  "key (applyStreamingChunk t1 t2 ty c m) = key m"
  "msg_from (applyStreamingChunk t1 t2 ty c m) = msg_from m"
  by (cases ty; simp add: applyStreamingChunk_def Let_def)+

interpretation chunk_upd: message_updater "applyStreamingChunk t1 t2 ty c" for t1 t2 ty c
  by unfold_locales simp_all

interpretation complete_upd: message_updater "completeAssistantMessage t1 t2 t3" for t1 t2 t3
  by unfold_locales (simp_all add: completeAssistantMessage_def)

interpretation sanitize_upd: message_updater "sanitizeMessage tr t1 t2 t3" for tr t1 t2 t3
  by unfold_locales (simp_all add: sanitizeMessage_def Let_def)

subsection \<open>A sequence of chunks\<close>

text \<open>Content chunks with the clock readings of their processing.\<close>

definition applyContentChunks :: "(jsnum \<times> jsnum \<times> jsstr) list \<Rightarrow> Message \<Rightarrow> Message" where
  "applyContentChunks cs m = foldl (\<lambda>m (t1, t2, c). applyStreamingChunk t1 t2 ContentChunk c m) m cs"

text \<open>Chunks that never repeat the whole text before them, and chunks that always do.\<close>

fun incremental :: "jsstr \<Rightarrow> jsstr list \<Rightarrow> bool" where
  "incremental x [] = True"
| "incremental x (c # cs) = ((x = [] \<or> \<not> prefix x c) \<and> incremental (x @ c) cs)"

fun cumulative :: "jsstr \<Rightarrow> jsstr list \<Rightarrow> bool" where
  "cumulative x [] = True"
| "cumulative x (c # cs) = (prefix x c \<and> cumulative c cs)"

lemma applyContentChunks_content:
  "status m \<noteq> Some Error \<Longrightarrow>
    getMessageContent (applyContentChunks cs m)
      = foldl absorb (getMessageContent m) (map (snd \<circ> snd) cs) \<and>
    status (applyContentChunks cs m) \<noteq> Some Error"
proof (induction cs arbitrary: m)
  case (Cons c cs)
  obtain t1 t2 d where c: "c = (t1, t2, d)" by (cases c) auto
  let ?m = "applyStreamingChunk t1 t2 ContentChunk d m"
  have "applyContentChunks (c # cs) m = applyContentChunks cs ?m"
    by (simp add: applyContentChunks_def c)
  then show ?case using Cons by (simp add: applyContent c)
qed (simp add: applyContentChunks_def)

lemma foldl_absorb_incremental: "incremental x cs \<Longrightarrow> foldl absorb x cs = x @ concat cs"
  by (induction cs arbitrary: x) (auto simp: absorb_eq)

lemma foldl_absorb_cumulative: "cumulative x cs \<Longrightarrow> foldl absorb x cs = last (x # cs)"
proof (induction cs arbitrary: x)
  case (Cons c cs)
  then have "absorb x c = c" by (auto simp: absorb_eq)
  with Cons show ?case by auto
qed simp

subsection \<open>Finalization and repair\<close>

lemma completeReasoning_duration:
  "reasoning (completeReasoningTiming m now) = Some r \<Longrightarrow>
    reasoning_durationMs r \<noteq> None"
  by (auto simp: completeReasoningTiming_def Let_def split: option.splits if_splits)

lemma finalizeMessage_content:
  "getMessageContent (finalizeMessage t1 t2 m a) =
    (if js_includes (getMessageContent m) think_open
     then visibleContent (parseThinkTags (getMessageContent m)) else getMessageContent m)"
  by (simp add: finalizeMessage_def Let_def getMessageContent_def)

lemma finalizeMessage_reasoning:
  assumes "reasoning (finalizeMessage t1 t2 m a) = Some r"
  shows "reasoning_durationMs r \<noteq> None" and "reasoning_content r \<noteq> []"
proof -
  show "reasoning_durationMs r \<noteq> None"
    using assms completeReasoning_duration by (auto simp: finalizeMessage_def Let_def)
  show "reasoning_content r \<noteq> []"
    using assms reasoningTiming_content
    by (auto simp: finalizeMessage_def Let_def completeReasoningTiming_def split: if_splits option.splits)
qed

abbreviation pending :: "Message \<Rightarrow> bool" where
  "pending m \<equiv> isPendingAssistantMessage (Some m)"

lemma sanitizeMessage_not_pending: "\<not> pending (sanitizeMessage tr t1 t2 t3 m)"
  by (auto simp: isPendingAssistantMessage_def isAssistantMessagePending_def sanitizeMessage_def Let_def)

lemma findPendingBelow_Some:
  "findPendingBelow ms n = Some i \<Longrightarrow>
    i < n \<and> pending (ms ! i) \<and> (\<forall>j. i < j \<and> j < n \<longrightarrow> \<not> pending (ms ! j))"
  by (induction n) (auto split: if_splits simp: less_Suc_eq)

lemma findPendingBelow_None: "findPendingBelow ms n = None \<Longrightarrow> j < n \<Longrightarrow> \<not> pending (ms ! j)"
  by (induction n) (auto split: if_splits simp: less_Suc_eq)

lemma length_filter_update:
  "i < length xs \<Longrightarrow> P (xs ! i) \<Longrightarrow> \<not> P y \<Longrightarrow>
    length (filter P (xs[i := y])) = length (filter P xs) - 1"
proof (induction xs arbitrary: i)
  case (Cons x xs)
  show ?case
  proof (cases i)
    case (Suc j)
    then have "P (xs ! j)" "j < length xs" using Cons.prems by auto
    then have "filter P xs \<noteq> []" by (metis filter_empty_conv nth_mem)
    with Suc Cons show ?thesis by (auto simp: Suc_diff_Suc)
  qed (use Cons.prems in auto)
qed simp

lemma sanitize_cases:
  obtains (none) "sanitizeMessagesOnLoad tr t1 t2 t3 ms = ms" "\<forall>m\<in>set ms. \<not> pending m"
  | (found) i where "i < length ms" "pending (ms ! i)"
      "\<forall>j. i < j \<and> j < length ms \<longrightarrow> \<not> pending (ms ! j)"
      "sanitizeMessagesOnLoad tr t1 t2 t3 ms = ms[i := sanitizeMessage tr t1 t2 t3 (ms ! i)]"
proof (cases "findPendingBelow ms (length ms)")
  case None
  then have "\<forall>m\<in>set ms. \<not> pending m"
    using findPendingBelow_None [OF None] by (metis in_set_conv_nth)
  with None none show ?thesis by (simp add: sanitizeMessagesOnLoad_def)
next
  case (Some i)
  then have "sanitizeMessagesOnLoad tr t1 t2 t3 ms = ms[i := sanitizeMessage tr t1 t2 t3 (ms ! i)]"
    by (simp add: sanitizeMessagesOnLoad_def)
  with findPendingBelow_Some [OF Some] show ?thesis by (intro found) auto
qed

section \<open>Properties\<close>

text \<open>A content chunk extends the text of a message that has not failed: the old text is a
  prefix of the new one and the chunk a suffix of it, the status becomes streaming, and
  identity and role stay. A failed message is not changed at all.\<close>

theorem applyStreamingChunk_content:
  "(status m \<noteq> Some Error \<longrightarrow>
     prefix (getMessageContent m) (getMessageContent (applyStreamingChunk t1 t2 ContentChunk c m)) \<and>
     suffix c (getMessageContent (applyStreamingChunk t1 t2 ContentChunk c m)) \<and>
     status (applyStreamingChunk t1 t2 ContentChunk c m) = Some Streaming \<and>
     key (applyStreamingChunk t1 t2 ContentChunk c m) = key m \<and>
     msg_from (applyStreamingChunk t1 t2 ContentChunk c m) = msg_from m) \<and>
   (status m = Some Error \<longrightarrow> applyStreamingChunk t1 t2 ContentChunk c m = m)"
  by (simp add: applyContent absorb_bounds) (simp add: applyStreamingChunk_def)

theorem applyStreamingChunk_content_witness:
  "getMessageContent (applyStreamingChunk 5 6 ContentChunk (js ''b'')
     (createLoadingAssistantMessage (js ''k'') (js ''v'') 1)) = js ''b''"
  using applyStreamingChunk_content [of "createLoadingAssistantMessage (js ''k'') (js ''v'') 1" 5 6 "js ''b''"]
  by (simp add: applyContent absorb_eq)

text \<open>Over a whole stream, chunks that never repeat the text before them are concatenated, and
  chunks that are snapshots of the growing text end in the last snapshot.\<close>

theorem applyContentChunks_total:
  assumes "status m \<noteq> Some Error"
  shows "(incremental (getMessageContent m) (map (snd \<circ> snd) cs) \<longrightarrow>
      getMessageContent (applyContentChunks cs m)
        = getMessageContent m @ concat (map (snd \<circ> snd) cs)) \<and>
    (cumulative (getMessageContent m) (map (snd \<circ> snd) cs) \<longrightarrow>
      getMessageContent (applyContentChunks cs m)
        = last (getMessageContent m # map (snd \<circ> snd) cs))"
  using applyContentChunks_content [OF assms, of cs]
  by (metis foldl_absorb_incremental foldl_absorb_cumulative)

theorem applyContentChunks_total_witness:
  "getMessageContent (applyContentChunks [(1, 2, js ''ab''), (3, 4, js ''c'')]
     (createLoadingAssistantMessage (js ''k'') (js ''v'') 1)) = js ''abc''"
  using applyContentChunks_total [of "createLoadingAssistantMessage (js ''k'') (js ''v'') 1"
      "[(1, 2, js ''ab''), (3, 4, js ''c'')]"]
  by (simp add: js_simps)

text \<open>A content chunk equal to the text received so far leaves the text unchanged, so a model that
  streams the same token twice at the start of its answer loses the second one.\<close>

theorem repeated_chunk_dropped:
  assumes "status m \<noteq> Some Error" and "getMessageContent m \<noteq> []"
  shows "getMessageContent (applyStreamingChunk t1 t2 ContentChunk (getMessageContent m) m)
    = getMessageContent m"
  using assms by (simp add: applyContent absorb_eq)

theorem repeated_chunk_dropped_witness:
  "getMessageContent (applyContentChunks [(1, 2, js ''1''), (3, 4, js ''1'')]
     (createLoadingAssistantMessage (js ''k'') (js ''v'') 1)) = js ''1''"
proof -
  let ?m = "applyStreamingChunk 1 2 ContentChunk (js ''1'')
     (createLoadingAssistantMessage (js ''k'') (js ''v'') 1)"
  have c: "getMessageContent ?m = js ''1''" "status ?m \<noteq> Some Error"
    by (simp_all add: applyContent absorb_eq)
  then show ?thesis
    using repeated_chunk_dropped [of ?m 3 4] by (simp add: applyContentChunks_def)
qed

text \<open>Completing an assistant message yields a final message: its text is the visible part of
  the received text, it is not reasoning any more, reasoning it keeps is non-empty and timed,
  and it has start, end and a non-negative duration.\<close>

theorem completeAssistantMessage_final:
  assumes "msg_from m = Assistant"
  shows "isAssistantMessageFinal (completeAssistantMessage t1 t2 t3 m) \<and>
    getMessageContent (completeAssistantMessage t1 t2 t3 m) =
      (if js_includes (getMessageContent m) think_open
       then visibleContent (parseThinkTags (getMessageContent m)) else getMessageContent m) \<and>
    isReasoningStreaming (completeAssistantMessage t1 t2 t3 m) = Some False \<and>
    (\<forall>r. reasoning (completeAssistantMessage t1 t2 t3 m) = Some r \<longrightarrow>
       reasoning_content r \<noteq> [] \<and> reasoning_durationMs r \<noteq> None) \<and>
    completedAt (completeAssistantMessage t1 t2 t3 m) = Some t3 \<and>
    (\<exists>d\<ge>0. durationMs (completeAssistantMessage t1 t2 t3 m) = Some d)"
proof -
  let ?f = "(finalizeMessage t1 t2 m None)\<lparr>status := Some Complete\<rparr>"
  have "msg_from ?f = Assistant" using assms by simp
  note times = completeAssistantTiming_times [OF this, of t3]
  have r: "reasoning_content r \<noteq> [] \<and> reasoning_durationMs r \<noteq> None"
    if "reasoning (finalizeMessage t1 t2 m None) = Some r" for r
    using that by (blast dest: finalizeMessage_reasoning)
  show ?thesis
    using times r finalizeMessage_content [of t1 t2 m None]
    by (auto simp: completeAssistantMessage_def isAssistantMessageFinal_def getMessageContent_def)
qed

theorem completeAssistantMessage_final_witness:
  "isAssistantMessageFinal (completeAssistantMessage 1 2 3
     (createLoadingAssistantMessage (js ''k'') (js ''v'') 1))"
  using completeAssistantMessage_final [of "createLoadingAssistantMessage (js ''k'') (js ''v'') 1" 1 2 3]
  by simp

text \<open>Repair on load keeps identities and roles, changes at most the last pending assistant
  message, and leaves one pending message less. With two interrupted messages in the
  store, one is therefore still pending afterwards.\<close>

theorem sanitizeMessagesOnLoad_count:
  "map key (sanitizeMessagesOnLoad tr t1 t2 t3 ms) = map key ms \<and>
   map msg_from (sanitizeMessagesOnLoad tr t1 t2 t3 ms) = map msg_from ms \<and>
   length (filter (\<lambda>m. isPendingAssistantMessage (Some m)) (sanitizeMessagesOnLoad tr t1 t2 t3 ms))
     = length (filter (\<lambda>m. isPendingAssistantMessage (Some m)) ms) - 1"
proof (cases rule: sanitize_cases [of tr t1 t2 t3 ms])
  case none
  then have "filter (\<lambda>m. pending m) ms = []" by (simp add: filter_empty_conv)
  with none show ?thesis by simp
next
  case (found i)
  have "map key (ms[i := sanitizeMessage tr t1 t2 t3 (ms ! i)]) = map key ms"
    "map msg_from (ms[i := sanitizeMessage tr t1 t2 t3 (ms ! i)]) = map msg_from ms"
    using found(1) by (simp_all add: map_update sanitize_upd.key_upd sanitize_upd.from_upd
      list_update_same_conv)
  with found show ?thesis
    by (simp add: length_filter_update sanitizeMessage_not_pending)
qed

end
