(* ===== verification/Conversation.thy ===== *)
theory Conversation
  imports MessageStreaming
begin

text \<open>
  Editing a conversation: \<open>features/playground/lib/message/conversation-message-utils.ts\<close>
  and the handlers of \<open>hooks/use-playground-conversation.ts\<close>. A handler reads the current
  messages, replaces them and may ask the chat handler to send them; the state records the
  messages, the key under edit and the lists handed to \<open>sendChat\<close>. The handlers and the
  message updates of the chat handler form a step relation whose invariant is that keys are
  distinct and that every message has a version.
\<close>

section \<open>Definitions\<close>

datatype js_error = TypeError

text \<open>The keys and version identifiers are those that \<open>nanoid()\<close> returns, in call order.\<close>

definition appendUserMessagePair ::
  "jsstr \<Rightarrow> jsstr \<Rightarrow> jsstr \<Rightarrow> jsstr \<Rightarrow> jsnum \<Rightarrow> Message list \<Rightarrow> jsstr \<Rightarrow> Message list" where
  "appendUserMessagePair k1 v1 k2 v2 submittedAt messages text' =
     messages @ [createUserMessage k1 v1 text' submittedAt,
                 createLoadingAssistantMessage k2 v2 submittedAt]"

definition createRegeneratedMessages ::
  "jsstr \<Rightarrow> jsstr \<Rightarrow> jsnum \<Rightarrow> Message list \<Rightarrow> jsstr \<Rightarrow> Message list option" where
  "createRegeneratedMessages k v now messages messageKey =
     (case find_index (\<lambda>m. key m = messageKey) messages of
        None \<Rightarrow> None
      | Some messageIndex \<Rightarrow>
          if msg_from (messages ! messageIndex) = User then
            Some (slice messages 0 (messageIndex + 1) @ [createLoadingAssistantMessage k v now])
          else
            Some (slice messages 0 messageIndex @ [createLoadingAssistantMessage k v now]))"

definition removeMessageByKey :: "Message list \<Rightarrow> jsstr \<Rightarrow> Message list" where
  "removeMessageByKey messages messageKey = filter (\<lambda>m. key m \<noteq> messageKey) messages"

text \<open>The scan reads \<open>messages[index].from\<close> and raises where there is no such message.\<close>

fun getPreviousUserMessage :: "Message list \<Rightarrow> nat \<Rightarrow> js_error + Message option" where
  "getPreviousUserMessage messages 0 = Inr None"
| "getPreviousUserMessage messages (Suc index) =
     (if index \<ge> length messages then Inl TypeError
      else if msg_from (messages ! index) = User then Inr (Some (messages ! index))
      else getPreviousUserMessage messages index)"

record ApplyMessageEditResult =
  edit_messages :: "Message list"
  shouldSend :: bool

text \<open>The edit of one message, applied to every message with the key.\<close>

definition editMessage :: "jsnum \<Rightarrow> jsstr \<Rightarrow> bool \<Rightarrow> Message \<Rightarrow> Message" where
  "editMessage submittedAt newContent shouldSubmit m =
     (updateCurrentVersionContent m newContent)
       \<lparr>createdAt := (if shouldSubmit then Some submittedAt else createdAt m)\<rparr>"

definition applyMessageEdit ::
  "jsstr \<Rightarrow> jsstr \<Rightarrow> jsnum \<Rightarrow> Message list \<Rightarrow> jsstr \<Rightarrow> jsstr \<Rightarrow> bool \<Rightarrow> ApplyMessageEditResult option" where
  "applyMessageEdit k v submittedAt messages messageKey newContent shouldSubmit =
     (case find_index (\<lambda>m. key m = messageKey) messages of
        None \<Rightarrow> None
      | Some messageIndex \<Rightarrow>
          let updated = map (\<lambda>m. if key m = messageKey
                                 then editMessage submittedAt newContent shouldSubmit m
                                 else m) messages in
          if \<not> shouldSubmit \<or> msg_from (updated ! messageIndex) \<noteq> User then
            Some \<lparr>edit_messages = updated, shouldSend = False\<rparr>
          else
            Some \<lparr>edit_messages = slice updated 0 (messageIndex + 1)
                    @ [createLoadingAssistantMessage k v submittedAt],
                  shouldSend = True\<rparr>)"

definition getEditingMessageContent :: "Message list \<Rightarrow> jsstr option \<Rightarrow> jsstr" where
  "getEditingMessageContent messages editingKey =
     (case editingKey of
        Some (c # cs) \<Rightarrow>
          (case find (\<lambda>m. key m = c # cs) messages of
             Some m \<Rightarrow> getMessageContent m | None \<Rightarrow> [])
      | _ \<Rightarrow> [])"

record ChatMessageRenderState =
  alwaysShowActions :: bool
  render_content :: jsstr
  isEditing :: bool

definition getChatMessageRenderState ::
  "Message list \<Rightarrow> Message \<Rightarrow> nat \<Rightarrow> jsstr option \<Rightarrow> ChatMessageRenderState" where
  "getChatMessageRenderState messages m messageIndex editingKey =
     \<lparr>alwaysShowActions = (int messageIndex = int (length messages) - 1 \<and> msg_from m = Assistant),
      render_content = getMessageContent m,
      isEditing = (editingKey = Some (key m))\<rparr>"

subsection \<open>Handlers\<close>

record ConversationState =
  conv_messages :: "Message list"
  editingMessageKey :: "jsstr option"
  sentChats :: "Message list list"

definition handleSendMessage ::
  "jsstr \<Rightarrow> jsstr \<Rightarrow> jsstr \<Rightarrow> jsstr \<Rightarrow> jsnum \<Rightarrow> jsstr \<Rightarrow> ConversationState \<Rightarrow> ConversationState" where
  "handleSendMessage k1 v1 k2 v2 now text' s =
     (let next = appendUserMessagePair k1 v1 k2 v2 now (conv_messages s) text' in
      s\<lparr>conv_messages := next, sentChats := sentChats s @ [next]\<rparr>)"

definition handleRegenerateMessage ::
  "jsstr \<Rightarrow> jsstr \<Rightarrow> jsnum \<Rightarrow> Message \<Rightarrow> ConversationState \<Rightarrow> ConversationState" where
  "handleRegenerateMessage k v now m s =
     (case createRegeneratedMessages k v now (conv_messages s) (key m) of
        None \<Rightarrow> s
      | Some next \<Rightarrow> s\<lparr>conv_messages := next, sentChats := sentChats s @ [next]\<rparr>)"

definition handleEditMessage :: "Message \<Rightarrow> ConversationState \<Rightarrow> ConversationState" where
  "handleEditMessage m s = s\<lparr>editingMessageKey := Some (key m)\<rparr>"

definition handleEditOpenChange :: "bool \<Rightarrow> ConversationState \<Rightarrow> ConversationState" where
  "handleEditOpenChange isOpen s = (if \<not> isOpen then s\<lparr>editingMessageKey := None\<rparr> else s)"

definition applyEdit ::
  "jsstr \<Rightarrow> jsstr \<Rightarrow> jsnum \<Rightarrow> jsstr \<Rightarrow> bool \<Rightarrow> ConversationState \<Rightarrow> ConversationState" where
  "applyEdit k v now newContent shouldSubmit s =
     (case editingMessageKey s of
        Some (c # cs) \<Rightarrow>
          (case applyMessageEdit k v now (conv_messages s) (c # cs) newContent shouldSubmit of
             None \<Rightarrow> s
           | Some r \<Rightarrow>
               s\<lparr>editingMessageKey := None, conv_messages := edit_messages r,
                 sentChats := (if shouldSend r then sentChats s @ [edit_messages r]
                               else sentChats s)\<rparr>)
      | _ \<Rightarrow> s)"

definition handleDeleteMessage :: "Message \<Rightarrow> ConversationState \<Rightarrow> ConversationState" where
  "handleDeleteMessage m s = s\<lparr>conv_messages := removeMessageByKey (conv_messages s) (key m)\<rparr>"

subsection \<open>Steps\<close>

text \<open>
  A step is a handler call or an update of the last assistant message by the chat handler.
  The guards are what \<open>nanoid()\<close> promises: the keys of new messages are not in use.
\<close>

inductive conv_step :: "ConversationState \<Rightarrow> ConversationState \<Rightarrow> bool" where
  send: "k1 \<notin> key ` set (conv_messages s) \<Longrightarrow> k2 \<notin> key ` set (conv_messages s) \<Longrightarrow> k1 \<noteq> k2 \<Longrightarrow>
    conv_step s (handleSendMessage k1 v1 k2 v2 now text' s)"
| regenerate: "k \<notin> key ` set (conv_messages s) \<Longrightarrow> conv_step s (handleRegenerateMessage k v now m s)"
| edit: "conv_step s (handleEditMessage m s)"
| open_change: "conv_step s (handleEditOpenChange b s)"
| apply_edit: "k \<notin> key ` set (conv_messages s) \<Longrightarrow> conv_step s (applyEdit k v now c b s)"
| delete: "conv_step s (handleDeleteMessage m s)"
| chunk: "conv_step s (s\<lparr>conv_messages :=
    updateLastAssistantMessage (conv_messages s) (applyStreamingChunk t1 t2 ty c)\<rparr>)"
| complete: "conv_step s (s\<lparr>conv_messages :=
    updateLastAssistantMessage (conv_messages s) (completeAssistantMessage t1 t2 t3)\<rparr>)"
| error: "conv_step s (s\<lparr>conv_messages :=
    updateAssistantMessageWithError now (conv_messages s) e code t\<rparr>)"

definition conv_inv :: "ConversationState \<Rightarrow> bool" where
  "conv_inv s \<longleftrightarrow> distinct (map key (conv_messages s)) \<and>
     (\<forall>m\<in>set (conv_messages s). versions m \<noteq> [])"

text \<open>A session that starts without stored messages. Loading stored messages is part of the state hook of the
  page; \<open>nanoid\<close> gives keys that are not in use, which is a guard of the steps.\<close>

inductive conv_reachable :: "ConversationState \<Rightarrow> bool" where
  init: "conv_reachable \<lparr>conv_messages = [], editingMessageKey = None, sentChats = []\<rparr>"
| step: "conv_reachable s \<Longrightarrow> conv_step s t \<Longrightarrow> conv_reachable t"

inductive_cases conv_stepE: "conv_step s t"

section \<open>Lemmas\<close>

lemma slice_0 [simp]: "slice xs 0 n = take n xs"
  by (simp add: slice_def)

lemma editMessage_frame [simp]:
  "key (editMessage t c b m) = key m" "msg_from (editMessage t c b m) = msg_from m"
  "getMessageContent (editMessage t c b m) = c" "versions (editMessage t c b m) \<noteq> []"
  by (simp_all add: editMessage_def getMessageContent_def) (simp add: updateCurrentVersionContent_def)

lemma key_edit_map: "map key (map (\<lambda>m. if key m = k then editMessage t c b m else m) ms) = map key ms"
  by simp

text \<open>The list invariant and its preservation by each list operation.\<close>

definition msgs_inv :: "Message list \<Rightarrow> bool" where
  "msgs_inv ms \<longleftrightarrow> distinct (map key ms) \<and> (\<forall>m\<in>set ms. versions m \<noteq> [])"

lemma create_versions [simp]:
  "versions (createLoadingAssistantMessage k v t) \<noteq> []" "versions (createUserMessage k v c t) \<noteq> []"
  by (simp_all add: createLoadingAssistantMessage_def createUserMessage_def)

lemma msgs_inv_snoc:
  "msgs_inv ms \<Longrightarrow> key m \<notin> key ` set ms \<Longrightarrow> versions m \<noteq> [] \<Longrightarrow> msgs_inv (ms @ [m])"
  by (auto simp: msgs_inv_def)

lemma msgs_inv_take: "msgs_inv ms \<Longrightarrow> msgs_inv (take n ms)"
  by (auto simp: msgs_inv_def take_map [symmetric] dest: in_set_takeD)

lemma msgs_inv_take_snoc:
  "msgs_inv ms \<Longrightarrow> k \<notin> key ` set ms \<Longrightarrow>
    msgs_inv (take n ms @ [createLoadingAssistantMessage k v t])"
  by (rule msgs_inv_snoc) (auto simp: msgs_inv_take dest: in_set_takeD)

lemma msgs_inv_filter: "msgs_inv ms \<Longrightarrow> msgs_inv (filter P ms)"
  by (auto simp: msgs_inv_def distinct_map inj_on_def)

lemma msgs_inv_edit:
  "msgs_inv ms \<Longrightarrow> msgs_inv (map (\<lambda>m. if key m = k then editMessage t c b m else m) ms)"
  unfolding msgs_inv_def key_edit_map by auto

context message_updater
begin

lemma msgs_inv_updateLast:
  "(\<And>m. versions m \<noteq> [] \<Longrightarrow> versions (upd m) \<noteq> []) \<Longrightarrow> msgs_inv ms \<Longrightarrow>
    msgs_inv (updateLastAssistantMessage ms upd)"
  unfolding msgs_inv_def keys_updateLast
  by (cases ms rule: rev_cases) auto

end

lemma processStreamingContent_versions: "versions (processStreamingContent t m c) \<noteq> []"
  by (simp add: processStreamingContent_def Let_def updateCurrentVersionContent_def)

lemma updater_versions:
  "versions m \<noteq> [] \<Longrightarrow> versions (applyStreamingChunk t1 t2 ty c m) \<noteq> []"
  "versions (completeAssistantMessage t1 t2 t3 m) \<noteq> []"
  "versions (messageWithError now e code t m) \<noteq> []"
proof -
  show "versions m \<noteq> [] \<Longrightarrow> versions (applyStreamingChunk t1 t2 ty c m) \<noteq> []"
    using processStreamingContent_versions
    by (cases ty) (simp_all add: applyStreamingChunk_def Let_def)
  have "length (versions (completeAssistantMessage t1 t2 t3 m)) = 1"
    by (simp add: completeAssistantMessage_def)
  then show "versions (completeAssistantMessage t1 t2 t3 m) \<noteq> []" by auto
  show "versions (messageWithError now e code t m) \<noteq> []"
    by (simp add: messageWithError_def updateCurrentVersionContent_def)
qed

text \<open>Each handler keeps the list invariant.\<close>

lemma msgs_inv_send:
  "msgs_inv ms \<Longrightarrow> k1 \<notin> key ` set ms \<Longrightarrow> k2 \<notin> key ` set ms \<Longrightarrow> k1 \<noteq> k2 \<Longrightarrow>
    msgs_inv (appendUserMessagePair k1 v1 k2 v2 now ms c)"
  by (auto simp: appendUserMessagePair_def msgs_inv_def)

lemma regenerated_cases:
  assumes "createRegeneratedMessages k v now ms mk = Some ms'"
  obtains i where "i < length ms" "key (ms ! i) = mk" "\<forall>j<i. key (ms ! j) \<noteq> mk"
    "ms' = take (if msg_from (ms ! i) = User then i + 1 else i) ms
            @ [createLoadingAssistantMessage k v now]"
proof -
  from assms obtain i where "find_index (\<lambda>m. key m = mk) ms = Some i"
    by (auto simp: createRegeneratedMessages_def split: option.splits)
  with assms that find_index_Some [OF this] show ?thesis
    by (auto simp: createRegeneratedMessages_def split: if_splits)
qed

lemma msgs_inv_regenerate:
  assumes "msgs_inv ms" "k \<notin> key ` set ms" "createRegeneratedMessages k v now ms mk = Some ms'"
  shows "msgs_inv ms'"
  using assms(3) by (rule regenerated_cases) (simp add: msgs_inv_take_snoc assms(1,2))

lemma applyMessageEdit_cases:
  assumes "applyMessageEdit k v now ms mk c sub = Some r"
  obtains i where "i < length ms" "key (ms ! i) = mk" "\<forall>j<i. key (ms ! j) \<noteq> mk"
    "shouldSend r \<longleftrightarrow> sub \<and> msg_from (ms ! i) = User"
    "edit_messages r =
      (let updated = map (\<lambda>m. if key m = mk then editMessage now c sub m else m) ms in
       if shouldSend r then take (i + 1) updated @ [createLoadingAssistantMessage k v now]
       else updated)"
proof -
  from assms obtain i where i: "find_index (\<lambda>m. key m = mk) ms = Some i"
    by (auto simp: applyMessageEdit_def split: option.splits)
  note f = find_index_Some [OF i]
  show ?thesis
  proof (rule that [of i])
    show "shouldSend r \<longleftrightarrow> sub \<and> msg_from (ms ! i) = User"
      using assms i f by (auto simp: applyMessageEdit_def Let_def split: if_splits)
    show "edit_messages r =
      (let updated = map (\<lambda>m. if key m = mk then editMessage now c sub m else m) ms in
       if shouldSend r then take (i + 1) updated @ [createLoadingAssistantMessage k v now]
       else updated)"
      using assms i f by (auto simp: applyMessageEdit_def Let_def split: if_splits)
  qed (use f in auto)
qed

lemma msgs_inv_applyEdit:
  assumes "msgs_inv ms" "k \<notin> key ` set ms" "applyMessageEdit k v now ms mk c sub = Some r"
  shows "msgs_inv (edit_messages r)"
proof -
  let ?u = "map (\<lambda>m. if key m = mk then editMessage now c sub m else m) ms"
  have u: "msgs_inv ?u" by (rule msgs_inv_edit [OF assms(1)])
  have "k \<notin> key ` set ?u" using assms(2) by auto
  then have "msgs_inv (take n ?u @ [createLoadingAssistantMessage k v now])" for n
    by (rule msgs_inv_take_snoc [OF u])
  with u show ?thesis
    by (rule_tac applyMessageEdit_cases [OF assms(3)]) (simp add: Let_def)
qed

lemma conv_inv_msgs: "conv_inv s \<longleftrightarrow> msgs_inv (conv_messages s)"
  by (simp add: conv_inv_def msgs_inv_def)

lemma conv_inv_applyEdit:
  "conv_inv s \<Longrightarrow> k \<notin> key ` set (conv_messages s) \<Longrightarrow> conv_inv (applyEdit k v now c b s)"
  unfolding conv_inv_msgs applyEdit_def
  by (auto split: option.splits list.splits intro: msgs_inv_applyEdit)

lemma conv_inv_step: "conv_step s t \<Longrightarrow> conv_inv s \<Longrightarrow> conv_inv t"
proof (induction rule: conv_step.induct)
  case (regenerate k s v now m)
  then show ?case
    by (auto simp: conv_inv_msgs handleRegenerateMessage_def split: option.splits
      intro: msgs_inv_regenerate)
next
  case (chunk s t1 t2 ty c)
  then show ?case
    by (simp add: conv_inv_msgs chunk_upd.msgs_inv_updateLast updater_versions)
next
  case (complete s t1 t2 t3)
  then show ?case
    by (simp add: conv_inv_msgs complete_upd.msgs_inv_updateLast updater_versions)
next
  case (error s now e code t)
  then show ?case
    by (simp add: conv_inv_msgs updateAssistantMessageWithError_def err_upd.msgs_inv_updateLast
      updater_versions)
qed (simp_all add: conv_inv_applyEdit, simp_all add: conv_inv_msgs handleSendMessage_def Let_def
  msgs_inv_send handleEditMessage_def handleEditOpenChange_def handleDeleteMessage_def
  removeMessageByKey_def msgs_inv_filter)

text \<open>The search for the user message before a position inside the list never raises.\<close>

lemma getPreviousUserMessage_total:
  "n \<le> length ms \<Longrightarrow> getPreviousUserMessage ms n =
    Inr (let us = filter (\<lambda>m. msg_from m = User) (take n ms) in if us = [] then None else Some (last us))"
  by (induction n) (auto simp: Let_def take_Suc_conv_app_nth)

section \<open>Properties\<close>

text \<open>C6: In every state that user actions and streaming updates can reach, message keys are
  distinct and every message has a version; the key that is used to find, edit, delete or
  regenerate a message therefore denotes at most one message.\<close>

theorem conv_reachable_inv: "conv_reachable s \<Longrightarrow> conv_inv s"
proof (induction rule: conv_reachable.induct)
  case init
  show ?case by (simp add: conv_inv_def)
next
  case (step s t)
  then show ?case by (blast intro: conv_inv_step)
qed

theorem conv_reachable_inv_witness:
  "conv_inv (handleSendMessage (js ''a'') (js ''v'') (js ''b'') (js ''w'') 1 (js ''hi'')
     \<lparr>conv_messages = [], editingMessageKey = None, sentChats = []\<rparr>)"
  by (rule conv_reachable_inv, rule conv_reachable.step [OF conv_reachable.init],
    rule conv_step.send) simp_all

text \<open>Regenerating keeps the conversation up to the message (up to the question, when the
  message is an answer): the new list is a prefix of the old one followed by exactly one
  loading assistant message, a user message is kept, an answer and everything after it is
  dropped; an unknown key changes nothing.\<close>

theorem createRegeneratedMessages_prefix:
  assumes "createRegeneratedMessages k v now ms mk = Some ms'"
  shows "\<exists>i. i < length ms \<and> key (ms ! i) = mk \<and>
    butlast ms' = take (if msg_from (ms ! i) = User then i + 1 else i) ms \<and>
    last ms' = createLoadingAssistantMessage k v now \<and>
    (msg_from (ms ! i) = User \<longleftrightarrow> mk \<in> key ` set (butlast ms'))"
  using assms
proof (rule regenerated_cases)
  fix i assume i: "i < length ms" "key (ms ! i) = mk" "\<forall>j<i. key (ms ! j) \<noteq> mk"
    and eq: "ms' = take (if msg_from (ms ! i) = User then i + 1 else i) ms
            @ [createLoadingAssistantMessage k v now]"
  have "mk \<notin> key ` set (take i ms)" using i(2,3) by (fastforce simp: in_set_conv_nth)
  moreover have "mk \<in> key ` set (take (i + 1) ms)"
    using i by (simp add: take_Suc_conv_app_nth)
  ultimately show ?thesis using i eq by auto
qed

theorem createRegeneratedMessages_prefix_witness:
  "createRegeneratedMessages (js ''c'') (js ''v'') 2
     [createUserMessage (js ''a'') (js ''v'') (js ''hi'') 1,
      createLoadingAssistantMessage (js ''b'') (js ''w'') 1] (js ''b'') =
   Some [createUserMessage (js ''a'') (js ''v'') (js ''hi'') 1,
      createLoadingAssistantMessage (js ''c'') (js ''v'') 2]"
  (is "?c = Some ?r")
proof -
  have r: "?c = Some ?r" by (simp add: createRegeneratedMessages_def)
  show ?thesis using createRegeneratedMessages_prefix [OF r] r by blast
qed

text \<open>An edit changes the text of the message under edit and of no other; when it is
  submitted and the message is the user's, the conversation is cut after it and one loading
  answer is appended and sent, otherwise the length stays and nothing is sent.\<close>

theorem applyMessageEdit_effect:
  assumes "applyMessageEdit k v now ms mk c sub = Some r"
  shows "\<exists>i. i < length ms \<and> key (ms ! i) = mk \<and>
    shouldSend r = (sub \<and> msg_from (ms ! i) = User) \<and>
    length (edit_messages r) = (if shouldSend r then i + 2 else length ms) \<and>
    getMessageContent (edit_messages r ! i) = c \<and>
    (\<forall>j<length ms. key (ms ! j) \<noteq> mk \<and> (shouldSend r \<longrightarrow> j < i) \<longrightarrow>
       edit_messages r ! j = ms ! j) \<and>
    (shouldSend r \<longrightarrow> last (edit_messages r) = createLoadingAssistantMessage k v now)"
  using assms
  by (rule applyMessageEdit_cases) (auto simp: Let_def nth_append)

theorem applyMessageEdit_effect_witness:
  "\<exists>r. applyMessageEdit (js ''c'') (js ''v'') 2
     [createUserMessage (js ''a'') (js ''v'') (js ''hi'') 1,
      createLoadingAssistantMessage (js ''b'') (js ''w'') 1] (js ''a'') (js ''ho'') True = Some r \<and>
     getMessageContent (edit_messages r ! 0) = js ''ho'' \<and> length (edit_messages r) = 2"
proof -
  let ?ms = "[createUserMessage (js ''a'') (js ''v'') (js ''hi'') 1,
      createLoadingAssistantMessage (js ''b'') (js ''w'') 1]"
  obtain r where r: "applyMessageEdit (js ''c'') (js ''v'') 2 ?ms (js ''a'') (js ''ho'') True = Some r"
    by (simp add: applyMessageEdit_def Let_def)
  have "shouldSend r" using r by (auto simp: applyMessageEdit_def Let_def)
  with applyMessageEdit_effect [OF r] r show ?thesis
    by (auto simp: less_Suc_eq)
qed

end
