(* ===== verification/StreamRequest.thy ===== *)
theory StreamRequest
  imports MessageStreaming
begin

text \<open>
  The streaming request of \<open>features/playground/hooks/use-stream-request.ts\<close> as a state
  machine, with the event parsing of \<open>lib/streaming/stream-utils.ts\<close> and
  \<open>request-error-utils.ts\<close>. Sources (the \<open>SSE\<close> objects of \<open>sse.js\<close>) are numbered in the
  order of their creation. A handler returns the callbacks it makes, in order, with the new
  state. \<open>JSON.parse\<close> followed by a cast is a parameter that returns the typed view of the
  text, or \<open>None\<close> where parsing or reading the value raises.
\<close>

section \<open>Definitions\<close>

subsection \<open>Reading events\<close>

definition STREAM_DONE_MESSAGE :: jsstr where
  "STREAM_DONE_MESSAGE = js ''[DONE]''"

definition STREAM_CLOSED_READY_STATE :: int where
  "STREAM_CLOSED_READY_STATE = 2"

record StreamMessageUpdate =
  update_type :: StreamChunkType
  update_chunk :: jsstr

record StreamErrorBody =
  body_code :: "jsstr option"
  body_message :: "jsstr option"

record StreamErrorPayload =
  payload_error :: "StreamErrorBody option"

record StreamErrorDetails =
  details_errorCode :: "jsstr option"
  details_errorMessage :: jsstr

record StreamDelta =
  delta_reasoning_content :: "jsstr option"
  delta_content :: "jsstr option"

record ChatCompletionChunk =
  chunk_choices :: "StreamDelta option list option"

text \<open>\<open>s || undefined\<close>: an empty string becomes absent.\<close>

definition or_undefined :: "jsstr option \<Rightarrow> jsstr option" where
  "or_undefined s = (case s of Some (c # cs) \<Rightarrow> Some (c # cs) | _ \<Rightarrow> None)"

definition parseStreamErrorDetails ::
  "(jsstr \<Rightarrow> StreamErrorPayload option) \<Rightarrow> jsstr option \<Rightarrow> StreamErrorDetails" where
  "parseStreamErrorDetails parse data =
     (let fallbackMessage = or_str data API_REQUEST_ERROR;
          plain = \<lparr>details_errorCode = None, details_errorMessage = fallbackMessage\<rparr> in
      case or_undefined data of
        None \<Rightarrow> plain
      | Some d \<Rightarrow>
          (case parse d of
             None \<Rightarrow> plain
           | Some parsed \<Rightarrow>
               (case payload_error parsed of
                  None \<Rightarrow> plain
                | Some e \<Rightarrow>
                    \<lparr>details_errorCode = or_undefined (body_code e),
                     details_errorMessage = or_str (body_message e) fallbackMessage\<rparr>)))"

definition streamDelta :: "ChatCompletionChunk \<Rightarrow> StreamDelta option" where
  "streamDelta chunk = (case chunk_choices chunk of Some (d # _) \<Rightarrow> d | _ \<Rightarrow> None)"

definition parseStreamMessageUpdates ::
  "(jsstr \<Rightarrow> ChatCompletionChunk option) \<Rightarrow> jsstr \<Rightarrow> StreamMessageUpdate list option" where
  "parseStreamMessageUpdates parse data =
     (case parse data of
        None \<Rightarrow> None
      | Some chunk \<Rightarrow>
          (case streamDelta chunk of
             None \<Rightarrow> Some []
           | Some delta \<Rightarrow>
               Some ((case or_undefined (delta_reasoning_content delta) of
                        Some c \<Rightarrow> [\<lparr>update_type = ReasoningChunk, update_chunk = c\<rparr>] | None \<Rightarrow> [])
                   @ (case or_undefined (delta_content delta) of
                        Some c \<Rightarrow> [\<lparr>update_type = ContentChunk, update_chunk = c\<rparr>] | None \<Rightarrow> []))))"

definition isStreamDoneMessage :: "jsstr \<Rightarrow> bool" where
  "isStreamDoneMessage data \<longleftrightarrow> data = STREAM_DONE_MESSAGE"

definition isStreamClosedReadyState :: "int option \<Rightarrow> bool" where
  "isStreamClosedReadyState readyState \<longleftrightarrow> readyState = Some STREAM_CLOSED_READY_STATE"

definition getStreamReadyStateError :: "int option \<Rightarrow> int option \<Rightarrow> jsstr option" where
  "getStreamReadyStateError eventReadyState sourceStatus =
     (case (eventReadyState, sourceStatus) of
        (Some r, Some st) \<Rightarrow>
          if r \<ge> STREAM_CLOSED_READY_STATE \<and> st \<noteq> 200
          then Some (js ''HTTP '' @ show_int st @ js '': '' @ CONNECTION_CLOSED) else None
      | _ \<Rightarrow> None)"

record RequestErrorLike =
  rerr_message :: "jsstr option"
  rerr_data_code :: "jsstr option"
  rerr_data_message :: "jsstr option"

definition parseRequestErrorDetails :: "RequestErrorLike \<Rightarrow> StreamErrorDetails" where
  "parseRequestErrorDetails e =
     \<lparr>details_errorCode = or_undefined (rerr_data_code e),
      details_errorMessage =
        or_str (rerr_data_message e) (or_str (rerr_message e) API_REQUEST_ERROR)\<rparr>"

subsection \<open>The request hook\<close>

datatype StreamCallback =
    OnUpdate StreamChunkType jsstr
  | OnComplete
  | OnError jsstr "jsstr option"

record StreamState =
  sseSource :: "nat option"
  isStreamComplete :: bool
  isStreaming :: bool
  closedSources :: "nat list"
  nextSource :: nat

definition initStream :: StreamState where
  "initStream = \<lparr>sseSource = None, isStreamComplete = False, isStreaming = False,
     closedSources = [], nextSource = 0\<rparr>"

text \<open>\<open>source?.close()\<close>.\<close>

definition close_source :: "nat option \<Rightarrow> StreamState \<Rightarrow> StreamState" where
  "close_source source s =
     (case source of None \<Rightarrow> s | Some i \<Rightarrow> s\<lparr>closedSources := i # closedSources s\<rparr>)"

definition closeActiveStream :: "nat option \<Rightarrow> StreamState \<Rightarrow> StreamState" where
  "closeActiveStream source s =
     (let streamSource = (case source of Some i \<Rightarrow> Some i | None \<Rightarrow> sseSource s);
          s' = close_source streamSource s in
      if source = None \<or> sseSource s' = source
      then s'\<lparr>sseSource := None, isStreaming := False\<rparr> else s')"

definition handleError ::
  "nat \<Rightarrow> jsstr \<Rightarrow> jsstr option \<Rightarrow> StreamState \<Rightarrow> StreamCallback list \<times> StreamState" where
  "handleError source errorMessage code s =
     (if \<not> isStreamComplete s
      then ([OnError errorMessage code], closeActiveStream (Some source) s) else ([], s))"

definition onMessageEvent ::
  "(jsstr \<Rightarrow> ChatCompletionChunk option) \<Rightarrow> nat \<Rightarrow> jsstr \<Rightarrow> StreamState \<Rightarrow>
   StreamCallback list \<times> StreamState" where
  "onMessageEvent parse source data s =
     (if isStreamDoneMessage data then
        ([OnComplete], closeActiveStream (Some source) (s\<lparr>isStreamComplete := True\<rparr>))
      else
        (case parseStreamMessageUpdates parse data of
           Some updates \<Rightarrow> (map (\<lambda>u. OnUpdate (update_type u) (update_chunk u)) updates, s)
         | None \<Rightarrow> handleError source PARSE_ERROR None s))"

definition onErrorEvent ::
  "(jsstr \<Rightarrow> StreamErrorPayload option) \<Rightarrow> nat \<Rightarrow> int option \<Rightarrow> jsstr option \<Rightarrow> StreamState \<Rightarrow>
   StreamCallback list \<times> StreamState" where
  "onErrorEvent parse source readyState data s =
     (if \<not> isStreamClosedReadyState readyState then
        let details = parseStreamErrorDetails parse data in
        handleError source (details_errorMessage details) (details_errorCode details) s
      else ([], s))"

definition onReadyStateChange ::
  "nat \<Rightarrow> int option \<Rightarrow> int option \<Rightarrow> StreamState \<Rightarrow> StreamCallback list \<times> StreamState" where
  "onReadyStateChange source eventReadyState sourceStatus s =
     (case or_undefined (getStreamReadyStateError eventReadyState sourceStatus) of
        Some errorMessage \<Rightarrow> handleError source errorMessage None s
      | None \<Rightarrow> ([], s))"

text \<open>A request: the previous source is closed, the new one becomes current; \<open>source.stream()\<close>
  may raise.\<close>

definition sendStreamRequest :: "bool \<Rightarrow> StreamState \<Rightarrow> StreamCallback list \<times> StreamState" where
  "sendStreamRequest startFails s =
     (let s1 = close_source (sseSource s) s;
          source = nextSource s1;
          s2 = s1\<lparr>nextSource := source + 1, sseSource := Some source, isStreamComplete := False,
                  isStreaming := True\<rparr> in
      if startFails
      then ([OnError STREAM_START_ERROR None], closeActiveStream (Some source) s2) else ([], s2))"

definition stopStream :: "StreamState \<Rightarrow> StreamState" where
  "stopStream s = closeActiveStream None s"

subsection \<open>Steps\<close>

text \<open>
  What can happen to the hook: a request, a stop, and an event of a source that was created.
  A closed source delivers no more messages, and its \<open>readyState\<close> is the closed one: this is
  what \<open>close()\<close> of \<open>sse.js\<close> promises.
\<close>

datatype StreamStimulus =
    SendRequest bool
  | StopRequest
  | MessageEvent nat jsstr
  | ErrorEvent nat "int option" "jsstr option"
  | ReadyStateEvent nat "int option" "int option"

fun stimulus_ok :: "StreamStimulus \<Rightarrow> StreamState \<Rightarrow> bool" where
  "stimulus_ok (SendRequest b) s = True"
| "stimulus_ok StopRequest s = True"
| "stimulus_ok (MessageEvent i d) s = (i < nextSource s \<and> i \<notin> set (closedSources s))"
| "stimulus_ok (ErrorEvent i r d) s =
     (i < nextSource s \<and> (i \<in> set (closedSources s) \<longrightarrow> isStreamClosedReadyState r))"
| "stimulus_ok (ReadyStateEvent i r st) s = (i < nextSource s)"

fun react ::
  "(jsstr \<Rightarrow> ChatCompletionChunk option) \<Rightarrow> (jsstr \<Rightarrow> StreamErrorPayload option) \<Rightarrow>
   StreamStimulus \<Rightarrow> StreamState \<Rightarrow> StreamCallback list \<times> StreamState" where
  "react pc pe (SendRequest b) s = sendStreamRequest b s"
| "react pc pe StopRequest s = ([], stopStream s)"
| "react pc pe (MessageEvent i d) s = onMessageEvent pc i d s"
| "react pc pe (ErrorEvent i r d) s = onErrorEvent pe i r d s"
| "react pc pe (ReadyStateEvent i r st) s = onReadyStateChange i r st s"

text \<open>The source whose handler makes the callbacks of a step.\<close>

fun stimulus_source :: "StreamStimulus \<Rightarrow> StreamState \<Rightarrow> nat" where
  "stimulus_source (MessageEvent i d) s = i"
| "stimulus_source (ErrorEvent i r d) s = i"
| "stimulus_source (ReadyStateEvent i r st) s = i"
| "stimulus_source _ s = nextSource s"

text \<open>
  A run of the hook with the log of its callbacks. A request is named by the source it creates, so
  the requests are numbered from 0 in the order in which they are sent. An entry of the log holds
  the number of requests sent when the callback is made, the request whose handlers make it, and
  the callback.
\<close>

inductive stream_run ::
  "(jsstr \<Rightarrow> ChatCompletionChunk option) \<Rightarrow> (jsstr \<Rightarrow> StreamErrorPayload option) \<Rightarrow>
   StreamState \<Rightarrow> (nat \<times> nat \<times> StreamCallback) list \<Rightarrow> bool"
  for pc pe where
  run_init: "stream_run pc pe initStream []"
| run_step: "stream_run pc pe s cbLog \<Longrightarrow> stimulus_ok x s \<Longrightarrow> react pc pe x s = (cbs, s') \<Longrightarrow>
    stream_run pc pe s' (cbLog @ map (\<lambda>cb. (nextSource s', stimulus_source x s, cb)) cbs)"

definition stream_inv :: "StreamState \<Rightarrow> bool" where
  "stream_inv s \<longleftrightarrow>
     (isStreaming s \<longleftrightarrow> sseSource s \<noteq> None) \<and>
     (\<forall>i. i < nextSource s \<longrightarrow> (i \<notin> set (closedSources s) \<longleftrightarrow> sseSource s = Some i)) \<and>
     (\<forall>i. sseSource s = Some i \<longrightarrow> nextSource s = Suc i \<and> i \<notin> set (closedSources s)) \<and>
     (\<forall>i\<in>set (closedSources s). i < nextSource s) \<and>
     (sseSource s \<noteq> None \<longrightarrow> \<not> isStreamComplete s)"

section \<open>Lemmas\<close>

fun terminal :: "StreamCallback \<Rightarrow> bool" where
  "terminal (OnUpdate ty c) = False"
| "terminal OnComplete = True"
| "terminal (OnError e c) = True"

fun is_OnError :: "StreamCallback \<Rightarrow> bool" where
  "is_OnError (OnError e c) = True"
| "is_OnError _ = False"

lemmas stream_defs = close_source_def closeActiveStream_def handleError_def onMessageEvent_def
  onErrorEvent_def onReadyStateChange_def sendStreamRequest_def stopStream_def

text \<open>Closing a source, in a state that satisfies the invariant up to the completion flag.\<close>

lemma close_simps [simp]:
  "nextSource (closeActiveStream x s) = nextSource s"
  "isStreamComplete (closeActiveStream x s) = isStreamComplete s"
  "set (closedSources (closeActiveStream (Some i) s)) = insert i (set (closedSources s))"
  by (auto simp: stream_defs Let_def split: option.splits)

lemma stream_inv_close:
  assumes "stream_inv s" "i < nextSource s"
  shows "stream_inv (closeActiveStream (Some i) s)"
  using assms unfolding stream_inv_def closeActiveStream_def close_source_def Let_def
  by (cases "sseSource s") auto

lemma stream_inv_complete:
  assumes "stream_inv s" "sseSource s = Some i"
  shows "stream_inv (closeActiveStream (Some i) (s\<lparr>isStreamComplete := True\<rparr>))"
  using assms unfolding stream_inv_def closeActiveStream_def close_source_def Let_def
  by auto

lemma stream_inv_stop: "stream_inv s \<Longrightarrow> stream_inv (stopStream s)"
  unfolding stream_inv_def stopStream_def closeActiveStream_def close_source_def Let_def
  by (cases "sseSource s") auto

lemma stream_inv_send: "stream_inv s \<Longrightarrow> stream_inv (snd (sendStreamRequest b s))"
proof -
  assume inv: "stream_inv s"
  let ?s1 = "close_source (sseSource s) s"
  let ?s2 = "?s1\<lparr>nextSource := nextSource ?s1 + 1, sseSource := Some (nextSource ?s1),
    isStreamComplete := False, isStreaming := True\<rparr>"
  have "stream_inv ?s2"
    using inv unfolding stream_inv_def close_source_def
    by (cases "sseSource s") (auto simp: less_Suc_eq)
  moreover from stream_inv_close [OF this, of "nextSource ?s1"]
  have "stream_inv (closeActiveStream (Some (nextSource ?s1)) ?s2)" by simp
  ultimately show ?thesis by (simp add: sendStreamRequest_def Let_def)
qed

lemma message_source_active:
  "stream_inv s \<Longrightarrow> stimulus_ok (MessageEvent i d) s \<Longrightarrow> sseSource s = Some i \<and> \<not> isStreamComplete s"
  by (auto simp: stream_inv_def)

lemma handleError_facts:
  "handleError i e c s = (cbs, s') \<Longrightarrow>
    cbs = (if isStreamComplete s then [] else [OnError e c]) \<and>
    s' = (if isStreamComplete s then s else closeActiveStream (Some i) s)"
  by (auto simp: handleError_def split: if_splits)

text \<open>What one step does, by the kind of stimulus.\<close>

lemma react_cases:
  assumes "stream_inv s" "stimulus_ok x s" "react pc pe x s = (cbs, s')"
  obtains (send) "s' = snd (sendStreamRequest (cbs \<noteq> []) s)"
      "cbs = [] \<or> cbs = [OnError STREAM_START_ERROR None]" "stimulus_source x s = nextSource s"
  | (stop) "s' = stopStream s" "cbs = []"
  | (updates) "s' = s" "\<forall>cb\<in>set cbs. \<not> terminal cb" "sseSource s = Some (stimulus_source x s)"
  | (completed) i where "sseSource s = Some i" "stimulus_source x s = i" "cbs = [OnComplete]"
      "s' = closeActiveStream (Some i) (s\<lparr>isStreamComplete := True\<rparr>)"
  | (failed) i e c where "i < nextSource s" "stimulus_source x s = i" "\<not> isStreamComplete s"
      "cbs = [OnError e c]" "s' = closeActiveStream (Some i) s"
  | (ignored) "s' = s" "cbs = []"
proof (cases x)
  case (SendRequest b)
  with assms(3) show ?thesis
    by (intro send) (auto simp: sendStreamRequest_def Let_def split: if_splits)
next
  case StopRequest
  with assms(3) show ?thesis by (intro stop) auto
next
  case (MessageEvent i d)
  with assms have act: "sseSource s = Some i" "\<not> isStreamComplete s" "i < nextSource s"
    using message_source_active [of s i d] by simp_all
  show ?thesis
  proof (cases "isStreamDoneMessage d")
    case True
    with MessageEvent assms(3) act show ?thesis by (intro completed) (auto simp: onMessageEvent_def)
  next
    case False
    show ?thesis
    proof (cases "parseStreamMessageUpdates pc d")
      case None
      with MessageEvent assms(3) act False show ?thesis
        by (intro failed) (auto simp: onMessageEvent_def handleError_def)
    next
      case (Some us)
      with MessageEvent assms(3) act False show ?thesis
        by (intro updates) (auto simp: onMessageEvent_def)
    qed
  qed
next
  case (ErrorEvent i r d)
  show ?thesis
  proof (cases "isStreamComplete s \<or> isStreamClosedReadyState r")
    case True
    with ErrorEvent assms(3) show ?thesis
      by (intro ignored) (auto simp: onErrorEvent_def handleError_def Let_def split: if_splits)
  next
    case False
    with ErrorEvent assms show ?thesis
      by (intro failed) (auto simp: onErrorEvent_def handleError_def Let_def split: if_splits)
  qed
next
  case (ReadyStateEvent i r st)
  show ?thesis
  proof (cases "isStreamComplete s \<or> or_undefined (getStreamReadyStateError r st) = None")
    case True
    with ReadyStateEvent assms(3) show ?thesis
      by (intro ignored) (auto simp: onReadyStateChange_def handleError_def split: option.splits)
  next
    case False
    then obtain e where "or_undefined (getStreamReadyStateError r st) = Some e" by auto
    with False ReadyStateEvent assms show ?thesis
      by (intro failed [of i e None]) (auto simp: onReadyStateChange_def handleError_def split: option.splits)
  qed
qed

lemma stream_inv_step:
  assumes "stream_inv s" "stimulus_ok x s" "react pc pe x s = (cbs, s')"
  shows "stream_inv s'"
  by (cases rule: react_cases [OF assms])
    (use assms(1) in \<open>simp_all add: stream_inv_send stream_inv_stop stream_inv_complete
      stream_inv_close\<close>)

text \<open>The order of a log: between a completion and the next callback a new request is sent, and a
  request that has completed or failed makes no callback but errors. Updates and completions are
  made by the latest request.\<close>

definition log_follows :: "nat \<times> nat \<times> StreamCallback \<Rightarrow> nat \<times> nat \<times> StreamCallback \<Rightarrow> bool" where
  "log_follows a b \<longleftrightarrow> (case (a, b) of ((r, i, x), (r', j, y)) \<Rightarrow>
     r \<le> r' \<and> (x = OnComplete \<longrightarrow> r < r') \<and> (i = j \<and> terminal x \<longrightarrow> is_OnError y))"

definition log_latest :: "nat \<times> nat \<times> StreamCallback \<Rightarrow> bool" where
  "log_latest e \<longleftrightarrow> (case e of (r, i, x) \<Rightarrow> i < r \<and> (is_OnError x \<or> r = Suc i))"

definition log_inv :: "StreamState \<Rightarrow> (nat \<times> nat \<times> StreamCallback) list \<Rightarrow> bool" where
  "log_inv s cbLog \<longleftrightarrow> sorted_wrt log_follows cbLog \<and>
     (\<forall>e\<in>set cbLog. log_latest e) \<and>
     (\<forall>(r, i, x)\<in>set cbLog. r \<le> nextSource s \<and> (terminal x \<longrightarrow> i \<in> set (closedSources s)) \<and>
        (x = OnComplete \<and> r = nextSource s \<longrightarrow> isStreamComplete s))"

lemma log_inv_same:
  "log_inv s cbLog \<Longrightarrow> nextSource s' = nextSource s \<Longrightarrow> isStreamComplete s' = isStreamComplete s \<Longrightarrow>
    set (closedSources s) \<subseteq> set (closedSources s') \<Longrightarrow> log_inv s' cbLog"
  unfolding log_inv_def by fastforce

lemma log_inv_new_request:
  assumes "log_inv s cbLog" "nextSource s' = Suc (nextSource s)"
    "set (closedSources s) \<subseteq> set (closedSources s')"
  shows "log_inv s' cbLog" and "e \<in> set cbLog \<Longrightarrow> fst e < nextSource s'"
  using assms unfolding log_inv_def by fastforce+

lemma log_inv_snoc:
  assumes "log_inv s cbLog" "\<forall>e\<in>set cbLog. log_follows e (nextSource s, i, x)" "log_latest (nextSource s, i, x)"
    "terminal x \<longrightarrow> i \<in> set (closedSources s)" "x = OnComplete \<longrightarrow> isStreamComplete s"
  shows "log_inv s (cbLog @ [(nextSource s, i, x)])"
  using assms unfolding log_inv_def by (auto simp: sorted_wrt_append)

lemma log_follows_new:
  assumes "log_inv s cbLog" "\<not> isStreamComplete s" "i \<notin> set (closedSources s) \<or> is_OnError x"
    "e \<in> set cbLog"
  shows "log_follows e (nextSource s, i, x)"
proof -
  obtain r j y where e: "e = (r, j, y)" by (cases e)
  with assms have "r \<le> nextSource s" "terminal y \<longrightarrow> j \<in> set (closedSources s)"
    "\<not> (y = OnComplete \<and> r = nextSource s)"
    unfolding log_inv_def by fastforce+
  with assms(3) e show ?thesis by (auto simp: log_follows_def)
qed

lemma log_inv_updates:
  assumes "log_inv s cbLog" "\<not> isStreamComplete s" "i \<notin> set (closedSources s)" "nextSource s = Suc i"
    "\<forall>cb\<in>set cbs. \<not> terminal cb"
  shows "log_inv s (cbLog @ map (\<lambda>cb. (nextSource s, i, cb)) cbs)"
  using assms
proof (induction cbs arbitrary: cbLog)
  case (Cons cb cbs)
  have "log_inv s (cbLog @ [(nextSource s, i, cb)])"
    using Cons.prems log_follows_new [of s cbLog i cb]
    by (intro log_inv_snoc) (auto simp: log_latest_def)
  from Cons.IH [OF this] Cons.prems show ?case by simp
qed simp

lemma send_simps:
  "nextSource (snd (sendStreamRequest b s)) = Suc (nextSource s)"
  "set (closedSources s) \<subseteq> set (closedSources (snd (sendStreamRequest b s)))"
  "b \<Longrightarrow> nextSource s \<in> set (closedSources (snd (sendStreamRequest b s)))"
  by (auto simp: stream_defs Let_def split: option.splits)

lemma stop_simps:
  "nextSource (stopStream s) = nextSource s"
  "isStreamComplete (stopStream s) = isStreamComplete s"
  "set (closedSources s) \<subseteq> set (closedSources (stopStream s))"
  by (auto simp: stream_defs Let_def split: option.splits)

lemma log_inv_close:
  assumes "log_inv s cbLog" "\<not> isStreamComplete s" "i < nextSource s"
  shows "log_inv (closeActiveStream (Some i) s) (cbLog @ [(nextSource s, i, OnError e c)])"
proof -
  let ?s = "closeActiveStream (Some i) s"
  have "log_inv ?s cbLog" by (rule log_inv_same [OF assms(1)]) auto
  then show ?thesis
    using log_inv_snoc [of ?s cbLog i "OnError e c"] log_follows_new [OF assms(1,2)] assms(3)
    by (auto simp: log_latest_def)
qed

lemma log_inv_complete:
  assumes "log_inv s cbLog" "\<not> isStreamComplete s" "i \<notin> set (closedSources s)" "nextSource s = Suc i"
  shows "log_inv (closeActiveStream (Some i) (s\<lparr>isStreamComplete := True\<rparr>))
    (cbLog @ [(nextSource s, i, OnComplete)])"
proof -
  let ?s = "closeActiveStream (Some i) (s\<lparr>isStreamComplete := True\<rparr>)"
  have "log_inv ?s cbLog" using assms(1) unfolding log_inv_def by fastforce
  then show ?thesis
    using log_inv_snoc [of ?s cbLog i OnComplete] log_follows_new [OF assms(1,2)] assms(3,4)
    by (auto simp: log_latest_def)
qed

lemma log_inv_send:
  assumes "stream_inv s" "log_inv s cbLog" "cbs = [] \<or> cbs = [OnError e c]"
  shows "log_inv (snd (sendStreamRequest (cbs \<noteq> []) s))
    (cbLog @ map (\<lambda>cb. (Suc (nextSource s), nextSource s, cb)) cbs)"
proof -
  let ?s = "snd (sendStreamRequest (cbs \<noteq> []) s)"
  have new: "log_inv ?s cbLog" "\<And>e. e \<in> set cbLog \<Longrightarrow> fst e < nextSource ?s"
    using log_inv_new_request [OF assms(2) send_simps(1,2)] by auto
  from assms(3) show ?thesis
  proof
    assume "cbs = [OnError e c]"
    moreover have "log_follows x (Suc (nextSource s), nextSource s, OnError e c)"
      if "x \<in> set cbLog" for x
      using new(2) [OF that] by (cases x) (auto simp: log_follows_def send_simps)
    ultimately show ?thesis
      using log_inv_snoc [OF new(1), of "nextSource s" "OnError e c"] send_simps by (simp add: log_latest_def)
  qed (use new in simp)
qed

lemma log_inv_step:
  assumes "stream_inv s" "stimulus_ok x s" "react pc pe x s = (cbs, s')" "log_inv s cbLog"
  shows "log_inv s' (cbLog @ map (\<lambda>cb. (nextSource s', stimulus_source x s, cb)) cbs)"
  using assms(1-3)
proof (cases rule: react_cases)
  case send
  then show ?thesis
    using log_inv_send [OF assms(1,4)] send_simps(1) by metis
next
  case stop
  then show ?thesis using log_inv_same [OF assms(4) stop_simps] by simp
next
  case updates
  then have "\<not> isStreamComplete s" "stimulus_source x s \<notin> set (closedSources s)" "nextSource s = Suc (stimulus_source x s)"
    using assms(1) by (auto simp: stream_inv_def)
  with updates assms(4) log_inv_updates [of s cbLog "stimulus_source x s" cbs] show ?thesis by simp
next
  case (completed i)
  then have "\<not> isStreamComplete s" "i \<notin> set (closedSources s)" "nextSource s = Suc i"
    using assms(1) by (auto simp: stream_inv_def)
  with completed assms(4) show ?thesis using log_inv_complete by simp
next
  case (failed i e c)
  then show ?thesis using log_inv_close [OF assms(4)] by simp
next
  case ignored
  then show ?thesis using assms(4) by simp
qed

lemma stream_run_invs: "stream_run pc pe s cbLog \<Longrightarrow> stream_inv s \<and> log_inv s cbLog"
proof (induction rule: stream_run.induct)
  case run_init
  show ?case by (simp add: stream_inv_def log_inv_def initStream_def)
next
  case (run_step s cbLog x cbs s')
  then show ?case using stream_inv_step log_inv_step by blast
qed

section \<open>Properties\<close>

text \<open>C7: In every run, the hook says that it is streaming exactly while it has a current source,
  at most one source is open and it is the current one, and the completion flag is not set
  while a source is current.\<close>

theorem stream_run_inv:
  assumes "stream_run pc pe s cbLog"
  shows "(isStreaming s \<longleftrightarrow> sseSource s \<noteq> None) \<and>
    (\<forall>i<nextSource s. i \<notin> set (closedSources s) \<longleftrightarrow> sseSource s = Some i) \<and>
    (sseSource s \<noteq> None \<longrightarrow> \<not> isStreamComplete s)"
  using stream_run_invs [OF assms] by (simp add: stream_inv_def)

theorem stream_run_inv_witness:
  "isStreaming (snd (sendStreamRequest False initStream))"
proof -
  let ?s = "snd (sendStreamRequest False initStream)"
  have "stream_run (\<lambda>_. None) (\<lambda>_. None) ?s ([] @ map (\<lambda>cb. (nextSource ?s, 0, cb)) [])"
    using stream_run.run_step [OF stream_run.run_init, of "SendRequest False" "\<lambda>_. None" "\<lambda>_. None" "[]" ?s]
    by (simp add: sendStreamRequest_def Let_def initStream_def)
  from stream_run_inv [OF this] show ?thesis
    by (simp add: sendStreamRequest_def Let_def initStream_def close_source_def)
qed

text \<open>C8: The callbacks of every run are ordered. Updates and completions are made by the latest
  request only. A request that has completed or failed makes no further update and no completion.
  After a completion nothing at all is called back, by any request, until the next request is
  sent. Late callbacks are errors: as the completion flag is shared by all requests, an earlier
  request can still report an error once a later one has been sent. That a closed source delivers
  no message is what \<open>sse.js\<close> promises; that every completed, failed, stopped or replaced source is
  closed is the work of the hook.\<close>

theorem stream_run_callbacks:
  assumes "stream_run pc pe s cbLog"
  shows "(\<forall>(sent, i, x)\<in>set cbLog. i < sent \<and> (is_OnError x \<or> sent = Suc i)) \<and>
    sorted_wrt (\<lambda>(sent, i, x) (sent', j, y). sent \<le> sent' \<and> (x = OnComplete \<longrightarrow> sent < sent') \<and>
      (i = j \<and> terminal x \<longrightarrow> is_OnError y)) cbLog"
proof (intro conjI)
  have inv: "log_inv s cbLog" using stream_run_invs [OF assms] by blast
  then show "\<forall>(sent, i, x)\<in>set cbLog. i < sent \<and> (is_OnError x \<or> sent = Suc i)"
    by (simp add: log_inv_def log_latest_def case_prod_beta')
  show "sorted_wrt (\<lambda>(sent, i, x) (sent', j, y). sent \<le> sent' \<and> (x = OnComplete \<longrightarrow> sent < sent') \<and>
      (i = j \<and> terminal x \<longrightarrow> is_OnError y)) cbLog"
    using inv by (simp add: log_inv_def log_follows_def [abs_def] case_prod_beta')
qed

theorem stream_run_callbacks_witness:
  "\<exists>s cbLog. cbLog = [(1, 0, OnComplete), (2, 1, OnError STREAM_START_ERROR None)] \<and>
     stream_run (\<lambda>_. None) (\<lambda>_. None) s cbLog \<and> (\<forall>(sent, i, x)\<in>set cbLog. i < sent) \<and>
     sorted_wrt (\<lambda>(sent, i, x) (sent', j, y). x = OnComplete \<longrightarrow> sent < sent') cbLog"
proof -
  let ?run = "stream_run (\<lambda>_. None) (\<lambda>_. None)"
  let ?s1 = "snd (sendStreamRequest False initStream)"
  let ?s2 = "snd (onMessageEvent (\<lambda>_. None) 0 STREAM_DONE_MESSAGE ?s1)"
  let ?s3 = "snd (sendStreamRequest True ?s2)"
  note ev = sendStreamRequest_def onMessageEvent_def closeActiveStream_def close_source_def
    initStream_def isStreamDoneMessage_def Let_def
  have "?run ?s1 []"
    using stream_run.run_step [OF stream_run.run_init, of "SendRequest False" "\<lambda>_. None" "\<lambda>_. None" "[]" ?s1]
    by (simp add: ev)
  from stream_run.run_step [OF this, of "MessageEvent 0 STREAM_DONE_MESSAGE" "[OnComplete]" ?s2]
  have "?run ?s2 [(1, 0, OnComplete)]" by (simp add: ev)
  from stream_run.run_step [OF this, of "SendRequest True" "[OnError STREAM_START_ERROR None]" ?s3]
  have run: "?run ?s3 [(1, 0, OnComplete), (2, 1, OnError STREAM_START_ERROR None)]"
    by (simp add: ev numeral_2_eq_2)
  from stream_run_callbacks [OF run] run show ?thesis
    by (intro exI [of _ ?s3] exI [of _ "[(1, 0, OnComplete), (2, 1, OnError STREAM_START_ERROR None)]"]) simp
qed

end
