(* ===== verification/ChatHandler.thy ===== *)
theory ChatHandler
  imports Conversation StreamRequest
begin

text \<open>
  The chat handler of \<open>features/playground/hooks/use-chat-handler.ts\<close>: the buffer of pending
  chunks with its flush timer, the callbacks of a streaming request, the two phases of a
  request without streaming, and stopping. The state contains the stream hook of
  \<open>StreamRequest\<close>. \<open>clk i\<close> is the \<open>i\<close>-th clock reading of a handler call and \<open>tr\<close> the
  translation function.
\<close>

section \<open>Definitions\<close>

record ChatState =
  chat_messages :: "Message list"
  isRequesting :: bool
  abortController :: "nat option"
  abortedControllers :: "nat list"
  requestId :: nat
  pendingContent :: jsstr
  pendingReasoning :: jsstr
  streamFlushTimer :: bool
  toasts :: "jsstr list"
  sentPayloads :: "ChatCompletionRequest list"
  chat_stream :: StreamState

text \<open>\<open>onMessageUpdate\<close> with an updater for the last assistant message.\<close>

definition onLastMessage :: "(Message \<Rightarrow> Message) \<Rightarrow> ChatState \<Rightarrow> ChatState" where
  "onLastMessage upd s = s\<lparr>chat_messages := updateLastAssistantMessage (chat_messages s) upd\<rparr>"

subsection \<open>Buffered updates\<close>

definition mergePendingStreamChunk :: "jsstr \<Rightarrow> jsstr \<Rightarrow> jsstr" where
  "mergePendingStreamChunk currentChunk nextChunk =
     (if currentChunk = [] \<or> \<not> starts_with nextChunk currentChunk
      then currentChunk @ nextChunk else nextChunk)"

text \<open>The updater of a flush: pending reasoning first, then pending content.\<close>

definition flushUpdate :: "(nat \<Rightarrow> jsnum) \<Rightarrow> jsstr \<Rightarrow> jsstr \<Rightarrow> Message \<Rightarrow> Message" where
  "flushUpdate clk pendReasoning pendContent m =
     (let m1 = (if pendReasoning \<noteq> [] then applyStreamingChunk (clk 0) (clk 1) ReasoningChunk pendReasoning m
                else m) in
      if pendContent \<noteq> [] then applyStreamingChunk (clk 2) (clk 3) ContentChunk pendContent m1
      else m1)"

definition flushStreamUpdates :: "(nat \<Rightarrow> jsnum) \<Rightarrow> ChatState \<Rightarrow> ChatState" where
  "flushStreamUpdates clk s =
     (let s1 = s\<lparr>streamFlushTimer := False\<rparr> in
      if pendingReasoning s1 = [] \<and> pendingContent s1 = [] then s1
      else onLastMessage (flushUpdate clk (pendingReasoning s1) (pendingContent s1))
             (s1\<lparr>pendingContent := [], pendingReasoning := []\<rparr>))"

definition scheduleStreamFlush :: "ChatState \<Rightarrow> ChatState" where
  "scheduleStreamFlush s = (if streamFlushTimer s then s else s\<lparr>streamFlushTimer := True\<rparr>)"

definition handleStreamUpdate :: "StreamChunkType \<Rightarrow> jsstr \<Rightarrow> ChatState \<Rightarrow> ChatState" where
  "handleStreamUpdate ty chunk s =
     scheduleStreamFlush
       (case ty of
          ReasoningChunk \<Rightarrow>
            s\<lparr>pendingReasoning := mergePendingStreamChunk (pendingReasoning s) chunk\<rparr>
        | ContentChunk \<Rightarrow>
            s\<lparr>pendingContent := mergePendingStreamChunk (pendingContent s) chunk\<rparr>)"

text \<open>Leaving the page clears the timer and does not flush. \<open>streamFlushTimer\<close> says that a timeout is pending; the
  reference of the code still holds the number of the cleared timeout, which nothing reads after the page is left.\<close>

definition unmountChat :: "ChatState \<Rightarrow> ChatState" where
  "unmountChat s = (if streamFlushTimer s then s\<lparr>streamFlushTimer := False\<rparr> else s)"

subsection \<open>Completion and errors\<close>

definition getDisplayError :: "(jsstr \<Rightarrow> jsstr) \<Rightarrow> jsstr \<Rightarrow> jsstr" where
  "getDisplayError tr error =
     (if error \<in> set ERROR_MESSAGES then tr error
      else if ends_with error (js '': '' @ CONNECTION_CLOSED)
      then slice error 0 (length error - length CONNECTION_CLOSED) @ tr CONNECTION_CLOSED
      else error)"

definition completeUnlessFinal :: "(nat \<Rightarrow> jsnum) \<Rightarrow> Message \<Rightarrow> Message" where
  "completeUnlessFinal clk m =
     (if isAssistantMessageFinal m then m else completeAssistantMessage (clk 4) (clk 5) (clk 6) m)"

definition handleStreamComplete :: "(nat \<Rightarrow> jsnum) \<Rightarrow> ChatState \<Rightarrow> ChatState" where
  "handleStreamComplete clk s =
     onLastMessage (completeUnlessFinal clk)
       ((flushStreamUpdates clk s)\<lparr>isRequesting := False\<rparr>)"

definition handleStreamError ::
  "(jsstr \<Rightarrow> jsstr) \<Rightarrow> (nat \<Rightarrow> jsnum) \<Rightarrow> jsstr \<Rightarrow> jsstr option \<Rightarrow> ChatState \<Rightarrow> ChatState" where
  "handleStreamError tr clk error code s =
     (let s1 = (flushStreamUpdates clk s)\<lparr>isRequesting := False\<rparr>;
          displayError = getDisplayError tr error;
          s2 = s1\<lparr>toasts := toasts s1 @ [displayError]\<rparr> in
      s2\<lparr>chat_messages := updateAssistantMessageWithError (clk 4) (chat_messages s2)
           displayError code (tr API_REQUEST_ERROR)\<rparr>)"

fun runCallback :: "(jsstr \<Rightarrow> jsstr) \<Rightarrow> (nat \<Rightarrow> jsnum) \<Rightarrow> StreamCallback \<Rightarrow> ChatState \<Rightarrow> ChatState" where
  "runCallback tr clk (OnUpdate ty c) s = handleStreamUpdate ty c s"
| "runCallback tr clk OnComplete s = handleStreamComplete clk s"
| "runCallback tr clk (OnError e c) s = handleStreamError tr clk e c s"

text \<open>A step of the stream hook with the callbacks it makes.\<close>

definition withStream ::
  "(jsstr \<Rightarrow> jsstr) \<Rightarrow> (nat \<Rightarrow> jsnum) \<Rightarrow> StreamCallback list \<times> StreamState \<Rightarrow> ChatState \<Rightarrow> ChatState" where
  "withStream tr clk r s = fold (runCallback tr clk) (fst r) (s\<lparr>chat_stream := snd r\<rparr>)"

subsection \<open>Requests\<close>

definition sendStreamingChat ::
  "(jsstr \<Rightarrow> jsstr) \<Rightarrow> (nat \<Rightarrow> jsnum) \<Rightarrow> PlaygroundConfig \<Rightarrow> ParameterEnabled \<Rightarrow> bool \<Rightarrow> Message list \<Rightarrow>
   ChatState \<Rightarrow> ChatState" where
  "sendStreamingChat tr clk config enabled startFails messages s =
     (let payload = buildChatCompletionPayload messages config enabled;
          s1 = s\<lparr>isRequesting := True, sentPayloads := sentPayloads s @ [payload]\<rparr> in
      withStream tr clk (sendStreamRequest startFails (chat_stream s1)) s1)"

text \<open>The part of a request without streaming that runs before the response is awaited.\<close>

definition sendNonStreamingChat ::
  "PlaygroundConfig \<Rightarrow> ParameterEnabled \<Rightarrow> Message list \<Rightarrow> ChatState \<Rightarrow> ChatState" where
  "sendNonStreamingChat config enabled messages s =
     (let payload = buildChatCompletionPayload messages config enabled;
          newId = requestId s + 1 in
      s\<lparr>requestId := newId, abortController := Some newId, isRequesting := True,
        sentPayloads := sentPayloads s @ [payload]\<rparr>)"

text \<open>The \<open>finally\<close> block.\<close>

definition finishRequest :: "nat \<Rightarrow> ChatState \<Rightarrow> ChatState" where
  "finishRequest reqId s =
     (if requestId s = reqId then s\<lparr>abortController := None, isRequesting := False\<rparr> else s)"

definition responseUpdate :: "(nat \<Rightarrow> jsnum) \<Rightarrow> ChatCompletionResponse \<Rightarrow> Message \<Rightarrow> Message" where
  "responseUpdate clk response m =
     nullish (applyChatCompletionResponse (clk 0) (clk 1) (clk 2) m response) m"

definition onResponse ::
  "(jsstr \<Rightarrow> jsstr) \<Rightarrow> (nat \<Rightarrow> jsnum) \<Rightarrow> nat \<Rightarrow> ChatCompletionResponse \<Rightarrow> ChatState \<Rightarrow> ChatState" where
  "onResponse tr clk reqId response s =
     finishRequest reqId
       (if reqId \<in> set (abortedControllers s) then s
        else if \<not> hasChatCompletionChoice response
        then handleStreamError tr clk API_REQUEST_ERROR None s
        else onLastMessage (responseUpdate clk response) s)"

definition onRequestError ::
  "(jsstr \<Rightarrow> jsstr) \<Rightarrow> (nat \<Rightarrow> jsnum) \<Rightarrow> nat \<Rightarrow> RequestErrorLike \<Rightarrow> ChatState \<Rightarrow> ChatState" where
  "onRequestError tr clk reqId error s =
     finishRequest reqId
       (if reqId \<in> set (abortedControllers s) then s
        else
          let details = parseRequestErrorDetails error in
          handleStreamError tr clk (details_errorMessage details) (details_errorCode details) s)"

definition sendChat ::
  "(jsstr \<Rightarrow> jsstr) \<Rightarrow> (nat \<Rightarrow> jsnum) \<Rightarrow> PlaygroundConfig \<Rightarrow> ParameterEnabled \<Rightarrow> bool \<Rightarrow> Message list \<Rightarrow>
   ChatState \<Rightarrow> ChatState" where
  "sendChat tr clk config enabled startFails messages s =
     (if stream config then sendStreamingChat tr clk config enabled startFails messages s
      else sendNonStreamingChat config enabled messages s)"

definition completeIfPending :: "(nat \<Rightarrow> jsnum) \<Rightarrow> Message \<Rightarrow> Message" where
  "completeIfPending clk m =
     (if isAssistantMessagePending m then completeAssistantMessage (clk 4) (clk 5) (clk 6) m else m)"

definition stopGeneration :: "(nat \<Rightarrow> jsnum) \<Rightarrow> ChatState \<Rightarrow> ChatState" where
  "stopGeneration clk s =
     (let s1 = flushStreamUpdates clk (s\<lparr>chat_stream := stopStream (chat_stream s)\<rparr>);
          s2 = (case abortController s1 of
                  None \<Rightarrow> s1
                | Some c \<Rightarrow> s1\<lparr>abortedControllers := c # abortedControllers s1\<rparr>) in
      onLastMessage (completeIfPending clk)
        (s2\<lparr>abortController := None, isRequesting := False\<rparr>))"

definition isGenerating :: "ChatState \<Rightarrow> bool" where
  "isGenerating s \<longleftrightarrow> isStreaming (chat_stream s) \<or> isRequesting s"

subsection \<open>Steps\<close>

definition initChat :: "Message list \<Rightarrow> ChatState" where
  "initChat ms = \<lparr>chat_messages = ms, isRequesting = False, abortController = None,
     abortedControllers = [], requestId = 0, pendingContent = [], pendingReasoning = [],
     streamFlushTimer = False, toasts = [], sentPayloads = [], chat_stream = initStream\<rparr>"

text \<open>A mounted chat: messages sent with the list that is shown, events of the stream, the flush
  timer, responses and failures of requests that were made, stopping, and replacement of
  the messages by the conversation handlers.\<close>

inductive chat_step ::
  "(jsstr \<Rightarrow> ChatCompletionChunk option) \<Rightarrow> (jsstr \<Rightarrow> StreamErrorPayload option) \<Rightarrow>
   (jsstr \<Rightarrow> jsstr) \<Rightarrow> ChatState \<Rightarrow> ChatState \<Rightarrow> bool"
  for pc pe tr where
  chat_send: "chat_step pc pe tr s (sendChat tr clk config enabled b ms (s\<lparr>chat_messages := ms\<rparr>))"
| chat_event: "stimulus_ok x (chat_stream s) \<Longrightarrow> (\<forall>b. x \<noteq> SendRequest b) \<Longrightarrow>
    chat_step pc pe tr s (withStream tr clk (react pc pe x (chat_stream s)) s)"
| chat_timer: "streamFlushTimer s \<Longrightarrow> chat_step pc pe tr s (flushStreamUpdates clk s)"
| chat_response: "1 \<le> reqId \<Longrightarrow> reqId \<le> requestId s \<Longrightarrow>
    chat_step pc pe tr s (onResponse tr clk reqId response s)"
| chat_failure: "1 \<le> reqId \<Longrightarrow> reqId \<le> requestId s \<Longrightarrow>
    chat_step pc pe tr s (onRequestError tr clk reqId error s)"
| chat_stop: "chat_step pc pe tr s (stopGeneration clk s)"
| chat_replace: "chat_step pc pe tr s (s\<lparr>chat_messages := ms\<rparr>)"

inductive chat_reachable ::
  "(jsstr \<Rightarrow> ChatCompletionChunk option) \<Rightarrow> (jsstr \<Rightarrow> StreamErrorPayload option) \<Rightarrow>
   (jsstr \<Rightarrow> jsstr) \<Rightarrow> ChatState \<Rightarrow> bool"
  for pc pe tr where
  chat_start: "chat_reachable pc pe tr (initChat ms)"
| chat_next: "chat_reachable pc pe tr s \<Longrightarrow> chat_step pc pe tr s t \<Longrightarrow> chat_reachable pc pe tr t"

definition chat_inv :: "ChatState \<Rightarrow> bool" where
  "chat_inv s \<longleftrightarrow> stream_inv (chat_stream s) \<and>
     (pendingContent s \<noteq> [] \<or> pendingReasoning s \<noteq> [] \<longrightarrow> streamFlushTimer s) \<and>
     (\<forall>c. abortController s = Some c \<longrightarrow> c = requestId s \<and> c \<notin> set (abortedControllers s)) \<and>
     (\<forall>c\<in>set (abortedControllers s). c \<le> requestId s)"

section \<open>Lemmas\<close>

subsection \<open>Updaters\<close>

interpretation flush_upd: message_updater "flushUpdate clk r c" for clk r c
  by unfold_locales (simp_all add: flushUpdate_def Let_def)

interpretation final_upd: message_updater "completeUnlessFinal clk" for clk
  by unfold_locales (simp_all add: completeUnlessFinal_def complete_upd.key_upd complete_upd.from_upd)

interpretation stop_upd: message_updater "completeIfPending clk" for clk
  by unfold_locales (simp_all add: completeIfPending_def complete_upd.key_upd complete_upd.from_upd)

interpretation response_upd: message_updater "responseUpdate clk r" for clk r
  by unfold_locales (cases "firstChoice r"; simp add: responseUpdate_def
    applyChatCompletionResponse_def applyChatCompletionChoice_def)+

text \<open>Two message lists agree up to the last message: same identities, same roles, same earlier
  messages.\<close>

definition same_but_last :: "Message list \<Rightarrow> Message list \<Rightarrow> bool" where
  "same_but_last ms ms' \<longleftrightarrow>
     map key ms' = map key ms \<and> map msg_from ms' = map msg_from ms \<and> butlast ms' = butlast ms"

lemma same_but_last_refl [simp]: "same_but_last ms ms"
  by (simp add: same_but_last_def)

lemma same_but_last_trans: "same_but_last a b \<Longrightarrow> same_but_last b c \<Longrightarrow> same_but_last a c"
  by (simp add: same_but_last_def)

context message_updater
begin

lemma same_updateLast: "same_but_last ms (updateLastAssistantMessage ms upd)"
  by (simp add: same_but_last_def keys_updateLast roles_updateLast earlier_updateLast)

lemma same_onLast: "same_but_last (chat_messages s) (chat_messages (onLastMessage upd s))"
  by (simp add: onLastMessage_def same_updateLast)

end

lemma onLast_frame [simp]:
  "chat_messages (onLastMessage f s) = updateLastAssistantMessage (chat_messages s) f"
  "isRequesting (onLastMessage f s) = isRequesting s"
  "abortController (onLastMessage f s) = abortController s"
  "abortedControllers (onLastMessage f s) = abortedControllers s"
  "requestId (onLastMessage f s) = requestId s"
  "pendingContent (onLastMessage f s) = pendingContent s"
  "pendingReasoning (onLastMessage f s) = pendingReasoning s"
  "streamFlushTimer (onLastMessage f s) = streamFlushTimer s"
  "toasts (onLastMessage f s) = toasts s"
  "chat_stream (onLastMessage f s) = chat_stream s"
  by (simp_all add: onLastMessage_def)

lemma flush_frame [simp]:
  "pendingContent (flushStreamUpdates clk s) = []"
  "pendingReasoning (flushStreamUpdates clk s) = []"
  "streamFlushTimer (flushStreamUpdates clk s) = False"
  "isRequesting (flushStreamUpdates clk s) = isRequesting s"
  "abortController (flushStreamUpdates clk s) = abortController s"
  "abortedControllers (flushStreamUpdates clk s) = abortedControllers s"
  "requestId (flushStreamUpdates clk s) = requestId s"
  "toasts (flushStreamUpdates clk s) = toasts s"
  "chat_stream (flushStreamUpdates clk s) = chat_stream s"
  by (auto simp: flushStreamUpdates_def Let_def)

lemma flush_messages:
  "chat_messages (flushStreamUpdates clk s) =
    updateLastAssistantMessage (chat_messages s) (flushUpdate clk (pendingReasoning s) (pendingContent s))"
  by (cases "chat_messages s" rule: rev_cases)
    (auto simp: flushStreamUpdates_def Let_def flushUpdate_def)

lemma update_frame_chat [simp]:
  "chat_messages (handleStreamUpdate ty c s) = chat_messages s"
  "streamFlushTimer (handleStreamUpdate ty c s)"
  "isRequesting (handleStreamUpdate ty c s) = isRequesting s"
  "abortController (handleStreamUpdate ty c s) = abortController s"
  "abortedControllers (handleStreamUpdate ty c s) = abortedControllers s"
  "requestId (handleStreamUpdate ty c s) = requestId s"
  "chat_stream (handleStreamUpdate ty c s) = chat_stream s"
  by (auto simp: handleStreamUpdate_def scheduleStreamFlush_def split: StreamChunkType.splits)

lemma handlers_frame [simp]:
  "pendingContent (handleStreamComplete clk s) = []" "pendingContent (handleStreamError tr clk e c s) = []"
  "pendingReasoning (handleStreamComplete clk s) = []" "pendingReasoning (handleStreamError tr clk e c s) = []"
  "abortController (handleStreamComplete clk s) = abortController s"
  "abortController (handleStreamError tr clk e c s) = abortController s"
  "abortedControllers (handleStreamComplete clk s) = abortedControllers s"
  "abortedControllers (handleStreamError tr clk e c s) = abortedControllers s"
  "requestId (handleStreamComplete clk s) = requestId s"
  "requestId (handleStreamError tr clk e c s) = requestId s"
  "chat_stream (handleStreamComplete clk s) = chat_stream s"
  "chat_stream (handleStreamError tr clk e c s) = chat_stream s"
  "\<not> isRequesting (handleStreamComplete clk s)" "\<not> isRequesting (handleStreamError tr clk e c s)"
  by (simp_all add: handleStreamComplete_def handleStreamError_def Let_def)

lemma finishRequest_frame [simp]:
  "chat_messages (finishRequest i s) = chat_messages s"
  "toasts (finishRequest i s) = toasts s"
  "pendingContent (finishRequest i s) = pendingContent s"
  "pendingReasoning (finishRequest i s) = pendingReasoning s"
  "streamFlushTimer (finishRequest i s) = streamFlushTimer s"
  "chat_stream (finishRequest i s) = chat_stream s"
  by (simp_all add: finishRequest_def)

subsection \<open>Only the last message changes\<close>

lemma same_flush: "same_but_last (chat_messages s) (chat_messages (flushStreamUpdates clk s))"
  by (simp add: flush_messages flush_upd.same_updateLast)

lemma same_complete: "same_but_last (chat_messages s) (chat_messages (handleStreamComplete clk s))"
  using same_but_last_trans [OF same_flush final_upd.same_updateLast]
  by (simp add: handleStreamComplete_def)

lemma same_error: "same_but_last (chat_messages s) (chat_messages (handleStreamError tr clk e c s))"
  using same_but_last_trans [OF same_flush err_upd.same_updateLast]
  by (simp add: handleStreamError_def Let_def updateAssistantMessageWithError_def)

lemma same_callback: "same_but_last (chat_messages s) (chat_messages (runCallback tr clk cb s))"
  by (cases cb) (simp_all add: same_complete same_error)

lemma same_callbacks: "same_but_last (chat_messages s) (chat_messages (fold (runCallback tr clk) cbs s))"
proof (induction cbs arbitrary: s)
  case (Cons cb cbs)
  show ?case using same_but_last_trans [OF same_callback Cons] by simp
qed simp

lemma same_response:
  "same_but_last (chat_messages s) (chat_messages (onResponse tr clk i r s))"
  "same_but_last (chat_messages s) (chat_messages (onRequestError tr clk i e s))"
  by (simp_all add: onResponse_def onRequestError_def Let_def same_error response_upd.same_updateLast)

lemma stop_messages:
  "chat_messages (stopGeneration clk s) =
    updateLastAssistantMessage (chat_messages (flushStreamUpdates clk s)) (completeIfPending clk)"
  by (simp add: stopGeneration_def Let_def flush_messages split: option.splits)

lemma same_stop: "same_but_last (chat_messages s) (chat_messages (stopGeneration clk s))"
  unfolding stop_messages by (rule same_but_last_trans [OF same_flush stop_upd.same_updateLast])

subsection \<open>The invariant\<close>

lemma callback_inv: "chat_inv s \<Longrightarrow> chat_inv (runCallback tr clk cb s)"
  by (cases cb) (simp_all add: chat_inv_def)

lemma callbacks_inv: "chat_inv s \<Longrightarrow> chat_inv (fold (runCallback tr clk) cbs s)"
  by (induction cbs arbitrary: s) (simp_all add: callback_inv)

lemma withStream_inv:
  "chat_inv s \<Longrightarrow> stream_inv (snd r) \<Longrightarrow> chat_inv (withStream tr clk r s)"
  unfolding withStream_def by (rule callbacks_inv) (simp add: chat_inv_def)

lemma finish_inv: "chat_inv s \<Longrightarrow> chat_inv (finishRequest i s)"
  by (auto simp: chat_inv_def finishRequest_def)

lemma send_inv: "chat_inv s \<Longrightarrow> chat_inv (sendChat tr clk config enabled b ms s)"
  unfolding sendChat_def sendStreamingChat_def Let_def
  by (auto intro!: withStream_inv stream_inv_send)
    (auto simp: chat_inv_def sendNonStreamingChat_def Let_def)

lemma stop_inv: "chat_inv s \<Longrightarrow> chat_inv (stopGeneration clk s)"
  by (auto simp: chat_inv_def stopGeneration_def Let_def stream_inv_stop split: option.splits)

lemma chat_inv_step: "chat_step pc pe tr s t \<Longrightarrow> chat_inv s \<Longrightarrow> chat_inv t"
proof (induction rule: chat_step.induct)
  case (chat_send s clk config enabled b ms)
  then have "chat_inv (s\<lparr>chat_messages := ms\<rparr>)" by (simp add: chat_inv_def)
  then show ?case by (rule send_inv)
next
  case (chat_event x s clk)
  have "stream_inv (snd (react pc pe x (chat_stream s)))"
    using chat_event stream_inv_step by (metis chat_inv_def prod.collapse)
  with chat_event show ?case by (simp add: withStream_inv)
next
  case (chat_response reqId s clk response)
  have "chat_inv (onLastMessage (responseUpdate clk response) s)"
    using chat_response by (simp add: chat_inv_def)
  moreover have "chat_inv (handleStreamError tr clk API_REQUEST_ERROR None s)"
    using chat_response by (simp add: chat_inv_def)
  ultimately show ?case using chat_response by (auto simp: onResponse_def intro: finish_inv)
next
  case (chat_failure reqId s clk error)
  have "chat_inv (handleStreamError tr clk e c s)" for e c
    using chat_failure by (simp add: chat_inv_def)
  with chat_failure show ?case by (auto simp: onRequestError_def Let_def intro: finish_inv)
qed (simp_all add: stop_inv, simp_all add: chat_inv_def)

lemma chat_reachable_chat_inv: "chat_reachable pc pe tr s \<Longrightarrow> chat_inv s"
proof (induction rule: chat_reachable.induct)
  case (chat_start ms)
  show ?case by (simp add: chat_inv_def initChat_def stream_inv_def initStream_def)
qed (rule chat_inv_step)

subsection \<open>Batches of chunks\<close>

lemma mergePending_absorb: "mergePendingStreamChunk = absorb"
  by (intro ext) (auto simp: mergePendingStreamChunk_def absorb_eq)

text \<open>The content chunks of a stream, grouped by the flushes of the timer.\<close>

definition runBatches :: "(nat \<Rightarrow> jsnum) \<Rightarrow> jsstr list list \<Rightarrow> ChatState \<Rightarrow> ChatState" where
  "runBatches clk batches s =
     fold (\<lambda>batch s. flushStreamUpdates clk (fold (handleStreamUpdate ContentChunk) batch s)) batches s"

definition shownText :: "ChatState \<Rightarrow> jsstr" where
  "shownText s = getMessageContent (last (chat_messages s))"

text \<open>An answer that chunks can be applied to, with an empty buffer.\<close>

definition receiving :: "ChatState \<Rightarrow> bool" where
  "receiving s \<longleftrightarrow> chat_messages s \<noteq> [] \<and> msg_from (last (chat_messages s)) = Assistant \<and>
     status (last (chat_messages s)) \<noteq> Some Error \<and> pendingContent s = [] \<and> pendingReasoning s = []"

lemma fold_updates:
  "pendingContent (fold (handleStreamUpdate ContentChunk) cs s) = foldl absorb (pendingContent s) cs"
  "pendingReasoning (fold (handleStreamUpdate ContentChunk) cs s) = pendingReasoning s"
  "chat_messages (fold (handleStreamUpdate ContentChunk) cs s) = chat_messages s"
  by (induction cs arbitrary: s)
    (auto simp: handleStreamUpdate_def scheduleStreamFlush_def mergePending_absorb)

lemma flush_batch:
  fixes clk cs
  assumes "receiving s"
  defines "t \<equiv> flushStreamUpdates clk (fold (handleStreamUpdate ContentChunk) cs s)"
  shows "receiving t \<and> shownText t = absorb (shownText s) (foldl absorb [] cs)"
proof -
  obtain ms m where ms: "chat_messages s = ms @ [m]"
    using assms(1) unfolding receiving_def by (metis append_butlast_last_id)
  let ?p = "foldl absorb [] cs"
  have "chat_messages t = ms @ [flushUpdate clk [] ?p m]"
    using assms(1) ms by (simp add: t_def flush_messages fold_updates receiving_def)
  moreover have "getMessageContent (flushUpdate clk [] ?p m) = absorb (getMessageContent m) ?p \<and>
      status (flushUpdate clk [] ?p m) \<noteq> Some Error"
    using assms(1) ms by (simp add: flushUpdate_def applyContent receiving_def absorb_eq)
  ultimately show ?thesis
    using assms(1) ms by (simp add: receiving_def shownText_def flush_upd.from_upd t_def)
qed

lemma runBatches_text:
  "receiving s \<Longrightarrow> shownText (runBatches clk bs s)
    = foldl absorb (shownText s) (map (foldl absorb []) bs)"
proof (induction bs arbitrary: s)
  case (Cons b bs)
  have "runBatches clk (b # bs) s =
      runBatches clk bs (flushStreamUpdates clk (fold (handleStreamUpdate ContentChunk) b s))"
    by (simp add: runBatches_def)
  with flush_batch [OF Cons.prems] Cons.IH show ?case by simp
qed (simp add: runBatches_def)

lemma cumulative_append:
  "cumulative x (as @ bs) \<longleftrightarrow> cumulative x as \<and> cumulative (last (x # as)) bs"
  by (induction as arbitrary: x) auto

lemma cumulative_last: "cumulative x cs \<Longrightarrow> prefix x (last (x # cs))"
proof (induction cs arbitrary: x)
  case (Cons c cs)
  then show ?case by (auto intro: prefix_order.trans)
qed simp

lemma absorb_batch:
  assumes "cumulative x b"
  shows "absorb x (foldl absorb [] b) = last (x # b)"
proof (cases b)
  case (Cons c cs)
  have "cumulative [] b" using assms Cons by simp
  then have "foldl absorb [] b = last ([] # b)" by (rule foldl_absorb_cumulative)
  then show ?thesis
    using cumulative_last [OF assms] Cons by (auto simp: absorb_eq)
qed (simp add: absorb_eq)

lemma foldl_batches_cumulative:
  "cumulative x (concat bs) \<Longrightarrow> foldl absorb x (map (foldl absorb []) bs) = last (x # concat bs)"
proof (induction bs arbitrary: x)
  case (Cons b bs)
  then have "cumulative x b" "cumulative (last (x # b)) (concat bs)"
    by (simp_all add: cumulative_append del: last.simps)
  moreover have "last (last (x # b) # concat bs) = last (x # b @ concat bs)"
    by (cases "concat bs") auto
  ultimately show ?case using Cons.IH [of "last (x # b)"] by (simp add: absorb_batch del: last.simps)
qed simp

text \<open>The last message after an update of it.\<close>

lemma last_updateLast:
  "ms \<noteq> [] \<Longrightarrow> msg_from (last ms) = Assistant \<Longrightarrow>
    last (updateLastAssistantMessage ms f) = f (last ms) \<and> updateLastAssistantMessage ms f \<noteq> []"
  by (cases ms rule: rev_cases) auto

lemma same_but_last_role:
  "same_but_last ms ms' \<Longrightarrow> ms \<noteq> [] \<Longrightarrow> msg_from (last ms) = Assistant \<Longrightarrow>
    ms' \<noteq> [] \<and> msg_from (last ms') = Assistant"
  unfolding same_but_last_def by (metis last_map map_is_Nil_conv)

lemma completeUnlessFinal_final: "isAssistantMessageFinal (completeUnlessFinal clk m)"
  by (simp add: completeUnlessFinal_def)
    (simp add: isAssistantMessageFinal_def completeAssistantMessage_def)

lemma completeIfPending_not_pending: "\<not> isAssistantMessagePending (completeIfPending clk m)"
  by (simp add: completeIfPending_def)
    (simp add: isAssistantMessagePending_def completeAssistantMessage_def)

lemma stop_frame:
  "\<not> isGenerating (stopGeneration clk s)"
  "pendingContent (stopGeneration clk s) = []" "pendingReasoning (stopGeneration clk s) = []"
  "streamFlushTimer (stopGeneration clk s) = False"
  "abortController (stopGeneration clk s) = None"
  "toasts (stopGeneration clk s) = toasts s"
  "abortController s = Some c \<Longrightarrow> c \<in> set (abortedControllers (stopGeneration clk s))"
  by (auto simp: stopGeneration_def isGenerating_def Let_def stopStream_def closeActiveStream_def
    split: option.splits)

section \<open>Properties\<close>

text \<open>C9: In every reachable state of a mounted chat a buffered chunk has a flush scheduled, so no
  received text stays in the buffer; the stream hook satisfies its invariant, and the
  abort controller is that of the latest request and has not been used.\<close>

theorem chat_reachable_inv:
  assumes "chat_reachable pc pe tr s"
  shows "(pendingContent s \<noteq> [] \<or> pendingReasoning s \<noteq> [] \<longrightarrow> streamFlushTimer s) \<and>
    stream_inv (chat_stream s) \<and>
    (\<forall>c. abortController s = Some c \<longrightarrow> c = requestId s \<and> c \<notin> set (abortedControllers s))"
  using chat_reachable_chat_inv [OF assms] by (simp add: chat_inv_def)

theorem chat_reachable_inv_witness:
  "stream_inv (chat_stream (stopGeneration (\<lambda>_. 0) (initChat [])))"
proof -
  have "chat_reachable (\<lambda>_. None) (\<lambda>_. None) id (stopGeneration (\<lambda>_. 0) (initChat []))"
    by (rule chat_reachable.chat_next [OF chat_reachable.chat_start chat_step.chat_stop])
  from chat_reachable_inv [OF this] show ?thesis by simp
qed

text \<open>C10: Stopping ends the generation: nothing is streaming or requested, the buffer is empty and
  its timer cleared, and an assistant message at the end is not pending any more.\<close>

theorem stopGeneration_stops:
  "\<not> isGenerating (stopGeneration clk s) \<and>
   pendingContent (stopGeneration clk s) = [] \<and> pendingReasoning (stopGeneration clk s) = [] \<and>
   \<not> streamFlushTimer (stopGeneration clk s) \<and> abortController (stopGeneration clk s) = None \<and>
   (chat_messages s \<noteq> [] \<longrightarrow>
      \<not> isPendingAssistantMessage (Some (last (chat_messages (stopGeneration clk s)))))"
proof -
  have "\<not> isPendingAssistantMessage (Some (last (chat_messages (stopGeneration clk s))))"
    if "chat_messages s \<noteq> []"
    using that completeIfPending_not_pending
    by (cases "chat_messages s" rule: rev_cases)
      (auto simp: stop_messages flush_messages isPendingAssistantMessage_def flush_upd.from_upd)
  then show ?thesis by (simp add: stop_frame)
qed

theorem stopGeneration_stops_witness:
  "\<not> isPendingAssistantMessage (Some (last (chat_messages (stopGeneration (\<lambda>_. 0)
     (initChat [createLoadingAssistantMessage (js ''k'') (js ''v'') 1])))))"
  using stopGeneration_stops [of "\<lambda>_. 0" "initChat [createLoadingAssistantMessage (js ''k'') (js ''v'') 1]"]
  by (simp add: initChat_def)

text \<open>C11: After a request without streaming has been stopped, its late response or failure changes
  no message and shows no error.\<close>

theorem stopped_request_ignored:
  assumes "abortController s = Some c"
  shows "chat_messages (onResponse tr clk' c response (stopGeneration clk s))
      = chat_messages (stopGeneration clk s) \<and>
    toasts (onResponse tr clk' c response (stopGeneration clk s)) = toasts s \<and>
    chat_messages (onRequestError tr clk' c error (stopGeneration clk s))
      = chat_messages (stopGeneration clk s) \<and>
    toasts (onRequestError tr clk' c error (stopGeneration clk s)) = toasts s"
  using stop_frame(7) [OF assms] by (simp add: onResponse_def onRequestError_def stop_frame)

theorem stopped_request_ignored_witness:
  "toasts (onResponse id (\<lambda>_. 0) 1 \<lparr>choices = None\<rparr>
     (stopGeneration (\<lambda>_. 0)
       (sendNonStreamingChat DEFAULT_CONFIG DEFAULT_PARAMETER_ENABLED [] (initChat [])))) = []"
proof -
  let ?s = "sendNonStreamingChat DEFAULT_CONFIG DEFAULT_PARAMETER_ENABLED [] (initChat [])"
  have "abortController ?s = Some 1" "toasts ?s = []"
    by (simp_all add: sendNonStreamingChat_def Let_def initChat_def)
  with stopped_request_ignored [of ?s 1 id "\<lambda>_. 0" "\<lparr>choices = None\<rparr>" "\<lambda>_. 0"] show ?thesis
    by simp
qed

text \<open>A completion or an error of the stream leaves the answer final and ends the request: the
  buffer is flushed into the answer first, and an error puts its text in place of the answer.\<close>

theorem stream_end_final:
  assumes "chat_messages s \<noteq> []" and "msg_from (last (chat_messages s)) = Assistant"
  shows "isAssistantMessageFinal (last (chat_messages (handleStreamComplete clk s))) \<and>
    \<not> isRequesting (handleStreamComplete clk s) \<and> pendingContent (handleStreamComplete clk s) = [] \<and>
    status (last (chat_messages (handleStreamError tr clk e c s))) = Some Error \<and>
    getMessageContent (last (chat_messages (handleStreamError tr clk e c s)))
      = tr API_REQUEST_ERROR @ js '': '' @ getDisplayError tr e \<and>
    toasts (handleStreamError tr clk e c s) = toasts s @ [getDisplayError tr e] \<and>
    \<not> isRequesting (handleStreamError tr clk e c s) \<and> pendingContent (handleStreamError tr clk e c s) = []"
proof -
  note f = same_but_last_role [OF same_flush assms, of clk]
  note l = last_updateLast [OF f [THEN conjunct1] f [THEN conjunct2]]
  have "last (chat_messages (handleStreamComplete clk s))
      = completeUnlessFinal clk (last (chat_messages (flushStreamUpdates clk s)))"
    using l by (simp add: handleStreamComplete_def)
  moreover have "last (chat_messages (handleStreamError tr clk e c s))
      = messageWithError (clk 4) (getDisplayError tr e) c (tr API_REQUEST_ERROR)
          (last (chat_messages (flushStreamUpdates clk s)))"
    using l by (simp add: handleStreamError_def Let_def updateAssistantMessageWithError_def)
  ultimately show ?thesis
    by (simp add: completeUnlessFinal_final) (simp add: handleStreamError_def Let_def)
qed

theorem stream_end_final_witness:
  "isAssistantMessageFinal (last (chat_messages (handleStreamComplete (\<lambda>_. 0)
     (initChat [createLoadingAssistantMessage (js ''k'') (js ''v'') 1]))))"
  using stream_end_final [of "initChat [createLoadingAssistantMessage (js ''k'') (js ''v'') 1]" "\<lambda>_. 0"]
  by (simp add: initChat_def)

text \<open>The handlers that run in the background of a chat (stream callbacks, the flush timer,
  responses, failures, stopping) change no message but the last one, and keep all
  identities and roles.\<close>

theorem background_keeps_conversation:
  "same_but_last (chat_messages s) (chat_messages (withStream tr clk r s)) \<and>
   same_but_last (chat_messages s) (chat_messages (flushStreamUpdates clk s)) \<and>
   same_but_last (chat_messages s) (chat_messages (onResponse tr clk i response s)) \<and>
   same_but_last (chat_messages s) (chat_messages (onRequestError tr clk i error s)) \<and>
   same_but_last (chat_messages s) (chat_messages (stopGeneration clk s))"
  using same_callbacks [of "s\<lparr>chat_stream := snd r\<rparr>"]
  by (simp add: same_flush same_response same_stop withStream_def)

text \<open>The text shown does not depend on when the flush timer fires, for a stream of growing
  snapshots: it ends in the last snapshot. For a stream of increments it is their
  concatenation, provided no chunk starts with the buffer it is merged into and no flushed
  batch starts with the text already shown.\<close>

theorem runBatches_shown:
  assumes "receiving s"
  shows "(cumulative (shownText s) (concat batches) \<longrightarrow>
      shownText (runBatches clk batches s) = last (shownText s # concat batches)) \<and>
    ((\<forall>b\<in>set batches. incremental [] b) \<and> incremental (shownText s) (map concat batches) \<longrightarrow>
      shownText (runBatches clk batches s) = shownText s @ concat (concat batches))"
proof -
  have "map (foldl absorb []) batches = map concat batches" if "\<forall>b\<in>set batches. incremental [] b"
    using that foldl_absorb_incremental [of "[]"] by simp
  moreover have "concat (map concat bs) = concat (concat bs)" for bs :: "jsstr list list"
    by (induction bs) auto
  ultimately show ?thesis
    by (simp only: runBatches_text [OF assms]) (metis foldl_batches_cumulative foldl_absorb_incremental)
qed

theorem runBatches_shown_witness:
  "shownText (runBatches (\<lambda>_. 0) [[js ''a'', js ''bc''], [js ''d'']]
     (initChat [createLoadingAssistantMessage (js ''k'') (js ''v'') 1])) = js ''abcd''"
proof -
  let ?s = "initChat [createLoadingAssistantMessage (js ''k'') (js ''v'') 1]"
  have "receiving ?s" "shownText ?s = []"
    by (simp_all add: receiving_def initChat_def shownText_def)
  with runBatches_shown [of ?s "[[js ''a'', js ''bc''], [js ''d'']]" "\<lambda>_. 0"] show ?thesis
    by (simp add: js_simps)
qed

text \<open>For increments the flush timer does matter: two chunks that are flushed together are taken
  as a snapshot when together they start with the text already shown, and text is lost.\<close>

theorem batched_chunks_dropped:
  assumes "receiving s" and "shownText s \<noteq> []" and "prefix (shownText s) (concat cs)"
    and "incremental [] cs"
  shows "shownText (runBatches clk [cs] s) = concat cs"
  using runBatches_text [OF assms(1), of clk "[cs]"] foldl_absorb_incremental [OF assms(4)] assms(2,3)
  by (simp add: absorb_eq)

theorem batched_chunks_dropped_witness:
  "shownText (runBatches (\<lambda>_. 0) [[js ''ab''], [js ''a'', js ''bc'']]
     (initChat [createLoadingAssistantMessage (js ''k'') (js ''v'') 1])) = js ''abc''"
proof -
  let ?init = "initChat [createLoadingAssistantMessage (js ''k'') (js ''v'') 1]"
  let ?s = "runBatches (\<lambda>_. 0) [[js ''ab'']] ?init"
  have "receiving ?init" "shownText ?init = []"
    by (simp_all add: receiving_def initChat_def shownText_def)
  with flush_batch [of ?init "\<lambda>_. 0" "[js ''ab'']"] have "receiving ?s" "shownText ?s = js ''ab''"
    by (simp_all add: runBatches_def absorb_eq)
  with batched_chunks_dropped [of ?s "[js ''a'', js ''bc'']" "\<lambda>_. 0"] show ?thesis
    by (simp add: js_simps runBatches_def)
qed

end
