(* ===== verification/JSON_Values.thy ===== *)
theory JSON_Values
  imports JS_Prelude "HOL-Library.Monad_Syntax"
begin

text \<open>
  Values of \<open>JSON.parse\<close> and the combinators of \<open>zod\<close> schemas that the sources use on them: a
  schema is a function from a value to the typed value, \<open>None\<close> where \<open>parse\<close> raises.
  \<open>JSON.parse\<close> and \<open>JSON.stringify\<close> themselves are parameters of the definitions that call them.
\<close>

section \<open>Definitions\<close>

text \<open>The properties of an object are in their order of insertion.\<close>

datatype json =
    JNull
  | JBool bool
  | JNum jsnum
  | JStr jsstr
  | JArr "json list"
  | JObj "(jsstr, json) omap"

fun truthy :: "json \<Rightarrow> bool" where
  "truthy JNull = False"
| "truthy (JBool b) = b"
| "truthy (JNum n) = (n \<noteq> 0)"
| "truthy (JStr s) = (s \<noteq> [])"
| "truthy (JArr xs) = True"
| "truthy (JObj fs) = True"

text \<open>\<open>String(v)\<close>; an element \<open>null\<close> of an array is printed as nothing.\<close>

fun jsString :: "(jsnum \<Rightarrow> jsstr) \<Rightarrow> json \<Rightarrow> jsstr" where
  "jsString num_text JNull = js ''null''"
| "jsString num_text (JBool b) = (if b then js ''true'' else js ''false'')"
| "jsString num_text (JNum n) = num_text n"
| "jsString num_text (JStr s) = s"
| "jsString num_text (JArr xs) =
     join (js '','') (map (\<lambda>x. if x = JNull then [] else jsString num_text x) xs)"
| "jsString num_text (JObj fs) = js ''[object Object]''"

fun zstring :: "json \<Rightarrow> jsstr option" where
  "zstring (JStr s) = Some s"
| "zstring _ = None"

fun znumber :: "json \<Rightarrow> jsnum option" where
  "znumber (JNum n) = Some n"
| "znumber _ = None"

fun zboolean :: "json \<Rightarrow> bool option" where
  "zboolean (JBool b) = Some b"
| "zboolean _ = None"

text \<open>\<open>z.array(p)\<close>, \<open>z.object\<close> on its properties, \<open>p.nullable()\<close>.\<close>

fun zall :: "('j \<Rightarrow> 'a option) \<Rightarrow> 'j list \<Rightarrow> 'a list option" where
  "zall p [] = Some []"
| "zall p (x # xs) = do { y \<leftarrow> p x; ys \<leftarrow> zall p xs; Some (y # ys) }"

fun zarray :: "(json \<Rightarrow> 'a option) \<Rightarrow> json \<Rightarrow> 'a list option" where
  "zarray p (JArr xs) = zall p xs"
| "zarray p _ = None"

fun zobject :: "((jsstr, json) omap \<Rightarrow> 'a option) \<Rightarrow> json \<Rightarrow> 'a option" where
  "zobject p (JObj fs) = p fs"
| "zobject p _ = None"

definition znullable :: "(json \<Rightarrow> 'a option) \<Rightarrow> json \<Rightarrow> 'a option option" where
  "znullable p j = (if j = JNull then Some None else map_option Some (p j))"

text \<open>A required and an optional property.\<close>

definition req :: "(json \<Rightarrow> 'a option) \<Rightarrow> (jsstr, json) omap \<Rightarrow> jsstr \<Rightarrow> 'a option" where
  "req p fs k = (case omap_get fs k of None \<Rightarrow> None | Some j \<Rightarrow> p j)"

definition opt :: "(json \<Rightarrow> 'a option) \<Rightarrow> (jsstr, json) omap \<Rightarrow> jsstr \<Rightarrow> 'a option option" where
  "opt p fs k = (case omap_get fs k of None \<Rightarrow> Some None | Some j \<Rightarrow> map_option Some (p j))"

text \<open>Properties of an object to be written: \<open>JSON.stringify\<close> leaves out those that are
  \<open>undefined\<close>.\<close>

definition field :: "jsstr \<Rightarrow> json \<Rightarrow> (jsstr, json) omap" where
  "field k j = [(k, j)]"

definition opt_field :: "jsstr \<Rightarrow> json option \<Rightarrow> (jsstr, json) omap" where
  "opt_field k j = (case j of None \<Rightarrow> [] | Some x \<Rightarrow> [(k, x)])"

section \<open>Lemmas\<close>

lemma get_field [simp]:
  "omap_get (field k j @ fs) k' = (if k = k' then Some j else omap_get fs k')"
  "omap_get (field k j) k' = (if k = k' then Some j else None)"
  by (auto simp: omap_get_def field_def)

lemma get_opt_field [simp]:
  "k \<noteq> k' \<Longrightarrow> omap_get (opt_field k j @ fs) k' = omap_get fs k'"
  "k \<noteq> k' \<Longrightarrow> omap_get (opt_field k j) k' = None"
  by (auto simp: omap_get_def opt_field_def split: option.splits)

lemma get_Nil [simp]: "omap_get [] k = None"
  by (simp add: omap_get_def)

text \<open>Reading the properties of an object that was written property by property.\<close>

lemma req_field [simp]:
  "req p (field k j @ fs) k = p j" "req p (field k j) k = p j"
  "k \<noteq> k' \<Longrightarrow> req p (field k j @ fs) k' = req p fs k'"
  by (simp_all add: req_def)

lemma opt_skip [simp]:
  "k \<noteq> k' \<Longrightarrow> opt p (field k j @ fs) k' = opt p fs k'"
  "k \<noteq> k' \<Longrightarrow> opt p (opt_field k v @ fs) k' = opt p fs k'"
  by (simp_all add: opt_def)

lemma opt_hit [simp]:
  "omap_get fs k = None \<Longrightarrow> (\<And>x. p (f x) = Some x) \<Longrightarrow> opt p (opt_field k (map_option f v) @ fs) k = Some v"
  "(\<And>x. p (f x) = Some x) \<Longrightarrow> opt p (opt_field k (map_option f v)) k = Some v"
  by (cases v; simp add: opt_def opt_field_def omap_get_def)+

lemma zall_map: "(\<forall>x\<in>set xs. p (f x) = Some x) \<Longrightarrow> zall p (map f xs) = Some xs"
  by (induction xs) auto

lemma zall_Some: "zall p xj = Some xs \<Longrightarrow> length xs = length xj \<and> (\<forall>x\<in>set xs. \<exists>j\<in>set xj. p j = Some x)"
  by (induction xj arbitrary: xs) (auto split: bind_splits)

end
