(* ===== verification/PlaygroundStorage.thy ===== *)
theory PlaygroundStorage
  imports Conversation JSON_Values
begin

text \<open>
  Persistence of the playground: \<open>features/playground/lib/storage/storage.ts\<close>,
  \<open>storage-schema.ts\<close>, \<open>lib/state/playground-state-utils.ts\<close> and the saving hook
  \<open>hooks/use-playground-state.ts\<close>. The store is a map from keys to strings; \<open>fits\<close> says whether
  \<open>localStorage.setItem\<close> succeeds. \<open>parse\<close> and \<open>stringify\<close> are \<open>JSON.parse\<close> (\<open>None\<close> where it
  raises) and \<open>JSON.stringify\<close>.
\<close>

section \<open>Schemas\<close>

definition MAX_STORED_MESSAGES :: nat where
  "MAX_STORED_MESSAGES = 100"

definition MAX_STORED_MESSAGES_BYTES :: nat where
  "MAX_STORED_MESSAGES_BYTES = 1024 * 1024"

definition MAX_LOADED_MESSAGES_CHARS :: nat where
  "MAX_LOADED_MESSAGES_CHARS = 120000"

definition MAX_LOADED_MESSAGE_CHARS :: nat where
  "MAX_LOADED_MESSAGE_CHARS = 40000"

definition STORAGE_VERSION :: jsnum where
  "STORAGE_VERSION = 1"

subsection \<open>Configuration\<close>

record PartialConfig =
  pc_model :: "jsstr option"
  pc_group :: "jsstr option"
  pc_temperature :: "jsnum option"
  pc_top_p :: "jsnum option"
  pc_max_tokens :: "jsnum option"
  pc_frequency_penalty :: "jsnum option"
  pc_presence_penalty :: "jsnum option"
  pc_seed :: "jsnum option option"
  pc_stream :: "bool option"

definition playgroundConfigSchema :: "json \<Rightarrow> PartialConfig option" where
  "playgroundConfigSchema = zobject (\<lambda>fs. do {
     a \<leftarrow> opt zstring fs (js ''model'');
     b \<leftarrow> opt zstring fs (js ''group'');
     c \<leftarrow> opt znumber fs (js ''temperature'');
     d \<leftarrow> opt znumber fs (js ''top_p'');
     e \<leftarrow> opt znumber fs (js ''max_tokens'');
     f \<leftarrow> opt znumber fs (js ''frequency_penalty'');
     g \<leftarrow> opt znumber fs (js ''presence_penalty'');
     h \<leftarrow> opt (znullable znumber) fs (js ''seed'');
     i \<leftarrow> opt zboolean fs (js ''stream'');
     Some \<lparr>pc_model = a, pc_group = b, pc_temperature = c, pc_top_p = d, pc_max_tokens = e,
       pc_frequency_penalty = f, pc_presence_penalty = g, pc_seed = h, pc_stream = i\<rparr> })"

record PartialEnabled =
  pe_temperature :: "bool option"
  pe_top_p :: "bool option"
  pe_max_tokens :: "bool option"
  pe_frequency_penalty :: "bool option"
  pe_presence_penalty :: "bool option"
  pe_seed :: "bool option"

definition parameterEnabledSchema :: "json \<Rightarrow> PartialEnabled option" where
  "parameterEnabledSchema = zobject (\<lambda>fs. do {
     a \<leftarrow> opt zboolean fs (js ''temperature'');
     b \<leftarrow> opt zboolean fs (js ''top_p'');
     c \<leftarrow> opt zboolean fs (js ''max_tokens'');
     d \<leftarrow> opt zboolean fs (js ''frequency_penalty'');
     e \<leftarrow> opt zboolean fs (js ''presence_penalty'');
     f \<leftarrow> opt zboolean fs (js ''seed'');
     Some \<lparr>pe_temperature = a, pe_top_p = b, pe_max_tokens = c, pe_frequency_penalty = d,
       pe_presence_penalty = e, pe_seed = f\<rparr> })"

text \<open>The value of \<open>JSON.stringify\<close> on a parsed configuration, before printing.\<close>

fun nullableNumber :: "jsnum option \<Rightarrow> json" where
  "nullableNumber None = JNull"
| "nullableNumber (Some n) = JNum n"

definition configJson :: "PartialConfig \<Rightarrow> json" where
  "configJson c = JObj (
     opt_field (js ''model'') (map_option JStr (pc_model c)) @
     opt_field (js ''group'') (map_option JStr (pc_group c)) @
     opt_field (js ''temperature'') (map_option JNum (pc_temperature c)) @
     opt_field (js ''top_p'') (map_option JNum (pc_top_p c)) @
     opt_field (js ''max_tokens'') (map_option JNum (pc_max_tokens c)) @
     opt_field (js ''frequency_penalty'') (map_option JNum (pc_frequency_penalty c)) @
     opt_field (js ''presence_penalty'') (map_option JNum (pc_presence_penalty c)) @
     opt_field (js ''seed'') (map_option nullableNumber (pc_seed c)) @
     opt_field (js ''stream'') (map_option JBool (pc_stream c)))"

definition enabledJson :: "PartialEnabled \<Rightarrow> json" where
  "enabledJson c = JObj (
     opt_field (js ''temperature'') (map_option JBool (pe_temperature c)) @
     opt_field (js ''top_p'') (map_option JBool (pe_top_p c)) @
     opt_field (js ''max_tokens'') (map_option JBool (pe_max_tokens c)) @
     opt_field (js ''frequency_penalty'') (map_option JBool (pe_frequency_penalty c)) @
     opt_field (js ''presence_penalty'') (map_option JBool (pe_presence_penalty c)) @
     opt_field (js ''seed'') (map_option JBool (pe_seed c)))"

subsection \<open>Messages\<close>

definition messageRoleSchema :: "json \<Rightarrow> MessageRole option" where
  "messageRoleSchema j = (if j = JStr (js ''user'') then Some User
     else if j = JStr (js ''assistant'') then Some Assistant
     else if j = JStr (js ''system'') then Some System else None)"

definition messageStatusSchema :: "json \<Rightarrow> MessageStatus option" where
  "messageStatusSchema j = (if j = JStr (js ''loading'') then Some Loading
     else if j = JStr (js ''streaming'') then Some Streaming
     else if j = JStr (js ''complete'') then Some Complete
     else if j = JStr (js ''error'') then Some Error else None)"

definition messageVersionSchema :: "json \<Rightarrow> MessageVersion option" where
  "messageVersionSchema = zobject (\<lambda>fs. do {
     a \<leftarrow> req zstring fs (js ''id'');
     b \<leftarrow> req zstring fs (js ''content'');
     Some \<lparr>version_id = a, content = b\<rparr> })"

definition sourceSchema :: "json \<Rightarrow> Source option" where
  "sourceSchema = zobject (\<lambda>fs. do {
     a \<leftarrow> req zstring fs (js ''href'');
     b \<leftarrow> req zstring fs (js ''title'');
     Some \<lparr>href = a, title = b\<rparr> })"

definition reasoningSchema :: "json \<Rightarrow> Reasoning option" where
  "reasoningSchema = zobject (\<lambda>fs. do {
     a \<leftarrow> req zstring fs (js ''content'');
     b \<leftarrow> req znumber fs (js ''duration'');
     c \<leftarrow> opt znumber fs (js ''startedAt'');
     d \<leftarrow> opt znumber fs (js ''completedAt'');
     e \<leftarrow> opt znumber fs (js ''durationMs'');
     Some \<lparr>reasoning_content = a, reasoning_duration = b, reasoning_startedAt = c,
       reasoning_completedAt = d, reasoning_durationMs = e\<rparr> })"

text \<open>\<open>z.array(messageVersionSchema).min(1)\<close>.\<close>

definition versionsSchema :: "json \<Rightarrow> MessageVersion list option" where
  "versionsSchema j = do { vs \<leftarrow> zarray messageVersionSchema j; if vs = [] then None else Some vs }"

definition messageSchema :: "json \<Rightarrow> Message option" where
  "messageSchema = zobject (\<lambda>fs. do {
     a \<leftarrow> req zstring fs (js ''key'');
     b \<leftarrow> req messageRoleSchema fs (js ''from'');
     c \<leftarrow> req versionsSchema fs (js ''versions'');
     d \<leftarrow> opt znumber fs (js ''createdAt'');
     e \<leftarrow> opt znumber fs (js ''startedAt'');
     f \<leftarrow> opt znumber fs (js ''completedAt'');
     g \<leftarrow> opt znumber fs (js ''durationMs'');
     h \<leftarrow> opt (zarray sourceSchema) fs (js ''sources'');
     i \<leftarrow> opt reasoningSchema fs (js ''reasoning'');
     k \<leftarrow> opt zboolean fs (js ''isReasoningStreaming'');
     l \<leftarrow> opt zboolean fs (js ''isReasoningComplete'');
     m \<leftarrow> opt zboolean fs (js ''isContentComplete'');
     n \<leftarrow> opt messageStatusSchema fs (js ''status'');
     p \<leftarrow> opt (znullable zstring) fs (js ''errorCode'');
     Some \<lparr>key = a, msg_from = b, versions = c, createdAt = d, startedAt = e, completedAt = f,
       durationMs = g, sources = h, reasoning = i, isReasoningStreaming = k,
       isReasoningComplete = l, isContentComplete = m, status = n, errorCode = p\<rparr> })"

definition messagesSchema :: "json \<Rightarrow> Message list option" where
  "messagesSchema = zarray messageSchema"

fun roleJson :: "MessageRole \<Rightarrow> json" where
  "roleJson User = JStr (js ''user'')"
| "roleJson Assistant = JStr (js ''assistant'')"
| "roleJson System = JStr (js ''system'')"

fun statusJson :: "MessageStatus \<Rightarrow> json" where
  "statusJson Loading = JStr (js ''loading'')"
| "statusJson Streaming = JStr (js ''streaming'')"
| "statusJson Complete = JStr (js ''complete'')"
| "statusJson Error = JStr (js ''error'')"

definition versionJson :: "MessageVersion \<Rightarrow> json" where
  "versionJson v = JObj (field (js ''id'') (JStr (version_id v)) @
     field (js ''content'') (JStr (content v)))"

definition sourceJson :: "Source \<Rightarrow> json" where
  "sourceJson s = JObj (field (js ''href'') (JStr (href s)) @ field (js ''title'') (JStr (title s)))"

definition reasoningJson :: "Reasoning \<Rightarrow> json" where
  "reasoningJson r = JObj (
     field (js ''content'') (JStr (reasoning_content r)) @
     field (js ''duration'') (JNum (reasoning_duration r)) @
     opt_field (js ''startedAt'') (map_option JNum (reasoning_startedAt r)) @
     opt_field (js ''completedAt'') (map_option JNum (reasoning_completedAt r)) @
     opt_field (js ''durationMs'') (map_option JNum (reasoning_durationMs r)))"

fun nullableString :: "jsstr option \<Rightarrow> json" where
  "nullableString None = JNull"
| "nullableString (Some s) = JStr s"

definition messageJson :: "Message \<Rightarrow> json" where
  "messageJson m = JObj (
     field (js ''key'') (JStr (key m)) @
     field (js ''from'') (roleJson (msg_from m)) @
     field (js ''versions'') (JArr (map versionJson (versions m))) @
     opt_field (js ''createdAt'') (map_option JNum (createdAt m)) @
     opt_field (js ''startedAt'') (map_option JNum (startedAt m)) @
     opt_field (js ''completedAt'') (map_option JNum (completedAt m)) @
     opt_field (js ''durationMs'') (map_option JNum (durationMs m)) @
     opt_field (js ''sources'') (map_option (JArr \<circ> map sourceJson) (sources m)) @
     opt_field (js ''reasoning'') (map_option reasoningJson (reasoning m)) @
     opt_field (js ''isReasoningStreaming'') (map_option JBool (isReasoningStreaming m)) @
     opt_field (js ''isReasoningComplete'') (map_option JBool (isReasoningComplete m)) @
     opt_field (js ''isContentComplete'') (map_option JBool (isContentComplete m)) @
     opt_field (js ''status'') (map_option statusJson (status m)) @
     opt_field (js ''errorCode'') (map_option nullableString (errorCode m)))"

definition messagesJson :: "Message list \<Rightarrow> json" where
  "messagesJson ms = JArr (map messageJson ms)"

subsection \<open>What is written is read back\<close>

lemma role_roundtrip [simp]: "messageRoleSchema (roleJson r) = Some r"
  by (cases r) (simp_all add: messageRoleSchema_def)

lemma status_roundtrip [simp]: "messageStatusSchema (statusJson s) = Some s"
  by (cases s) (simp_all add: messageStatusSchema_def)

lemma version_roundtrip [simp]: "messageVersionSchema (versionJson v) = Some v"
  by (simp add: messageVersionSchema_def versionJson_def)

lemma source_roundtrip [simp]: "sourceSchema (sourceJson v) = Some v"
  by (simp add: sourceSchema_def sourceJson_def)

lemma nullable_roundtrip [simp]:
  "znullable znumber (nullableNumber n) = Some n" "znullable zstring (nullableString s) = Some s"
  by (cases n; simp add: znullable_def) (cases s; simp add: znullable_def)

lemma reasoning_roundtrip [simp]: "reasoningSchema (reasoningJson r) = Some r"
  by (simp add: reasoningSchema_def reasoningJson_def)

lemma message_roundtrip: "versions m \<noteq> [] \<Longrightarrow> messageSchema (messageJson m) = Some m"
  by (simp add: messageSchema_def messageJson_def versionsSchema_def zall_map)

lemma messages_roundtrip:
  "\<forall>m\<in>set ms. versions m \<noteq> [] \<Longrightarrow> messagesSchema (messagesJson ms) = Some ms"
  by (simp add: messagesSchema_def messagesJson_def zall_map message_roundtrip)

lemma config_roundtrip: "playgroundConfigSchema (configJson c) = Some c"
  by (simp add: playgroundConfigSchema_def configJson_def)

lemma enabled_roundtrip: "parameterEnabledSchema (enabledJson c) = Some c"
  by (simp add: parameterEnabledSchema_def enabledJson_def)

lemma messagesSchema_versions:
  assumes "messagesSchema j = Some ms" "m \<in> set ms"
  shows "versions m \<noteq> []"
proof -
  from assms obtain j' where "messageSchema j' = Some m"
    by (cases j) (auto simp: messagesSchema_def dest!: zall_Some)
  then show ?thesis
    by (cases j') (auto simp: messageSchema_def req_def versionsSchema_def split: bind_splits option.splits if_splits)
qed

section \<open>Loading and saving\<close>

subsection \<open>Size limits\<close>

definition TRUNCATED_CONTENT_SUFFIX :: jsstr where
  "TRUNCATED_CONTENT_SUFFIX = js [CHR 0x0A, CHR 0x0A] @ js ''[...]''"

definition MIN_PREFIX_COLLAPSE_LENGTH :: nat where
  "MIN_PREFIX_COLLAPSE_LENGTH = 2000"

definition MIN_REPEATED_SECTION_COUNT :: nat where
  "MIN_REPEATED_SECTION_COUNT = 3"

definition trimMessages :: "'a list \<Rightarrow> 'a list" where
  "trimMessages messages =
     (if length messages \<le> MAX_STORED_MESSAGES then messages
      else slice_last messages MAX_STORED_MESSAGES)"

definition getMessageSize :: "Message \<Rightarrow> nat" where
  "getMessageSize m =
     foldl (\<lambda>total version. total + length (content version)) 0 (versions m) +
     nullish (map_option (\<lambda>r. length (reasoning_content r)) (reasoning m)) 0"

definition truncateText :: "jsstr \<Rightarrow> nat \<Rightarrow> jsstr" where
  "truncateText str maxLength =
     (if length str \<le> maxLength then str
      else if maxLength \<le> length TRUNCATED_CONTENT_SUFFIX then slice str 0 maxLength
      else slice str 0 (maxLength - length TRUNCATED_CONTENT_SUFFIX) @ TRUNCATED_CONTENT_SUFFIX)"

subsection \<open>Repeated sections\<close>

text \<open>
  The length of the match of \<open>#{2,6}\s+\d+\.\s+.+$\<close> at the start of a text. The runs of \<open>#\<close>, of
  white space and of digits are maximal because what follows them is of another kind. The
  last white space run is maximal too unless the text ends there; then the longest shorter
  run that leaves a unit for \<open>.+\<close> is taken, if there is one.
\<close>

definition headingMatch :: "jsstr \<Rightarrow> nat option" where
  "headingMatch s =
     (let h = takeWhile (\<lambda>c. c = jsc CHR ''#'') s; r1 = drop (length h) s;
          w1 = takeWhile is_ws r1; r2 = drop (length w1) r1;
          d = takeWhile is_digit r2; r3 = drop (length d) r2;
          r4 = drop 1 r3; w2 = takeWhile is_ws r4; r5 = drop (length w2) r4;
          n = length h + length w1 + length d + 1 in
      if length h < 2 \<or> length h > 6 \<or> w1 = [] \<or> d = [] \<or> \<not> starts_with r3 (js ''.'') \<or> w2 = [] then None
      else if r5 \<noteq> [] then Some (n + length w2 + length (takeWhile (\<lambda>c. \<not> is_lt c) r5))
      else (case filter (\<lambda>j. \<not> is_lt (w2 ! j)) (rev [1..<length w2]) of
              [] \<Rightarrow> None | j # _ \<Rightarrow> Some (n + j + 1)))"

record SectionOccurrence =
  heading :: jsstr
  occ_index :: nat

text \<open>\<open>matchAll\<close>: the scan goes on after a match, and one unit further where there is none;
  \<open>lineStart\<close> is the condition of \<open>^\<close>.\<close>

function scanHeadings :: "nat \<Rightarrow> bool \<Rightarrow> jsstr \<Rightarrow> SectionOccurrence list" where
  "scanHeadings pos lineStart [] = []"
| "scanHeadings pos lineStart (c # s) =
     (case (if lineStart then headingMatch (c # s) else None) of
        Some (Suc n) \<Rightarrow>
          \<lparr>heading = take (Suc n) (c # s), occ_index = pos\<rparr>
            # scanHeadings (pos + Suc n) (is_lt (last (take (Suc n) (c # s)))) (drop n s)
      | _ \<Rightarrow> scanHeadings (pos + 1) (is_lt c) s)"
  by pat_completeness auto
termination by (relation "measure (\<lambda>(_, _, s). length s)") auto

definition getSectionOccurrences :: "jsstr \<Rightarrow> SectionOccurrence list" where
  "getSectionOccurrences str = scanHeadings 0 True str"

definition getHeadingCounts :: "SectionOccurrence list \<Rightarrow> (jsstr, nat) omap" where
  "getHeadingCounts occurrences =
     foldl (\<lambda>counts occ. omap_set counts (heading occ) (nullish (omap_get counts (heading occ)) 0 + 1))
       [] occurrences"

text \<open>The backward loop: the headings seen and the indexes collected.\<close>

fun lastRepeated ::
  "(jsstr, nat) omap \<Rightarrow> SectionOccurrence list \<Rightarrow> jsstr list \<Rightarrow> nat list \<Rightarrow> nat list" where
  "lastRepeated counts [] seen indexes = indexes"
| "lastRepeated counts (occ # occs) seen indexes =
     (if nullish (omap_get counts (heading occ)) 0 < MIN_REPEATED_SECTION_COUNT \<or> heading occ \<in> set seen
      then lastRepeated counts occs seen indexes
      else lastRepeated counts occs (heading occ # seen) (indexes @ [occ_index occ]))"

definition findLastRepeatedSectionRunStart :: "jsstr \<Rightarrow> nat option" where
  "findLastRepeatedSectionRunStart str =
     (let occurrences = getSectionOccurrences str;
          lastRepeatedIndexes =
            lastRepeated (getHeadingCounts occurrences) (rev occurrences) [] [] in
      case lastRepeatedIndexes of [] \<Rightarrow> None | i # is \<Rightarrow> Some (foldl min i is))"

definition collapseRepeatedSectionSnapshots :: "jsstr \<Rightarrow> jsstr" where
  "collapseRepeatedSectionSnapshots str =
     (if length str < MIN_PREFIX_COLLAPSE_LENGTH then str
      else case findLastRepeatedSectionRunStart str of
        None \<Rightarrow> str
      | Some start \<Rightarrow> drop start str)"

subsection \<open>Loading messages\<close>

text \<open>\<open>changed\<close> is whether some version or the reasoning differs; without a change the message
  is returned as it is. An absent reasoning stays absent.\<close>

definition normalizeVersion :: "MessageVersion \<Rightarrow> MessageVersion" where
  "normalizeVersion v =
     (let collapsedContent = collapseRepeatedSectionSnapshots (content v);
          newContent = truncateText collapsedContent MAX_LOADED_MESSAGE_CHARS in
      if newContent = content v \<and> collapsedContent = content v then v else v\<lparr>content := newContent\<rparr>)"

definition normalizeReasoning :: "Reasoning \<Rightarrow> Reasoning" where
  "normalizeReasoning r =
     r\<lparr>reasoning_content := truncateText (reasoning_content r) MAX_LOADED_MESSAGE_CHARS\<rparr>"

definition normalizeStoredMessageForLoad :: "jsnum \<Rightarrow> jsnum \<Rightarrow> jsnum \<Rightarrow> Message \<Rightarrow> Message" where
  "normalizeStoredMessageForLoad now t1 t2 m =
     (let normalized = m\<lparr>versions := map normalizeVersion (versions m),
                         reasoning := map_option normalizeReasoning (reasoning m)\<rparr> in
      if \<not> isAssistantMessagePending normalized then normalized
      else
        let hasContent = hasMessageContent normalized;
            hasReason = (case reasoning normalized of
              None \<Rightarrow> False | Some r \<Rightarrow> trim (reasoning_content r) \<noteq> []) in
        if \<not> hasContent \<and> \<not> hasReason then normalized
        else
          let completed = nullish (completedAt normalized)
                (nullish (Option.bind (reasoning normalized) reasoning_completedAt)
                  (nullish (startedAt normalized) (nullish (createdAt normalized) now))) in
          completeAssistantTiming
            ((finalizeMessage t1 t2 normalized None)
              \<lparr>status := Some Complete, isReasoningStreaming := Some False\<rparr>) completed)"

text \<open>The loop over the messages from the last one backwards, with the size and the messages
  collected so far (in list order).\<close>

fun trimLoop :: "Message list \<Rightarrow> nat \<Rightarrow> Message list \<Rightarrow> Message list" where
  "trimLoop [] totalSize result = result"
| "trimLoop (m # rest) totalSize result =
     (if result \<noteq> [] \<and> totalSize + getMessageSize m > MAX_LOADED_MESSAGES_CHARS then result
      else trimLoop rest (totalSize + getMessageSize m) (m # result))"

definition trimMessagesByContentSize :: "Message list \<Rightarrow> Message list" where
  "trimMessagesByContentSize messages = trimLoop (rev messages) 0 []"

subsection \<open>The store\<close>

type_synonym Store = "jsstr \<Rightarrow> jsstr option"

definition CONFIG_KEY :: jsstr where "CONFIG_KEY = js ''playground_config''"

definition MESSAGES_KEY :: jsstr where "MESSAGES_KEY = js ''playground_messages''"

definition PARAMETER_ENABLED_KEY :: jsstr where
  "PARAMETER_ENABLED_KEY = js ''playground_parameter_enabled''"

text \<open>The outer \<open>option\<close> is the exception of \<open>JSON.parse\<close>, the inner one \<open>null\<close>.\<close>

definition readStoredValue ::
  "(jsstr \<Rightarrow> json option) \<Rightarrow> jsstr \<Rightarrow> Store \<Rightarrow> json option option" where
  "readStoredValue parse k st =
     (case st k of Some (c # cs) \<Rightarrow> map_option Some (parse (c # cs)) | _ \<Rightarrow> Some None)"

definition readStoredMessagesValue ::
  "(jsstr \<Rightarrow> json option) \<Rightarrow> Store \<Rightarrow> json option option \<times> Store" where
  "readStoredMessagesValue parse st =
     (case st MESSAGES_KEY of
        Some (c # cs) \<Rightarrow>
          if length (c # cs) > MAX_STORED_MESSAGES_BYTES then (Some None, st(MESSAGES_KEY := None))
          else (map_option Some (parse (c # cs)), st)
      | _ \<Rightarrow> (Some None, st))"

fun unwrapStoredValue :: "json \<Rightarrow> json" where
  "unwrapStoredValue (JObj fs) =
     (case (omap_get fs (js ''version''), omap_get fs (js ''data'')) of
        (Some _, Some d) \<Rightarrow> d | _ \<Rightarrow> JObj fs)"
| "unwrapStoredValue v = v"

definition envelope :: "json \<Rightarrow> json" where
  "envelope d = JObj [(js ''version'', JNum STORAGE_VERSION), (js ''data'', d)]"

text \<open>\<open>None\<close> where \<open>setItem\<close> raises; the callers catch it and the store stays.\<close>

definition writeStoredValue ::
  "(json \<Rightarrow> jsstr) \<Rightarrow> (Store \<Rightarrow> jsstr \<Rightarrow> jsstr \<Rightarrow> bool) \<Rightarrow> jsstr \<Rightarrow> json \<Rightarrow> Store \<Rightarrow> Store" where
  "writeStoredValue stringify fits k d st =
     (let payload = stringify (envelope d) in
      if fits st k payload then st(k := Some payload) else st)"

definition loadConfig :: "(jsstr \<Rightarrow> json option) \<Rightarrow> Store \<Rightarrow> PartialConfig" where
  "loadConfig parse st =
     (let empty = \<lparr>pc_model = None, pc_group = None, pc_temperature = None, pc_top_p = None,
            pc_max_tokens = None, pc_frequency_penalty = None, pc_presence_penalty = None,
            pc_seed = None, pc_stream = None\<rparr> in
      case readStoredValue parse CONFIG_KEY st of
        Some (Some saved) \<Rightarrow>
          if \<not> truthy saved then empty
          else nullish (playgroundConfigSchema (unwrapStoredValue saved)) empty
      | _ \<Rightarrow> empty)"

text \<open>The typed argument passes the schema, so saving a configuration writes it.\<close>

definition saveConfig ::
  "(json \<Rightarrow> jsstr) \<Rightarrow> (Store \<Rightarrow> jsstr \<Rightarrow> jsstr \<Rightarrow> bool) \<Rightarrow> PartialConfig \<Rightarrow> Store \<Rightarrow> Store" where
  "saveConfig stringify fits config st =
     (case playgroundConfigSchema (configJson config) of
        None \<Rightarrow> st
      | Some parsed \<Rightarrow> writeStoredValue stringify fits CONFIG_KEY (configJson parsed) st)"

definition loadParameterEnabled :: "(jsstr \<Rightarrow> json option) \<Rightarrow> Store \<Rightarrow> PartialEnabled" where
  "loadParameterEnabled parse st =
     (let empty = \<lparr>pe_temperature = None, pe_top_p = None, pe_max_tokens = None,
            pe_frequency_penalty = None, pe_presence_penalty = None, pe_seed = None\<rparr> in
      case readStoredValue parse PARAMETER_ENABLED_KEY st of
        Some (Some saved) \<Rightarrow>
          if \<not> truthy saved then empty
          else nullish (parameterEnabledSchema (unwrapStoredValue saved)) empty
      | _ \<Rightarrow> empty)"

definition saveParameterEnabled ::
  "(json \<Rightarrow> jsstr) \<Rightarrow> (Store \<Rightarrow> jsstr \<Rightarrow> jsstr \<Rightarrow> bool) \<Rightarrow> PartialEnabled \<Rightarrow> Store \<Rightarrow> Store" where
  "saveParameterEnabled stringify fits enabled st =
     (case parameterEnabledSchema (enabledJson enabled) of
        None \<Rightarrow> st
      | Some parsed \<Rightarrow> writeStoredValue stringify fits PARAMETER_ENABLED_KEY (enabledJson parsed) st)"

definition saveMessages ::
  "(json \<Rightarrow> jsstr) \<Rightarrow> (Store \<Rightarrow> jsstr \<Rightarrow> jsstr \<Rightarrow> bool) \<Rightarrow> Message list \<Rightarrow> Store \<Rightarrow> Store" where
  "saveMessages stringify fits messages st =
     (case messagesSchema (messagesJson (trimMessages messages)) of
        None \<Rightarrow> st
      | Some parsed \<Rightarrow> writeStoredValue stringify fits MESSAGES_KEY (messagesJson parsed) st)"

text \<open>The messages that are shown after loading: normalized, limited in number and in size, and
  repaired. The size limit always builds a new array, so the result is always saved.
  \<open>clk (Suc i)\<close> are the clock readings for message \<open>i\<close>, \<open>clk 0\<close> those of the repair.\<close>

definition normalizeAll :: "(nat \<Rightarrow> nat \<Rightarrow> jsnum) \<Rightarrow> Message list \<Rightarrow> Message list" where
  "normalizeAll clk parsed =
     map (\<lambda>(i, m). normalizeStoredMessageForLoad (clk i 0) (clk i 1) (clk i 2) m) (enumerate 1 parsed)"

definition loadPipeline ::
  "(jsstr \<Rightarrow> jsstr) \<Rightarrow> (nat \<Rightarrow> nat \<Rightarrow> jsnum) \<Rightarrow> Message list \<Rightarrow> Message list" where
  "loadPipeline tr clk parsed =
     sanitizeMessagesOnLoad tr (clk 0 0) (clk 0 1) (clk 0 2)
       (trimMessagesByContentSize (trimMessages (normalizeAll clk parsed)))"

definition loadMessages ::
  "(jsstr \<Rightarrow> jsstr) \<Rightarrow> (nat \<Rightarrow> nat \<Rightarrow> jsnum) \<Rightarrow> (jsstr \<Rightarrow> json option) \<Rightarrow> (json \<Rightarrow> jsstr) \<Rightarrow>
   (Store \<Rightarrow> jsstr \<Rightarrow> jsstr \<Rightarrow> bool) \<Rightarrow> Store \<Rightarrow> Message list option \<times> Store" where
  "loadMessages tr clk parse stringify fits st =
     (case readStoredMessagesValue parse st of
        (Some (Some saved), st1) \<Rightarrow>
          if \<not> truthy saved then (None, st1)
          else (case messagesSchema (unwrapStoredValue saved) of
                  None \<Rightarrow> (None, st1)
                | Some parsed \<Rightarrow>
                    let sanitized = loadPipeline tr clk parsed in
                    (Some sanitized, saveMessages stringify fits sanitized st1))
      | (_, st1) \<Rightarrow> (None, st1))"

definition clearPlaygroundData :: "Store \<Rightarrow> Store" where
  "clearPlaygroundData st =
     st(CONFIG_KEY := None, PARAMETER_ENABLED_KEY := None, MESSAGES_KEY := None)"

section \<open>Lemmas\<close>

subsection \<open>Limits\<close>

lemma trimMessages_suffix: "suffix (trimMessages xs) xs"
  by (simp add: trimMessages_def slice_last_def suffix_drop)

lemma length_trimMessages: "length (trimMessages xs) \<le> MAX_STORED_MESSAGES"
  by (simp add: trimMessages_def slice_last_def)

lemma truncateText_length: "length (truncateText str n) \<le> n"
  by (auto simp: truncateText_def slice_def)

definition totalSize :: "Message list \<Rightarrow> nat" where
  "totalSize ms = sum_list (map getMessageSize ms)"

lemma totalSize_simps [simp]:
  "totalSize [] = 0" "totalSize (m # ms) = getMessageSize m + totalSize ms"
  "totalSize (xs @ ys) = totalSize xs + totalSize ys" "totalSize (rev xs) = totalSize xs"
  by (simp_all add: totalSize_def rev_map [symmetric])

text \<open>What the backward loop collects: a prefix of the reversed list, within the limit unless it
  is a single message, and not extensible.\<close>

lemma trimLoop_split:
  assumes "sz = totalSize result" and "length result \<le> 1 \<or> sz \<le> MAX_LOADED_MESSAGES_CHARS"
  shows "\<exists>taken left. ms = taken @ left \<and> trimLoop ms sz result = rev taken @ result \<and>
    (length (rev taken @ result) \<le> 1 \<or> totalSize (rev taken @ result) \<le> MAX_LOADED_MESSAGES_CHARS) \<and>
    (left \<noteq> [] \<longrightarrow> rev taken @ result \<noteq> [] \<and>
      totalSize (rev taken @ result) + getMessageSize (hd left) > MAX_LOADED_MESSAGES_CHARS)"
  using assms
proof (induction ms arbitrary: sz result)
  case (Cons m ms)
  show ?case
  proof (cases "result \<noteq> [] \<and> sz + getMessageSize m > MAX_LOADED_MESSAGES_CHARS")
    case True
    then show ?thesis using Cons.prems by (intro exI [of _ "[]"] exI [of _ "m # ms"]) auto
  next
    case False
    have "sz + getMessageSize m = totalSize (m # result)" using Cons.prems(1) by simp
    moreover have "length (m # result) \<le> 1 \<or> sz + getMessageSize m \<le> MAX_LOADED_MESSAGES_CHARS"
      using False by auto
    ultimately obtain taken left where *: "ms = taken @ left"
      "trimLoop ms (sz + getMessageSize m) (m # result) = rev taken @ m # result"
      "length (rev taken @ m # result) \<le> 1 \<or> totalSize (rev taken @ m # result) \<le> MAX_LOADED_MESSAGES_CHARS"
      "left \<noteq> [] \<longrightarrow> rev taken @ m # result \<noteq> [] \<and>
        totalSize (rev taken @ m # result) + getMessageSize (hd left) > MAX_LOADED_MESSAGES_CHARS"
      using Cons.IH by metis
    have "trimLoop (m # ms) sz result = rev (m # taken) @ result" using False *(2) by auto
    with * show ?thesis by (intro exI [of _ "m # taken"] exI [of _ left]) auto
  qed
qed simp

lemma trimByContentSize_split:
  "\<exists>dropped. ms = dropped @ trimMessagesByContentSize ms \<and>
    (length (trimMessagesByContentSize ms) \<le> 1 \<or>
      totalSize (trimMessagesByContentSize ms) \<le> MAX_LOADED_MESSAGES_CHARS) \<and>
    (dropped \<noteq> [] \<longrightarrow> trimMessagesByContentSize ms \<noteq> [] \<and>
      totalSize (last dropped # trimMessagesByContentSize ms) > MAX_LOADED_MESSAGES_CHARS)"
proof -
  have start: "0 = totalSize []" "length ([] :: Message list) \<le> 1 \<or> 0 \<le> MAX_LOADED_MESSAGES_CHARS"
    by simp_all
  obtain taken left where *: "rev ms = taken @ left" "trimLoop (rev ms) 0 [] = rev taken"
    "length (rev taken) \<le> 1 \<or> totalSize (rev taken) \<le> MAX_LOADED_MESSAGES_CHARS"
    "left \<noteq> [] \<longrightarrow> rev taken \<noteq> [] \<and>
      totalSize (rev taken) + getMessageSize (hd left) > MAX_LOADED_MESSAGES_CHARS"
    using trimLoop_split [OF start, of "rev ms"] unfolding append_Nil2 by blast
  have "ms = rev left @ rev taken" using *(1) by (metis rev_append rev_rev_ident)
  with * show ?thesis
    by (intro exI [of _ "rev left"]) (auto simp: trimMessagesByContentSize_def last_rev)
qed

lemma trimByContentSize_id:
  assumes "totalSize ms \<le> MAX_LOADED_MESSAGES_CHARS"
  shows "trimMessagesByContentSize ms = ms"
proof -
  obtain dropped where d: "ms = dropped @ trimMessagesByContentSize ms"
    "dropped \<noteq> [] \<longrightarrow> totalSize (last dropped # trimMessagesByContentSize ms) > MAX_LOADED_MESSAGES_CHARS"
    using trimByContentSize_split [of ms] by blast
  have "dropped = []"
  proof (rule ccontr)
    assume ne: "dropped \<noteq> []"
    then have "dropped = butlast dropped @ [last dropped]" by simp
    with d(1) have "totalSize ms =
        totalSize (butlast dropped) + totalSize (last dropped # trimMessagesByContentSize ms)"
      by (metis append.assoc append_Cons append_Nil totalSize_simps(3))
    with d(2) ne assms show False by linarith
  qed
  with d(1) show ?thesis by simp
qed

subsection \<open>Normalization\<close>

lemma normalize_key [simp]: "key (normalizeStoredMessageForLoad a b c m) = key m"
  by (simp add: normalizeStoredMessageForLoad_def Let_def)

lemma normalizeAll_keys: "map key (normalizeAll clk ms) = map key ms"
  unfolding normalizeAll_def by (rule nth_equalityI) (auto simp: nth_enumerate_eq)

lemma getMessageSize_sum:
  "getMessageSize m = sum_list (map (length \<circ> content) (versions m)) +
    (case reasoning m of None \<Rightarrow> 0 | Some r \<Rightarrow> length (reasoning_content r))"
proof -
  have "foldl (\<lambda>total v. total + length (content v)) n vs = n + sum_list (map (length \<circ> content) vs)"
    for n and vs :: "MessageVersion list"
    by (induction vs arbitrary: n) auto
  then show ?thesis by (simp add: getMessageSize_def split: option.splits)
qed

text \<open>A settled message with short texts is loaded unchanged.\<close>

definition settled :: "Message \<Rightarrow> bool" where
  "settled m \<longleftrightarrow> \<not> isAssistantMessagePending m \<and> versions m \<noteq> [] \<and>
     (\<forall>v\<in>set (versions m). length (content v) < MIN_PREFIX_COLLAPSE_LENGTH) \<and>
     (\<forall>r. reasoning m = Some r \<longrightarrow> length (reasoning_content r) \<le> MAX_LOADED_MESSAGE_CHARS)"

lemma normalizeVersion_short:
  "length (content v) < MIN_PREFIX_COLLAPSE_LENGTH \<Longrightarrow> normalizeVersion v = v"
  by (simp add: normalizeVersion_def collapseRepeatedSectionSnapshots_def truncateText_def Let_def
    MIN_PREFIX_COLLAPSE_LENGTH_def MAX_LOADED_MESSAGE_CHARS_def)

lemma normalize_settled: "settled m \<Longrightarrow> normalizeStoredMessageForLoad a b c m = m"
proof -
  assume s: "settled m"
  then have "map normalizeVersion (versions m) = versions m"
    by (simp add: settled_def normalizeVersion_short map_idI)
  moreover have "map_option normalizeReasoning (reasoning m) = reasoning m"
    using s by (cases "reasoning m") (auto simp: settled_def normalizeReasoning_def truncateText_def)
  ultimately show ?thesis
    using s by (simp add: normalizeStoredMessageForLoad_def settled_def)
qed

lemma normalizeAll_settled: "\<forall>m\<in>set ms. settled m \<Longrightarrow> normalizeAll clk ms = ms"
  unfolding normalizeAll_def
  by (rule nth_equalityI) (auto simp: nth_enumerate_eq normalize_settled)

lemma sanitize_settled: "\<forall>m\<in>set ms. settled m \<Longrightarrow> sanitizeMessagesOnLoad tr t1 t2 t3 ms = ms"
proof (cases rule: sanitize_cases [of tr t1 t2 t3 ms])
  case (found i)
  assume "\<forall>m\<in>set ms. settled m"
  with found show ?thesis
    by (auto simp: settled_def isPendingAssistantMessage_def)
qed

lemma loadPipeline_settled:
  assumes "\<forall>m\<in>set ms. settled m" "length ms \<le> MAX_STORED_MESSAGES"
    "totalSize ms \<le> MAX_LOADED_MESSAGES_CHARS"
  shows "loadPipeline tr clk ms = ms"
  using assms
  by (simp add: loadPipeline_def normalizeAll_settled trimMessages_def trimByContentSize_id
    sanitize_settled)

lemma loadPipeline_keys:
  "suffix (map key (loadPipeline tr clk ms)) (map key ms) \<and>
   length (loadPipeline tr clk ms) \<le> MAX_STORED_MESSAGES"
proof -
  let ?n = "normalizeAll clk ms"
  obtain d where d: "trimMessages ?n = d @ trimMessagesByContentSize (trimMessages ?n)"
    using trimByContentSize_split by blast
  have keys: "map key (sanitizeMessagesOnLoad tr t1 t2 t3 xs) = map key xs" for t1 t2 t3 xs
    by (cases rule: sanitize_cases [of tr t1 t2 t3 xs])
      (auto simp: map_update sanitize_upd.key_upd list_update_same_conv)
  have "suffix (trimMessagesByContentSize (trimMessages ?n)) ?n"
    using d trimMessages_suffix by (metis suffixI suffix_order.trans)
  then have "suffix (map key (trimMessagesByContentSize (trimMessages ?n))) (map key ms)"
    using normalizeAll_keys [of clk ms] by (metis map_mono_suffix)
  moreover have "length (trimMessagesByContentSize (trimMessages ?n)) \<le> MAX_STORED_MESSAGES"
    using d length_trimMessages [of ?n] by (metis add_leE length_append)
  ultimately show ?thesis
    unfolding loadPipeline_def keys using keys by (metis length_map)
qed

subsection \<open>Repeated sections\<close>

lemma drop_shift: "pos < i \<Longrightarrow> drop (i - pos) (c # s) = drop (i - Suc pos) s"
  by (metis Suc_diff_Suc drop_Suc_Cons)

lemma scanHeadings_ok:
  "occ \<in> set (scanHeadings pos b s) \<Longrightarrow>
    pos \<le> occ_index occ \<and> heading occ \<noteq> [] \<and> prefix (heading occ) (drop (occ_index occ - pos) s)"
proof (induction pos b s rule: scanHeadings.induct)
  case prems: (2 pos b c s)
  show ?case
  proof (cases "if b then headingMatch (c # s) else None")
    case None
    with prems show ?thesis by (auto simp: drop_shift Suc_le_eq)
  next
    case (Some k)
    show ?thesis
    proof (cases k)
      case 0
      with Some prems show ?thesis by (auto simp: drop_shift Suc_le_eq)
    next
      case (Suc n)
      with Some prems(4) consider "occ = \<lparr>heading = take (Suc n) (c # s), occ_index = pos\<rparr>"
        | "occ \<in> set (scanHeadings (pos + Suc n) (is_lt (last (take (Suc n) (c # s)))) (drop n s))"
        by auto
      then show ?thesis
      proof cases
        case 2
        from prems(3) [OF Some Suc 2] have *: "pos + Suc n \<le> occ_index occ" "heading occ \<noteq> []"
          "prefix (heading occ) (drop (occ_index occ - (pos + Suc n)) (drop n s))" by auto
        have "drop (occ_index occ - pos) (c # s) = drop (occ_index occ - (pos + Suc n)) (drop n s)"
          using *(1) by (simp add: drop_shift Suc_le_eq)
        with * show ?thesis by auto
      qed (auto simp: take_is_prefix)
    qed
  qed
qed simp

lemma headingCounts_get:
  "nullish (omap_get (getHeadingCounts occs) h) 0 = length (filter (\<lambda>occ. heading occ = h) occs)"
proof -
  have "getHeadingCounts occs = om.tally heading (\<lambda>_ v. nullish v 0 + 1) [] occs"
    by (simp add: getHeadingCounts_def om.tally_def)
  moreover have "nullish (foldl (\<lambda>v x. Some (nullish v 0 + 1)) v xs) 0 = nullish v 0 + length xs"
    for v :: "nat option" and xs :: "SectionOccurrence list"
    by (induction xs arbitrary: v) simp_all
  ultimately show ?thesis by (simp add: om.get_tally)
qed

lemma lastRepeated_from:
  "i \<in> set (lastRepeated counts occs seen is) \<Longrightarrow>
    i \<in> set is \<or> (\<exists>occ\<in>set occs. occ_index occ = i \<and>
      MIN_REPEATED_SECTION_COUNT \<le> nullish (omap_get counts (heading occ)) 0)"
  by (induction occs arbitrary: seen "is") (auto split: if_splits, fastforce+)

lemma foldl_min_in: "foldl min i is \<in> set (i # is)" for i :: nat
  by (induction "is" arbitrary: i) (auto, metis insert_iff min_def)

text \<open>A collapsed text starts with a heading that occurs at least three times.\<close>

lemma collapse_suffix:
  "collapseRepeatedSectionSnapshots t = t \<or>
   (\<exists>occ\<in>set (getSectionOccurrences t). heading occ \<noteq> [] \<and>
      collapseRepeatedSectionSnapshots t = drop (occ_index occ) t \<and>
      prefix (heading occ) (collapseRepeatedSectionSnapshots t) \<and>
      MIN_REPEATED_SECTION_COUNT
        \<le> length (filter (\<lambda>o'. heading o' = heading occ) (getSectionOccurrences t)))"
proof (cases "length t < MIN_PREFIX_COLLAPSE_LENGTH \<or> findLastRepeatedSectionRunStart t = None")
  case False
  let ?o = "getSectionOccurrences t"
  let ?l = "lastRepeated (getHeadingCounts ?o) (rev ?o) [] []"
  obtain i "is" where l: "?l = i # is"
    using False by (cases ?l) (auto simp: findLastRepeatedSectionRunStart_def)
  then have start: "findLastRepeatedSectionRunStart t = Some (foldl min i is)"
    by (simp add: findLastRepeatedSectionRunStart_def)
  have "foldl min i is \<in> set ?l" unfolding l by (rule foldl_min_in)
  then obtain occ where "occ \<in> set ?o" "occ_index occ = foldl min i is"
      "MIN_REPEATED_SECTION_COUNT \<le> nullish (omap_get (getHeadingCounts ?o) (heading occ)) 0"
    by (auto dest!: lastRepeated_from)
  moreover from this have "heading occ \<noteq> []" "prefix (heading occ) (drop (occ_index occ) t)"
    using scanHeadings_ok [of occ 0 True t] by (auto simp: getSectionOccurrences_def)
  ultimately show ?thesis
    using False start by (intro disjI2 bexI [of _ occ])
      (auto simp: collapseRepeatedSectionSnapshots_def headingCounts_get)
qed (auto simp: collapseRepeatedSectionSnapshots_def)

lemma normalizeVersion_length: "length (content (normalizeVersion v)) \<le> MAX_LOADED_MESSAGE_CHARS"
  unfolding normalizeVersion_def Let_def
  using truncateText_length by (auto, metis)

text \<open>The text that is written for a list of messages.\<close>

definition storedText :: "(json \<Rightarrow> jsstr) \<Rightarrow> Message list \<Rightarrow> jsstr" where
  "storedText stringify ms = stringify (envelope (messagesJson ms))"

lemma saveMessages_valid:
  assumes "\<forall>m\<in>set ms. versions m \<noteq> []" "fits st MESSAGES_KEY (storedText stringify (trimMessages ms))"
  shows "saveMessages stringify fits ms st
    = st(MESSAGES_KEY := Some (storedText stringify (trimMessages ms)))"
proof -
  have "set (trimMessages ms) \<subseteq> set ms" using trimMessages_suffix by (metis set_mono_suffix)
  then have "messagesSchema (messagesJson (trimMessages ms)) = Some (trimMessages ms)"
    using assms(1) by (intro messages_roundtrip) auto
  with assms(2) show ?thesis by (simp add: saveMessages_def writeStoredValue_def storedText_def Let_def)
qed

lemma unwrap_envelope [simp]: "unwrapStoredValue (envelope d) = d" "truthy (envelope d)"
  by (simp_all add: envelope_def omap_get_def)

section \<open>Properties\<close>

text \<open>Whatever the store holds, loading returns at most 100 messages, and they are the most
  recent ones of the stored conversation in their order.\<close>

theorem loadMessages_recent:
  assumes "loadMessages tr clk parse stringify fits st = (Some ms, st')"
  shows "length ms \<le> MAX_STORED_MESSAGES \<and>
    (\<exists>saved parsed. parse (the (st MESSAGES_KEY)) = Some saved \<and>
       messagesSchema (unwrapStoredValue saved) = Some parsed \<and>
       suffix (map key ms) (map key parsed))"
proof -
  from assms obtain saved parsed where
      "parse (the (st MESSAGES_KEY)) = Some saved" "messagesSchema (unwrapStoredValue saved) = Some parsed"
      "ms = loadPipeline tr clk parsed"
    by (auto simp: loadMessages_def readStoredMessagesValue_def Let_def
      split: option.splits list.splits if_splits)
  with loadPipeline_keys show ?thesis by metis
qed

theorem loadMessages_recent_witness:
  "\<exists>ms st. loadMessages id (\<lambda>_ _. 0)
      (\<lambda>_. Some (messagesJson [createUserMessage (js ''k'') (js ''v'') (js ''hi'') 1]))
      (\<lambda>_. js ''x'') (\<lambda>_ _ _. True) (\<lambda>_. Some (js ''x'')) = (Some ms, st) \<and>
    length ms \<le> MAX_STORED_MESSAGES"
proof -
  let ?m = "createUserMessage (js ''k'') (js ''v'') (js ''hi'') 1"
  let ?parse = "\<lambda>_. Some (messagesJson [?m])"
  have "settled ?m"
    by (simp add: settled_def createUserMessage_def createMessageVersion_def
      isAssistantMessagePending_def MIN_PREFIX_COLLAPSE_LENGTH_def)
  then have "messagesSchema (messagesJson [?m]) = Some [?m]"
    by (intro messages_roundtrip) simp
  then obtain ms st where load: "loadMessages id (\<lambda>_ _. 0) ?parse (\<lambda>_. js ''x'') (\<lambda>_ _ _. True)
      (\<lambda>_. Some (js ''x'')) = (Some ms, st)"
    by (auto simp: loadMessages_def readStoredMessagesValue_def js_simps messagesJson_def
      MAX_STORED_MESSAGES_BYTES_def Let_def)
  from loadMessages_recent [OF load] load show ?thesis by blast
qed

text \<open>C12: Of the messages within the limit on their number, the size limit keeps the longest
  suffix: at most 120000 characters unless it is a single message, and one more message
  would exceed the limit.\<close>

theorem trimMessagesByContentSize_maximal:
  "\<exists>dropped. ms = dropped @ trimMessagesByContentSize ms \<and>
    (length (trimMessagesByContentSize ms) \<le> 1 \<or>
      sum_list (map getMessageSize (trimMessagesByContentSize ms)) \<le> MAX_LOADED_MESSAGES_CHARS) \<and>
    (dropped = [] \<or> trimMessagesByContentSize ms \<noteq> [] \<and>
      sum_list (map getMessageSize (last dropped # trimMessagesByContentSize ms)) > MAX_LOADED_MESSAGES_CHARS)"
  using trimByContentSize_split [of ms] unfolding totalSize_def by blast

text \<open>C13: A conversation of settled messages within the limits is loaded exactly as it was saved,
  when \<open>JSON.parse\<close> inverts \<open>JSON.stringify\<close> on it and the text is non-empty, within the
  limit and fits the store.\<close>

theorem save_load_messages:
  assumes "\<forall>m\<in>set ms. settled m" and "length ms \<le> MAX_STORED_MESSAGES"
    and "sum_list (map getMessageSize ms) \<le> MAX_LOADED_MESSAGES_CHARS"
    and "parse (storedText stringify ms) = Some (envelope (messagesJson ms))"
    and "storedText stringify ms \<noteq> []"
    and "length (storedText stringify ms) \<le> MAX_STORED_MESSAGES_BYTES"
    and "fits st MESSAGES_KEY (storedText stringify ms)"
  shows "fst (loadMessages tr clk parse stringify fits (saveMessages stringify fits ms st)) = Some ms"
proof -
  have trim: "trimMessages ms = ms" using assms(2) by (simp add: trimMessages_def)
  have v: "\<forall>m\<in>set ms. versions m \<noteq> []" using assms(1) by (simp add: settled_def)
  have sv: "saveMessages stringify fits ms st = st(MESSAGES_KEY := Some (storedText stringify ms))"
    using saveMessages_valid [OF v, of fits st stringify] assms(7) trim by simp
  obtain c cs where saved: "storedText stringify ms = c # cs"
    using assms(5) by (cases "storedText stringify ms") auto
  have "loadPipeline tr clk ms = ms"
    using assms(1-3) by (intro loadPipeline_settled) (auto simp: totalSize_def)
  then show ?thesis
    using assms(4,6) unfolding sv loadMessages_def readStoredMessagesValue_def saved
    by (simp add: messages_roundtrip [OF v] Let_def)
qed

theorem save_load_messages_witness:
  "fst (loadMessages id (\<lambda>_ _. 0)
      (\<lambda>_. Some (envelope (messagesJson [createUserMessage (js ''k'') (js ''v'') (js ''hi'') 1])))
      (\<lambda>_. js ''x'') (\<lambda>_ _ _. True)
      (saveMessages (\<lambda>_. js ''x'') (\<lambda>_ _ _. True) [createUserMessage (js ''k'') (js ''v'') (js ''hi'') 1]
        (\<lambda>_. None)))
   = Some [createUserMessage (js ''k'') (js ''v'') (js ''hi'') 1]"
  by (rule save_load_messages)
    (simp_all add: settled_def createUserMessage_def createMessageVersion_def getMessageSize_def
      isAssistantMessagePending_def MIN_PREFIX_COLLAPSE_LENGTH_def MAX_STORED_MESSAGES_def
      MAX_LOADED_MESSAGES_CHARS_def MAX_STORED_MESSAGES_BYTES_def storedText_def)

text \<open>A saved conversation whose text is longer than the limit is deleted when it is loaded:
  saving does not apply the limit that loading enforces.\<close>

theorem oversized_conversation_deleted:
  assumes "\<forall>m\<in>set ms. versions m \<noteq> []"
    and "length (storedText stringify (trimMessages ms)) > MAX_STORED_MESSAGES_BYTES"
    and "fits st MESSAGES_KEY (storedText stringify (trimMessages ms))"
  shows "loadMessages tr clk parse stringify fits (saveMessages stringify fits ms st)
    = (None, st(MESSAGES_KEY := None))"
proof -
  obtain c cs where "storedText stringify (trimMessages ms) = c # cs"
    using assms(2) by (cases "storedText stringify (trimMessages ms)") auto
  with assms(2) show ?thesis
    unfolding saveMessages_valid [where fits = fits and st = st, OF assms(1,3)]
    by (simp add: loadMessages_def readStoredMessagesValue_def)
qed

theorem oversized_conversation_deleted_witness:
  "loadMessages id (\<lambda>_ _. 0) (\<lambda>_. None) (\<lambda>_. replicate 1048577 0) (\<lambda>_ _ _. True)
     (saveMessages (\<lambda>_. replicate 1048577 0) (\<lambda>_ _ _. True) [] (\<lambda>_. None))
   = (None, (\<lambda>_. None)(MESSAGES_KEY := None))"
  by (rule oversized_conversation_deleted) (simp_all add: MAX_STORED_MESSAGES_BYTES_def storedText_def)

end
