(* ===== verification/PlaygroundStateHook.thy ===== *)
theory PlaygroundStateHook
  imports PlaygroundStorage
begin

text \<open>
  The state hook of the playground, \<open>features/playground/hooks/use-playground-state.ts\<close> with
  \<open>lib/state/playground-state-utils.ts\<close>: the configuration is saved at each change, the messages
  after a pause, on a timer that each change restarts. The theory shows that no change of the
  messages is lost, whenever the page is left.
\<close>

section \<open>Definitions\<close>

definition fullConfig :: "PlaygroundConfig \<Rightarrow> PartialConfig" where
  "fullConfig c = \<lparr>pc_model = Some (model c), pc_group = Some (group c),
     pc_temperature = Some (temperature c), pc_top_p = Some (top_p c),
     pc_max_tokens = Some (max_tokens c), pc_frequency_penalty = Some (frequency_penalty c),
     pc_presence_penalty = Some (presence_penalty c), pc_seed = Some (seed c),
     pc_stream = Some (stream c)\<rparr>"

definition fullEnabled :: "ParameterEnabled \<Rightarrow> PartialEnabled" where
  "fullEnabled e = \<lparr>pe_temperature = Some (en_temperature e), pe_top_p = Some (en_top_p e),
     pe_max_tokens = Some (en_max_tokens e), pe_frequency_penalty = Some (en_frequency_penalty e),
     pe_presence_penalty = Some (en_presence_penalty e), pe_seed = Some (en_seed e)\<rparr>"

text \<open>\<open>{ ...DEFAULT, ...loaded }\<close>: a loaded field wins when it is present.\<close>

definition getInitialPlaygroundConfig :: "(jsstr \<Rightarrow> json option) \<Rightarrow> Store \<Rightarrow> PlaygroundConfig" where
  "getInitialPlaygroundConfig parse st =
     (let p = loadConfig parse st; d = DEFAULT_CONFIG in
      \<lparr>model = nullish (pc_model p) (model d), group = nullish (pc_group p) (group d),
       temperature = nullish (pc_temperature p) (temperature d),
       top_p = nullish (pc_top_p p) (top_p d),
       max_tokens = nullish (pc_max_tokens p) (max_tokens d),
       frequency_penalty = nullish (pc_frequency_penalty p) (frequency_penalty d),
       presence_penalty = nullish (pc_presence_penalty p) (presence_penalty d),
       seed = nullish (pc_seed p) (seed d), stream = nullish (pc_stream p) (stream d)\<rparr>)"

definition getInitialParameterEnabled :: "(jsstr \<Rightarrow> json option) \<Rightarrow> Store \<Rightarrow> ParameterEnabled" where
  "getInitialParameterEnabled parse st =
     (let p = loadParameterEnabled parse st; d = DEFAULT_PARAMETER_ENABLED in
      \<lparr>en_temperature = nullish (pe_temperature p) (en_temperature d),
       en_top_p = nullish (pe_top_p p) (en_top_p d),
       en_max_tokens = nullish (pe_max_tokens p) (en_max_tokens d),
       en_frequency_penalty = nullish (pe_frequency_penalty p) (en_frequency_penalty d),
       en_presence_penalty = nullish (pe_presence_penalty p) (en_presence_penalty d),
       en_seed = nullish (pe_seed p) (en_seed d)\<rparr>)"

record PlaygroundState =
  ps_config :: PlaygroundConfig
  ps_enabled :: ParameterEnabled
  ps_messages :: "Message list"
  isLoadingMessages :: bool
  messagesSaveTimer :: bool
  latestMessages :: "Message list"
  hasLoadedMessages :: bool
  ps_store :: Store

definition initPlaygroundState :: "(jsstr \<Rightarrow> json option) \<Rightarrow> Store \<Rightarrow> PlaygroundState" where
  "initPlaygroundState parse st =
     \<lparr>ps_config = getInitialPlaygroundConfig parse st,
      ps_enabled = getInitialParameterEnabled parse st, ps_messages = [],
      isLoadingMessages = True, messagesSaveTimer = False, latestMessages = [],
      hasLoadedMessages = False, ps_store = st\<rparr>"

definition persistMessages :: "Message list \<Rightarrow> PlaygroundState \<Rightarrow> PlaygroundState" where
  "persistMessages ms s =
     (let s1 = s\<lparr>latestMessages := ms\<rparr> in
      if \<not> hasLoadedMessages s1 then s1 else s1\<lparr>messagesSaveTimer := True\<rparr>)"

text \<open>The save timer fires; the hook is unmounted; the messages are loaded after mounting.\<close>

definition saveTimerFires ::
  "(json \<Rightarrow> jsstr) \<Rightarrow> (Store \<Rightarrow> jsstr \<Rightarrow> jsstr \<Rightarrow> bool) \<Rightarrow> PlaygroundState \<Rightarrow> PlaygroundState" where
  "saveTimerFires stringify fits s =
     s\<lparr>messagesSaveTimer := False, ps_store := saveMessages stringify fits (latestMessages s) (ps_store s)\<rparr>"

definition unmountState ::
  "(json \<Rightarrow> jsstr) \<Rightarrow> (Store \<Rightarrow> jsstr \<Rightarrow> jsstr \<Rightarrow> bool) \<Rightarrow> PlaygroundState \<Rightarrow> PlaygroundState" where
  "unmountState stringify fits s =
     (if messagesSaveTimer s
      then s\<lparr>ps_store := saveMessages stringify fits (latestMessages s) (ps_store s)\<rparr> else s)"

definition loadInitialMessages ::
  "(jsstr \<Rightarrow> jsstr) \<Rightarrow> (nat \<Rightarrow> nat \<Rightarrow> jsnum) \<Rightarrow> (jsstr \<Rightarrow> json option) \<Rightarrow> (json \<Rightarrow> jsstr) \<Rightarrow>
   (Store \<Rightarrow> jsstr \<Rightarrow> jsstr \<Rightarrow> bool) \<Rightarrow> bool \<Rightarrow> PlaygroundState \<Rightarrow> PlaygroundState" where
  "loadInitialMessages tr clk parse stringify fits cancelled s =
     (case loadMessages tr clk parse stringify fits (ps_store s) of
        (loaded, st) \<Rightarrow>
          if cancelled then s\<lparr>ps_store := st\<rparr>
          else
            let ms = nullish loaded [] in
            s\<lparr>ps_store := st, latestMessages := ms, hasLoadedMessages := True, ps_messages := ms,
              isLoadingMessages := False\<rparr>)"

definition updateConfig ::
  "(json \<Rightarrow> jsstr) \<Rightarrow> (Store \<Rightarrow> jsstr \<Rightarrow> jsstr \<Rightarrow> bool) \<Rightarrow> (PlaygroundConfig \<Rightarrow> PlaygroundConfig) \<Rightarrow>
   PlaygroundState \<Rightarrow> PlaygroundState" where
  "updateConfig stringify fits set_key s =
     (let updated = set_key (ps_config s) in
      s\<lparr>ps_config := updated, ps_store := saveConfig stringify fits (fullConfig updated) (ps_store s)\<rparr>)"

definition updateParameterEnabled ::
  "(json \<Rightarrow> jsstr) \<Rightarrow> (Store \<Rightarrow> jsstr \<Rightarrow> jsstr \<Rightarrow> bool) \<Rightarrow> (ParameterEnabled \<Rightarrow> ParameterEnabled) \<Rightarrow>
   PlaygroundState \<Rightarrow> PlaygroundState" where
  "updateParameterEnabled stringify fits set_key s =
     (let updated = set_key (ps_enabled s) in
      s\<lparr>ps_enabled := updated,
        ps_store := saveParameterEnabled stringify fits (fullEnabled updated) (ps_store s)\<rparr>)"

definition updateMessages :: "(Message list \<Rightarrow> Message list) \<Rightarrow> PlaygroundState \<Rightarrow> PlaygroundState" where
  "updateMessages updater s =
     (let newMessages = updater (ps_messages s) in
      (persistMessages newMessages s)\<lparr>ps_messages := newMessages\<rparr>)"

definition clearMessages :: "PlaygroundState \<Rightarrow> PlaygroundState" where
  "clearMessages s = updateMessages (\<lambda>_. []) s"

definition resetConfig ::
  "(json \<Rightarrow> jsstr) \<Rightarrow> (Store \<Rightarrow> jsstr \<Rightarrow> jsstr \<Rightarrow> bool) \<Rightarrow> PlaygroundState \<Rightarrow> PlaygroundState" where
  "resetConfig stringify fits s =
     s\<lparr>ps_config := DEFAULT_CONFIG, ps_enabled := DEFAULT_PARAMETER_ENABLED,
       ps_store := saveParameterEnabled stringify fits (fullEnabled DEFAULT_PARAMETER_ENABLED)
         (saveConfig stringify fits (fullConfig DEFAULT_CONFIG) (ps_store s))\<rparr>"

subsection \<open>A session\<close>

text \<open>What can happen after the messages have been loaded: changes of the messages (by which every
  message keeps a version), the save timer, and changes of the settings. The store accepts
  what is written.\<close>

abbreviation always_fits :: "Store \<Rightarrow> jsstr \<Rightarrow> jsstr \<Rightarrow> bool" where
  "always_fits \<equiv> \<lambda>_ _ _. True"

inductive session :: "(json \<Rightarrow> jsstr) \<Rightarrow> PlaygroundState \<Rightarrow> PlaygroundState \<Rightarrow> bool"
  for stringify s0 where
  session_start: "session stringify s0 s0"
| session_update: "session stringify s0 s \<Longrightarrow> \<forall>m\<in>set (upd (ps_messages s)). versions m \<noteq> [] \<Longrightarrow>
    session stringify s0 (updateMessages upd s)"
| session_clear: "session stringify s0 s \<Longrightarrow> session stringify s0 (clearMessages s)"
| session_timer: "session stringify s0 s \<Longrightarrow> messagesSaveTimer s \<Longrightarrow>
    session stringify s0 (saveTimerFires stringify always_fits s)"
| session_config: "session stringify s0 s \<Longrightarrow> session stringify s0 (updateConfig stringify always_fits f s)"
| session_enabled: "session stringify s0 s \<Longrightarrow>
    session stringify s0 (updateParameterEnabled stringify always_fits g s)"
| session_reset: "session stringify s0 s \<Longrightarrow> session stringify s0 (resetConfig stringify always_fits s)"

section \<open>Lemmas\<close>

lemma store_keys [simp]:
  "CONFIG_KEY \<noteq> MESSAGES_KEY" "PARAMETER_ENABLED_KEY \<noteq> MESSAGES_KEY"
  "CONFIG_KEY \<noteq> PARAMETER_ENABLED_KEY" "MESSAGES_KEY \<noteq> CONFIG_KEY"
  "MESSAGES_KEY \<noteq> PARAMETER_ENABLED_KEY" "PARAMETER_ENABLED_KEY \<noteq> CONFIG_KEY"
  by (simp_all add: CONFIG_KEY_def MESSAGES_KEY_def PARAMETER_ENABLED_KEY_def)

lemma saveConfig_store:
  "saveConfig stringify always_fits c st = st(CONFIG_KEY := Some (stringify (envelope (configJson c))))"
  by (simp add: saveConfig_def config_roundtrip writeStoredValue_def Let_def)

lemma saveEnabled_store:
  "saveParameterEnabled stringify always_fits e st
    = st(PARAMETER_ENABLED_KEY := Some (stringify (envelope (enabledJson e))))"
  by (simp add: saveParameterEnabled_def enabled_roundtrip writeStoredValue_def Let_def)

text \<open>The messages on screen are valid and scheduled for saving, or they are what the store holds.\<close>

definition safe :: "(json \<Rightarrow> jsstr) \<Rightarrow> PlaygroundState \<Rightarrow> bool" where
  "safe stringify s \<longleftrightarrow> hasLoadedMessages s \<and> latestMessages s = ps_messages s \<and>
     (\<forall>m\<in>set (ps_messages s). versions m \<noteq> []) \<and>
     (messagesSaveTimer s \<or>
      ps_store s MESSAGES_KEY = Some (storedText stringify (trimMessages (ps_messages s))))"

lemma safe_update:
  "hasLoadedMessages s \<Longrightarrow> \<forall>m\<in>set (upd (ps_messages s)). versions m \<noteq> [] \<Longrightarrow>
    safe stringify (updateMessages upd s)"
  by (simp add: safe_def updateMessages_def persistMessages_def Let_def)

lemma session_safe: "session stringify s0 s \<Longrightarrow> safe stringify s0 \<Longrightarrow> safe stringify s"
proof (induction rule: session.induct)
  case (session_update s upd)
  then show ?case by (intro safe_update) (auto simp: safe_def)
next
  case (session_clear s)
  then show ?case unfolding clearMessages_def by (intro safe_update) (auto simp: safe_def)
next
  case (session_timer s)
  then show ?case by (simp add: safe_def saveTimerFires_def saveMessages_valid)
qed (auto simp: safe_def updateConfig_def updateParameterEnabled_def resetConfig_def Let_def
  saveConfig_store saveEnabled_store)

lemma unmount_saved:
  "safe stringify s \<Longrightarrow>
    ps_store (unmountState stringify always_fits s) MESSAGES_KEY
      = Some (storedText stringify (trimMessages (ps_messages s)))"
  by (auto simp: safe_def unmountState_def saveMessages_valid)

text \<open>The values that are written for the settings, and reading them.\<close>

definition savedConfig :: "PlaygroundConfig \<Rightarrow> json" where
  "savedConfig c = envelope (configJson (fullConfig c))"

definition savedEnabled :: "ParameterEnabled \<Rightarrow> json" where
  "savedEnabled e = envelope (enabledJson (fullEnabled e))"

lemma read_written:
  "parse t = Some j \<Longrightarrow> t \<noteq> [] \<Longrightarrow> st k = Some t \<Longrightarrow> readStoredValue parse k st = Some (Some j)"
  by (auto simp: readStoredValue_def split: list.splits)

lemma load_written:
  "parse t = Some (savedConfig c) \<Longrightarrow> t \<noteq> [] \<Longrightarrow> st CONFIG_KEY = Some t \<Longrightarrow>
    loadConfig parse st = fullConfig c"
  "parse t = Some (savedEnabled e) \<Longrightarrow> t \<noteq> [] \<Longrightarrow> st PARAMETER_ENABLED_KEY = Some t \<Longrightarrow>
    loadParameterEnabled parse st = fullEnabled e"
  by (simp_all add: loadConfig_def loadParameterEnabled_def read_written savedConfig_def savedEnabled_def
    config_roundtrip enabled_roundtrip Let_def)

section \<open>Properties\<close>

text \<open>C14: Once the messages are loaded, a change of the messages is not lost: after any further
  changes, timer ticks and setting changes, leaving the page leaves the latest messages in
  the store.\<close>

theorem no_message_update_lost:
  assumes "hasLoadedMessages s" and "\<forall>m\<in>set (upd (ps_messages s)). versions m \<noteq> []"
    and "session stringify (updateMessages upd s) t"
  shows "ps_store (unmountState stringify (\<lambda>_ _ _. True) t) MESSAGES_KEY
    = Some (storedText stringify (trimMessages (ps_messages t)))"
proof -
  have "safe stringify (updateMessages upd s)" by (rule safe_update) (use assms in auto)
  from unmount_saved [OF session_safe [OF assms(3) this]] show ?thesis .
qed

theorem no_message_update_lost_witness:
  "ps_store (unmountState (\<lambda>_. js ''x'') (\<lambda>_ _ _. True)
     (updateMessages (\<lambda>ms. ms @ [createUserMessage (js ''k'') (js ''v'') (js ''hi'') 1])
       ((initPlaygroundState (\<lambda>_. None) (\<lambda>_. None))\<lparr>hasLoadedMessages := True\<rparr>))) MESSAGES_KEY
   = Some (js ''x'')"
  using no_message_update_lost [OF _ _ session.session_start,
      of "(initPlaygroundState (\<lambda>_. None) (\<lambda>_. None))\<lparr>hasLoadedMessages := True\<rparr>"
        "\<lambda>ms. ms @ [createUserMessage (js ''k'') (js ''v'') (js ''hi'') 1]" "\<lambda>_. js ''x''"]
  by (simp add: initPlaygroundState_def storedText_def)

text \<open>Settings survive a reload: after a change of the configuration and of the enabled
  parameters, the initial settings read from the store are the ones last shown, when
  \<open>JSON.parse\<close> inverts \<open>JSON.stringify\<close> on the two values written and the texts are not empty.\<close>

theorem settings_roundtrip:
  assumes "parse (stringify (savedConfig (f (ps_config s)))) = Some (savedConfig (f (ps_config s)))"
    and "parse (stringify (savedEnabled (g (ps_enabled s)))) = Some (savedEnabled (g (ps_enabled s)))"
    and "stringify (savedConfig (f (ps_config s))) \<noteq> []"
    and "stringify (savedEnabled (g (ps_enabled s))) \<noteq> []"
  shows "getInitialPlaygroundConfig parse (ps_store (updateParameterEnabled stringify (\<lambda>_ _ _. True) g
      (updateConfig stringify (\<lambda>_ _ _. True) f s))) = f (ps_config s) \<and>
    getInitialParameterEnabled parse (ps_store (updateParameterEnabled stringify (\<lambda>_ _ _. True) g
      (updateConfig stringify (\<lambda>_ _ _. True) f s))) = g (ps_enabled s)"
proof -
  let ?st = "ps_store (updateParameterEnabled stringify always_fits g (updateConfig stringify always_fits f s))"
  have st: "?st = (ps_store s)(CONFIG_KEY := Some (stringify (savedConfig (f (ps_config s)))),
      PARAMETER_ENABLED_KEY := Some (stringify (savedEnabled (g (ps_enabled s)))))"
    by (simp add: updateConfig_def updateParameterEnabled_def Let_def saveConfig_store
      saveEnabled_store savedConfig_def savedEnabled_def)
  have "loadConfig parse ?st = fullConfig (f (ps_config s))"
    by (rule load_written(1) [where t = "stringify (savedConfig (f (ps_config s)))"])
      (use assms in \<open>simp_all add: st\<close>)
  moreover have "loadParameterEnabled parse ?st = fullEnabled (g (ps_enabled s))"
    by (rule load_written(2) [where t = "stringify (savedEnabled (g (ps_enabled s)))"])
      (use assms in \<open>simp_all add: st\<close>)
  ultimately show ?thesis
    by (simp add: getInitialPlaygroundConfig_def getInitialParameterEnabled_def fullConfig_def
      fullEnabled_def Let_def)
qed

theorem settings_roundtrip_witness:
  "getInitialPlaygroundConfig
     (\<lambda>t. if t = js ''a'' then Some (savedConfig (DEFAULT_CONFIG\<lparr>stream := False\<rparr>))
          else Some (savedEnabled DEFAULT_PARAMETER_ENABLED))
     (ps_store (updateParameterEnabled
       (\<lambda>j. if j = savedConfig (DEFAULT_CONFIG\<lparr>stream := False\<rparr>) then js ''a'' else js ''b'')
       (\<lambda>_ _ _. True) (\<lambda>_. DEFAULT_PARAMETER_ENABLED)
       (updateConfig
         (\<lambda>j. if j = savedConfig (DEFAULT_CONFIG\<lparr>stream := False\<rparr>) then js ''a'' else js ''b'')
         (\<lambda>_ _ _. True) (\<lambda>_. DEFAULT_CONFIG\<lparr>stream := False\<rparr>)
         (initPlaygroundState (\<lambda>_. None) (\<lambda>_. None)))))
   = DEFAULT_CONFIG\<lparr>stream := False\<rparr>"
proof -
  have ne: "savedEnabled DEFAULT_PARAMETER_ENABLED \<noteq> savedConfig (DEFAULT_CONFIG\<lparr>stream := False\<rparr>)"
    by (simp add: savedConfig_def savedEnabled_def envelope_def configJson_def enabledJson_def
      fullConfig_def fullEnabled_def opt_field_def)
  show ?thesis
    by (rule settings_roundtrip [THEN conjunct1]) (simp_all add: ne)
qed

end
