(* ===== verification/FlowPaths.thy ===== *)
theory FlowPaths
  imports JS_Prelude
begin

text \<open>
  The rows of the usage flow of the dashboard and the paths they stand for: the first part of
  \<open>features/dashboard/lib/flow.ts\<close> (metrics, node builders, stages of a role, row filters) with
  the types of \<open>features/dashboard/types.ts\<close>. Absent fields are \<open>None\<close>; identifiers are integers
  and metrics are exact numbers, as the server sends them. A \<open>Set\<close> is the list of its elements
  in insertion order.
\<close>

section \<open>Definitions\<close>

subsection \<open>Rows and nodes\<close>

datatype FlowMetric = QuotaMetric | TokensMetric | RequestsMetric

datatype FlowOverflowMode = Aggregate | Hide

datatype FlowRole = UserRole | AdminRole | RootRole

datatype FlowNodeKind = UserKind | NodeKind | TokenKind | GroupKind | ModelKind | ChannelKind

record FlowQuotaDataItem =
  user_id :: "int option"
  username :: "jsstr option"
  node_name :: "jsstr option"
  use_group :: "jsstr option"
  token_id :: "int option"
  token_name :: "jsstr option"
  channel_id :: "int option"
  channel_name :: "jsstr option"
  model_name :: "jsstr option"
  token_used :: "jsnum option"
  row_count :: "jsnum option"
  row_quota :: "jsnum option"

record FlowNodeFilter =
  filter_kind :: FlowNodeKind
  filter_id :: jsstr

record FlowMetrics =
  m_quota :: jsnum
  m_tokens :: jsnum
  m_requests :: jsnum

record FlowPathNode =
  pn_id :: jsstr
  pn_label :: jsstr
  pn_kind :: FlowNodeKind

text \<open>The context has the label of a deleted token, if the caller gives one.\<close>

type_synonym FlowPathContext = "(int \<Rightarrow> jsstr) option"

text \<open>\<open>numberValue\<close> on an optional number: absent is not finite, so it is 0.\<close>

definition numberValue :: "'n :: zero option \<Rightarrow> 'n" where
  "numberValue v = nullish v 0"

definition rowMetrics :: "FlowQuotaDataItem \<Rightarrow> FlowMetrics" where
  "rowMetrics row = \<lparr>m_quota = numberValue (row_quota row), m_tokens = numberValue (token_used row),
     m_requests = numberValue (row_count row)\<rparr>"

definition metricValue :: "FlowMetrics \<Rightarrow> FlowMetric \<Rightarrow> jsnum" where
  "metricValue metrics metric =
     (if metric = RequestsMetric then m_requests metrics
      else if metric = TokensMetric then m_tokens metrics else m_quota metrics)"

definition userNode :: "FlowQuotaDataItem \<Rightarrow> FlowPathNode" where
  "userNode row =
     (let userID = numberValue (user_id row) in
      \<lparr>pn_id = (if userID > 0 then js ''user:'' @ show_int userID
                else js ''user:'' @ or_str (username row) (js ''unknown'')),
       pn_label = or_str (username row)
         (if userID > 0 then js ''user-'' @ show_int userID else js ''Unknown User''),
       pn_kind = UserKind\<rparr>)"

definition nodeNameNode :: "FlowQuotaDataItem \<Rightarrow> FlowPathNode" where
  "nodeNameNode row =
     (let nodeName = or_str (node_name row) (js ''default-node'') in
      \<lparr>pn_id = js ''node:'' @ nodeName, pn_label = nodeName, pn_kind = NodeKind\<rparr>)"

definition deletedTokenLabel :: "int \<Rightarrow> FlowPathContext \<Rightarrow> jsstr" where
  "deletedTokenLabel tokenID ctx =
     (if tokenID \<le> 0 then js ''Unknown Token''
      else case ctx of Some f \<Rightarrow> f tokenID | None \<Rightarrow> js ''token-'' @ show_int tokenID)"

definition tokenNode :: "FlowQuotaDataItem \<Rightarrow> FlowPathContext \<Rightarrow> FlowPathNode" where
  "tokenNode row ctx =
     (let tokenID = numberValue (token_id row) in
      \<lparr>pn_id = (if tokenID > 0 then js ''token:'' @ show_int tokenID
                else js ''token:'' @ or_str (token_name row) (js ''unknown'')),
       pn_label = or_str (token_name row) (deletedTokenLabel tokenID ctx),
       pn_kind = TokenKind\<rparr>)"

definition groupNode :: "FlowQuotaDataItem \<Rightarrow> FlowPathNode" where
  "groupNode row =
     (let useGroup = or_str (use_group row) (js ''unknown'') in
      \<lparr>pn_id = js ''group:'' @ useGroup, pn_label = useGroup, pn_kind = GroupKind\<rparr>)"

definition modelNode :: "FlowQuotaDataItem \<Rightarrow> FlowPathNode" where
  "modelNode row =
     \<lparr>pn_id = js ''model:'' @ or_str (model_name row) (js ''unknown''),
      pn_label = or_str (model_name row) (js ''Unknown Model''), pn_kind = ModelKind\<rparr>"

definition channelNode :: "FlowQuotaDataItem \<Rightarrow> FlowPathNode" where
  "channelNode row =
     (let channelID = numberValue (channel_id row) in
      \<lparr>pn_id = (if channelID > 0 then js ''channel:'' @ show_int channelID
                else js ''channel:'' @ or_str (channel_name row) (js ''unknown'')),
       pn_label = or_str (channel_name row)
         (if channelID > 0 then js ''channel-'' @ show_int channelID else js ''Unknown''),
       pn_kind = ChannelKind\<rparr>)"

fun NODE_BUILDERS :: "FlowNodeKind \<Rightarrow> FlowQuotaDataItem \<Rightarrow> FlowPathContext \<Rightarrow> FlowPathNode" where
  "NODE_BUILDERS UserKind row ctx = userNode row"
| "NODE_BUILDERS NodeKind row ctx = nodeNameNode row"
| "NODE_BUILDERS TokenKind row ctx = tokenNode row ctx"
| "NODE_BUILDERS GroupKind row ctx = groupNode row"
| "NODE_BUILDERS ModelKind row ctx = modelNode row"
| "NODE_BUILDERS ChannelKind row ctx = channelNode row"

subsection \<open>Stages\<close>

fun getFlowStages :: "FlowRole \<Rightarrow> FlowNodeKind list" where
  "getFlowStages RootRole = [UserKind, NodeKind, TokenKind, GroupKind, ModelKind, ChannelKind]"
| "getFlowStages AdminRole = [UserKind, GroupKind, ModelKind, ChannelKind]"
| "getFlowStages UserRole = [TokenKind, GroupKind, ModelKind]"

definition MIN_FLOW_STAGES :: nat where
  "MIN_FLOW_STAGES = 2"

definition resolveVisibleStages :: "FlowRole \<Rightarrow> FlowNodeKind list option \<Rightarrow> FlowNodeKind list" where
  "resolveVisibleStages role visibleStages =
     (let stages = getFlowStages role in
      case visibleStages of
        None \<Rightarrow> stages
      | Some vs \<Rightarrow>
          let filtered = filter (\<lambda>stage. stage \<in> set vs) stages in
          if length filtered \<ge> MIN_FLOW_STAGES then filtered else stages)"

definition flowPathForStages ::
  "FlowQuotaDataItem \<Rightarrow> FlowNodeKind list \<Rightarrow> FlowPathContext \<Rightarrow> FlowPathNode list" where
  "flowPathForStages row stages ctx = map (\<lambda>stage. NODE_BUILDERS stage row ctx) stages"

subsection \<open>Row filters\<close>

text \<open>Adding an element to a \<open>Set\<close>.\<close>

definition set_add :: "'a list \<Rightarrow> 'a \<Rightarrow> 'a list" where
  "set_add xs x = (if x \<in> set xs then xs else xs @ [x])"

definition filterRows :: "FlowQuotaDataItem list \<Rightarrow> jsstr list option \<Rightarrow> FlowQuotaDataItem list" where
  "filterRows rows users =
     (let selectedUsers = dedupe (nullish users []) in
      if length selectedUsers = 0 then rows
      else filter (\<lambda>row. pn_id (userNode row) \<in> set selectedUsers) rows)"

fun kindName :: "FlowNodeKind \<Rightarrow> jsstr" where
  "kindName UserKind = js ''user''"
| "kindName NodeKind = js ''node''"
| "kindName TokenKind = js ''token''"
| "kindName GroupKind = js ''group''"
| "kindName ModelKind = js ''model''"
| "kindName ChannelKind = js ''channel''"

definition nodeFilterKey :: "FlowNodeFilter \<Rightarrow> jsstr" where
  "nodeFilterKey f = kindName (filter_kind f) @ [0] @ filter_id f"

definition normalizeSelectedNodeFilters ::
  "FlowNodeFilter list option \<Rightarrow> FlowNodeKind list \<Rightarrow> (FlowNodeKind, jsstr list) omap" where
  "normalizeSelectedNodeFilters selectedNodes stages =
     foldl (\<lambda>filters f.
         if filter_kind f \<notin> set stages then filters
         else omap_set filters (filter_kind f)
                (set_add (nullish (omap_get filters (filter_kind f)) []) (filter_id f)))
       [] (nullish selectedNodes [])"

text \<open>The identifiers of a path by kind.\<close>

definition pathNodesByKind :: "FlowPathNode list \<Rightarrow> (FlowNodeKind, jsstr list) omap" where
  "pathNodesByKind path =
     foldl (\<lambda>m n. omap_set m (pn_kind n) (set_add (nullish (omap_get m (pn_kind n)) []) (pn_id n)))
       [] path"

definition pathMatchesNodeFilters :: "FlowPathNode list \<Rightarrow> (FlowNodeKind, jsstr list) omap \<Rightarrow> bool" where
  "pathMatchesNodeFilters path filters \<longleftrightarrow>
     list_all (\<lambda>(kind, selectedIds).
       case omap_get (pathNodesByKind path) kind of
         None \<Rightarrow> False
       | Some pathIds \<Rightarrow> list_ex (\<lambda>i. i \<in> set pathIds) selectedIds) filters"

definition filterRowsByNodes ::
  "FlowQuotaDataItem list \<Rightarrow> FlowNodeFilter list option \<Rightarrow> FlowNodeKind list \<Rightarrow> FlowPathContext \<Rightarrow>
   FlowQuotaDataItem list" where
  "filterRowsByNodes rows selectedNodes stages ctx =
     (let filters = normalizeSelectedNodeFilters selectedNodes stages in
      if length filters = 0 then rows
      else filter (\<lambda>row. pathMatchesNodeFilters (flowPathForStages row stages ctx) filters) rows)"

definition selectedNodeFiltersExceptKind ::
  "FlowNodeFilter list option \<Rightarrow> FlowNodeKind \<Rightarrow> FlowNodeFilter list option" where
  "selectedNodeFiltersExceptKind selectedNodes kind =
     (let filtered = filter (\<lambda>f. filter_kind f \<noteq> kind) (nullish selectedNodes []) in
      if length filtered > 0 then Some filtered else None)"

subsection \<open>Summary\<close>

definition buildSummary :: "FlowQuotaDataItem list \<Rightarrow> FlowMetrics" where
  "buildSummary rows =
     foldl (\<lambda>summary row.
         let metrics = rowMetrics row in
         summary\<lparr>m_quota := m_quota summary + m_quota metrics,
                 m_tokens := m_tokens summary + m_tokens metrics,
                 m_requests := m_requests summary + m_requests metrics\<rparr>)
       \<lparr>m_quota = 0, m_tokens = 0, m_requests = 0\<rparr> rows"

section \<open>Lemmas\<close>

subsection \<open>Node identifiers\<close>

fun kindPrefix :: "FlowNodeKind \<Rightarrow> jsstr" where
  "kindPrefix UserKind = js ''user:''"
| "kindPrefix NodeKind = js ''node:''"
| "kindPrefix TokenKind = js ''token:''"
| "kindPrefix GroupKind = js ''group:''"
| "kindPrefix ModelKind = js ''model:''"
| "kindPrefix ChannelKind = js ''channel:''"

text \<open>A node whose identifier starts with the prefix of its kind.\<close>

definition node_wf :: "FlowPathNode \<Rightarrow> bool" where
  "node_wf n \<longleftrightarrow> prefix (kindPrefix (pn_kind n)) (pn_id n)"

lemma builders_kind [simp]: "pn_kind (NODE_BUILDERS k row ctx) = k"
  by (cases k) (simp_all add: userNode_def nodeNameNode_def tokenNode_def groupNode_def modelNode_def
    channelNode_def Let_def)

lemma builders_wf: "node_wf (NODE_BUILDERS k row ctx)"
  by (cases k) (simp_all add: node_wf_def userNode_def nodeNameNode_def tokenNode_def groupNode_def
    modelNode_def channelNode_def Let_def)

text \<open>No prefix is a prefix of another one, so the kind can be read off the identifier.\<close>

lemma kindPrefix_inj: "prefix (kindPrefix k) s \<Longrightarrow> prefix (kindPrefix k') s \<Longrightarrow> k = k'"
  by (cases k; cases k'; cases s; (auto simp: js_simps prefix_def)?)

lemma node_wf_kind: "node_wf a \<Longrightarrow> node_wf b \<Longrightarrow> pn_id a = pn_id b \<Longrightarrow> pn_kind a = pn_kind b"
  unfolding node_wf_def by (metis kindPrefix_inj)

lemma kind_mem_path: "n \<in> set (flowPathForStages row stages ctx) \<longleftrightarrow>
    (\<exists>k\<in>set stages. n = NODE_BUILDERS k row ctx)"
  by (auto simp: flowPathForStages_def)

lemma map_kind_path [simp]: "map pn_kind (flowPathForStages row stages ctx) = stages"
  by (simp add: flowPathForStages_def comp_def)

lemma stages_facts: "distinct (getFlowStages role)" "MIN_FLOW_STAGES \<le> length (getFlowStages role)"
  by (cases role; simp add: MIN_FLOW_STAGES_def)+

lemma resolveVisibleStages_facts:
  "distinct (resolveVisibleStages role vs)" "MIN_FLOW_STAGES \<le> length (resolveVisibleStages role vs)"
  "set (resolveVisibleStages role vs) \<subseteq> set (getFlowStages role)"
  using stages_facts by (auto simp: resolveVisibleStages_def Let_def split: option.splits)

subsection \<open>Filters\<close>

lemma set_set_add [simp]: "set (set_add xs x) = insert x (set xs)"
  by (auto simp: set_add_def)

lemma set_add_ne [simp]: "set_add xs x \<noteq> []"
  by (auto simp: set_add_def)

lemma foldl_set_add:
  "set (nullish (foldl (\<lambda>v x. Some (set_add (nullish v []) (f x))) v xs) []) =
    set (nullish v []) \<union> f ` set xs"
  by (induction xs arbitrary: v) auto

lemma foldl_Some_None: "foldl (\<lambda>v x. Some (g v x)) None xs = None \<longleftrightarrow> xs = []"
  by (cases xs rule: rev_cases) auto

lemma pathNodesByKind_tally:
  "pathNodesByKind path = om.tally pn_kind (\<lambda>n v. set_add (nullish v []) (pn_id n)) [] path"
  by (simp add: pathNodesByKind_def om.tally_def)

lemma pathNodesByKind_get:
  "set (nullish (omap_get (pathNodesByKind path) k) []) = {pn_id n | n. n \<in> set path \<and> pn_kind n = k}"
  "omap_get (pathNodesByKind path) k = None \<longleftrightarrow> (\<forall>n\<in>set path. pn_kind n \<noteq> k)"
proof -
  note get = om.get_tally [of pn_kind "\<lambda>n v. set_add (nullish v []) (pn_id n)" "[]" path k]
  show "set (nullish (omap_get (pathNodesByKind path) k) []) = {pn_id n | n. n \<in> set path \<and> pn_kind n = k}"
    unfolding pathNodesByKind_tally get by (auto simp: foldl_set_add omap_get_def)
  show "omap_get (pathNodesByKind path) k = None \<longleftrightarrow> (\<forall>n\<in>set path. pn_kind n \<noteq> k)"
    unfolding pathNodesByKind_tally get
    by (simp add: foldl_Some_None omap_get_def filter_empty_conv)
qed

lemma selectedFilters_tally:
  "normalizeSelectedNodeFilters sel stages =
    om.tally filter_kind (\<lambda>f v. set_add (nullish v []) (filter_id f)) []
      (filter (\<lambda>f. filter_kind f \<in> set stages) (nullish sel []))"
proof -
  have "foldl (\<lambda>m f. if filter_kind f \<notin> set stages then m
        else omap_set m (filter_kind f) (set_add (nullish (omap_get m (filter_kind f)) []) (filter_id f))) m fs =
      foldl (\<lambda>m f. omap_set m (filter_kind f) (set_add (nullish (omap_get m (filter_kind f)) []) (filter_id f))) m
        (filter (\<lambda>f. filter_kind f \<in> set stages) fs)" for m and fs :: "FlowNodeFilter list"
    by (induction fs arbitrary: m) auto
  then show ?thesis by (simp add: normalizeSelectedNodeFilters_def om.tally_def)
qed

lemma selectedFilters_get:
  "set (nullish (omap_get (normalizeSelectedNodeFilters sel stages) k) []) =
    {filter_id f | f. f \<in> set (nullish sel []) \<and> filter_kind f = k \<and> k \<in> set stages}"
  unfolding selectedFilters_tally om.get_tally
  by (auto simp: foldl_set_add omap_get_def)

lemma selectedFilters_keys:
  "set (omap_keys (normalizeSelectedNodeFilters sel stages)) =
    {k \<in> set stages. \<exists>f\<in>set (nullish sel []). filter_kind f = k}"
  unfolding selectedFilters_tally om.keys_tally by auto

lemma selectedFilters_wf: "distinct (omap_keys (normalizeSelectedNodeFilters sel stages))"
  unfolding selectedFilters_tally using om.wf_tally [of "[]"] om.wf_empty by (simp add: omap_wf_def)

text \<open>A row passes the filters when, for each visible kind that has a selection, its node of that
  kind is selected.\<close>

definition rowSelected ::
  "FlowNodeFilter list \<Rightarrow> FlowNodeKind list \<Rightarrow> FlowPathContext \<Rightarrow> FlowQuotaDataItem \<Rightarrow> bool" where
  "rowSelected sel stages ctx row \<longleftrightarrow>
     (\<forall>k\<in>set stages. (\<exists>f\<in>set sel. filter_kind f = k) \<longrightarrow>
        \<lparr>filter_kind = k, filter_id = pn_id (NODE_BUILDERS k row ctx)\<rparr> \<in> set sel)"

lemma pathIds_row:
  "k \<in> set stages \<Longrightarrow> \<exists>ids. omap_get (pathNodesByKind (flowPathForStages row stages ctx)) k = Some ids \<and>
    set ids = {pn_id (NODE_BUILDERS k row ctx)}"
proof -
  assume k: "k \<in> set stages"
  let ?p = "flowPathForStages row stages ctx"
  have ex: "\<exists>n\<in>set ?p. pn_kind n = k" using k by (auto simp: flowPathForStages_def)
  then obtain ids where ids: "omap_get (pathNodesByKind ?p) k = Some ids"
    using pathNodesByKind_get(2) [of ?p k] by auto
  have "{pn_id n | n. n \<in> set ?p \<and> pn_kind n = k} = {pn_id (NODE_BUILDERS k row ctx)}"
    using k by (auto simp: flowPathForStages_def)
  with ids show ?thesis using pathNodesByKind_get(1) [of ?p k] by simp
qed

lemma filter_mem_iff:
  "(\<exists>f\<in>S. filter_kind f = k \<and> filter_id f = i) \<longleftrightarrow> \<lparr>filter_kind = k, filter_id = i\<rparr> \<in> S"
proof
  assume "\<exists>f\<in>S. filter_kind f = k \<and> filter_id f = i"
  then obtain f where "f \<in> S" "filter_kind f = k" "filter_id f = i" by blast
  then show "\<lparr>filter_kind = k, filter_id = i\<rparr> \<in> S" by (cases f) simp
qed force

lemma matches_rowSelected:
  "pathMatchesNodeFilters (flowPathForStages row stages ctx) (normalizeSelectedNodeFilters sel stages)
    \<longleftrightarrow> rowSelected (nullish sel []) stages ctx row"
proof -
  let ?F = "normalizeSelectedNodeFilters sel stages"
  have entry: "(case omap_get (pathNodesByKind (flowPathForStages row stages ctx)) k of
        None \<Rightarrow> False | Some pathIds \<Rightarrow> list_ex (\<lambda>i. i \<in> set pathIds) ids)
      \<longleftrightarrow> \<lparr>filter_kind = k, filter_id = pn_id (NODE_BUILDERS k row ctx)\<rparr> \<in> set (nullish sel [])"
    if "(k, ids) \<in> set ?F" for k ids
  proof -
    have get: "omap_get ?F k = Some ids"
      using that selectedFilters_wf by (simp add: omap_get_def)
    have k: "k \<in> set stages" using selectedFilters_keys that by force
    have "set ids = {filter_id f | f. f \<in> set (nullish sel []) \<and> filter_kind f = k}"
      using selectedFilters_get [of sel stages k] get k by simp
    then have "i \<in> set ids \<longleftrightarrow> (\<exists>f\<in>set (nullish sel []). filter_kind f = k \<and> filter_id f = i)" for i
      by auto
    then have "i \<in> set ids \<longleftrightarrow> \<lparr>filter_kind = k, filter_id = i\<rparr> \<in> set (nullish sel [])" for i
      unfolding filter_mem_iff .
    then show ?thesis
      using pathIds_row [OF k, of row ctx] by (auto simp: list_ex_iff)
  qed
  have "pathMatchesNodeFilters (flowPathForStages row stages ctx) ?F \<longleftrightarrow>
      (\<forall>k\<in>set (omap_keys ?F). \<lparr>filter_kind = k, filter_id = pn_id (NODE_BUILDERS k row ctx)\<rparr>
        \<in> set (nullish sel []))"
    unfolding pathMatchesNodeFilters_def list_all_iff using entry by fastforce
  also have "\<dots> \<longleftrightarrow> rowSelected (nullish sel []) stages ctx row"
    unfolding selectedFilters_keys rowSelected_def by auto
  finally show ?thesis .
qed

lemma filterRowsByNodes_eq:
  "filterRowsByNodes rows sel stages ctx = filter (rowSelected (nullish sel []) stages ctx) rows"
proof (cases "normalizeSelectedNodeFilters sel stages = []")
  case True
  then have "rowSelected (nullish sel []) stages ctx row" for row
    using selectedFilters_keys [of sel stages] by (auto simp: rowSelected_def)
  with True show ?thesis by (simp add: filterRowsByNodes_def)
next
  case False
  then show ?thesis
    by (simp add: filterRowsByNodes_def Let_def matches_rowSelected cong: filter_cong)
qed

subsection \<open>Summary\<close>

lemma foldl_summary:
  "foldl (\<lambda>summary row. let metrics = rowMetrics row in
       summary\<lparr>m_quota := m_quota summary + m_quota metrics, m_tokens := m_tokens summary + m_tokens metrics,
               m_requests := m_requests summary + m_requests metrics\<rparr>) s rows =
    \<lparr>m_quota = m_quota s + (\<Sum>r\<leftarrow>rows. m_quota (rowMetrics r)),
     m_tokens = m_tokens s + (\<Sum>r\<leftarrow>rows. m_tokens (rowMetrics r)),
     m_requests = m_requests s + (\<Sum>r\<leftarrow>rows. m_requests (rowMetrics r))\<rparr>"
  by (induction rows arbitrary: s) (simp_all add: Let_def)

lemma buildSummary_metric:
  "metricValue (buildSummary rows) metric = (\<Sum>r\<leftarrow>rows. metricValue (rowMetrics r) metric)"
  by (simp add: buildSummary_def foldl_summary metricValue_def)

section \<open>Properties\<close>

text \<open>Selections of the flow filter combine as facets: a row is kept exactly when, for every
  visible kind with at least one selected node, its own node of that kind is one of the
  selected ones; kinds that are not visible or have no selection do not restrict.\<close>

theorem filterRowsByNodes_facets:
  "row \<in> set (filterRowsByNodes rows sel stages ctx) \<longleftrightarrow>
    row \<in> set rows \<and>
    (\<forall>k\<in>set stages. (\<exists>f\<in>set (nullish sel []). filter_kind f = k) \<longrightarrow>
       \<lparr>filter_kind = k, filter_id = pn_id (NODE_BUILDERS k row ctx)\<rparr> \<in> set (nullish sel []))"
  by (auto simp: filterRowsByNodes_eq rowSelected_def)

theorem filterRowsByNodes_facets_witness:
  "filterRowsByNodes [\<lparr>user_id = None, username = None, node_name = None, use_group = Some (js ''g''),
       token_id = None, token_name = None, channel_id = None, channel_name = None,
       model_name = Some (js ''m''), token_used = None, row_count = None, row_quota = Some 5\<rparr>]
     (Some [\<lparr>filter_kind = ModelKind, filter_id = js ''model:x''\<rparr>]) [GroupKind, ModelKind] None = []"
  (is "filterRowsByNodes [?row] _ _ _ = []")
proof -
  let ?rows = "filterRowsByNodes [?row] (Some [\<lparr>filter_kind = ModelKind, filter_id = js ''model:x''\<rparr>])
    [GroupKind, ModelKind] None"
  have "row \<notin> set ?rows" for row
    using filterRowsByNodes_facets [of row "[?row]" "Some [\<lparr>filter_kind = ModelKind, filter_id = js ''model:x''\<rparr>]"
        "[GroupKind, ModelKind]" None]
    by (auto simp: modelNode_def js_append [symmetric])
  then show ?thesis by (metis list.set_intros(1) list.exhaust)
qed

end
