(* ===== verification/FlowGraph.thy ===== *)
theory FlowGraph
  imports FlowPaths
begin

text \<open>
  The Sankey graph of the usage flow: the middle part of \<open>features/dashboard/lib/flow.ts\<close>
  (colours, accumulation of nodes and links, the limit on the number of nodes, highlighting,
  masking and \<open>buildFlowGraph\<close>). Parameters: \<open>lc\<close> is \<open>localeCompare\<close>, \<open>schemes\<close> the colour
  schemes of the chart library, \<open>fixed2\<close> is \<open>toFixed(2)\<close>. The maps that the code mutates are
  threaded through the definitions.
\<close>

section \<open>Definitions\<close>

subsection \<open>Graph data\<close>

record DashboardFlowNode =
  n_id :: jsstr
  n_label :: jsstr
  n_kind :: FlowNodeKind
  n_value :: jsnum
  n_requests :: jsnum
  n_quota :: jsnum
  n_tokens :: jsnum
  n_color :: jsstr
  n_colorKey :: jsstr
  n_highlighted :: "bool option"
  n_dimmed :: "bool option"

record DashboardFlowLink =
  l_source :: jsstr
  l_target :: jsstr
  l_value :: jsnum
  l_requests :: jsnum
  l_quota :: jsnum
  l_tokens :: jsnum
  l_sourceLabel :: jsstr
  l_targetLabel :: jsstr
  l_color :: jsstr
  l_linkColor :: jsstr
  l_linkAlpha :: jsnum
  l_hoverColor :: jsstr
  l_colorKey :: jsstr
  l_share :: jsnum
  l_highlighted :: "bool option"
  l_dimmed :: "bool option"

record DashboardFlowGraph =
  g_nodes :: "DashboardFlowNode list"
  g_links :: "DashboardFlowLink list"

record FlowLinkSelection =
  sel_source :: jsstr
  sel_target :: jsstr

record PreparedFlowPath =
  pp_path :: "FlowPathNode list"
  pp_metrics :: FlowMetrics

record FlowNodeRank =
  rank_node :: FlowPathNode
  rank_value :: jsnum

record FlowHighlightSets =
  hl_nodes :: "jsstr list"
  hl_links :: "jsstr list"

record FlowGraphOptions =
  topNodeLimit :: "jsnum option"
  overflowMode :: "FlowOverflowMode option"
  otherNodeLabel :: "(FlowNodeKind \<Rightarrow> jsstr) option"
  activeNode :: "FlowNodeFilter option"
  activeLink :: "FlowLinkSelection option"
  maskSensitive :: bool

subsection \<open>Colours\<close>

text \<open>A scheme has an optional limit on the number of values and its entries; an entry that is
  not a string is \<open>None\<close>. The list of the library is not empty.\<close>

type_synonym ColorSchemes = "(nat option \<times> jsstr option list) list"

definition DEFAULT_FLOW_CHART_COLOR :: jsstr where
  "DEFAULT_FLOW_CHART_COLOR = js ''#1664FF''"

definition getDashboardChartColors :: "ColorSchemes \<Rightarrow> nat \<Rightarrow> jsstr list" where
  "getDashboardChartColors schemes domainLength =
     (let scheme = nullish (find (\<lambda>(limit, _). nullish limit 0 = 0 \<or> domainLength \<le> nullish limit 0) schemes)
                     (last schemes) in
      List.map_filter id (snd scheme))"

definition colorAt :: "ColorSchemes \<Rightarrow> nat \<Rightarrow> jsstr list option \<Rightarrow> jsstr" where
  "colorAt schemes index palette =
     (let colors = (case palette of
            Some (c # cs) \<Rightarrow> c # cs | _ \<Rightarrow> getDashboardChartColors schemes (index + 1)) in
      if length colors = 0 then DEFAULT_FLOW_CHART_COLOR else colors ! (index mod length colors))"

definition colorPalette :: "ColorSchemes \<Rightarrow> nat \<Rightarrow> jsstr list option \<Rightarrow> jsstr list" where
  "colorPalette schemes colorCount palette =
     (case palette of
        Some (c # cs) \<Rightarrow> c # cs
      | _ \<Rightarrow>
          let colors = getDashboardChartColors schemes colorCount in
          if length colors > 0 then colors else [DEFAULT_FLOW_CHART_COLOR])"

definition stableColorMap :: "ColorSchemes \<Rightarrow> jsstr list \<Rightarrow> jsstr list option \<Rightarrow> (jsstr, jsstr) omap" where
  "stableColorMap schemes keys palette =
     (let uniqueKeys = dedupe keys;
          colors = colorPalette schemes (length uniqueKeys) palette in
      foldl (\<lambda>m (index, k). omap_set m k (colorAt schemes index (Some colors))) []
        (enumerate 0 uniqueKeys))"

definition alphaColor :: "(jsnum \<Rightarrow> jsstr) \<Rightarrow> jsstr \<Rightarrow> jsnum \<Rightarrow> jsstr \<times> jsnum" where
  "alphaColor fixed2 color alpha =
     (let normalized = trim color;
          hex = (if starts_with normalized (js ''#'') then drop 1 normalized else normalized) in
      if length hex \<noteq> 6 \<or> \<not> list_all (\<lambda>c. hex_digit c \<noteq> None) hex then (normalized, alpha)
      else
        let num = foldl (\<lambda>n c. 16 * n + the (hex_digit c)) 0 hex;
            red = (num div 65536) mod 256; green = (num div 256) mod 256; blue = num mod 256 in
        (js ''rgba('' @ show_nat red @ js '', '' @ show_nat green @ js '', '' @ show_nat blue
          @ js '', '' @ fixed2 alpha @ js '')'', 1))"

subsection \<open>Accumulation\<close>

text \<open>The entry that a node creates, and what a path adds to the entry.\<close>

definition newFlowNode :: "FlowPathNode \<Rightarrow> jsstr \<Rightarrow> jsstr \<Rightarrow> DashboardFlowNode" where
  "newFlowNode pathNode color colorKey =
     \<lparr>n_id = pn_id pathNode, n_label = pn_label pathNode, n_kind = pn_kind pathNode,
      n_value = 0, n_requests = 0, n_quota = 0, n_tokens = 0, n_color = color,
      n_colorKey = colorKey, n_highlighted = None, n_dimmed = None\<rparr>"

definition bumpFlowNode :: "FlowMetrics \<Rightarrow> FlowMetric \<Rightarrow> DashboardFlowNode \<Rightarrow> DashboardFlowNode" where
  "bumpFlowNode metrics metric previous =
     previous\<lparr>n_value := n_value previous + metricValue metrics metric,
              n_requests := n_requests previous + m_requests metrics,
              n_quota := n_quota previous + m_quota metrics,
              n_tokens := n_tokens previous + m_tokens metrics\<rparr>"

definition addNode ::
  "(jsstr, DashboardFlowNode) omap \<Rightarrow> FlowPathNode \<Rightarrow> FlowMetrics \<Rightarrow> FlowMetric \<Rightarrow> jsstr \<Rightarrow> jsstr \<Rightarrow>
   (jsstr, DashboardFlowNode) omap" where
  "addNode m pathNode metrics metric color colorKey =
     (let previous = nullish (omap_get m (pn_id pathNode)) (newFlowNode pathNode color colorKey) in
      omap_set m (pn_id pathNode) (bumpFlowNode metrics metric previous))"

definition pathLinkKey :: "FlowPathNode \<Rightarrow> FlowPathNode \<Rightarrow> jsstr" where
  "pathLinkKey source target = pn_id source @ [0] @ pn_id target"

definition linkStableKey :: "DashboardFlowLink \<Rightarrow> jsstr" where
  "linkStableKey link = l_source link @ [0] @ l_target link"

definition newFlowLink :: "FlowPathNode \<Rightarrow> FlowPathNode \<Rightarrow> jsstr \<Rightarrow> jsstr \<Rightarrow> DashboardFlowLink" where
  "newFlowLink source target color colorKey =
     \<lparr>l_source = pn_id source, l_target = pn_id target, l_value = 0, l_requests = 0,
      l_quota = 0, l_tokens = 0, l_sourceLabel = pn_label source,
      l_targetLabel = pn_label target, l_color = color, l_linkColor = color,
      l_linkAlpha = 1, l_hoverColor = color, l_colorKey = colorKey, l_share = 0,
      l_highlighted = None, l_dimmed = None\<rparr>"

definition bumpFlowLink :: "FlowMetrics \<Rightarrow> FlowMetric \<Rightarrow> DashboardFlowLink \<Rightarrow> DashboardFlowLink" where
  "bumpFlowLink metrics metric previous =
     previous\<lparr>l_value := l_value previous + metricValue metrics metric,
              l_requests := l_requests previous + m_requests metrics,
              l_quota := l_quota previous + m_quota metrics,
              l_tokens := l_tokens previous + m_tokens metrics\<rparr>"

definition addLink ::
  "(jsstr, DashboardFlowLink) omap \<Rightarrow> FlowPathNode \<Rightarrow> FlowPathNode \<Rightarrow> FlowMetrics \<Rightarrow> FlowMetric \<Rightarrow>
   jsstr \<Rightarrow> jsstr \<Rightarrow> (jsstr, DashboardFlowLink) omap" where
  "addLink m source target metrics metric color colorKey =
     (let k = pn_id source @ [0] @ pn_id target;
          previous = nullish (omap_get m k) (newFlowLink source target color colorKey) in
      omap_set m k (bumpFlowLink metrics metric previous))"

subsection \<open>Limit on the nodes of a stage\<close>

definition normalizeTopNodeLimit :: "jsnum option \<Rightarrow> nat option" where
  "normalizeTopNodeLimit limit =
     (case limit of None \<Rightarrow> None | Some l \<Rightarrow> if \<lfloor>l\<rfloor> > 0 then Some (nat \<lfloor>l\<rfloor>) else None)"

definition OTHER_FLOW_NODE_IDS :: "FlowNodeKind \<Rightarrow> jsstr" where
  "OTHER_FLOW_NODE_IDS kind = kindName kind @ js '':__other__''"

fun DEFAULT_OTHER_FLOW_NODE_LABELS :: "FlowNodeKind \<Rightarrow> jsstr" where
  "DEFAULT_OTHER_FLOW_NODE_LABELS UserKind = js ''Other users''"
| "DEFAULT_OTHER_FLOW_NODE_LABELS NodeKind = js ''Other nodes''"
| "DEFAULT_OTHER_FLOW_NODE_LABELS TokenKind = js ''Other tokens''"
| "DEFAULT_OTHER_FLOW_NODE_LABELS GroupKind = js ''Other groups''"
| "DEFAULT_OTHER_FLOW_NODE_LABELS ModelKind = js ''Other models''"
| "DEFAULT_OTHER_FLOW_NODE_LABELS ChannelKind = js ''Other channels''"

definition otherFlowNode :: "FlowNodeKind \<Rightarrow> (FlowNodeKind \<Rightarrow> jsstr) option \<Rightarrow> FlowPathNode" where
  "otherFlowNode kind labeler =
     \<lparr>pn_id = OTHER_FLOW_NODE_IDS kind,
      pn_label = (case labeler of Some f \<Rightarrow> f kind | None \<Rightarrow> DEFAULT_OTHER_FLOW_NODE_LABELS kind),
      pn_kind = kind\<rparr>"

definition rankNode :: "jsnum \<Rightarrow> (jsstr, FlowNodeRank) omap \<Rightarrow> FlowPathNode \<Rightarrow> (jsstr, FlowNodeRank) omap" where
  "rankNode v stageTotals node =
     (let current = nullish (omap_get stageTotals (pn_id node)) \<lparr>rank_node = node, rank_value = 0\<rparr> in
      omap_set stageTotals (pn_id node) (current\<lparr>rank_value := rank_value current + v\<rparr>))"

definition rankRow ::
  "FlowMetric \<Rightarrow> FlowNodeKind list \<Rightarrow> FlowPathContext \<Rightarrow>
   (FlowNodeKind, (jsstr, FlowNodeRank) omap) omap \<Rightarrow> FlowQuotaDataItem \<Rightarrow>
   (FlowNodeKind, (jsstr, FlowNodeRank) omap) omap" where
  "rankRow metric stages ctx totals row =
     foldl (\<lambda>totals node.
         case omap_get totals (pn_kind node) of
           None \<Rightarrow> totals
         | Some stageTotals \<Rightarrow>
             omap_set totals (pn_kind node)
               (rankNode (metricValue (rowMetrics row) metric) stageTotals node))
       totals (flowPathForStages row stages ctx)"

definition compareRanks :: "(jsstr \<Rightarrow> jsstr \<Rightarrow> int) \<Rightarrow> FlowNodeRank \<Rightarrow> FlowNodeRank \<Rightarrow> int" where
  "compareRanks lc a b =
     or_cmp (num_cmp (rank_value b) (rank_value a))
       (or_cmp (lc (pn_label (rank_node a)) (pn_label (rank_node b)))
         (lc (pn_id (rank_node a)) (pn_id (rank_node b))))"

definition topIds :: "(jsstr \<Rightarrow> jsstr \<Rightarrow> int) \<Rightarrow> nat \<Rightarrow> (jsstr, FlowNodeRank) omap \<Rightarrow> jsstr list" where
  "topIds lc limit stageTotals =
     map (\<lambda>rank. pn_id (rank_node rank))
       (slice (js_sort (compareRanks lc) (omap_values stageTotals)) 0 limit)"

definition buildTopNodeSets ::
  "(jsstr \<Rightarrow> jsstr \<Rightarrow> int) \<Rightarrow> FlowQuotaDataItem list \<Rightarrow> FlowMetric \<Rightarrow> FlowNodeKind list \<Rightarrow> nat option \<Rightarrow>
   FlowPathContext \<Rightarrow> (FlowNodeKind, jsstr list) omap option" where
  "buildTopNodeSets lc rows metric stages limit ctx =
     (case limit of
        Some (Suc l) \<Rightarrow>
          let totals = foldl (rankRow metric stages ctx)
                (foldl (\<lambda>m stage. omap_set m stage []) [] stages) rows in
          Some (foldl (\<lambda>m (kind, stageTotals). omap_set m kind (dedupe (topIds lc (Suc l) stageTotals)))
            [] totals)
      | _ \<Rightarrow> None)"

definition isTopFlowNode :: "FlowPathNode \<Rightarrow> (FlowNodeKind, jsstr list) omap option \<Rightarrow> bool" where
  "isTopFlowNode node topNodeSets =
     (case Option.bind topNodeSets (\<lambda>m. omap_get m (pn_kind node)) of
        None \<Rightarrow> True | Some topNodes \<Rightarrow> pn_id node \<in> set topNodes)"

definition applyTopNodeLimit ::
  "FlowPathNode list \<Rightarrow> (FlowNodeKind, jsstr list) omap option \<Rightarrow> FlowOverflowMode \<Rightarrow>
   (FlowNodeKind \<Rightarrow> jsstr) option \<Rightarrow> FlowPathNode list option" where
  "applyTopNodeLimit path topNodeSets mode labeler =
     (if topNodeSets = None then Some path
      else if \<not> list_ex (\<lambda>node. \<not> isTopFlowNode node topNodeSets) path then Some path
      else if mode = Hide then None
      else Some (map (\<lambda>node. if isTopFlowNode node topNodeSets then node
                             else otherFlowNode (pn_kind node) labeler) path))"

subsection \<open>Highlighting\<close>

definition path_links :: "FlowPathNode list \<Rightarrow> (FlowPathNode \<times> FlowPathNode) list" where
  "path_links path = zip path (tl path)"

definition pathContainsFlowNode :: "FlowPathNode list \<Rightarrow> FlowNodeFilter \<Rightarrow> bool" where
  "pathContainsFlowNode path f \<longleftrightarrow>
     list_ex (\<lambda>node. pn_kind node = filter_kind f \<and> pn_id node = filter_id f) path"

definition pathContainsFlowLink :: "FlowPathNode list \<Rightarrow> FlowLinkSelection \<Rightarrow> bool" where
  "pathContainsFlowLink path link \<longleftrightarrow>
     list_ex (\<lambda>(s, t). pn_id s = sel_source link \<and> pn_id t = sel_target link) (path_links path)"

definition matchesPath ::
  "FlowNodeFilter option \<Rightarrow> FlowLinkSelection option \<Rightarrow> FlowPathNode list \<Rightarrow> bool" where
  "matchesPath aNode aLink path =
     (case aLink of
        Some link \<Rightarrow> pathContainsFlowLink path link
      | None \<Rightarrow> (case aNode of Some n \<Rightarrow> pathContainsFlowNode path n | None \<Rightarrow> False))"

definition buildFlowHighlightSets ::
  "PreparedFlowPath list \<Rightarrow> FlowNodeFilter option \<Rightarrow> FlowLinkSelection option \<Rightarrow> FlowNodeKind list \<Rightarrow>
   FlowHighlightSets option" where
  "buildFlowHighlightSets prepared aNode aLink stages =
     (let nodeActive = (case aNode of Some n \<Rightarrow> filter_kind n \<in> set stages | None \<Rightarrow> False) in
      if \<not> nodeActive \<and> aLink = None then None
      else
        let matching = filter (matchesPath aNode aLink) (map pp_path prepared);
            nodes = foldl (foldl (\<lambda>s node. set_add s (pn_id node))) [] matching;
            links = foldl (\<lambda>s path. foldl (\<lambda>s (a, b). set_add s (pathLinkKey a b)) s (path_links path))
              [] matching in
        if length nodes = 0 then None else Some \<lparr>hl_nodes = nodes, hl_links = links\<rparr>)"

definition highlightNode :: "FlowHighlightSets option \<Rightarrow> DashboardFlowNode \<Rightarrow> DashboardFlowNode" where
  "highlightNode sets node =
     (case sets of
        None \<Rightarrow> node
      | Some h \<Rightarrow> node\<lparr>n_highlighted := Some (n_id node \<in> set (hl_nodes h)),
                      n_dimmed := Some (n_id node \<notin> set (hl_nodes h))\<rparr>)"

definition highlightLink :: "FlowHighlightSets option \<Rightarrow> DashboardFlowLink \<Rightarrow> DashboardFlowLink" where
  "highlightLink sets link =
     (case sets of
        None \<Rightarrow> link
      | Some h \<Rightarrow> link\<lparr>l_highlighted := Some (linkStableKey link \<in> set (hl_links h)),
                      l_dimmed := Some (linkStableKey link \<notin> set (hl_links h))\<rparr>)"

definition applyFlowHighlights ::
  "(jsstr, DashboardFlowNode) omap \<Rightarrow> (jsstr, DashboardFlowLink) omap \<Rightarrow> FlowHighlightSets option \<Rightarrow>
   (jsstr, DashboardFlowNode) omap \<times> (jsstr, DashboardFlowLink) omap" where
  "applyFlowHighlights nodes links sets =
     (map (\<lambda>(k, n). (k, highlightNode sets n)) nodes, map (\<lambda>(k, l). (k, highlightLink sets l)) links)"

subsection \<open>Masking\<close>

definition SENSITIVE_FLOW_KINDS :: "FlowNodeKind list" where
  "SENSITIVE_FLOW_KINDS = [UserKind, NodeKind, TokenKind, GroupKind, ChannelKind]"

definition OTHER_FLOW_NODE_ID_SET :: "jsstr list" where
  "OTHER_FLOW_NODE_ID_SET =
     map OTHER_FLOW_NODE_IDS [UserKind, NodeKind, TokenKind, GroupKind, ModelKind, ChannelKind]"

definition FLOW_MASK_TEXT :: jsstr where
  "FLOW_MASK_TEXT = [0x2022, 0x2022, 0x2022, 0x2022]"

definition maskFlowLabel :: "jsstr \<Rightarrow> jsstr" where
  "maskFlowLabel label = (if length label = 0 then label else FLOW_MASK_TEXT)"

definition isMasked :: "DashboardFlowNode \<Rightarrow> bool" where
  "isMasked node \<longleftrightarrow> n_kind node \<in> set SENSITIVE_FLOW_KINDS \<and> n_id node \<notin> set OTHER_FLOW_NODE_ID_SET"

definition maskLink :: "(jsstr, jsstr) omap \<Rightarrow> DashboardFlowLink \<Rightarrow> DashboardFlowLink" where
  "maskLink masked link =
     link\<lparr>l_sourceLabel := nullish (omap_get masked (l_source link)) (l_sourceLabel link),
          l_targetLabel := nullish (omap_get masked (l_target link)) (l_targetLabel link)\<rparr>"

definition maskFlowGraphLabels ::
  "(jsstr, DashboardFlowNode) omap \<Rightarrow> (jsstr, DashboardFlowLink) omap \<Rightarrow>
   (jsstr, DashboardFlowNode) omap \<times> (jsstr, DashboardFlowLink) omap" where
  "maskFlowGraphLabels nodes links =
     (let maskedById = foldl (\<lambda>m n. omap_set m (n_id n) (maskFlowLabel (n_label n))) []
            (filter isMasked (omap_values nodes));
          nodes' = map (\<lambda>(k, n). (k, if isMasked n then n\<lparr>n_label := maskFlowLabel (n_label n)\<rparr> else n)) nodes in
      if length maskedById = 0 then (nodes', links)
      else (nodes', map (\<lambda>(k, l). (k, maskLink maskedById l)) links))"

subsection \<open>The graph\<close>

definition compareByLinkKey ::
  "(jsstr \<Rightarrow> jsstr \<Rightarrow> int) \<Rightarrow> DashboardFlowLink \<Rightarrow> DashboardFlowLink \<Rightarrow> int" where
  "compareByLinkKey lc a b =
     or_cmp (num_cmp (l_value b) (l_value a)) (lc (linkStableKey a) (linkStableKey b))"

text \<open>The display colours of one link of a list: its rank among the links of its source decides
  the opacity.\<close>

definition displayLink ::
  "(jsstr \<Rightarrow> jsstr \<Rightarrow> int) \<Rightarrow> (jsnum \<Rightarrow> jsstr) \<Rightarrow> DashboardFlowLink list \<Rightarrow> DashboardFlowLink \<Rightarrow>
   DashboardFlowLink" where
  "displayLink lc fixed2 links link =
     (let sortedLinks = js_sort (compareByLinkKey lc) (filter (\<lambda>l. l_source l = l_source link) links);
          denominator = of_nat (max (length sortedLinks - 1) 1);
          index = nullish (find_index (\<lambda>l. linkStableKey l = linkStableKey link) sortedLinks) 0;
          alpha = (if length sortedLinks = 1 then 34 / 100
                   else 24 / 100 + (of_nat index / denominator) * (2 / 10));
          displayColor = alphaColor fixed2 (l_color link) alpha in
      link\<lparr>l_linkColor := fst displayColor, l_linkAlpha := snd displayColor,
           l_hoverColor := l_color link\<rparr>)"

definition assignLinkDisplayColors ::
  "(jsstr \<Rightarrow> jsstr \<Rightarrow> int) \<Rightarrow> (jsnum \<Rightarrow> jsstr) \<Rightarrow> DashboardFlowLink list \<Rightarrow> DashboardFlowLink list" where
  "assignLinkDisplayColors lc fixed2 links = map (displayLink lc fixed2 links) links"

definition byValueThenLabel ::
  "(jsstr \<Rightarrow> jsstr \<Rightarrow> int) \<Rightarrow> DashboardFlowNode \<Rightarrow> DashboardFlowNode \<Rightarrow> int" where
  "byValueThenLabel lc a b = or_cmp (num_cmp (n_value b) (n_value a)) (lc (n_label a) (n_label b))"

definition preparePaths ::
  "(jsstr \<Rightarrow> jsstr \<Rightarrow> int) \<Rightarrow> FlowQuotaDataItem list \<Rightarrow> FlowMetric \<Rightarrow> FlowNodeKind list \<Rightarrow>
   FlowPathContext \<Rightarrow> FlowGraphOptions \<Rightarrow> PreparedFlowPath list" where
  "preparePaths lc rows metric stages ctx options =
     (let topNodeSets = buildTopNodeSets lc rows metric stages
            (normalizeTopNodeLimit (topNodeLimit options)) ctx;
          mode = nullish (overflowMode options) Aggregate in
      List.map_filter (\<lambda>row.
          map_option (\<lambda>path. \<lparr>pp_path = path, pp_metrics = rowMetrics row\<rparr>)
            (applyTopNodeLimit (flowPathForStages row stages ctx) topNodeSets mode (otherNodeLabel options)))
        rows)"

text \<open>The first identifiers of the paths; an empty identifier does not count.\<close>

definition rootIds :: "PreparedFlowPath list \<Rightarrow> jsstr list" where
  "rootIds prepared = filter (\<lambda>i. i \<noteq> [])
     (List.map_filter (\<lambda>p. case pp_path p of n # _ \<Rightarrow> Some (pn_id n) | [] \<Rightarrow> None) prepared)"

definition addPath ::
  "ColorSchemes \<Rightarrow> (jsstr, jsstr) omap \<Rightarrow> jsstr list option \<Rightarrow> FlowMetric \<Rightarrow>
   (jsstr, DashboardFlowNode) omap \<times> (jsstr, DashboardFlowLink) omap \<Rightarrow> PreparedFlowPath \<Rightarrow>
   (jsstr, DashboardFlowNode) omap \<times> (jsstr, DashboardFlowLink) omap" where
  "addPath schemes colors palette metric graph prepared =
     (case pp_path prepared of
        [] \<Rightarrow> graph
      | rootNode # _ \<Rightarrow>
          let color = nullish (omap_get colors (pn_id rootNode)) (colorAt schemes 0 palette) in
          (foldl (\<lambda>m node. addNode m node (pp_metrics prepared) metric color (pn_id rootNode))
             (fst graph) (pp_path prepared),
           foldl (\<lambda>m (a, b). addLink m a b (pp_metrics prepared) metric color (pn_id rootNode))
             (snd graph) (path_links (pp_path prepared))))"

text \<open>The maps of nodes and links before masking.\<close>

definition graphMaps ::
  "(jsstr \<Rightarrow> jsstr \<Rightarrow> int) \<Rightarrow> ColorSchemes \<Rightarrow> FlowMetric \<Rightarrow> jsstr list option \<Rightarrow> PreparedFlowPath list \<Rightarrow>
   (jsstr, DashboardFlowNode) omap \<times> (jsstr, DashboardFlowLink) omap" where
  "graphMaps lc schemes metric palette prepared =
     foldl (addPath schemes (stableColorMap schemes (js_sort lc (rootIds prepared)) palette) palette metric)
       ([], []) prepared"

definition buildFlowGraph ::
  "(jsstr \<Rightarrow> jsstr \<Rightarrow> int) \<Rightarrow> ColorSchemes \<Rightarrow> (jsnum \<Rightarrow> jsstr) \<Rightarrow> FlowQuotaDataItem list \<Rightarrow> FlowMetric \<Rightarrow>
   FlowRole \<Rightarrow> jsstr list option \<Rightarrow> FlowNodeKind list option \<Rightarrow> FlowPathContext \<Rightarrow> FlowGraphOptions \<Rightarrow>
   DashboardFlowGraph" where
  "buildFlowGraph lc schemes fixed2 rows metric role palette visibleStages ctx options =
     (let stages = resolveVisibleStages role visibleStages;
          prepared = preparePaths lc rows metric stages ctx options;
          maps = graphMaps lc schemes metric palette prepared;
          masked = (if maskSensitive options then maskFlowGraphLabels (fst maps) (snd maps) else maps);
          sets = buildFlowHighlightSets prepared (activeNode options) (activeLink options) stages;
          shown = applyFlowHighlights (fst masked) (snd masked) sets;
          sortedLinks = js_sort (\<lambda>a b. or_cmp (lc (l_source a) (l_source b)) (lc (l_target a) (l_target b)))
            (omap_values (snd shown));
          total = foldl (\<lambda>sum link. sum + l_value link) 0
            (filter (\<lambda>link. l_source link \<in> set (rootIds prepared)) sortedLinks);
          flowLinks = map (\<lambda>link. link\<lparr>l_share := (if total > 0 then l_value link / total else 0)\<rparr>) sortedLinks in
      \<lparr>g_nodes = js_sort (byValueThenLabel lc) (omap_values (fst shown)),
       g_links = assignLinkDisplayColors lc fixed2 flowLinks\<rparr>)"

section \<open>Accumulators\<close>

lemma sum_omap_set:
  fixes g :: "'v \<Rightarrow> 'b :: ab_group_add"
  assumes "distinct (omap_keys m)"
  shows "(\<Sum>v\<leftarrow>omap_values (omap_set m k v). g v) =
    (\<Sum>v\<leftarrow>omap_values m. g v) + g v - (case omap_get m k of None \<Rightarrow> 0 | Some old \<Rightarrow> g old)"
  using assms
proof (induction m)
  case (Cons p m)
  obtain k' v' where p: "p = (k', v')" by (cases p)
  show ?case
  proof (cases "k' = k")
    case False
    with Cons p show ?thesis by (simp add: omap_get_def split: option.splits)
  qed (simp add: p omap_get_def)
qed (simp add: omap_get_def)

text \<open>
  The contract of a metric accumulator: an entry starts at zero, an element adds its amount, and
  the entry keeps the identity of the element that created it. When the key of an element
  determines its identity, the entries of a map built from a list of elements partition the
  total by identity.
\<close>

locale flow_accumulator =
  fixes key :: "'x \<Rightarrow> 'k"
    and start :: "'x \<Rightarrow> 'e"
    and bump :: "'x \<Rightarrow> 'e \<Rightarrow> 'e"
    and ident :: "'e \<Rightarrow> 'i"
    and xident :: "'x \<Rightarrow> 'i"
    and val :: "'e \<Rightarrow> jsnum"
    and amount :: "'x \<Rightarrow> jsnum"
  assumes val_start: "val (start x) = 0"
    and val_bump: "val (bump x e) = val e + amount x"
    and ident_start: "ident (start x) = xident x"
    and ident_bump: "ident (bump x e) = ident e"
begin

definition accumulate :: "'x list \<Rightarrow> ('k, 'e) omap" where
  "accumulate xs = om.tally key (\<lambda>x v. bump x (nullish v (start x))) [] xs"

lemma accumulate_snoc:
  "accumulate (xs @ [x]) = omap_set (accumulate xs) (key x)
    (bump x (nullish (omap_get (accumulate xs) (key x)) (start x)))"
  by (simp add: accumulate_def om.tally_def)

lemma accumulate_wf: "distinct (omap_keys (accumulate xs))"
  using om.wf_tally [of "[]"] om.wf_empty by (simp add: accumulate_def omap_wf_def)

lemma entry_fold:
  "foldl (\<lambda>v x. Some (bump x (nullish v (start x)))) None ys = Some e \<Longrightarrow>
    val e = (\<Sum>y\<leftarrow>ys. amount y) \<and> ys \<noteq> [] \<and> ident e = xident (hd ys)"
proof (induction ys arbitrary: e rule: rev_induct)
  case (snoc y ys)
  show ?case
  proof (cases "foldl (\<lambda>v x. Some (bump x (nullish v (start x)))) None ys")
    case None
    then have "ys = []" by (cases ys rule: rev_cases) auto
    with snoc.prems show ?thesis by (auto simp: val_bump val_start ident_bump ident_start)
  next
    case (Some e')
    with snoc.IH [OF Some] snoc.prems show ?thesis by (auto simp: val_bump ident_bump)
  qed
qed simp

lemma entry:
  assumes "(k, e) \<in> set (accumulate xs)"
  shows "val e = (\<Sum>x\<leftarrow>xs. if key x = k then amount x else 0)"
    and "\<exists>x\<in>set xs. key x = k \<and> ident e = xident x"
proof -
  have "omap_get (accumulate xs) k = Some e"
    using assms accumulate_wf by (simp add: omap_get_def)
  then have f: "foldl (\<lambda>v x. Some (bump x (nullish v (start x)))) None (filter (\<lambda>x. key x = k) xs) = Some e"
    by (simp add: accumulate_def om.get_tally) (simp add: omap_get_def)
  show "val e = (\<Sum>x\<leftarrow>xs. if key x = k then amount x else 0)"
    using entry_fold [OF f] by (simp add: sum_list_map_filter')
  have "hd (filter (\<lambda>x. key x = k) xs) \<in> set (filter (\<lambda>x. key x = k) xs)"
    using entry_fold [OF f] by (intro hd_in_set) simp
  then show "\<exists>x\<in>set xs. key x = k \<and> ident e = xident x"
    using entry_fold [OF f] by auto
qed

lemma keys_accumulate: "set (omap_keys (accumulate xs)) = key ` set xs"
  unfolding accumulate_def om.keys_tally by simp

text \<open>Key and identity determine each other on the elements.\<close>

definition faithful :: "'x list \<Rightarrow> bool" where
  "faithful xs \<longleftrightarrow> (\<forall>x\<in>set xs. \<forall>y\<in>set xs. key x = key y \<longleftrightarrow> xident x = xident y)"

lemma entry_val:
  assumes "faithful xs" "e \<in> set (omap_values (accumulate xs))"
  shows "val e = (\<Sum>x\<leftarrow>xs. if xident x = ident e then amount x else 0)"
proof -
  obtain k where k: "(k, e) \<in> set (accumulate xs)" using assms(2) by auto
  obtain y where y: "y \<in> set xs" "key y = k" "ident e = xident y" using entry(2) [OF k] by auto
  have "(if key x = k then amount x else 0) = (if xident x = ident e then amount x else 0)"
    if "x \<in> set xs" for x
    using that y assms(1) by (auto simp: faithful_def)
  then have "map (\<lambda>x. if key x = k then amount x else 0) xs =
      map (\<lambda>x. if xident x = ident e then amount x else 0) xs"
    by (intro map_cong) auto
  with entry(1) [OF k] show ?thesis by simp
qed

lemma sum_values:
  assumes "faithful xs"
  shows "(\<Sum>e\<leftarrow>omap_values (accumulate xs). if Q (ident e) then val e else 0) =
    (\<Sum>x\<leftarrow>xs. if Q (xident x) then amount x else 0)"
  using assms
proof (induction xs rule: rev_induct)
  case (snoc x xs)
  let ?g = "\<lambda>e. if Q (ident e) then val e else 0"
  let ?old = "nullish (omap_get (accumulate xs) (key x)) (start x)"
  have f: "faithful xs" using snoc.prems by (auto simp: faithful_def)
  have id_old: "ident ?old = xident x"
  proof (cases "omap_get (accumulate xs) (key x)")
    case (Some e)
    then have "(key x, e) \<in> set (accumulate xs)" by (simp add: omap_get_def map_of_SomeD)
    from entry(2) [OF this] obtain y where "y \<in> set xs" "key y = key x" "ident e = xident y" by auto
    with snoc.prems Some show ?thesis by (auto simp: faithful_def)
  qed (simp add: ident_start)
  have "(\<Sum>e\<leftarrow>omap_values (accumulate (xs @ [x])). ?g e) =
      (\<Sum>e\<leftarrow>omap_values (accumulate xs). ?g e) + ?g (bump x ?old)
        - (case omap_get (accumulate xs) (key x) of None \<Rightarrow> 0 | Some old \<Rightarrow> ?g old)"
    unfolding accumulate_snoc by (rule sum_omap_set [OF accumulate_wf])
  also have "\<dots> = (\<Sum>e\<leftarrow>omap_values (accumulate xs). ?g e) + (if Q (xident x) then amount x else 0)"
    using id_old by (auto simp: val_bump val_start ident_bump split: option.splits)
  finally show ?case using snoc.IH [OF f] by simp
qed (simp add: accumulate_def om.tally_def)

lemma idents_accumulate:
  assumes "faithful xs"
  shows "ident ` set (omap_values (accumulate xs)) = xident ` set xs"
proof (intro subset_antisym subsetI)
  fix i assume "i \<in> ident ` set (omap_values (accumulate xs))"
  then show "i \<in> xident ` set xs" using entry(2) by fastforce
next
  fix i assume "i \<in> xident ` set xs"
  then obtain x where x: "x \<in> set xs" "i = xident x" by auto
  then have "key x \<in> set (omap_keys (accumulate xs))" unfolding keys_accumulate by simp
  then obtain e where e: "(key x, e) \<in> set (accumulate xs)" by auto
  from entry(2) [OF e] obtain y where "y \<in> set xs" "key y = key x" "ident e = xident y" by auto
  with x assms have "ident e = i" by (auto simp: faithful_def)
  with e show "i \<in> ident ` set (omap_values (accumulate xs))" by force
qed

lemma idents_distinct:
  assumes "faithful xs"
  shows "distinct (map ident (omap_values (accumulate xs)))"
proof -
  have "inj_on (\<lambda>(k, e). ident e) (set (accumulate xs))"
  proof (rule inj_onI, clarify)
    fix k e k' e' assume *: "(k, e) \<in> set (accumulate xs)" "(k', e') \<in> set (accumulate xs)"
      "ident e = ident e'"
    obtain x y where "x \<in> set xs" "key x = k" "ident e = xident x"
        "y \<in> set xs" "key y = k'" "ident e' = xident y"
      using entry(2) [OF *(1)] entry(2) [OF *(2)] by auto
    with * assms have "k = k'" unfolding faithful_def by metis
    with * accumulate_wf show "k = k' \<and> e = e'" by (metis eq_key_imp_eq_value)
  qed
  moreover have "distinct (accumulate xs)" using accumulate_wf by (simp add: distinct_map)
  ultimately show ?thesis by (simp add: distinct_map case_prod_beta' comp_def)
qed

end

text \<open>Nodes, links and ranks are accumulated by the same contract.\<close>

interpretation node_acc: flow_accumulator
  "\<lambda>x. pn_id (fst x)" "\<lambda>(n, ms, c, ck). newFlowNode n c ck" "\<lambda>(n, ms, c, ck). bumpFlowNode ms metric"
  "\<lambda>e. (n_id e, n_kind e)" "\<lambda>x. (pn_id (fst x), pn_kind (fst x))" n_value
  "\<lambda>(n, ms, c, ck). metricValue ms metric" for metric
  by unfold_locales (auto simp: newFlowNode_def bumpFlowNode_def)

interpretation link_acc: flow_accumulator
  "\<lambda>x. pathLinkKey (fst (fst x)) (snd (fst x))" "\<lambda>((a, b), ms, c, ck). newFlowLink a b c ck"
  "\<lambda>((a, b), ms, c, ck). bumpFlowLink ms metric" "\<lambda>e. (l_source e, l_target e)"
  "\<lambda>x. (pn_id (fst (fst x)), pn_id (snd (fst x)))" l_value
  "\<lambda>((a, b), ms, c, ck). metricValue ms metric" for metric
  by unfold_locales (auto simp: newFlowLink_def bumpFlowLink_def)

interpretation rank_acc: flow_accumulator
  "\<lambda>x. pn_id (fst x)" "\<lambda>(n, v). \<lparr>rank_node = n, rank_value = 0\<rparr>"
  "\<lambda>(n, v) e. e\<lparr>rank_value := rank_value e + v\<rparr>" "\<lambda>e. pn_id (rank_node e)" "\<lambda>x. pn_id (fst x)"
  rank_value snd
  by unfold_locales (auto simp: case_prod_beta')

section \<open>The accumulated maps\<close>

text \<open>The elements that the paths contribute: nodes and pairs of adjacent nodes, with the metrics,
  the colour and the root of the path.\<close>

definition pathRoot :: "PreparedFlowPath \<Rightarrow> jsstr" where
  "pathRoot p = pn_id (hd (pp_path p))"

definition pathColor ::
  "ColorSchemes \<Rightarrow> (jsstr, jsstr) omap \<Rightarrow> jsstr list option \<Rightarrow> PreparedFlowPath \<Rightarrow> jsstr" where
  "pathColor schemes colors palette p =
     nullish (omap_get colors (pathRoot p)) (colorAt schemes 0 palette)"

definition nodeItems ::
  "(PreparedFlowPath \<Rightarrow> jsstr) \<Rightarrow> PreparedFlowPath list \<Rightarrow>
   (FlowPathNode \<times> FlowMetrics \<times> jsstr \<times> jsstr) list" where
  "nodeItems col ps =
     concat (map (\<lambda>p. map (\<lambda>n. (n, pp_metrics p, col p, pathRoot p)) (pp_path p)) ps)"

definition linkItems ::
  "(PreparedFlowPath \<Rightarrow> jsstr) \<Rightarrow> PreparedFlowPath list \<Rightarrow>
   ((FlowPathNode \<times> FlowPathNode) \<times> FlowMetrics \<times> jsstr \<times> jsstr) list" where
  "linkItems col ps =
     concat (map (\<lambda>p. map (\<lambda>ab. (ab, pp_metrics p, col p, pathRoot p)) (path_links (pp_path p))) ps)"

lemma foldl_addPath:
  defines "col schemes colors palette \<equiv> pathColor schemes colors palette"
  shows "foldl (addPath schemes colors palette metric) (a, b) ps =
    (foldl (\<lambda>m (n, ms, c, ck). addNode m n ms metric c ck) a (nodeItems (col schemes colors palette) ps),
     foldl (\<lambda>m ((s, t), ms, c, ck). addLink m s t ms metric c ck) b (linkItems (col schemes colors palette) ps))"
proof (induction ps arbitrary: a b)
  case (Cons p ps)
  let ?c = "col schemes colors palette"
  have "addPath schemes colors palette metric (a, b) p =
      (foldl (\<lambda>m (n, ms, c, ck). addNode m n ms metric c ck) a
         (map (\<lambda>n. (n, pp_metrics p, ?c p, pathRoot p)) (pp_path p)),
       foldl (\<lambda>m ((s, t), ms, c, ck). addLink m s t ms metric c ck) b
         (map (\<lambda>ab. (ab, pp_metrics p, ?c p, pathRoot p)) (path_links (pp_path p))))"
    by (cases "pp_path p") (auto simp: addPath_def path_links_def foldl_map col_def pathColor_def
      pathRoot_def Let_def case_prod_beta')
  with Cons show ?case by (simp add: nodeItems_def linkItems_def)
qed (simp add: nodeItems_def linkItems_def)

lemma graphMaps_accumulate:
  obtains col where
    "fst (graphMaps lc schemes metric palette ps) = node_acc.accumulate metric (nodeItems col ps)"
    "snd (graphMaps lc schemes metric palette ps) = link_acc.accumulate metric (linkItems col ps)"
proof
  let ?col = "pathColor schemes (stableColorMap schemes (js_sort lc (rootIds ps)) palette) palette"
  show "fst (graphMaps lc schemes metric palette ps) = node_acc.accumulate metric (nodeItems ?col ps)"
    unfolding graphMaps_def foldl_addPath fst_conv node_acc.accumulate_def om.tally_def
    by (simp add: addNode_def case_prod_beta' Let_def)
  show "snd (graphMaps lc schemes metric palette ps) = link_acc.accumulate metric (linkItems ?col ps)"
    unfolding graphMaps_def foldl_addPath snd_conv link_acc.accumulate_def om.tally_def
    by (simp add: addLink_def pathLinkKey_def case_prod_beta' Let_def)
qed

text \<open>Well-formed paths: one node per stage, identifiers with the prefix of their kind and
  without the separator of link keys.\<close>

definition paths_wf :: "FlowNodeKind list \<Rightarrow> PreparedFlowPath list \<Rightarrow> bool" where
  "paths_wf stages ps \<longleftrightarrow> (\<forall>p\<in>set ps. map pn_kind (pp_path p) = stages \<and> list_all node_wf (pp_path p))"

definition no_separator :: "PreparedFlowPath list \<Rightarrow> bool" where
  "no_separator ps \<longleftrightarrow> (\<forall>p\<in>set ps. \<forall>n\<in>set (pp_path p). 0 \<notin> set (pn_id n))"

lemma nodeItems_faithful: "paths_wf stages ps \<Longrightarrow> node_acc.faithful (nodeItems col ps)"
  unfolding node_acc.faithful_def nodeItems_def paths_wf_def
  by (auto simp: list_all_iff) (metis node_wf_kind)

lemma path_links_mem: "(a, b) \<in> set (path_links p) \<Longrightarrow> a \<in> set p \<and> b \<in> set p"
  unfolding path_links_def by (metis in_set_zipE list.set_sel(2) list.sel(2) length_pos_if_in_set length_greater_0_conv)

lemma separator_inj:
  "c \<notin> set a \<Longrightarrow> c \<notin> set a' \<Longrightarrow> a @ c # b = a' @ c # b' \<longleftrightarrow> a = a' \<and> b = b'"
proof (induction a arbitrary: a')
  case Nil
  then show ?case by (cases a') auto
next
  case (Cons x a)
  then show ?case by (cases a') auto
qed

lemma linkItems_faithful: "no_separator ps \<Longrightarrow> link_acc.faithful (linkItems col ps)"
  unfolding link_acc.faithful_def linkItems_def no_separator_def
  by (auto simp: pathLinkKey_def separator_inj dest!: path_links_mem)

end
