(* ===== verification/FlowConservation.thy ===== *)
theory FlowConservation
  imports FlowGraph
begin

text \<open>
  What the Sankey graph of \<open>buildFlowGraph\<close> conserves: the nodes of every stage add up to the
  summary, the links into and out of a node add up to the node, the share of a link is its
  part of the whole, and the limit on the nodes of a stage keeps the largest ones. Masking
  and highlighting change labels and flags only.
\<close>

section \<open>Lemmas\<close>

subsection \<open>Sums\<close>

lemma sum_list_concat_map:
  "(\<Sum>x\<leftarrow>concat xss. f x) = (\<Sum>xs\<leftarrow>xss. \<Sum>x\<leftarrow>xs. f x)" for f :: "'a \<Rightarrow> jsnum"
  by (induction xss) auto

lemma sum_indicator:
  "distinct (map f xs) \<Longrightarrow> (\<Sum>x\<leftarrow>xs. if f x = k then v else 0) = (if k \<in> f ` set xs then v else 0)"
  for v :: jsnum
  by (induction xs) auto

lemma sum_none: "(\<And>x. x \<in> set xs \<Longrightarrow> \<not> P x) \<Longrightarrow> (\<Sum>x\<leftarrow>xs. if P x then v else 0) = 0"
  for v :: jsnum
  by (induction xs) auto

lemma sum_map_cong: "(\<And>x. x \<in> set xs \<Longrightarrow> f x = g x) \<Longrightarrow> (\<Sum>x\<leftarrow>xs. f x) = (\<Sum>x\<leftarrow>xs. g x)"
  for f g :: "'a \<Rightarrow> jsnum"
  by (metis map_cong)

abbreviation pathValue :: "FlowMetric \<Rightarrow> PreparedFlowPath \<Rightarrow> jsnum" where
  "pathValue metric p \<equiv> metricValue (pp_metrics p) metric"

lemma sum_nodeItems:
  "(\<Sum>x\<leftarrow>nodeItems col ps. if Q (pn_id (fst x), pn_kind (fst x))
      then (case x of (n, ms, c, ck) \<Rightarrow> metricValue ms metric) else 0) =
   (\<Sum>p\<leftarrow>ps. \<Sum>n\<leftarrow>pp_path p. if Q (pn_id n, pn_kind n) then pathValue metric p else 0)"
  by (simp add: nodeItems_def sum_list_concat_map comp_def cong: if_cong)

lemma path_links_ends:
  "map fst (path_links path) = butlast path" "map snd (path_links path) = tl path"
proof -
  show "map fst (path_links path) = butlast path"
    by (induction path rule: induct_list012) (auto simp: path_links_def)
  show "map snd (path_links path) = tl path"
    by (simp add: path_links_def map_snd_zip_take)
qed

lemma sum_links_source:
  "(\<Sum>(a, b)\<leftarrow>path_links path. if P a then v else 0) = (\<Sum>a\<leftarrow>butlast path. if P a then v else 0)"
  for v :: jsnum
  unfolding path_links_ends(1) [symmetric] map_map by (simp add: comp_def case_prod_beta')

lemma sum_links_target:
  "(\<Sum>(a, b)\<leftarrow>path_links path. if P b then v else 0) = (\<Sum>b\<leftarrow>tl path. if P b then v else 0)"
  for v :: jsnum
  unfolding path_links_ends(2) [symmetric] map_map by (simp add: comp_def case_prod_beta')

subsection \<open>Prepared paths\<close>

lemma otherFlowNode_wf: "node_wf (otherFlowNode k l)" "pn_kind (otherFlowNode k l) = k"
  by (cases k; simp add: node_wf_def otherFlowNode_def OTHER_FLOW_NODE_IDS_def js_append [symmetric];
    simp add: js_simps)+

lemma applyTopNodeLimit_shape:
  assumes "applyTopNodeLimit path sets mode l = Some path'" "list_all node_wf path"
  shows "map pn_kind path' = map pn_kind path \<and> list_all node_wf path' \<and>
    set path' \<subseteq> set path \<union> range (\<lambda>k. otherFlowNode k l)"
  using assms by (auto simp: applyTopNodeLimit_def list_all_iff otherFlowNode_wf split: if_splits)

lemma preparePaths_mem:
  assumes "p \<in> set (preparePaths lc rows metric stages ctx options)"
  obtains row where "row \<in> set rows" "pp_metrics p = rowMetrics row"
    "map pn_kind (pp_path p) = stages" "list_all node_wf (pp_path p)"
    "set (pp_path p) \<subseteq> set (flowPathForStages row stages ctx)
       \<union> range (\<lambda>k. otherFlowNode k (otherNodeLabel options))"
proof -
  have wf: "list_all node_wf (flowPathForStages row stages ctx)" for row
    by (simp add: list_all_iff flowPathForStages_def builders_wf)
  from assms show ?thesis
    unfolding preparePaths_def Let_def map_filter_def
    using that applyTopNodeLimit_shape [OF _ wf] by fastforce
qed

lemma preparePaths_wf: "paths_wf stages (preparePaths lc rows metric stages ctx options)"
  unfolding paths_wf_def by (blast elim: preparePaths_mem)

text \<open>When nothing is hidden every row has its path.\<close>

lemma preparePaths_aggregate:
  assumes "overflowMode options \<noteq> Some Hide"
  shows "map pp_metrics (preparePaths lc rows metric stages ctx options) = map rowMetrics rows"
proof -
  have "nullish (overflowMode options) Aggregate \<noteq> Hide"
    using assms by (cases "overflowMode options") auto
  then have some: "\<exists>p. applyTopNodeLimit path sets (nullish (overflowMode options) Aggregate) l = Some p"
    for path sets l
    by (simp add: applyTopNodeLimit_def)
  have "map pp_metrics (List.map_filter (\<lambda>row.
          map_option (\<lambda>path. \<lparr>pp_path = path, pp_metrics = rowMetrics row\<rparr>)
            (applyTopNodeLimit (flowPathForStages row stages ctx) sets
              (nullish (overflowMode options) Aggregate) (otherNodeLabel options))) rs) = map rowMetrics rs"
    for sets rs
  proof (induction rs)
    case (Cons r rs)
    then show ?case
      using some [of "flowPathForStages r stages ctx" sets "otherNodeLabel options"]
      by (auto simp: map_filter_simps)
  qed (simp add: map_filter_simps)
  then show ?thesis unfolding preparePaths_def Let_def .
qed

lemma preparePaths_total:
  assumes "overflowMode options \<noteq> Some Hide"
  shows "(\<Sum>p\<leftarrow>preparePaths lc rows metric stages ctx options. pathValue metric p) =
    metricValue (buildSummary rows) metric"
proof -
  have "(\<Sum>p\<leftarrow>preparePaths lc rows metric stages ctx options. pathValue metric p) =
      (\<Sum>m\<leftarrow>map pp_metrics (preparePaths lc rows metric stages ctx options). metricValue m metric)"
    by (simp add: comp_def)
  then show ?thesis
    unfolding preparePaths_aggregate [OF assms] by (simp add: buildSummary_metric comp_def)
qed

subsection \<open>What masking, highlighting and sorting keep\<close>

definition nodeCore :: "DashboardFlowNode \<Rightarrow> jsstr \<times> FlowNodeKind \<times> jsnum" where
  "nodeCore n = (n_id n, n_kind n, n_value n)"

definition linkCore :: "DashboardFlowLink \<Rightarrow> jsstr \<times> jsstr \<times> jsnum" where
  "linkCore l = (l_source l, l_target l, l_value l)"

lemma mask_core:
  "map nodeCore (omap_values (fst (maskFlowGraphLabels nodes links))) = map nodeCore (omap_values nodes)"
  "map linkCore (omap_values (snd (maskFlowGraphLabels nodes links))) = map linkCore (omap_values links)"
  by (auto simp: maskFlowGraphLabels_def maskLink_def nodeCore_def linkCore_def Let_def)

lemma highlight_core:
  "map nodeCore (omap_values (fst (applyFlowHighlights nodes links s))) = map nodeCore (omap_values nodes)"
  "map linkCore (omap_values (snd (applyFlowHighlights nodes links s))) = map linkCore (omap_values links)"
  by (auto simp: applyFlowHighlights_def highlightNode_def highlightLink_def nodeCore_def linkCore_def
    split: option.splits)

text \<open>The paths and the maps of a call of \<open>buildFlowGraph\<close>.\<close>

abbreviation flowPaths where
  "flowPaths lc rows metric role vs ctx options \<equiv>
     preparePaths lc rows metric (resolveVisibleStages role vs) ctx options"

lemma displayLink_core [simp]:
  "linkCore (displayLink lc f ls l) = linkCore l" "l_share (displayLink lc f ls l) = l_share l"
  by (simp_all add: displayLink_def linkCore_def Let_def)

lemma graph_nodes_core:
  "mset (map nodeCore (g_nodes (buildFlowGraph lc sch f2 rows metric role pal vs ctx options))) =
   mset (map nodeCore (omap_values (fst (graphMaps lc sch metric pal
     (flowPaths lc rows metric role vs ctx options)))))"
  unfolding buildFlowGraph_def Let_def DashboardFlowGraph.select_convs mset_map mset_js_sort
  unfolding mset_map [symmetric] highlight_core
  by (cases "maskSensitive options") (simp_all only: if_True if_False mask_core)

lemma assign_core:
  "map linkCore (assignLinkDisplayColors lc f2 (map (\<lambda>l. l\<lparr>l_share := g l\<rparr>) ls)) = map linkCore ls"
  by (simp add: assignLinkDisplayColors_def) (simp add: linkCore_def)

lemma graph_links_core:
  "mset (map linkCore (g_links (buildFlowGraph lc sch f2 rows metric role pal vs ctx options))) =
   mset (map linkCore (omap_values (snd (graphMaps lc sch metric pal
     (flowPaths lc rows metric role vs ctx options)))))"
  unfolding buildFlowGraph_def Let_def DashboardFlowGraph.select_convs assign_core mset_map mset_js_sort
  unfolding mset_map [symmetric] highlight_core
  by (cases "maskSensitive options") (simp_all only: if_True if_False mask_core)

lemma sum_mset_core:
  fixes F :: "'b \<Rightarrow> jsnum"
  assumes "mset (map h xs) = mset (map h ys)"
  shows "(\<Sum>x\<leftarrow>xs. F (h x)) = (\<Sum>y\<leftarrow>ys. F (h y))"
proof -
  have "mset (map F (map h xs)) = mset (map F (map h ys))"
    by (metis assms mset_map)
  then have "sum_list (map F (map h xs)) = sum_list (map F (map h ys))"
    by (metis sum_mset_sum_list)
  then show ?thesis by (simp add: comp_def)
qed

lemma set_mset_core: "mset (map h xs) = mset (map h ys) \<Longrightarrow> h ` set xs = h ` set ys"
  by (metis list.set_map set_mset_mset)

text \<open>Sums over the graph, as sums over the paths.\<close>

lemma graph_nodes_sum:
  "(\<Sum>n\<leftarrow>g_nodes (buildFlowGraph lc sch f2 rows metric role pal vs ctx options).
      if Q (n_id n, n_kind n) then n_value n else 0) =
   (\<Sum>p\<leftarrow>flowPaths lc rows metric role vs ctx options. \<Sum>n\<leftarrow>pp_path p.
      if Q (pn_id n, pn_kind n) then pathValue metric p else 0)"
proof -
  let ?ps = "flowPaths lc rows metric role vs ctx options"
  obtain col where col: "fst (graphMaps lc sch metric pal ?ps) = node_acc.accumulate metric (nodeItems col ?ps)"
    by (rule graphMaps_accumulate)
  have "(\<Sum>n\<leftarrow>g_nodes (buildFlowGraph lc sch f2 rows metric role pal vs ctx options).
        if Q (n_id n, n_kind n) then n_value n else 0) =
      (\<Sum>n\<leftarrow>omap_values (fst (graphMaps lc sch metric pal ?ps)).
        if Q (n_id n, n_kind n) then n_value n else 0)"
    using sum_mset_core [OF graph_nodes_core, where F = "\<lambda>(i, k, v). if Q (i, k) then v else 0"]
    by (simp add: nodeCore_def)
  also have "\<dots> = (\<Sum>p\<leftarrow>?ps. \<Sum>n\<leftarrow>pp_path p.
      if Q (pn_id n, pn_kind n) then pathValue metric p else 0)"
    unfolding col node_acc.sum_values [OF nodeItems_faithful [OF preparePaths_wf]] sum_nodeItems ..
  finally show ?thesis .
qed

lemma graph_links_sum:
  assumes "no_separator (flowPaths lc rows metric role vs ctx options)"
  shows "(\<Sum>l\<leftarrow>g_links (buildFlowGraph lc sch f2 rows metric role pal vs ctx options).
      if Q (l_source l, l_target l) then l_value l else 0) =
   (\<Sum>p\<leftarrow>flowPaths lc rows metric role vs ctx options. \<Sum>(a, b)\<leftarrow>path_links (pp_path p).
      if Q (pn_id a, pn_id b) then pathValue metric p else 0)"
proof -
  let ?ps = "flowPaths lc rows metric role vs ctx options"
  obtain col where col: "snd (graphMaps lc sch metric pal ?ps) = link_acc.accumulate metric (linkItems col ?ps)"
    by (rule graphMaps_accumulate)
  have "(\<Sum>l\<leftarrow>g_links (buildFlowGraph lc sch f2 rows metric role pal vs ctx options).
        if Q (l_source l, l_target l) then l_value l else 0) =
      (\<Sum>l\<leftarrow>omap_values (snd (graphMaps lc sch metric pal ?ps)).
        if Q (l_source l, l_target l) then l_value l else 0)"
    using sum_mset_core [OF graph_links_core, where F = "\<lambda>(i, k, v). if Q (i, k) then v else 0"]
    by (simp add: linkCore_def)
  also have "\<dots> = (\<Sum>p\<leftarrow>?ps. \<Sum>(a, b)\<leftarrow>path_links (pp_path p).
      if Q (pn_id a, pn_id b) then pathValue metric p else 0)"
    unfolding col link_acc.sum_values [OF linkItems_faithful [OF assms]]
    by (simp add: linkItems_def sum_list_concat_map comp_def case_prod_beta' cong: if_cong)
  finally show ?thesis .
qed

lemma graph_node_entry:
  assumes "n \<in> set (g_nodes (buildFlowGraph lc sch f2 rows metric role pal vs ctx options))"
  obtains col e where
    "e \<in> set (omap_values (node_acc.accumulate metric
       (nodeItems col (flowPaths lc rows metric role vs ctx options))))"
    "n_id e = n_id n" "n_kind e = n_kind n" "n_value e = n_value n"
proof -
  let ?ps = "flowPaths lc rows metric role vs ctx options"
  obtain col where col: "fst (graphMaps lc sch metric pal ?ps) = node_acc.accumulate metric (nodeItems col ?ps)"
    by (rule graphMaps_accumulate)
  have "nodeCore ` set (g_nodes (buildFlowGraph lc sch f2 rows metric role pal vs ctx options))
      = nodeCore ` set (omap_values (node_acc.accumulate metric (nodeItems col ?ps)))"
    unfolding col [symmetric] by (rule set_mset_core [OF graph_nodes_core])
  with imageI [OF assms, of nodeCore]
  have "nodeCore n \<in> nodeCore ` set (omap_values (node_acc.accumulate metric (nodeItems col ?ps)))"
    by simp
  then obtain e where "e \<in> set (omap_values (node_acc.accumulate metric (nodeItems col ?ps)))"
      "nodeCore n = nodeCore e"
    by (rule imageE)
  with that [of e col] show ?thesis by (simp add: nodeCore_def)
qed

text \<open>A node of the graph is a node of some path, and its value is that of the paths through it.\<close>

lemma graph_node_path:
  assumes "n \<in> set (g_nodes (buildFlowGraph lc sch f2 rows metric role pal vs ctx options))"
  obtains p m where "p \<in> set (flowPaths lc rows metric role vs ctx options)" "m \<in> set (pp_path p)"
    "pn_id m = n_id n" "pn_kind m = n_kind n" "node_wf m"
proof -
  let ?ps = "flowPaths lc rows metric role vs ctx options"
  have wf: "paths_wf (resolveVisibleStages role vs) ?ps" by (rule preparePaths_wf)
  from assms obtain col e where e: "e \<in> set (omap_values (node_acc.accumulate metric (nodeItems col ?ps)))"
    "n_id e = n_id n" "n_kind e = n_kind n"
    by (rule graph_node_entry)
  have "(n_id e, n_kind e) \<in> (\<lambda>x. (pn_id (fst x), pn_kind (fst x))) ` set (nodeItems col ?ps)"
    unfolding node_acc.idents_accumulate [OF nodeItems_faithful [OF wf], of metric, symmetric]
    by (rule imageI [OF e(1)])
  then obtain p m where "p \<in> set ?ps" "m \<in> set (pp_path p)" "pn_id m = n_id n" "pn_kind m = n_kind n"
    using e(2,3) by (auto simp: nodeItems_def)
  moreover from this have "node_wf m" using wf by (auto simp: paths_wf_def list_all_iff)
  ultimately show ?thesis by (rule that)
qed

lemma path_same_id:
  assumes "paths_wf stages ps" "p \<in> set ps" "x \<in> set (pp_path p)" "node_wf m"
  shows "pn_id x = pn_id m \<longleftrightarrow> (pn_id x, pn_kind x) = (pn_id m, pn_kind m)"
proof -
  have "node_wf x" using assms(1-3) by (auto simp: paths_wf_def list_all_iff)
  then show ?thesis using node_wf_kind [OF _ assms(4)] by auto
qed

lemma graph_node_value:
  assumes "n \<in> set (g_nodes (buildFlowGraph lc sch f2 rows metric role pal vs ctx options))"
  shows "n_value n = (\<Sum>p\<leftarrow>flowPaths lc rows metric role vs ctx options. \<Sum>m\<leftarrow>pp_path p.
      if pn_id m = n_id n then pathValue metric p else 0)"
proof -
  let ?ps = "flowPaths lc rows metric role vs ctx options"
  have wf: "paths_wf (resolveVisibleStages role vs) ?ps" by (rule preparePaths_wf)
  from assms obtain col e where e: "e \<in> set (omap_values (node_acc.accumulate metric (nodeItems col ?ps)))"
    "n_id e = n_id n" "n_kind e = n_kind n" "n_value e = n_value n"
    by (rule graph_node_entry)
  from assms obtain q m where m: "pn_id m = n_id n" "pn_kind m = n_kind n" "node_wf m"
    by (rule graph_node_path)
  have "n_value n = (\<Sum>x\<leftarrow>nodeItems col ?ps. if (pn_id (fst x), pn_kind (fst x)) = (n_id e, n_kind e)
      then (case x of (n, ms, c, ck) \<Rightarrow> metricValue ms metric) else 0)"
    unfolding e(4) [symmetric] by (rule node_acc.entry_val [OF nodeItems_faithful [OF wf] e(1)])
  also have "\<dots> = (\<Sum>p\<leftarrow>?ps. \<Sum>x\<leftarrow>pp_path p.
      if (pn_id x, pn_kind x) = (n_id e, n_kind e) then pathValue metric p else 0)"
    by (rule sum_nodeItems [where Q = "\<lambda>i. i = (n_id e, n_kind e)"])
  also have "\<dots> = (\<Sum>p\<leftarrow>?ps. \<Sum>x\<leftarrow>pp_path p. if pn_id x = n_id n then pathValue metric p else 0)"
  proof (rule sum_map_cong, rule sum_map_cong)
    fix p x assume "p \<in> set ?ps" "x \<in> set (pp_path p)"
    from path_same_id [OF wf this m(3)] show
      "(if (pn_id x, pn_kind x) = (n_id e, n_kind e) then pathValue metric p else 0)
        = (if pn_id x = n_id n then pathValue metric p else 0)"
      unfolding e m(1,2) by simp
  qed
  finally show ?thesis .
qed

subsection \<open>Flow through a path\<close>

text \<open>The shape of a prepared path of a call: at least two nodes, one per stage.\<close>

lemma flowPath_shape:
  assumes "p \<in> set (flowPaths lc rows metric role vs ctx options)"
  shows "pp_path p \<noteq> []" and "length (pp_path p) \<ge> 2" and "distinct (map pn_kind (pp_path p))"
    and "pn_kind (hd (pp_path p)) = hd (resolveVisibleStages role vs)"
    and "pn_kind (last (pp_path p)) = last (resolveVisibleStages role vs)"
    and "\<forall>m\<in>set (pp_path p). node_wf m"
proof -
  let ?stages = "resolveVisibleStages role vs"
  have wf: "map pn_kind (pp_path p) = ?stages" "list_all node_wf (pp_path p)"
    using assms preparePaths_wf [of ?stages] by (auto simp: paths_wf_def)
  show len: "length (pp_path p) \<ge> 2"
    using wf(1) resolveVisibleStages_facts(2) [of role vs] by (metis MIN_FLOW_STAGES_def length_map)
  then show ne: "pp_path p \<noteq> []" by auto
  show "distinct (map pn_kind (pp_path p))"
    unfolding wf(1) by (rule resolveVisibleStages_facts(1))
  show "pn_kind (hd (pp_path p)) = hd ?stages" "pn_kind (last (pp_path p)) = last ?stages"
    using wf(1) ne by (metis hd_map, metis last_map)
  show "\<forall>m\<in>set (pp_path p). node_wf m" using wf(2) by (simp add: list_all_iff)
qed

lemma path_outflow:
  fixes v :: jsnum
  assumes "p \<in> set (flowPaths lc rows metric role vs ctx options)"
    and "node_wf m" "pn_kind m \<noteq> last (resolveVisibleStages role vs)"
  shows "(\<Sum>(a, b)\<leftarrow>path_links (pp_path p). if pn_id a = pn_id m then v else 0) =
    (\<Sum>x\<leftarrow>pp_path p. if pn_id x = pn_id m then v else 0)" (is "_ = ?s (pp_path p)")
proof -
  note shape = flowPath_shape [OF assms(1)]
  have "pn_id (last (pp_path p)) \<noteq> pn_id m"
    using node_wf_kind [OF _ assms(2)] shape assms(3) by (metis last_in_set)
  then have "?s (butlast (pp_path p) @ [last (pp_path p)]) = ?s (butlast (pp_path p))" by simp
  then show ?thesis using sum_links_source shape(1) by simp
qed

lemma path_inflow:
  fixes v :: jsnum
  assumes "p \<in> set (flowPaths lc rows metric role vs ctx options)"
    and "node_wf m" "pn_kind m \<noteq> hd (resolveVisibleStages role vs)"
  shows "(\<Sum>(a, b)\<leftarrow>path_links (pp_path p). if pn_id b = pn_id m then v else 0) =
    (\<Sum>x\<leftarrow>pp_path p. if pn_id x = pn_id m then v else 0)" (is "_ = ?s (pp_path p)")
proof -
  note shape = flowPath_shape [OF assms(1)]
  have "pn_id (hd (pp_path p)) \<noteq> pn_id m"
    using node_wf_kind [OF _ assms(2)] shape assms(3) by (metis hd_in_set)
  then have "?s (hd (pp_path p) # tl (pp_path p)) = ?s (tl (pp_path p))" by simp
  then show ?thesis using sum_links_target shape(1) by simp
qed

text \<open>The links out of the first stage carry each path once.\<close>

lemma rootIds_mem:
  "i \<in> set (rootIds (flowPaths lc rows metric role vs ctx options)) \<longleftrightarrow>
    (\<exists>p\<in>set (flowPaths lc rows metric role vs ctx options). pn_id (hd (pp_path p)) = i)"
proof -
  let ?ps = "flowPaths lc rows metric role vs ctx options"
  have ne: "pp_path p \<noteq> [] \<and> pn_id (hd (pp_path p)) \<noteq> []" if "p \<in> set ?ps" for p
  proof -
    have "node_wf (hd (pp_path p))" using flowPath_shape(1,6) [OF that] hd_in_set by blast
    moreover have "kindPrefix k \<noteq> []" for k by (cases k) simp_all
    ultimately show ?thesis using flowPath_shape(1) [OF that] by (auto simp: node_wf_def)
  qed
  have "List.map_filter (\<lambda>p. case pp_path p of n # _ \<Rightarrow> Some (pn_id n) | [] \<Rightarrow> None) ps
      = map (\<lambda>p. pn_id (hd (pp_path p))) ps" if "\<forall>p\<in>set ps. pp_path p \<noteq> []" for ps
    using that by (induction ps) (auto simp: map_filter_simps neq_Nil_conv)
  with ne show ?thesis unfolding rootIds_def by force
qed

lemma path_rootflow:
  fixes v :: jsnum
  assumes "p \<in> set (flowPaths lc rows metric role vs ctx options)"
  shows "(\<Sum>(a, b)\<leftarrow>path_links (pp_path p).
      if pn_id a \<in> set (rootIds (flowPaths lc rows metric role vs ctx options)) then v else 0) = v"
proof -
  let ?R = "set (rootIds (flowPaths lc rows metric role vs ctx options))"
  note shape = flowPath_shape [OF assms]
  obtain h n rest where path: "pp_path p = h # n # rest"
    using shape(2) by (cases "pp_path p"; cases "tl (pp_path p)") auto
  have kind: "pn_kind x = hd (resolveVisibleStages role vs)" if "x \<in> set (pp_path p)" "pn_id x \<in> ?R" for x
  proof -
    from that(2) obtain q where q: "q \<in> set (flowPaths lc rows metric role vs ctx options)"
        "pn_id (hd (pp_path q)) = pn_id x"
      unfolding rootIds_mem by (rule bexE)
    note wf = bspec [OF shape(6) that(1)]
      bspec [OF flowPath_shape(6) [OF q(1)] hd_in_set [OF flowPath_shape(1) [OF q(1)]]]
    show ?thesis
      using node_wf_kind [OF wf q(2) [symmetric]] flowPath_shape(4) [OF q(1)] by simp
  qed
  have "pn_id x \<notin> ?R" if "x \<in> set (butlast (n # rest))" for x
  proof
    assume R: "pn_id x \<in> ?R"
    have x: "x \<in> set (n # rest)" using that by (rule in_set_butlastD)
    then have "x \<in> set (pp_path p)" unfolding path by (rule list.set_intros)
    then have "pn_kind x = hd (resolveVisibleStages role vs)" using R by (rule kind)
    moreover have "pn_kind h = hd (resolveVisibleStages role vs)" using shape(4) by (simp add: path)
    moreover have "pn_kind h \<notin> pn_kind ` set (n # rest)" using shape(3) by (simp add: path)
    moreover have "pn_kind x \<in> pn_kind ` set (n # rest)" using x by (rule imageI)
    ultimately show False by simp
  qed
  then have "(\<Sum>x\<leftarrow>butlast (n # rest). if pn_id x \<in> ?R then v else 0) = 0"
    by (intro sum_none) blast
  moreover have "pn_id h \<in> ?R"
    unfolding rootIds_mem by (rule bexI [OF _ assms]) (simp add: path)
  ultimately show ?thesis unfolding sum_links_source path by simp
qed

lemma foldl_link_sum:
  "foldl (\<lambda>sum link. sum + l_value link) x (filter P ls) = x + (\<Sum>l\<leftarrow>ls. if P l then l_value l else 0)"
  by (induction ls arbitrary: x) auto

lemma graph_links_root_total:
  assumes "no_separator (flowPaths lc rows metric role vs ctx options)"
  shows "(\<Sum>l\<leftarrow>g_links (buildFlowGraph lc sch f2 rows metric role pal vs ctx options).
      if l_source l \<in> set (rootIds (flowPaths lc rows metric role vs ctx options)) then l_value l else 0)
    = (\<Sum>p\<leftarrow>flowPaths lc rows metric role vs ctx options. pathValue metric p)"
    (is "?sum = _")
proof -
  let ?ps = "flowPaths lc rows metric role vs ctx options"
  have "?sum = (\<Sum>p\<leftarrow>?ps. \<Sum>(a, b)\<leftarrow>path_links (pp_path p).
      if pn_id a \<in> set (rootIds ?ps) then pathValue metric p else 0)"
    using graph_links_sum [OF assms, where Q = "\<lambda>(s, t). s \<in> set (rootIds ?ps)"] by simp
  also have "\<dots> = (\<Sum>p\<leftarrow>?ps. pathValue metric p)"
    by (rule sum_map_cong) (rule path_rootflow)
  finally show ?thesis .
qed

lemma graph_link_share:
  assumes "l \<in> set (g_links (buildFlowGraph lc sch f2 rows metric role pal vs ctx options))"
    and "no_separator (flowPaths lc rows metric role vs ctx options)"
  shows "l_share l = (let total = \<Sum>p\<leftarrow>flowPaths lc rows metric role vs ctx options. pathValue metric p in
    if total > 0 then l_value l / total else 0)"
proof -
  let ?ps = "flowPaths lc rows metric role vs ctx options"
  let ?G = "buildFlowGraph lc sch f2 rows metric role pal vs ctx options"
  let ?R = "set (rootIds ?ps)"
  have "\<exists>xs. g_links ?G = assignLinkDisplayColors lc f2 (map (\<lambda>link. link\<lparr>l_share :=
      (if 0 < (\<Sum>l\<leftarrow>xs. if l_source l \<in> ?R then l_value l else 0)
       then l_value link / (\<Sum>l\<leftarrow>xs. if l_source l \<in> ?R then l_value l else 0) else 0)\<rparr>) xs)"
    unfolding buildFlowGraph_def Let_def foldl_link_sum DashboardFlowGraph.select_convs add_0
    by (rule exI) (rule refl)
  then obtain xs where xs: "g_links ?G = assignLinkDisplayColors lc f2 (map (\<lambda>link. link\<lparr>l_share :=
      (if 0 < (\<Sum>l\<leftarrow>xs. if l_source l \<in> ?R then l_value l else 0)
       then l_value link / (\<Sum>l\<leftarrow>xs. if l_source l \<in> ?R then l_value l else 0) else 0)\<rparr>) xs)"
    by blast
  let ?T = "\<Sum>l\<leftarrow>xs. if l_source l \<in> ?R then l_value l else 0"
  have "mset (map linkCore (g_links ?G)) = mset (map linkCore xs)" unfolding xs assign_core ..
  from sum_mset_core [OF this, where F = "\<lambda>(s, t, v). if s \<in> ?R then v else 0"]
  have "?T = (\<Sum>l\<leftarrow>g_links ?G. if l_source l \<in> ?R then l_value l else 0)" by (simp add: linkCore_def)
  also have "\<dots> = (\<Sum>p\<leftarrow>?ps. pathValue metric p)"
    by (rule graph_links_root_total [OF assms(2)])
  finally have T: "?T = (\<Sum>p\<leftarrow>?ps. pathValue metric p)" .
  from assms(1) obtain x where "x \<in> set xs" "linkCore l = linkCore x"
      "l_share l = (if 0 < ?T then l_value x / ?T else 0)"
    unfolding xs assignLinkDisplayColors_def by (auto simp: linkCore_def) (auto simp: displayLink_def Let_def)
  then show ?thesis by (simp add: linkCore_def T)
qed

lemma graph_stage_paths:
  assumes "K \<in> set (resolveVisibleStages role vs)"
  shows "(\<Sum>n\<leftarrow>g_nodes (buildFlowGraph lc sch f2 rows metric role pal vs ctx options).
      if n_kind n = K then n_value n else 0) =
    (\<Sum>p\<leftarrow>flowPaths lc rows metric role vs ctx options. pathValue metric p)"
proof -
  let ?ps = "flowPaths lc rows metric role vs ctx options"
  have inner: "(\<Sum>n\<leftarrow>pp_path p. if pn_kind n = K then pathValue metric p else 0) = pathValue metric p"
    if "p \<in> set ?ps" for p
  proof -
    have "map pn_kind (pp_path p) = resolveVisibleStages role vs"
      using that preparePaths_wf [of "resolveVisibleStages role vs"] by (auto simp: paths_wf_def)
    then have "K \<in> pn_kind ` set (pp_path p)" using assms by (metis list.set_map)
    with sum_indicator [OF flowPath_shape(3) [OF that], of K "pathValue metric p"] show ?thesis by simp
  qed
  have "(\<Sum>n\<leftarrow>g_nodes (buildFlowGraph lc sch f2 rows metric role pal vs ctx options).
      if n_kind n = K then n_value n else 0) =
      (\<Sum>p\<leftarrow>?ps. \<Sum>n\<leftarrow>pp_path p. if pn_kind n = K then pathValue metric p else 0)"
    using graph_nodes_sum [where Q = "\<lambda>(i, k). k = K"] by simp
  also have "\<dots> = (\<Sum>p\<leftarrow>?ps. pathValue metric p)" by (rule sum_map_cong) (rule inner)
  finally show ?thesis .
qed

lemma graph_stage_total:
  assumes "overflowMode options \<noteq> Some Hide" and "K \<in> set (resolveVisibleStages role vs)"
  shows "(\<Sum>n\<leftarrow>g_nodes (buildFlowGraph lc sch f2 rows metric role pal vs ctx options).
      if n_kind n = K then n_value n else 0) = metricValue (buildSummary rows) metric"
  unfolding graph_stage_paths [OF assms(2)] by (rule preparePaths_total [OF assms(1)])

text \<open>The separator of link keys does not occur in the paths when it does not occur in the rows.\<close>

lemma no_separator_rows:
  assumes "\<forall>row\<in>set rows. \<forall>k. 0 \<notin> set (pn_id (NODE_BUILDERS k row ctx))"
  shows "no_separator (flowPaths lc rows metric role vs ctx options)"
proof -
  have other: "0 \<notin> set (pn_id (otherFlowNode k l))" for k l
    by (cases k) (simp_all add: otherFlowNode_def OTHER_FLOW_NODE_IDS_def js_simps jsc_def)
  show ?thesis
    unfolding no_separator_def
  proof (intro ballI)
    fix p m assume p: "p \<in> set (flowPaths lc rows metric role vs ctx options)" and m: "m \<in> set (pp_path p)"
    from p obtain row where row: "row \<in> set rows" "set (pp_path p) \<subseteq>
        set (flowPathForStages row (resolveVisibleStages role vs) ctx)
        \<union> range (\<lambda>k. otherFlowNode k (otherNodeLabel options))"
      by (rule preparePaths_mem)
    from subsetD [OF row(2) m] show "0 \<notin> set (pn_id m)"
    proof
      assume "m \<in> set (flowPathForStages row (resolveVisibleStages role vs) ctx)"
      then obtain k where "m = NODE_BUILDERS k row ctx" by (auto simp: kind_mem_path)
      with assms row(1) show ?thesis by simp
    qed (use other in auto)
  qed
qed

subsection \<open>The largest nodes of a stage\<close>

text \<open>The value of an identifier in a stage.\<close>

definition stageValue ::
  "FlowMetric \<Rightarrow> FlowPathContext \<Rightarrow> FlowNodeKind \<Rightarrow> FlowQuotaDataItem list \<Rightarrow> jsstr \<Rightarrow> jsnum" where
  "stageValue metric ctx K rows i =
     (\<Sum>row\<leftarrow>rows. if pn_id (NODE_BUILDERS K row ctx) = i then metricValue (rowMetrics row) metric else 0)"

lemma get_foldl_rank:
  "omap_get (foldl (\<lambda>totals node. case omap_get totals (pn_kind node) of
         None \<Rightarrow> totals
       | Some st \<Rightarrow> omap_set totals (pn_kind node) (rankNode v st node)) totals path) K =
   map_option (\<lambda>st. foldl (\<lambda>st node. if pn_kind node = K then rankNode v st node else st) st path)
     (omap_get totals K)"
proof (induction path arbitrary: totals)
  case (Cons n path)
  then show ?case
    by (cases "omap_get totals (pn_kind n)"; cases "pn_kind n = K") (auto simp: om.get_set)
qed (simp add: option.map_ident)

lemma foldl_one:
  "distinct (map f xs) \<Longrightarrow> x \<in> set xs \<Longrightarrow>
    foldl (\<lambda>s y. if f y = f x then g s y else s) s xs = g s x"
proof (induction xs arbitrary: s)
  case (Cons y xs)
  have skip: "foldl (\<lambda>s y. if f y = f x then g s y else s) s' xs = s'" if "f x \<notin> f ` set xs" for s'
    using that by (induction xs) auto
  show ?case
  proof (cases "x = y")
    case True
    with Cons.prems skip show ?thesis by auto
  next
    case False
    with Cons.prems have "x \<in> set xs" by simp
    with Cons False show ?thesis by (auto simp: image_iff)
  qed
qed simp

lemma get_rankRows:
  assumes "distinct stages" "K \<in> set stages"
  shows "omap_get (foldl (rankRow metric stages ctx) totals rows) K =
    map_option (\<lambda>st. foldl (\<lambda>st row. rankNode (metricValue (rowMetrics row) metric) st (NODE_BUILDERS K row ctx))
      st rows) (omap_get totals K)"
proof (induction rows arbitrary: totals)
  case (Cons row rows)
  let ?v = "metricValue (rowMetrics row) metric"
  let ?path = "flowPathForStages row stages ctx"
  have "distinct (map pn_kind ?path)" using assms(1) by simp
  moreover have "NODE_BUILDERS K row ctx \<in> set ?path" using assms(2) by (auto simp: flowPathForStages_def)
  ultimately have "foldl (\<lambda>st node. if pn_kind node = K then rankNode ?v st node else st) st ?path
      = rankNode ?v st (NODE_BUILDERS K row ctx)" for st
    using foldl_one [of pn_kind ?path "NODE_BUILDERS K row ctx" "rankNode ?v" st] by simp
  then have "omap_get (rankRow metric stages ctx totals row) K =
      map_option (\<lambda>st. rankNode ?v st (NODE_BUILDERS K row ctx)) (omap_get totals K)"
    unfolding rankRow_def get_foldl_rank by simp
  with Cons show ?case by (cases "omap_get totals K") auto
qed (simp add: option.map_ident)

lemma foldl_omap_set_map:
  "distinct (omap_keys xs) \<Longrightarrow> set (omap_keys acc) \<inter> set (omap_keys xs) = {} \<Longrightarrow>
    foldl (\<lambda>m (k, v). omap_set m k (f v)) acc xs = acc @ map (\<lambda>(k, v). (k, f v)) xs"
proof (induction xs arbitrary: acc)
  case (Cons p xs)
  obtain k v where p: "p = (k, v)" by (cases p)
  have snoc: "omap_set acc k x = acc @ [(k, x)]" if "k \<notin> set (omap_keys acc)" for x
    using that by (induction acc) auto
  from Cons p show ?case by (auto simp: snoc)
qed simp

lemma init_totals:
  "omap_get (foldl (\<lambda>m stage. omap_set m stage e) m stages) K =
    (if K \<in> set stages then Some e else omap_get m K)"
  by (induction stages arbitrary: m) (auto simp: om.get_set)

lemma omap_keys_update: "omap_get m k = Some v \<Longrightarrow> omap_keys (omap_set m k x) = omap_keys m"
  using om.get_keys [of m k] by (simp add: omap_keys_set)

lemma rankRow_keys: "omap_keys (rankRow metric stages ctx totals row) = omap_keys totals"
proof -
  have "omap_keys (foldl (\<lambda>totals node. case omap_get totals (pn_kind node) of None \<Rightarrow> totals
         | Some st \<Rightarrow> omap_set totals (pn_kind node) (rankNode v st node)) totals path) = omap_keys totals"
    for v path
    by (induction path arbitrary: totals) (simp_all add: omap_keys_update split: option.splits)
  then show ?thesis unfolding rankRow_def .
qed

lemma rankRows_keys: "omap_keys (foldl (rankRow metric stages ctx) totals rows) = omap_keys totals"
  by (induction rows arbitrary: totals) (simp_all add: rankRow_keys)

lemma init_totals_wf:
  "distinct (omap_keys m) \<Longrightarrow> distinct (omap_keys (foldl (\<lambda>m stage. omap_set m stage e) m stages))"
  by (induction stages arbitrary: m) (simp_all add: omap_keys_set)

text \<open>The ranks of a stage, as an accumulation over the rows.\<close>

definition stageRanks ::
  "FlowMetric \<Rightarrow> FlowPathContext \<Rightarrow> FlowNodeKind \<Rightarrow> FlowQuotaDataItem list \<Rightarrow> (jsstr, FlowNodeRank) omap" where
  "stageRanks metric ctx K rows =
     rank_acc.accumulate (map (\<lambda>row. (NODE_BUILDERS K row ctx, metricValue (rowMetrics row) metric)) rows)"

lemma topSets_get:
  assumes "distinct stages" "K \<in> set stages"
    and "buildTopNodeSets lc rows metric stages (Some (Suc l)) ctx = Some sets"
  shows "omap_get sets K = Some (dedupe (topIds lc (Suc l) (stageRanks metric ctx K rows)))"
proof -
  let ?init = "foldl (\<lambda>m stage. omap_set m stage []) [] stages"
  let ?totals = "foldl (rankRow metric stages ctx) ?init rows"
  have wf: "distinct (omap_keys ?totals)" unfolding rankRows_keys by (rule init_totals_wf) simp
  have "sets = map (\<lambda>(k, v). (k, dedupe (topIds lc (Suc l) v))) ?totals"
    using assms(3) foldl_omap_set_map [OF wf, of "[]" "\<lambda>v. dedupe (topIds lc (Suc l) v)"] by (simp add: buildTopNodeSets_def Let_def)
  then have "omap_get sets K = map_option (\<lambda>v. dedupe (topIds lc (Suc l) v)) (omap_get ?totals K)"
    by (simp add: omap_get_def map_of_map)
  moreover have "omap_get ?totals K = Some (stageRanks metric ctx K rows)"
    unfolding get_rankRows [OF assms(1,2)] init_totals stageRanks_def rank_acc.accumulate_def om.tally_def
    using assms(2) by (simp add: foldl_map rankNode_def Let_def)
  ultimately show ?thesis by simp
qed

lemma stageRanks_facts:
  "e \<in> set (omap_values (stageRanks metric ctx K rows)) \<Longrightarrow>
    rank_value e = stageValue metric ctx K rows (pn_id (rank_node e))"
  "(\<lambda>e. pn_id (rank_node e)) ` set (omap_values (stageRanks metric ctx K rows))
    = (\<lambda>row. pn_id (NODE_BUILDERS K row ctx)) ` set rows"
  "distinct (map (\<lambda>e. pn_id (rank_node e)) (omap_values (stageRanks metric ctx K rows)))"
proof -
  let ?xs = "map (\<lambda>row. (NODE_BUILDERS K row ctx, metricValue (rowMetrics row) metric)) rows"
  have f: "rank_acc.faithful ?xs" by (simp add: rank_acc.faithful_def)
  show "e \<in> set (omap_values (stageRanks metric ctx K rows)) \<Longrightarrow>
      rank_value e = stageValue metric ctx K rows (pn_id (rank_node e))"
    unfolding stageRanks_def by (drule rank_acc.entry_val [OF f]) (simp add: stageValue_def comp_def cong: if_cong)
  show "(\<lambda>e. pn_id (rank_node e)) ` set (omap_values (stageRanks metric ctx K rows))
      = (\<lambda>row. pn_id (NODE_BUILDERS K row ctx)) ` set rows"
    unfolding stageRanks_def rank_acc.idents_accumulate [OF f] by (simp add: image_image)
  show "distinct (map (\<lambda>e. pn_id (rank_node e)) (omap_values (stageRanks metric ctx K rows)))"
    unfolding stageRanks_def by (rule rank_acc.idents_distinct [OF f])
qed

lemma sorted_take_drop:
  "sorted_wrt R xs \<Longrightarrow> x \<in> set (take n xs) \<Longrightarrow> y \<in> set (drop n xs) \<Longrightarrow> R x y"
  by (metis append_take_drop_id sorted_wrt_append)

lemma topIds_facts:
  fixes lc metric ctx K rows
  defines "T l \<equiv> topIds lc l (stageRanks metric ctx K rows)"
  shows "distinct (T l)" and "length (T l) \<le> l"
    and "set (T l) \<subseteq> (\<lambda>row. pn_id (NODE_BUILDERS K row ctx)) ` set rows"
    and "length (T l) < l \<Longrightarrow> set (T l) = (\<lambda>row. pn_id (NODE_BUILDERS K row ctx)) ` set rows"
    and "i \<in> set (T l) \<Longrightarrow> row \<in> set rows \<Longrightarrow> pn_id (NODE_BUILDERS K row ctx) \<notin> set (T l) \<Longrightarrow>
      stageValue metric ctx K rows (pn_id (NODE_BUILDERS K row ctx)) \<le> stageValue metric ctx K rows i"
proof -
  let ?V = "omap_values (stageRanks metric ctx K rows)"
  let ?S = "js_sort (compareRanks lc) ?V"
  let ?i = "\<lambda>e. pn_id (rank_node e)"
  have T: "T l = take l (map ?i ?S)" for l by (simp add: T_def topIds_def slice_def take_map)
  have ids: "set (map ?i ?S) = (\<lambda>row. pn_id (NODE_BUILDERS K row ctx)) ` set rows"
    using stageRanks_facts(2) [of metric ctx K rows] by simp
  have "mset (map ?i ?S) = mset (map ?i ?V)" by (metis mset_map mset_js_sort)
  then have "distinct (map ?i ?S)" using stageRanks_facts(3) by (metis mset_eq_imp_distinct_iff)
  then show "distinct (T l)" unfolding T by (rule distinct_take)
  show "length (T l) \<le> l" unfolding T by simp
  show "set (T l) \<subseteq> (\<lambda>row. pn_id (NODE_BUILDERS K row ctx)) ` set rows"
    unfolding T ids [symmetric] by (rule set_take_subset)
  show "length (T l) < l \<Longrightarrow> set (T l) = (\<lambda>row. pn_id (NODE_BUILDERS K row ctx)) ` set rows"
    unfolding T ids [symmetric] by simp
  have sorted: "sorted_wrt (\<lambda>a b. rank_value a \<ge> rank_value b) ?S"
    unfolding compareRanks_def by (rule desc.ordered_js_sort)
  assume i: "i \<in> set (T l)" and row: "row \<in> set rows" "pn_id (NODE_BUILDERS K row ctx) \<notin> set (T l)"
  obtain e where e: "e \<in> set (take l ?S)" "?i e = i" using i by (auto simp: T take_map)
  have "pn_id (NODE_BUILDERS K row ctx) \<in> set (map ?i ?S)" using row(1) ids by simp
  then obtain e' where e': "e' \<in> set ?S" "?i e' = pn_id (NODE_BUILDERS K row ctx)"
    by (metis (no_types, lifting) imageE list.set_map)
  have "e' \<notin> set (take l ?S)" using row(2) unfolding T take_map e'(2) [symmetric] by auto
  with e'(1) have "e' \<in> set (drop l ?S)" by (metis Un_iff append_take_drop_id set_append)
  from sorted_take_drop [OF sorted e(1) this] have "rank_value e \<ge> rank_value e'" .
  moreover have "e \<in> set ?V" "e' \<in> set ?V" using in_set_takeD [OF e(1)] e'(1) by simp_all
  ultimately show "stageValue metric ctx K rows (pn_id (NODE_BUILDERS K row ctx))
      \<le> stageValue metric ctx K rows i"
    using stageRanks_facts(1) e(2) e'(2) by metis
qed

subsection \<open>Hidden rows\<close>

text \<open>In the hide mode with a limit, a row is left out when one of its nodes is not among the largest of its stage.\<close>

definition hiddenRows ::
  "(jsstr \<Rightarrow> jsstr \<Rightarrow> int) \<Rightarrow> FlowQuotaDataItem list \<Rightarrow> FlowMetric \<Rightarrow> FlowNodeKind list \<Rightarrow> FlowPathContext \<Rightarrow>
   jsnum option \<Rightarrow> FlowOverflowMode option \<Rightarrow> FlowQuotaDataItem list" where
  "hiddenRows lc rows metric stages ctx limit mode =
     (case (normalizeTopNodeLimit limit, mode) of
        (Some l, Some Hide) \<Rightarrow> filter (\<lambda>row. \<exists>K\<in>set stages.
          pn_id (NODE_BUILDERS K row ctx) \<notin> set (topIds lc l (stageRanks metric ctx K rows))) rows
      | _ \<Rightarrow> [])"

lemma isTop_row:
  assumes "distinct stages" "K \<in> set stages"
  shows "isTopFlowNode (NODE_BUILDERS K row ctx) (buildTopNodeSets lc rows metric stages (Some (Suc l)) ctx) \<longleftrightarrow>
    pn_id (NODE_BUILDERS K row ctx) \<in> set (topIds lc (Suc l) (stageRanks metric ctx K rows))"
proof -
  obtain sets where sets: "buildTopNodeSets lc rows metric stages (Some (Suc l)) ctx = Some sets"
    by (simp add: buildTopNodeSets_def Let_def)
  show ?thesis using topSets_get [OF assms sets] unfolding sets by (simp add: isTopFlowNode_def)
qed

lemma limit_positive: "normalizeTopNodeLimit limit = Some l \<Longrightarrow> \<exists>k. l = Suc k"
  by (cases l) (auto simp: normalizeTopNodeLimit_def split: option.splits if_splits)

lemma row_hidden:
  assumes "distinct stages"
  shows "applyTopNodeLimit (flowPathForStages row stages ctx)
      (buildTopNodeSets lc rows metric stages (normalizeTopNodeLimit limit) ctx) (nullish mode Aggregate) f = None \<longleftrightarrow>
    (\<exists>l. normalizeTopNodeLimit limit = Some l \<and> mode = Some Hide \<and> (\<exists>K\<in>set stages.
      pn_id (NODE_BUILDERS K row ctx) \<notin> set (topIds lc l (stageRanks metric ctx K rows))))"
proof (cases "normalizeTopNodeLimit limit")
  case None
  then show ?thesis by (simp add: applyTopNodeLimit_def buildTopNodeSets_def)
next
  case (Some l)
  then obtain k where k: "l = Suc k" using limit_positive by blast
  have "mode = Some Hide \<longleftrightarrow> nullish mode Aggregate = Hide" by (cases mode) auto
  moreover have "buildTopNodeSets lc rows metric stages (Some (Suc k)) ctx \<noteq> None"
    by (simp add: buildTopNodeSets_def Let_def)
  moreover have "list_ex (\<lambda>n. \<not> isTopFlowNode n (buildTopNodeSets lc rows metric stages (Some (Suc k)) ctx))
      (flowPathForStages row stages ctx) \<longleftrightarrow> (\<exists>K\<in>set stages.
        pn_id (NODE_BUILDERS K row ctx) \<notin> set (topIds lc (Suc k) (stageRanks metric ctx K rows)))"
    using isTop_row [OF assms] by (auto simp: list_ex_iff flowPathForStages_def)
  ultimately show ?thesis unfolding Some k by (auto simp: applyTopNodeLimit_def)
qed

text \<open>A hidden row has a node with as many larger nodes in its stage as the limit admits.\<close>

lemma hidden_dominated:
  assumes "row \<in> set (hiddenRows lc rows metric stages ctx limit mode)"
  shows "mode = Some Hide \<and> (\<exists>K\<in>set stages. \<exists>T. normalizeTopNodeLimit limit = Some (card T) \<and>
    T \<subseteq> (\<lambda>row. pn_id (NODE_BUILDERS K row ctx)) ` set rows - {pn_id (NODE_BUILDERS K row ctx)} \<and>
    (\<forall>i\<in>T. stageValue metric ctx K rows (pn_id (NODE_BUILDERS K row ctx)) \<le> stageValue metric ctx K rows i))"
proof -
  obtain l K where l: "normalizeTopNodeLimit limit = Some l" "mode = Some Hide" "row \<in> set rows" "K \<in> set stages"
    "pn_id (NODE_BUILDERS K row ctx) \<notin> set (topIds lc l (stageRanks metric ctx K rows))"
    using assms unfolding hiddenRows_def
    by (cases "normalizeTopNodeLimit limit") (auto split: option.splits FlowOverflowMode.splits)
  let ?T = "topIds lc l (stageRanks metric ctx K rows)"
  note top = topIds_facts [where lc = lc and metric = metric and ctx = ctx and K = K and rows = rows and l = l]
  have "\<not> length ?T < l" using top(4) l(3,5) by blast
  then have "card (set ?T) = l" using top(1,2) by (simp add: distinct_card)
  then show ?thesis using l top(3) top(5) [OF _ l(3,5)] by (intro conjI bexI [of _ K] exI [of _ "set ?T"]) auto
qed

lemma map_filter_sum:
  fixes g :: "'a \<Rightarrow> jsnum"
  assumes "\<And>x y. f x = Some y \<Longrightarrow> h y = g x"
  shows "(\<Sum>y\<leftarrow>List.map_filter f xs. h y) + (\<Sum>x\<leftarrow>filter (\<lambda>x. f x = None) xs. g x) = (\<Sum>x\<leftarrow>xs. g x)"
proof (induction xs)
  case (Cons x xs)
  then show ?case using assms by (cases "f x") (auto simp: map_filter_simps)
qed (simp add: map_filter_simps)

lemma preparePaths_accounts:
  assumes "distinct stages"
  shows "(\<Sum>p\<leftarrow>preparePaths lc rows metric stages ctx options. pathValue metric p) +
      (\<Sum>row\<leftarrow>hiddenRows lc rows metric stages ctx (topNodeLimit options) (overflowMode options). metricValue (rowMetrics row) metric) =
    metricValue (buildSummary rows) metric"
proof -
  let ?hid = "\<lambda>row. \<exists>l. normalizeTopNodeLimit (topNodeLimit options) = Some l \<and> overflowMode options = Some Hide \<and> (\<exists>K\<in>set stages.
      pn_id (NODE_BUILDERS K row ctx) \<notin> set (topIds lc l (stageRanks metric ctx K rows)))"
  have "hiddenRows lc rows metric stages ctx (topNodeLimit options) (overflowMode options) = filter ?hid rows"
    by (auto simp: hiddenRows_def split: option.splits FlowOverflowMode.splits)
  moreover have "(\<lambda>row. map_option (\<lambda>path. \<lparr>pp_path = path, pp_metrics = rowMetrics row\<rparr>)
      (applyTopNodeLimit (flowPathForStages row stages ctx)
        (buildTopNodeSets lc rows metric stages (normalizeTopNodeLimit (topNodeLimit options)) ctx)
        (nullish (overflowMode options) Aggregate) (otherNodeLabel options)) = None) = ?hid"
    by (rule ext) (simp only: option.map_disc_iff row_hidden [OF assms])
  ultimately show ?thesis
    unfolding preparePaths_def Let_def buildSummary_metric
    by (subst map_filter_sum [symmetric, where h = "pathValue metric" and f = "\<lambda>row. map_option (\<lambda>path. \<lparr>pp_path = path, pp_metrics = rowMetrics row\<rparr>)
      (applyTopNodeLimit (flowPathForStages row stages ctx)
        (buildTopNodeSets lc rows metric stages (normalizeTopNodeLimit (topNodeLimit options)) ctx)
        (nullish (overflowMode options) Aggregate) (otherNodeLabel options))"]) auto
qed

subsection \<open>Masking\<close>

lemma js_sort_map:
  assumes "\<And>a b. cmp (f a) (f b) = cmp' a b"
  shows "js_sort cmp (map f xs) = map f (js_sort cmp' xs)"
proof -
  have "insert_cmp cmp (f x) (map f ys) = map f (insert_cmp cmp' x ys)" for x ys
    by (induction ys) (simp_all add: assms)
  then show ?thesis by (induction xs) (simp_all add: js_sort_def)
qed

text \<open>A label is hidden unless it is the name of a model or of an aggregate.\<close>

definition AGGREGATE_IDS :: "jsstr list" where
  "AGGREGATE_IDS = [js ''user:__other__'', js ''node:__other__'', js ''token:__other__'', js ''group:__other__'',
     js ''model:__other__'', js ''channel:__other__'']"

definition hidesLabel :: "DashboardFlowNode \<Rightarrow> bool" where
  "hidesLabel n \<longleftrightarrow> n_kind n \<noteq> ModelKind \<and> n_id n \<notin> set AGGREGATE_IDS"

definition hiddenLabel :: "jsstr \<Rightarrow> jsstr" where
  "hiddenLabel l = (if l = [] then [] else [0x2022, 0x2022, 0x2022, 0x2022])"

lemma isMasked_hides: "isMasked = hidesLabel"
proof
  fix n :: DashboardFlowNode
  have "n_kind n \<in> set SENSITIVE_FLOW_KINDS \<longleftrightarrow> n_kind n \<noteq> ModelKind"
    by (cases "n_kind n") (simp_all add: SENSITIVE_FLOW_KINDS_def)
  then show "isMasked n = hidesLabel n"
    by (simp add: isMasked_def hidesLabel_def AGGREGATE_IDS_def OTHER_FLOW_NODE_ID_SET_def OTHER_FLOW_NODE_IDS_def js_append [symmetric])
qed

lemma maskFlowLabel_eq: "maskFlowLabel = hiddenLabel"
  by (auto simp: maskFlowLabel_def hiddenLabel_def FLOW_MASK_TEXT_def)

definition hideNode :: "DashboardFlowNode \<Rightarrow> DashboardFlowNode" where
  "hideNode n = (if hidesLabel n then n\<lparr>n_label := hiddenLabel (n_label n)\<rparr> else n)"

definition hiddenLabels :: "DashboardFlowNode list \<Rightarrow> (jsstr, jsstr) omap" where
  "hiddenLabels ns = foldl (\<lambda>m n. omap_set m (n_id n) (hiddenLabel (n_label n))) [] (filter hidesLabel ns)"

lemma maskLink_none [simp]: "maskLink [] l = l"
  by (simp add: maskLink_def omap_get_def)

lemma mask_values:
  "omap_values (fst (maskFlowGraphLabels nodes links)) = map hideNode (omap_values nodes)"
  "omap_values (snd (maskFlowGraphLabels nodes links)) = map (maskLink (hiddenLabels (omap_values nodes))) (omap_values links)"
  by (auto simp: maskFlowGraphLabels_def Let_def isMasked_hides maskFlowLabel_eq hideNode_def hiddenLabels_def comp_def)

lemma highlight_values:
  "omap_values (fst (applyFlowHighlights nodes links s)) = map (highlightNode s) (omap_values nodes)"
  "omap_values (snd (applyFlowHighlights nodes links s)) = map (highlightLink s) (omap_values links)"
  by (auto simp: applyFlowHighlights_def)

lemma highlight_hide: "highlightNode s (hideNode n) = hideNode (highlightNode s n)"
  by (simp add: highlightNode_def hideNode_def hidesLabel_def split: option.split)

lemma maskLink_simps [simp]:
  "l_source (maskLink m l) = l_source l" "l_target (maskLink m l) = l_target l" "l_value (maskLink m l) = l_value l"
  "l_color (maskLink m l) = l_color l" "linkStableKey (maskLink m l) = linkStableKey l"
  by (simp_all add: maskLink_def linkStableKey_def)

lemma highlight_mask: "highlightLink s (maskLink m l) = maskLink m (highlightLink s l)"
  by (simp add: highlightLink_def maskLink_def linkStableKey_def split: option.split)

lemma find_index_map: "find_index P (map f xs) = find_index (P \<circ> f) xs"
  by (induction xs) simp_all

lemma display_mask: "displayLink lc f2 (map (maskLink m) ls) (maskLink m l) = maskLink m (displayLink lc f2 ls l)"
proof -
  have "js_sort (compareByLinkKey lc) (filter (\<lambda>k. l_source k = l_source l) (map (maskLink m) ls)) =
      map (maskLink m) (js_sort (compareByLinkKey lc) (filter (\<lambda>k. l_source k = l_source l) ls))"
    by (simp add: filter_map comp_def js_sort_map [of "compareByLinkKey lc" "maskLink m" "compareByLinkKey lc"] compareByLinkKey_def)
  then show ?thesis
    by (simp add: displayLink_def Let_def find_index_map comp_def) (simp add: maskLink_def)
qed

lemma paths_unmasked:
  "flowPaths lc rows metric role vs ctx (options\<lparr>maskSensitive := b\<rparr>) = flowPaths lc rows metric role vs ctx options"
  by (simp add: preparePaths_def)

lemma option_simps:
  "activeNode (options\<lparr>maskSensitive := b\<rparr>) = activeNode options" "activeLink (options\<lparr>maskSensitive := b\<rparr>) = activeLink options"
  "maskSensitive (options\<lparr>maskSensitive := b\<rparr>) = b"
  by simp_all

lemmas graph_steps = buildFlowGraph_def Let_def paths_unmasked DashboardFlowGraph.select_convs option_simps if_True if_False
  highlight_values mask_values

lemma masked_nodes:
  "mset (g_nodes (buildFlowGraph lc sch f2 rows metric role pal vs ctx (options\<lparr>maskSensitive := True\<rparr>))) =
   mset (map hideNode (g_nodes (buildFlowGraph lc sch f2 rows metric role pal vs ctx (options\<lparr>maskSensitive := False\<rparr>))))"
  unfolding graph_steps unfolding mset_map mset_js_sort
  by (simp add: highlight_hide image_mset.compositionality comp_def)

lemma masked_links:
  fixes lc sch metric pal rows role vs ctx options
  defines "ns \<equiv> omap_values (fst (graphMaps lc sch metric pal (flowPaths lc rows metric role vs ctx options)))"
  shows "g_links (buildFlowGraph lc sch f2 rows metric role pal vs ctx (options\<lparr>maskSensitive := True\<rparr>)) =
    map (maskLink (hiddenLabels ns))
      (g_links (buildFlowGraph lc sch f2 rows metric role pal vs ctx (options\<lparr>maskSensitive := False\<rparr>)))"
proof -
  let ?m = "hiddenLabels ns" and ?cmp = "\<lambda>a b. or_cmp (lc (l_source a) (l_source b)) (lc (l_target a) (l_target b))"
  have sort: "js_sort ?cmp (map (maskLink ?m) xs) = map (maskLink ?m) (js_sort ?cmp xs)" for xs
    by (rule js_sort_map) simp
  have high: "map (highlightLink h) (map (maskLink ?m) xs) = map (maskLink ?m) (map (highlightLink h) xs)" for h xs
    by (simp add: highlight_mask)
  have total: "foldl (\<lambda>sum link. sum + l_value link) t (filter (\<lambda>l. l_source l \<in> R) (map (maskLink ?m) xs)) =
      foldl (\<lambda>sum link. sum + l_value link) t (filter (\<lambda>l. l_source l \<in> R) xs)" for t R xs
    by (induction xs arbitrary: t) simp_all
  have share: "map (\<lambda>l. l\<lparr>l_share := if b then l_value l / z else 0\<rparr>) (map (maskLink ?m) xs) =
      map (maskLink ?m) (map (\<lambda>l. l\<lparr>l_share := if b then l_value l / z else 0\<rparr>) xs)" for b z xs
    by (simp add: maskLink_def)
  have assign: "assignLinkDisplayColors lc f2 (map (maskLink ?m) xs) = map (maskLink ?m) (assignLinkDisplayColors lc f2 xs)" for xs
    by (simp add: assignLinkDisplayColors_def display_mask)
  show ?thesis
    unfolding graph_steps ns_def [symmetric] high sort total share assign ..
qed

definition hiddenIds :: "DashboardFlowNode list \<Rightarrow> jsstr set" where
  "hiddenIds ns = n_id ` {n \<in> set ns. hidesLabel n}"

lemma hiddenLabels_get:
  "omap_get (hiddenLabels ns) i = None \<longleftrightarrow> i \<notin> hiddenIds ns"
  "omap_get (hiddenLabels ns) i = Some t \<Longrightarrow> t \<in> range hiddenLabel"
proof -
  have none: "omap_get (foldl (\<lambda>m n. omap_set m (n_id n) (hiddenLabel (n_label n))) acc xs) i = None \<longleftrightarrow>
      omap_get acc i = None \<and> i \<notin> n_id ` set xs" for acc and xs :: "DashboardFlowNode list"
    by (induction xs arbitrary: acc) (auto simp: om.get_set)
  have some: "omap_get (foldl (\<lambda>m n. omap_set m (n_id n) (hiddenLabel (n_label n))) acc xs) i = Some t \<Longrightarrow>
      omap_get acc i = Some t \<or> t \<in> range hiddenLabel" for acc and xs :: "DashboardFlowNode list"
    by (induction xs arbitrary: acc) (fastforce simp: om.get_set split: if_splits)+
  show "omap_get (hiddenLabels ns) i = None \<longleftrightarrow> i \<notin> hiddenIds ns"
    using none [of "[]" "filter hidesLabel ns"] by (auto simp: hiddenLabels_def hiddenIds_def omap_get_def)
  show "omap_get (hiddenLabels ns) i = Some t \<Longrightarrow> t \<in> range hiddenLabel"
    using some [of "[]" "filter hidesLabel ns"] by (auto simp: hiddenLabels_def omap_get_def)
qed

text \<open>The label at an end of a link: hidden when the node there is, and otherwise unchanged.\<close>

definition endLabel :: "jsstr set \<Rightarrow> jsstr \<Rightarrow> jsstr \<Rightarrow> jsstr \<Rightarrow> bool" where
  "endLabel ids i new old = (if i \<in> ids then new \<in> range hiddenLabel else new = old)"

lemma maskLink_ends:
  "endLabel (hiddenIds ns) (l_source l) (l_sourceLabel (maskLink (hiddenLabels ns) l)) (l_sourceLabel l)"
  "endLabel (hiddenIds ns) (l_target l) (l_targetLabel (maskLink (hiddenLabels ns) l)) (l_targetLabel l)"
  using hiddenLabels_get [of ns "l_source l"] hiddenLabels_get [of ns "l_target l"]
  by (cases "omap_get (hiddenLabels ns) (l_source l)"; cases "omap_get (hiddenLabels ns) (l_target l)";
    simp add: endLabel_def maskLink_def)+

lemma hiddenIds_core:
  assumes "nodeCore ` set ns = nodeCore ` set ns'"
  shows "hiddenIds ns = hiddenIds ns'"
proof -
  have "hiddenIds ns = {i. \<exists>k v. (i, k, v) \<in> nodeCore ` set ns \<and> k \<noteq> ModelKind \<and> i \<notin> set AGGREGATE_IDS}" for ns
    by (force simp: hiddenIds_def nodeCore_def hidesLabel_def)
  then show ?thesis using assms by simp
qed

subsection \<open>An example\<close>

definition exampleRow :: FlowQuotaDataItem where
  "exampleRow = \<lparr>user_id = None, username = None, node_name = None, use_group = Some (js ''g''),
     token_id = Some 3, token_name = Some (js ''t''), channel_id = None, channel_name = None,
     model_name = Some (js ''m''), token_used = None, row_count = Some 1, row_quota = Some 5\<rparr>"

definition exampleOptions :: "bool \<Rightarrow> FlowGraphOptions" where
  "exampleOptions b = \<lparr>topNodeLimit = None, overflowMode = None, otherNodeLabel = None, activeNode = None,
     activeLink = None, maskSensitive = b\<rparr>"

definition exampleGraph :: "bool \<Rightarrow> DashboardFlowGraph" where
  "exampleGraph b = buildFlowGraph (\<lambda>_ _. 0) [(None, [Some (js ''#123456'')])] (\<lambda>_. [])
     [exampleRow] QuotaMetric UserRole None None None (exampleOptions b)"

lemma example_no_separator: "\<forall>row\<in>set [exampleRow]. \<forall>k. 0 \<notin> set (pn_id (NODE_BUILDERS k row None))"
proof -
  have "0 \<notin> set (pn_id (NODE_BUILDERS k exampleRow None))" for k
    by (cases k) (simp_all add: exampleRow_def userNode_def nodeNameNode_def tokenNode_def groupNode_def
      modelNode_def channelNode_def numberValue_def or_str_def show_int_def show_nat.simps
      digit_char_def js_simps jsc_def Let_def)
  then show ?thesis by simp
qed

lemma example_summary: "metricValue (buildSummary [exampleRow]) QuotaMetric = 5"
  unfolding buildSummary_metric
  by (simp add: metricValue_def rowMetrics_def exampleRow_def numberValue_def)

lemma example_paths:
  "flowPaths (\<lambda>_ _. 0) [exampleRow] QuotaMetric UserRole None None (exampleOptions b)
    = [\<lparr>pp_path = flowPathForStages exampleRow [TokenKind, GroupKind, ModelKind] None,
        pp_metrics = rowMetrics exampleRow\<rparr>]"
  by (simp add: preparePaths_def exampleOptions_def normalizeTopNodeLimit_def buildTopNodeSets_def
    applyTopNodeLimit_def resolveVisibleStages_def map_filter_simps)

lemma example_token:
  obtains n where "n \<in> set (g_nodes (exampleGraph b))" "n_kind n = TokenKind" "n_id n = js ''token:3''"
proof -
  have mode: "overflowMode (exampleOptions b) \<noteq> Some Hide" by (simp add: exampleOptions_def)
  have "TokenKind \<in> set (resolveVisibleStages UserRole None)" by (simp add: resolveVisibleStages_def)
  from graph_stage_total [OF mode this, of "\<lambda>_ _. 0" "[(None, [Some (js ''#123456'')])]" "\<lambda>_. []"
      "[exampleRow]" QuotaMetric None None]
  have "(\<Sum>n\<leftarrow>g_nodes (exampleGraph b). if n_kind n = TokenKind then n_value n else 0) \<noteq> 0"
    by (simp add: exampleGraph_def example_summary)
  then obtain n where n: "n \<in> set (g_nodes (exampleGraph b))" "n_kind n = TokenKind"
    using sum_map_cong [of "g_nodes (exampleGraph b)" "\<lambda>n. if n_kind n = TokenKind then n_value n else 0" "\<lambda>_. 0"]
    by fastforce
  from n(1) [unfolded exampleGraph_def] obtain p m where
      "p \<in> set (flowPaths (\<lambda>_ _. 0) [exampleRow] QuotaMetric UserRole None None (exampleOptions b))"
      "m \<in> set (pp_path p)" "pn_id m = n_id n" "pn_kind m = n_kind n"
    by (rule graph_node_path)
  then have "n_id n = pn_id (tokenNode exampleRow None)"
    using n(2) unfolding example_paths by (auto simp: kind_mem_path groupNode_def modelNode_def Let_def)
  then have "n_id n = js ''token:3''"
    by (simp add: tokenNode_def exampleRow_def numberValue_def show_int_def show_nat.simps js_simps)
  with n that show ?thesis by blast
qed

lemma example_link_ne: "g_links (exampleGraph False) \<noteq> []"
proof -
  have mode: "overflowMode (exampleOptions False) \<noteq> Some Hide" by (simp add: exampleOptions_def)
  from graph_links_root_total [OF no_separator_rows [OF example_no_separator],
      of "\<lambda>_ _. 0" QuotaMetric UserRole None "exampleOptions False" "[(None, [Some (js ''#123456'')])]" "\<lambda>_. []" None]
  show ?thesis
    unfolding preparePaths_total [OF mode] by (auto simp: exampleGraph_def example_summary)
qed

section \<open>Properties\<close>

text \<open>C16: Flow is conserved at every node: what the links out of a node carry (unless it is in the
  last column) and what the links into it carry (unless it is in the first) is the value of
  the node. Identifiers must not contain the separator of link keys.\<close>

theorem flow_conserved:
  assumes "\<forall>row\<in>set rows. \<forall>k. 0 \<notin> set (pn_id (NODE_BUILDERS k row ctx))"
    and "n \<in> set (g_nodes (buildFlowGraph lc sch f2 rows metric role pal vs ctx options))"
  shows "(n_kind n \<noteq> last (resolveVisibleStages role vs) \<longrightarrow>
      (\<Sum>l\<leftarrow>g_links (buildFlowGraph lc sch f2 rows metric role pal vs ctx options).
        if l_source l = n_id n then l_value l else 0) = n_value n) \<and>
    (n_kind n \<noteq> hd (resolveVisibleStages role vs) \<longrightarrow>
      (\<Sum>l\<leftarrow>g_links (buildFlowGraph lc sch f2 rows metric role pal vs ctx options).
        if l_target l = n_id n then l_value l else 0) = n_value n)"
proof -
  let ?ps = "flowPaths lc rows metric role vs ctx options"
  note sep = no_separator_rows [OF assms(1), of lc metric role vs options]
  from assms(2) obtain q m where m: "pn_id m = n_id n" "pn_kind m = n_kind n" "node_wf m"
    by (rule graph_node_path)
  note nval = graph_node_value [OF assms(2), folded m(1)]
  have "(\<Sum>p\<leftarrow>?ps. \<Sum>(a, b)\<leftarrow>path_links (pp_path p). if pn_id a = pn_id m then pathValue metric p else 0)
      = n_value n" if "pn_kind m \<noteq> last (resolveVisibleStages role vs)"
    unfolding nval by (rule sum_map_cong, rule path_outflow [OF _ m(3) that])
  moreover have "(\<Sum>p\<leftarrow>?ps. \<Sum>(a, b)\<leftarrow>path_links (pp_path p). if pn_id b = pn_id m then pathValue metric p else 0)
      = n_value n" if "pn_kind m \<noteq> hd (resolveVisibleStages role vs)"
    unfolding nval by (rule sum_map_cong, rule path_inflow [OF _ m(3) that])
  ultimately show ?thesis
    using graph_links_sum [OF sep, where Q = "\<lambda>(s, t). s = pn_id m"]
      graph_links_sum [OF sep, where Q = "\<lambda>(s, t). t = pn_id m"] m(1,2) by simp
qed

theorem flow_conserved_witness:
  "\<exists>n. n \<in> set (g_nodes (exampleGraph False)) \<and> n_kind n = TokenKind \<and>
     (\<Sum>l\<leftarrow>g_links (exampleGraph False). if l_source l = n_id n then l_value l else 0) = n_value n"
proof -
  obtain n where n: "n \<in> set (g_nodes (exampleGraph False))" "n_kind n = TokenKind"
    by (rule example_token)
  from flow_conserved [OF example_no_separator n(1) [unfolded exampleGraph_def]] n show ?thesis
    by (intro exI [of _ n]) (simp add: exampleGraph_def resolveVisibleStages_def)
qed

text \<open>When nothing is hidden, the share of a link is its part of the selected metric's total in
  the summary, and 0 when that total is not positive.\<close>

theorem link_share_of_total:
  assumes "\<forall>row\<in>set rows. \<forall>k. 0 \<notin> set (pn_id (NODE_BUILDERS k row ctx))"
    and "overflowMode options \<noteq> Some Hide"
    and "l \<in> set (g_links (buildFlowGraph lc sch f2 rows metric role pal vs ctx options))"
  shows "l_share l = (if metricValue (buildSummary rows) metric > 0
    then l_value l / metricValue (buildSummary rows) metric else 0)"
  using graph_link_share [OF assms(3) no_separator_rows [OF assms(1)]]
  by (simp add: preparePaths_total [OF assms(2)] Let_def)

theorem link_share_of_total_witness:
  "\<exists>l. l \<in> set (g_links (exampleGraph False)) \<and> l_share l = l_value l / 5"
proof -
  obtain l where l: "l \<in> set (g_links (exampleGraph False))"
    using example_link_ne by (cases "g_links (exampleGraph False)") auto
  have "overflowMode (exampleOptions False) \<noteq> Some Hide" by (simp add: exampleOptions_def)
  from link_share_of_total [OF example_no_separator this l [unfolded exampleGraph_def]] show ?thesis
    using l by (intro exI [of _ l]) (simp add: example_summary)
qed

text \<open>The limit on the nodes of a stage keeps at most that many identifiers, all of them from the
  rows, and all of them if there are fewer; none that is left out has a larger value than one
  that is kept.\<close>

theorem top_nodes_largest:
  assumes "buildTopNodeSets lc rows metric stages (Some (Suc l)) ctx = Some sets"
    and "distinct stages" and "K \<in> set stages"
  shows "\<exists>T. omap_get sets K = Some T \<and> distinct T \<and> length T \<le> Suc l \<and>
    set T \<subseteq> (\<lambda>row. pn_id (NODE_BUILDERS K row ctx)) ` set rows \<and>
    (length T < Suc l \<longrightarrow> set T = (\<lambda>row. pn_id (NODE_BUILDERS K row ctx)) ` set rows) \<and>
    (\<forall>i\<in>set T. \<forall>row\<in>set rows. pn_id (NODE_BUILDERS K row ctx) \<notin> set T \<longrightarrow>
       stageValue metric ctx K rows (pn_id (NODE_BUILDERS K row ctx)) \<le> stageValue metric ctx K rows i)"
proof -
  let ?T = "topIds lc (Suc l) (stageRanks metric ctx K rows)"
  have "omap_get sets K = Some ?T"
    using topSets_get [OF assms(2,3,1)] by (simp add: dedupe_distinct topIds_facts(1))
  then show ?thesis
    using topIds_facts [where lc = lc and l = "Suc l" and metric = metric and ctx = ctx and K = K and rows = rows]
    by (intro exI [of _ ?T]) blast
qed

theorem top_nodes_largest_witness:
  "\<exists>sets T. buildTopNodeSets (\<lambda>_ _. 0) [exampleRow] QuotaMetric [ModelKind] (Some 1) None = Some sets \<and>
     omap_get sets ModelKind = Some T \<and> length T \<le> 1"
proof -
  obtain sets where sets: "buildTopNodeSets (\<lambda>_ _. 0) [exampleRow] QuotaMetric [ModelKind] (Some (Suc 0)) None = Some sets"
    by (simp add: buildTopNodeSets_def Let_def)
  from top_nodes_largest [OF sets, of ModelKind] sets show ?thesis by auto
qed

text \<open>C17: Masking changes labels and nothing else, and every label that is not public. The masked graph has the nodes
  of the plain graph with all their other fields, where the label of every user, node, token, group or channel
  that is not an aggregate is replaced by four dots (an empty one stays empty), and the labels of models and
  aggregates are kept. It has the same links in the same order, with the same values, shares and colours; their
  labels are hidden at the ends whose nodes are hidden, and kept at the others. Only the order of nodes with equal
  values can change, because they are sorted by their label.\<close>

theorem masking_hides_labels:
  fixes lc sch f2 rows metric role pal vs ctx options
  defines "G b \<equiv> buildFlowGraph lc sch f2 rows metric role pal vs ctx (options\<lparr>maskSensitive := b\<rparr>)"
  shows "mset (g_nodes (G True)) = mset (map hideNode (g_nodes (G False))) \<and>
    list_all2 (\<lambda>l old. l = old\<lparr>l_sourceLabel := l_sourceLabel l, l_targetLabel := l_targetLabel l\<rparr> \<and>
        endLabel (hiddenIds (g_nodes (G False))) (l_source l) (l_sourceLabel l) (l_sourceLabel old) \<and>
        endLabel (hiddenIds (g_nodes (G False))) (l_target l) (l_targetLabel l) (l_targetLabel old))
      (g_links (G True)) (g_links (G False))"
proof (intro conjI)
  show "mset (g_nodes (G True)) = mset (map hideNode (g_nodes (G False)))" unfolding G_def by (rule masked_nodes)
  let ?ns = "omap_values (fst (graphMaps lc sch metric pal (flowPaths lc rows metric role vs ctx options)))"
  have ids: "hiddenIds (g_nodes (G False)) = hiddenIds ?ns"
    unfolding G_def
    by (rule hiddenIds_core, rule set_mset_core) (simp only: graph_nodes_core paths_unmasked)
  have "l = old\<lparr>l_sourceLabel := l_sourceLabel l, l_targetLabel := l_targetLabel l\<rparr>" if "l = maskLink m old" for l old m
    unfolding that by (simp add: maskLink_def)
  then show "list_all2 (\<lambda>l old. l = old\<lparr>l_sourceLabel := l_sourceLabel l, l_targetLabel := l_targetLabel l\<rparr> \<and>
        endLabel (hiddenIds (g_nodes (G False))) (l_source l) (l_sourceLabel l) (l_sourceLabel old) \<and>
        endLabel (hiddenIds (g_nodes (G False))) (l_target l) (l_targetLabel l) (l_targetLabel old))
      (g_links (G True)) (g_links (G False))"
    unfolding ids unfolding G_def masked_links
    using maskLink_ends [of ?ns] by (auto simp: list_all2_conv_all_nth)
qed


end
