(* ===== verification/FlowDashboard.thy ===== *)
theory FlowDashboard
  imports FlowConservation
begin

text \<open>
  The flow dashboard as a whole: filter options, \<open>buildDashboardFlowData\<close> and the links of the
  chart specification, the last part of \<open>features/dashboard/lib/flow.ts\<close>, and the display
  state of \<open>flow-selection.ts\<close>. \<open>fmt\<close> is the number format of the browser.
\<close>

section \<open>Definitions\<close>

subsection \<open>Filter options\<close>

record FlowUserFilterOption =
  uo_value :: jsstr
  uo_label :: jsstr
  uo_valueLabel :: jsstr
  uo_valueRaw :: jsnum
  uo_color :: jsstr

record FlowNodeFilterOption =
  no_kind :: FlowNodeKind
  no_value :: jsstr
  no_label :: jsstr
  no_valueLabel :: jsstr
  no_valueRaw :: jsnum
  no_color :: jsstr

record FlowFilterOptions =
  fo_users :: "FlowUserFilterOption list"
  fo_nodes :: "FlowNodeFilterOption list"

text \<open>The entry of a user: label, value and colour.\<close>

record UserEntry =
  ue_label :: jsstr
  ue_value :: jsnum
  ue_color :: jsstr

definition addUser ::
  "ColorSchemes \<Rightarrow> (jsstr, jsstr) omap \<Rightarrow> jsstr list option \<Rightarrow> FlowMetric \<Rightarrow>
   (jsstr, UserEntry) omap \<Rightarrow> FlowQuotaDataItem \<Rightarrow> (jsstr, UserEntry) omap" where
  "addUser schemes colors palette metric users row =
     (let user = userNode row in
      if nullish (user_id row) 0 = 0 \<and> or_str (username row) [] = [] then users
      else
        let current = nullish (omap_get users (pn_id user))
              \<lparr>ue_label = pn_label user, ue_value = 0,
               ue_color = nullish (omap_get colors (pn_id user)) (colorAt schemes 0 palette)\<rparr> in
        omap_set users (pn_id user)
          (current\<lparr>ue_value := ue_value current + metricValue (rowMetrics row) metric\<rparr>))"

definition buildUserFilterOptions ::
  "(jsstr \<Rightarrow> jsstr \<Rightarrow> int) \<Rightarrow> ColorSchemes \<Rightarrow> (jsnum \<Rightarrow> jsstr) \<Rightarrow> FlowQuotaDataItem list \<Rightarrow> FlowMetric \<Rightarrow>
   jsstr list option \<Rightarrow> FlowUserFilterOption list" where
  "buildUserFilterOptions lc schemes fmt rows metric palette =
     (let colors = stableColorMap schemes (js_sort lc (map (\<lambda>row. pn_id (userNode row)) rows)) palette;
          users = foldl (addUser schemes colors palette metric) [] rows in
      js_sort (\<lambda>a b. or_cmp (num_cmp (uo_valueRaw b) (uo_valueRaw a)) (lc (uo_label a) (uo_label b)))
        (map (\<lambda>(v, user). \<lparr>uo_value = v, uo_label = ue_label user, uo_valueLabel = fmt (ue_value user),
               uo_valueRaw = ue_value user, uo_color = ue_color user\<rparr>) users))"

definition stageIndex :: "FlowNodeKind list \<Rightarrow> FlowNodeKind \<Rightarrow> nat" where
  "stageIndex stages k = nullish (find_index (\<lambda>s. s = k) stages) 0"

text \<open>The totals of one stage over the candidate rows.\<close>

definition addStageTotal ::
  "FlowMetric \<Rightarrow> FlowNodeKind \<Rightarrow> FlowPathContext \<Rightarrow> (jsstr, FlowNodeRank) omap \<Rightarrow> FlowQuotaDataItem \<Rightarrow>
   (jsstr, FlowNodeRank) omap" where
  "addStageTotal metric stage ctx totals row =
     (let node = NODE_BUILDERS stage row ctx;
          k = nodeFilterKey \<lparr>filter_kind = pn_kind node, filter_id = pn_id node\<rparr>;
          current = nullish (omap_get totals k) \<lparr>rank_node = node, rank_value = 0\<rparr> in
      omap_set totals k (current\<lparr>rank_value := rank_value current + metricValue (rowMetrics row) metric\<rparr>))"

definition stageOptions ::
  "ColorSchemes \<Rightarrow> (jsnum \<Rightarrow> jsstr) \<Rightarrow> (jsstr, jsstr) omap \<Rightarrow> jsstr list option \<Rightarrow> FlowMetric \<Rightarrow>
   FlowPathContext \<Rightarrow> FlowNodeKind list \<Rightarrow> FlowNodeFilter list option \<Rightarrow> FlowQuotaDataItem list \<Rightarrow>
   FlowNodeKind \<Rightarrow> FlowNodeFilterOption list" where
  "stageOptions schemes fmt colors palette metric ctx stages selectedNodes rows stage =
     (let candidateRows = filterRowsByNodes rows (selectedNodeFiltersExceptKind selectedNodes stage) stages ctx;
          totals = foldl (addStageTotal metric stage ctx) [] candidateRows in
      map (\<lambda>rank. \<lparr>no_kind = pn_kind (rank_node rank), no_value = pn_id (rank_node rank),
             no_label = pn_label (rank_node rank), no_valueLabel = fmt (rank_value rank),
             no_valueRaw = rank_value rank,
             no_color = nullish (omap_get colors (pn_id (rank_node rank))) (colorAt schemes 0 palette)\<rparr>)
        (omap_values totals))"

definition compareNodeOptions ::
  "(jsstr \<Rightarrow> jsstr \<Rightarrow> int) \<Rightarrow> FlowNodeKind list \<Rightarrow> FlowNodeFilterOption \<Rightarrow> FlowNodeFilterOption \<Rightarrow> int" where
  "compareNodeOptions lc stages a b =
     or_cmp (int (stageIndex stages (no_kind a)) - int (stageIndex stages (no_kind b)))
       (or_cmp (num_cmp (no_valueRaw b) (no_valueRaw a))
         (or_cmp (lc (no_label a) (no_label b)) (lc (no_value a) (no_value b))))"

definition buildNodeFilterOptions ::
  "(jsstr \<Rightarrow> jsstr \<Rightarrow> int) \<Rightarrow> ColorSchemes \<Rightarrow> (jsnum \<Rightarrow> jsstr) \<Rightarrow> FlowQuotaDataItem list \<Rightarrow> FlowMetric \<Rightarrow>
   FlowRole \<Rightarrow> FlowNodeKind list option \<Rightarrow> jsstr list option \<Rightarrow> FlowPathContext \<Rightarrow>
   FlowNodeFilter list option \<Rightarrow> FlowNodeFilterOption list" where
  "buildNodeFilterOptions lc schemes fmt rows metric role visibleStages palette ctx selectedNodes =
     (let stages = resolveVisibleStages role visibleStages;
          colorIds = dedupe (concat (map (\<lambda>row. map pn_id (flowPathForStages row stages ctx)) rows));
          colors = stableColorMap schemes (js_sort lc colorIds) palette in
      js_sort (compareNodeOptions lc stages)
        (concat (map (stageOptions schemes fmt colors palette metric ctx stages selectedNodes rows) stages)))"

definition buildFlowFilterOptions ::
  "(jsstr \<Rightarrow> jsstr \<Rightarrow> int) \<Rightarrow> ColorSchemes \<Rightarrow> (jsnum \<Rightarrow> jsstr) \<Rightarrow> FlowQuotaDataItem list \<Rightarrow> FlowMetric \<Rightarrow>
   jsstr list option \<Rightarrow> FlowRole \<Rightarrow> FlowNodeKind list option \<Rightarrow> FlowNodeFilter list option \<Rightarrow>
   FlowFilterOptions" where
  "buildFlowFilterOptions lc schemes fmt rows metric palette role visibleStages selectedNodes =
     \<lparr>fo_users = buildUserFilterOptions lc schemes fmt rows metric palette,
      fo_nodes = buildNodeFilterOptions lc schemes fmt rows metric role visibleStages palette None selectedNodes\<rparr>"

subsection \<open>Dashboard data\<close>

record FlowBuildOptions = FlowGraphOptions +
  bo_role :: "FlowRole option"
  selectedUsers :: "jsstr list option"
  selectedNodes :: "FlowNodeFilter list option"
  bo_colorPalette :: "jsstr list option"
  bo_visibleStages :: "FlowNodeKind list option"
  bo_deletedTokenLabel :: "(int \<Rightarrow> jsstr) option"

record ProcessedFlowData =
  fd_summary :: FlowMetrics
  fd_flow :: DashboardFlowGraph
  fd_filterOptions :: FlowFilterOptions

definition DEFAULT_FLOW_ROLE :: FlowRole where
  "DEFAULT_FLOW_ROLE = UserRole"

definition buildDashboardFlowData ::
  "(jsstr \<Rightarrow> jsstr \<Rightarrow> int) \<Rightarrow> ColorSchemes \<Rightarrow> (jsnum \<Rightarrow> jsstr) \<Rightarrow> (jsnum \<Rightarrow> jsstr) \<Rightarrow>
   FlowQuotaDataItem list \<Rightarrow> FlowMetric \<Rightarrow> FlowBuildOptions \<Rightarrow> ProcessedFlowData" where
  "buildDashboardFlowData lc schemes fixed2 fmt rows metric options =
     (let role = nullish (bo_role options) DEFAULT_FLOW_ROLE;
          palette = bo_colorPalette options;
          ctx = bo_deletedTokenLabel options;
          stages = resolveVisibleStages role (bo_visibleStages options);
          userFilteredRows = filterRows rows (selectedUsers options);
          filteredRows = filterRowsByNodes userFilteredRows (selectedNodes options) stages ctx in
      \<lparr>fd_summary = buildSummary filteredRows,
       fd_flow = buildFlowGraph lc schemes fixed2 filteredRows metric role palette
         (bo_visibleStages options) ctx (FlowGraphOptions.truncate options),
       fd_filterOptions =
         \<lparr>fo_users = buildUserFilterOptions lc schemes fmt rows metric palette,
          fo_nodes = buildNodeFilterOptions lc schemes fmt userFilteredRows metric role
            (bo_visibleStages options) palette ctx (selectedNodes options)\<rparr>\<rparr>)"

subsection \<open>Links of the chart\<close>

text \<open>\<open>Number(undefined)\<close> is not a number, and a difference with it counts as no difference.\<close>

definition flag_cmp :: "bool option \<Rightarrow> bool option \<Rightarrow> int" where
  "flag_cmp a b = (case (a, b) of (Some x, Some y) \<Rightarrow> of_bool x - of_bool y | _ \<Rightarrow> 0)"

definition byLinkDrawPriority ::
  "(jsstr \<Rightarrow> jsstr \<Rightarrow> int) \<Rightarrow> DashboardFlowLink \<Rightarrow> DashboardFlowLink \<Rightarrow> int" where
  "byLinkDrawPriority lc a b =
     or_cmp (flag_cmp (l_dimmed a) (l_dimmed b))
       (or_cmp (flag_cmp (l_highlighted b) (l_highlighted a))
         (or_cmp (num_cmp (l_value b) (l_value a)) (lc (linkStableKey a) (linkStableKey b))))"

definition linkZIndex :: "nat \<Rightarrow> DashboardFlowLink \<Rightarrow> nat" where
  "linkZIndex index link =
     (if l_highlighted link = Some True then 1000000 + index
      else if l_dimmed link = Some True then index else 100000 + index)"

text \<open>The link data of the specification: the links with a positive value, in drawing order, with
  their key and layer.\<close>

definition sankeyLinks ::
  "(jsstr \<Rightarrow> jsstr \<Rightarrow> int) \<Rightarrow> DashboardFlowGraph \<Rightarrow> (DashboardFlowLink \<times> jsstr \<times> nat) list" where
  "sankeyLinks lc flow =
     map (\<lambda>(index, link). (link, linkStableKey link, linkZIndex index link))
       (enumerate 0 (js_sort (byLinkDrawPriority lc) (filter (\<lambda>link. l_value link > 0) (g_links flow))))"

subsection \<open>Selection and display state\<close>

datatype FlowDisplayState = FlowLoading | FlowError | FlowEmpty | FlowChart

record FlowResponse =
  fr_success :: bool
  fr_data :: "FlowQuotaDataItem list option"
  fr_message :: "jsstr option"

text \<open>\<open>Inl\<close> is the message of the \<open>Error\<close> that is thrown.\<close>

definition requireSuccessfulFlowRows :: "FlowResponse \<Rightarrow> jsstr \<Rightarrow> jsstr + FlowQuotaDataItem list" where
  "requireSuccessfulFlowRows response fallbackMessage =
     (if \<not> fr_success response then Inl (or_str (fr_message response) fallbackMessage)
      else Inr (nullish (fr_data response) []))"

definition flowDisplayState :: "bool \<Rightarrow> bool \<Rightarrow> nat \<Rightarrow> bool \<Rightarrow> FlowDisplayState" where
  "flowDisplayState isLoading isError linkCount themeReady =
     (if isLoading then FlowLoading else if isError then FlowError
      else if linkCount = 0 then FlowEmpty else if \<not> themeReady then FlowLoading else FlowChart)"

definition compactFlowSelectionLabel :: "nat \<Rightarrow> jsstr" where
  "compactFlowSelectionLabel selected = (if selected > 0 then show_nat selected else js ''*'')"

definition visibleFlowUsers :: "FlowUserFilterOption list \<Rightarrow> jsstr list \<Rightarrow> FlowUserFilterOption list" where
  "visibleFlowUsers users selected =
     (if length selected = 0 then users else filter (\<lambda>u. uo_value u \<in> set (dedupe selected)) users)"

section \<open>Lemmas\<close>

text \<open>Stage totals follow the contract of accumulators too.\<close>

interpretation option_acc: flow_accumulator
  "\<lambda>x. nodeFilterKey \<lparr>filter_kind = pn_kind (fst x), filter_id = pn_id (fst x)\<rparr>"
  "\<lambda>(n, v). \<lparr>rank_node = n, rank_value = 0\<rparr>" "\<lambda>(n, v) e. e\<lparr>rank_value := rank_value e + v\<rparr>"
  "\<lambda>e. (pn_kind (rank_node e), pn_id (rank_node e))" "\<lambda>x. (pn_kind (fst x), pn_id (fst x))" rank_value snd
  by unfold_locales (auto simp: case_prod_beta')

lemma stageTotals_accumulate:
  "foldl (addStageTotal metric stage ctx) [] rows =
    option_acc.accumulate (map (\<lambda>row. (NODE_BUILDERS stage row ctx, metricValue (rowMetrics row) metric)) rows)"
  unfolding option_acc.accumulate_def om.tally_def
  by (simp add: foldl_map addStageTotal_def [abs_def] Let_def)

lemma stageTotals_faithful:
  "option_acc.faithful (map (\<lambda>row. (NODE_BUILDERS stage row ctx, metricValue (rowMetrics row) metric)) rows)"
  unfolding option_acc.faithful_def by (auto simp: nodeFilterKey_def)

lemma except_kind_mem:
  "set (nullish (selectedNodeFiltersExceptKind sel k) []) = {f \<in> set (nullish sel []). filter_kind f \<noteq> k}"
  by (auto simp: selectedNodeFiltersExceptKind_def Let_def filter_empty_conv)

text \<open>The rows that the options of a stage are drawn from: those selected by the filters of the other
  stages.\<close>

definition facetRows :: "FlowNodeKind list \<Rightarrow> FlowPathContext \<Rightarrow> FlowNodeFilter list option \<Rightarrow> FlowNodeKind \<Rightarrow>
    FlowQuotaDataItem list \<Rightarrow> FlowQuotaDataItem list" where
  "facetRows stages ctx sel k =
     filter (rowSelected (filter (\<lambda>f. filter_kind f \<noteq> k) (nullish sel [])) stages ctx)"

lemma candidateRows:
  "filterRowsByNodes rows (selectedNodeFiltersExceptKind sel k) stages ctx = facetRows stages ctx sel k rows"
proof -
  have "rowSelected (nullish (selectedNodeFiltersExceptKind sel k) []) stages ctx =
      rowSelected (filter (\<lambda>f. filter_kind f \<noteq> k) (nullish sel [])) stages ctx"
    by (rule ext) (simp add: rowSelected_def except_kind_mem)
  then show ?thesis by (simp add: filterRowsByNodes_eq facetRows_def)
qed

lemma stageOptions_listed:
  "(\<lambda>opt. (no_kind opt, no_value opt)) ` set (stageOptions schemes fmt colors palette metric ctx stages sel rows stage)
    = (\<lambda>row. (stage, pn_id (NODE_BUILDERS stage row ctx))) ` set (facetRows stages ctx sel stage rows)"
  unfolding stageOptions_def Let_def stageTotals_accumulate candidateRows
  using option_acc.idents_accumulate [OF stageTotals_faithful, of stage ctx metric "facetRows stages ctx sel stage rows"]
  by (simp add: image_image)

lemma stageOptions_values:
  assumes "opt \<in> set (stageOptions schemes fmt colors palette metric ctx stages sel rows stage)"
  shows "no_kind opt = stage"
    and "no_valueRaw opt = (\<Sum>row\<leftarrow>facetRows stages ctx sel stage rows.
      if pn_id (NODE_BUILDERS stage row ctx) = no_value opt then metricValue (rowMetrics row) metric else 0)"
proof -
  let ?xs = "map (\<lambda>row. (NODE_BUILDERS stage row ctx, metricValue (rowMetrics row) metric))
    (facetRows stages ctx sel stage rows)"
  show "no_kind opt = stage"
    using imageI [OF assms, of "\<lambda>opt. (no_kind opt, no_value opt)"] unfolding stageOptions_listed by auto
  moreover from assms obtain e where e: "e \<in> set (omap_values (option_acc.accumulate ?xs))"
      "no_valueRaw opt = rank_value e" "no_value opt = pn_id (rank_node e)" "no_kind opt = pn_kind (rank_node e)"
    unfolding stageOptions_def Let_def stageTotals_accumulate candidateRows by fastforce
  ultimately show "no_valueRaw opt = (\<Sum>row\<leftarrow>facetRows stages ctx sel stage rows.
      if pn_id (NODE_BUILDERS stage row ctx) = no_value opt then metricValue (rowMetrics row) metric else 0)"
    using option_acc.entry_val [OF stageTotals_faithful e(1)] by (simp add: comp_def cong: if_cong)
qed

lemma nodeOptions_stage:
  "opt \<in> set (buildNodeFilterOptions lc schemes fmt rows metric role vs palette ctx sel) \<longleftrightarrow>
    (\<exists>stage\<in>set (resolveVisibleStages role vs). opt \<in> set (stageOptions schemes fmt
      (stableColorMap schemes (js_sort lc (dedupe (concat (map (\<lambda>row. map pn_id
        (flowPathForStages row (resolveVisibleStages role vs) ctx)) rows)))) palette)
      palette metric ctx (resolveVisibleStages role vs) sel rows stage))"
  by (simp add: buildNodeFilterOptions_def Let_def)

lemma nodeOptions_listed:
  "(\<lambda>opt. (no_kind opt, no_value opt)) ` set (buildNodeFilterOptions lc schemes fmt rows metric role vs palette ctx sel)
    = (SIGMA k:set (resolveVisibleStages role vs).
        (\<lambda>row. pn_id (NODE_BUILDERS k row ctx)) ` set (facetRows (resolveVisibleStages role vs) ctx sel k rows))"
  (is "?f ` ?A = ?B")
proof -
  have "?f ` ?A = (\<Union>k\<in>set (resolveVisibleStages role vs).
      (\<lambda>row. (k, pn_id (NODE_BUILDERS k row ctx))) ` set (facetRows (resolveVisibleStages role vs) ctx sel k rows))"
    by (simp add: buildNodeFilterOptions_def Let_def image_UN stageOptions_listed)
  also have "\<dots> = ?B" by auto
  finally show ?thesis .
qed

lemma nodeOptions_values:
  assumes "opt \<in> set (buildNodeFilterOptions lc schemes fmt rows metric role vs palette ctx sel)"
  shows "no_valueRaw opt = (\<Sum>row\<leftarrow>facetRows (resolveVisibleStages role vs) ctx sel (no_kind opt) rows.
      if pn_id (NODE_BUILDERS (no_kind opt) row ctx) = no_value opt then metricValue (rowMetrics row) metric else 0)"
proof -
  from assms [unfolded nodeOptions_stage] obtain stage where stage: "stage \<in> set (resolveVisibleStages role vs)"
    "opt \<in> set (stageOptions schemes fmt
      (stableColorMap schemes (js_sort lc (dedupe (concat (map (\<lambda>row. map pn_id
        (flowPathForStages row (resolveVisibleStages role vs) ctx)) rows)))) palette)
      palette metric ctx (resolveVisibleStages role vs) sel rows stage)" by (rule bexE)
  show ?thesis using stageOptions_values(2) [OF stage(2)] unfolding stageOptions_values(1) [OF stage(2)] .
qed

text \<open>The stages of a dashboard, and the rows behind its options for one stage.\<close>

definition dashboardStages :: "FlowBuildOptions \<Rightarrow> FlowNodeKind list" where
  "dashboardStages options =
     resolveVisibleStages (nullish (bo_role options) DEFAULT_FLOW_ROLE) (bo_visibleStages options)"

definition offeredRows :: "FlowQuotaDataItem list \<Rightarrow> FlowBuildOptions \<Rightarrow> FlowNodeKind \<Rightarrow> FlowQuotaDataItem list" where
  "offeredRows rows options k =
     facetRows (dashboardStages options) (bo_deletedTokenLabel options) (selectedNodes options) k
       (filterRows rows (selectedUsers options))"

text \<open>The rows that pass the filters.\<close>

definition dashboardRows :: "FlowQuotaDataItem list \<Rightarrow> FlowBuildOptions \<Rightarrow> FlowQuotaDataItem list" where
  "dashboardRows rows options = filterRowsByNodes (filterRows rows (selectedUsers options)) (selectedNodes options)
     (dashboardStages options) (bo_deletedTokenLabel options)"

subsection \<open>An example\<close>

definition exampleBuildOptions :: "FlowNodeFilter list option \<Rightarrow> FlowBuildOptions" where
  "exampleBuildOptions sel = \<lparr>topNodeLimit = None, overflowMode = None, otherNodeLabel = None, activeNode = None,
     activeLink = None, maskSensitive = False, bo_role = None, selectedUsers = None, selectedNodes = sel,
     bo_colorPalette = None, bo_visibleStages = None, bo_deletedTokenLabel = None\<rparr>"

definition hidingOptions :: "FlowNodeFilter list option \<Rightarrow> FlowBuildOptions" where
  "hidingOptions sel = (exampleBuildOptions sel)\<lparr>topNodeLimit := Some 1, overflowMode := Some Hide\<rparr>"

definition exampleDashboard :: "FlowNodeFilter list option \<Rightarrow> ProcessedFlowData" where
  "exampleDashboard sel = buildDashboardFlowData (\<lambda>_ _. 0) [(None, [Some (js ''#123456'')])] (\<lambda>_. []) (\<lambda>_. [])
     [exampleRow] QuotaMetric (exampleBuildOptions sel)"

definition exampleSelection :: "FlowNodeFilter list option" where
  "exampleSelection = Some [\<lparr>filter_kind = TokenKind, filter_id = js ''token:3''\<rparr>]"

lemma example_token_id: "pn_id (tokenNode exampleRow None) = js ''token:3''"
  by (simp add: tokenNode_def exampleRow_def numberValue_def show_int_def show_nat.simps js_simps)

lemma example_filtered: "fd_summary (exampleDashboard exampleSelection) = buildSummary [exampleRow]"
proof -
  have "rowSelected (nullish exampleSelection []) stages None exampleRow" for stages
    by (simp add: rowSelected_def exampleSelection_def example_token_id)
  then show ?thesis
    by (simp add: exampleDashboard_def buildDashboardFlowData_def Let_def filterRowsByNodes_eq
      exampleBuildOptions_def filterRows_def)
qed

section \<open>Properties\<close>

text \<open>C15: every visible stage of the dashboard accounts for the whole of the filtered data. The values of the nodes of
  a stage in the graph, together with the values of the hidden rows, add up to the summary figure shown beside
  it, whatever the node limit, the masking and the highlighting. Rows are hidden in the hide mode only: those with
  a node that has, in its stage, at least as many other nodes of at least its value as the limit admits. In
  every other mode there are none, and each stage alone adds up to the summary.
\<close>

theorem dashboard_stage_total:
  fixes lc rows metric options
  defines "stages \<equiv> dashboardStages options" and "ctx \<equiv> bo_deletedTokenLabel options"
  defines "hidden \<equiv> hiddenRows lc (dashboardRows rows options) metric stages ctx (topNodeLimit options) (overflowMode options)"
  assumes "K \<in> set stages"
  shows "(\<Sum>n\<leftarrow>g_nodes (fd_flow (buildDashboardFlowData lc schemes fixed2 fmt rows metric options)).
      if n_kind n = K then n_value n else 0) +
    (\<Sum>row\<leftarrow>hidden. metricValue (rowMetrics row) metric) =
    metricValue (fd_summary (buildDashboardFlowData lc schemes fixed2 fmt rows metric options)) metric \<and>
    (\<forall>row\<in>set hidden. overflowMode options = Some Hide \<and> (\<exists>K\<in>set stages. \<exists>T.
       normalizeTopNodeLimit (topNodeLimit options) = Some (card T) \<and>
       T \<subseteq> (\<lambda>row. pn_id (NODE_BUILDERS K row ctx)) ` set (dashboardRows rows options) - {pn_id (NODE_BUILDERS K row ctx)} \<and>
       (\<forall>i\<in>T. stageValue metric ctx K (dashboardRows rows options) (pn_id (NODE_BUILDERS K row ctx)) \<le>
         stageValue metric ctx K (dashboardRows rows options) i)))"
proof (intro conjI ballI)
  let ?role = "nullish (bo_role options) DEFAULT_FLOW_ROLE"
  have stage: "K \<in> set (resolveVisibleStages ?role (bo_visibleStages options))"
    using assms(4) by (simp add: dashboardStages_def stages_def)
  have options: "topNodeLimit (FlowGraphOptions.truncate options) = topNodeLimit options"
    "overflowMode (FlowGraphOptions.truncate options) = overflowMode options"
    by (simp_all add: FlowGraphOptions.truncate_def)
  show "(\<Sum>n\<leftarrow>g_nodes (fd_flow (buildDashboardFlowData lc schemes fixed2 fmt rows metric options)).
      if n_kind n = K then n_value n else 0) + (\<Sum>row\<leftarrow>hidden. metricValue (rowMetrics row) metric) =
    metricValue (fd_summary (buildDashboardFlowData lc schemes fixed2 fmt rows metric options)) metric"
    using preparePaths_accounts [OF resolveVisibleStages_facts(1) [of ?role "bo_visibleStages options"],
        where lc = lc and rows = "dashboardRows rows options" and metric = metric and ctx = ctx
          and options = "FlowGraphOptions.truncate options"]
    by (simp add: buildDashboardFlowData_def Let_def graph_stage_paths [OF stage] options dashboardRows_def dashboardStages_def
      hidden_def stages_def ctx_def)
qed (use hidden_dominated in \<open>simp_all add: hidden_def\<close>)

theorem dashboard_stage_total_witness:
  "(\<Sum>n\<leftarrow>g_nodes (fd_flow (buildDashboardFlowData (\<lambda>_ _. 0) [(None, [Some (js ''#123456'')])] (\<lambda>_. []) (\<lambda>_. [])
      [exampleRow] QuotaMetric (hidingOptions exampleSelection))). if n_kind n = ModelKind then n_value n else 0) +
   (\<Sum>row\<leftarrow>hiddenRows (\<lambda>_ _. 0) (dashboardRows [exampleRow] (hidingOptions exampleSelection)) QuotaMetric
      [TokenKind, GroupKind, ModelKind] None (Some 1) (Some Hide). metricValue (rowMetrics row) QuotaMetric) = 5"
proof -
  let ?o = "hidingOptions exampleSelection"
  have stages: "dashboardStages ?o = [TokenKind, GroupKind, ModelKind]" and opts: "bo_deletedTokenLabel ?o = None"
      "topNodeLimit ?o = Some 1" "overflowMode ?o = Some Hide"
    by (simp_all add: dashboardStages_def hidingOptions_def exampleBuildOptions_def DEFAULT_FLOW_ROLE_def resolveVisibleStages_def)
  have "fd_summary (buildDashboardFlowData (\<lambda>_ _. 0) [(None, [Some (js ''#123456'')])] (\<lambda>_. []) (\<lambda>_. [])
      [exampleRow] QuotaMetric ?o) = buildSummary [exampleRow]"
    using example_filtered by (simp add: exampleDashboard_def buildDashboardFlowData_def hidingOptions_def exampleBuildOptions_def Let_def)
  with dashboard_stage_total [of ModelKind ?o "\<lambda>_ _. 0" "[(None, [Some (js ''#123456'')])]" "\<lambda>_. []" "\<lambda>_. []"
      "[exampleRow]" QuotaMetric] show ?thesis
    by (simp add: stages opts example_summary)
qed

text \<open>the facets of the dashboard. The options of the node filter name exactly the nodes of the
  visible stages that occur on a row left by the user filter and by the node filters of the other
  stages, so the filter of a stage never removes the alternatives within that stage; and the value of
  an option is the total of those rows.
\<close>

theorem facet_options:
  "(\<lambda>opt. (no_kind opt, no_value opt)) `
      set (fo_nodes (fd_filterOptions (buildDashboardFlowData lc schemes fixed2 fmt rows metric options))) =
    (SIGMA k:set (dashboardStages options).
      (\<lambda>row. pn_id (NODE_BUILDERS k row (bo_deletedTokenLabel options))) ` set (offeredRows rows options k)) \<and>
   (\<forall>opt\<in>set (fo_nodes (fd_filterOptions (buildDashboardFlowData lc schemes fixed2 fmt rows metric options))).
     no_valueRaw opt = (\<Sum>row\<leftarrow>offeredRows rows options (no_kind opt).
       if pn_id (NODE_BUILDERS (no_kind opt) row (bo_deletedTokenLabel options)) = no_value opt
       then metricValue (rowMetrics row) metric else 0))"
  unfolding buildDashboardFlowData_def Let_def ProcessedFlowData.select_convs FlowFilterOptions.select_convs
    offeredRows_def dashboardStages_def
  by (intro conjI ballI) (fact nodeOptions_listed, rule nodeOptions_values)

theorem facet_options_witness:
  "\<exists>opt. opt \<in> set (fo_nodes (fd_filterOptions
      (exampleDashboard (Some [\<lparr>filter_kind = ModelKind, filter_id = js ''model:x''\<rparr>])))) \<and>
     no_kind opt = ModelKind \<and> no_value opt = js ''model:m'' \<and> no_valueRaw opt = 5"
proof -
  let ?sel = "Some [\<lparr>filter_kind = ModelKind, filter_id = js ''model:x''\<rparr>]"
  let ?opts = "set (fo_nodes (fd_filterOptions (exampleDashboard ?sel)))"
  have rows: "offeredRows [exampleRow] (exampleBuildOptions ?sel) ModelKind = [exampleRow]"
    by (simp add: offeredRows_def facetRows_def rowSelected_def exampleBuildOptions_def filterRows_def)
  have stage: "ModelKind \<in> set (dashboardStages (exampleBuildOptions ?sel))"
    by (simp add: dashboardStages_def exampleBuildOptions_def DEFAULT_FLOW_ROLE_def resolveVisibleStages_def)
  have id: "pn_id (NODE_BUILDERS ModelKind exampleRow None) = js ''model:m''"
    by (simp add: modelNode_def exampleRow_def or_str_def js_simps)
  have "(ModelKind, js ''model:m'') \<in> (\<lambda>opt. (no_kind opt, no_value opt)) ` ?opts"
    unfolding exampleDashboard_def facet_options [THEN conjunct1] using stage rows id by (simp add: exampleBuildOptions_def)
  then obtain opt where opt: "opt \<in> ?opts" "no_kind opt = ModelKind" "no_value opt = js ''model:m''" by auto
  have "no_valueRaw opt = 5"
    using facet_options [THEN conjunct2, THEN bspec, OF opt(1) [unfolded exampleDashboard_def]] rows id opt(2,3) example_summary
    by (simp add: exampleBuildOptions_def buildSummary_metric)
  with opt show ?thesis by blast
qed

end
