(* ===== verification/JS_Matching.thy ===== *)
theory JS_Matching
  imports JS_Prelude "HOL-Library.Monad_Syntax"
begin

text \<open>
  Matching of texts from the left, for the regular expressions of the sources: an expression whose
  parts are literals and maximal runs of a character class is a sequence of \<open>expect\<close> and
  \<open>span1\<close>. String literals as \<open>JSON.stringify\<close> writes and \<open>JSON.parse\<close> reads them.
\<close>

section \<open>Definitions\<close>

subsection \<open>Literals and runs\<close>

definition expect :: "jsstr \<Rightarrow> jsstr \<Rightarrow> jsstr option" where
  "expect p s = (if prefix p s then Some (drop (length p) s) else None)"

text \<open>A non-empty maximal run of a class; a run up to the end.\<close>

definition span1 :: "(jschar \<Rightarrow> bool) \<Rightarrow> jsstr \<Rightarrow> (jsstr \<times> jsstr) option" where
  "span1 P s = (if takeWhile P s = [] then None else Some (takeWhile P s, dropWhile P s))"

definition all1 :: "(jschar \<Rightarrow> bool) \<Rightarrow> jsstr \<Rightarrow> jsstr option" where
  "all1 P s = (if s \<noteq> [] \<and> list_all P s then Some s else None)"

text \<open>\<open>"([^"]+)"\<close>.\<close>

abbreviation dquote :: jschar where "dquote \<equiv> 34"

abbreviation backslash :: jschar where "backslash \<equiv> 92"

definition quotedName :: "jsstr \<Rightarrow> (jsstr \<times> jsstr) option" where
  "quotedName s = do {
     r \<leftarrow> expect [dquote] s;
     (name, r) \<leftarrow> span1 (\<lambda>c. c \<noteq> dquote) r;
     r \<leftarrow> expect [dquote] r;
     Some (name, r) }"

subsection \<open>JSON string literals\<close>

definition hex_char :: "nat \<Rightarrow> jschar" where
  "hex_char d = (if d < 10 then of_nat (48 + d) else of_nat (87 + d))"

definition unicode_escape :: "jschar \<Rightarrow> jsstr" where
  "unicode_escape c = (backslash # js ''u'') @
     [hex_char (unat c div 4096), hex_char (unat c div 256 mod 16), hex_char (unat c div 16 mod 16),
      hex_char (unat c mod 16)]"

definition high_surrogate :: "jschar \<Rightarrow> bool" where
  "high_surrogate c \<longleftrightarrow> 0xD800 \<le> c \<and> c \<le> 0xDBFF"

definition low_surrogate :: "jschar \<Rightarrow> bool" where
  "low_surrogate c \<longleftrightarrow> 0xDC00 \<le> c \<and> c \<le> 0xDFFF"

definition quote_unit :: "jschar \<Rightarrow> jsstr" where
  "quote_unit c =
     (if c = dquote \<or> c = backslash then [backslash, c]
      else if c = 8 then (backslash # js ''b'') else if c = 9 then (backslash # js ''t'') else if c = 10 then (backslash # js ''n'')
      else if c = 12 then (backslash # js ''f'') else if c = 13 then (backslash # js ''r'')
      else if c < 32 \<or> high_surrogate c \<or> low_surrogate c then unicode_escape c
      else [c])"

text \<open>\<open>JSON.stringify\<close> keeps surrogate pairs and escapes lone surrogates.\<close>

fun quote_units :: "jsstr \<Rightarrow> jsstr" where
  "quote_units [] = []"
| "quote_units [c] = quote_unit c"
| "quote_units (c # d # s) =
     (if high_surrogate c \<and> low_surrogate d then c # d # quote_units s
      else quote_unit c @ quote_units (d # s))"

definition stringify :: "jsstr \<Rightarrow> jsstr" where
  "stringify s = dquote # quote_units s @ [dquote]"

text \<open>\<open>JSON.parse\<close> on a text that starts with a quotation mark; \<open>None\<close> where it raises.\<close>

definition hex4 :: "jsstr \<Rightarrow> jschar option" where
  "hex4 s = (if length s = 4 \<and> list_all (\<lambda>c. hex_digit c \<noteq> None) s
     then Some (of_nat (foldl (\<lambda>n c. 16 * n + the (hex_digit c)) 0 s)) else None)"

definition simple_escape :: "jschar \<Rightarrow> jschar option" where
  "simple_escape e =
     (if e = dquote \<or> e = backslash \<or> e = 47 then Some e
      else if e = jsc CHR ''b'' then Some 8 else if e = jsc CHR ''t'' then Some 9
      else if e = jsc CHR ''n'' then Some 10 else if e = jsc CHR ''f'' then Some 12
      else if e = jsc CHR ''r'' then Some 13 else None)"

function unquote_units :: "jsstr \<Rightarrow> jsstr option" where
  "unquote_units [] = None"
| "unquote_units (c # s) =
     (if c = dquote then (if s = [] then Some [] else None)
      else if c = backslash then
        (case s of
          [] \<Rightarrow> None
        | e # r \<Rightarrow>
            if e = jsc CHR ''u'' then do { u \<leftarrow> hex4 (take 4 r); t \<leftarrow> unquote_units (drop 4 r); Some (u # t) }
            else do { u \<leftarrow> simple_escape e; t \<leftarrow> unquote_units r; Some (u # t) })
      else if c < 32 then None
      else map_option ((#) c) (unquote_units s))"
  by pat_completeness auto
termination by (relation "measure length") auto

definition json_string :: "jsstr \<Rightarrow> jsstr option" where
  "json_string s = do { r \<leftarrow> expect [dquote] s; unquote_units r }"

text \<open>The match of \<open>"(?:[^"\\]|\\.)*"\<close> at the start of a text, after its first quotation mark.\<close>

fun literal_end :: "jsstr \<Rightarrow> (jsstr \<times> jsstr) option" where
  "literal_end [] = None"
| "literal_end [c] = (if c = dquote then Some ([c], []) else None)"
| "literal_end (c # d # s) =
     (if c = dquote then Some ([c], d # s)
      else if c = backslash then
        (if is_lt d then None else map_option (apfst (\<lambda>l. c # d # l)) (literal_end s))
      else map_option (apfst ((#) c)) (literal_end (d # s)))"

definition quotedLiteral :: "jsstr \<Rightarrow> (jsstr \<times> jsstr) option" where
  "quotedLiteral s = do {
     r \<leftarrow> expect [dquote] s;
     (l, r) \<leftarrow> literal_end r;
     Some (dquote # l, r) }"

section \<open>Lemmas\<close>

subsection \<open>Literals and runs\<close>

lemma expect_append [simp]: "expect p (p @ s) = Some s"
  by (simp add: expect_def)

lemma expect_Nil [simp]: "expect [] s = Some s"
  by (simp add: expect_def)

lemma expect_Cons [simp]: "expect (x # p) (y # s) = (if x = y then expect p s else None)"
  by (simp add: expect_def)

lemma expect_Cons_Nil [simp]: "expect (x # p) [] = None"
  by (simp add: expect_def)

lemma span1_append:
  assumes "a \<noteq> []" and "\<forall>c\<in>set a. P c" and "r = [] \<or> \<not> P (hd r)"
  shows "span1 P (a @ r) = Some (a, r)"
proof -
  have "takeWhile P (a @ r) = a" "dropWhile P (a @ r) = r"
    using assms(2,3) by (cases r; simp add: takeWhile_append2 dropWhile_append2 takeWhile_eq_all_conv)+
  with assms(1) show ?thesis by (simp add: span1_def)
qed

lemma quotedName_match:
  assumes "name \<noteq> []" and "dquote \<notin> set name"
  shows "quotedName (dquote # name @ dquote # r) = Some (name, r)"
proof -
  have "span1 (\<lambda>c. c \<noteq> dquote) (name @ dquote # r) = Some (name, dquote # r)"
    using assms by (intro span1_append) auto
  then show ?thesis by (simp add: quotedName_def)
qed

subsection \<open>JSON string literals\<close>

lemma unat_unit: "unat (c :: jschar) < 65536"
proof -
  have "unat c < 2 ^ LENGTH(16)" by (rule unsigned_less)
  then show ?thesis by simp
qed

lemma unat_hex_char: "d < 16 \<Longrightarrow> unat (hex_char d) = (if d < 10 then 48 + d else 87 + d)"
  unfolding hex_char_def by (subst if_distrib [of unat], subst (1 2) unat_of_nat) (simp add: take_bit_nat_eq_self)

lemma hex_char_digit: "d < 16 \<Longrightarrow> hex_digit (hex_char d) = Some d"
  by (auto simp: hex_digit_def is_digit_def word_le_nat_alt unat_hex_char)

lemma hex4_unicode:
  "hex4 [hex_char (unat c div 4096), hex_char (unat c div 256 mod 16), hex_char (unat c div 16 mod 16),
      hex_char (unat c mod 16)] = Some c"
proof -
  have "unat c div 4096 < 16" using unat_unit [of c] by simp
  moreover have "16 * (unat c div 4096) + unat c div 256 mod 16 = unat c div 256"
    "16 * (unat c div 256) + unat c div 16 mod 16 = unat c div 16"
    "16 * (unat c div 16) + unat c mod 16 = unat c"
    using mult_div_mod_eq [of 16 "unat c div 256"] mult_div_mod_eq [of 16 "unat c div 16"]
      mult_div_mod_eq [of 16 "unat c"] by (simp_all add: div_mult2_eq [symmetric])
  ultimately show ?thesis by (simp add: hex4_def hex_char_digit)
qed

text \<open>The units that escapes consist of.\<close>

definition escape_unit :: "jschar \<Rightarrow> bool" where
  "escape_unit c \<longleftrightarrow> c = dquote \<or> c = backslash \<or> is_digit c \<or> (97 \<le> c \<and> c \<le> 122)"

text \<open>The three forms in which a unit is written.\<close>

lemma quote_unit_cases:
  obtains (escape) e where "quote_unit c = [backslash, e]" "simple_escape e = Some c" "escape_unit e"
      "e \<noteq> jsc CHR ''u''"
  | (unicode) "quote_unit c = backslash # jsc CHR ''u'' # [hex_char (unat c div 4096),
      hex_char (unat c div 256 mod 16), hex_char (unat c div 16 mod 16), hex_char (unat c mod 16)]"
  | (plain) "quote_unit c = [c]" "c \<noteq> dquote" "c \<noteq> backslash" "32 \<le> c"
proof (cases "c \<in> {dquote, backslash, 8, 9, 10, 12, 13}")
  case True
  have "\<exists>e. quote_unit c = [backslash, e] \<and> simple_escape e = Some c \<and> escape_unit e \<and> e \<noteq> jsc CHR ''u''"
    using True by (auto simp: quote_unit_def simple_escape_def escape_unit_def js_simps jsc_def)
  then show ?thesis using escape by blast
next
  case False
  show ?thesis
  proof (cases "c < 32 \<or> high_surrogate c \<or> low_surrogate c")
    case True
    with False show ?thesis by (intro unicode) (simp add: quote_unit_def unicode_escape_def js_simps)
  next
    case no: False
    with False show ?thesis by (intro plain) (auto simp: quote_unit_def)
  qed
qed

lemma unquote_unit: "unquote_units (quote_unit c @ s) = map_option ((#) c) (unquote_units s)"
proof (cases c rule: quote_unit_cases)
  case (escape e)
  then show ?thesis by (cases "unquote_units s") simp_all
next
  case unicode
  then show ?thesis by (cases "unquote_units s") (simp_all add: hex4_unicode)
next
  case plain
  then show ?thesis by (auto simp: leD)
qed

lemma surrogate_plain:
  assumes "high_surrogate c \<or> low_surrogate c"
  shows "c \<noteq> dquote" "c \<noteq> backslash" "\<not> c < 32"
  using assms by (auto simp: high_surrogate_def low_surrogate_def word_le_nat_alt word_less_nat_alt)

lemma unquote_quote: "unquote_units (quote_units s @ [dquote]) = Some s"
proof (induction s rule: quote_units.induct)
  case (3 c d s)
  then show ?case
    by (cases "high_surrogate c \<and> low_surrogate d") (auto simp: surrogate_plain unquote_unit)
qed (simp_all add: unquote_unit)

lemma json_string_stringify: "json_string (stringify s) = Some s"
  by (simp add: json_string_def stringify_def unquote_quote)

text \<open>A text without special units is written between quotation marks as it is.\<close>

definition plain_unit :: "jschar \<Rightarrow> bool" where
  "plain_unit c \<longleftrightarrow> 32 \<le> c \<and> c \<noteq> dquote \<and> c \<noteq> backslash \<and> \<not> high_surrogate c \<and> \<not> low_surrogate c"

lemma quote_unit_plain: "plain_unit c \<Longrightarrow> quote_unit c = [c]"
  unfolding plain_unit_def quote_unit_def by (auto simp: word_le_nat_alt word_less_nat_alt)

lemma quote_units_plain: "\<forall>c\<in>set s. plain_unit c \<Longrightarrow> quote_units s = s"
proof (induction s rule: quote_units.induct)
  case (3 c d s)
  then have "\<not> high_surrogate c" by (simp add: plain_unit_def)
  with 3 show ?case by (simp add: quote_unit_plain)
qed (simp_all add: quote_unit_plain)

lemma stringify_plain: "\<forall>c\<in>set s. plain_unit c \<Longrightarrow> stringify s = dquote # s @ [dquote]"
  by (simp add: stringify_def quote_units_plain)

lemma hex_char_escape: "d < 16 \<Longrightarrow> escape_unit (hex_char d)"
  by (auto simp: escape_unit_def is_digit_def word_le_nat_alt unat_hex_char)

lemma quote_unit_units: "x \<in> set (quote_unit c) \<Longrightarrow> escape_unit x \<or> (x = c \<and> 32 \<le> c)"
proof (cases c rule: quote_unit_cases)
  case unicode
  have "unat c div 4096 < 16" using unat_unit [of c] by simp
  moreover have "escape_unit backslash" "escape_unit (jsc CHR ''u'')" by (simp_all add: escape_unit_def jsc_def)
  moreover assume "x \<in> set (quote_unit c)"
  ultimately show ?thesis unfolding unicode by (auto intro: hex_char_escape)
qed (auto simp: escape_unit_def)

lemma quote_units_units: "x \<in> set (quote_units s) \<Longrightarrow> escape_unit x \<or> (x \<in> set s \<and> 32 \<le> x)"
proof (induction s rule: quote_units.induct)
  case (3 c d s)
  then show ?case
    using quote_unit_units [of x c] surrogate_plain(3) [of c] surrogate_plain(3) [of d]
    by (auto split: if_splits simp: not_less)
qed (auto dest: quote_unit_units)

lemma escape_not_lt: "escape_unit c \<Longrightarrow> \<not> is_lt c"
  by (auto simp: escape_unit_def is_lt_def is_digit_def word_le_nat_alt)

lemma literal_end_Cons:
  "c \<noteq> dquote \<Longrightarrow> c \<noteq> backslash \<Longrightarrow> s \<noteq> [] \<Longrightarrow>
    literal_end (c # s) = map_option (apfst ((#) c)) (literal_end s)"
  "\<not> is_lt d \<Longrightarrow> literal_end (backslash # d # s) = map_option (apfst (\<lambda>l. backslash # d # l)) (literal_end s)"
  by (cases s; simp)+

lemma literal_end_escapes:
  "\<forall>c\<in>set h. c \<noteq> dquote \<and> c \<noteq> backslash \<Longrightarrow> s \<noteq> [] \<Longrightarrow>
    literal_end (h @ s) = map_option (apfst ((@) h)) (literal_end s)"
proof (induction h)
  case Nil
  show ?case by (cases "literal_end s") auto
next
  case (Cons c h)
  then show ?case by (cases "literal_end s") (simp_all add: literal_end_Cons(1) apfst_compose comp_def)
qed

lemma hex_char_plain: "d < 16 \<Longrightarrow> hex_char d \<noteq> dquote \<and> hex_char d \<noteq> backslash"
  by (auto simp: word_unat_eq_iff unat_hex_char)

lemma literal_end_unit:
  assumes "s \<noteq> []"
  shows "literal_end (quote_unit c @ s) = map_option (apfst ((@) (quote_unit c))) (literal_end s)"
proof (cases c rule: quote_unit_cases)
  case (escape e)
  then show ?thesis
    by (cases "literal_end s") (simp_all add: literal_end_Cons(2) escape_not_lt apfst_compose comp_def)
next
  case unicode
  let ?h = "[hex_char (unat c div 4096), hex_char (unat c div 256 mod 16), hex_char (unat c div 16 mod 16),
    hex_char (unat c mod 16)]"
  have "unat c div 4096 < 16" using unat_unit [of c] by simp
  then have h: "literal_end (?h @ s) = map_option (apfst ((@) ?h)) (literal_end s)"
    using assms hex_char_plain [of "unat c div 256 mod 16"] hex_char_plain [of "unat c div 16 mod 16"]
      hex_char_plain [of "unat c mod 16"] hex_char_plain [of "unat c div 4096"]
    by (intro literal_end_escapes) auto
  have nolt: "\<not> is_lt (jsc CHR ''u'')" by (simp add: is_lt_def jsc_def)
  show ?thesis
    using h unfolding unicode append_Cons append_Nil literal_end_Cons(2) [OF nolt]
    by (cases "literal_end s") (simp_all add: apfst_compose comp_def del: literal_end.simps)
next
  case plain
  then show ?thesis using assms by (cases "literal_end s") (simp_all add: literal_end_Cons(1) apfst_compose comp_def)
qed

lemma literal_end_quote: "literal_end (quote_units s @ dquote # r) = Some (quote_units s @ [dquote], r)"
proof (induction s rule: quote_units.induct)
  case 1
  show ?case by (cases r) simp_all
next
  case (2 c)
  show ?case by (cases r) (simp_all add: literal_end_unit)
next
  case (3 c d s)
  show ?case
  proof (cases "high_surrogate c \<and> low_surrogate d")
    case True
    with 3 show ?thesis by (simp add: literal_end_Cons(1) surrogate_plain)
  next
    case False
    with 3 show ?thesis by (auto simp: literal_end_unit)
  qed
qed

lemma quotedLiteral_match: "quotedLiteral (stringify s @ r) = Some (stringify s, r)"
  by (simp add: quotedLiteral_def stringify_def literal_end_quote)

end
