(* ===== verification/BillingRules.thy ===== *)
theory BillingRules
  imports JS_Matching JSON_Values
begin

text \<open>
  Request rules of billing expressions (\<open>features/pricing/lib/billing-expr.ts\<close>): the conditions of
  the rule editor, the expression text built from them, the parser that reads it back, and the
  composition of a billing expression with its rules. Regular expressions are matchers of
  \<open>JS_Matching\<close>; \<open>json_other\<close> stands for \<open>JSON.parse\<close> on texts that are not string literals and
  \<open>num_text\<close> for the decimal text of a number inside such a value.
\<close>

section \<open>Definitions\<close>

subsection \<open>Conditions\<close>

datatype TimeFunc = Hour | Minute | Weekday | Month | Day

definition TIME_FUNCS :: "TimeFunc list" where
  "TIME_FUNCS = [Hour, Minute, Weekday, Month, Day]"

fun timeFuncName :: "TimeFunc \<Rightarrow> jsstr" where
  "timeFuncName Hour = js ''hour''"
| "timeFuncName Minute = js ''minute''"
| "timeFuncName Weekday = js ''weekday''"
| "timeFuncName Month = js ''month''"
| "timeFuncName Day = js ''day''"

definition MATCH_EQ :: jsstr where "MATCH_EQ = js ''eq''"

definition MATCH_CONTAINS :: jsstr where "MATCH_CONTAINS = js ''contains''"

definition MATCH_GT :: jsstr where "MATCH_GT = js ''gt''"

definition MATCH_GTE :: jsstr where "MATCH_GTE = js ''gte''"

definition MATCH_LT :: jsstr where "MATCH_LT = js ''lt''"

definition MATCH_LTE :: jsstr where "MATCH_LTE = js ''lte''"

definition MATCH_EXISTS :: jsstr where "MATCH_EXISTS = js ''exists''"

definition MATCH_RANGE :: jsstr where "MATCH_RANGE = js ''range''"

datatype ConditionSource = ParamSource | HeaderSource | TimeSource

record ParamHeaderCondition =
  ph_source :: ConditionSource
  ph_path :: jsstr
  ph_mode :: jsstr
  ph_value :: jsstr

record TimeCondition =
  timeFunc :: TimeFunc
  timezone :: jsstr
  tc_mode :: jsstr
  tc_value :: jsstr
  rangeStart :: jsstr
  rangeEnd :: jsstr

datatype RequestCondition = TimeCond TimeCondition | ParamHeaderCond ParamHeaderCondition

record RequestRuleGroup =
  conditions :: "RequestCondition list"
  multiplier :: jsstr

subsection \<open>Numeric literals\<close>

text \<open>\<open>/^-?(?:\d+\.?\d*|\.\d+)(?:[eE][+-]?\d+)?$/\<close>: sign, mantissa and exponent.\<close>

definition drop_opt :: "jschar list \<Rightarrow> jsstr \<Rightarrow> jsstr" where
  "drop_opt cs s = (case s of c # r \<Rightarrow> if c \<in> set cs then r else s | [] \<Rightarrow> [])"

definition mantissaRest :: "jsstr \<Rightarrow> jsstr option" where
  "mantissaRest s =
     (case span1 is_digit s of
        Some (_, r) \<Rightarrow> Some (dropWhile is_digit (drop_opt (js ''.'') r))
      | None \<Rightarrow> do { r \<leftarrow> expect (js ''.'') s; (_, r) \<leftarrow> span1 is_digit r; Some r })"

definition exponentOk :: "jsstr \<Rightarrow> bool" where
  "exponentOk s = (case s of [] \<Rightarrow> True
     | c # r \<Rightarrow> c \<in> set (js ''eE'') \<and> all1 is_digit (drop_opt (js ''+-'') r) \<noteq> None)"

definition isNumericLiteral :: "jsstr \<Rightarrow> bool" where
  "isNumericLiteral s =
     (case mantissaRest (drop_opt (js ''-'') s) of Some r \<Rightarrow> exponentOk r | None \<Rightarrow> False)"

text \<open>The class \<open>[\d.eE+-]\<close>.\<close>

definition numChar :: "jschar \<Rightarrow> bool" where
  "numChar c \<longleftrightarrow> is_digit c \<or> c \<in> set (js ''.eE+-'')"

subsection \<open>Splitting at the top level\<close>

definition parenDelta :: "jschar \<Rightarrow> int" where
  "parenDelta c = (if c = jsc CHR ''('' then 1 else 0) - (if c = jsc CHR '')'' then 1 else 0)"

text \<open>The pieces between separators outside parentheses: \<open>skip\<close> counts the units of a separator
  still to be passed, \<open>cur\<close> is the current piece.\<close>

fun splitTop :: "jsstr \<Rightarrow> nat \<Rightarrow> int \<Rightarrow> jsstr \<Rightarrow> jsstr \<Rightarrow> jsstr list" where
  "splitTop sep skip depth cur [] = [trim cur]"
| "splitTop sep (Suc n) depth cur (c # s) = splitTop sep n depth cur s"
| "splitTop sep 0 depth cur (c # s) =
     (let d = depth + parenDelta c in
      if d = 0 \<and> prefix sep (c # s) then trim cur # splitTop sep (length sep - 1) d [] s
      else splitTop sep 0 d (cur @ [c]) s)"

definition splitTopLevelMultiply :: "jsstr \<Rightarrow> jsstr list" where
  "splitTopLevelMultiply expr = filter (\<lambda>p. p \<noteq> []) (splitTop (js '' * '') 0 0 [] expr)"

definition splitTopLevelAnd :: "jsstr \<Rightarrow> jsstr list" where
  "splitTopLevelAnd expr = filter (\<lambda>p. p \<noteq> []) (splitTop (js '' && '') 0 0 [] expr)"

subsection \<open>Parsing conditions\<close>

text \<open>\<open>JSON.parse\<close>; texts that are no string literals are read by a parameter.\<close>

definition json_parse :: "(jsstr \<Rightarrow> json option) \<Rightarrow> jsstr \<Rightarrow> json option" where
  "json_parse json_other s =
     (if prefix [dquote] s then map_option JStr (json_string s) else json_other s)"

definition parseExprLiteral ::
  "(jsstr \<Rightarrow> json option) \<Rightarrow> (jsnum \<Rightarrow> jsstr) \<Rightarrow> jsstr \<Rightarrow> jsstr option" where
  "parseExprLiteral json_other num_text raw =
     (let txt' = trim raw in
      if txt' = js ''true'' \<or> txt' = js ''false'' then Some txt'
      else if isNumericLiteral txt' then Some txt'
      else case json_parse json_other txt' of
          None \<Rightarrow> None
        | Some JNull \<Rightarrow> None
        | Some v \<Rightarrow> Some (jsString num_text v))"

definition matchTimeFunc :: "jsstr \<Rightarrow> (TimeFunc \<times> jsstr) option" where
  "matchTimeFunc s =
     (case filter (\<lambda>f. prefix (timeFuncName f) s) TIME_FUNCS of
        f # _ \<Rightarrow> Some (f, drop (length (timeFuncName f)) s)
      | [] \<Rightarrow> None)"

text \<open>\<open>f("tz")\<close>.\<close>

definition timeCall :: "jsstr \<Rightarrow> (TimeFunc \<times> jsstr \<times> jsstr) option" where
  "timeCall s = do {
     (f, r) \<leftarrow> matchTimeFunc s;
     r \<leftarrow> expect (js ''('') r;
     (tz, r) \<leftarrow> quotedName r;
     r \<leftarrow> expect (js '')'') r;
     Some (f, tz, r) }"

text \<open>\<open>f("tz") >= a || f("tz") < b\<close> and \<open>f("tz") op v\<close>.\<close>

definition timeRange :: "jsstr \<Rightarrow> TimeCondition option" where
  "timeRange s = do {
     (f, tz, r) \<leftarrow> timeCall s;
     r \<leftarrow> expect (js '' >= '') r;
     (a, r) \<leftarrow> span1 numChar r;
     r \<leftarrow> expect (js '' || '' @ timeFuncName f @ js ''('' @ [dquote] @ tz @ [dquote] @ js '') < '') r;
     b \<leftarrow> all1 numChar r;
     Some \<lparr>timeFunc = f, timezone = tz, tc_mode = MATCH_RANGE, tc_value = [], rangeStart = a, rangeEnd = b\<rparr> }"

definition matchOp :: "(jsstr \<times> jsstr) list \<Rightarrow> jsstr \<Rightarrow> (jsstr \<times> jsstr) option" where
  "matchOp ops s =
     (case filter (\<lambda>(op, mode). prefix (op @ js '' '') s) ops of
        (op, mode) # _ \<Rightarrow> Some (mode, drop (length op + 1) s)
      | [] \<Rightarrow> None)"

definition TIME_OPS :: "(jsstr \<times> jsstr) list" where
  "TIME_OPS = [(js ''=='', MATCH_EQ), (js ''>='', MATCH_GTE), (js ''<'', MATCH_LT)]"

definition PARAM_OPS :: "(jsstr \<times> jsstr) list" where
  "PARAM_OPS = [(js ''>'', MATCH_GT), (js ''>='', MATCH_GTE), (js ''<'', MATCH_LT), (js ''<='', MATCH_LTE)]"

definition timeCompare :: "jsstr \<Rightarrow> TimeCondition option" where
  "timeCompare s = do {
     (f, tz, r) \<leftarrow> timeCall s;
     r \<leftarrow> expect (js '' '') r;
     (mode, r) \<leftarrow> matchOp TIME_OPS r;
     v \<leftarrow> all1 numChar r;
     Some \<lparr>timeFunc = f, timezone = tz, tc_mode = mode, tc_value = v, rangeStart = [], rangeEnd = []\<rparr> }"

definition tryParseTimeCondition :: "jsstr \<Rightarrow> TimeCondition option" where
  "tryParseTimeCondition expr =
     (case timeRange expr of
        Some c \<Rightarrow> Some c
      | None \<Rightarrow>
          (case (if prefix (js ''('') expr \<and> suffix (js '')'') expr then timeRange (butlast (tl expr)) else None) of
             Some c \<Rightarrow> Some c
           | None \<Rightarrow> timeCompare expr))"

text \<open>The patterns of \<open>param\<close> and \<open>header\<close> conditions. A pattern that compares two names gives
  both.\<close>

definition sourceName :: "ConditionSource \<Rightarrow> jsstr" where
  "sourceName src = (case src of ParamSource \<Rightarrow> js ''param'' | HeaderSource \<Rightarrow> js ''header'' | TimeSource \<Rightarrow> js ''time'')"

definition sourceCall :: "ConditionSource \<Rightarrow> jsstr \<Rightarrow> (jsstr \<times> jsstr) option" where
  "sourceCall src s = do {
     r \<leftarrow> expect (sourceName src @ js ''('') s;
     (path, r) \<leftarrow> quotedName r;
     r \<leftarrow> expect (js '')'') r;
     Some (path, r) }"

definition existsPattern :: "ConditionSource \<Rightarrow> jsstr \<Rightarrow> jsstr \<Rightarrow> jsstr option" where
  "existsPattern src tail s = do {
     (path, r) \<leftarrow> sourceCall src s;
     if r = tail then Some path else None }"

definition hasPattern :: "ConditionSource \<Rightarrow> jsstr \<Rightarrow> (jsstr \<times> jsstr) option" where
  "hasPattern src s = do {
     r \<leftarrow> expect (js ''has('') s;
     (path, r) \<leftarrow> sourceCall src r;
     r \<leftarrow> expect (js '', '') r;
     (lit, r) \<leftarrow> quotedLiteral r;
     if r = js '')'' then Some (path, lit) else None }"

definition paramContainsPattern :: "jsstr \<Rightarrow> (jsstr \<times> jsstr \<times> jsstr) option" where
  "paramContainsPattern s = do {
     (path, r) \<leftarrow> sourceCall ParamSource s;
     r \<leftarrow> expect (js '' != nil && '') r;
     (path', lit) \<leftarrow> hasPattern ParamSource r;
     Some (path, path', lit) }"

definition paramComparePattern :: "jsstr \<Rightarrow> (jsstr \<times> jsstr \<times> jsstr \<times> jsstr) option" where
  "paramComparePattern s = do {
     (path, r) \<leftarrow> sourceCall ParamSource s;
     r \<leftarrow> expect (js '' != nil && '') r;
     (path', r) \<leftarrow> sourceCall ParamSource r;
     r \<leftarrow> expect (js '' '') r;
     (mode, r) \<leftarrow> matchOp PARAM_OPS r;
     v \<leftarrow> all1 numChar r;
     Some (path, path', mode, v) }"

definition equalsPattern :: "ConditionSource \<Rightarrow> jsstr \<Rightarrow> (jsstr \<times> jsstr) option" where
  "equalsPattern src s = do {
     (path, r) \<leftarrow> sourceCall src s;
     r \<leftarrow> expect (js '' == '') r;
     v \<leftarrow> all1 (\<lambda>c. \<not> is_lt c) r;
     Some (path, v) }"

text \<open>\<open>Inl\<close> is the exception that \<open>JSON.parse\<close> raises on a malformed literal.\<close>

datatype ParseError = SyntaxError

definition containsCondition ::
  "ConditionSource \<Rightarrow> jsstr \<Rightarrow> jsstr \<Rightarrow> ParseError + RequestCondition option" where
  "containsCondition src path lit =
     (case json_string lit of
        None \<Rightarrow> Inl SyntaxError
      | Some v \<Rightarrow> Inr (Some (ParamHeaderCond
          \<lparr>ph_source = src, ph_path = path, ph_mode = MATCH_CONTAINS, ph_value = v\<rparr>)))"

definition equalsCondition ::
  "(jsstr \<Rightarrow> json option) \<Rightarrow> (jsnum \<Rightarrow> jsstr) \<Rightarrow> ConditionSource \<Rightarrow> jsstr \<Rightarrow> jsstr \<Rightarrow> RequestCondition option" where
  "equalsCondition json_other num_text src path v =
     map_option (\<lambda>w. ParamHeaderCond \<lparr>ph_source = src, ph_path = path, ph_mode = MATCH_EQ, ph_value = w\<rparr>)
       (parseExprLiteral json_other num_text v)"

definition tryParseRequestCondition ::
  "(jsstr \<Rightarrow> json option) \<Rightarrow> (jsnum \<Rightarrow> jsstr) \<Rightarrow> jsstr \<Rightarrow> ParseError + RequestCondition option" where
  "tryParseRequestCondition json_other num_text expr =
     (case tryParseTimeCondition expr of Some c \<Rightarrow> Inr (Some (TimeCond c)) | None \<Rightarrow>
      case existsPattern HeaderSource (js '' != '' @ [dquote, dquote]) expr of
        Some path \<Rightarrow> Inr (Some (ParamHeaderCond
          \<lparr>ph_source = HeaderSource, ph_path = path, ph_mode = MATCH_EXISTS, ph_value = []\<rparr>)) | None \<Rightarrow>
      case existsPattern ParamSource (js '' != nil'') expr of
        Some path \<Rightarrow> Inr (Some (ParamHeaderCond
          \<lparr>ph_source = ParamSource, ph_path = path, ph_mode = MATCH_EXISTS, ph_value = []\<rparr>)) | None \<Rightarrow>
      case hasPattern HeaderSource expr of
        Some (path, lit) \<Rightarrow> containsCondition HeaderSource path lit | None \<Rightarrow>
      let contains = (case paramContainsPattern expr of
            Some (path, path', lit) \<Rightarrow> if path = path' then Some (path, lit) else None | None \<Rightarrow> None);
          compare = (case paramComparePattern expr of
            Some (path, path', mode, v) \<Rightarrow> if path = path' then Some (path, mode, v) else None | None \<Rightarrow> None) in
      case contains of Some (path, lit) \<Rightarrow> containsCondition ParamSource path lit | None \<Rightarrow>
      case compare of
        Some (path, mode, v) \<Rightarrow> Inr (Some (ParamHeaderCond
          \<lparr>ph_source = ParamSource, ph_path = path, ph_mode = mode, ph_value = v\<rparr>)) | None \<Rightarrow>
      case equalsPattern ParamSource expr of
        Some (path, v) \<Rightarrow> Inr (equalsCondition json_other num_text ParamSource path v) | None \<Rightarrow>
      case equalsPattern HeaderSource expr of
        Some (path, v) \<Rightarrow> Inr (equalsCondition json_other num_text HeaderSource path v) | None \<Rightarrow>
      Inr None)"

subsection \<open>Parsing rules\<close>

text \<open>A loop that parses every item, and stops at the first that is rejected or raises.\<close>

fun parseEach :: "('x \<Rightarrow> 'e + 'a option) \<Rightarrow> 'x list \<Rightarrow> 'e + 'a list option" where
  "parseEach f [] = Inr (Some [])"
| "parseEach f (x # xs) =
     (case f x of
        Inl e \<Rightarrow> Inl e
      | Inr None \<Rightarrow> Inr None
      | Inr (Some y) \<Rightarrow>
          (case parseEach f xs of
             Inl e \<Rightarrow> Inl e
           | Inr None \<Rightarrow> Inr None
           | Inr (Some ys) \<Rightarrow> Inr (Some (y # ys))))"

text \<open>\<open>/^\((.+) \? ([\d.eE+-]+) : 1\)$/s\<close>: the pattern is anchored at its end, so the number is the
  last run of its class before \<open> : 1)\<close>.\<close>

definition matchFactor :: "jsstr \<Rightarrow> (jsstr \<times> jsstr) option" where
  "matchFactor part =
     (if prefix (js ''('') part \<and> suffix (js '' : 1)'') (tl part) then
        let body = take (length part - 6) (tl part);
            num = rev (takeWhile numChar (rev body));
            pre = take (length body - length num) body in
        if num \<noteq> [] \<and> suffix (js '' ? '') pre \<and> length pre > 3
        then Some (take (length pre - 3) pre, num) else None
      else None)"

definition tryParseRuleGroupFactor ::
  "(jsstr \<Rightarrow> json option) \<Rightarrow> (jsnum \<Rightarrow> jsstr) \<Rightarrow> jsstr \<Rightarrow> ParseError + RequestRuleGroup option" where
  "tryParseRuleGroupFactor json_other num_text part =
     (case matchFactor part of
        None \<Rightarrow> Inr None
      | Some (conditionStr, num) \<Rightarrow>
          (case parseEach (\<lambda>ap. tryParseRequestCondition json_other num_text (trim ap)) (splitTopLevelAnd conditionStr) of
             Inl e \<Rightarrow> Inl e
           | Inr None \<Rightarrow> Inr None
           | Inr (Some conds) \<Rightarrow>
               if length conds = 0 then Inr None
               else Inr (Some \<lparr>conditions = conds, multiplier = num\<rparr>)))"

definition tryParseRequestRuleExpr ::
  "(jsstr \<Rightarrow> json option) \<Rightarrow> (jsnum \<Rightarrow> jsstr) \<Rightarrow> jsstr \<Rightarrow> ParseError + RequestRuleGroup list option" where
  "tryParseRequestRuleExpr json_other num_text expr =
     (let trimmed = trim expr in
      if trimmed = [] then Inr (Some [])
      else parseEach (tryParseRuleGroupFactor json_other num_text) (splitTopLevelMultiply trimmed))"

subsection \<open>Combining and splitting\<close>

fun closesAtEnd :: "int \<Rightarrow> jsstr \<Rightarrow> bool" where
  "closesAtEnd depth [] = (depth = 0)"
| "closesAtEnd depth (c # s) =
     (let d = depth + parenDelta c in if d = 0 \<and> s \<noteq> [] then False else closesAtEnd d s)"

definition hasFullOuterParens :: "jsstr \<Rightarrow> bool" where
  "hasFullOuterParens expr \<longleftrightarrow> prefix (js ''('') expr \<and> suffix (js '')'') expr \<and> closesAtEnd 0 expr"

function unwrapLoop :: "jsstr \<Rightarrow> jsstr" where
  "unwrapLoop current = (if hasFullOuterParens current then unwrapLoop (trim (butlast (tl current))) else current)"
  by pat_completeness auto

definition unwrapOuterParens :: "jsstr \<Rightarrow> jsstr" where
  "unwrapOuterParens expr = unwrapLoop (trim expr)"

record BillingParts =
  billingExpr :: jsstr
  requestRuleExpr :: jsstr

text \<open>The test of one factor: whether it parses to at least one rule; it may raise.\<close>

fun partitionParts ::
  "(jsstr \<Rightarrow> ParseError + RequestRuleGroup list option) \<Rightarrow> jsstr list \<Rightarrow> ParseError + jsstr list \<times> jsstr list" where
  "partitionParts parse [] = Inr ([], [])"
| "partitionParts parse (part # parts) =
     (case parse part of
        Inl e \<Rightarrow> Inl e
      | Inr parsed \<Rightarrow>
          (case partitionParts parse parts of
             Inl e \<Rightarrow> Inl e
           | Inr (ruleParts, baseParts) \<Rightarrow>
               (case parsed of
                  Some (g # gs) \<Rightarrow> Inr (part # ruleParts, baseParts)
                | _ \<Rightarrow> Inr (ruleParts, part # baseParts))))"

definition splitBillingExprAndRequestRules ::
  "(jsstr \<Rightarrow> json option) \<Rightarrow> (jsnum \<Rightarrow> jsstr) \<Rightarrow> jsstr \<Rightarrow> ParseError + BillingParts" where
  "splitBillingExprAndRequestRules json_other num_text expr =
     (let trimmed = trim expr in
      if trimmed = [] then Inr \<lparr>billingExpr = [], requestRuleExpr = []\<rparr>
      else
        let parts = splitTopLevelMultiply trimmed in
        if length parts \<le> 1 then Inr \<lparr>billingExpr = trimmed, requestRuleExpr = []\<rparr>
        else case partitionParts (tryParseRequestRuleExpr json_other num_text) parts of
            Inl e \<Rightarrow> Inl e
          | Inr (ruleParts, baseParts) \<Rightarrow>
              if length ruleParts = 0 \<or> length baseParts \<noteq> 1
              then Inr \<lparr>billingExpr = trimmed, requestRuleExpr = []\<rparr>
              else Inr \<lparr>billingExpr = unwrapOuterParens (hd baseParts),
                        requestRuleExpr = join (js '' * '') ruleParts\<rparr>)"

definition combineBillingExpr :: "jsstr \<Rightarrow> jsstr \<Rightarrow> jsstr" where
  "combineBillingExpr baseExpr ruleExpr =
     (let base = trim baseExpr; rules = trim ruleExpr in
      if base = [] then [] else if rules = [] then base
      else js ''('' @ base @ js '') * '' @ rules)"

subsection \<open>Editor\<close>

definition createEmptyCondition :: ParamHeaderCondition where
  "createEmptyCondition = \<lparr>ph_source = ParamSource, ph_path = [], ph_mode = MATCH_EQ, ph_value = []\<rparr>"

definition createEmptyTimeCondition :: TimeCondition where
  "createEmptyTimeCondition = \<lparr>timeFunc = Hour, timezone = js ''Asia/Shanghai'', tc_mode = MATCH_GTE,
     tc_value = [], rangeStart = [], rangeEnd = []\<rparr>"

definition createEmptyRuleGroup :: RequestRuleGroup where
  "createEmptyRuleGroup = \<lparr>conditions = [ParamHeaderCond createEmptyCondition], multiplier = []\<rparr>"

definition createEmptyTimeRuleGroup :: RequestRuleGroup where
  "createEmptyTimeRuleGroup = \<lparr>conditions = [TimeCond createEmptyTimeCondition], multiplier = []\<rparr>"

definition getRequestRuleMatchOptions :: "ConditionSource \<Rightarrow> (jsstr \<times> jsstr) list" where
  "getRequestRuleMatchOptions src =
     (if src = TimeSource then
        [(MATCH_EQ, js ''Equals''), (MATCH_GTE, js ''Greater than or equal''),
         (MATCH_LT, js ''Less than''), (MATCH_RANGE, js ''Overnight range'')]
      else
        let base = [(MATCH_EQ, js ''Equals''), (MATCH_CONTAINS, js ''Contains''), (MATCH_EXISTS, js ''Exists'')] in
        if src = HeaderSource then base
        else base @ [(MATCH_GT, js ''Greater than''), (MATCH_GTE, js ''Greater than or equal''),
          (MATCH_LT, js ''Less than''), (MATCH_LTE, js ''Less than or equal'')])"

definition isTimeFunc :: "jsstr option \<Rightarrow> TimeFunc option" where
  "isTimeFunc v = (case v of None \<Rightarrow> None | Some name \<Rightarrow> find (\<lambda>f. timeFuncName f = name) TIME_FUNCS)"

text \<open>A condition as the editor hands it over: any property may be missing.\<close>

record PartialCondition =
  pc_source :: "jsstr option"
  pc_timeFunc :: "jsstr option"
  pc_timezone :: "jsstr option"
  pc_mode :: "jsstr option"
  pc_path :: "jsstr option"
  pc_value :: "jsstr option"
  pc_rangeStart :: "jsstr option"
  pc_rangeEnd :: "jsstr option"

definition knownMode :: "ConditionSource \<Rightarrow> jsstr option \<Rightarrow> jsstr \<Rightarrow> jsstr" where
  "knownMode src mode fallback =
     (case mode of None \<Rightarrow> fallback
      | Some m \<Rightarrow> if list_ex (\<lambda>item. fst item = m) (getRequestRuleMatchOptions src) then m else fallback)"

definition normalizeCondition :: "PartialCondition option \<Rightarrow> RequestCondition" where
  "normalizeCondition cond =
     (let get = (\<lambda>sel. case cond of None \<Rightarrow> None | Some c \<Rightarrow> sel c);
          source = (if get pc_source = Some (js ''time'') then TimeSource
            else if get pc_source = Some (js ''header'') then HeaderSource else ParamSource) in
      if source = TimeSource then TimeCond
        \<lparr>timeFunc = nullish (isTimeFunc (get pc_timeFunc)) Hour,
         timezone = or_str (get pc_timezone) (js ''Asia/Shanghai''),
         tc_mode = knownMode TimeSource (get pc_mode) MATCH_GTE,
         tc_value = nullish (get pc_value) [],
         rangeStart = nullish (get pc_rangeStart) [],
         rangeEnd = nullish (get pc_rangeEnd) []\<rparr>
      else ParamHeaderCond
        \<lparr>ph_source = source, ph_path = or_str (get pc_path) [],
         ph_mode = knownMode source (get pc_mode) MATCH_EQ,
         ph_value = nullish (get pc_value) []\<rparr>)"

text \<open>\<open>normalizeCondition\<close> on a condition with every property present, as the builders call it.\<close>

definition normalizeTimeCondition :: "TimeCondition \<Rightarrow> TimeCondition" where
  "normalizeTimeCondition cond =
     cond\<lparr>timezone := (if timezone cond = [] then js ''Asia/Shanghai'' else timezone cond),
       tc_mode := knownMode TimeSource (Some (tc_mode cond)) MATCH_GTE\<rparr>"

definition normalizeParamHeaderCondition :: "ParamHeaderCondition \<Rightarrow> ParamHeaderCondition" where
  "normalizeParamHeaderCondition cond =
     (let source = (if ph_source cond = HeaderSource then HeaderSource else ParamSource) in
      cond\<lparr>ph_source := source,
        ph_mode := knownMode source (Some (ph_mode cond)) MATCH_EQ\<rparr>)"

definition buildExprLiteral :: "jsstr \<Rightarrow> jsstr \<Rightarrow> jsstr" where
  "buildExprLiteral mode v =
     (let txt' = trim v in
      if mode = MATCH_CONTAINS then stringify txt'
      else if txt' = js ''true'' \<or> txt' = js ''false'' then txt'
      else if isNumericLiteral txt' then txt'
      else stringify txt')"

definition timeOp :: "jsstr \<Rightarrow> jsstr" where
  "timeOp mode = (if mode = MATCH_EQ then js ''=='' else if mode = MATCH_GTE then js ''>=''
     else if mode = MATCH_LT then js ''<'' else js ''=='')"

definition buildTimeConditionExpr :: "TimeCondition \<Rightarrow> jsstr" where
  "buildTimeConditionExpr cond =
     (let normalized = normalizeTimeCondition cond;
          fn = timeFuncName (timeFunc normalized) @ js ''('' @ stringify (timezone normalized) @ js '')'' in
      if tc_mode normalized = MATCH_RANGE then
        let a = trim (rangeStart normalized); b = trim (rangeEnd normalized) in
        if \<not> isNumericLiteral a \<or> \<not> isNumericLiteral b then []
        else fn @ js '' >= '' @ a @ js '' || '' @ fn @ js '' < '' @ b
      else
        let v = trim (tc_value normalized) in
        if \<not> isNumericLiteral v then []
        else fn @ js '' '' @ timeOp (tc_mode normalized) @ js '' '' @ v)"

definition paramOp :: "jsstr \<Rightarrow> jsstr" where
  "paramOp mode = (if mode = MATCH_GT then js ''>'' else if mode = MATCH_GTE then js ''>=''
     else if mode = MATCH_LT then js ''<'' else js ''<='')"

definition buildRequestConditionExpr :: "RequestCondition \<Rightarrow> jsstr" where
  "buildRequestConditionExpr c = (case c of
     TimeCond cond \<Rightarrow> buildTimeConditionExpr cond
   | ParamHeaderCond cond \<Rightarrow>
       let normalized = normalizeParamHeaderCondition cond;
           path = trim (ph_path normalized);
           mode = ph_mode normalized;
           sourceExpr = sourceName (ph_source normalized) @ js ''('' @ stringify path @ js '')'' in
       if path = [] then []
       else if mode = MATCH_EXISTS then
         (if ph_source normalized = HeaderSource then sourceExpr @ js '' != '' @ [dquote, dquote]
          else sourceExpr @ js '' != nil'')
       else if mode = MATCH_CONTAINS then
         (if ph_source normalized = HeaderSource
          then js ''has('' @ sourceExpr @ js '', '' @ buildExprLiteral mode (ph_value normalized) @ js '')''
          else sourceExpr @ js '' != nil && has('' @ sourceExpr @ js '', ''
            @ buildExprLiteral mode (ph_value normalized) @ js '')'')
       else if mode \<in> {MATCH_GT, MATCH_GTE, MATCH_LT, MATCH_LTE} then
         let numText = trim (ph_value normalized) in
         if \<not> isNumericLiteral numText then []
         else sourceExpr @ js '' != nil && '' @ sourceExpr @ js '' '' @ paramOp mode @ js '' '' @ numText
       else sourceExpr @ js '' == '' @ buildExprLiteral mode (ph_value normalized))"

definition buildRuleGroupFactor :: "RequestRuleGroup \<Rightarrow> jsstr" where
  "buildRuleGroupFactor grp =
     (let mult = trim (multiplier grp) in
      if \<not> isNumericLiteral mult then []
      else
        let condExprs = filter (\<lambda>e. e \<noteq> []) (map buildRequestConditionExpr (conditions grp)) in
        if length condExprs = 0 then []
        else
          let combined = (if length condExprs = 1 then hd condExprs
            else join (js '' && '') (map (\<lambda>e. if js_includes e (js '' || '') then js ''('' @ e @ js '')'' else e) condExprs)) in
          js ''('' @ combined @ js '' ? '' @ mult @ js '' : 1)'')"

definition buildRequestRuleExpr :: "RequestRuleGroup list \<Rightarrow> jsstr" where
  "buildRequestRuleExpr groups =
     join (js '' * '') (filter (\<lambda>e. e \<noteq> []) (map buildRuleGroupFactor groups))"

section \<open>Termination\<close>

lemma trim_length: "length (trim s) \<le> length s"
  unfolding trim_def trim_start_def
  by (metis length_dropWhile_le length_rev le_trans)

termination unwrapLoop
proof (relation "measure length", goal_cases)
  case (2 current)
  then have "current \<noteq> []" by (auto simp: hasFullOuterParens_def js_simps)
  then show ?case using trim_length [of "butlast (tl current)"] by (cases current) auto
qed simp

declare unwrapLoop.simps [simp del]

section \<open>Normal conditions\<close>

text \<open>A complete condition as the argument of \<open>normalizeCondition\<close>.\<close>

fun asPartial :: "RequestCondition \<Rightarrow> PartialCondition" where
  "asPartial (TimeCond c) =
     \<lparr>pc_source = Some (js ''time''), pc_timeFunc = Some (timeFuncName (timeFunc c)),
      pc_timezone = Some (timezone c), pc_mode = Some (tc_mode c), pc_path = None,
      pc_value = Some (tc_value c), pc_rangeStart = Some (rangeStart c), pc_rangeEnd = Some (rangeEnd c)\<rparr>"
| "asPartial (ParamHeaderCond c) =
     \<lparr>pc_source = Some (sourceName (ph_source c)), pc_timeFunc = None, pc_timezone = None,
      pc_mode = Some (ph_mode c), pc_path = Some (ph_path c), pc_value = Some (ph_value c),
      pc_rangeStart = None, pc_rangeEnd = None\<rparr>"

lemma normalizeCondition_complete:
  "normalizeCondition (Some (asPartial (TimeCond c))) = TimeCond (normalizeTimeCondition c)"
  "ph_source p \<noteq> TimeSource \<Longrightarrow>
    normalizeCondition (Some (asPartial (ParamHeaderCond p))) = ParamHeaderCond (normalizeParamHeaderCondition p)"
proof -
  have "isTimeFunc (Some (timeFuncName f)) = Some f" for f
    by (cases f) (simp_all add: isTimeFunc_def TIME_FUNCS_def)
  then show "normalizeCondition (Some (asPartial (TimeCond c))) = TimeCond (normalizeTimeCondition c)"
    by (simp add: normalizeCondition_def normalizeTimeCondition_def or_str_def)
  show "ph_source p \<noteq> TimeSource \<Longrightarrow>
    normalizeCondition (Some (asPartial (ParamHeaderCond p))) = ParamHeaderCond (normalizeParamHeaderCondition p)"
    by (cases "ph_source p")
      (simp_all add: normalizeCondition_def normalizeParamHeaderCondition_def sourceName_def or_str_def Let_def)
qed

end
