(* ===== verification/BillingSplit.thy ===== *)
theory BillingSplit
  imports BillingRules
begin

text \<open>
  Facts about the texts of billing expressions: numeric literals, nesting of parentheses, and the
  splitting of a joined text at its separators outside parentheses. A separator is an interface,
  stated as a locale, with one interpretation for each of the two separators of the sources.
\<close>

section \<open>Numeric literals\<close>

lemma numChar_jsc [js_simps]: "numChar (jsc c) \<longleftrightarrow> is_digit (jsc c) \<or> c \<in> set ''.eE+-''"
  by (auto simp: numChar_def js_simps)

lemma numChar_not_ws: "numChar c \<Longrightarrow> \<not> is_ws c"
  by (auto simp: numChar_def digit_not_ws js_simps)

lemma numChar_neq:
  assumes "numChar c"
  shows "c \<noteq> jsc CHR '' ''" "c \<noteq> jsc CHR ''(''" "c \<noteq> jsc CHR '')''" "c \<noteq> jsc CHR ''&''" "c \<noteq> jsc CHR ''|''"
    "c \<noteq> dquote" "c \<noteq> jsc CHR ''t''" "c \<noteq> jsc CHR ''f''"
  using assms by (auto simp: numChar_def js_simps) (auto simp: is_digit_def jsc_def)

lemma drop_opt_split: "\<exists>p. s = p @ drop_opt cs s \<and> set p \<subseteq> set cs"
  by (cases s) (auto simp: drop_opt_def intro: exI [of _ "[]"] exI [of _ "[hd s]"])

lemma span1_Some: "span1 P s = Some (a, r) \<Longrightarrow> s = a @ r \<and> a \<noteq> [] \<and> (\<forall>c\<in>set a. P c)"
  by (auto simp: span1_def split: if_splits dest: set_takeWhileD)

lemma expect_Some: "expect p s = Some r \<Longrightarrow> s = p @ r"
  by (auto simp: expect_def prefix_def split: if_splits)

lemma mantissaRest_split: "mantissaRest s = Some r \<Longrightarrow> \<exists>m. s = m @ r \<and> m \<noteq> [] \<and> (\<forall>c\<in>set m. numChar c)"
proof (cases "span1 is_digit s")
  case None
  moreover assume "mantissaRest s = Some r"
  ultimately obtain u a where "expect (js ''.'') s = Some u" "span1 is_digit u = Some (a, r)"
    by (auto simp: mantissaRest_def split: Option.bind_splits)
  with expect_Some span1_Some have "s = js ''.'' @ a @ r" "\<forall>c\<in>set a. is_digit c" by blast+
  then show ?thesis by (intro exI [of _ "js ''.'' @ a"]) (auto simp: numChar_def js_simps)
next
  case (Some ar)
  moreover assume "mantissaRest s = Some r"
  ultimately obtain a u where u: "span1 is_digit s = Some (a, u)" "r = dropWhile is_digit (drop_opt (js ''.'') u)"
    by (cases ar) (auto simp: mantissaRest_def)
  obtain p where p: "u = p @ drop_opt (js ''.'') u" "set p \<subseteq> set (js ''.'')" using drop_opt_split by blast
  let ?d = "takeWhile is_digit (drop_opt (js ''.'') u)"
  have "u = p @ ?d @ r" using p(1) u(2) by (metis takeWhile_dropWhile_id)
  moreover have "s = a @ u" "a \<noteq> []" "\<forall>c\<in>set a. is_digit c" using span1_Some [OF u(1)] by simp_all
  ultimately have "s = (a @ p @ ?d) @ r" "a @ p @ ?d \<noteq> []" by simp_all
  moreover have "\<forall>c\<in>set (a @ p @ ?d). numChar c"
    using \<open>\<forall>c\<in>set a. is_digit c\<close> p(2) by (auto simp: numChar_def js_simps dest: set_takeWhileD)
  ultimately show ?thesis by blast
qed

lemma exponentOk_chars:
  assumes "exponentOk r" shows "\<forall>c\<in>set r. numChar c"
proof (cases r)
  case (Cons e u)
  obtain p where p: "u = p @ drop_opt (js ''+-'') u" "set p \<subseteq> set (js ''+-'')" using drop_opt_split by blast
  have e: "e \<in> set (js ''eE'')" "\<forall>c\<in>set (drop_opt (js ''+-'') u). is_digit c"
    using assms Cons by (simp_all add: exponentOk_def all1_def list_all_iff split: if_splits)
  have "\<forall>c\<in>set (p @ drop_opt (js ''+-'') u). numChar c"
    using p(2) e(2) by (auto simp: numChar_def js_simps)
  then have "\<forall>c\<in>set u. numChar c" unfolding p(1) [symmetric] .
  moreover have "numChar e" using e(1) by (auto simp: numChar_def js_simps)
  ultimately show ?thesis using Cons by simp
qed simp

lemma isNumericLiteral_chars:
  assumes "isNumericLiteral s"
  shows "s \<noteq> []" "\<forall>c\<in>set s. numChar c"
proof -
  obtain p where p: "s = p @ drop_opt (js ''-'') s" "set p \<subseteq> set (js ''-'')" using drop_opt_split by blast
  from assms obtain r where r: "mantissaRest (drop_opt (js ''-'') s) = Some r" "exponentOk r"
    by (auto simp: isNumericLiteral_def split: option.splits)
  from mantissaRest_split [OF r(1)] obtain m where m: "drop_opt (js ''-'') s = m @ r" "m \<noteq> []" "\<forall>c\<in>set m. numChar c"
    by blast
  with p(1) have s: "s = p @ m @ r" by simp
  then show "s \<noteq> []" using m(2) by simp
  have "\<forall>c\<in>set p. numChar c" using p(2) by (auto simp: numChar_def js_simps)
  then show "\<forall>c\<in>set s. numChar c" using m(3) exponentOk_chars [OF r(2)] unfolding s by auto
qed

lemma isNumericLiteral_trim: "isNumericLiteral s \<Longrightarrow> trim s = s"
  by (rule trim_no_ws) (auto dest: isNumericLiteral_chars numChar_not_ws)

section \<open>Nesting\<close>

definition depth :: "jsstr \<Rightarrow> int" where
  "depth s = (\<Sum>c\<leftarrow>s. parenDelta c)"

definition nested :: "jsstr \<Rightarrow> bool" where
  "nested s \<longleftrightarrow> depth s = 0 \<and> (\<forall>u v. s = u @ v \<longrightarrow> 0 \<le> depth u)"

definition no_parens :: "jsstr \<Rightarrow> bool" where
  "no_parens s \<longleftrightarrow> jsc CHR ''('' \<notin> set s \<and> jsc CHR '')'' \<notin> set s"

lemma depth_simps [simp]: "depth [] = 0" "depth (c # s) = parenDelta c + depth s" "depth (s @ t) = depth s + depth t"
  by (simp_all add: depth_def)

lemma parenDelta_simps [simp]:
  "parenDelta (jsc CHR ''('') = 1" "parenDelta (jsc CHR '')'') = -1"
  by (simp_all add: parenDelta_def)

lemma parenDelta_jsc [js_simps]:
  "c \<noteq> CHR ''('' \<Longrightarrow> c \<noteq> CHR '')'' \<Longrightarrow> parenDelta (jsc c) = 0"
  by (simp add: parenDelta_def)

lemma depth_no_parens: "no_parens s \<Longrightarrow> depth s = 0"
  by (induction s) (auto simp: no_parens_def parenDelta_def)

lemma nested_no_parens: "no_parens s \<Longrightarrow> nested s"
  unfolding nested_def by (auto simp: depth_no_parens no_parens_def)

lemma nested_append: "nested s \<Longrightarrow> nested t \<Longrightarrow> nested (s @ t)"
  unfolding nested_def by (auto simp: append_eq_append_conv2)

lemma nested_paren:
  assumes "nested s" shows "nested (js ''('' @ s @ js '')'')"
  unfolding nested_def
proof (intro conjI allI impI)
  show "depth (js ''('' @ s @ js '')'') = 0" using assms by (simp add: nested_def js_simps)
  fix u v assume "js ''('' @ s @ js '')'' = u @ v"
  then consider "u = []" | u' where "u = jsc CHR ''('' # u'" "s @ js '')'' = u' @ v"
    by (cases u) (auto simp: js_simps)
  then show "0 \<le> depth u"
  proof cases
    case (2 u')
    then consider w where "s = u' @ w" | "u' = s @ js '')''" by (auto simp: append_eq_append_conv2 js_simps Cons_eq_append_conv)
    then show ?thesis using 2(1) assms by cases (auto simp: nested_def js_simps)
  qed simp
qed

section \<open>Splitting\<close>

lemma splitTop_pass:
  assumes "\<And>u c v. s = u @ c # v \<Longrightarrow> d + depth (u @ [c]) = 0 \<Longrightarrow> \<not> prefix sep (c # v @ rest)"
  shows "splitTop sep 0 d cur (s @ rest) = splitTop sep 0 (d + depth s) (cur @ s) rest"
  using assms
proof (induction s arbitrary: d cur)
  case (Cons x s)
  have "\<not> (d + parenDelta x = 0 \<and> prefix sep (x # s @ rest))" using Cons.prems [of "[]" x s] by auto
  moreover have "splitTop sep 0 (d + parenDelta x) (cur @ [x]) (s @ rest) =
      splitTop sep 0 (d + parenDelta x + depth s) ((cur @ [x]) @ s) rest"
  proof (rule Cons.IH)
    fix u c v assume "s = u @ c # v" "d + parenDelta x + depth (u @ [c]) = 0"
    then show "\<not> prefix sep (c # v @ rest)" using Cons.prems [of "x # u" c v] by (simp add: add.assoc)
  qed
  ultimately show ?case by (auto simp: Let_def add.assoc)
qed simp

text \<open>
  A separator is a space, a second unit that is not a space, and more units without parentheses.
  A text is a piece of it when it is passed over as a whole wherever a separator may follow.
\<close>

locale top_separator =
  fixes sep :: jsstr and second :: jschar and more :: jsstr
  assumes sep_eq: "sep = jsc CHR '' '' # second # more"
    and second_ne: "second \<noteq> jsc CHR '' ''"
    and sep_parens: "no_parens (second # more)"
begin

definition piece :: "jsstr \<Rightarrow> bool" where
  "piece p \<longleftrightarrow> trim p = p \<and> (\<forall>cur rest. rest = [] \<or> prefix sep rest \<longrightarrow>
     splitTop sep 0 0 cur (p @ rest) = splitTop sep 0 0 (cur @ p) rest)"

lemma split_skip: "splitTop sep (length u) d cur (u @ rest) = splitTop sep 0 d cur rest"
  by (induction u) simp_all

lemma split_sep: "splitTop sep 0 0 cur (sep @ rest) = trim cur # splitTop sep 0 0 [] rest"
  using split_skip [of "second # more" 0 "[]" rest] by (simp add: sep_eq parenDelta_def)

lemma piece_split: "piece p \<Longrightarrow> rest = [] \<or> prefix sep rest \<Longrightarrow>
    splitTop sep 0 0 cur (p @ rest) = splitTop sep 0 0 (cur @ p) rest"
  and piece_trim: "piece p \<Longrightarrow> trim p = p"
  unfolding piece_def by blast+

lemma split_join:
  "ps \<noteq> [] \<Longrightarrow> \<forall>p\<in>set ps. piece p \<Longrightarrow> splitTop sep 0 0 [] (join sep ps) = ps"
proof (induction ps rule: induct_list012)
  case (2 p)
  then show ?case using piece_split [of p "[]" "[]"] by (simp add: piece_trim)
next
  case (3 p q ps)
  then show ?case
    using piece_split [of p "sep @ join sep (q # ps)" "[]"] by (simp add: piece_trim split_sep)
qed simp

text \<open>A text in parentheses is a piece, and so is a text without the second unit.\<close>

lemma split_paren:
  assumes "nested s"
  shows "splitTop sep 0 0 cur ((js ''('' @ s @ js '')'') @ rest) = splitTop sep 0 0 (cur @ js ''('' @ s @ js '')'') rest"
proof -
  have "splitTop sep 0 0 cur ((js ''('' @ s @ js '')'') @ rest) =
      splitTop sep 0 (0 + depth (js ''('' @ s @ js '')'')) (cur @ js ''('' @ s @ js '')'') rest"
  proof (rule splitTop_pass)
    fix u c v assume eq: "js ''('' @ s @ js '')'' = u @ c # v" and z: "0 + depth (u @ [c]) = 0"
    show "\<not> prefix sep (c # v @ rest)"
    proof (cases u)
      case Nil
      then show ?thesis using eq z by (auto simp: js_simps)
    next
      case (Cons x u')
      then have x: "x = jsc CHR ''(''" "s @ js '')'' = u' @ c # v" using eq by (simp_all add: js_simps)
      then consider w where "s = u' @ c # w" | "c = jsc CHR '')''"
        by (auto simp: append_eq_append_conv2 js_simps Cons_eq_append_conv append_eq_Cons_conv)
      then show ?thesis
      proof cases
        case 1
        then have "s = (u' @ [c]) @ w" by simp
        then have "0 \<le> depth (u' @ [c])" using assms unfolding nested_def by blast
        then show ?thesis using z x(1) Cons by simp
      qed (simp add: sep_eq)
    qed
  qed
  then show ?thesis
    using nested_paren [OF assms] by (simp add: nested_def)
qed

lemma piece_paren: "nested s \<Longrightarrow> piece (js ''('' @ s @ js '')'')"
  unfolding piece_def using split_paren by (auto intro!: trim_id simp: js_simps)

lemma piece_plain:
  assumes "depth s = 0" and "second \<notin> set s" and "trim s = s"
  shows "piece s"
  unfolding piece_def
proof (intro conjI allI impI)
  show "trim s = s" by fact
  fix cur rest assume rest: "rest = [] \<or> prefix sep rest"
  have "splitTop sep 0 0 cur (s @ rest) = splitTop sep 0 (0 + depth s) (cur @ s) rest"
  proof (rule splitTop_pass)
    fix u c v assume s: "s = u @ c # v"
    show "\<not> prefix sep (c # v @ rest)"
    proof (cases v)
      case Nil
      then show ?thesis using rest second_ne by (auto simp: sep_eq prefix_def)
    next
      case (Cons y w)
      then show ?thesis using assms(2) s by (auto simp: sep_eq)
    qed
  qed
  then show "splitTop sep 0 0 cur (s @ rest) = splitTop sep 0 0 (cur @ s) rest" using assms(1) by simp
qed

end

interpretation mult: top_separator "js '' * ''" "jsc CHR ''*''" "js '' ''"
  by unfold_locales (simp_all add: js_simps no_parens_def)

interpretation conj: top_separator "js '' && ''" "jsc CHR ''&''" "js ''& ''"
  by unfold_locales (simp_all add: js_simps no_parens_def)

lemma splitTopLevelMultiply_join:
  "ps \<noteq> [] \<Longrightarrow> \<forall>p\<in>set ps. mult.piece p \<Longrightarrow> \<forall>p\<in>set ps. p \<noteq> [] \<Longrightarrow>
    splitTopLevelMultiply (join (js '' * '') ps) = ps"
  by (simp add: splitTopLevelMultiply_def mult.split_join)

lemma splitTopLevelAnd_join:
  "ps \<noteq> [] \<Longrightarrow> \<forall>p\<in>set ps. conj.piece p \<Longrightarrow> \<forall>p\<in>set ps. p \<noteq> [] \<Longrightarrow>
    splitTopLevelAnd (join (js '' && '') ps) = ps"
  by (simp add: splitTopLevelAnd_def conj.split_join)

end
