(* ===== verification/BillingRoundtrip.thy ===== *)
theory BillingRoundtrip
  imports BillingSplit
begin

text \<open>
  The rule editor's texts are read back: parsing the built text of conditions, groups and rules, and
  splitting a combined billing expression.
\<close>

section \<open>Conditions that survive\<close>

text \<open>
  A name in quotation marks: no unit that is escaped, no parenthesis, ampersand or bar. A value:
  no parenthesis, ampersand, bar or Unicode line separator, no white space at its ends.
\<close>

definition nameUnit :: "jschar \<Rightarrow> bool" where
  "nameUnit c \<longleftrightarrow> plain_unit c \<and> c \<notin> set (js ''()&|'')"

definition goodName :: "jsstr \<Rightarrow> bool" where
  "goodName s \<longleftrightarrow> s \<noteq> [] \<and> (\<forall>c\<in>set s. nameUnit c)"

definition goodValue :: "jsstr \<Rightarrow> bool" where
  "goodValue s \<longleftrightarrow> trim s = s \<and> (\<forall>c\<in>set s. c \<notin> set (js ''()&|'') \<and> c \<noteq> 0x2028 \<and> c \<noteq> 0x2029)"

fun savable :: "RequestCondition \<Rightarrow> bool" where
  "savable (TimeCond c) \<longleftrightarrow> goodName (timezone c) \<and>
     (tc_mode c = MATCH_RANGE \<and> isNumericLiteral (rangeStart c) \<and> isNumericLiteral (rangeEnd c) \<and> tc_value c = [] \<or>
      tc_mode c \<in> {MATCH_EQ, MATCH_GTE, MATCH_LT} \<and> isNumericLiteral (tc_value c) \<and> rangeStart c = [] \<and> rangeEnd c = [])"
| "savable (ParamHeaderCond c) \<longleftrightarrow> ph_source c \<noteq> TimeSource \<and> goodName (ph_path c) \<and> trim (ph_path c) = ph_path c \<and>
     (ph_mode c = MATCH_EXISTS \<and> ph_value c = [] \<or>
      ph_mode c = MATCH_CONTAINS \<and> ph_source c = HeaderSource \<and> goodValue (ph_value c) \<or>
      ph_mode c = MATCH_EQ \<and> goodValue (ph_value c))"

lemmas mode_defs = MATCH_EQ_def MATCH_CONTAINS_def MATCH_GT_def MATCH_GTE_def MATCH_LT_def MATCH_LTE_def
  MATCH_EXISTS_def MATCH_RANGE_def

lemma goodName_facts:
  assumes "goodName s"
  shows "s \<noteq> []" "dquote \<notin> set s" "stringify s = dquote # s @ [dquote]"
  using assms by (auto simp: goodName_def nameUnit_def plain_unit_def intro!: stringify_plain)

section \<open>Calls\<close>

lemma quotedName_good: "goodName s \<Longrightarrow> quotedName (dquote # s @ dquote # r) = Some (s, r)"
  by (rule quotedName_match) (simp_all add: goodName_facts)

lemma matchTimeFunc_name: "matchTimeFunc (timeFuncName f @ r) = Some (f, r)"
  by (cases f) (simp_all add: matchTimeFunc_def TIME_FUNCS_def js_simps)

lemma timeCall_match:
  "goodName tz \<Longrightarrow> timeCall (timeFuncName f @ js ''('' @ dquote # tz @ dquote # js '')'' @ r) = Some (f, tz, r)"
  by (simp add: timeCall_def matchTimeFunc_name js_simps quotedName_good)

lemma sourceCall_match:
  "goodName p \<Longrightarrow> sourceCall src (sourceName src @ js ''('' @ dquote # p @ dquote # js '')'' @ r) = Some (p, r)"
  unfolding sourceCall_def append_assoc [symmetric, of "sourceName src" "js ''(''"]
  by (simp add: expect_append quotedName_good js_simps del: append_assoc)

lemma matchTimeFunc_none:
  "src \<noteq> TimeSource \<Longrightarrow> matchTimeFunc (sourceName src @ js ''('' @ r) = None"
  "matchTimeFunc (js ''has('' @ r) = None" "matchTimeFunc (js ''('' @ r) = None"
  by (cases src; simp add: matchTimeFunc_def TIME_FUNCS_def sourceName_def js_simps)+

section \<open>Time conditions\<close>

abbreviation timeText :: "TimeFunc \<Rightarrow> jsstr \<Rightarrow> jsstr \<Rightarrow> jsstr" where
  "timeText f tz r \<equiv> timeFuncName f @ js ''('' @ dquote # tz @ dquote # js '')'' @ r"

abbreviation rangeText :: "TimeFunc \<Rightarrow> jsstr \<Rightarrow> jsstr \<Rightarrow> jsstr \<Rightarrow> jsstr" where
  "rangeText f tz a b \<equiv> timeText f tz (js '' >= '' @ a @ js '' || '' @ timeText f tz (js '' < '' @ b))"

lemma all1_numeric: "isNumericLiteral v \<Longrightarrow> all1 numChar v = Some v"
  by (simp add: all1_def list_all_iff isNumericLiteral_chars)

lemma span1_numeric:
  assumes "isNumericLiteral a" and "r = [] \<or> \<not> numChar (hd r)"
  shows "span1 numChar (a @ r) = Some (a, r)"
  using isNumericLiteral_chars [OF assms(1)] assms(2) by (intro span1_append)

lemma timeRange_match:
  assumes "goodName tz" "isNumericLiteral a" "isNumericLiteral b"
  shows "timeRange (rangeText f tz a b) =
    Some \<lparr>timeFunc = f, timezone = tz, tc_mode = MATCH_RANGE, tc_value = [], rangeStart = a, rangeEnd = b\<rparr>"
proof -
  let ?p = "js '' || '' @ timeFuncName f @ js ''('' @ [dquote] @ tz @ [dquote] @ js '') < ''"
  have p: "js '' || '' @ timeText f tz (js '' < '' @ b) = ?p @ b" by (simp add: js_simps)
  have span: "span1 numChar (a @ ?p @ b) = Some (a, ?p @ b)"
    using assms(2) by (rule span1_numeric) (simp add: js_simps)
  show ?thesis
    unfolding p timeRange_def timeCall_match [OF assms(1)]
    by (simp only: bind.bind_lunit prod.case expect_append span all1_numeric [OF assms(3)])
qed

lemma timeText_start: "\<not> prefix (js ''('') (timeText f tz r)"
  by (cases f) (simp_all add: js_simps)

lemma matchOp_time:
  "mode \<in> {MATCH_EQ, MATCH_GTE, MATCH_LT} \<Longrightarrow> matchOp TIME_OPS (timeOp mode @ js '' '' @ v) = Some (mode, v)"
  by (auto simp: matchOp_def TIME_OPS_def timeOp_def mode_defs js_simps)

lemma timeCompare_match:
  assumes "goodName tz" "isNumericLiteral v" "mode \<in> {MATCH_EQ, MATCH_GTE, MATCH_LT}"
  shows "timeCompare (timeText f tz (js '' '' @ timeOp mode @ js '' '' @ v)) =
    Some \<lparr>timeFunc = f, timezone = tz, tc_mode = mode, tc_value = v, rangeStart = [], rangeEnd = []\<rparr>"
  unfolding timeCompare_def timeCall_match [OF assms(1)]
  by (simp add: matchOp_time [OF assms(3)] all1_numeric assms(2))

lemma timeRange_compare:
  assumes "goodName tz" "isNumericLiteral v" "mode \<in> {MATCH_EQ, MATCH_GTE, MATCH_LT}"
  shows "timeRange (timeText f tz (js '' '' @ timeOp mode @ js '' '' @ v)) = None"
proof -
  have "span1 numChar v = Some (v, [])" using span1_numeric [OF assms(2), of "[]"] by simp
  then show ?thesis
    unfolding timeRange_def timeCall_match [OF assms(1)]
    using assms(3) by (auto simp: timeOp_def mode_defs js_simps)
qed

lemma parseTime_compare:
  "goodName tz \<Longrightarrow> isNumericLiteral v \<Longrightarrow> mode \<in> {MATCH_EQ, MATCH_GTE, MATCH_LT} \<Longrightarrow>
    tryParseTimeCondition (timeText f tz (js '' '' @ timeOp mode @ js '' '' @ v)) =
    Some \<lparr>timeFunc = f, timezone = tz, tc_mode = mode, tc_value = v, rangeStart = [], rangeEnd = []\<rparr>"
  by (simp add: tryParseTimeCondition_def timeRange_compare timeText_start timeCompare_match)

lemma parseTime_range:
  assumes "goodName tz" "isNumericLiteral a" "isNumericLiteral b"
  shows "tryParseTimeCondition (rangeText f tz a b) =
      Some \<lparr>timeFunc = f, timezone = tz, tc_mode = MATCH_RANGE, tc_value = [], rangeStart = a, rangeEnd = b\<rparr>"
    and "tryParseTimeCondition (js ''('' @ rangeText f tz a b @ js '')'') =
      Some \<lparr>timeFunc = f, timezone = tz, tc_mode = MATCH_RANGE, tc_value = [], rangeStart = a, rangeEnd = b\<rparr>"
proof -
  show "tryParseTimeCondition (rangeText f tz a b) =
      Some \<lparr>timeFunc = f, timezone = tz, tc_mode = MATCH_RANGE, tc_value = [], rangeStart = a, rangeEnd = b\<rparr>"
    by (simp only: tryParseTimeCondition_def timeRange_match [OF assms] option.case)
  have "timeRange (js ''('' @ r) = None" for r
    by (simp add: timeRange_def timeCall_def matchTimeFunc_none)
  moreover have "butlast (tl (js ''('' @ r @ js '')'')) = r" "prefix (js ''('') (js ''('' @ r)"
      "suffix (js '')'') (js ''('' @ r @ js '')'')" for r
    by (simp_all add: js_simps butlast_append suffix_def)
  ultimately show "tryParseTimeCondition (js ''('' @ rangeText f tz a b @ js '')'') =
      Some \<lparr>timeFunc = f, timezone = tz, tc_mode = MATCH_RANGE, tc_value = [], rangeStart = a, rangeEnd = b\<rparr>"
    using timeRange_match [OF assms] by (simp only: tryParseTimeCondition_def option.case if_True simp_thms)
qed

section \<open>Param and header conditions\<close>

abbreviation sourceText :: "ConditionSource \<Rightarrow> jsstr \<Rightarrow> jsstr \<Rightarrow> jsstr" where
  "sourceText src p r \<equiv> sourceName src @ js ''('' @ dquote # p @ dquote # js '')'' @ r"

lemma sourceCall_none:
  "src \<noteq> src' \<Longrightarrow> src \<noteq> TimeSource \<Longrightarrow> src' \<noteq> TimeSource \<Longrightarrow> sourceCall src (sourceText src' p r) = None"
  "src \<noteq> TimeSource \<Longrightarrow> sourceCall src (js ''has('' @ r) = None"
  by (cases src; cases src'; simp add: sourceCall_def sourceName_def js_simps)
    (cases src; simp add: sourceCall_def sourceName_def js_simps)

lemma hasPattern_none: "src' \<noteq> TimeSource \<Longrightarrow> hasPattern src (sourceText src' p r) = None"
  by (cases src') (simp_all add: hasPattern_def sourceName_def js_simps)

lemma hasPattern_match:
  assumes "goodName p"
  shows "hasPattern src (js ''has('' @ sourceText src p (js '', '' @ stringify v @ js '')'')) = Some (p, stringify v)"
proof -
  have q: "quotedLiteral (stringify v @ js '')'') = Some (stringify v, js '')'')" by (rule quotedLiteral_match)
  show ?thesis unfolding hasPattern_def
    by (simp only: expect_append bind.bind_lunit sourceCall_match [OF assms] prod.case q if_True simp_thms)
qed

lemma parseTime_none:
  "src \<noteq> TimeSource \<Longrightarrow> tryParseTimeCondition (sourceText src p r) = None"
  "tryParseTimeCondition (js ''has('' @ r) = None"
proof -
  have "timeCall (sourceText src p r) = None" if "src \<noteq> TimeSource"
    using that by (simp add: timeCall_def matchTimeFunc_none)
  moreover have "\<not> prefix (js ''('') (sourceText src p r)" if "src \<noteq> TimeSource"
    using that by (cases src) (simp_all add: sourceName_def js_simps)
  ultimately show "src \<noteq> TimeSource \<Longrightarrow> tryParseTimeCondition (sourceText src p r) = None"
    by (simp add: tryParseTimeCondition_def timeRange_def timeCompare_def)
  show "tryParseTimeCondition (js ''has('' @ r) = None"
    by (simp add: tryParseTimeCondition_def timeRange_def timeCompare_def timeCall_def matchTimeFunc_none)
      (simp add: js_simps)
qed

lemma existsPattern_simps:
  "goodName p \<Longrightarrow> existsPattern src t (sourceText src p r) = (if r = t then Some p else None)"
  "src \<noteq> src' \<Longrightarrow> src \<noteq> TimeSource \<Longrightarrow> src' \<noteq> TimeSource \<Longrightarrow> existsPattern src t (sourceText src' p r) = None"
  "src \<noteq> TimeSource \<Longrightarrow> existsPattern src t (js ''has('' @ r) = None"
  by (simp_all add: existsPattern_def sourceCall_match sourceCall_none)

lemma equalsPattern_simps:
  "goodName p \<Longrightarrow> all1 (\<lambda>c. \<not> is_lt c) v = Some v \<Longrightarrow> equalsPattern src (sourceText src p (js '' == '' @ v)) = Some (p, v)"
  "src \<noteq> src' \<Longrightarrow> src \<noteq> TimeSource \<Longrightarrow> src' \<noteq> TimeSource \<Longrightarrow> equalsPattern src (sourceText src' p r) = None"
  by (simp_all add: equalsPattern_def sourceCall_match sourceCall_none)

lemma paramPatterns_none:
  assumes "goodName p"
  shows "paramContainsPattern (sourceText src p (js '' == '' @ v)) = None"
    "paramComparePattern (sourceText src p (js '' == '' @ v)) = None"
proof -
  have e: "expect (js '' != nil && '') (js '' == '' @ v) = None" by (simp add: js_simps)
  have "paramContainsPattern (sourceText src p (js '' == '' @ v)) = None \<and>
      paramComparePattern (sourceText src p (js '' == '' @ v)) = None"
  proof (cases src)
    case ParamSource
    show ?thesis unfolding ParamSource paramContainsPattern_def paramComparePattern_def
      by (simp only: sourceCall_match [OF assms] bind.simps prod.case e simp_thms)
  qed (simp_all add: paramContainsPattern_def paramComparePattern_def sourceCall_def sourceName_def js_simps)
  then show "paramContainsPattern (sourceText src p (js '' == '' @ v)) = None"
    "paramComparePattern (sourceText src p (js '' == '' @ v)) = None" by blast+
qed

section \<open>Literals\<close>

lemma value_units:
  assumes "\<forall>c\<in>set v. c \<notin> set (js ''()&|'') \<and> c \<noteq> 0x2028 \<and> c \<noteq> 0x2029" and "c \<in> set (stringify v)"
  shows "c \<notin> set (js ''()&|'')" "\<not> is_lt c"
proof -
  have "escape_unit c \<or> (c \<in> set v \<and> 32 \<le> c)"
    using assms(2) quote_units_units [of c v] by (auto simp: stringify_def escape_unit_def)
  moreover have "escape_unit c \<Longrightarrow> c \<notin> set (js ''()&|'') \<and> \<not> is_lt c"
    by (auto simp: escape_not_lt escape_unit_def js_simps) (auto simp: jsc_def is_digit_def word_le_nat_alt)
  moreover have "c \<in> set v \<Longrightarrow> 32 \<le> c \<Longrightarrow> \<not> is_lt c"
    using assms(1) by (auto simp: is_lt_def)
  ultimately show "c \<notin> set (js ''()&|'')" "\<not> is_lt c" using assms(1) by blast+
qed

text \<open>The literal of an equality, and its units.\<close>

lemma literal_cases:
  assumes "goodValue v"
  obtains (bare) "buildExprLiteral MATCH_EQ v = v" "v = js ''true'' \<or> v = js ''false'' \<or> isNumericLiteral v"
  | (quoted) "buildExprLiteral MATCH_EQ v = stringify v" "v \<noteq> js ''true''" "v \<noteq> js ''false''" "\<not> isNumericLiteral v"
  using assms by (cases "v = js ''true'' \<or> v = js ''false'' \<or> isNumericLiteral v")
    (auto simp: buildExprLiteral_def goodValue_def Let_def mode_defs)

lemma stringify_ends: "stringify v \<noteq> []" "hd (stringify v) = dquote" "last (stringify v) = dquote"
  by (simp_all add: stringify_def)

lemma dquote_not_ws: "\<not> is_ws dquote"
  by (simp add: is_ws_def)

lemma trim_stringify: "trim (stringify v) = stringify v"
  by (rule trim_id) (simp add: stringify_ends dquote_not_ws)

lemma parse_literal:
  assumes "goodValue v"
  shows "parseExprLiteral json_other num_text (buildExprLiteral MATCH_EQ v) = Some v"
  using assms
proof (cases rule: literal_cases)
  case bare
  then show ?thesis using assms by (auto simp: parseExprLiteral_def goodValue_def Let_def)
next
  case quoted
  have "stringify v \<noteq> js ''true''" "stringify v \<noteq> js ''false''"
    by (simp_all add: stringify_def js_simps jsc_def)
  moreover have "\<not> isNumericLiteral (stringify v)"
    using isNumericLiteral_chars(2) [of "stringify v"] numChar_neq(6) [of dquote] by (auto simp: stringify_def)
  moreover have "json_parse json_other (stringify v) = Some (JStr v)"
    by (simp add: json_parse_def json_string_stringify) (simp add: stringify_def)
  ultimately show ?thesis by (simp add: parseExprLiteral_def quoted(1) trim_stringify)
qed

lemma literal_units:
  assumes "goodValue v"
  shows "buildExprLiteral MATCH_EQ v \<noteq> []" "\<forall>c\<in>set (buildExprLiteral MATCH_EQ v). c \<notin> set (js ''()&|'') \<and> \<not> is_lt c"
    "\<not> is_ws (last (buildExprLiteral MATCH_EQ v))"
proof -
  have lt: "\<not> is_lt c" if "\<not> is_ws c" for c using that by (auto simp: is_lt_def is_ws_def)
  have b: "v \<noteq> [] \<and> (\<forall>c\<in>set v. c \<notin> set (js ''()&|'') \<and> \<not> is_ws c)" if "v = js ''true'' \<or> v = js ''false'' \<or> isNumericLiteral v"
    using that isNumericLiteral_chars [of v]
    by (auto simp: js_simps dest: numChar_neq numChar_not_ws)
  show "buildExprLiteral MATCH_EQ v \<noteq> []"
    using b by (cases rule: literal_cases [OF assms]) (simp_all add: stringify_ends)
  show "\<forall>c\<in>set (buildExprLiteral MATCH_EQ v). c \<notin> set (js ''()&|'') \<and> \<not> is_lt c"
    using assms
proof (cases rule: literal_cases)
    case bare
    then show ?thesis using b lt by auto
  next
    case quoted
    then show ?thesis using value_units [of v] assms unfolding goodValue_def by auto
  qed
  show "\<not> is_ws (last (buildExprLiteral MATCH_EQ v))"
    using b by (cases rule: literal_cases [OF assms]) (simp_all add: stringify_ends dquote_not_ws)
qed

section \<open>The text of a condition\<close>

lemma knownMode_simps:
  "mode \<in> {MATCH_EQ, MATCH_GTE, MATCH_LT, MATCH_RANGE} \<Longrightarrow> knownMode TimeSource (Some mode) d = mode"
  "src \<noteq> TimeSource \<Longrightarrow> mode \<in> {MATCH_EQ, MATCH_CONTAINS, MATCH_EXISTS} \<Longrightarrow> knownMode src (Some mode) d = mode"
  "mode \<in> {MATCH_GT, MATCH_GTE, MATCH_LT, MATCH_LTE} \<Longrightarrow> knownMode ParamSource (Some mode) d = mode"
  by (cases src; auto simp: knownMode_def getRequestRuleMatchOptions_def mode_defs)+

lemma normalizePH: "ph_source c \<noteq> TimeSource \<Longrightarrow> knownMode (ph_source c) (Some (ph_mode c)) MATCH_EQ = ph_mode c \<Longrightarrow>
    normalizeParamHeaderCondition c = c"
  by (cases "ph_source c") (simp_all add: normalizeParamHeaderCondition_def)

lemma build_exists:
  assumes "ph_source c \<noteq> TimeSource" "goodName (ph_path c)" "trim (ph_path c) = ph_path c" "ph_mode c = MATCH_EXISTS"
  shows "buildRequestConditionExpr (ParamHeaderCond c) = sourceText (ph_source c) (ph_path c)
    (if ph_source c = HeaderSource then js '' != '' @ [dquote, dquote] else js '' != nil'')"
proof -
  have "normalizeParamHeaderCondition c = c" using assms by (intro normalizePH) (simp_all add: knownMode_simps)
  then show ?thesis using assms by (simp add: buildRequestConditionExpr_def Let_def goodName_facts)
qed

lemma build_contains:
  assumes "ph_source c = HeaderSource" "goodName (ph_path c)" "trim (ph_path c) = ph_path c"
    "ph_mode c = MATCH_CONTAINS" "goodValue (ph_value c)"
  shows "buildRequestConditionExpr (ParamHeaderCond c) =
    js ''has('' @ sourceText HeaderSource (ph_path c) (js '', '' @ stringify (ph_value c) @ js '')'')"
proof -
  have "normalizeParamHeaderCondition c = c" using assms by (intro normalizePH) (simp_all add: knownMode_simps)
  then show ?thesis using assms
    by (simp add: buildRequestConditionExpr_def Let_def goodName_facts buildExprLiteral_def goodValue_def mode_defs)
qed

lemma build_equals:
  assumes "ph_source c \<noteq> TimeSource" "goodName (ph_path c)" "trim (ph_path c) = ph_path c" "ph_mode c = MATCH_EQ"
  shows "buildRequestConditionExpr (ParamHeaderCond c) =
    sourceText (ph_source c) (ph_path c) (js '' == '' @ buildExprLiteral MATCH_EQ (ph_value c))"
proof -
  have "normalizeParamHeaderCondition c = c" using assms by (intro normalizePH) (simp_all add: knownMode_simps)
  moreover have "MATCH_EQ \<notin> {MATCH_EXISTS, MATCH_CONTAINS, MATCH_GT, MATCH_GTE, MATCH_LT, MATCH_LTE}"
    by (simp add: mode_defs)
  ultimately show ?thesis using assms by (simp add: buildRequestConditionExpr_def Let_def goodName_facts)
qed

lemma normalizeTime:
  "goodName (timezone c) \<Longrightarrow> tc_mode c \<in> {MATCH_EQ, MATCH_GTE, MATCH_LT, MATCH_RANGE} \<Longrightarrow> normalizeTimeCondition c = c"
  using knownMode_simps(1) [of "tc_mode c"] by (simp add: normalizeTimeCondition_def goodName_facts)

lemma build_range:
  assumes "goodName (timezone c)" "tc_mode c = MATCH_RANGE" "isNumericLiteral (rangeStart c)" "isNumericLiteral (rangeEnd c)"
  shows "buildRequestConditionExpr (TimeCond c) = rangeText (timeFunc c) (timezone c) (rangeStart c) (rangeEnd c)"
proof -
  have "normalizeTimeCondition c = c" using assms by (intro normalizeTime) simp_all
  then show ?thesis using assms
    by (simp add: buildRequestConditionExpr_def buildTimeConditionExpr_def Let_def goodName_facts isNumericLiteral_trim)
qed

lemma build_compare:
  assumes "goodName (timezone c)" "tc_mode c \<in> {MATCH_EQ, MATCH_GTE, MATCH_LT}" "isNumericLiteral (tc_value c)"
  shows "buildRequestConditionExpr (TimeCond c) =
    timeText (timeFunc c) (timezone c) (js '' '' @ timeOp (tc_mode c) @ js '' '' @ tc_value c)"
proof -
  have "normalizeTimeCondition c = c" using assms by (intro normalizeTime) auto
  moreover have "tc_mode c \<noteq> MATCH_RANGE" using assms(2) by (auto simp: mode_defs)
  ultimately show ?thesis using assms
    by (simp add: buildRequestConditionExpr_def buildTimeConditionExpr_def Let_def goodName_facts isNumericLiteral_trim)
qed

text \<open>The forms of savable conditions, with their texts.\<close>

lemma savable_cases:
  assumes "savable c"
  obtains (range) f tz a b where "goodName tz" "isNumericLiteral a" "isNumericLiteral b"
      "c = TimeCond \<lparr>timeFunc = f, timezone = tz, tc_mode = MATCH_RANGE, tc_value = [], rangeStart = a, rangeEnd = b\<rparr>"
      "buildRequestConditionExpr c = rangeText f tz a b"
  | (compare) f tz mode v where "goodName tz" "isNumericLiteral v" "mode \<in> {MATCH_EQ, MATCH_GTE, MATCH_LT}"
      "c = TimeCond \<lparr>timeFunc = f, timezone = tz, tc_mode = mode, tc_value = v, rangeStart = [], rangeEnd = []\<rparr>"
      "buildRequestConditionExpr c = timeText f tz (js '' '' @ timeOp mode @ js '' '' @ v)"
  | (exists) src p where "src \<noteq> TimeSource" "goodName p"
      "c = ParamHeaderCond \<lparr>ph_source = src, ph_path = p, ph_mode = MATCH_EXISTS, ph_value = []\<rparr>"
      "buildRequestConditionExpr c =
        sourceText src p (if src = HeaderSource then js '' != '' @ [dquote, dquote] else js '' != nil'')"
  | (contains) p v where "goodName p" "goodValue v"
      "c = ParamHeaderCond \<lparr>ph_source = HeaderSource, ph_path = p, ph_mode = MATCH_CONTAINS, ph_value = v\<rparr>"
      "buildRequestConditionExpr c = js ''has('' @ sourceText HeaderSource p (js '', '' @ stringify v @ js '')'')"
  | (equals) src p v where "src \<noteq> TimeSource" "goodName p" "goodValue v"
      "c = ParamHeaderCond \<lparr>ph_source = src, ph_path = p, ph_mode = MATCH_EQ, ph_value = v\<rparr>"
      "buildRequestConditionExpr c = sourceText src p (js '' == '' @ buildExprLiteral MATCH_EQ v)"
proof (cases c)
  case (TimeCond t)
  show ?thesis
  proof (cases "tc_mode t = MATCH_RANGE")
    case True
    then have t: "goodName (timezone t)" "isNumericLiteral (rangeStart t)" "isNumericLiteral (rangeEnd t)" "tc_value t = []"
      using assms TimeCond by (auto simp: mode_defs)
    show ?thesis
      by (rule range [OF t(1-3), of "timeFunc t"]) (simp_all add: TimeCond True t build_range)
  next
    case False
    then have t: "goodName (timezone t)" "tc_mode t \<in> {MATCH_EQ, MATCH_GTE, MATCH_LT}" "isNumericLiteral (tc_value t)"
      "rangeStart t = []" "rangeEnd t = []"
      using assms TimeCond by auto
    show ?thesis
      by (rule compare [OF t(1,3,2), of "timeFunc t"]) (simp_all add: TimeCond t(4,5) build_compare [OF t(1-3)])
  qed
next
  case (ParamHeaderCond t)
  then have t: "ph_source t \<noteq> TimeSource" "goodName (ph_path t)" "trim (ph_path t) = ph_path t" using assms by simp_all
  consider "ph_mode t = MATCH_EXISTS" "ph_value t = []"
    | "ph_mode t = MATCH_CONTAINS" "ph_source t = HeaderSource" "goodValue (ph_value t)"
    | "ph_mode t = MATCH_EQ" "goodValue (ph_value t)"
    using assms ParamHeaderCond by auto
  then show ?thesis
  proof cases
    case 1
    then show ?thesis by (intro exists [OF t(1,2)]) (simp_all add: ParamHeaderCond build_exists [OF t 1(1)])
  next
    case 2
    then show ?thesis
      by (intro contains [OF t(2) 2(3)]) (simp_all add: ParamHeaderCond build_contains [OF 2(2) t(2,3) 2(1,3)])
  next
    case 3
    then show ?thesis by (intro equals [OF t(1,2) 3(2)]) (simp_all add: ParamHeaderCond build_equals [OF t 3(1)])
  qed
qed

end
