(* ===== verification/BillingProperties.thy ===== *)
theory BillingProperties
  imports BillingRoundtrip
begin

text \<open>
  The properties of billing rules: the texts of groups and rules are read back, some conditions are
  not, and a billing expression is separated from its rules.
\<close>

section \<open>Conditions\<close>

lemma parse_exists:
  assumes "goodName p" "src \<noteq> TimeSource"
  shows "tryParseRequestCondition json_other num_text
      (sourceText src p (if src = HeaderSource then js '' != '' @ [dquote, dquote] else js '' != nil'')) =
    Inr (Some (ParamHeaderCond \<lparr>ph_source = src, ph_path = p, ph_mode = MATCH_EXISTS, ph_value = []\<rparr>))"
  using assms by (cases src) (simp_all add: tryParseRequestCondition_def parseTime_none existsPattern_simps)

lemma parse_contains:
  assumes "goodName p"
  shows "tryParseRequestCondition json_other num_text
      (js ''has('' @ sourceText HeaderSource p (js '', '' @ stringify v @ js '')'')) =
    Inr (Some (ParamHeaderCond \<lparr>ph_source = HeaderSource, ph_path = p, ph_mode = MATCH_CONTAINS, ph_value = v\<rparr>))"
  by (simp add: tryParseRequestCondition_def parseTime_none existsPattern_simps hasPattern_match [OF assms]
    containsCondition_def json_string_stringify)

lemma parse_equals:
  assumes "goodName p" "src \<noteq> TimeSource" "goodValue v"
  shows "tryParseRequestCondition json_other num_text (sourceText src p (js '' == '' @ buildExprLiteral MATCH_EQ v)) =
    Inr (Some (ParamHeaderCond \<lparr>ph_source = src, ph_path = p, ph_mode = MATCH_EQ, ph_value = v\<rparr>))"
proof -
  let ?v = "js '' == '' @ buildExprLiteral MATCH_EQ v"
  have "?v \<noteq> js '' != '' @ [dquote, dquote]" "?v \<noteq> js '' != nil''" by (simp_all add: js_simps)
  then have "existsPattern HeaderSource (js '' != '' @ [dquote, dquote]) (sourceText src p ?v) = None"
      "existsPattern ParamSource (js '' != nil'') (sourceText src p ?v) = None"
    using assms by (cases src; simp add: existsPattern_simps)+
  moreover have "all1 (\<lambda>c. \<not> is_lt c) (buildExprLiteral MATCH_EQ v) = Some (buildExprLiteral MATCH_EQ v)"
    using literal_units [OF assms(3)] by (simp add: all1_def list_all_iff)
  then have "equalsPattern src (sourceText src p ?v) = Some (p, buildExprLiteral MATCH_EQ v)"
    "src = HeaderSource \<Longrightarrow> equalsPattern ParamSource (sourceText src p ?v) = None"
    by (simp_all add: equalsPattern_simps assms)
  ultimately show ?thesis
    using assms by (cases src) (simp_all add: tryParseRequestCondition_def parseTime_none hasPattern_none
      paramPatterns_none equalsCondition_def parse_literal)
qed

lemma parse_condition:
  assumes "savable c"
  shows "tryParseRequestCondition json_other num_text (buildRequestConditionExpr c) = Inr (Some c)"
  using assms
proof (cases rule: savable_cases)
  case (range f tz a b)
  then show ?thesis by (simp only: tryParseRequestCondition_def parseTime_range option.case)
next
  case (compare f tz mode v)
  then show ?thesis by (simp only: tryParseRequestCondition_def parseTime_compare option.case)
next
  case (exists src p)
  then show ?thesis using parse_exists [of p src] by simp
next
  case (contains p v)
  then show ?thesis by (simp only: parse_contains)
next
  case (equals src p v)
  then show ?thesis using parse_equals [of p src v] by simp
qed

text \<open>Among several conditions a range is put in parentheses.\<close>

definition listedText :: "jsstr \<Rightarrow> jsstr" where
  "listedText e = (if js_includes e (js '' || '') then js ''('' @ e @ js '')'' else e)"

lemma timeFuncName_units: "no_parens (timeFuncName f)" "jsc CHR ''&'' \<notin> set (timeFuncName f)"
    "jsc CHR ''|'' \<notin> set (timeFuncName f)" "timeFuncName f \<noteq> []" "\<not> is_ws (hd (timeFuncName f))"
  by (cases f; simp add: no_parens_def js_simps)+

lemma sourceName_units: "no_parens (sourceName src)" "jsc CHR ''&'' \<notin> set (sourceName src)"
    "jsc CHR ''|'' \<notin> set (sourceName src)" "sourceName src \<noteq> []" "\<not> is_ws (hd (sourceName src))"
  by (cases src; simp add: no_parens_def sourceName_def js_simps)+

lemma dquote_neq: "jsc CHR ''('' \<noteq> dquote" "jsc CHR '')'' \<noteq> dquote" "jsc CHR ''&'' \<noteq> dquote" "jsc CHR ''|'' \<noteq> dquote"
  by (simp_all add: jsc_def)

lemma goodName_units:
  assumes "goodName s"
  shows "no_parens (dquote # s @ [dquote])" "jsc CHR ''&'' \<notin> set s" "jsc CHR ''|'' \<notin> set s"
proof -
  have "c \<notin> set s" if "c \<in> set (js ''()&|'')" for c
    using assms that by (auto simp: goodName_def nameUnit_def)
  then show "no_parens (dquote # s @ [dquote])" "jsc CHR ''&'' \<notin> set s" "jsc CHR ''|'' \<notin> set s"
    by (simp_all add: no_parens_def dquote_neq js_simps)
qed

lemma nested_call:
  assumes "no_parens n" "goodName p" "nested r"
  shows "nested (n @ js ''('' @ dquote # p @ dquote # js '')'' @ r)"
proof -
  have "nested (js ''('' @ (dquote # p @ [dquote]) @ js '')'')"
    by (intro nested_paren nested_no_parens goodName_units assms)
  from nested_append [OF nested_no_parens [OF assms(1)] nested_append [OF this assms(3)]] show ?thesis by simp
qed

lemma numeric_units:
  "isNumericLiteral v \<Longrightarrow> no_parens v \<and> jsc CHR ''&'' \<notin> set v \<and> jsc CHR ''|'' \<notin> set v"
  by (auto simp: no_parens_def dest: isNumericLiteral_chars numChar_neq)

lemma js_units: "no_parens (js s) \<longleftrightarrow> CHR ''('' \<notin> set s \<and> CHR '')'' \<notin> set s"
  "jsc c \<in> set (js s) \<longleftrightarrow> c \<in> set s"
  by (auto simp: no_parens_def js_def)

lemma no_parens_append: "no_parens (s @ t) \<longleftrightarrow> no_parens s \<and> no_parens t"
  by (auto simp: no_parens_def)

text \<open>The text of a savable condition can be listed and split again.\<close>

lemma literal_nested:
  "goodValue v \<Longrightarrow> nested (buildExprLiteral MATCH_EQ v)" "goodValue v \<Longrightarrow> nested (stringify v)"
proof -
  assume v: "goodValue v"
  have "no_parens s" if "\<forall>c\<in>set s. c \<notin> set (js ''()&|'')" for s
    using that by (auto simp: no_parens_def js_simps)
  then show "nested (buildExprLiteral MATCH_EQ v)" "nested (stringify v)"
    using literal_units(2) [OF v] value_units(1) [of v] v unfolding goodValue_def by (auto intro!: nested_no_parens)
qed

lemma nested_js: "CHR ''('' \<notin> set s \<Longrightarrow> CHR '')'' \<notin> set s \<Longrightarrow> nested (js s)"
  by (simp add: nested_no_parens js_units)

lemma condition_nested:
  assumes "savable c" shows "nested (buildRequestConditionExpr c)"
  using assms
proof (cases rule: savable_cases)
  case (range f tz a b)
  then have "nested a" "nested b" by (simp_all add: nested_no_parens numeric_units)
  with range(1) show ?thesis
    unfolding range(5) by (intro nested_call nested_append timeFuncName_units nested_js) simp_all
next
  case (compare f tz mode v)
  then have "nested (timeOp mode)" "nested v"
    by (auto simp: timeOp_def mode_defs nested_js nested_no_parens numeric_units)
  with compare(1) show ?thesis
    unfolding compare(5) by (intro nested_call nested_append timeFuncName_units nested_js) simp_all
next
  case (exists src p)
  have "nested [dquote, dquote]" using dquote_neq by (auto simp: no_parens_def intro!: nested_no_parens)
  then have "nested (if src = HeaderSource then js '' != '' @ [dquote, dquote] else js '' != nil'')"
    by (simp add: nested_append nested_js)
  with exists(2) show ?thesis unfolding exists(4) by (intro nested_call sourceName_units)
next
  case (contains p v)
  have "js ''has('' @ sourceText HeaderSource p (js '', '' @ stringify v @ js '')'') =
      js ''has'' @ js ''('' @ sourceText HeaderSource p (js '', '' @ stringify v) @ js '')''"
    by (simp add: js_simps)
  also have "nested \<dots>"
    using contains by (intro nested_append nested_paren nested_call sourceName_units literal_nested nested_js) auto
  finally show ?thesis using contains by simp
next
  case (equals src p v)
  then show ?thesis
    unfolding equals(5) by (intro nested_call nested_append sourceName_units literal_nested nested_js) simp_all
qed

lemma numeric_last: "isNumericLiteral v \<Longrightarrow> v \<noteq> [] \<and> \<not> is_ws (last v)"
  using isNumericLiteral_chars [of v] by (auto dest: numChar_not_ws)

lemma value_amp:
  assumes "goodValue v"
  shows "jsc CHR ''&'' \<notin> set (buildExprLiteral MATCH_EQ v)" "jsc CHR ''|'' \<notin> set (buildExprLiteral MATCH_EQ v)"
    "jsc CHR ''&'' \<notin> set (stringify v)" "jsc CHR ''|'' \<notin> set (stringify v)"
proof -
  have "c \<notin> set (buildExprLiteral MATCH_EQ v)" "c \<notin> set (stringify v)" if "c \<in> set (js ''()&|'')" for c
    using that literal_units(2) [OF assms] value_units(1) [of v] assms unfolding goodValue_def by blast+
  then show "jsc CHR ''&'' \<notin> set (buildExprLiteral MATCH_EQ v)" "jsc CHR ''|'' \<notin> set (buildExprLiteral MATCH_EQ v)"
    "jsc CHR ''&'' \<notin> set (stringify v)" "jsc CHR ''|'' \<notin> set (stringify v)" by (simp_all add: js_units)
qed

lemmas text_units = js_units dquote_neq goodName_units numeric_units timeFuncName_units sourceName_units value_amp

lemma timeOp_units: "jsc CHR ''&'' \<notin> set (timeOp mode)" "jsc CHR ''|'' \<notin> set (timeOp mode)"
  by (simp_all add: timeOp_def js_units)

lemma condition_amp:
  assumes "savable c" shows "jsc CHR ''&'' \<notin> set (buildRequestConditionExpr c)"
  using assms by (cases rule: savable_cases) (auto simp: text_units timeOp_units)

lemma condition_trim:
  assumes "savable c"
  shows "trim (buildRequestConditionExpr c) = buildRequestConditionExpr c" "buildRequestConditionExpr c \<noteq> []"
proof -
  have "\<not> is_ws (hd (buildRequestConditionExpr c)) \<and> \<not> is_ws (last (buildRequestConditionExpr c)) \<and>
      buildRequestConditionExpr c \<noteq> []"
    using assms
  proof (cases rule: savable_cases)
    case (contains p v)
    then show ?thesis by (simp add: js_simps)
  next
    case (exists src p)
    then show ?thesis
      by (auto simp: timeFuncName_units sourceName_units dquote_not_ws js_simps)
  next
    case (equals src p v)
    then show ?thesis using literal_units(1,3) [OF equals(3)] by (auto simp: sourceName_units)
  qed (auto simp: timeFuncName_units dest: numeric_last)
  then show "trim (buildRequestConditionExpr c) = buildRequestConditionExpr c" "buildRequestConditionExpr c \<noteq> []"
    by (auto intro: trim_id)
qed

text \<open>Only ranges have the separator of alternatives in their text.\<close>

lemma condition_bar:
  assumes "savable c" and "js_includes (buildRequestConditionExpr c) (js '' || '')"
  obtains f tz a b where "goodName tz" "isNumericLiteral a" "isNumericLiteral b"
    "c = TimeCond \<lparr>timeFunc = f, timezone = tz, tc_mode = MATCH_RANGE, tc_value = [], rangeStart = a, rangeEnd = b\<rparr>"
    "buildRequestConditionExpr c = rangeText f tz a b"
proof -
  have bar: "jsc CHR ''|'' \<in> set (buildRequestConditionExpr c)"
    using set_mono_sublist [OF assms(2) [unfolded js_includes_iff]] by (simp add: js_simps)
  show ?thesis using assms(1)
  proof (cases rule: savable_cases)
    case (range f tz a b)
    then show ?thesis by (rule that)
  qed (use bar in \<open>auto simp: text_units timeOp_units split: if_splits\<close>)
qed

section \<open>Conditions that are lost\<close>

text \<open>The conditions on parameters whose text has a conjunction, and that text.\<close>

definition guarded :: "ParamHeaderCondition \<Rightarrow> bool" where
  "guarded c \<longleftrightarrow> ph_source c = ParamSource \<and> goodName (ph_path c) \<and> trim (ph_path c) = ph_path c \<and>
     (ph_mode c \<in> {MATCH_GT, MATCH_GTE, MATCH_LT, MATCH_LTE} \<and> isNumericLiteral (ph_value c) \<or>
      ph_mode c = MATCH_CONTAINS \<and> goodValue (ph_value c))"

definition guardedTail :: "ParamHeaderCondition \<Rightarrow> jsstr" where
  "guardedTail c = (if ph_mode c = MATCH_CONTAINS
     then js ''has('' @ sourceText ParamSource (ph_path c) (js '', '' @ stringify (ph_value c) @ js '')'')
     else sourceText ParamSource (ph_path c) (js '' '' @ paramOp (ph_mode c) @ js '' '' @ ph_value c))"

lemma build_guarded:
  assumes "guarded c"
  shows "buildRequestConditionExpr (ParamHeaderCond c) =
    sourceText ParamSource (ph_path c) (js '' != nil'') @ js '' && '' @ guardedTail c"
proof -
  have c: "ph_source c = ParamSource" "goodName (ph_path c)" "trim (ph_path c) = ph_path c" using assms by (simp_all add: guarded_def)
  have nil: "js '' != nil && has('' = js '' != nil'' @ js '' && '' @ js ''has(''" "js '' != nil && '' = js '' != nil'' @ js '' && ''"
    by (simp_all add: js_simps)
  consider "ph_mode c \<in> {MATCH_GT, MATCH_GTE, MATCH_LT, MATCH_LTE}" "isNumericLiteral (ph_value c)"
    | "ph_mode c = MATCH_CONTAINS" "goodValue (ph_value c)" using assms by (auto simp: guarded_def)
  then show ?thesis
  proof cases
    case 1
    then have "normalizeParamHeaderCondition c = c" using c(1) by (intro normalizePH) (simp_all add: knownMode_simps)
    moreover have "ph_mode c \<noteq> MATCH_CONTAINS" "ph_mode c \<noteq> MATCH_EXISTS" using 1(1) by (auto simp: mode_defs)
    ultimately show ?thesis using c 1
      by (simp add: buildRequestConditionExpr_def Let_def goodName_facts isNumericLiteral_trim guardedTail_def nil)
  next
    case 2
    then have "normalizeParamHeaderCondition c = c" using c(1) by (intro normalizePH) (simp_all add: knownMode_simps)
    moreover have "MATCH_CONTAINS \<noteq> MATCH_EXISTS" by (simp add: mode_defs)
    ultimately show ?thesis using c 2
      by (simp add: buildRequestConditionExpr_def Let_def goodName_facts guardedTail_def nil buildExprLiteral_def goodValue_def)
  qed
qed

lemma parse_tail:
  assumes "guarded c"
  shows "tryParseRequestCondition json_other num_text (guardedTail c) = Inr None"
proof -
  have c: "goodName (ph_path c)" using assms by (simp add: guarded_def)
  show ?thesis
  proof (cases "ph_mode c = MATCH_CONTAINS")
    case True
    have "hasPattern HeaderSource (js ''has('' @ sourceText ParamSource (ph_path c) r) = None" for r
      by (simp add: hasPattern_def sourceCall_none)
    moreover have "paramContainsPattern (js ''has('' @ r) = None" "paramComparePattern (js ''has('' @ r) = None"
        "equalsPattern ParamSource (js ''has('' @ r) = None" "equalsPattern HeaderSource (js ''has('' @ r) = None" for r
      by (simp_all add: paramContainsPattern_def paramComparePattern_def equalsPattern_def sourceCall_none)
    ultimately show ?thesis
      using True by (simp add: guardedTail_def tryParseRequestCondition_def parseTime_none existsPattern_simps)
  next
    case False
    let ?r = "js '' '' @ paramOp (ph_mode c) @ js '' '' @ ph_value c"
    have r: "?r \<noteq> js '' != nil''" "expect (js '' != nil && '') ?r = None" "expect (js '' == '') ?r = None"
      by (simp_all add: paramOp_def js_simps)
    have "paramContainsPattern (sourceText ParamSource (ph_path c) ?r) = None"
        "paramComparePattern (sourceText ParamSource (ph_path c) ?r) = None"
        "equalsPattern ParamSource (sourceText ParamSource (ph_path c) ?r) = None"
      unfolding paramContainsPattern_def paramComparePattern_def equalsPattern_def
      by (simp_all only: sourceCall_match [OF c] bind.simps prod.case r)
    then show ?thesis
      using False r(1) c by (simp add: guardedTail_def tryParseRequestCondition_def parseTime_none existsPattern_simps
        hasPattern_none equalsPattern_simps)
  qed
qed

lemma guarded_pieces:
  assumes "guarded c"
  shows "conj.piece (sourceText ParamSource (ph_path c) (js '' != nil''))" "conj.piece (guardedTail c)"
    "nested (sourceText ParamSource (ph_path c) (js '' != nil''))" "nested (guardedTail c)"
proof -
  let ?e = "sourceText ParamSource (ph_path c) (js '' != nil'')"
  have p: "goodName (ph_path c)" using assms by (simp add: guarded_def)
  show e: "nested ?e" using p by (intro nested_call sourceName_units nested_js) simp_all
  show t: "nested (guardedTail c)"
  proof (cases "ph_mode c = MATCH_CONTAINS")
    case True
    then have v: "goodValue (ph_value c)" using assms by (auto simp: guarded_def mode_defs)
    have "guardedTail c = js ''has'' @ js ''('' @ sourceText ParamSource (ph_path c) (js '', '' @ stringify (ph_value c)) @ js '')''"
      using True by (simp add: guardedTail_def js_simps)
    also have "nested \<dots>"
      using p v by (intro nested_append nested_paren nested_call sourceName_units literal_nested nested_js) auto
    finally show ?thesis .
  next
    case False
    then have "nested (ph_value c)" using assms by (auto simp: guarded_def intro!: nested_no_parens dest: numeric_units)
    moreover have "nested (paramOp (ph_mode c))" by (simp add: paramOp_def nested_js)
    ultimately show ?thesis
      using False p unfolding guardedTail_def
      by (simp only: if_False) (intro nested_call nested_append sourceName_units nested_js; simp)
  qed
  have amp: "jsc CHR ''&'' \<notin> set ?e" "jsc CHR ''&'' \<notin> set (guardedTail c)"
    using assms p by (auto simp: guarded_def guardedTail_def paramOp_def text_units mode_defs)
  have ends: "trim ?e = ?e" "trim (guardedTail c) = guardedTail c"
    using assms p by (auto intro!: trim_id simp: guarded_def guardedTail_def sourceName_units js_simps dest: numeric_last)
  show "conj.piece ?e" "conj.piece (guardedTail c)"
    using e t amp ends by (auto simp: nested_def intro: conj.piece_plain)
qed

lemma guarded_bar: "guarded c \<Longrightarrow> jsc CHR ''|'' \<notin> set (buildRequestConditionExpr (ParamHeaderCond c))"
  by (auto simp: build_guarded guarded_def guardedTail_def paramOp_def text_units mode_defs)

section \<open>Groups and rules\<close>

lemma parse_listed:
  assumes "savable c"
  shows "tryParseRequestCondition json_other num_text (trim (listedText (buildRequestConditionExpr c))) = Inr (Some c)"
proof (cases "js_includes (buildRequestConditionExpr c) (js '' || '')")
  case True
  with assms show ?thesis
  proof (rule condition_bar)
    fix f tz a b
    assume c: "goodName tz" "isNumericLiteral a" "isNumericLiteral b"
      "c = TimeCond \<lparr>timeFunc = f, timezone = tz, tc_mode = MATCH_RANGE, tc_value = [], rangeStart = a, rangeEnd = b\<rparr>"
      "buildRequestConditionExpr c = rangeText f tz a b"
    have "trim (listedText (buildRequestConditionExpr c)) = js ''('' @ rangeText f tz a b @ js '')''"
      unfolding listedText_def using True c(5) by (auto intro!: trim_id simp: js_simps)
    then show ?thesis
      using parseTime_range(2) [OF c(1-3)] c(4) by (simp only: tryParseRequestCondition_def option.case)
  qed
next
  case False
  then show ?thesis by (simp add: listedText_def condition_trim [OF assms] parse_condition [OF assms])
qed

lemma listed_piece:
  assumes "savable c" shows "conj.piece (listedText (buildRequestConditionExpr c))" "listedText (buildRequestConditionExpr c) \<noteq> []"
  using condition_nested [OF assms] condition_amp [OF assms] condition_trim [OF assms]
  by (auto simp: listedText_def nested_def intro: conj.piece_paren [unfolded nested_def] conj.piece_plain)

lemma nested_join: "nested sep \<Longrightarrow> \<forall>p\<in>set ps. nested p \<Longrightarrow> nested (join sep ps)"
  by (induction sep ps rule: join.induct) (auto intro: nested_append simp: nested_no_parens no_parens_def)

lemma nested_listed: "nested e \<Longrightarrow> nested (listedText e)"
  by (simp add: listedText_def nested_paren)

lemma join_ne: "p \<noteq> [] \<Longrightarrow> join sep (p # ps) \<noteq> []"
  by (cases ps) simp_all

lemma parseEach_append:
  "parseEach f (xs @ ys) = (case parseEach f xs of
      Inl e \<Rightarrow> Inl e
    | Inr None \<Rightarrow> Inr None
    | Inr (Some as) \<Rightarrow> (case parseEach f ys of
          Inl e \<Rightarrow> Inl e | Inr None \<Rightarrow> Inr None | Inr (Some bs) \<Rightarrow> Inr (Some (as @ bs))))"
  by (induction xs) (auto split: sum.split option.split)

text \<open>Items that are either read back or rejected, without an exception.\<close>

lemma parseEach_items:
  assumes "\<And>x. x \<in> set xs \<Longrightarrow> parseEach f (g x) = Inr (if P x then Some [x] else None)"
  shows "parseEach f (concat (map g xs)) = Inr (if \<forall>x\<in>set xs. P x then Some xs else None)"
  using assms by (induction xs) (auto simp: parseEach_append)

text \<open>The groups that the editor writes: a numeric factor and at least one condition, in one of the forms that are read
  back or in one of those that are lost. A group survives when all its conditions do.\<close>

definition lostCond :: "RequestCondition \<Rightarrow> bool" where
  "lostCond c = (case c of TimeCond _ \<Rightarrow> False | ParamHeaderCond p \<Rightarrow> guarded p)"

definition writtenGroup :: "RequestRuleGroup \<Rightarrow> bool" where
  "writtenGroup g \<longleftrightarrow> isNumericLiteral (multiplier g) \<and> conditions g \<noteq> [] \<and> (\<forall>c\<in>set (conditions g). savable c \<or> lostCond c)"

definition savableGroup :: "RequestRuleGroup \<Rightarrow> bool" where
  "savableGroup g \<longleftrightarrow> isNumericLiteral (multiplier g) \<and> conditions g \<noteq> [] \<and> (\<forall>c\<in>set (conditions g). savable c)"

lemma savable_written: "savableGroup g \<Longrightarrow> writtenGroup g"
  by (simp add: savableGroup_def writtenGroup_def)

lemma lost_not_savable: "lostCond c \<Longrightarrow> \<not> savable c"
  by (cases c) (auto simp: lostCond_def guarded_def mode_defs)

lemma written_savable:
  "writtenGroup g \<Longrightarrow> savableGroup g \<longleftrightarrow> (\<forall>c\<in>set (conditions g). \<not> lostCond c)"
  using lost_not_savable by (auto simp: savableGroup_def writtenGroup_def)

text \<open>The pieces at which the text of a condition is split, alone or in a list.\<close>

definition condPieces :: "bool \<Rightarrow> RequestCondition \<Rightarrow> jsstr list" where
  "condPieces alone c = (case c of
      ParamHeaderCond p \<Rightarrow> if guarded p then [sourceText ParamSource (ph_path p) (js '' != nil''), guardedTail p]
        else [if alone then buildRequestConditionExpr c else listedText (buildRequestConditionExpr c)]
    | TimeCond _ \<Rightarrow> [if alone then buildRequestConditionExpr c else listedText (buildRequestConditionExpr c)])"

lemma condPieces_lost:
  assumes "guarded p"
  shows "condPieces alone (ParamHeaderCond p) = [sourceText ParamSource (ph_path p) (js '' != nil''), guardedTail p]"
  using assms by (simp add: condPieces_def)

lemma condPieces_savable:
  assumes "savable c"
  shows "condPieces alone c = [if alone then buildRequestConditionExpr c else listedText (buildRequestConditionExpr c)]"
  using lost_not_savable [of c] assms by (auto simp: condPieces_def lostCond_def split: RequestCondition.split)

lemma no_bar_listed: "jsc CHR ''|'' \<notin> set e \<Longrightarrow> listedText e = e"
  using set_mono_sublist [of "js '' || ''" e] by (auto simp: listedText_def js_includes_iff js_simps)

lemma condPieces_facts:
  assumes "savable c \<or> lostCond c"
  shows "join (js '' && '') (condPieces alone c) =
      (if alone then buildRequestConditionExpr c else listedText (buildRequestConditionExpr c))"
    and "\<And>e. e \<in> set (condPieces alone c) \<Longrightarrow> conj.piece e \<and> e \<noteq> [] \<and> nested e"
    and "condPieces alone c \<noteq> []" and "buildRequestConditionExpr c \<noteq> []"
    and "parseEach (\<lambda>ap. tryParseRequestCondition json_other num_text (trim ap)) (condPieces alone c) =
      Inr (if \<not> lostCond c then Some [c] else None)"
proof -
  have "join (js '' && '') (condPieces alone c) =
      (if alone then buildRequestConditionExpr c else listedText (buildRequestConditionExpr c)) \<and>
    (\<forall>e\<in>set (condPieces alone c). conj.piece e \<and> e \<noteq> [] \<and> nested e) \<and> condPieces alone c \<noteq> [] \<and>
    buildRequestConditionExpr c \<noteq> [] \<and>
    parseEach (\<lambda>ap. tryParseRequestCondition json_other num_text (trim ap)) (condPieces alone c) =
      Inr (if \<not> lostCond c then Some [c] else None)"
  proof (cases "lostCond c")
    case True
    then obtain p where p: "c = ParamHeaderCond p" "guarded p" by (auto simp: lostCond_def split: RequestCondition.splits)
    let ?e = "sourceText ParamSource (ph_path p) (js '' != nil'')"
    have name: "goodName (ph_path p)" using p(2) by (simp add: guarded_def)
    note built = build_guarded [OF p(2)] and pieces = guarded_pieces [OF p(2)]
    have ne: "?e \<noteq> []" "guardedTail p \<noteq> []" by (simp_all add: guardedTail_def sourceName_units)
    have "listedText (buildRequestConditionExpr c) = buildRequestConditionExpr c"
      by (rule no_bar_listed) (use guarded_bar [OF p(2)] p(1) in simp)
    moreover have "tryParseRequestCondition json_other num_text (trim ?e) \<noteq> Inl x"
        "tryParseRequestCondition json_other num_text (trim ?e) \<noteq> Inr None" for x
      using parse_exists [OF name, of ParamSource json_other num_text] conj.piece_trim [OF pieces(1)] by simp_all
    moreover have "tryParseRequestCondition json_other num_text (trim (guardedTail p)) = Inr None"
      using parse_tail [OF p(2)] conj.piece_trim [OF pieces(2)] by simp
    ultimately show ?thesis
      unfolding p(1) condPieces_lost [OF p(2)]
      using True p built pieces ne by (auto split: sum.split option.split)
  next
    case False
    then have c: "savable c" using assms by blast
    have n: "nested (buildRequestConditionExpr c)" "conj.piece (buildRequestConditionExpr c)"
      using condition_nested [OF c] condition_amp [OF c] condition_trim [OF c] by (auto simp: nested_def intro: conj.piece_plain)
    have "tryParseRequestCondition json_other num_text (trim (if alone then buildRequestConditionExpr c
        else listedText (buildRequestConditionExpr c))) = Inr (Some c)"
      using parse_listed [OF c] parse_condition [OF c] condition_trim [OF c] by simp
    then show ?thesis
      unfolding condPieces_savable [OF c]
      using False n listed_piece [OF c] nested_listed [OF n(1)] condition_trim [OF c] by simp
  qed
  then show "join (js '' && '') (condPieces alone c) =
      (if alone then buildRequestConditionExpr c else listedText (buildRequestConditionExpr c))"
    "\<And>e. e \<in> set (condPieces alone c) \<Longrightarrow> conj.piece e \<and> e \<noteq> [] \<and> nested e"
    "condPieces alone c \<noteq> []" "buildRequestConditionExpr c \<noteq> []"
    "parseEach (\<lambda>ap. tryParseRequestCondition json_other num_text (trim ap)) (condPieces alone c) =
      Inr (if \<not> lostCond c then Some [c] else None)" by blast+
qed

text \<open>The pieces of a group, and its text.\<close>

definition groupPieces :: "RequestRuleGroup \<Rightarrow> jsstr list" where
  "groupPieces g = concat (map (condPieces (length (conditions g) = 1)) (conditions g))"

definition groupText :: "RequestRuleGroup \<Rightarrow> jsstr" where
  "groupText g = join (js '' && '') (groupPieces g)"

lemma join_append: "xs \<noteq> [] \<Longrightarrow> ys \<noteq> [] \<Longrightarrow> join sep (xs @ ys) = join sep xs @ sep @ join sep ys"
proof (induction sep xs rule: join.induct)
  case (2 sep x)
  then show ?case by (cases ys) simp_all
qed simp_all

lemma join_concat:
  "(\<And>x. x \<in> set xs \<Longrightarrow> f x \<noteq> []) \<Longrightarrow> join sep (concat (map f xs)) = join sep (map (\<lambda>x. join sep (f x)) xs)"
proof (induction xs)
  case (Cons x xs)
  then show ?case by (cases xs) (simp_all add: join_append)
qed simp

lemma build_group:
  assumes "writtenGroup g"
  shows "buildRuleGroupFactor g = js ''('' @ groupText g @ js '' ? '' @ multiplier g @ js '' : 1)''"
proof -
  let ?one = "length (conditions g) = 1"
  have cs: "savable c \<or> lostCond c" if "c \<in> set (conditions g)" for c using assms that by (simp add: writtenGroup_def)
  have keep: "filter (\<lambda>e. e \<noteq> []) (map buildRequestConditionExpr (conditions g)) = map buildRequestConditionExpr (conditions g)"
    using condPieces_facts(4) [OF cs] by (auto simp: filter_id_conv)
  have "groupText g = join (js '' && '') (map (\<lambda>c. join (js '' && '') (condPieces ?one c)) (conditions g))"
    unfolding groupText_def groupPieces_def by (rule join_concat) (rule condPieces_facts(3) [OF cs])
  also have "\<dots> = join (js '' && '') (map (\<lambda>c. if ?one then buildRequestConditionExpr c
      else listedText (buildRequestConditionExpr c)) (conditions g))"
    using condPieces_facts(1) [OF cs] by (auto intro!: arg_cong [where f = "join (js '' && '')"])
  finally have "groupText g = (if ?one then hd (map buildRequestConditionExpr (conditions g))
      else join (js '' && '') (map (\<lambda>c. listedText (buildRequestConditionExpr c)) (conditions g)))"
    by (cases "conditions g") auto
  then show ?thesis
    using assms keep by (auto simp: buildRuleGroupFactor_def writtenGroup_def isNumericLiteral_trim Let_def listedText_def comp_def)
qed

lemma groupText_split:
  assumes "writtenGroup g"
  shows "splitTopLevelAnd (groupText g) = groupPieces g" and "nested (groupText g)" and "groupText g \<noteq> []"
proof -
  have cs: "savable c \<or> lostCond c" if "c \<in> set (conditions g)" for c using assms that by (simp add: writtenGroup_def)
  have pieces: "conj.piece e \<and> e \<noteq> [] \<and> nested e" if "e \<in> set (groupPieces g)" for e
    using that condPieces_facts(2) [OF cs] by (auto simp: groupPieces_def)
  have ne: "groupPieces g \<noteq> []"
    using assms condPieces_facts(3) [OF cs] by (auto simp: groupPieces_def writtenGroup_def)
  show "splitTopLevelAnd (groupText g) = groupPieces g"
    unfolding groupText_def using ne pieces by (intro splitTopLevelAnd_join) auto
  show "nested (groupText g)" unfolding groupText_def using pieces by (intro nested_join nested_js) auto
  obtain e es where e: "groupPieces g = e # es" using ne by (meson list.exhaust)
  then have "e \<noteq> []" using pieces [of e] by simp
  then show "groupText g \<noteq> []" unfolding groupText_def e by (rule join_ne)
qed

text \<open>The pattern of a factor on the text of a group.\<close>

lemma matchFactor_text:
  assumes "isNumericLiteral m" "e \<noteq> []"
  shows "matchFactor (js ''('' @ e @ js '' ? '' @ m @ js '' : 1)'') = Some (e, m)"
proof -
  let ?body = "e @ js '' ? '' @ m"
  let ?part = "js ''('' @ e @ js '' ? '' @ m @ js '' : 1)''"
  have tl: "tl ?part = ?body @ js '' : 1)''" and len: "length ?part - 6 = length ?body" by (simp_all add: js_simps)
  have part: "prefix (js ''('') ?part" "suffix (js '' : 1)'') (tl ?part)" "take (length ?part - 6) (tl ?part) = ?body"
    unfolding len unfolding tl by (simp_all add: suffix_def)
  have "takeWhile numChar (rev m @ rev (js '' ? '') @ rev e) = rev m @ takeWhile numChar (rev (js '' ? '') @ rev e)"
    using isNumericLiteral_chars [OF assms(1)] by (intro takeWhile_append2) simp
  then have num: "rev (takeWhile numChar (rev ?body)) = m" by (simp add: js_simps)
  have pre: "take (length ?body - length m) ?body = e @ js '' ? ''" by simp
  have "m \<noteq> []" "suffix (js '' ? '') (e @ js '' ? '')" "length (e @ js '' ? '') > 3"
      "take (length (e @ js '' ? '') - 3) (e @ js '' ? '') = e"
    using isNumericLiteral_chars(1) [OF assms(1)] assms(2) by (simp_all add: suffix_def)
  then show ?thesis
    unfolding matchFactor_def Let_def part(3) num pre using part(1,2) by (simp only: simp_thms if_True)
qed

lemma parse_group:
  assumes "writtenGroup g"
  shows "tryParseRuleGroupFactor json_other num_text (buildRuleGroupFactor g) = Inr (if savableGroup g then Some g else None)"
proof -
  have g: "isNumericLiteral (multiplier g)" "conditions g \<noteq> []" using assms by (simp_all add: writtenGroup_def)
  have "parseEach (\<lambda>ap. tryParseRequestCondition json_other num_text (trim ap)) (groupPieces g) =
      Inr (if savableGroup g then Some (conditions g) else None)"
    unfolding groupPieces_def written_savable [OF assms]
    by (rule parseEach_items) (rule condPieces_facts(5), use assms in \<open>simp add: writtenGroup_def\<close>)
  then show ?thesis
    unfolding tryParseRuleGroupFactor_def build_group [OF assms]
      matchFactor_text [OF g(1) groupText_split(3) [OF assms]]
    using g(2) by (simp add: groupText_split(1) [OF assms])
qed

lemma group_piece:
  assumes "writtenGroup g"
  shows "mult.piece (buildRuleGroupFactor g)" "buildRuleGroupFactor g \<noteq> []"
proof -
  let ?inner = "groupText g @ js '' ? '' @ multiplier g @ js '' : 1''"
  have "nested (multiplier g)" using assms by (simp add: writtenGroup_def nested_no_parens numeric_units)
  then have "nested ?inner"
    using groupText_split(2) [OF assms] by (intro nested_append nested_js) simp_all
  moreover have "buildRuleGroupFactor g = js ''('' @ ?inner @ js '')''"
    unfolding build_group [OF assms] by (simp add: js_simps)
  ultimately show "mult.piece (buildRuleGroupFactor g)" "buildRuleGroupFactor g \<noteq> []"
    using mult.piece_paren [of ?inner] by simp_all
qed

lemma build_rules:
  "\<forall>g\<in>set groups. writtenGroup g \<Longrightarrow>
    buildRequestRuleExpr groups = join (js '' * '') (map buildRuleGroupFactor groups)"
  unfolding buildRequestRuleExpr_def by (subst filter_True) (auto simp: group_piece)

lemma join_ends:
  assumes "p \<noteq> []" "\<not> is_ws (hd p)" "\<forall>q\<in>set (p # ps). q \<noteq> [] \<and> \<not> is_ws (last q)"
  shows "trim (join sep (p # ps)) = join sep (p # ps)"
proof -
  have last: "\<forall>q\<in>set qs. q \<noteq> [] \<and> \<not> is_ws (last q) \<Longrightarrow> qs \<noteq> [] \<Longrightarrow> \<not> is_ws (last (join sep qs)) \<and> join sep qs \<noteq> []" for qs
    by (induction qs rule: induct_list012) auto
  have "hd (join sep (p # ps)) = hd p" using assms(1) by (cases ps) simp_all
  with last [of "p # ps"] assms show ?thesis by (intro trim_id) simp
qed

lemma rules_text:
  assumes "\<forall>g\<in>set groups. writtenGroup g" "groups \<noteq> []"
  shows "trim (buildRequestRuleExpr groups) = buildRequestRuleExpr groups" "buildRequestRuleExpr groups \<noteq> []"
    "splitTopLevelMultiply (buildRequestRuleExpr groups) = map buildRuleGroupFactor groups"
proof -
  obtain g gs where groups: "groups = g # gs" using assms(2) by (meson list.exhaust)
  have ends: "hd (buildRuleGroupFactor h) = jsc CHR ''(''" "last (buildRuleGroupFactor h) = jsc CHR '')''"
      "buildRuleGroupFactor h \<noteq> []" if "h \<in> set groups" for h
    using that assms(1) by (auto simp: build_group js_simps)
  have eq: "buildRequestRuleExpr groups = join (js '' * '') (buildRuleGroupFactor g # map buildRuleGroupFactor gs)"
    using build_rules [OF assms(1)] groups by simp
  show "trim (buildRequestRuleExpr groups) = buildRequestRuleExpr groups"
    unfolding eq using ends groups by (intro join_ends) (auto simp: js_simps)
  show "buildRequestRuleExpr groups \<noteq> []" unfolding eq using ends groups by (intro join_ne) simp
  show "splitTopLevelMultiply (buildRequestRuleExpr groups) = map buildRuleGroupFactor groups"
    unfolding build_rules [OF assms(1)] using assms group_piece by (intro splitTopLevelMultiply_join) auto
qed

lemma parse_written:
  assumes "\<forall>g\<in>set groups. writtenGroup g"
  shows "tryParseRequestRuleExpr json_other num_text (buildRequestRuleExpr groups) =
    Inr (if \<forall>g\<in>set groups. savableGroup g then Some groups else None)"
proof (cases "groups = []")
  case True
  then show ?thesis by (simp add: tryParseRequestRuleExpr_def buildRequestRuleExpr_def)
next
  case False
  have "map buildRuleGroupFactor groups = concat (map (\<lambda>g. [buildRuleGroupFactor g]) groups)" by (induction groups) simp_all
  moreover have "parseEach (tryParseRuleGroupFactor json_other num_text) (concat (map (\<lambda>g. [buildRuleGroupFactor g]) groups)) =
      Inr (if \<forall>g\<in>set groups. savableGroup g then Some groups else None)"
    by (rule parseEach_items) (use assms parse_group in auto)
  ultimately show ?thesis
    using rules_text [OF assms False] by (simp add: tryParseRequestRuleExpr_def)
qed

lemma parse_rules:
  assumes "\<forall>g\<in>set groups. savableGroup g"
  shows "tryParseRequestRuleExpr json_other num_text (buildRequestRuleExpr groups) = Inr (Some groups)"
  using parse_written [of groups] assms savable_written by simp

lemma guarded_group:
  assumes "guarded c" "isNumericLiteral m"
  shows "tryParseRequestRuleExpr json_other num_text
    (buildRequestRuleExpr [\<lparr>conditions = [ParamHeaderCond c], multiplier = m\<rparr>]) = Inr None"
  using parse_written [of "[\<lparr>conditions = [ParamHeaderCond c], multiplier = m\<rparr>]"] assms lost_not_savable [of "ParamHeaderCond c"]
  by (simp add: writtenGroup_def savableGroup_def lostCond_def)

section \<open>What a text keeps of its groups\<close>

text \<open>The text does not show incomplete conditions and groups, white space around names and values, and values in
  inputs that the chosen match mode does not use.\<close>

definition cleanTime :: "TimeCondition \<Rightarrow> TimeCondition" where
  "cleanTime t = (let n = normalizeTimeCondition t in
     if tc_mode n = MATCH_RANGE then n\<lparr>tc_value := [], rangeStart := trim (rangeStart n), rangeEnd := trim (rangeEnd n)\<rparr>
     else n\<lparr>tc_value := trim (tc_value n), rangeStart := [], rangeEnd := []\<rparr>)"

definition cleanPH :: "ParamHeaderCondition \<Rightarrow> ParamHeaderCondition" where
  "cleanPH p = (let n = normalizeParamHeaderCondition p in
     n\<lparr>ph_path := trim (ph_path n), ph_value := (if ph_mode n = MATCH_EXISTS then [] else trim (ph_value n))\<rparr>)"

definition cleanCond :: "RequestCondition \<Rightarrow> RequestCondition" where
  "cleanCond c = (case c of TimeCond t \<Rightarrow> TimeCond (cleanTime t) | ParamHeaderCond p \<Rightarrow> ParamHeaderCond (cleanPH p))"

definition cleanGroup :: "RequestRuleGroup \<Rightarrow> RequestRuleGroup" where
  "cleanGroup g = \<lparr>conditions = map cleanCond (filter (\<lambda>c. buildRequestConditionExpr c \<noteq> []) (conditions g)),
     multiplier = trim (multiplier g)\<rparr>"

definition cleanGroups :: "RequestRuleGroup list \<Rightarrow> RequestRuleGroup list" where
  "cleanGroups gs = map cleanGroup (filter (\<lambda>g. buildRuleGroupFactor g \<noteq> []) gs)"

lemma knownMode_idem:
  "knownMode TimeSource (Some (knownMode TimeSource m MATCH_GTE)) MATCH_GTE = knownMode TimeSource m MATCH_GTE"
  "src \<noteq> TimeSource \<Longrightarrow> knownMode src (Some (knownMode src m MATCH_EQ)) MATCH_EQ = knownMode src m MATCH_EQ"
  by (auto simp: knownMode_def getRequestRuleMatchOptions_def split: option.split)

lemma clean_normal:
  "normalizeTimeCondition (cleanTime t) = cleanTime t" "normalizeParamHeaderCondition (cleanPH p) = cleanPH p"
proof -
  have "knownMode TimeSource (Some MATCH_RANGE) MATCH_GTE = MATCH_RANGE" by (simp add: knownMode_def getRequestRuleMatchOptions_def)
  then show "normalizeTimeCondition (cleanTime t) = cleanTime t"
    by (cases t) (simp add: cleanTime_def normalizeTimeCondition_def knownMode_idem Let_def)
  show "normalizeParamHeaderCondition (cleanPH p) = cleanPH p"
    by (cases p) (simp add: cleanPH_def normalizeParamHeaderCondition_def knownMode_idem Let_def)
qed

lemma build_clean: "buildRequestConditionExpr (cleanCond c) = buildRequestConditionExpr c"
proof (cases c)
  case (TimeCond t)
  then show ?thesis
    unfolding cleanCond_def buildRequestConditionExpr_def buildTimeConditionExpr_def
    by (simp add: clean_normal) (simp add: cleanTime_def Let_def)
next
  case (ParamHeaderCond p)
  have v: "buildExprLiteral m (trim v) = buildExprLiteral m v" for m v by (simp add: buildExprLiteral_def)
  show ?thesis
    unfolding ParamHeaderCond cleanCond_def buildRequestConditionExpr_def
    by (simp add: clean_normal) (simp add: cleanPH_def Let_def v)
qed

lemma factor_clean: "buildRuleGroupFactor (cleanGroup g) = buildRuleGroupFactor g"
  by (simp add: buildRuleGroupFactor_def cleanGroup_def comp_def build_clean filter_map Let_def)

lemma rules_clean: "buildRequestRuleExpr (cleanGroups gs) = buildRequestRuleExpr gs"
  by (simp add: buildRequestRuleExpr_def cleanGroups_def comp_def factor_clean filter_map)

text \<open>The only condition on what is typed: names that need no escaping, and no parentheses, ampersands, bars or line
  separators.\<close>

definition plainCond :: "RequestCondition \<Rightarrow> bool" where
  "plainCond c = (case c of
      TimeCond t \<Rightarrow> timezone t = [] \<or> goodName (timezone t)
    | ParamHeaderCond p \<Rightarrow> goodName (trim (ph_path p)) \<and> goodValue (trim (ph_value p)))"

lemma known_time: "knownMode TimeSource m MATCH_GTE \<in> {MATCH_EQ, MATCH_GTE, MATCH_LT, MATCH_RANGE}"
  by (auto simp: knownMode_def getRequestRuleMatchOptions_def split: option.split)

lemma known_param:
  "knownMode HeaderSource m MATCH_EQ \<in> {MATCH_EQ, MATCH_CONTAINS, MATCH_EXISTS}"
  "knownMode ParamSource m MATCH_EQ \<in> {MATCH_EQ, MATCH_CONTAINS, MATCH_EXISTS, MATCH_GT, MATCH_GTE, MATCH_LT, MATCH_LTE}"
  by (auto simp: knownMode_def getRequestRuleMatchOptions_def split: option.split)

lemma china_good: "goodName (js ''Asia/Shanghai'')"
  by (simp add: goodName_def nameUnit_def plain_unit_def js_simps jsc_def high_surrogate_def low_surrogate_def)

lemma clean_written:
  assumes "plainCond c" "buildRequestConditionExpr c \<noteq> []"
  shows "savable (cleanCond c) \<or> lostCond (cleanCond c)"
proof (cases c)
  case (TimeCond t)
  have tz: "goodName (timezone (normalizeTimeCondition t))"
    using assms(1) TimeCond china_good by (auto simp: plainCond_def normalizeTimeCondition_def)
  have "tc_mode (normalizeTimeCondition t) \<in> {MATCH_EQ, MATCH_GTE, MATCH_LT, MATCH_RANGE}"
    using known_time by (simp add: normalizeTimeCondition_def)
  then show ?thesis
    using assms(2) tz unfolding TimeCond
    by (auto simp: buildRequestConditionExpr_def buildTimeConditionExpr_def cleanCond_def cleanTime_def Let_def
      split: if_splits)
next
  case (ParamHeaderCond p)
  let ?n = "normalizeParamHeaderCondition p"
  have src: "ph_source ?n = HeaderSource \<or> ph_source ?n = ParamSource" by (simp add: normalizeParamHeaderCondition_def)
  have mode: "ph_source ?n = HeaderSource \<Longrightarrow> ph_mode ?n \<in> {MATCH_EQ, MATCH_CONTAINS, MATCH_EXISTS}"
    "ph_source ?n = ParamSource \<Longrightarrow>
      ph_mode ?n \<in> {MATCH_EQ, MATCH_CONTAINS, MATCH_EXISTS, MATCH_GT, MATCH_GTE, MATCH_LT, MATCH_LTE}"
    using known_param by (auto simp: normalizeParamHeaderCondition_def Let_def split: if_splits)
  have plain: "goodName (trim (ph_path ?n))" "goodValue (trim (ph_value ?n))"
    using assms(1) ParamHeaderCond by (simp_all add: plainCond_def normalizeParamHeaderCondition_def)
  have num: "ph_mode ?n \<in> {MATCH_GT, MATCH_GTE, MATCH_LT, MATCH_LTE} \<Longrightarrow> isNumericLiteral (trim (ph_value ?n))"
    using assms(2) unfolding ParamHeaderCond
    by (auto simp: buildRequestConditionExpr_def Let_def mode_defs split: if_splits)
  show ?thesis
    using src mode plain num unfolding ParamHeaderCond
    by (auto simp: cleanCond_def cleanPH_def lostCond_def guarded_def Let_def)
qed

lemma cleanGroups_written:
  assumes "\<forall>g\<in>set gs. \<forall>c\<in>set (conditions g). buildRequestConditionExpr c = [] \<or> plainCond c"
  shows "\<forall>g\<in>set (cleanGroups gs). writtenGroup g"
proof
  fix h assume "h \<in> set (cleanGroups gs)"
  then obtain g where g: "g \<in> set gs" "h = cleanGroup g" "buildRuleGroupFactor g \<noteq> []" by (auto simp: cleanGroups_def)
  have "isNumericLiteral (multiplier h)" "conditions h \<noteq> []"
    using g(2,3) by (auto simp: cleanGroup_def buildRuleGroupFactor_def Let_def filter_empty_conv split: if_splits)
  moreover have "savable c \<or> lostCond c" if "c \<in> set (conditions h)" for c
    using that g(1,2) assms clean_written by (auto simp: cleanGroup_def)
  ultimately show "writtenGroup h" by (simp add: writtenGroup_def)
qed

section \<open>Combined expressions\<close>

lemma partition_rules:
  "\<forall>p\<in>set ps. \<exists>g gs. parse p = Inr (Some (g # gs)) \<Longrightarrow> partitionParts parse ps = Inr (ps, [])"
  by (induction ps) (auto split: sum.splits)

lemma unwrap_base:
  assumes "nested base" "trim base = base" "\<not> hasFullOuterParens base"
  shows "unwrapOuterParens (js ''('' @ base @ js '')'') = base"
proof -
  let ?e = "js ''('' @ base @ js '')''"
  have closes: "closesAtEnd d (s @ js '')'')" if "\<And>u v. s = u @ v \<Longrightarrow> 1 \<le> d + depth u" "d + depth s = 1" for d s
    using that
  proof (induction s arbitrary: d)
    case Nil
    then show ?case by (simp add: js_simps)
  next
    case (Cons c s)
    have "1 \<le> d + parenDelta c + depth u" if "s = u @ v" for u v
      using Cons.prems(1) [of "c # u" v] that by (simp add: add.assoc)
    moreover have "1 \<le> d + parenDelta c" using Cons.prems(1) [of "[c]" s] by simp
    ultimately show ?case using Cons.IH [of "d + parenDelta c"] Cons.prems(2) by (simp add: add.assoc)
  qed
  have "closesAtEnd 1 (base @ js '')'')" using assms(1) by (intro closes) (auto simp: nested_def)
  then have "hasFullOuterParens ?e" by (simp add: hasFullOuterParens_def js_simps suffix_def)
  moreover have "trim ?e = ?e" by (rule trim_id) (simp add: js_simps)
  moreover have "butlast (tl ?e) = base" by (simp add: js_simps butlast_append)
  ultimately show ?thesis
    using assms(2,3) by (simp only: unwrapOuterParens_def unwrapLoop.simps [of ?e] unwrapLoop.simps [of base] if_True if_False simp_thms)
qed

lemma combined_parts:
  assumes "\<forall>g\<in>set groups. writtenGroup g" "groups \<noteq> []" "nested base" "trim base = base" "base \<noteq> []"
  shows "combineBillingExpr base (buildRequestRuleExpr groups) =
      join (js '' * '') ((js ''('' @ base @ js '')'') # map buildRuleGroupFactor groups)" (is "?c = ?j")
    and "trim (combineBillingExpr base (buildRequestRuleExpr groups)) = combineBillingExpr base (buildRequestRuleExpr groups)"
    and "splitTopLevelMultiply (combineBillingExpr base (buildRequestRuleExpr groups)) =
      (js ''('' @ base @ js '')'') # map buildRuleGroupFactor groups"
proof -
  have "js '') * '' = js '')'' @ js '' * ''" by (simp add: js_simps)
  then show eq: "?c = ?j"
    using rules_text(1,2) [OF assms(1,2)] assms(2,4,5) build_rules [OF assms(1)]
    by (cases groups) (simp_all add: combineBillingExpr_def)
  have ends: "hd (buildRuleGroupFactor h) = jsc CHR ''(''" "last (buildRuleGroupFactor h) = jsc CHR '')''"
      "buildRuleGroupFactor h \<noteq> []" if "h \<in> set groups" for h
    using that assms(1) by (auto simp: build_group js_simps)
  show "trim ?c = ?c" unfolding eq using ends by (intro join_ends) (auto simp: js_simps)
  show "splitTopLevelMultiply ?c = (js ''('' @ base @ js '')'') # map buildRuleGroupFactor groups"
    unfolding eq using group_piece assms(1) mult.piece_paren [OF assms(3)]
    by (intro splitTopLevelMultiply_join) auto
qed

lemma split_combined:
  assumes "\<forall>g\<in>set groups. savableGroup g" "groups \<noteq> []" "nested base" "trim base = base" "base \<noteq> []"
    and "\<not> hasFullOuterParens base"
    and "tryParseRequestRuleExpr json_other num_text (js ''('' @ base @ js '')'') = Inr None"
  shows "splitBillingExprAndRequestRules json_other num_text (combineBillingExpr base (buildRequestRuleExpr groups)) =
    Inr \<lparr>billingExpr = base, requestRuleExpr = buildRequestRuleExpr groups\<rparr>"
proof -
  let ?parse = "tryParseRequestRuleExpr json_other num_text"
  have written: "\<forall>g\<in>set groups. writtenGroup g" using assms(1) savable_written by blast
  note parts = combined_parts [OF written assms(2-5)]
  have "?parse (buildRuleGroupFactor g) = Inr (Some [g])" if "g \<in> set groups" for g
  proof -
    have g: "\<forall>h\<in>set [g]. savableGroup h" using that assms(1) by simp
    then show ?thesis using parse_rules [OF g] build_rules [of "[g]"] savable_written by simp
  qed
  then have rules: "partitionParts ?parse (map buildRuleGroupFactor groups) = Inr (map buildRuleGroupFactor groups, [])"
    by (intro partition_rules) auto
  have ne: "combineBillingExpr base (buildRequestRuleExpr groups) \<noteq> []"
    unfolding parts(1) by (rule join_ne) (simp add: js_simps)
  have "length ((js ''('' @ base @ js '')'') # map buildRuleGroupFactor groups) > 1" using assms(2) by simp
  then show ?thesis
    unfolding splitBillingExprAndRequestRules_def Let_def parts(2,3)
    using ne assms(2) by (simp add: rules assms(7) unwrap_base [OF assms(3,4,6)] build_rules [OF written])
qed

section \<open>Properties\<close>

text \<open>C18: what the rule editor writes is read back exactly when it has no comparison of a parameter with a number and
  no test whether a parameter contains a text. The groups are arbitrary, with any of the conditions that the editor
  offers, complete or not; only the names and values of conditions that are written must be plain: names that need
  no escaping, and no parentheses, ampersands, bars or line separators. If no written condition is of those two
  forms, parsing the built text returns the groups without what the text does not show (incomplete conditions and
  groups, surrounding white space, values that the match mode does not use); otherwise the parser rejects the whole
  text, whatever else it holds.\<close>

theorem rules_roundtrip:
  assumes "\<forall>g\<in>set groups. \<forall>c\<in>set (conditions g). buildRequestConditionExpr c = [] \<or> plainCond c"
  shows "tryParseRequestRuleExpr json_other num_text (buildRequestRuleExpr groups) =
    Inr (if \<exists>g\<in>set (cleanGroups groups). \<exists>c\<in>set (conditions g). lostCond c then None else Some (cleanGroups groups))"
  using parse_written [OF cleanGroups_written [OF assms]] cleanGroups_written [OF assms] written_savable
  unfolding rules_clean by auto

definition exampleGroups :: "RequestRuleGroup list" where
  "exampleGroups = [
     \<lparr>conditions = [TimeCond \<lparr>timeFunc = Hour, timezone = js ''UTC'', tc_mode = MATCH_RANGE, tc_value = [],
                      rangeStart = js ''21'', rangeEnd = js ''6''\<rparr>,
                    ParamHeaderCond \<lparr>ph_source = HeaderSource, ph_path = js ''x-tier'', ph_mode = MATCH_EQ, ph_value = js ''fast''\<rparr>],
      multiplier = js ''0.5''\<rparr>,
     \<lparr>conditions = [ParamHeaderCond \<lparr>ph_source = ParamSource, ph_path = js ''stream'', ph_mode = MATCH_EXISTS, ph_value = []\<rparr>],
      multiplier = js ''2''\<rparr>]"

lemma plain_jsc: "nameUnit (jsc c) \<longleftrightarrow> 32 \<le> (of_char c :: nat) \<and> c \<notin> {CHR 0x22, CHR 0x5C, CHR ''('', CHR '')'', CHR ''&'', CHR ''|''}"
proof -
  have q: "dquote = jsc CHR 0x22" "backslash = jsc CHR 0x5C" by (simp_all add: jsc_def)
  have "unat (jsc c) < 256" by (simp add: unat_jsc)
  then have "\<not> high_surrogate (jsc c)" "\<not> low_surrogate (jsc c)"
    by (auto simp: high_surrogate_def low_surrogate_def word_le_nat_alt)
  moreover have "32 \<le> jsc c \<longleftrightarrow> 32 \<le> (of_char c :: nat)" by (simp add: word_le_nat_alt unat_jsc)
  ultimately show ?thesis
    unfolding nameUnit_def plain_unit_def q by (auto simp: js_simps)
qed

lemma wide_jsc: "jsc c \<noteq> 0x2028" "jsc c \<noteq> 0x2029"
proof -
  have "unat (jsc c) < 256" by (simp add: unat_jsc)
  then show "jsc c \<noteq> 0x2028" "jsc c \<noteq> 0x2029" by auto
qed

lemma example_savable: "\<forall>g\<in>set exampleGroups. savableGroup g"
  by (auto simp: exampleGroups_def savableGroup_def goodName_def goodValue_def plain_jsc wide_jsc js_simps mode_defs
    isNumericLiteral_def mantissaRest_def exponentOk_def span1_def all1_def drop_opt_def intro!: trim_no_ws)

lemma example_clean: "cleanGroups exampleGroups = exampleGroups"
proof -
  have num: "isNumericLiteral (js ''21'')" "isNumericLiteral (js ''6'')" "isNumericLiteral (js ''0.5'')" "isNumericLiteral (js ''2'')"
    by (simp_all add: isNumericLiteral_def mantissaRest_def exponentOk_def span1_def all1_def drop_opt_def js_simps)
  have t: "trim (js ''x-tier'') = js ''x-tier''" "trim (js ''fast'') = js ''fast''" "trim (js ''stream'') = js ''stream''"
    by (simp_all add: trim_no_ws js_simps)
  have ne: "buildRuleGroupFactor g \<noteq> []" "\<forall>c\<in>set (conditions g). buildRequestConditionExpr c \<noteq> []" if "g \<in> set exampleGroups" for g
    using that example_savable group_piece(2) [OF savable_written] condition_trim(2) by (auto simp: savableGroup_def)
  have "filter (\<lambda>g. buildRuleGroupFactor g \<noteq> []) exampleGroups = exampleGroups"
    using ne(1) by (simp add: filter_id_conv)
  moreover have "cleanGroup g = g" if "g \<in> set exampleGroups" for g
  proof -
    have "filter (\<lambda>c. buildRequestConditionExpr c \<noteq> []) (conditions g) = conditions g"
      using ne(2) [OF that] by (simp add: filter_id_conv)
    then show ?thesis using that
      by (auto simp: cleanGroup_def exampleGroups_def cleanCond_def cleanTime_def cleanPH_def normalizeTimeCondition_def
        normalizeParamHeaderCondition_def knownMode_simps num t isNumericLiteral_trim mode_defs)
  qed
  ultimately show ?thesis by (simp add: cleanGroups_def map_idI)
qed

theorem rules_roundtrip_witness:
  "tryParseRequestRuleExpr (\<lambda>_. None) (\<lambda>_. []) (buildRequestRuleExpr exampleGroups) = Inr (Some exampleGroups)"
proof -
  have "\<forall>g\<in>set exampleGroups. \<forall>c\<in>set (conditions g). \<not> lostCond c"
    using example_savable lost_not_savable by (fastforce simp: savableGroup_def)
  moreover have "\<forall>g\<in>set exampleGroups. \<forall>c\<in>set (conditions g). buildRequestConditionExpr c = [] \<or> plainCond c"
    by (auto simp: exampleGroups_def plainCond_def goodName_def goodValue_def plain_jsc wide_jsc js_simps trim_no_ws)
  ultimately show ?thesis using rules_roundtrip [of exampleGroups] by (simp add: example_clean)
qed

text \<open>conditions that compare a parameter with a number, and conditions whether a parameter contains
  a text, cannot be read back. Their text is a conjunction with the test that the parameter exists,
  the parser splits it at that conjunction before it looks at conditions, and rejects the whole rule
  expression.\<close>

theorem guarded_condition_lost:
  assumes "guarded c" and "isNumericLiteral m"
  shows "tryParseRequestRuleExpr json_other num_text
    (buildRequestRuleExpr [\<lparr>conditions = [ParamHeaderCond c], multiplier = m\<rparr>]) = Inr None"
  using assms by (rule guarded_group)

theorem guarded_condition_lost_witness:
  "tryParseRequestRuleExpr (\<lambda>_. None) (\<lambda>_. []) (buildRequestRuleExpr [\<lparr>conditions =
     [ParamHeaderCond \<lparr>ph_source = ParamSource, ph_path = js ''n'', ph_mode = MATCH_GT, ph_value = js ''1''\<rparr>],
     multiplier = js ''2''\<rparr>]) = Inr None"
proof -
  have num: "isNumericLiteral (js ''1'')" "isNumericLiteral (js ''2'')"
    by (simp_all add: isNumericLiteral_def mantissaRest_def exponentOk_def span1_def drop_opt_def js_simps)
  have "guarded \<lparr>ph_source = ParamSource, ph_path = js ''n'', ph_mode = MATCH_GT, ph_value = js ''1''\<rparr>"
    using num(1) by (simp add: guarded_def goodName_def plain_jsc js_simps) (simp add: trim_no_ws js_simps)
  then show ?thesis using num(2) by (rule guarded_condition_lost)
qed

text \<open>a billing expression and its rules can be put together and taken apart. For a trimmed base
  expression with balanced parentheses that is neither a rule itself nor enclosed in parentheses, and
  at least one rule, splitting the combined expression returns the base and the rules.\<close>

theorem combine_split_roundtrip:
  assumes "\<forall>g\<in>set groups. savableGroup g" and "groups \<noteq> []"
    and "nested base" and "trim base = base" and "base \<noteq> []" and "\<not> hasFullOuterParens base"
    and "tryParseRequestRuleExpr json_other num_text (js ''('' @ base @ js '')'') = Inr None"
  shows "splitBillingExprAndRequestRules json_other num_text (combineBillingExpr base (buildRequestRuleExpr groups)) =
    Inr \<lparr>billingExpr = base, requestRuleExpr = buildRequestRuleExpr groups\<rparr>"
  using assms by (rule split_combined)

theorem combine_split_roundtrip_witness:
  "splitBillingExprAndRequestRules (\<lambda>_. None) (\<lambda>_. []) (combineBillingExpr (js ''p * 2 + c'') (buildRequestRuleExpr exampleGroups)) =
    Inr \<lparr>billingExpr = js ''p * 2 + c'', requestRuleExpr = buildRequestRuleExpr exampleGroups\<rparr>"
proof (rule combine_split_roundtrip [OF example_savable])
  show "exampleGroups \<noteq> []" by (simp add: exampleGroups_def)
  show "nested (js ''p * 2 + c'')" by (simp add: nested_js)
  show "trim (js ''p * 2 + c'') = js ''p * 2 + c''" by (rule trim_id) (simp add: js_simps)
  show "js ''p * 2 + c'' \<noteq> []" by simp
  show "\<not> hasFullOuterParens (js ''p * 2 + c'')" by (simp add: hasFullOuterParens_def js_simps)
  have p: "js ''('' @ js ''p * 2 + c'' @ js '')'' = js ''(p * 2 + c)''" by (simp add: js_simps)
  have "trim (js ''(p * 2 + c)'') = js ''(p * 2 + c)''" by (rule trim_id) (simp add: js_simps)
  moreover have "splitTopLevelMultiply (js ''(p * 2 + c)'') = [js ''(p * 2 + c)'']"
    using splitTopLevelMultiply_join [of "[js ''(p * 2 + c)'']"] mult.piece_paren [of "js ''p * 2 + c''"]
    by (simp add: nested_js p)
  moreover have "matchFactor (js ''(p * 2 + c)'') = None"
    by (simp add: matchFactor_def js_simps suffix_def)
  ultimately show "tryParseRequestRuleExpr (\<lambda>_. None) (\<lambda>_. []) (js ''('' @ js ''p * 2 + c'' @ js '')'') = Inr None"
    unfolding p by (simp add: tryParseRequestRuleExpr_def tryParseRuleGroupFactor_def)
qed

end
