(* ===== verification/AdvancedCustom.thy ===== *)
theory AdvancedCustom
  imports JS_Prelude
begin

text \<open>
  Advanced custom channels (\<open>features/channels/lib/advanced-custom.ts\<close>): the routes that forward an
  incoming API path to an upstream path, with a converter, a list of models and authentication; their
  defaults and templates, normalization and validation. \<open>url\<close> stands for \<open>new URL\<close>: the host and
  the protocol of a text, \<open>None\<close> where the constructor raises.
\<close>

section \<open>Definitions\<close>

subsection \<open>Data\<close>

record RouteAuth =
  auth_type :: "jsstr option"
  auth_name :: "jsstr option"
  auth_value :: "jsstr option"

record Route =
  incoming_path :: "jsstr option"
  upstream_path :: "jsstr option"
  converter :: "jsstr option"
  models :: "jsstr list option"
  auth :: "RouteAuth option"

record AdvancedCustomConfig =
  advanced_routes :: "Route list option"

definition C_NONE :: jsstr where
  "C_NONE = js ''none''"

definition C_ANTHROPIC_CHAT :: jsstr where
  "C_ANTHROPIC_CHAT = js ''anthropic_messages_to_openai_chat_completions''"

definition C_CHAT_ANTHROPIC :: jsstr where
  "C_CHAT_ANTHROPIC = js ''openai_chat_completions_to_anthropic_messages''"

definition C_CHAT_RESPONSES :: jsstr where
  "C_CHAT_RESPONSES = js ''openai_chat_completions_to_openai_responses''"

definition C_RESPONSES_CHAT :: jsstr where
  "C_RESPONSES_CHAT = js ''openai_responses_to_openai_chat_completions''"

definition C_RESPONSES_GEMINI :: jsstr where
  "C_RESPONSES_GEMINI = js ''openai_responses_to_gemini_generate_content''"

definition C_GEMINI_CHAT :: jsstr where
  "C_GEMINI_CHAT = js ''gemini_generate_content_to_openai_chat_completions''"

definition C_CHAT_GEMINI :: jsstr where
  "C_CHAT_GEMINI = js ''openai_chat_completions_to_gemini_generate_content''"

definition ADVANCED_CUSTOM_CONVERTER_OPTIONS :: "(jsstr \<times> jsstr \<times> jsstr) list" where
  "ADVANCED_CUSTOM_CONVERTER_OPTIONS =
    [(C_NONE, js ''Native forwarding'', js ''Native forwarding''),
     (C_ANTHROPIC_CHAT, js ''Anthropic Messages to OpenAI Chat'', js ''To OpenAI Chat''),
     (C_CHAT_ANTHROPIC, js ''OpenAI Chat to Anthropic Messages'', js ''To Anthropic Messages''),
     (C_CHAT_RESPONSES, js ''OpenAI Chat to OpenAI Responses'', js ''To OpenAI Responses''),
     (C_RESPONSES_CHAT, js ''OpenAI Responses to OpenAI Chat'', js ''To OpenAI Chat''),
     (C_RESPONSES_GEMINI, js ''OpenAI Responses to Gemini Generate Content'', js ''To Gemini Generate Content''),
     (C_GEMINI_CHAT, js ''Gemini Generate Content to OpenAI Chat'', js ''To OpenAI Chat''),
     (C_CHAT_GEMINI, js ''OpenAI Chat to Gemini Generate Content'', js ''To Gemini Generate Content'')]"

definition ADVANCED_CUSTOM_AUTH_MODE_OPTIONS :: "(jsstr \<times> jsstr) list" where
  "ADVANCED_CUSTOM_AUTH_MODE_OPTIONS =
    [(js ''default'', js ''Default Bearer''), (js ''none'', js ''No Auth''), (js ''header'', js ''Header''),
     (js ''query'', js ''Query'')]"

definition openAIChatPath :: jsstr where "openAIChatPath = js ''/v1/chat/completions''"

definition openAIResponsesPath :: jsstr where "openAIResponsesPath = js ''/v1/responses''"

definition claudeMessagesPath :: jsstr where "claudeMessagesPath = js ''/v1/messages''"

definition geminiGenerateContentPath :: jsstr where
  "geminiGenerateContentPath = js ''/v1beta/models/{model}:generateContent''"

definition ADVANCED_CUSTOM_INCOMING_PATH_OPTIONS :: "(jsstr \<times> jsstr) list" where
  "ADVANCED_CUSTOM_INCOMING_PATH_OPTIONS =
    [(js ''/v1/chat/completions'', js ''OpenAI Chat''),
     (js ''/v1/responses'', js ''OpenAI Responses''),
     (js ''/v1/responses/compact'', js ''OpenAI Responses Compact''),
     (js ''/v1/embeddings'', js ''OpenAI Embeddings''),
     (js ''/v1/images/generations'', js ''OpenAI Image Generations''),
     (js ''/v1/images/edits'', js ''OpenAI Image Edits''),
     (js ''/v1/completions'', js ''OpenAI Completions''),
     (js ''/v1/audio/speech'', js ''OpenAI Audio Speech''),
     (js ''/v1/audio/transcriptions'', js ''OpenAI Audio Transcriptions''),
     (js ''/v1/audio/translations'', js ''OpenAI Audio Translations''),
     (js ''/v1/rerank'', js ''OpenAI Rerank''),
     (js ''/v1/realtime'', js ''OpenAI Realtime''),
     (js ''/v1/messages'', js ''Claude Messages''),
     (js ''/v1beta/models/{model}:generateContent'', js ''Gemini Generate Content''),
     (js ''/v1beta/models/{model}:embedContent'', js ''Gemini Embed Content''),
     (js ''/v1beta/models/{model}:batchEmbedContents'', js ''Gemini Batch Embed Contents'')]"

definition ADVANCED_CUSTOM_ROUTE_SUMMARY_LABELS :: "(jsstr \<times> jsstr) list" where
  "ADVANCED_CUSTOM_ROUTE_SUMMARY_LABELS = [(js ''/v1/chat/completions'', js ''OpenAI Chat'')]"

record AdvancedCustomValidationError =
  err_message :: string
  routeIndex :: "nat option"

definition ADVANCED_CUSTOM_MODEL_REGEX_PREFIX :: jsstr where
  "ADVANCED_CUSTOM_MODEL_REGEX_PREFIX = js ''re:''"

datatype AdvancedCustomModelRuleKind = ExactRule | RegexRule

subsection \<open>Authentication, templates and defaults\<close>

definition bearerHeaderAuth :: RouteAuth where
  "bearerHeaderAuth = \<lparr>auth_type = Some (js ''header''), auth_name = Some (js ''Authorization''),
     auth_value = Some (js ''Bearer {api_key}'')\<rparr>"

definition apiKeyHeaderAuth :: RouteAuth where
  "apiKeyHeaderAuth = \<lparr>auth_type = Some (js ''header''), auth_name = Some (js ''x-api-key''),
     auth_value = Some (js ''{api_key}'')\<rparr>"

definition geminiQueryAuth :: RouteAuth where
  "geminiQueryAuth = \<lparr>auth_type = Some (js ''query''), auth_name = Some (js ''key''),
     auth_value = Some (js ''{api_key}'')\<rparr>"

definition templateRoute :: "jsstr \<Rightarrow> jsstr \<Rightarrow> jsstr \<Rightarrow> RouteAuth \<Rightarrow> Route" where
  "templateRoute incoming upstream conv a = \<lparr>incoming_path = Some incoming, upstream_path = Some upstream,
     converter = Some conv, models = None, auth = Some a\<rparr>"

record AdvancedCustomTemplateOption =
  template_value :: jsstr
  template_label :: jsstr
  template_config :: AdvancedCustomConfig

definition ADVANCED_CUSTOM_TEMPLATE_OPTIONS :: "AdvancedCustomTemplateOption list" where
  "ADVANCED_CUSTOM_TEMPLATE_OPTIONS =
    [\<lparr>template_value = js ''official_openai_chat'', template_label = js ''Official OpenAI Chat'',
      template_config = \<lparr>advanced_routes = Some
        [templateRoute (js ''/v1/chat/completions'') (js ''/v1/chat/completions'') C_NONE bearerHeaderAuth]\<rparr>\<rparr>,
     \<lparr>template_value = js ''official_openai_responses'', template_label = js ''Official OpenAI Responses'',
      template_config = \<lparr>advanced_routes = Some
        [templateRoute (js ''/v1/responses'') (js ''/v1/responses'') C_NONE bearerHeaderAuth]\<rparr>\<rparr>,
     \<lparr>template_value = js ''official_openai_embeddings'', template_label = js ''Official OpenAI Embeddings'',
      template_config = \<lparr>advanced_routes = Some
        [templateRoute (js ''/v1/embeddings'') (js ''/v1/embeddings'') C_NONE bearerHeaderAuth]\<rparr>\<rparr>,
     \<lparr>template_value = js ''official_openai_images'', template_label = js ''Official OpenAI Images'',
      template_config = \<lparr>advanced_routes = Some
        [templateRoute (js ''/v1/images/generations'') (js ''/v1/images/generations'') C_NONE bearerHeaderAuth,
         templateRoute (js ''/v1/images/edits'') (js ''/v1/images/edits'') C_NONE bearerHeaderAuth]\<rparr>\<rparr>,
     \<lparr>template_value = js ''official_claude_messages'', template_label = js ''Official Claude Messages'',
      template_config = \<lparr>advanced_routes = Some
        [templateRoute (js ''/v1/messages'') (js ''/v1/messages'') C_NONE apiKeyHeaderAuth]\<rparr>\<rparr>,
     \<lparr>template_value = js ''official_gemini_native'', template_label = js ''Official Gemini Native'',
      template_config = \<lparr>advanced_routes = Some
        [templateRoute (js ''/v1beta/models/{model}:generateContent'') (js ''/v1beta/models/{model}:generateContent'')
           C_NONE geminiQueryAuth,
         templateRoute (js ''/v1beta/models/{model}:embedContent'') (js ''/v1beta/models/{model}:embedContent'')
           C_NONE geminiQueryAuth,
         templateRoute (js ''/v1beta/models/{model}:batchEmbedContents'') (js ''/v1beta/models/{model}:batchEmbedContents'')
           C_NONE geminiQueryAuth]\<rparr>\<rparr>,
     \<lparr>template_value = js ''official_gemini_from_openai_chat'', template_label = js ''Official Gemini from OpenAI Chat'',
      template_config = \<lparr>advanced_routes = Some
        [templateRoute (js ''/v1/chat/completions'') (js ''/v1beta/models/{model}:generateContent'')
           C_CHAT_GEMINI geminiQueryAuth]\<rparr>\<rparr>]"

definition getAdvancedCustomTemplateConfig :: "jsstr \<Rightarrow> AdvancedCustomConfig" where
  "getAdvancedCustomTemplateConfig templateKey =
     template_config (nullish (find (\<lambda>t. template_value t = templateKey) ADVANCED_CUSTOM_TEMPLATE_OPTIONS)
       (hd ADVANCED_CUSTOM_TEMPLATE_OPTIONS))"

definition createAdvancedCustomRoute :: Route where
  "createAdvancedCustomRoute = \<lparr>incoming_path = Some openAIChatPath, upstream_path = Some openAIChatPath,
     converter = Some C_NONE, models = None, auth = None\<rparr>"

definition createAdvancedCustomConfig :: AdvancedCustomConfig where
  "createAdvancedCustomConfig = \<lparr>advanced_routes = Some [createAdvancedCustomRoute]\<rparr>"

definition isConverterPathAllowed :: "jsstr \<Rightarrow> jsstr \<Rightarrow> bool" where
  "isConverterPathAllowed incoming conv =
     (if conv = C_NONE then True
      else if conv = C_ANTHROPIC_CHAT then incoming = js ''/v1/messages''
      else if conv = C_CHAT_ANTHROPIC \<or> conv = C_CHAT_RESPONSES \<or> conv = C_CHAT_GEMINI
      then incoming = js ''/v1/chat/completions''
      else if conv = C_RESPONSES_CHAT then incoming = js ''/v1/responses''
      else if conv = C_RESPONSES_GEMINI then incoming = js ''/v1/responses''
      else js_includes incoming (js '':generateContent'') \<or> js_includes incoming (js '':streamGenerateContent''))"

definition getAdvancedCustomIncomingPathOptions :: "jsstr \<Rightarrow> (jsstr \<times> jsstr) list" where
  "getAdvancedCustomIncomingPathOptions conv =
     filter (\<lambda>opt. isConverterPathAllowed (fst opt) conv) ADVANCED_CUSTOM_INCOMING_PATH_OPTIONS"

definition getDefaultAdvancedCustomIncomingPath :: "jsstr \<Rightarrow> jsstr" where
  "getDefaultAdvancedCustomIncomingPath conv =
     or_str (case getAdvancedCustomIncomingPathOptions conv of [] \<Rightarrow> None | option # _ \<Rightarrow> Some (fst option))
       (js ''/v1/chat/completions'')"

definition getAdvancedCustomNativeAuth :: "jsstr \<Rightarrow> RouteAuth" where
  "getAdvancedCustomNativeAuth incoming =
     (if incoming = claudeMessagesPath then apiKeyHeaderAuth
      else if js_includes incoming (js '':generateContent'') \<or> js_includes incoming (js '':streamGenerateContent'') \<or>
        js_includes incoming (js '':embedContent'') \<or> js_includes incoming (js '':batchEmbedContents'')
      then geminiQueryAuth else bearerHeaderAuth)"

text \<open>The default upstream path and authentication of a converter.\<close>

definition getAdvancedCustomConverterDefaults :: "jsstr \<Rightarrow> jsstr \<Rightarrow> jsstr \<times> RouteAuth" where
  "getAdvancedCustomConverterDefaults conv incoming =
     (let normalized = or_str (Some (trim incoming)) (getDefaultAdvancedCustomIncomingPath conv) in
      if conv = C_NONE then (normalized, getAdvancedCustomNativeAuth normalized)
      else if conv = C_ANTHROPIC_CHAT \<or> conv = C_GEMINI_CHAT \<or> conv = C_RESPONSES_CHAT
      then (openAIChatPath, bearerHeaderAuth)
      else if conv = C_CHAT_RESPONSES then (openAIResponsesPath, bearerHeaderAuth)
      else if conv = C_CHAT_ANTHROPIC then (claudeMessagesPath, apiKeyHeaderAuth)
      else if conv = C_CHAT_GEMINI \<or> conv = C_RESPONSES_GEMINI
      then (geminiGenerateContentPath, geminiQueryAuth)
      else (or_str (Some normalized) openAIChatPath, getAdvancedCustomNativeAuth normalized))"

definition getAdvancedCustomUpstreamPathPlaceholder :: "jsstr \<Rightarrow> jsstr option \<Rightarrow> jsstr" where
  "getAdvancedCustomUpstreamPathPlaceholder conv incoming =
     fst (getAdvancedCustomConverterDefaults conv (nullish incoming (getDefaultAdvancedCustomIncomingPath conv)))"

definition isAdvancedCustomIncomingPathAllowed :: "jsstr \<Rightarrow> jsstr \<Rightarrow> bool" where
  "isAdvancedCustomIncomingPathAllowed incoming conv = isConverterPathAllowed incoming conv"

definition getAdvancedCustomConverterOptions :: "jsstr \<Rightarrow> (jsstr \<times> jsstr \<times> jsstr) list" where
  "getAdvancedCustomConverterOptions incoming =
     (let normalized = trim incoming in
      filter (\<lambda>opt. fst opt = C_NONE \<or> isConverterPathAllowed normalized (fst opt)) ADVANCED_CUSTOM_CONVERTER_OPTIONS)"

definition getAdvancedCustomIncomingPathLabel :: "jsstr \<Rightarrow> jsstr" where
  "getAdvancedCustomIncomingPathLabel v =
     or_str (map_option snd (find (\<lambda>opt. fst opt = v) ADVANCED_CUSTOM_INCOMING_PATH_OPTIONS)) v"

subsection \<open>Normalization\<close>

definition getAdvancedCustomRouteUpstreamPath :: "Route \<Rightarrow> jsstr" where
  "getAdvancedCustomRouteUpstreamPath route = trim (or_str (upstream_path route) [])"

definition normalizeAdvancedCustomRouteModels :: "jsstr list option \<Rightarrow> jsstr list" where
  "normalizeAdvancedCustomRouteModels ms =
     (case ms of None \<Rightarrow> [] | Some xs \<Rightarrow> filter (\<lambda>m. m \<noteq> []) (map trim xs))"

definition normalizeAdvancedCustomRoute :: "Route \<Rightarrow> Route" where
  "normalizeAdvancedCustomRoute route =
     (let ms = normalizeAdvancedCustomRouteModels (models route) in
      \<lparr>incoming_path = Some (or_str (incoming_path route) []),
       upstream_path = Some (getAdvancedCustomRouteUpstreamPath route),
       converter = Some (or_str (converter route) C_NONE),
       models = (if length ms > 0 then Some ms else None),
       auth = map_option (\<lambda>a. \<lparr>auth_type = auth_type a, auth_name = Some (or_str (auth_name a) []),
         auth_value = Some (or_str (auth_value a) [])\<rparr>) (auth route)\<rparr>)"

definition normalizeAdvancedCustomConfig :: "AdvancedCustomConfig \<Rightarrow> AdvancedCustomConfig" where
  "normalizeAdvancedCustomConfig config = \<lparr>advanced_routes = Some
     (case advanced_routes config of None \<Rightarrow> [] | Some rs \<Rightarrow> map normalizeAdvancedCustomRoute rs)\<rparr>"

definition parseAdvancedCustomRouteModels :: "jsstr \<Rightarrow> jsstr list" where
  "parseAdvancedCustomRouteModels v = dedupe (filter (\<lambda>m. m \<noteq> []) (map trim (split_on (jsc CHR '','') v)))"

definition getAdvancedCustomModelRuleKind :: "jsstr \<Rightarrow> AdvancedCustomModelRuleKind" where
  "getAdvancedCustomModelRuleKind rule =
     (if starts_with rule ADVANCED_CUSTOM_MODEL_REGEX_PREFIX then RegexRule else ExactRule)"

definition getAdvancedCustomRegexModelPattern :: "jsstr \<Rightarrow> jsstr" where
  "getAdvancedCustomRegexModelPattern rule = drop (length ADVANCED_CUSTOM_MODEL_REGEX_PREFIX) rule"

definition getAdvancedCustomAuthMode :: "Route \<Rightarrow> jsstr" where
  "getAdvancedCustomAuthMode route =
     or_str (case auth route of None \<Rightarrow> None | Some a \<Rightarrow> auth_type a) (js ''default'')"

definition buildAdvancedCustomAuth :: "jsstr \<Rightarrow> RouteAuth option \<Rightarrow> RouteAuth option" where
  "buildAdvancedCustomAuth mode previousAuth =
     (let name = (case previousAuth of None \<Rightarrow> None | Some a \<Rightarrow> auth_name a);
          val = (case previousAuth of None \<Rightarrow> None | Some a \<Rightarrow> auth_value a) in
      if mode = js ''default'' then None
      else if mode = js ''none'' then Some \<lparr>auth_type = Some (js ''none''), auth_name = None, auth_value = None\<rparr>
      else if mode = js ''header'' then Some \<lparr>auth_type = Some (js ''header''),
        auth_name = Some (or_str name (js ''Authorization'')), auth_value = Some (or_str val (js ''Bearer {api_key}''))\<rparr>
      else Some \<lparr>auth_type = Some (js ''query''),
        auth_name = Some (or_str name (js ''api_key'')), auth_value = Some (or_str val (js ''{api_key}''))\<rparr>)"

subsection \<open>Validation\<close>

definition isFullHttpURLOrAbsolutePath :: "(jsstr \<Rightarrow> (jsstr \<times> jsstr) option) \<Rightarrow> jsstr \<Rightarrow> bool" where
  "isFullHttpURLOrAbsolutePath url v =
     (if starts_with v (js ''/'') then \<not> starts_with v (js ''//'')
      else case url v of
          None \<Rightarrow> False
        | Some (host, protocol) \<Rightarrow> host \<noteq> [] \<and> (protocol = js ''http:'' \<or> protocol = js ''https:''))"

definition isAdvancedCustomConverter :: "jsstr \<Rightarrow> bool" where
  "isAdvancedCustomConverter v = list_ex (\<lambda>opt. fst opt = v) ADVANCED_CUSTOM_CONVERTER_OPTIONS"

definition validateRouteAuth :: "RouteAuth option \<Rightarrow> string option" where
  "validateRouteAuth a = (case a of
      None \<Rightarrow> None
    | Some r \<Rightarrow>
        if auth_type r = Some (js ''none'') then None
        else if auth_type r \<noteq> Some (js ''header'') \<and> auth_type r \<noteq> Some (js ''query'') then Some ''Auth type is invalid''
        else if trim (or_str (auth_name r) []) = [] then Some ''Auth name is required''
        else if trim (or_str (auth_value r) []) = [] then Some ''Auth value is required''
        else None)"

record PathState =
  catchAllIndex :: "nat option"
  path_models :: "(jsstr, nat) omap"

text \<open>The loop over the models of a route.\<close>

fun checkModels :: "nat \<Rightarrow> jsstr list \<Rightarrow> (jsstr, nat) omap \<Rightarrow> jsstr list \<Rightarrow>
    AdvancedCustomValidationError + (jsstr, nat) omap" where
  "checkModels index seen known [] = Inr known"
| "checkModels index seen known (model # ms) =
     (if getAdvancedCustomModelRuleKind model = RegexRule \<and> getAdvancedCustomRegexModelPattern model = []
      then Inl \<lparr>err_message = ''Model regex cannot be empty'', routeIndex = Some index\<rparr>
      else if model \<in> set seen
      then Inl \<lparr>err_message = ''Duplicate model in route models'', routeIndex = Some index\<rparr>
      else if omap_get known model \<noteq> None
      then Inl \<lparr>err_message = ''Route models must be unique for the same incoming path'', routeIndex = Some index\<rparr>
      else checkModels index (model # seen) (omap_set known model index) ms)"

definition validateAdvancedCustomRouteModels ::
  "nat \<Rightarrow> jsstr \<Rightarrow> jsstr list \<Rightarrow> (jsstr, PathState) omap \<Rightarrow>
   AdvancedCustomValidationError + (jsstr, PathState) omap" where
  "validateAdvancedCustomRouteModels index incoming ms states =
     (let state = nullish (omap_get states incoming) \<lparr>catchAllIndex = None, path_models = []\<rparr> in
      if length ms = 0 then
        (if catchAllIndex state \<noteq> None
         then Inl \<lparr>err_message = ''Only one catch-all route is allowed for the same incoming path'', routeIndex = Some index\<rparr>
         else Inr (omap_set states incoming (state\<lparr>catchAllIndex := Some index\<rparr>)))
      else if catchAllIndex state \<noteq> None
      then Inl \<lparr>err_message = ''Catch-all route must be last for the same incoming path'', routeIndex = Some index\<rparr>
      else case checkModels index [] (path_models state) ms of
          Inl e \<Rightarrow> Inl e
        | Inr known \<Rightarrow> Inr (omap_set states incoming (state\<lparr>path_models := known\<rparr>)))"

text \<open>The body of the loop over the routes: an error, or the states of the paths for the next route.\<close>

definition validateRoute ::
  "(jsstr \<Rightarrow> (jsstr \<times> jsstr) option) \<Rightarrow> nat \<Rightarrow> Route \<Rightarrow> (jsstr, PathState) omap \<Rightarrow>
   AdvancedCustomValidationError + (jsstr, PathState) omap" where
  "validateRoute url index route states =
     (let incoming = trim (or_str (incoming_path route) []);
          upstream = getAdvancedCustomRouteUpstreamPath route;
          conv = or_str (converter route) C_NONE;
          fail = (\<lambda>msg. Inl \<lparr>err_message = msg, routeIndex = Some index\<rparr>) in
      if incoming = [] then fail ''Incoming path is required''
      else if \<not> starts_with incoming (js ''/'') then fail ''Incoming path must start with /''
      else if js_includes incoming (js ''?'') then fail ''Incoming path must not include query''
      else case validateAdvancedCustomRouteModels index incoming (normalizeAdvancedCustomRouteModels (models route)) states of
          Inl e \<Rightarrow> Inl e
        | Inr states' \<Rightarrow>
            if upstream = [] then fail ''Upstream path is required''
            else if \<not> isFullHttpURLOrAbsolutePath url upstream
            then fail ''Upstream path must be a full URL or a path starting with /''
            else if \<not> isAdvancedCustomConverter conv then fail ''Converter is not registered''
            else if \<not> isConverterPathAllowed incoming conv then fail ''Converter does not match incoming path''
            else case validateRouteAuth (auth route) of
                Some msg \<Rightarrow> fail msg
              | None \<Rightarrow> Inr states')"

fun validateRoutes ::
  "(jsstr \<Rightarrow> (jsstr \<times> jsstr) option) \<Rightarrow> nat \<Rightarrow> (jsstr, PathState) omap \<Rightarrow> Route list \<Rightarrow>
   AdvancedCustomValidationError option" where
  "validateRoutes url index states [] = None"
| "validateRoutes url index states (route # rs) =
     (case validateRoute url index route states of
        Inl e \<Rightarrow> Some e
      | Inr states' \<Rightarrow> validateRoutes url (index + 1) states' rs)"

definition validateAdvancedCustomConfig ::
  "(jsstr \<Rightarrow> (jsstr \<times> jsstr) option) \<Rightarrow> AdvancedCustomConfig option \<Rightarrow> AdvancedCustomValidationError option" where
  "validateAdvancedCustomConfig url config = (case config of
      None \<Rightarrow> Some \<lparr>err_message = ''Advanced custom configuration is required'', routeIndex = None\<rparr>
    | Some c \<Rightarrow>
        let routes = nullish (advanced_routes (normalizeAdvancedCustomConfig c)) [] in
        if length routes = 0
        then Some \<lparr>err_message = ''Advanced custom configuration requires at least one route'', routeIndex = None\<rparr>
        else validateRoutes url 0 [] routes)"

definition advancedCustomConfigUsesRelativeUpstreamPath :: "AdvancedCustomConfig option \<Rightarrow> bool" where
  "advancedCustomConfigUsesRelativeUpstreamPath config = (case config of
      None \<Rightarrow> False
    | Some c \<Rightarrow> list_ex (\<lambda>route. starts_with (getAdvancedCustomRouteUpstreamPath route) (js ''/''))
        (nullish (advanced_routes (normalizeAdvancedCustomConfig c)) []))"

subsection \<open>Summary\<close>

definition getAdvancedCustomRouteSummaryLabel :: "Route \<Rightarrow> jsstr option" where
  "getAdvancedCustomRouteSummaryLabel route =
     (let incoming = trim (or_str (incoming_path route) []) in
      if incoming = [] then None
      else Some (or_str (map_of ADVANCED_CUSTOM_ROUTE_SUMMARY_LABELS incoming)
        (getAdvancedCustomIncomingPathLabel incoming)))"

record AdvancedCustomStats =
  routeCount :: nat
  valid :: bool
  routeTypeLabels :: "jsstr list"

text \<open>The statistics of a parsed configuration; \<open>None\<close> where parsing gives \<open>null\<close>.\<close>

definition getAdvancedCustomStats ::
  "(jsstr \<Rightarrow> (jsstr \<times> jsstr) option) \<Rightarrow> AdvancedCustomConfig option \<Rightarrow> AdvancedCustomStats" where
  "getAdvancedCustomStats url parsed = (case parsed of
      None \<Rightarrow> \<lparr>routeCount = 0, valid = False, routeTypeLabels = []\<rparr>
    | Some config \<Rightarrow>
        let normalized = normalizeAdvancedCustomConfig config;
            routes = nullish (advanced_routes normalized) [] in
        \<lparr>routeCount = length routes,
         valid = (validateAdvancedCustomConfig url (Some normalized) = None),
         routeTypeLabels = foldl (\<lambda>labels route. case getAdvancedCustomRouteSummaryLabel route of
             None \<Rightarrow> labels
           | Some label \<Rightarrow> if label = [] \<or> label \<in> set labels then labels else labels @ [label]) [] routes\<rparr>)"

end
