(* ===== verification/AdvancedCustomValidation.thy ===== *)
theory AdvancedCustomValidation
  imports AdvancedCustom
begin

text \<open>
  What validation of advanced custom routes accepts: a specification in terms of single routes and of
  pairs of routes, its equivalence with the validating loop, the place of the reported error, and the
  validity of defaults and templates.
\<close>

section \<open>Specification\<close>

definition routePath :: "Route \<Rightarrow> jsstr" where
  "routePath r = trim (or_str (incoming_path r) [])"

definition routeModels :: "Route \<Rightarrow> jsstr list" where
  "routeModels r = normalizeAdvancedCustomRouteModels (models r)"

definition routeConverter :: "Route \<Rightarrow> jsstr" where
  "routeConverter r = or_str (converter r) C_NONE"

text \<open>A single route: its paths, its converter, its authentication and its model rules.\<close>

definition emptyRegex :: "jsstr \<Rightarrow> bool" where
  "emptyRegex m \<longleftrightarrow> m = ADVANCED_CUSTOM_MODEL_REGEX_PREFIX"

definition pathsOk :: "(jsstr \<Rightarrow> (jsstr \<times> jsstr) option) \<Rightarrow> Route \<Rightarrow> bool" where
  "pathsOk url r \<longleftrightarrow> prefix (js ''/'') (routePath r) \<and> jsc CHR ''?'' \<notin> set (routePath r) \<and>
     getAdvancedCustomRouteUpstreamPath r \<noteq> [] \<and> isFullHttpURLOrAbsolutePath url (getAdvancedCustomRouteUpstreamPath r)"

definition converterOk :: "Route \<Rightarrow> bool" where
  "converterOk r \<longleftrightarrow> routeConverter r \<in> fst ` set ADVANCED_CUSTOM_CONVERTER_OPTIONS \<and>
     isConverterPathAllowed (routePath r) (routeConverter r)"

definition modelsOk :: "Route \<Rightarrow> bool" where
  "modelsOk r \<longleftrightarrow> distinct (routeModels r) \<and> (\<forall>m\<in>set (routeModels r). \<not> emptyRegex m)"

definition routeOk :: "(jsstr \<Rightarrow> (jsstr \<times> jsstr) option) \<Rightarrow> Route \<Rightarrow> bool" where
  "routeOk url r \<longleftrightarrow> pathsOk url r \<and> converterOk r \<and> modelsOk r \<and> validateRouteAuth (auth r) = None"

text \<open>A route and a later one: on the same path the first is no catch-all route, and they share no model.\<close>

definition compatible :: "Route \<Rightarrow> Route \<Rightarrow> bool" where
  "compatible r s \<longleftrightarrow> (routePath r = routePath s \<longrightarrow>
     routeModels r \<noteq> [] \<and> set (routeModels r) \<inter> set (routeModels s) = {})"

section \<open>Normalization\<close>

lemma or_str_or_str: "or_str (Some (or_str a b)) b = or_str a b"
  by (cases a) (simp_all add: or_str_def)

lemma normalizeModels_idem:
  "normalizeAdvancedCustomRouteModels (Some (normalizeAdvancedCustomRouteModels ms)) = normalizeAdvancedCustomRouteModels ms"
  by (cases ms) (auto simp: normalizeAdvancedCustomRouteModels_def filter_map comp_def map_idI filter_id_conv)

lemma normalizeModels_route: "routeModels (normalizeAdvancedCustomRoute r) = routeModels r"
proof (cases "normalizeAdvancedCustomRouteModels (models r) = []")
  case True
  then show ?thesis by (simp add: routeModels_def normalizeAdvancedCustomRoute_def Let_def)
    (simp add: normalizeAdvancedCustomRouteModels_def)
next
  case False
  then show ?thesis by (simp add: routeModels_def normalizeAdvancedCustomRoute_def Let_def normalizeModels_idem)
qed

lemma normalizeRoute_fields:
  "routePath (normalizeAdvancedCustomRoute r) = routePath r"
  "routeConverter (normalizeAdvancedCustomRoute r) = routeConverter r"
  "getAdvancedCustomRouteUpstreamPath (normalizeAdvancedCustomRoute r) = getAdvancedCustomRouteUpstreamPath r"
  "validateRouteAuth (auth (normalizeAdvancedCustomRoute r)) = validateRouteAuth (auth r)"
proof -
  show "routePath (normalizeAdvancedCustomRoute r) = routePath r"
    by (simp add: routePath_def normalizeAdvancedCustomRoute_def or_str_or_str Let_def)
  show "routeConverter (normalizeAdvancedCustomRoute r) = routeConverter r"
    by (simp add: routeConverter_def normalizeAdvancedCustomRoute_def or_str_or_str Let_def)
  show "getAdvancedCustomRouteUpstreamPath (normalizeAdvancedCustomRoute r) = getAdvancedCustomRouteUpstreamPath r"
    by (simp add: getAdvancedCustomRouteUpstreamPath_def normalizeAdvancedCustomRoute_def Let_def) (simp add: or_str_def)
  show "validateRouteAuth (auth (normalizeAdvancedCustomRoute r)) = validateRouteAuth (auth r)"
    by (cases "auth r") (simp_all add: validateRouteAuth_def normalizeAdvancedCustomRoute_def or_str_or_str Let_def)
qed

lemma validateRoute_normalize: "validateRoute url i (normalizeAdvancedCustomRoute r) states = validateRoute url i r states"
  unfolding validateRoute_def routePath_def [symmetric] routeConverter_def [symmetric] routeModels_def [symmetric]
    normalizeRoute_fields normalizeModels_route ..

lemma validateRoutes_normalize:
  "validateRoutes url i states (map normalizeAdvancedCustomRoute rs) = validateRoutes url i states rs"
  by (induction rs arbitrary: i states) (simp_all add: validateRoute_normalize split: sum.split)

section \<open>The loop over models\<close>

lemma emptyRegex_iff:
  "getAdvancedCustomModelRuleKind m = RegexRule \<and> getAdvancedCustomRegexModelPattern m = [] \<longleftrightarrow> emptyRegex m"
  by (auto simp: getAdvancedCustomModelRuleKind_def getAdvancedCustomRegexModelPattern_def emptyRegex_def prefix_def)

lemma checkModels_ok:
  assumes "\<forall>m\<in>set ms. \<not> emptyRegex m" "distinct ms" "set ms \<inter> set seen = {}" "\<forall>m\<in>set ms. omap_get known m = None"
  shows "\<exists>k. checkModels i seen known ms = Inr k \<and> (\<forall>m. omap_get k m \<noteq> None \<longleftrightarrow> omap_get known m \<noteq> None \<or> m \<in> set ms)"
  using assms
proof (induction ms arbitrary: seen known)
  case (Cons m ms)
  have "\<exists>k. checkModels i (m # seen) (omap_set known m i) ms = Inr k \<and>
      (\<forall>x. omap_get k x \<noteq> None \<longleftrightarrow> omap_get (omap_set known m i) x \<noteq> None \<or> x \<in> set ms)"
    using Cons.prems by (intro Cons.IH) (auto simp: omap_get_set)
  then show ?case using Cons.prems emptyRegex_iff [of m] by (auto simp: omap_get_set)
qed simp

lemma checkModels_error:
  assumes "\<not> ((\<forall>m\<in>set ms. \<not> emptyRegex m) \<and> distinct ms \<and> set ms \<inter> set seen = {} \<and> (\<forall>m\<in>set ms. omap_get known m = None))"
    and "\<forall>m\<in>set seen. omap_get known m \<noteq> None"
  shows "\<exists>msg. checkModels i seen known ms = Inl \<lparr>err_message = msg, routeIndex = Some i\<rparr>"
  using assms
proof (induction ms arbitrary: seen known)
  case (Cons m ms)
  show ?case
  proof (cases "emptyRegex m \<or> m \<in> set seen \<or> omap_get known m \<noteq> None")
    case True
    then show ?thesis using emptyRegex_iff [of m] by auto
  next
    case False
    have "\<exists>msg. checkModels i (m # seen) (omap_set known m i) ms = Inl \<lparr>err_message = msg, routeIndex = Some i\<rparr>"
      using Cons.prems False by (intro Cons.IH) (auto simp: omap_get_set)
    then show ?thesis using False emptyRegex_iff [of m] by auto
  qed
qed simp

section \<open>The loop over routes\<close>

text \<open>What the states of the paths record about the routes seen so far.\<close>

definition represents :: "(jsstr, PathState) omap \<Rightarrow> Route list \<Rightarrow> bool" where
  "represents states rs \<longleftrightarrow> (\<forall>p. let st = nullish (omap_get states p) \<lparr>catchAllIndex = None, path_models = []\<rparr> in
     (catchAllIndex st \<noteq> None \<longleftrightarrow> (\<exists>r\<in>set rs. routePath r = p \<and> routeModels r = [])) \<and>
     (\<forall>m. omap_get (path_models st) m \<noteq> None \<longleftrightarrow> (\<exists>r\<in>set rs. routePath r = p \<and> m \<in> set (routeModels r))))"

lemma represents_Nil: "represents [] []"
  by (simp add: represents_def omap_get_def)

lemma validateModels_step:
  assumes "represents states rs" "modelsOk r" "\<forall>s\<in>set rs. compatible s r"
  shows "\<exists>states'. validateAdvancedCustomRouteModels i (routePath r) (routeModels r) states = Inr states' \<and>
    represents states' (rs @ [r])"
proof -
  let ?st = "nullish (omap_get states (routePath r)) \<lparr>catchAllIndex = None, path_models = []\<rparr>"
  have rep: "catchAllIndex ?st \<noteq> None \<longleftrightarrow> (\<exists>s\<in>set rs. routePath s = routePath r \<and> routeModels s = [])"
      "\<forall>m. omap_get (path_models ?st) m \<noteq> None \<longleftrightarrow> (\<exists>s\<in>set rs. routePath s = routePath r \<and> m \<in> set (routeModels s))"
    using assms(1) unfolding represents_def Let_def by blast+
  then have none: "catchAllIndex ?st = None" using assms(3) unfolding compatible_def by metis
  have free: "\<forall>m\<in>set (routeModels r). omap_get (path_models ?st) m = None"
    using rep(2) assms(3) unfolding compatible_def by (metis disjoint_iff)
  show ?thesis
  proof (cases "routeModels r = []")
    case True
    let ?states = "omap_set states (routePath r) (?st\<lparr>catchAllIndex := Some i\<rparr>)"
    have "represents ?states (rs @ [r])"
      using assms(1) True unfolding represents_def Let_def by (auto simp: omap_get_set)
    moreover have "validateAdvancedCustomRouteModels i (routePath r) (routeModels r) states = Inr ?states"
      using True none by (simp add: validateAdvancedCustomRouteModels_def)
    ultimately show ?thesis by blast
  next
    case False
    obtain k where k: "checkModels i [] (path_models ?st) (routeModels r) = Inr k"
        "\<forall>m. omap_get k m \<noteq> None \<longleftrightarrow> omap_get (path_models ?st) m \<noteq> None \<or> m \<in> set (routeModels r)"
      using checkModels_ok [of "routeModels r" "[]" "path_models ?st" i] assms(2) free by (auto simp: modelsOk_def)
    let ?states = "omap_set states (routePath r) (?st\<lparr>path_models := k\<rparr>)"
    have "represents ?states (rs @ [r])"
      using assms(1) False k(2) unfolding represents_def Let_def by (auto simp: omap_get_set)
    moreover have "validateAdvancedCustomRouteModels i (routePath r) (routeModels r) states = Inr ?states"
      using False none k(1) by (simp add: validateAdvancedCustomRouteModels_def)
    ultimately show ?thesis by blast
  qed
qed

lemma validateModels_error:
  assumes "represents states rs" "\<not> (modelsOk r \<and> (\<forall>s\<in>set rs. compatible s r))"
  shows "\<exists>msg. validateAdvancedCustomRouteModels i (routePath r) (routeModels r) states =
    Inl \<lparr>err_message = msg, routeIndex = Some i\<rparr>"
proof -
  let ?st = "nullish (omap_get states (routePath r)) \<lparr>catchAllIndex = None, path_models = []\<rparr>"
  have rep: "catchAllIndex ?st \<noteq> None \<longleftrightarrow> (\<exists>s\<in>set rs. routePath s = routePath r \<and> routeModels s = [])"
      "\<forall>m. omap_get (path_models ?st) m \<noteq> None \<longleftrightarrow> (\<exists>s\<in>set rs. routePath s = routePath r \<and> m \<in> set (routeModels s))"
    using assms(1) unfolding represents_def Let_def by blast+
  show ?thesis
  proof (cases "catchAllIndex ?st = None")
    case True
    have "\<forall>s\<in>set rs. compatible s r" if free: "\<forall>m\<in>set (routeModels r). omap_get (path_models ?st) m = None"
    proof
      fix s assume s: "s \<in> set rs"
      have "routeModels s \<noteq> []" if "routePath s = routePath r" using True rep(1) s that by blast
      moreover have "m \<notin> set (routeModels s)" if "routePath s = routePath r" "m \<in> set (routeModels r)" for m
        using free rep(2) s that by blast
      ultimately show "compatible s r" unfolding compatible_def by blast
    qed
    then have bad: "\<not> ((\<forall>m\<in>set (routeModels r). \<not> emptyRegex m) \<and> distinct (routeModels r) \<and>
        set (routeModels r) \<inter> set [] = {} \<and> (\<forall>m\<in>set (routeModels r). omap_get (path_models ?st) m = None))"
      using assms(2) unfolding modelsOk_def by auto
    then have "routeModels r \<noteq> []" by auto
    then show ?thesis
      using checkModels_error [OF bad, of i] True by (auto simp: validateAdvancedCustomRouteModels_def)
  qed (auto simp: validateAdvancedCustomRouteModels_def Let_def)
qed

lemma includes_unit: "js_includes s [c] \<longleftrightarrow> c \<in> set s"
  by (simp add: js_includes_iff sublist_def) (metis in_set_conv_decomp append_Cons append_Nil)

lemma converter_registered: "isAdvancedCustomConverter v \<longleftrightarrow> v \<in> fst ` set ADVANCED_CUSTOM_CONVERTER_OPTIONS"
  by (auto simp: isAdvancedCustomConverter_def list_ex_iff)

lemma validateRoute_ok:
  assumes "pathsOk url r" "converterOk r" "validateRouteAuth (auth r) = None"
    and "validateAdvancedCustomRouteModels i (routePath r) (routeModels r) states = Inr states'"
  shows "validateRoute url i r states = Inr states'"
proof -
  have "routePath r \<noteq> []" "prefix (js ''/'') (routePath r)" "\<not> js_includes (routePath r) (js ''?'')"
    using assms(1) by (auto simp: pathsOk_def js_simps includes_unit)
  with assms show ?thesis
    unfolding validateRoute_def routePath_def [symmetric] routeConverter_def [symmetric] routeModels_def [symmetric]
    by (simp add: pathsOk_def converterOk_def converter_registered)
qed

lemma validateRoute_error:
  assumes "\<not> (pathsOk url r \<and> converterOk r \<and> validateRouteAuth (auth r) = None) \<or>
    (\<exists>msg. validateAdvancedCustomRouteModels i (routePath r) (routeModels r) states = Inl \<lparr>err_message = msg, routeIndex = Some i\<rparr>)"
    and "\<And>e. validateAdvancedCustomRouteModels i (routePath r) (routeModels r) states = Inl e \<Longrightarrow> routeIndex e = Some i"
  shows "\<exists>e. validateRoute url i r states = Inl e \<and> routeIndex e = Some i"
  using assms
  unfolding validateRoute_def routePath_def [symmetric] routeConverter_def [symmetric] routeModels_def [symmetric]
  by (auto simp: pathsOk_def converterOk_def converter_registered js_simps includes_unit Let_def
    split: sum.split option.split)

lemma validateRoute_step:
  assumes "represents states rs" "routeOk url r" "\<forall>s\<in>set rs. compatible s r"
  shows "\<exists>states'. validateRoute url i r states = Inr states' \<and> represents states' (rs @ [r])"
  using validateModels_step [OF assms(1) _ assms(3), of i] assms(2) validateRoute_ok [of url r i states]
  unfolding routeOk_def by blast

lemma validateRoute_fails:
  assumes "represents states rs" "\<not> (routeOk url r \<and> (\<forall>s\<in>set rs. compatible s r))"
  shows "\<exists>e. validateRoute url i r states = Inl e \<and> routeIndex e = Some i"
proof (rule validateRoute_error)
  show "\<not> (pathsOk url r \<and> converterOk r \<and> validateRouteAuth (auth r) = None) \<or>
    (\<exists>msg. validateAdvancedCustomRouteModels i (routePath r) (routeModels r) states = Inl \<lparr>err_message = msg, routeIndex = Some i\<rparr>)"
    using assms validateModels_error [OF assms(1), of r i] unfolding routeOk_def by blast
  fix e assume e: "validateAdvancedCustomRouteModels i (routePath r) (routeModels r) states = Inl e"
  have "\<not> (modelsOk r \<and> (\<forall>s\<in>set rs. compatible s r))"
    using validateModels_step [OF assms(1), of r i] e by force
  then show "routeIndex e = Some i" using validateModels_error [OF assms(1), of r i] e by auto
qed

lemma validateRoutes_spec:
  assumes "represents states rs"
  shows "validateRoutes url i states ss = None \<longleftrightarrow>
    (\<forall>r\<in>set ss. routeOk url r) \<and> sorted_wrt compatible ss \<and> (\<forall>r\<in>set rs. \<forall>s\<in>set ss. compatible r s)"
  using assms
proof (induction ss arbitrary: i states rs)
  case (Cons s ss)
  show ?case
  proof (cases "routeOk url s \<and> (\<forall>r\<in>set rs. compatible r s)")
    case True
    then obtain states' where "validateRoute url i s states = Inr states'" "represents states' (rs @ [s])"
      using validateRoute_step [OF Cons.prems] by blast
    with Cons.IH [of states' "rs @ [s]" "i + 1"] True show ?thesis by auto
  next
    case False
    then show ?thesis using validateRoute_fails [OF Cons.prems False, of i] by auto
  qed
qed simp

lemma validateRoutes_index:
  assumes "represents states rs" "validateRoutes url i states ss = Some e"
  shows "\<exists>j < length ss. routeIndex e = Some (i + j) \<and> validateRoutes url i states (take j ss) = None \<and>
    validateRoutes url i states (take (Suc j) ss) = Some e"
  using assms
proof (induction ss arbitrary: i states rs)
  case (Cons s ss)
  show ?case
  proof (cases "routeOk url s \<and> (\<forall>r\<in>set rs. compatible r s)")
    case True
    then obtain states' where st: "validateRoute url i s states = Inr states'" "represents states' (rs @ [s])"
      using validateRoute_step [OF Cons.prems(1)] by blast
    with Cons.prems(2) have "validateRoutes url (i + 1) states' ss = Some e" by simp
    from Cons.IH [OF st(2) this] obtain j where j: "j < length ss" "routeIndex e = Some (i + 1 + j)"
      "validateRoutes url (i + 1) states' (take j ss) = None" "validateRoutes url (i + 1) states' (take (Suc j) ss) = Some e" by blast
    then show ?thesis using st(1) by (intro exI [of _ "Suc j"]) simp
  next
    case False
    then show ?thesis using validateRoute_fails [OF Cons.prems(1) False, of i] Cons.prems(2) by (intro exI [of _ 0]) auto
  qed
qed simp

lemma validateConfig_routes:
  "validateAdvancedCustomConfig url (Some \<lparr>advanced_routes = Some rs\<rparr>) =
    (if rs = [] then Some \<lparr>err_message = ''Advanced custom configuration requires at least one route'', routeIndex = None\<rparr>
     else validateRoutes url 0 [] rs)"
  by (simp add: validateAdvancedCustomConfig_def normalizeAdvancedCustomConfig_def nullish_def validateRoutes_normalize)

section \<open>Properties\<close>

text \<open>C24: A configuration is accepted exactly when it has a route, every route on its own has correct
  paths, a registered converter that fits its path, correct authentication and correct models, and of two
  routes with the same path the earlier names models and shares none with the later.\<close>

theorem validate_config_iff:
  "validateAdvancedCustomConfig url (Some \<lparr>advanced_routes = Some rs\<rparr>) = None \<longleftrightarrow>
    rs \<noteq> [] \<and> list_all (routeOk url) rs \<and> sorted_wrt compatible rs"
  using validateRoutes_spec [OF represents_Nil, of url 0 rs]
  by (auto simp: validateConfig_routes list_all_iff)

text \<open>The error of a configuration with routes names the first route that makes it wrong: the routes
  before it are a correct configuration (or none), and with it alone added the same error is reported.\<close>

theorem validate_config_first_error:
  assumes "rs \<noteq> []" "validateAdvancedCustomConfig url (Some \<lparr>advanced_routes = Some rs\<rparr>) = Some e"
  shows "\<exists>j < length rs. routeIndex e = Some j \<and>
    (j = 0 \<or> validateAdvancedCustomConfig url (Some \<lparr>advanced_routes = Some (take j rs)\<rparr>) = None) \<and>
    validateAdvancedCustomConfig url (Some \<lparr>advanced_routes = Some (take (Suc j) rs)\<rparr>) = Some e"
proof -
  have "validateRoutes url 0 [] rs = Some e" using assms by (simp add: validateConfig_routes)
  from validateRoutes_index [OF represents_Nil this] obtain j where j: "j < length rs" "routeIndex e = Some j"
    "validateRoutes url 0 [] (take j rs) = None" "validateRoutes url 0 [] (take (Suc j) rs) = Some e" by auto
  have "take (Suc j) rs \<noteq> []" using assms(1) by simp
  then show ?thesis using j by (intro exI [of _ j]) (auto simp: validateConfig_routes)
qed

theorem validate_config_first_error_witness:
  "\<exists>j < length [createAdvancedCustomRoute, createAdvancedCustomRoute]. Some 1 = Some j \<and>
    (j = 0 \<or> validateAdvancedCustomConfig (\<lambda>_. None)
      (Some \<lparr>advanced_routes = Some (take j [createAdvancedCustomRoute, createAdvancedCustomRoute])\<rparr>) = None) \<and>
    validateAdvancedCustomConfig (\<lambda>_. None)
      (Some \<lparr>advanced_routes = Some (take (Suc j) [createAdvancedCustomRoute, createAdvancedCustomRoute])\<rparr>) =
      Some \<lparr>err_message = ''Only one catch-all route is allowed for the same incoming path'', routeIndex = Some 1\<rparr>"
proof -
  have "validateAdvancedCustomConfig (\<lambda>_. None)
      (Some \<lparr>advanced_routes = Some [createAdvancedCustomRoute, createAdvancedCustomRoute]\<rparr>) =
      Some \<lparr>err_message = ''Only one catch-all route is allowed for the same incoming path'', routeIndex = Some 1\<rparr>"
    by code_simp
  from validate_config_first_error [OF _ this] show ?thesis by simp
qed

end
