(* ===== verification/AdvancedCustomEditor.thy ===== *)
theory AdvancedCustomEditor
  imports AdvancedCustomValidation
begin

text \<open>
  The editor of advanced custom routes (\<open>features/channels/components/dialogs/advanced-custom-editor-dialog.tsx\<close>):
  its state, the handlers of its controls and the order of its routes. \<open>Env\<close> holds what the handlers
  call outside the sources: \<open>new URL\<close>, \<open>JSON.parse\<close> as a configuration (\<open>None\<close> where it raises or
  gives no object) and \<open>JSON.stringify\<close>. Handlers run one after the other, each on the state that the last left.
\<close>

section \<open>Definitions\<close>

subsection \<open>State\<close>

record Env =
  env_url :: "jsstr \<Rightarrow> (jsstr \<times> jsstr) option"
  env_read :: "jsstr \<Rightarrow> AdvancedCustomConfig option"
  env_write :: "AdvancedCustomConfig \<Rightarrow> jsstr"

definition parseAdvancedCustomConfig :: "Env \<Rightarrow> jsstr \<Rightarrow> AdvancedCustomConfig option" where
  "parseAdvancedCustomConfig env v =
     (if trim v = [] then None else map_option normalizeAdvancedCustomConfig (env_read env v))"

definition stringifyAdvancedCustomConfig :: "Env \<Rightarrow> AdvancedCustomConfig \<Rightarrow> jsstr" where
  "stringifyAdvancedCustomConfig env c = env_write env (normalizeAdvancedCustomConfig c)"

datatype AdvancedCustomEditMode = VisualMode | JsonMode

record AdvancedCustomRouteRow =
  row_route :: Route
  row_key :: jsstr
  row_index :: nat

type_synonym AdvancedCustomRouteGroup = "jsstr \<times> AdvancedCustomRouteRow list"

record Editor =
  config :: AdvancedCustomConfig
  routeKeys :: "jsstr list"
  routeKeyCounter :: nat
  editMode :: AdvancedCustomEditMode
  jsonText :: jsstr
  jsonError :: string
  templateKey :: jsstr

text \<open>The calls a handler makes to the outside.\<close>

datatype EditorCall = OnSave jsstr | OnOpenChange bool | ToastError string

definition getRouteIncomingPath :: "Route \<Rightarrow> jsstr" where
  "getRouteIncomingPath route = trim (or_str (incoming_path route) [])"

definition isCatchAllRoute :: "Route \<Rightarrow> bool" where
  "isCatchAllRoute route = (case models route of None \<Rightarrow> True | Some ms \<Rightarrow> length ms = 0)"

definition groupStep :: "(jsstr, AdvancedCustomRouteRow list) omap \<Rightarrow> AdvancedCustomRouteRow \<Rightarrow>
    (jsstr, AdvancedCustomRouteRow list) omap" where
  "groupStep groups row = (let path = getRouteIncomingPath (row_route row) in
     omap_set groups path (nullish (omap_get groups path) [] @ [row]))"

definition buildRouteGroups :: "AdvancedCustomRouteRow list \<Rightarrow> AdvancedCustomRouteGroup list" where
  "buildRouteGroups rows = foldl groupStep [] rows"

definition initialKey :: "nat \<Rightarrow> jsstr" where
  "initialKey i = js ''advanced-custom-route-initial-'' @ show_nat i"

definition openEditor :: "Env \<Rightarrow> jsstr \<Rightarrow> Editor" where
  "openEditor env v = (let initial = nullish (parseAdvancedCustomConfig env v) createAdvancedCustomConfig in
     \<lparr>config = initial,
      routeKeys = map initialKey [0..<length (nullish (advanced_routes (normalizeAdvancedCustomConfig initial)) [])],
      routeKeyCounter = 0, editMode = VisualMode, jsonText = stringifyAdvancedCustomConfig env initial, jsonError = [],
      templateKey = or_str (map_option template_value (Some (hd ADVANCED_CUSTOM_TEMPLATE_OPTIONS))) []\<rparr>)"

definition editorRoutes :: "Editor \<Rightarrow> Route list" where
  "editorRoutes s = nullish (advanced_routes (normalizeAdvancedCustomConfig (config s))) []"

text \<open>\<open>routeKeys.at(index)\<close> is \<open>undefined\<close> past the end.\<close>

definition routeRow :: "Editor \<Rightarrow> nat \<Rightarrow> AdvancedCustomRouteRow" where
  "routeRow s i = (let route = editorRoutes s ! i in
     \<lparr>row_route = route,
      row_key = or_str (if i < length (routeKeys s) then Some (routeKeys s ! i) else None)
        (or_str (incoming_path route) (or_str (upstream_path route)
          (or_str (converter route) (js ''advanced-custom-route'')))),
      row_index = i\<rparr>)"

definition routeRows :: "Editor \<Rightarrow> AdvancedCustomRouteRow list" where
  "routeRows s = map (routeRow s) [0..<length (editorRoutes s)]"

definition validationError :: "Env \<Rightarrow> Editor \<Rightarrow> AdvancedCustomValidationError option" where
  "validationError env s = validateAdvancedCustomConfig (env_url env) (Some (normalizeAdvancedCustomConfig (config s)))"

definition catchAllOrderErrorMessage :: string where
  "catchAllOrderErrorMessage = ''Catch-all route must be last for the same incoming path''"

definition canFixCatchAllOrder :: "Env \<Rightarrow> Editor \<Rightarrow> bool" where
  "canFixCatchAllOrder env s = (map_option err_message (validationError env s) = Some catchAllOrderErrorMessage)"

subsection \<open>Routes\<close>

definition createRouteKey :: "nat \<Rightarrow> jsstr" where
  "createRouteKey n = js ''advanced-custom-route-'' @ show_nat n"

definition createRouteKeys :: "nat \<Rightarrow> nat \<Rightarrow> jsstr list" where
  "createRouteKeys counter n = map (\<lambda>i. createRouteKey (counter + i + 1)) [0..<n]"

definition updateRoute :: "nat \<Rightarrow> (Route \<Rightarrow> Route) \<Rightarrow> Editor \<Rightarrow> Editor" where
  "updateRoute index patch s =
     s\<lparr>config := \<lparr>advanced_routes = Some ((editorRoutes s)[index := patch (editorRoutes s ! index)])\<rparr>\<rparr>"

definition replaceRoutes :: "Route list \<Rightarrow> jsstr list \<Rightarrow> Editor \<Rightarrow> Editor" where
  "replaceRoutes nextRoutes nextKeys s = s\<lparr>config := \<lparr>advanced_routes = Some nextRoutes\<rparr>, routeKeys := nextKeys\<rparr>"

definition appendRoute :: "Route \<Rightarrow> Editor \<Rightarrow> Editor" where
  "appendRoute route s = s\<lparr>config := \<lparr>advanced_routes = Some (editorRoutes s @ [route])\<rparr>,
     routeKeys := routeKeys s @ [createRouteKey (routeKeyCounter s + 1)], routeKeyCounter := routeKeyCounter s + 1\<rparr>"

definition addRoute :: "Editor \<Rightarrow> Editor" where
  "addRoute s = appendRoute createAdvancedCustomRoute s"

definition addRouteForIncomingPath :: "jsstr \<Rightarrow> Editor \<Rightarrow> Editor" where
  "addRouteForIncomingPath path s = (let resolved = or_str (Some path) (js ''/v1/chat/completions'') in
     appendRoute (createAdvancedCustomRoute\<lparr>incoming_path := Some resolved, upstream_path := Some resolved\<rparr>) s)"

definition removeAt :: "nat \<Rightarrow> 'a list \<Rightarrow> 'a list" where
  "removeAt i xs = take i xs @ drop (Suc i) xs"

definition removeRoute :: "nat \<Rightarrow> Editor \<Rightarrow> Editor" where
  "removeRoute index s = s\<lparr>config := \<lparr>advanced_routes = Some (removeAt index (editorRoutes s))\<rparr>,
     routeKeys := removeAt index (routeKeys s)\<rparr>"

definition updateGroupIncomingPath :: "AdvancedCustomRouteGroup \<Rightarrow> jsstr option \<Rightarrow> Editor \<Rightarrow> Editor" where
  "updateGroupIncomingPath grp nextPath s =
     (let resolved = or_str nextPath (js ''/v1/chat/completions'');
          indexes = map row_index (snd grp);
          nextRoutes = map (\<lambda>i. let route = editorRoutes s ! i; conv = or_str (converter route) C_NONE in
            if i \<notin> set indexes then route
            else route\<lparr>incoming_path := Some resolved,
              converter := Some (if isAdvancedCustomIncomingPathAllowed resolved conv then conv else C_NONE)\<rparr>)
            [0..<length (editorRoutes s)] in
      replaceRoutes nextRoutes (map row_key (routeRows s)) s)"

definition swapAt :: "nat \<Rightarrow> nat \<Rightarrow> 'a list \<Rightarrow> 'a list" where
  "swapAt i j xs = xs[i := xs ! j, j := xs ! i]"

definition swapRoutes :: "nat \<Rightarrow> nat \<Rightarrow> Editor \<Rightarrow> Editor" where
  "swapRoutes i j s = (if i = j then s
     else replaceRoutes (swapAt i j (editorRoutes s)) (swapAt i j (map row_key (routeRows s))) s)"

text \<open>\<open>samePathIndexes.at(k)\<close> counts a negative \<open>k\<close> from the end.\<close>

definition js_at :: "'a list \<Rightarrow> int \<Rightarrow> 'a option" where
  "js_at xs k = (let i = (if k < 0 then int (length xs) + k else k) in
     if 0 \<le> i \<and> i < int (length xs) then Some (xs ! nat i) else None)"

definition samePathIndexes :: "Route list \<Rightarrow> nat \<Rightarrow> nat list" where
  "samePathIndexes routes index =
     filter (\<lambda>i. getRouteIncomingPath (routes ! i) = getRouteIncomingPath (routes ! index)) [0..<length routes]"

definition moveRouteWithinGroup :: "nat \<Rightarrow> int \<Rightarrow> Editor \<Rightarrow> Editor" where
  "moveRouteWithinGroup index direction s =
     (let same = samePathIndexes (editorRoutes s) index;
          position = (case find_index (\<lambda>i. i = index) same of None \<Rightarrow> - 1 | Some p \<Rightarrow> int p) in
      case js_at same (position + direction) of None \<Rightarrow> s | Some next_i \<Rightarrow> swapRoutes index next_i s)"

definition insertAt :: "nat \<Rightarrow> 'a \<Rightarrow> 'a list \<Rightarrow> 'a list" where
  "insertAt i x xs = take i xs @ [x] @ drop i xs"

definition moveRouteToGroupEnd :: "nat \<Rightarrow> Editor \<Rightarrow> Editor" where
  "moveRouteToGroupEnd index s =
     (let same = samePathIndexes (editorRoutes s) index in
      if same = [] \<or> last same = index then s
      else replaceRoutes
        (insertAt (last same) (editorRoutes s ! index) (removeAt index (editorRoutes s)))
        (insertAt (last same) (map row_key (routeRows s) ! index) (removeAt index (map row_key (routeRows s)))) s)"

subsection \<open>Order of the catch-all routes\<close>

definition orderRows :: "AdvancedCustomRouteRow list \<Rightarrow> AdvancedCustomRouteRow list" where
  "orderRows rows = filter (\<lambda>r. \<not> isCatchAllRoute (row_route r)) rows @ filter (\<lambda>r. isCatchAllRoute (row_route r)) rows"

text \<open>Every place takes the first row left for its path: \<open>orderedRows?.shift() || routeRow\<close>.\<close>

fun shiftRows :: "(jsstr, AdvancedCustomRouteRow list) omap \<Rightarrow> AdvancedCustomRouteRow list \<Rightarrow>
    AdvancedCustomRouteRow list" where
  "shiftRows m [] = []"
| "shiftRows m (row # rows) = (let path = getRouteIncomingPath (row_route row) in
     case omap_get m path of
       Some (x # xs) \<Rightarrow> x # shiftRows (omap_set m path xs) rows
     | _ \<Rightarrow> row # shiftRows m rows)"

definition fixRows :: "AdvancedCustomRouteRow list \<Rightarrow> AdvancedCustomRouteRow list" where
  "fixRows rows =
     (let rowsByPath = foldl groupStep [] rows;
          orderedByPath = foldl (\<lambda>m (path, rs). omap_set m path (orderRows rs)) [] rowsByPath in
      shiftRows orderedByPath rows)"

definition fixCatchAllOrder :: "Editor \<Rightarrow> Editor" where
  "fixCatchAllOrder s = (let nextRows = fixRows (routeRows s) in
     replaceRoutes (map row_route nextRows) (map row_key nextRows) s)"

subsection \<open>Text mode, templates and saving\<close>

definition parseJsonEditorConfig :: "Env \<Rightarrow> Editor \<Rightarrow> AdvancedCustomConfig option \<times> Editor" where
  "parseJsonEditorConfig env s = (case parseAdvancedCustomConfig env (jsonText s) of
      None \<Rightarrow> (None, s\<lparr>jsonError := ''Invalid JSON''\<rparr>)
    | Some parsed \<Rightarrow> (case validateAdvancedCustomConfig (env_url env) (Some parsed) of
          Some e \<Rightarrow> (None, s\<lparr>jsonError := err_message e\<rparr>)
        | None \<Rightarrow> (Some parsed, s\<lparr>jsonError := []\<rparr>)))"

definition loadConfig :: "AdvancedCustomConfig \<Rightarrow> Editor \<Rightarrow> Editor" where
  "loadConfig c s = (let n = length (nullish (advanced_routes c) []) in
     s\<lparr>config := c, routeKeys := createRouteKeys (routeKeyCounter s) n, routeKeyCounter := routeKeyCounter s + n\<rparr>)"

definition switchToVisualMode :: "Env \<Rightarrow> Editor \<Rightarrow> Editor" where
  "switchToVisualMode env s = (case parseJsonEditorConfig env s of
      (None, s') \<Rightarrow> s'
    | (Some parsed, s') \<Rightarrow> (loadConfig (normalizeAdvancedCustomConfig parsed) s')\<lparr>editMode := VisualMode\<rparr>)"

definition switchToJsonMode :: "Env \<Rightarrow> Editor \<Rightarrow> Editor" where
  "switchToJsonMode env s = s\<lparr>jsonText := stringifyAdvancedCustomConfig env (normalizeAdvancedCustomConfig (config s)),
     jsonError := [], editMode := JsonMode\<rparr>"

definition handleJsonChange :: "jsstr \<Rightarrow> Editor \<Rightarrow> Editor" where
  "handleJsonChange v s = s\<lparr>jsonText := v, jsonError := []\<rparr>"

definition formatJson :: "Env \<Rightarrow> Editor \<Rightarrow> Editor" where
  "formatJson env s = (case parseJsonEditorConfig env s of
      (None, s') \<Rightarrow> s'
    | (Some parsed, s') \<Rightarrow> s'\<lparr>jsonText := stringifyAdvancedCustomConfig env parsed\<rparr>)"

datatype TemplateMode = Fill | Append

definition loadTemplate :: "Env \<Rightarrow> AdvancedCustomConfig \<Rightarrow> Editor \<Rightarrow> Editor" where
  "loadTemplate env next_c s = (let normalized = normalizeAdvancedCustomConfig next_c in
     (loadConfig normalized s)\<lparr>jsonText := stringifyAdvancedCustomConfig env normalized, jsonError := []\<rparr>)"

definition applyTemplate :: "Env \<Rightarrow> TemplateMode \<Rightarrow> Editor \<Rightarrow> Editor" where
  "applyTemplate env mode s =
     (let templateConfig = getAdvancedCustomTemplateConfig (templateKey s) in
      if mode = Append then
        (case (if editMode s = JsonMode then parseJsonEditorConfig env s
               else (Some (normalizeAdvancedCustomConfig (config s)), s)) of
           (None, s') \<Rightarrow> s'
         | (Some baseConfig, s') \<Rightarrow>
             let base = normalizeAdvancedCustomConfig baseConfig;
                 template = normalizeAdvancedCustomConfig templateConfig in
             loadTemplate env \<lparr>advanced_routes =
               Some (nullish (advanced_routes base) [] @ nullish (advanced_routes template) [])\<rparr> s')
      else loadTemplate env templateConfig s)"

definition saveConfig :: "Env \<Rightarrow> Editor \<Rightarrow> Editor \<times> EditorCall list" where
  "saveConfig env s =
     (if editMode s = JsonMode then
        (case parseJsonEditorConfig env s of
           (None, s') \<Rightarrow> (s', [ToastError ''Please fix JSON errors before saving''])
         | (Some parsed, s') \<Rightarrow> (s', [OnSave (stringifyAdvancedCustomConfig env parsed), OnOpenChange False]))
      else case validationError env s of
          Some e \<Rightarrow> (s, [ToastError (err_message e)])
        | None \<Rightarrow> (s, [OnSave (stringifyAdvancedCustomConfig env (normalizeAdvancedCustomConfig (config s))),
            OnOpenChange False]))"

subsection \<open>The controls of a route\<close>

definition setConverter :: "jsstr \<Rightarrow> Route \<Rightarrow> Route \<Rightarrow> Route" where
  "setConverter nextConverter shown =
     (let conv = or_str (converter shown) C_NONE;
          incoming = or_str (incoming_path shown) (getDefaultAdvancedCustomIncomingPath conv);
          nextIncoming = (if \<not> isAdvancedCustomIncomingPathAllowed incoming nextConverter
            then getDefaultAdvancedCustomIncomingPath nextConverter else incoming);
          defaults = getAdvancedCustomConverterDefaults nextConverter nextIncoming in
      (\<lambda>route. route\<lparr>converter := Some nextConverter, incoming_path := Some nextIncoming,
         upstream_path := Some (fst defaults), auth := Some (snd defaults)\<rparr>))"

definition setAuthMode :: "jsstr \<Rightarrow> Route \<Rightarrow> Route \<Rightarrow> Route" where
  "setAuthMode mode shown = (\<lambda>route. route\<lparr>auth := buildAdvancedCustomAuth mode (auth shown)\<rparr>)"

definition setModelsInput :: "jsstr \<Rightarrow> Route \<Rightarrow> Route" where
  "setModelsInput v = (\<lambda>route. route\<lparr>models := Some (if v = [] then [] else split_on (jsc CHR '','') v)\<rparr>)"

definition normalizeModelsInput :: "jsstr \<Rightarrow> Route \<Rightarrow> Route" where
  "normalizeModelsInput v = (\<lambda>route. route\<lparr>models := Some (parseAdvancedCustomRouteModels v)\<rparr>)"

datatype AuthField = AuthName | AuthValue

text \<open>\<open>id\<close> where the handler returns without a call.\<close>

definition updateAuth :: "AuthField \<Rightarrow> jsstr \<Rightarrow> Route \<Rightarrow> Route \<Rightarrow> Route" where
  "updateAuth fld v shown = (case auth shown of
      None \<Rightarrow> id
    | Some a \<Rightarrow> if auth_type a = Some (js ''none'') then id
        else (\<lambda>route. route\<lparr>auth := Some \<lparr>auth_type = auth_type a,
          auth_name = Some (if fld = AuthName then v else or_str (auth_name a) []),
          auth_value = Some (if fld = AuthValue then v else or_str (auth_value a) [])\<rparr>\<rparr>))"

definition modelsInputValue :: "Route \<Rightarrow> jsstr" where
  "modelsInputValue shown = or_str (map_option (join (js '', '')) (models shown)) []"

subsection \<open>Events\<close>

datatype RouteEvent =
    SetConverter jsstr
  | SetAuthMode jsstr
  | SetModelsInput jsstr
  | NormalizeModelsInput jsstr
  | SetUpstreamPath jsstr
  | UpdateAuth AuthField jsstr

fun routePatch :: "RouteEvent \<Rightarrow> Route \<Rightarrow> Route \<Rightarrow> Route" where
  "routePatch (SetConverter c) shown = setConverter c shown"
| "routePatch (SetAuthMode m) shown = setAuthMode m shown"
| "routePatch (SetModelsInput v) shown = setModelsInput v"
| "routePatch (NormalizeModelsInput v) shown = normalizeModelsInput v"
| "routePatch (SetUpstreamPath v) shown = (\<lambda>route. route\<lparr>upstream_path := Some v\<rparr>)"
| "routePatch (UpdateAuth fld v) shown = updateAuth fld v shown"

datatype EditorEvent =
    AddRoute
  | AddRouteForPath jsstr
  | RemoveRoute nat
  | ChangeRoute nat RouteEvent
  | ChangeGroupPath nat "jsstr option"
  | MoveRoute nat int
  | MoveRouteToEnd nat
  | FixOrder
  | ToVisual
  | ToJson
  | JsonChange jsstr
  | Format
  | SelectTemplate jsstr
  | ApplyTemplate TemplateMode
  | Save

fun handle :: "Env \<Rightarrow> EditorEvent \<Rightarrow> Editor \<Rightarrow> Editor \<times> EditorCall list" where
  "handle env AddRoute s = (addRoute s, [])"
| "handle env (AddRouteForPath path) s = (addRouteForIncomingPath path s, [])"
| "handle env (RemoveRoute i) s = (removeRoute i s, [])"
| "handle env (ChangeRoute i ev) s = (updateRoute i (routePatch ev (editorRoutes s ! i)) s, [])"
| "handle env (ChangeGroupPath g path) s = (updateGroupIncomingPath (buildRouteGroups (routeRows s) ! g) path s, [])"
| "handle env (MoveRoute i direction) s = (moveRouteWithinGroup i direction s, [])"
| "handle env (MoveRouteToEnd i) s = (moveRouteToGroupEnd i s, [])"
| "handle env FixOrder s = (fixCatchAllOrder s, [])"
| "handle env ToVisual s = (switchToVisualMode env s, [])"
| "handle env ToJson s = (switchToJsonMode env s, [])"
| "handle env (JsonChange v) s = (handleJsonChange v s, [])"
| "handle env Format s = (formatJson env s, [])"
| "handle env (SelectTemplate k) s =
     (s\<lparr>templateKey := or_str (Some k) (template_value (hd ADVANCED_CUSTOM_TEMPLATE_OPTIONS))\<rparr>, [])"
| "handle env (ApplyTemplate mode) s = (applyTemplate env mode s, [])"
| "handle env Save s = saveConfig env s"

text \<open>The controls that are shown: the rows and groups of the current routes, and the moves whose buttons
  are enabled.\<close>

fun offered :: "Env \<Rightarrow> Editor \<Rightarrow> EditorEvent \<Rightarrow> bool" where
  "offered env s (RemoveRoute i) = (i < length (editorRoutes s))"
| "offered env s (ChangeRoute i ev) = (i < length (editorRoutes s))"
| "offered env s (ChangeGroupPath g path) = (g < length (buildRouteGroups (routeRows s)))"
| "offered env s (MoveRoute i direction) = (i < length (editorRoutes s) \<and>
     (direction = - 1 \<and> hd (samePathIndexes (editorRoutes s) i) < i \<or>
      direction = 1 \<and> i < last (samePathIndexes (editorRoutes s) i)))"
| "offered env s (MoveRouteToEnd i) = (i < length (editorRoutes s))"
| "offered env s FixOrder = canFixCatchAllOrder env s"
| "offered env s _ = True"

inductive reachable :: "Env \<Rightarrow> Editor \<Rightarrow> bool" for env where
  opened: "reachable env (openEditor env v)"
| handled: "reachable env s \<Longrightarrow> offered env s ev \<Longrightarrow> reachable env (fst (handle env ev s))"

end
