(* ===== verification/AdvancedCustomEditing.thy ===== *)
theory AdvancedCustomEditing
  imports AdvancedCustomEditor "HOL-Library.Multiset"
begin

text \<open>
  What the editor of advanced custom routes keeps and does: the keys of the rows in every reachable state,
  what is saved, what ordering the catch-all routes and moving a route do, and the effect of a converter.
\<close>

section \<open>Keys\<close>

lemma key_prefix: "initialKey i = js ''advanced-custom-route-'' @ js ''initial-'' @ show_nat i"
  by (simp add: initialKey_def js_def)

lemma initialKey_inj: "initialKey i = initialKey j \<longleftrightarrow> i = j"
  by (simp add: initialKey_def show_nat_inj)

lemma createRouteKey_inj: "createRouteKey i = createRouteKey j \<longleftrightarrow> i = j"
  by (simp add: createRouteKey_def show_nat_inj)

lemma initialKey_neq_createRouteKey: "initialKey i \<noteq> createRouteKey n"
proof
  assume "initialKey i = createRouteKey n"
  then have "show_nat n = js ''initial-'' @ show_nat i" by (simp add: key_prefix createRouteKey_def)
  then have "is_digit (jsc CHR ''i'')" using show_nat_digits [of n] by (simp add: js_def)
  then show False by (simp add: is_digit_def jsc_def)
qed

lemmas key_simps = initialKey_inj createRouteKey_inj initialKey_neq_createRouteKey
  initialKey_neq_createRouteKey [symmetric]

definition madeKey :: "nat \<Rightarrow> jsstr \<Rightarrow> bool" where
  "madeKey c k \<longleftrightarrow> (\<exists>i. k = initialKey i) \<or> (\<exists>n \<le> c. k = createRouteKey n)"

definition keysOk :: "nat \<Rightarrow> jsstr list \<Rightarrow> bool" where
  "keysOk c ks \<longleftrightarrow> distinct ks \<and> (\<forall>k\<in>set ks. madeKey c k)"

lemma madeKey_ne: "madeKey c k \<Longrightarrow> k \<noteq> []"
  by (auto simp: madeKey_def initialKey_def createRouteKey_def)

lemma madeKey_fresh: "madeKey c k \<Longrightarrow> k \<noteq> createRouteKey (c + i + 1)"
  by (auto simp: madeKey_def key_simps)

lemma keysOk_initial: "keysOk 0 (map initialKey [0..<n])"
  by (auto simp: keysOk_def madeKey_def distinct_map inj_on_def key_simps)

lemma madeKey_mono: "madeKey c k \<Longrightarrow> c \<le> d \<Longrightarrow> madeKey d k"
  unfolding madeKey_def using le_trans [of _ c d] by blast

lemma keysOk_append:
  assumes "keysOk c ks"
  shows "keysOk (c + 1) (ks @ [createRouteKey (c + 1)])"
proof -
  have "createRouteKey (c + 1) \<notin> set ks"
    using assms madeKey_fresh [of c _ 0] unfolding keysOk_def by force
  moreover have "madeKey (c + 1) (createRouteKey (c + 1))" unfolding madeKey_def by blast
  moreover have "\<forall>k\<in>set ks. madeKey (c + 1) k" using assms madeKey_mono [of c _ "c + 1"] unfolding keysOk_def by simp
  ultimately show ?thesis using assms by (simp add: keysOk_def)
qed

lemma keysOk_create: "keysOk (c + n) (createRouteKeys c n)"
  by (auto simp: keysOk_def createRouteKeys_def madeKey_def distinct_map inj_on_def key_simps)

lemma keysOk_perm: "keysOk c ks \<Longrightarrow> mset ks' = mset ks \<Longrightarrow> keysOk c ks'"
  unfolding keysOk_def by (metis mset_eq_imp_distinct_iff set_mset_mset)

lemma set_removeAt: "set (removeAt i xs) \<subseteq> set xs"
  by (auto simp: removeAt_def dest: in_set_takeD in_set_dropD)

lemma keysOk_removeAt: "keysOk c ks \<Longrightarrow> keysOk c (removeAt i ks)"
  using set_removeAt [of i ks] set_take_disj_set_drop_if_distinct [of ks i "Suc i"]
  by (auto simp: keysOk_def removeAt_def)

section \<open>Routes and rows of a state\<close>

lemma normalizeModels_stored:
  "(let ms = normalizeAdvancedCustomRouteModels xs in normalizeAdvancedCustomRouteModels (if ms = [] then None else Some ms)) =
    normalizeAdvancedCustomRouteModels xs"
  by (simp add: normalizeModels_idem Let_def) (simp add: normalizeAdvancedCustomRouteModels_def)

lemma normalizeRoute_idem: "normalizeAdvancedCustomRoute (normalizeAdvancedCustomRoute r) = normalizeAdvancedCustomRoute r"
proof -
  have "trim (or_str (Some (trim s)) []) = trim s" for s by (simp add: or_str_def trim_trim)
  moreover have "normalizeAdvancedCustomRouteModels (models (normalizeAdvancedCustomRoute r)) =
      normalizeAdvancedCustomRouteModels (models r)"
    using normalizeModels_route [of r] by (simp add: routeModels_def)
  ultimately show ?thesis
    unfolding normalizeAdvancedCustomRoute_def [of "normalizeAdvancedCustomRoute r"]
    by (simp add: Let_def, simp add: normalizeAdvancedCustomRoute_def Let_def or_str_or_str
      getAdvancedCustomRouteUpstreamPath_def option.map_comp comp_def)
qed

lemma normalizeConfig_routes:
  "normalizeAdvancedCustomConfig \<lparr>advanced_routes = Some rs\<rparr> = \<lparr>advanced_routes = Some (map normalizeAdvancedCustomRoute rs)\<rparr>"
  by (simp add: normalizeAdvancedCustomConfig_def)

lemma normalizeConfig_editorRoutes: "normalizeAdvancedCustomConfig (config s) = \<lparr>advanced_routes = Some (editorRoutes s)\<rparr>"
  by (simp add: editorRoutes_def normalizeAdvancedCustomConfig_def nullish_def)

lemma editorRoutes_normal: "map normalizeAdvancedCustomRoute (editorRoutes s) = editorRoutes s"
  by (auto simp: editorRoutes_def normalizeAdvancedCustomConfig_def nullish_def normalizeRoute_idem split: option.split)

lemma editorRoutes_set [simp]:
  "config s = \<lparr>advanced_routes = Some rs\<rparr> \<Longrightarrow> editorRoutes s = map normalizeAdvancedCustomRoute rs"
  by (simp add: editorRoutes_def normalizeConfig_routes nullish_def)

definition aligned :: "Editor \<Rightarrow> bool" where
  "aligned s \<longleftrightarrow> length (routeKeys s) = length (editorRoutes s) \<and> keysOk (routeKeyCounter s) (routeKeys s)"

lemma row_keys:
  assumes "aligned s"
  shows "map row_key (routeRows s) = routeKeys s"
proof (rule nth_equalityI)
  show "length (map row_key (routeRows s)) = length (routeKeys s)" using assms by (simp add: routeRows_def aligned_def)
  fix i assume "i < length (map row_key (routeRows s))"
  then have i: "i < length (editorRoutes s)" by (simp add: routeRows_def)
  have "madeKey (routeKeyCounter s) (routeKeys s ! i)" using assms i by (simp add: aligned_def keysOk_def)
  then have "routeKeys s ! i \<noteq> []" by (rule madeKey_ne)
  then show "map row_key (routeRows s) ! i = routeKeys s ! i"
    using assms i by (simp add: routeRows_def routeRow_def aligned_def Let_def or_str_def)
qed

lemma row_routes: "map row_route (routeRows s) = editorRoutes s"
  by (rule nth_equalityI) (simp_all add: routeRows_def routeRow_def Let_def)

section \<open>Ordering the catch-all routes\<close>

abbreviation row_path :: "AdvancedCustomRouteRow \<Rightarrow> jsstr" where
  "row_path row \<equiv> getRouteIncomingPath (row_route row)"

lemma groupStep_get:
  "omap_get (foldl groupStep m rows) p =
    (case filter (\<lambda>r. row_path r = p) rows of [] \<Rightarrow> omap_get m p | xs \<Rightarrow> Some (nullish (omap_get m p) [] @ xs))"
  by (induction rows arbitrary: m) (auto simp: groupStep_def Let_def omap_get_set nullish_def split: list.split option.split)

lemma orderRows_Nil [simp]: "orderRows [] = []"
  by (simp add: orderRows_def)

lemma mset_orderRows: "mset (orderRows rows) = mset rows"
  by (simp add: orderRows_def)

lemma length_orderRows: "length (orderRows rows) = length rows"
  by (rule mset_eq_length [OF mset_orderRows])

lemma groupStep_wf: "omap_wf m \<Longrightarrow> omap_wf (foldl groupStep m rows)"
  by (induction rows arbitrary: m) (simp_all add: groupStep_def Let_def omap_wf_def omap_keys_set)

text \<open>Places take the rows that are left for their path: no place changes its path, and every path ends
  up with its rows in the order they were left.\<close>

lemma shiftRows_spec:
  assumes "\<forall>p. \<forall>x\<in>set (q p). row_path x = p"
    and "\<forall>p. length (q p) = length (filter (\<lambda>r. row_path r = p) rows)"
    and "\<forall>p. nullish (omap_get m p) [] = q p"
  shows "map row_path (shiftRows m rows) = map row_path rows \<and>
    (\<forall>p. filter (\<lambda>r. row_path r = p) (shiftRows m rows) = q p)"
  using assms
proof (induction rows arbitrary: m q)
  case (Cons row rows)
  let ?p = "row_path row"
  have "length (q ?p) \<noteq> 0" using Cons.prems(2) by simp
  then obtain x xs where q: "q ?p = x # xs" by (cases "q ?p") auto
  have "nullish (omap_get m ?p) [] = x # xs" using Cons.prems(3) q by simp
  then have get: "omap_get m ?p = Some (x # xs)" by (simp add: nullish_def split: option.splits)
  let ?q = "q(?p := xs)"
  have "map row_path (shiftRows (omap_set m ?p xs) rows) = map row_path rows \<and>
    (\<forall>p. filter (\<lambda>r. row_path r = p) (shiftRows (omap_set m ?p xs) rows) = ?q p)"
  proof (rule Cons.IH)
    show "\<forall>p. \<forall>x\<in>set (?q p). row_path x = p" using Cons.prems(1) spec [OF Cons.prems(1), of ?p] q by simp
    show "\<forall>p. length (?q p) = length (filter (\<lambda>r. row_path r = p) rows)"
    proof
      fix p
      show "length (?q p) = length (filter (\<lambda>r. row_path r = p) rows)"
        using spec [OF Cons.prems(2), of p] q by (cases "p = ?p") simp_all
    qed
    show "\<forall>p. nullish (omap_get (omap_set m ?p xs) p) [] = ?q p"
      using Cons.prems(3) by (auto simp: omap_get_set nullish_def)
  qed
  moreover have "row_path x = ?p" using spec [OF Cons.prems(1), of ?p] q by simp
  ultimately show ?case using get q by (simp add: Let_def)
qed simp

lemma fixRows_spec:
  "map row_path (fixRows rows) = map row_path rows \<and>
    (\<forall>p. filter (\<lambda>r. row_path r = p) (fixRows rows) = orderRows (filter (\<lambda>r. row_path r = p) rows))"
  unfolding fixRows_def Let_def
proof (rule shiftRows_spec)
  let ?m = "foldl (\<lambda>m (path, rs). omap_set m path (orderRows rs)) [] (foldl groupStep [] rows)"
  show "\<forall>p. nullish (omap_get ?m p) [] = orderRows (filter (\<lambda>r. row_path r = p) rows)"
  proof
    fix p
    have "distinct (map fst (foldl groupStep [] rows))"
      using groupStep_wf [of "[]" rows] by (simp add: omap_wf_def)
    from omap_get_put_all [OF this, of orderRows "[]" p]
    have "omap_get ?m p = map_option orderRows (omap_get (foldl groupStep [] rows) p)"
      by (simp add: omap_get_def split: option.split)
    also have "omap_get (foldl groupStep [] rows) p = (case filter (\<lambda>r. row_path r = p) rows of [] \<Rightarrow> None | xs \<Rightarrow> Some xs)"
      by (simp add: groupStep_get split: list.split) (simp add: nullish_def omap_get_def)
    finally show "nullish (omap_get ?m p) [] = orderRows (filter (\<lambda>r. row_path r = p) rows)"
      by (cases "filter (\<lambda>r. row_path r = p) rows") (simp_all add: nullish_def)
  qed
qed (simp_all add: length_orderRows, auto simp: orderRows_def)

lemma mset_from_filters:
  assumes "\<forall>p. mset (filter (\<lambda>x. f x = p) xs) = mset (filter (\<lambda>x. f x = p) ys)"
  shows "mset xs = mset ys"
proof (rule multiset_eqI)
  fix a
  have "count (mset zs) a = count (filter_mset (\<lambda>x. f x = f a) (mset zs)) a" for zs by simp
  then show "count (mset xs) a = count (mset ys) a" using assms by (metis mset_filter)
qed

lemma mset_fixRows: "mset (fixRows rows) = mset rows"
  by (rule mset_from_filters [of row_path]) (use fixRows_spec [of rows] in \<open>simp add: mset_orderRows\<close>)

text \<open>On every path, what comes after a catch-all route is a catch-all route.\<close>

definition catchAllLast :: "Route list \<Rightarrow> bool" where
  "catchAllLast rs \<longleftrightarrow> sorted_wrt (\<lambda>r s. routePath r = routePath s \<longrightarrow> routeModels r = [] \<longrightarrow> routeModels s = []) rs"

lemma sorted_wrt_by_key:
  assumes "\<forall>p. sorted_wrt R (filter (\<lambda>x. f x = p) xs)"
  shows "sorted_wrt (\<lambda>x y. f x = f y \<longrightarrow> R x y) xs"
  using assms
proof (induction xs)
  case (Cons x xs)
  have "sorted_wrt R (filter (\<lambda>y. f y = p) xs)" for p using Cons.prems by (cases "f x = p") (auto dest: spec [of _ p])
  moreover have "\<forall>y\<in>set xs. f y = f x \<longrightarrow> R x y" using Cons.prems by (auto dest: spec [of _ "f x"])
  ultimately show ?case using Cons.IH by auto
qed simp

lemma sorted_orderRows:
  "sorted_wrt (\<lambda>x y. isCatchAllRoute (row_route x) \<longrightarrow> isCatchAllRoute (row_route y)) (orderRows rows)"
proof -
  have "sorted_wrt (\<lambda>x y. isCatchAllRoute (row_route x) \<longrightarrow> isCatchAllRoute (row_route y)) xs"
    if "(\<forall>x\<in>set xs. isCatchAllRoute (row_route x)) \<or> (\<forall>x\<in>set xs. \<not> isCatchAllRoute (row_route x))" for xs
    using that by (induction xs) auto
  from this [of "filter (\<lambda>r. \<not> isCatchAllRoute (row_route r)) rows"]
    this [of "filter (\<lambda>r. isCatchAllRoute (row_route r)) rows"]
  show ?thesis by (simp add: orderRows_def sorted_wrt_append)
qed

lemma sorted_fixRows:
  "sorted_wrt (\<lambda>x y. row_path x = row_path y \<longrightarrow>
     (isCatchAllRoute (row_route x) \<longrightarrow> isCatchAllRoute (row_route y))) (fixRows rows)"
  by (rule sorted_wrt_by_key) (simp add: fixRows_spec sorted_orderRows)

lemma isCatchAllRoute_normal:
  assumes "normalizeAdvancedCustomRoute r = r"
  shows "isCatchAllRoute r \<longleftrightarrow> routeModels r = []"
proof -
  have "models (normalizeAdvancedCustomRoute r) = (if routeModels r = [] then None else Some (routeModels r))"
    by (simp add: normalizeAdvancedCustomRoute_def routeModels_def Let_def)
  then have "isCatchAllRoute (normalizeAdvancedCustomRoute r) \<longleftrightarrow> routeModels r = []"
    by (simp add: isCatchAllRoute_def)
  then show ?thesis by (simp add: assms)
qed

lemma fixed_routes: "editorRoutes (fixCatchAllOrder s) = map row_route (fixRows (routeRows s))"
proof -
  have "set (map row_route (fixRows (routeRows s))) = set (editorRoutes s)"
    using mset_fixRows [of "routeRows s"] row_routes [of s] by (metis mset_map set_mset_mset)
  then have "\<forall>r\<in>set (map row_route (fixRows (routeRows s))). normalizeAdvancedCustomRoute r = r"
    using editorRoutes_normal [of s] by (metis map_eq_conv map_ident)
  then show ?thesis by (simp add: fixCatchAllOrder_def replaceRoutes_def Let_def map_idI)
qed

lemma row_normal:
  assumes "x \<in> set (routeRows s)"
  shows "normalizeAdvancedCustomRoute (row_route x) = row_route x"
proof -
  have "row_route x \<in> set (editorRoutes s)" unfolding row_routes [symmetric] using assms by simp
  then show ?thesis using editorRoutes_normal [of s] by (metis map_eq_conv map_ident)
qed

lemma fixed_catchAllLast: "catchAllLast (editorRoutes (fixCatchAllOrder s))"
proof -
  have "\<forall>x\<in>set (editorRoutes (fixCatchAllOrder s)). normalizeAdvancedCustomRoute x = x"
    using editorRoutes_normal by (metis map_eq_conv map_ident)
  then have "isCatchAllRoute (row_route x) \<longleftrightarrow> routeModels (row_route x) = []" if "x \<in> set (fixRows (routeRows s))" for x
    using that by (intro isCatchAllRoute_normal) (simp add: fixed_routes)
  then show ?thesis
    unfolding catchAllLast_def fixed_routes sorted_wrt_map
    by (intro sorted_wrt_mono_rel [OF _ sorted_fixRows]) (simp add: routePath_def getRouteIncomingPath_def)
qed

lemma validateAuth_message: "validateRouteAuth a = Some msg \<Longrightarrow> msg \<noteq> catchAllOrderErrorMessage"
  by (auto simp: validateRouteAuth_def catchAllOrderErrorMessage_def split: option.splits if_splits)

lemma checkModels_message: "checkModels i seen known ms = Inl e \<Longrightarrow> err_message e \<noteq> catchAllOrderErrorMessage"
  by (induction i seen known ms rule: checkModels.induct) (auto simp: catchAllOrderErrorMessage_def split: if_splits)

lemma validateModels_message:
  assumes "validateAdvancedCustomRouteModels i p ms states = Inl e" "err_message e = catchAllOrderErrorMessage"
  shows "ms \<noteq> [] \<and> catchAllIndex (nullish (omap_get states p) \<lparr>catchAllIndex = None, path_models = []\<rparr>) \<noteq> None"
  using assms checkModels_message
  by (fastforce simp: validateAdvancedCustomRouteModels_def catchAllOrderErrorMessage_def Let_def
    split: if_splits sum.splits)

lemma validateRoute_message:
  assumes "validateRoute url i r states = Inl e" "err_message e = catchAllOrderErrorMessage"
  shows "validateAdvancedCustomRouteModels i (routePath r) (routeModels r) states = Inl e"
  using assms validateAuth_message
  unfolding validateRoute_def routePath_def [symmetric] routeModels_def [symmetric]
  by (auto simp: Let_def catchAllOrderErrorMessage_def split: if_splits sum.splits option.splits)

lemma validateRoutes_message:
  assumes "represents states rs" "catchAllLast (rs @ ss)" "validateRoutes url i states ss = Some e"
  shows "err_message e \<noteq> catchAllOrderErrorMessage"
  using assms
proof (induction ss arbitrary: i states rs)
  case (Cons s ss)
  show ?case
  proof (cases "validateRoute url i s states")
    case (Inr states')
    then have "routeOk url s \<and> (\<forall>r\<in>set rs. compatible r s)"
      using validateRoute_fails [OF Cons.prems(1), of url s i] by force
    then have "represents states' (rs @ [s])" using validateRoute_step [OF Cons.prems(1), of url s i] Inr by auto
    then show ?thesis using Cons.IH [of states' "rs @ [s]" "i + 1"] Cons.prems Inr by simp
  next
    case (Inl d)
    show ?thesis
    proof
      assume "err_message e = catchAllOrderErrorMessage"
      then have m: "routeModels s \<noteq> []"
          "catchAllIndex (nullish (omap_get states (routePath s)) \<lparr>catchAllIndex = None, path_models = []\<rparr>) \<noteq> None"
        using validateModels_message [OF validateRoute_message [OF Inl]] Cons.prems(3) Inl by auto
      then obtain r where "r \<in> set rs" "routePath r = routePath s" "routeModels r = []"
        using Cons.prems(1) unfolding represents_def Let_def by blast
      then show False using m(1) Cons.prems(2) by (auto simp: catchAllLast_def sorted_wrt_append)
    qed
  qed
qed simp

section \<open>Keys in reachable states\<close>

lemma mset_swapAt: "i < length xs \<Longrightarrow> j < length xs \<Longrightarrow> mset (swapAt i j xs) = mset xs"
  unfolding swapAt_def by (rule mset_swap)

lemma mset_moveAt: "i < length xs \<Longrightarrow> mset (insertAt j (xs ! i) (removeAt i xs)) = mset xs"
proof -
  assume i: "i < length xs"
  have "mset (insertAt j x ys) = add_mset x (mset ys)" for x :: 'a and ys
    by (simp add: insertAt_def) (metis append_take_drop_id mset_append)
  moreover have "mset xs = add_mset (xs ! i) (mset (removeAt i xs))"
    by (subst id_take_nth_drop [OF i]) (simp add: removeAt_def)
  ultimately show ?thesis by simp
qed

lemma aligned_replace:
  assumes "aligned s" "length rs = length (editorRoutes s)" "mset ks = mset (routeKeys s)"
  shows "aligned (replaceRoutes rs ks s)"
  using assms keysOk_perm [OF _ assms(3)] mset_eq_length [OF assms(3)] by (auto simp: aligned_def replaceRoutes_def)

lemma aligned_swap:
  assumes "aligned s" "i < length (editorRoutes s)" "j < length (editorRoutes s)"
  shows "aligned (swapRoutes i j s)"
proof (cases "i = j")
  case False
  have "length (routeKeys s) = length (editorRoutes s)" using assms(1) by (simp add: aligned_def)
  then have "aligned (replaceRoutes (swapAt i j (editorRoutes s)) (swapAt i j (routeKeys s)) s)"
    using assms by (intro aligned_replace [OF assms(1)]) (simp_all add: mset_swapAt, simp add: swapAt_def)
  then show ?thesis using False assms(1) by (simp add: swapRoutes_def row_keys)
qed (simp add: swapRoutes_def assms)

lemma js_at_set: "js_at xs k = Some x \<Longrightarrow> x \<in> set xs"
  by (auto simp: js_at_def Let_def split: if_splits)

lemma aligned_moveWithin:
  assumes "aligned s" "i < length (editorRoutes s)"
  shows "aligned (moveRouteWithinGroup i d s)"
  using assms by (auto simp: moveRouteWithinGroup_def Let_def samePathIndexes_def
    intro!: aligned_swap dest!: js_at_set split: option.split)

lemma aligned_moveToEnd:
  assumes "aligned s" "i < length (editorRoutes s)"
  shows "aligned (moveRouteToGroupEnd i s)"
proof -
  have l: "length (insertAt j (editorRoutes s ! i) (removeAt i (editorRoutes s))) = length (editorRoutes s)" for j
    using mset_moveAt [OF assms(2)] by (metis mset_eq_length)
  have "i < length (routeKeys s)" using assms by (simp add: aligned_def)
  from mset_moveAt [OF this]
  have "aligned (replaceRoutes (insertAt j (editorRoutes s ! i) (removeAt i (editorRoutes s)))
      (insertAt j (routeKeys s ! i) (removeAt i (routeKeys s))) s)" for j
    by (intro aligned_replace [OF assms(1)]) (simp_all add: l)
  then show ?thesis using assms(1) by (simp add: moveRouteToGroupEnd_def Let_def row_keys)
qed

lemma aligned_fix:
  assumes "aligned s"
  shows "aligned (fixCatchAllOrder s)"
proof -
  have "mset (map row_key (fixRows (routeRows s))) = mset (routeKeys s)"
    using mset_fixRows [of "routeRows s"] row_keys [OF assms] by (metis mset_map)
  moreover have "length (map row_route (fixRows (routeRows s))) = length (editorRoutes s)"
    using mset_eq_length [OF mset_fixRows [of "routeRows s"]] by (simp add: routeRows_def)
  ultimately show ?thesis unfolding fixCatchAllOrder_def Let_def by (intro aligned_replace [OF assms])
qed

lemma aligned_load: "aligned (loadConfig (normalizeAdvancedCustomConfig c) s)"
  using keysOk_create
  by (auto simp: aligned_def loadConfig_def Let_def editorRoutes_def normalizeAdvancedCustomConfig_def
      nullish_def createRouteKeys_def split: option.split)

lemma aligned_unchanged:
  "aligned s \<Longrightarrow> config s' = config s \<Longrightarrow> routeKeys s' = routeKeys s \<Longrightarrow> routeKeyCounter s' = routeKeyCounter s \<Longrightarrow> aligned s'"
  by (simp add: aligned_def editorRoutes_def)

lemma parseJson_unchanged:
  "parseJsonEditorConfig env s = (c, s') \<Longrightarrow>
    config s' = config s \<and> routeKeys s' = routeKeys s \<and> routeKeyCounter s' = routeKeyCounter s"
  by (auto simp: parseJsonEditorConfig_def split: option.splits)

lemma aligned_append: "aligned s \<Longrightarrow> aligned (appendRoute r s)"
  using keysOk_append by (simp add: aligned_def appendRoute_def)

lemma aligned_remove: "aligned s \<Longrightarrow> aligned (removeRoute i s)"
  using keysOk_removeAt by (simp add: aligned_def removeRoute_def removeAt_def)

lemma aligned_group: "aligned s \<Longrightarrow> aligned (updateGroupIncomingPath g p s)"
  by (simp add: updateGroupIncomingPath_def Let_def aligned_replace row_keys)

lemma aligned_visual: "aligned s \<Longrightarrow> aligned (switchToVisualMode env s)"
  using parseJson_unchanged [of env s] aligned_load
  by (fastforce simp: switchToVisualMode_def intro: aligned_unchanged split: prod.split option.split)

lemma aligned_format: "aligned s \<Longrightarrow> aligned (formatJson env s)"
  using parseJson_unchanged [of env s]
  by (fastforce simp: formatJson_def intro: aligned_unchanged split: prod.split option.split)

lemma aligned_template: "aligned (loadTemplate env c s)"
  unfolding loadTemplate_def Let_def by (rule aligned_unchanged [OF aligned_load]) simp_all

lemma aligned_apply:
  assumes "aligned s"
  shows "aligned (applyTemplate env mode s)"
proof (cases "mode = Append \<and> editMode s = JsonMode")
  case True
  obtain c s' where p: "parseJsonEditorConfig env s = (c, s')" by fastforce
  then have "aligned s'" using parseJson_unchanged [OF p] aligned_unchanged [OF assms] by blast
  then show ?thesis using True p aligned_template by (cases c) (simp_all add: applyTemplate_def Let_def)
qed (simp_all add: applyTemplate_def Let_def aligned_template)

lemma aligned_save:
  assumes "aligned s"
  shows "aligned (fst (saveConfig env s))"
proof -
  obtain c s' where p: "parseJsonEditorConfig env s = (c, s')" by fastforce
  then have "aligned s'" using parseJson_unchanged [OF p] aligned_unchanged [OF assms] by blast
  then show ?thesis using assms p by (cases c; cases "validationError env s") (simp_all add: saveConfig_def)
qed

lemma aligned_open: "aligned (openEditor env v)"
  by (simp add: aligned_def openEditor_def Let_def editorRoutes_def keysOk_initial)

lemma aligned_handle:
  assumes "aligned s" "offered env s ev"
  shows "aligned (fst (handle env ev s))"
proof (cases ev)
  case (ChangeRoute i e)
  then show ?thesis using assms(1) by (simp add: aligned_def updateRoute_def)
next
  case ToJson
  then show ?thesis using assms(1) by (simp add: aligned_unchanged switchToJsonMode_def)
next
  case (JsonChange v)
  then show ?thesis using assms(1) by (simp add: aligned_unchanged handleJsonChange_def)
next
  case (SelectTemplate k)
  then show ?thesis using assms(1) by (simp add: aligned_unchanged)
qed (use assms in \<open>simp_all add: addRoute_def addRouteForIncomingPath_def Let_def aligned_append aligned_remove aligned_group
  aligned_moveWithin aligned_moveToEnd aligned_fix aligned_visual aligned_format aligned_apply aligned_save\<close>)

lemma reachable_aligned: "reachable env s \<Longrightarrow> aligned s"
  by (induction rule: reachable.induct) (simp_all add: aligned_open aligned_handle)

section \<open>Converters and model input\<close>

lemma sublist_dropWhile:
  assumes "sublist p s" "\<forall>c\<in>set p. \<not> P c" "p \<noteq> []"
  shows "sublist p (dropWhile P s)"
  using assms
proof (induction s)
  case (Cons c s)
  show ?case
  proof (cases "P c")
    case True
    then have "\<not> prefix p (c # s)" using Cons.prems(2,3) by (cases p) auto
    then show ?thesis using Cons True by (simp add: sublist_Cons_right)
  qed (use Cons.prems in simp)
qed simp

lemma includes_trim:
  assumes "js_includes s p" "\<forall>c\<in>set p. \<not> is_ws c" "p \<noteq> []"
  shows "js_includes (trim s) p"
proof -
  have "sublist (rev p) (rev (trim_start s))"
    using assms sublist_dropWhile [of p s is_ws] by (simp add: js_includes_iff trim_start_def)
  then have "sublist (rev p) (trim_start (rev (trim_start s)))"
    using assms sublist_dropWhile [of "rev p" "rev (trim_start s)" is_ws] by (simp add: trim_start_def)
  then show ?thesis unfolding js_includes_iff trim_def by (metis rev_rev_ident sublist_rev)
qed

lemma split_on_snoc: "split_on c (v @ [c]) = split_on c v @ [[]]"
  by (induction v) (auto split: list.split)

lemma typed_comma_models:
  "routeModels (setModelsInput (v @ js '','') r) = routeModels (setModelsInput v r)"
  by (simp add: routeModels_def setModelsInput_def normalizeAdvancedCustomRouteModels_def js_def split_on_snoc
      trim_def trim_start_def)

text \<open>Paths that are correct as incoming and as upstream paths.\<close>

definition plainPath :: "jsstr \<Rightarrow> bool" where
  "plainPath p \<longleftrightarrow> prefix (js ''/'') p \<and> \<not> prefix (js ''//'') p \<and> jsc CHR ''?'' \<notin> set p \<and>
     \<not> is_ws (hd p) \<and> \<not> is_ws (last p)"

lemma option_paths: "\<forall>p\<in>fst ` set ADVANCED_CUSTOM_INCOMING_PATH_OPTIONS. plainPath p"
  by (simp add: ADVANCED_CUSTOM_INCOMING_PATH_OPTIONS_def plainPath_def js_def jsc_def is_ws_def)

lemma literal_auth:
  "validateRouteAuth (Some bearerHeaderAuth) = None"
  "validateRouteAuth (Some apiKeyHeaderAuth) = None"
  "validateRouteAuth (Some geminiQueryAuth) = None"
  by code_simp+

lemma plainPath_trim: "plainPath p \<Longrightarrow> trim p = p"
  by (simp add: plainPath_def trim_id)

lemma plainPath_ne: "plainPath p \<Longrightarrow> p \<noteq> []"
  by (auto simp: plainPath_def js_simps)

lemmas converter_defs = C_NONE_def C_ANTHROPIC_CHAT_def C_CHAT_ANTHROPIC_def C_CHAT_RESPONSES_def C_RESPONSES_CHAT_def
  C_RESPONSES_GEMINI_def C_GEMINI_CHAT_def C_CHAT_GEMINI_def

lemma literal_plain:
  "plainPath openAIChatPath" "plainPath openAIResponsesPath" "plainPath claudeMessagesPath" "plainPath geminiGenerateContentPath"
  using option_paths by (simp_all add: ADVANCED_CUSTOM_INCOMING_PATH_OPTIONS_def openAIChatPath_def openAIResponsesPath_def
    claudeMessagesPath_def geminiGenerateContentPath_def)

lemma gemini_path: "js_includes geminiGenerateContentPath (js '':generateContent'')"
proof -
  have "geminiGenerateContentPath = js ''/v1beta/models/{model}'' @ js '':generateContent'' @ []"
    by (simp add: geminiGenerateContentPath_def js_def)
  then show ?thesis unfolding js_includes_iff sublist_def by blast
qed

lemma registered_allowed:
  assumes "isAdvancedCustomConverter conv"
  shows "\<exists>p\<in>fst ` set ADVANCED_CUSTOM_INCOMING_PATH_OPTIONS. isConverterPathAllowed p conv"
proof -
  have "isConverterPathAllowed openAIChatPath conv \<or> isConverterPathAllowed openAIResponsesPath conv \<or>
      isConverterPathAllowed claudeMessagesPath conv \<or> isConverterPathAllowed geminiGenerateContentPath conv"
    using gemini_path
    by (simp add: isConverterPathAllowed_def openAIChatPath_def openAIResponsesPath_def claudeMessagesPath_def)
  then show ?thesis
    by (auto simp: ADVANCED_CUSTOM_INCOMING_PATH_OPTIONS_def openAIChatPath_def openAIResponsesPath_def
      claudeMessagesPath_def geminiGenerateContentPath_def)
qed

lemma default_path:
  assumes "isAdvancedCustomConverter conv"
  shows "plainPath (getDefaultAdvancedCustomIncomingPath conv) \<and>
    isConverterPathAllowed (getDefaultAdvancedCustomIncomingPath conv) conv"
proof -
  let ?xs = "getAdvancedCustomIncomingPathOptions conv"
  have "?xs \<noteq> []"
    using registered_allowed [OF assms] by (auto simp: getAdvancedCustomIncomingPathOptions_def filter_empty_conv)
  then obtain x xs where x: "?xs = x # xs" by (cases ?xs) auto
  then have "x \<in> set ?xs" by simp
  then have "fst x \<in> fst ` set ADVANCED_CUSTOM_INCOMING_PATH_OPTIONS" "isConverterPathAllowed (fst x) conv"
    by (auto simp: getAdvancedCustomIncomingPathOptions_def)
  moreover from this(1) have "plainPath (fst x)" using option_paths by blast
  ultimately show ?thesis using x plainPath_ne by (simp add: getDefaultAdvancedCustomIncomingPath_def or_str_def)
qed

lemma nativeAuth_ok: "validateRouteAuth (Some (getAdvancedCustomNativeAuth p)) = None"
  by (simp add: getAdvancedCustomNativeAuth_def literal_auth)

lemma defaults_ok:
  assumes "plainPath (trim p)"
  shows "plainPath (fst (getAdvancedCustomConverterDefaults conv p)) \<and>
    validateRouteAuth (Some (snd (getAdvancedCustomConverterDefaults conv p))) = None"
  using assms plainPath_ne [OF assms]
  by (simp add: getAdvancedCustomConverterDefaults_def Let_def nativeAuth_ok literal_auth literal_plain or_str_def)

lemma allowed_trim:
  assumes "isConverterPathAllowed p conv"
  shows "isConverterPathAllowed (trim p) conv"
proof -
  have "trim q = q" if "q \<in> {claudeMessagesPath, openAIChatPath, openAIResponsesPath}" for q
    using that literal_plain plainPath_trim by blast
  moreover have "js_includes (trim p) q" if "js_includes p q" "q = js '':generateContent'' \<or> q = js '':streamGenerateContent''" for q
    using that by (intro includes_trim) (auto simp: js_def jsc_def is_ws_def)
  ultimately show ?thesis using assms
    unfolding isConverterPathAllowed_def claudeMessagesPath_def openAIChatPath_def openAIResponsesPath_def
    by (auto split: if_splits)
qed

lemma plainPath_ok:
  "plainPath p \<Longrightarrow> incoming_path r = Some i \<Longrightarrow> trim i = p \<Longrightarrow> upstream_path r = Some u \<Longrightarrow> plainPath u \<Longrightarrow> pathsOk url r"
  using plainPath_trim [of u] plainPath_ne [of u] plainPath_ne [of p]
  by (auto simp: pathsOk_def plainPath_def routePath_def or_str_def getAdvancedCustomRouteUpstreamPath_def
    isFullHttpURLOrAbsolutePath_def)

lemma opened_blank: "editorRoutes (openEditor env []) = [createAdvancedCustomRoute]"
  using plainPath_trim [OF literal_plain(1)] plainPath_ne [OF literal_plain(1)]
  by (simp add: openEditor_def parseAdvancedCustomConfig_def Let_def editorRoutes_def nullish_def createAdvancedCustomConfig_def
    normalizeAdvancedCustomConfig_def normalizeAdvancedCustomRoute_def normalizeAdvancedCustomRouteModels_def
    createAdvancedCustomRoute_def or_str_def getAdvancedCustomRouteUpstreamPath_def C_NONE_def)

section \<open>Properties\<close>

text \<open>C25: In every state that the controls of the editor can reach, every route has its own row key, and no
  two rows have the same.\<close>

theorem row_keys_distinct:
  assumes "reachable env s"
  shows "length (routeKeys s) = length (editorRoutes s) \<and> map row_key (routeRows s) = routeKeys s \<and> distinct (routeKeys s)"
  using reachable_aligned [OF assms] by (simp add: row_keys aligned_def keysOk_def)

text \<open>C26: Ordering the catch-all routes keeps the rows and the path of every place, keeps on every path the
  order of the routes with models, and leaves no order error: the control that orders them is no longer shown.\<close>

theorem fix_order:
  "mset (fixRows (routeRows s)) = mset (routeRows s) \<and>
   map routePath (editorRoutes (fixCatchAllOrder s)) = map routePath (editorRoutes s) \<and>
   filter (\<lambda>r. routePath r = p \<and> routeModels r \<noteq> []) (editorRoutes (fixCatchAllOrder s)) =
     filter (\<lambda>r. routePath r = p \<and> routeModels r \<noteq> []) (editorRoutes s) \<and>
   \<not> canFixCatchAllOrder env (fixCatchAllOrder s)"
proof (intro conjI mset_fixRows)
  let ?rows = "routeRows s" and ?t = "fixCatchAllOrder s"
  have paths: "map row_path (fixRows ?rows) = map row_path ?rows"
    and order: "filter (\<lambda>r. row_path r = p) (fixRows ?rows) = orderRows (filter (\<lambda>r. row_path r = p) ?rows)"
    using fixRows_spec [of ?rows] by blast+
  show "map routePath (editorRoutes ?t) = map routePath (editorRoutes s)"
    using paths unfolding fixed_routes row_routes [of s, symmetric] by (simp add: routePath_def getRouteIncomingPath_def comp_def)
  have models: "routeModels (row_route x) \<noteq> [] \<longleftrightarrow> \<not> isCatchAllRoute (row_route x)" if "x \<in> set ?rows" for x
    using isCatchAllRoute_normal [of "row_route x"] row_normal [OF that] by simp
  have restrict: "filter (\<lambda>r. routePath r = p \<and> routeModels r \<noteq> []) (map row_route xs) =
      map row_route (filter (\<lambda>x. \<not> isCatchAllRoute (row_route x)) (filter (\<lambda>r. row_path r = p) xs))"
    if "set xs = set ?rows" for xs
    unfolding filter_map filter_filter comp_def
    by (intro arg_cong [of _ _ "map row_route"] filter_cong)
      (use that models in \<open>auto simp: routePath_def getRouteIncomingPath_def\<close>)
  have "set (fixRows ?rows) = set ?rows" by (metis mset_fixRows set_mset_mset)
  then show "filter (\<lambda>r. routePath r = p \<and> routeModels r \<noteq> []) (editorRoutes ?t) =
     filter (\<lambda>r. routePath r = p \<and> routeModels r \<noteq> []) (editorRoutes s)"
    unfolding fixed_routes row_routes [of s, symmetric] restrict [OF refl] by (simp add: restrict order) (simp add: orderRows_def)
  show "\<not> canFixCatchAllOrder env ?t"
    using validateRoutes_message [OF represents_Nil, of "editorRoutes ?t"] fixed_catchAllLast [of s]
    by (auto simp: canFixCatchAllOrder_def validationError_def normalizeConfig_editorRoutes validateConfig_routes
      catchAllOrderErrorMessage_def split: if_splits)
qed


theorem row_keys_distinct_witness:
  "length (routeKeys (addRoute (openEditor \<lparr>env_url = \<lambda>_. None, env_read = \<lambda>_. None, env_write = \<lambda>_. []\<rparr> []))) = 2 \<and>
   distinct (routeKeys (addRoute (openEditor \<lparr>env_url = \<lambda>_. None, env_read = \<lambda>_. None, env_write = \<lambda>_. []\<rparr> [])))"
proof -
  let ?env = "\<lparr>env_url = \<lambda>_. None, env_read = \<lambda>_. None, env_write = \<lambda>_. []\<rparr> :: Env"
  have "reachable ?env (fst (handle ?env AddRoute (openEditor ?env [])))"
    by (rule handled [OF opened]) simp
  then have "reachable ?env (addRoute (openEditor ?env []))" by simp
  note keys = row_keys_distinct [OF this]
  have "length (editorRoutes (addRoute (openEditor ?env []))) = 2"
    by (simp add: addRoute_def appendRoute_def opened_blank)
  then show ?thesis using keys by simp
qed

text \<open>A comma typed at the end of the model rules of a route disappears: the input shows what it showed
  without it, so that a second rule cannot be typed after the first.\<close>

theorem typed_comma_lost:
  assumes "i < length (editorRoutes s)"
  shows "modelsInputValue (editorRoutes (updateRoute i (routePatch (SetModelsInput (v @ js '','')) (editorRoutes s ! i)) s) ! i) =
    modelsInputValue (editorRoutes (updateRoute i (routePatch (SetModelsInput v) (editorRoutes s ! i)) s) ! i)"
proof -
  have "models (normalizeAdvancedCustomRoute r) = (if routeModels r = [] then None else Some (routeModels r))" for r
    by (simp add: normalizeAdvancedCustomRoute_def routeModels_def Let_def)
  then show ?thesis using assms by (simp add: updateRoute_def modelsInputValue_def typed_comma_models)
qed

theorem typed_comma_lost_witness:
  "modelsInputValue (editorRoutes (updateRoute 0 (setModelsInput (js ''gpt-4o,''))
     (openEditor \<lparr>env_url = \<lambda>_. None, env_read = \<lambda>_. None, env_write = \<lambda>_. []\<rparr> [])) ! 0) = js ''gpt-4o''"
proof -
  let ?s = "openEditor \<lparr>env_url = \<lambda>_. None, env_read = \<lambda>_. None, env_write = \<lambda>_. []\<rparr> []"
  have "0 < length (editorRoutes ?s)" by (simp add: opened_blank)
  from typed_comma_lost [OF this, of "js ''gpt-4o''"]
  have "modelsInputValue (editorRoutes (updateRoute 0 (setModelsInput (js ''gpt-4o,'')) ?s) ! 0) =
    modelsInputValue (editorRoutes (updateRoute 0 (setModelsInput (js ''gpt-4o'')) ?s) ! 0)"
    by (simp add: js_def)
  also have "\<dots> = js ''gpt-4o''"
    by (simp add: updateRoute_def opened_blank modelsInputValue_def setModelsInput_def normalizeAdvancedCustomRoute_def
      normalizeAdvancedCustomRouteModels_def or_str_def js_simps trim_id is_ws_def jsc_def Let_def)
  finally show ?thesis .
qed


text \<open>Choosing a registered converter for a route with a plain incoming path and correct models gives a
  correct route, whatever upstream path, converter and authentication it had.\<close>

theorem set_converter_valid:
  assumes "isAdvancedCustomConverter conv" "plainPath (routePath r)" "modelsOk r"
  shows "routeOk url (setConverter conv r r)"
proof -
  let ?r = "setConverter conv r r" and ?d = "getDefaultAdvancedCustomIncomingPath conv"
  obtain x where x: "incoming_path r = Some x" "x \<noteq> []" "trim x = routePath r"
    using plainPath_ne [OF assms(2)] that
    by (cases "incoming_path r"; cases "the (incoming_path r) = []") (auto simp: routePath_def or_str_def)
  let ?i = "if isConverterPathAllowed x conv then x else ?d"
  have i: "plainPath (trim ?i)" "isConverterPathAllowed (trim ?i) conv"
    using default_path [OF assms(1)] plainPath_trim [of ?d] allowed_trim [of x conv] x(3) assms(2) by auto
  have f: "incoming_path ?r = Some ?i" "converter ?r = Some conv" "models ?r = models r"
      "upstream_path ?r = Some (fst (getAdvancedCustomConverterDefaults conv ?i))"
      "auth ?r = Some (snd (getAdvancedCustomConverterDefaults conv ?i))"
    using x by (simp_all add: setConverter_def Let_def or_str_def isAdvancedCustomIncomingPathAllowed_def)
  have c: "conv \<noteq> []" using assms(1) by (auto simp: isAdvancedCustomConverter_def ADVANCED_CUSTOM_CONVERTER_OPTIONS_def converter_defs)
  have path: "routePath ?r = trim ?i" using plainPath_ne [OF i(1)] by (simp add: routePath_def f(1) or_str_def)
  have "converterOk ?r"
    using assms(1) i(2) c unfolding converterOk_def path by (simp add: routeConverter_def f(2) or_str_def converter_registered)
  moreover have "pathsOk url ?r"
    using plainPath_ok [OF i(1) f(1) refl f(4)] defaults_ok [OF i(1)] by blast
  moreover have "modelsOk ?r" using assms(3) by (simp add: modelsOk_def routeModels_def f(3))
  moreover have "validateRouteAuth (auth ?r) = None" using defaults_ok [OF i(1)] by (simp add: f(5))
  ultimately show ?thesis unfolding routeOk_def by blast
qed

theorem set_converter_valid_witness:
  "routeOk (\<lambda>_. None) (setConverter C_GEMINI_CHAT createAdvancedCustomRoute createAdvancedCustomRoute)"
proof (rule set_converter_valid)
  show "isAdvancedCustomConverter C_GEMINI_CHAT"
    by (simp add: isAdvancedCustomConverter_def ADVANCED_CUSTOM_CONVERTER_OPTIONS_def)
  show "plainPath (routePath createAdvancedCustomRoute)"
    by (simp add: routePath_def createAdvancedCustomRoute_def or_str_def literal_plain plainPath_ne plainPath_trim)
  show "modelsOk createAdvancedCustomRoute"
    by (simp add: modelsOk_def routeModels_def createAdvancedCustomRoute_def normalizeAdvancedCustomRouteModels_def)
qed

text \<open>Going to the text mode and back, where \<open>JSON.parse\<close> reads what \<open>JSON.stringify\<close> wrote, keeps the
  routes when validation accepts them; otherwise the editor stays in the text mode and shows the error.\<close>

theorem text_mode_and_back:
  assumes "env_read env (stringifyAdvancedCustomConfig env (config s)) = Some (normalizeAdvancedCustomConfig (config s))"
    and "trim (stringifyAdvancedCustomConfig env (config s)) \<noteq> []"
  shows "(case validationError env s of
      None \<Rightarrow> editorRoutes (switchToVisualMode env (switchToJsonMode env s)) = editorRoutes s \<and>
        editMode (switchToVisualMode env (switchToJsonMode env s)) = VisualMode \<and>
        jsonError (switchToVisualMode env (switchToJsonMode env s)) = []
    | Some e \<Rightarrow> switchToVisualMode env (switchToJsonMode env s) = (switchToJsonMode env s)\<lparr>jsonError := err_message e\<rparr>)"
proof -
  let ?c = "normalizeAdvancedCustomConfig (config s)"
  have n: "normalizeAdvancedCustomConfig ?c = ?c"
    by (simp add: normalizeConfig_editorRoutes normalizeConfig_routes editorRoutes_normal)
  then have "parseAdvancedCustomConfig env (jsonText (switchToJsonMode env s)) = Some ?c"
    using assms by (simp add: parseAdvancedCustomConfig_def switchToJsonMode_def stringifyAdvancedCustomConfig_def)
  moreover have "editorRoutes (loadConfig ?c t) = editorRoutes s" for t
    using n by (simp add: loadConfig_def Let_def editorRoutes_def)
  ultimately show ?thesis using n
    by (auto simp: switchToVisualMode_def parseJsonEditorConfig_def validationError_def editorRoutes_def loadConfig_def Let_def
      split: option.split)
qed

theorem text_mode_and_back_witness:
  "editorRoutes (switchToVisualMode
      \<lparr>env_url = \<lambda>_. None, env_read = \<lambda>_. Some createAdvancedCustomConfig, env_write = \<lambda>_. js ''{}''\<rparr>
      (switchToJsonMode \<lparr>env_url = \<lambda>_. None, env_read = \<lambda>_. Some createAdvancedCustomConfig, env_write = \<lambda>_. js ''{}''\<rparr>
        (openEditor \<lparr>env_url = \<lambda>_. None, env_read = \<lambda>_. Some createAdvancedCustomConfig, env_write = \<lambda>_. js ''{}''\<rparr> []))) =
    [createAdvancedCustomRoute]"
proof -
  let ?env = "\<lparr>env_url = \<lambda>_. None, env_read = \<lambda>_. Some createAdvancedCustomConfig, env_write = \<lambda>_. js ''{}''\<rparr> :: Env"
  let ?s = "openEditor ?env []"
  have r: "editorRoutes ?s = [createAdvancedCustomRoute]" by (rule opened_blank)
  then have "env_read ?env (stringifyAdvancedCustomConfig ?env (config ?s)) = Some (normalizeAdvancedCustomConfig (config ?s))"
    by (simp add: normalizeConfig_editorRoutes createAdvancedCustomConfig_def)
  moreover have "trim (stringifyAdvancedCustomConfig ?env (config ?s)) \<noteq> []"
    by (simp add: stringifyAdvancedCustomConfig_def js_simps trim_id is_ws_def jsc_def)
  moreover have "validateAdvancedCustomConfig (\<lambda>_. None) (Some \<lparr>advanced_routes = Some [createAdvancedCustomRoute]\<rparr>) = None"
    by code_simp
  moreover from this have "validationError ?env ?s = None" by (simp add: validationError_def normalizeConfig_editorRoutes r)
  moreover note r
  ultimately show ?thesis using text_mode_and_back [of ?env ?s] by simp
qed

end
