(* ===== verification/RatioSync.thy ===== *)
theory RatioSync
  imports JS_Prelude "HOL-Library.Monad_Syntax"
begin

text \<open>
  Synchronization of prices with upstream channels (\<open>features/system-settings/models/upstream-ratio-sync-helpers.ts\<close>
  and \<open>upstream-ratio-sync.tsx\<close>): which upstream values are chosen for which model, and the settings that are
  written from them. Types of ratios are strings, as the objects they index have them. \<open>num\<close> stands for
  \<open>Number\<close> on strings, with \<open>None\<close> where the result is not finite.
\<close>

section \<open>Definitions\<close>

subsection \<open>Data\<close>

datatype SyncValue = VNull | VNum jsnum | VStr jsstr

type_synonym RatioType = jsstr

record RatioDifferenceEntry =
  current :: SyncValue
  upstreams :: "(jsstr, SyncValue) omap"
  confidence :: "(jsstr, bool) omap"

type_synonym RatioTypes = "(RatioType, RatioDifferenceEntry) omap"
type_synonym DifferencesMap = "(jsstr, RatioTypes) omap"
type_synonym ModelResolution = "(RatioType, SyncValue) omap"
type_synonym ResolutionsMap = "(jsstr, ModelResolution) omap"

record ResolutionSelection =
  sel_model :: jsstr
  sel_ratioType :: RatioType
  sel_value :: SyncValue
  sel_sourceName :: jsstr

record ResolutionRemoval =
  rem_model :: jsstr
  rem_ratioType :: RatioType

text \<open>A \<open>Set\<close> in a plan is a list of its elements in order of insertion.\<close>

type_synonym ResolutionRemovalPlan = "(jsstr, RatioType list) omap"

definition R_PRICE :: RatioType where "R_PRICE = js ''model_price''"

definition R_MODE :: RatioType where "R_MODE = js ''billing_mode''"

definition R_EXPR :: RatioType where "R_EXPR = js ''billing_expr''"

definition RATIO_SYNC_FIELDS :: "RatioType list" where
  "RATIO_SYNC_FIELDS = [js ''model_ratio'', js ''completion_ratio'', js ''cache_ratio'', js ''create_cache_ratio'',
     js ''image_ratio'', js ''audio_ratio'', js ''audio_completion_ratio'']"

definition SYNC_FIELD_ORDER :: "RatioType list" where
  "SYNC_FIELD_ORDER = RATIO_SYNC_FIELDS @ [js ''model_price'', js ''billing_mode'', js ''billing_expr'']"

definition NUMERIC_SYNC_FIELDS :: "RatioType list" where
  "NUMERIC_SYNC_FIELDS = RATIO_SYNC_FIELDS @ [js ''model_price'']"

definition RATIO_TYPE_OPTIONS :: "(jsstr \<times> jsstr) list" where
  "RATIO_TYPE_OPTIONS =
    [(js ''model_ratio'', js ''Model ratio''), (js ''completion_ratio'', js ''Completion ratio''),
     (js ''cache_ratio'', js ''Cache ratio''), (js ''create_cache_ratio'', js ''Create cache ratio''),
     (js ''image_ratio'', js ''Image ratio''), (js ''audio_ratio'', js ''Audio ratio''),
     (js ''audio_completion_ratio'', js ''Audio completion ratio''), (js ''model_price'', js ''Fixed price''),
     (js ''billing_expr'', js ''Expression billing'')]"

text \<open>\<open>delete m[k]\<close>.\<close>

definition omap_delete :: "('k, 'v) omap \<Rightarrow> 'k \<Rightarrow> ('k, 'v) omap" where
  "omap_delete m k = filter (\<lambda>e. fst e \<noteq> k) m"

subsection \<open>Fields\<close>

definition getSyncFieldLabel :: "(jsstr \<Rightarrow> jsstr) \<Rightarrow> jsstr \<Rightarrow> jsstr" where
  "getSyncFieldLabel t ratioType =
     (case find (\<lambda>opt. fst opt = ratioType) RATIO_TYPE_OPTIONS of Some opt \<Rightarrow> t (snd opt) | None \<Rightarrow> ratioType)"

definition getOrderedRatioTypes :: "RatioTypes \<Rightarrow> jsstr option \<Rightarrow> RatioType list" where
  "getOrderedRatioTypes ratioTypes flt =
     (let keys = omap_keys ratioTypes;
          ordered = filter (\<lambda>f. f \<in> set keys) SYNC_FIELD_ORDER @ filter (\<lambda>f. f \<notin> set SYNC_FIELD_ORDER) keys in
      case flt of
        None \<Rightarrow> ordered
      | Some f \<Rightarrow> if f = [] \<or> f = js ''__all__'' then ordered else filter (\<lambda>x. x = f) ordered)"

text \<open>\<open>ratioTypes[rt]?.upstreams?.[source]\<close>.\<close>

definition upstreamValue :: "RatioTypes \<Rightarrow> RatioType \<Rightarrow> jsstr \<Rightarrow> SyncValue option" where
  "upstreamValue ratioTypes rt source = do { entry \<leftarrow> omap_get ratioTypes rt; omap_get (upstreams entry) source }"

definition isSelectableUpstreamValue :: "SyncValue option \<Rightarrow> bool" where
  "isSelectableUpstreamValue v \<longleftrightarrow> v \<noteq> Some VNull \<and> v \<noteq> None \<and> v \<noteq> Some (VStr (js ''same''))"

definition getPreferredSyncField :: "RatioTypes \<Rightarrow> RatioType \<Rightarrow> jsstr \<Rightarrow> RatioType" where
  "getPreferredSyncField ratioTypes ratioType source =
     (let exprValue = upstreamValue ratioTypes R_EXPR source in
      if ratioType \<noteq> R_EXPR \<and> exprValue \<noteq> Some VNull \<and> exprValue \<noteq> None \<and> exprValue \<noteq> Some (VStr (js ''same''))
      then R_EXPR else ratioType)"

definition getVisibleRatioTypesForSource :: "RatioTypes \<Rightarrow> jsstr \<Rightarrow> jsstr option \<Rightarrow> RatioType list" where
  "getVisibleRatioTypesForSource ratioTypes source flt =
     filter (\<lambda>rt. getPreferredSyncField ratioTypes rt source = rt) (getOrderedRatioTypes ratioTypes flt)"

definition getAlignedRatioTypes :: "RatioTypes \<Rightarrow> jsstr list \<Rightarrow> jsstr option \<Rightarrow> RatioType list" where
  "getAlignedRatioTypes ratioTypes sources flt =
     (let ordered = getOrderedRatioTypes ratioTypes flt in
      if length sources = 0 then ordered
      else let visible = concat (map (\<lambda>s. getVisibleRatioTypesForSource ratioTypes s flt) sources) in
        filter (\<lambda>rt. rt \<in> set visible) ordered)"

datatype BillingCategory = Price | Ratio | Tiered

definition getBillingCategory :: "jsstr \<Rightarrow> BillingCategory" where
  "getBillingCategory ratioType =
     (if ratioType = js ''model_price'' then Price
      else if ratioType = js ''billing_mode'' \<or> ratioType = js ''billing_expr'' then Tiered else Ratio)"

subsection \<open>Selections\<close>

definition toNumber :: "(jsstr \<Rightarrow> jsnum option) \<Rightarrow> SyncValue \<Rightarrow> jsnum option" where
  "toNumber num v = (case v of VNull \<Rightarrow> Some 0 | VNum n \<Rightarrow> Some n | VStr s \<Rightarrow> num s)"

definition isSelectedResolutionValue ::
  "(jsstr \<Rightarrow> jsnum option) \<Rightarrow> ResolutionsMap \<Rightarrow> jsstr \<Rightarrow> RatioType \<Rightarrow> SyncValue option \<Rightarrow> bool" where
  "isSelectedResolutionValue num resolutions model ratioType upstream =
     (if \<not> isSelectableUpstreamValue upstream then False
      else case do { r \<leftarrow> omap_get resolutions model; omap_get r ratioType } of
          None \<Rightarrow> False
        | Some selected \<Rightarrow>
            if ratioType \<in> set NUMERIC_SYNC_FIELDS
            then (case (toNumber num selected, toNumber num (the upstream)) of
                (Some a, Some b) \<Rightarrow> a = b
              | _ \<Rightarrow> False)
            else Some selected = upstream)"

definition getDraftModelResolution :: "ResolutionsMap \<Rightarrow> ResolutionsMap \<Rightarrow> jsstr \<Rightarrow> ModelResolution" where
  "getDraftModelResolution drafts resolutions model =
     (case omap_get drafts model of Some draft \<Rightarrow> draft | None \<Rightarrow> nullish (omap_get resolutions model) [])"

definition resolveResolutionSelection :: "DifferencesMap \<Rightarrow> ResolutionSelection \<Rightarrow> ResolutionSelection" where
  "resolveResolutionSelection differences s =
     (let modelDiffs = nullish (omap_get differences (sel_model s)) [];
          preferredType = getPreferredSyncField modelDiffs (sel_ratioType s) (sel_sourceName s);
          preferredValue = (if preferredType = sel_ratioType s then sel_value s
            else case upstreamValue modelDiffs preferredType (sel_sourceName s) of
                None \<Rightarrow> sel_value s
              | Some v \<Rightarrow> if v = VNull then sel_value s else v) in
      s\<lparr>sel_ratioType := preferredType, sel_value := preferredValue\<rparr>)"

text \<open>The resolution of a model after a selection. The function repeats the text of
  \<open>resolveResolutionSelection\<close> for the final type and value.\<close>

definition selectInDraft :: "DifferencesMap \<Rightarrow> ResolutionSelection \<Rightarrow> ModelResolution \<Rightarrow> ModelResolution" where
  "selectInDraft differences s draft =
     (let r = resolveResolutionSelection differences s;
          finalType = sel_ratioType r;
          category = getBillingCategory finalType;
          kept = filter (\<lambda>e. \<not> (category \<noteq> Tiered \<and> getBillingCategory (fst e) \<noteq> Tiered \<and>
            getBillingCategory (fst e) \<noteq> category)) draft;
          chosen = omap_set kept finalType (sel_value r) in
      case omap_get differences (sel_model s) of
        None \<Rightarrow> chosen
      | Some modelDiffs \<Rightarrow>
          if category = Tiered then
            (let modeVal = upstreamValue modelDiffs R_MODE (sel_sourceName s);
                 exprVal = upstreamValue modelDiffs R_EXPR (sel_sourceName s);
                 withMode = (if isSelectableUpstreamValue modeVal then omap_set chosen R_MODE (the modeVal)
                   else if finalType = R_EXPR then omap_set chosen R_MODE (VStr (js ''tiered_expr'')) else chosen) in
             if isSelectableUpstreamValue exprVal then omap_set withMode R_EXPR (the exprVal) else withMode)
          else chosen)"

definition applyResolutionSelectionToDraft ::
  "ResolutionsMap \<Rightarrow> DifferencesMap \<Rightarrow> ResolutionsMap \<Rightarrow> ResolutionSelection \<Rightarrow> ResolutionsMap" where
  "applyResolutionSelectionToDraft resolutions differences drafts s =
     omap_set drafts (sel_model s)
       (selectInDraft differences s (getDraftModelResolution drafts resolutions (sel_model s)))"

text \<open>Writing a draft back: an empty one removes the model.\<close>

definition writeDraft :: "ResolutionsMap \<Rightarrow> jsstr \<times> ModelResolution \<Rightarrow> ResolutionsMap" where
  "writeDraft next_m entry = (if length (snd entry) = 0 then omap_delete next_m (fst entry)
     else omap_set next_m (fst entry) (snd entry))"

definition applyResolutionSelections ::
  "ResolutionsMap \<Rightarrow> DifferencesMap \<Rightarrow> ResolutionSelection list \<Rightarrow> ResolutionsMap" where
  "applyResolutionSelections resolutions differences selections =
     (if length selections = 0 then resolutions
      else foldl writeDraft resolutions
        (foldl (applyResolutionSelectionToDraft resolutions differences) [] selections))"

definition applyResolutionSelection ::
  "ResolutionsMap \<Rightarrow> DifferencesMap \<Rightarrow> ResolutionSelection \<Rightarrow> ResolutionsMap" where
  "applyResolutionSelection resolutions differences s = applyResolutionSelections resolutions differences [s]"

text \<open>The map of effective selections is keyed by the model, a separator unit and the type.\<close>

definition effectiveKey :: "ResolutionSelection \<Rightarrow> jsstr" where
  "effectiveKey s = sel_model s @ [0] @ sel_ratioType s"

definition effectiveStep ::
  "DifferencesMap \<Rightarrow> (jsstr, ResolutionSelection) omap \<Rightarrow> ResolutionSelection \<Rightarrow> (jsstr, ResolutionSelection) omap" where
  "effectiveStep differences m s =
     (let resolved = resolveResolutionSelection differences s;
          category = getBillingCategory (sel_ratioType resolved);
          kept = (if category \<noteq> Tiered then
            filter (\<lambda>(key, existing). \<not> (sel_model existing = sel_model resolved \<and>
              getBillingCategory (sel_ratioType existing) \<noteq> Tiered \<and>
              getBillingCategory (sel_ratioType existing) \<noteq> category)) m
            else m) in
      omap_set kept (effectiveKey resolved) resolved)"

definition getEffectiveResolutionSelections ::
  "DifferencesMap \<Rightarrow> ResolutionSelection list \<Rightarrow> ResolutionSelection list" where
  "getEffectiveResolutionSelections differences selections =
     omap_values (foldl (effectiveStep differences) [] selections)"

subsection \<open>Removals\<close>

definition removeField :: "ModelResolution \<Rightarrow> RatioType \<Rightarrow> ModelResolution" where
  "removeField draft rt =
     (let d1 = omap_delete draft rt;
          d2 = (if rt = R_EXPR then omap_delete d1 R_MODE else d1) in
      if rt = R_MODE then omap_delete d2 R_EXPR else d2)"

definition applyResolutionRemovalPlan :: "ResolutionsMap \<Rightarrow> ResolutionRemovalPlan \<Rightarrow> ResolutionsMap" where
  "applyResolutionRemovalPlan resolutions plan =
     (if length plan = 0 then resolutions
      else foldl (\<lambda>next_m (model, ratioTypes). case omap_get resolutions model of
          None \<Rightarrow> next_m
        | Some cur \<Rightarrow> writeDraft next_m (model, foldl removeField cur ratioTypes)) resolutions plan)"

definition planStep :: "ResolutionRemovalPlan \<Rightarrow> ResolutionRemoval \<Rightarrow> ResolutionRemovalPlan" where
  "planStep plan r = (case omap_get plan (rem_model r) of
      Some ratioTypes \<Rightarrow> omap_set plan (rem_model r)
        (if rem_ratioType r \<in> set ratioTypes then ratioTypes else ratioTypes @ [rem_ratioType r])
    | None \<Rightarrow> omap_set plan (rem_model r) [rem_ratioType r])"

definition applyResolutionRemovals :: "ResolutionsMap \<Rightarrow> ResolutionRemoval list \<Rightarrow> ResolutionsMap" where
  "applyResolutionRemovals resolutions removals =
     (if length removals = 0 then resolutions
      else applyResolutionRemovalPlan resolutions (foldl planStep [] removals))"

definition deleteResolutionField :: "ResolutionsMap \<Rightarrow> jsstr \<Rightarrow> RatioType \<Rightarrow> ResolutionsMap" where
  "deleteResolutionField resolutions model ratioType =
     applyResolutionRemovals resolutions [\<lparr>rem_model = model, rem_ratioType = ratioType\<rparr>]"

subsection \<open>The table and its bulk selection\<close>

definition OFFICIAL_CHANNEL_ID :: int where "OFFICIAL_CHANNEL_ID = - 100"

definition OFFICIAL_CHANNEL_NAME :: jsstr where
  "OFFICIAL_CHANNEL_NAME = [0x5b98, 0x65b9, 0x500d, 0x7387, 0x9884, 0x8bbe]"

definition MODELS_DEV_PRESET_ID :: int where "MODELS_DEV_PRESET_ID = - 101"

definition MODELS_DEV_PRESET_NAME :: jsstr where
  "MODELS_DEV_PRESET_NAME = js ''models.dev '' @ [0x4ef7, 0x683c, 0x9884, 0x8bbe]"

definition getUpstreamDisplayName :: "jsstr \<Rightarrow> jsstr" where
  "getUpstreamDisplayName source =
     (case find (\<lambda>(name, i). source = name @ js ''('' @ show_int i @ js '')'')
         [(OFFICIAL_CHANNEL_NAME, OFFICIAL_CHANNEL_ID), (MODELS_DEV_PRESET_NAME, MODELS_DEV_PRESET_ID)] of
        Some preset \<Rightarrow> fst preset
      | None \<Rightarrow> source)"

record ModelRow =
  row_key :: jsstr
  row_model :: jsstr
  row_ratioTypes :: RatioTypes
  row_billingConflict :: bool

definition dataSource :: "DifferencesMap \<Rightarrow> ModelRow list" where
  "dataSource differences = map (\<lambda>(model, ratioTypes).
     \<lparr>row_key = model, row_model = model, row_ratioTypes = ratioTypes,
      row_billingConflict = (js ''model_price'' \<in> set (omap_keys ratioTypes) \<and>
        list_ex (\<lambda>rt. rt \<in> set (omap_keys ratioTypes)) RATIO_SYNC_FIELDS)\<rparr>) differences"

text \<open>\<open>lower\<close> stands for \<open>toLowerCase\<close>; the filter is empty, \<open>__all__\<close> or a type.\<close>

record TableFilter =
  search :: jsstr
  ratioTypeFilter :: jsstr

definition filteredData :: "(jsstr \<Rightarrow> jsstr) \<Rightarrow> TableFilter \<Rightarrow> DifferencesMap \<Rightarrow> ModelRow list" where
  "filteredData lower flt differences =
     (let rows = (if trim (search flt) \<noteq> [] then
            filter (\<lambda>row. js_includes (lower (row_model row)) (lower (search flt))) (dataSource differences)
          else dataSource differences) in
      if ratioTypeFilter flt \<noteq> [] \<and> ratioTypeFilter flt \<noteq> js ''__all__''
      then filter (\<lambda>row. ratioTypeFilter flt \<in> set (omap_keys (row_ratioTypes row))) rows else rows)"

definition upstreamNames :: "(jsstr \<Rightarrow> jsstr) \<Rightarrow> TableFilter \<Rightarrow> DifferencesMap \<Rightarrow> jsstr list" where
  "upstreamNames lower flt differences = dedupe (concat (map (\<lambda>row. concat (map (\<lambda>rt.
     case omap_get (row_ratioTypes row) rt of None \<Rightarrow> [] | Some e \<Rightarrow> omap_keys (upstreams e))
     (getOrderedRatioTypes (row_ratioTypes row) (Some (ratioTypeFilter flt))))) (filteredData lower flt differences)))"

text \<open>The selections that the rows offer for an upstream, before they are made effective.\<close>

definition rowSelections :: "TableFilter \<Rightarrow> jsstr \<Rightarrow> ModelRow \<Rightarrow> ResolutionSelection list" where
  "rowSelections flt upstreamName row = concat (map (\<lambda>rt.
     let upstreamVal = upstreamValue (row_ratioTypes row) rt upstreamName in
     if isSelectableUpstreamValue upstreamVal
     then [\<lparr>sel_model = row_model row, sel_ratioType = rt, sel_value = the upstreamVal, sel_sourceName = upstreamName\<rparr>]
     else []) (getAlignedRatioTypes (row_ratioTypes row) [upstreamName] (Some (ratioTypeFilter flt))))"

definition offeredSelections :: "(jsstr \<Rightarrow> jsstr) \<Rightarrow> TableFilter \<Rightarrow> DifferencesMap \<Rightarrow> jsstr \<Rightarrow> ResolutionSelection list" where
  "offeredSelections lower flt differences upstreamName =
     concat (map (rowSelections flt upstreamName) (filteredData lower flt differences))"

record UpstreamBulkSelectState =
  displayName :: jsstr
  selections :: "ResolutionSelection list"
  removalPlan :: ResolutionRemovalPlan
  selectableCount :: nat
  selectedCount :: nat

definition bulkSelectState :: "(jsstr \<Rightarrow> jsnum option) \<Rightarrow> (jsstr \<Rightarrow> jsstr) \<Rightarrow> TableFilter \<Rightarrow> DifferencesMap \<Rightarrow>
    ResolutionsMap \<Rightarrow> jsstr \<Rightarrow> UpstreamBulkSelectState" where
  "bulkSelectState num lower flt differences resolutions upstreamName =
     (let offers = offeredSelections lower flt differences upstreamName;
          effective = getEffectiveResolutionSelections differences offers in
      \<lparr>displayName = getUpstreamDisplayName upstreamName,
       selections = effective,
       removalPlan = foldl planStep [] (map (\<lambda>s. \<lparr>rem_model = sel_model s, rem_ratioType = sel_ratioType s\<rparr>) offers),
       selectableCount = length effective,
       selectedCount = length (filter (\<lambda>s. isSelectedResolutionValue num resolutions (sel_model s) (sel_ratioType s)
         (Some (sel_value s))) effective)\<rparr>)"

subsection \<open>Writing the settings\<close>

text \<open>The names of sync fields are ASCII.\<close>

definition capitalize :: "jsstr \<Rightarrow> jsstr" where
  "capitalize w = (case w of [] \<Rightarrow> [] | c # cs \<Rightarrow> (if 97 \<le> c \<and> c \<le> 122 then c - 32 else c) # cs)"

definition optionKeyBySyncField :: "RatioType \<Rightarrow> jsstr" where
  "optionKeyBySyncField ratioType =
     (if ratioType = js ''billing_mode'' then js ''billing_setting.billing_mode''
      else if ratioType = js ''billing_expr'' then js ''billing_setting.billing_expr''
      else concat (map capitalize (split_on (jsc CHR ''_'') ratioType)))"

type_synonym Ratios = "(jsstr, (jsstr, SyncValue) omap) omap"

definition RATIO_OPTION_KEYS :: "jsstr list" where
  "RATIO_OPTION_KEYS = [js ''ModelRatio'', js ''CompletionRatio'', js ''CacheRatio'', js ''CreateCacheRatio'',
     js ''ImageRatio'', js ''AudioRatio'', js ''AudioCompletionRatio'']"

definition OPTION_KEYS :: "jsstr list" where
  "OPTION_KEYS = RATIO_OPTION_KEYS @ [js ''ModelPrice'', js ''billing_setting.billing_mode'', js ''billing_setting.billing_expr'']"

definition ratioEntry :: "Ratios \<Rightarrow> jsstr \<Rightarrow> jsstr \<Rightarrow> SyncValue option" where
  "ratioEntry rs key model = do { m \<leftarrow> omap_get rs key; omap_get m model }"

definition deleteRatio :: "jsstr \<Rightarrow> Ratios \<Rightarrow> jsstr \<Rightarrow> Ratios" where
  "deleteRatio model rs key = (case omap_get rs key of None \<Rightarrow> rs | Some m \<Rightarrow> omap_set rs key (omap_delete m model))"

text \<open>\<open>Number(value)\<close> of a numeric field; \<open>JSON.stringify\<close> writes a number that is not finite as \<open>null\<close>.\<close>

definition syncedValue :: "(jsstr \<Rightarrow> jsnum option) \<Rightarrow> RatioType \<Rightarrow> SyncValue \<Rightarrow> SyncValue" where
  "syncedValue num ratioType v = (if ratioType \<in> set NUMERIC_SYNC_FIELDS
     then (case toNumber num v of Some n \<Rightarrow> VNum n | None \<Rightarrow> VNull) else v)"

text \<open>\<open>None\<close> where the option key is not a key of the settings and the assignment raises.\<close>

definition writeRatio :: "(jsstr \<Rightarrow> jsnum option) \<Rightarrow> jsstr \<Rightarrow> Ratios option \<Rightarrow> RatioType \<times> SyncValue \<Rightarrow> Ratios option" where
  "writeRatio num model acc entry = do {
     rs \<leftarrow> acc;
     m \<leftarrow> omap_get rs (optionKeyBySyncField (fst entry));
     Some (omap_set rs (optionKeyBySyncField (fst entry)) (omap_set m model (syncedValue num (fst entry) (snd entry)))) }"

definition syncModel :: "(jsstr \<Rightarrow> jsnum option) \<Rightarrow> Ratios option \<Rightarrow> jsstr \<times> ModelResolution \<Rightarrow> Ratios option" where
  "syncModel num acc entry = do {
     rs \<leftarrow> acc;
     let model = fst entry;
     let selectedTypes = omap_keys (snd entry);
     let hasPrice = (js ''model_price'' \<in> set selectedTypes);
     let hasRatio = list_ex (\<lambda>rt. rt \<in> set RATIO_SYNC_FIELDS) selectedTypes;
     let rs1 = (if hasPrice then foldl (deleteRatio model) rs RATIO_OPTION_KEYS else rs);
     let rs2 = (if hasRatio then deleteRatio model rs1 (js ''ModelPrice'') else rs1);
     foldl (writeRatio num model) (Some rs2) (snd entry) }"

text \<open>\<open>performSync\<close> up to the request: the settings that are sent.\<close>

definition performSync :: "(jsstr \<Rightarrow> jsnum option) \<Rightarrow> ResolutionsMap \<Rightarrow> Ratios \<Rightarrow> Ratios option" where
  "performSync num resolutions currentRatios =
     foldl (syncModel num) (Some (map (\<lambda>key. (key, nullish (omap_get currentRatios key) [])) OPTION_KEYS)) resolutions"

definition getLocalBillingCategory :: "jsstr \<Rightarrow> Ratios \<Rightarrow> BillingCategory option" where
  "getLocalBillingCategory model rs =
     (if ratioEntry rs (js ''ModelPrice'') model \<noteq> None then Some Price
      else if list_ex (\<lambda>key. ratioEntry rs key model \<noteq> None) RATIO_OPTION_KEYS then Some Ratio
      else None)"

definition newCategory :: "ModelResolution \<Rightarrow> BillingCategory" where
  "newCategory ratios =
     (if omap_get ratios (js ''model_price'') \<noteq> None then Price
      else if list_ex (\<lambda>rt. rt \<in> set (omap_keys ratios)) RATIO_SYNC_FIELDS then Ratio else Tiered)"

definition findSourceChannel :: "DifferencesMap \<Rightarrow> jsstr \<Rightarrow> RatioType \<Rightarrow> SyncValue \<Rightarrow> jsstr" where
  "findSourceChannel differences model ratioType v =
     (case do { d \<leftarrow> omap_get differences model; omap_get d ratioType } of
        None \<Rightarrow> js ''Unknown''
      | Some e \<Rightarrow> (case find (\<lambda>u. snd u = v) (upstreams e) of None \<Rightarrow> js ''Unknown'' | Some u \<Rightarrow> fst u))"

record ConflictItem =
  conflict_channel :: jsstr
  conflict_model :: jsstr
  conflict_current :: jsstr
  conflict_newVal :: jsstr

text \<open>\<open>shw\<close> renders a value in a template literal; labels are their keys.\<close>

definition shownOr :: "(SyncValue \<Rightarrow> jsstr) \<Rightarrow> SyncValue option \<Rightarrow> jsstr" where
  "shownOr shw v = (case v of None \<Rightarrow> js ''-'' | Some x \<Rightarrow> if x = VNull then js ''-'' else shw x)"

definition ratioDescription :: "(SyncValue \<Rightarrow> jsstr) \<Rightarrow> SyncValue option \<Rightarrow> SyncValue option \<Rightarrow> jsstr" where
  "ratioDescription shw a b = js ''Model ratio: '' @ shownOr shw a @ [10] @ js ''Completion ratio: '' @ shownOr shw b"

definition priceDescription :: "(SyncValue \<Rightarrow> jsstr) \<Rightarrow> SyncValue option \<Rightarrow> jsstr" where
  "priceDescription shw v = js ''Fixed price: '' @ (case v of None \<Rightarrow> js ''undefined'' | Some x \<Rightarrow> shw x)"

definition conflictOf ::
  "(SyncValue \<Rightarrow> jsstr) \<Rightarrow> DifferencesMap \<Rightarrow> Ratios \<Rightarrow> jsstr \<times> ModelResolution \<Rightarrow> ConflictItem option" where
  "conflictOf shw differences rs entry =
     (let model = fst entry; ratios = snd entry; newCat = newCategory ratios in
      case getLocalBillingCategory model rs of
        None \<Rightarrow> None
      | Some localCat \<Rightarrow>
          if newCat \<noteq> Tiered \<and> localCat \<noteq> newCat then Some
            \<lparr>conflict_channel = join (js '', '') (dedupe (map (\<lambda>e. findSourceChannel differences model (fst e) (snd e)) ratios)),
             conflict_model = model,
             conflict_current = (if localCat = Price then priceDescription shw (ratioEntry rs (js ''ModelPrice'') model)
               else ratioDescription shw (ratioEntry rs (js ''ModelRatio'') model) (ratioEntry rs (js ''CompletionRatio'') model)),
             conflict_newVal = (if newCat = Price then priceDescription shw (omap_get ratios (js ''model_price''))
               else ratioDescription shw (omap_get ratios (js ''model_ratio'')) (omap_get ratios (js ''completion_ratio'')))\<rparr>
          else None)"

definition applySyncConflicts ::
  "(SyncValue \<Rightarrow> jsstr) \<Rightarrow> DifferencesMap \<Rightarrow> Ratios \<Rightarrow> ResolutionsMap \<Rightarrow> ConflictItem list" where
  "applySyncConflicts shw differences rs resolutions = List.map_filter (conflictOf shw differences rs) resolutions"

subsection \<open>State\<close>

record SyncState =
  differences :: DifferencesMap
  resolutions :: ResolutionsMap
  conflictItems :: "ConflictItem list"
  conflictDialogOpen :: bool

text \<open>After a successful synchronization the synchronized differences are dropped.\<close>

definition dropSynced :: "DifferencesMap \<Rightarrow> jsstr \<times> RatioType \<Rightarrow> DifferencesMap" where
  "dropSynced ds entry = (case omap_get ds (fst entry) of
      None \<Rightarrow> ds
    | Some d \<Rightarrow>
        if omap_get d (snd entry) = None then ds
        else let d' = omap_delete d (snd entry) in
          if length d' = 0 then omap_delete ds (fst entry) else omap_set ds (fst entry) d')"

definition syncSucceeded :: "SyncState \<Rightarrow> SyncState" where
  "syncSucceeded s = s\<lparr>differences := foldl dropSynced (differences s)
       (concat (map (\<lambda>(model, ratios). map (\<lambda>rt. (model, rt)) (omap_keys ratios)) (resolutions s))),
     resolutions := []\<rparr>"

datatype SyncEvent =
    Fetched DifferencesMap
  | SelectValue ResolutionSelection
  | SelectValues "ResolutionSelection list"
  | UnselectValue jsstr RatioType
  | UnselectValues ResolutionRemovalPlan
  | ApplySync Ratios
  | SyncSucceeded
  | ConfirmConflict Ratios
  | ConfirmFinished bool

text \<open>The handlers; the result says which settings are sent.\<close>

fun syncHandle ::
  "(jsstr \<Rightarrow> jsnum option) \<Rightarrow> (SyncValue \<Rightarrow> jsstr) \<Rightarrow> SyncEvent \<Rightarrow> SyncState \<Rightarrow> SyncState \<times> Ratios option" where
  "syncHandle num shw (Fetched ds) s = (s\<lparr>differences := ds, resolutions := []\<rparr>, None)"
| "syncHandle num shw (SelectValue sel) s =
     (s\<lparr>resolutions := applyResolutionSelection (resolutions s) (differences s) sel\<rparr>, None)"
| "syncHandle num shw (SelectValues sels) s =
     (if length sels = 0 then s
      else s\<lparr>resolutions := applyResolutionSelections (resolutions s) (differences s) sels\<rparr>, None)"
| "syncHandle num shw (UnselectValue model rt) s = (s\<lparr>resolutions := deleteResolutionField (resolutions s) model rt\<rparr>, None)"
| "syncHandle num shw (UnselectValues plan) s =
     (if length plan = 0 then s else s\<lparr>resolutions := applyResolutionRemovalPlan (resolutions s) plan\<rparr>, None)"
| "syncHandle num shw (ApplySync rs) s =
     (let conflicts = applySyncConflicts shw (differences s) rs (resolutions s) in
      if length conflicts > 0 then (s\<lparr>conflictItems := conflicts, conflictDialogOpen := True\<rparr>, None)
      else (s, performSync num (resolutions s) rs))"
| "syncHandle num shw SyncSucceeded s = (syncSucceeded s, None)"
| "syncHandle num shw (ConfirmConflict rs) s = (s, performSync num (resolutions s) rs)"
| "syncHandle num shw (ConfirmFinished ok) s = (if ok then s\<lparr>conflictDialogOpen := False\<rparr> else s, None)"

end
