(* ===== verification/RatioSyncProperties.thy ===== *)
theory RatioSyncProperties
  imports RatioSync
begin

text \<open>
  Properties of the synchronization of prices: selecting many values is selecting them one by one, what
  resolutions keep, what the table offers, and that a bulk selection selects it.
\<close>

section \<open>Selecting one by one\<close>

abbreviation put :: "('k, 'v) omap \<Rightarrow> 'k \<times> 'v \<Rightarrow> ('k, 'v) omap" where
  "put m e \<equiv> omap_set m (fst e) (snd e)"

lemma omap_set_set: "omap_set (omap_set m k v) k w = omap_set m k w"
  by (induction m) auto

lemma omap_set_commute:
  "k \<in> set (omap_keys m) \<Longrightarrow> k \<noteq> j \<Longrightarrow> omap_set (omap_set m j v) k w = omap_set (omap_set m k w) j v"
proof (induction m)
  case (Cons e m)
  then show ?case by (cases e; cases "k \<in> set (omap_keys m)") auto
qed simp

lemma put_all_set:
  "k \<in> set (omap_keys m) \<Longrightarrow> k \<notin> set (omap_keys es) \<Longrightarrow> omap_set (foldl put m es) k w = foldl put (omap_set m k w) es"
proof (induction es arbitrary: m)
  case (Cons e es)
  then have "k \<in> set (omap_keys (put m e))" "k \<noteq> fst e" by (auto simp: omap_keys_set)
  then show ?case using Cons by (simp add: omap_set_commute)
qed simp

lemma put_all_replace: "omap_wf es \<Longrightarrow> foldl put m (omap_set es k w) = omap_set (foldl put m es) k w"
proof (induction es arbitrary: m)
  case (Cons e es)
  show ?case
  proof (cases "fst e = k")
    case True
    have "k \<in> set (omap_keys (put m e))" "k \<notin> set (omap_keys es)"
      using Cons.prems True by (auto simp: omap_keys_set omap_wf_def)
    from put_all_set [OF this] show ?thesis using True by (cases e) (simp add: omap_set_set)
  next
    case False
    then show ?thesis using Cons by (cases e) (simp add: omap_wf_def)
  qed
qed simp

lemma omap_set_ne: "omap_set m k v \<noteq> []"
  by (cases m) (auto split: if_splits)

lemma selectInDraft_ne: "selectInDraft d s draft \<noteq> []"
  by (simp add: selectInDraft_def Let_def omap_set_ne split: option.split)

abbreviation draftsOf :: "ResolutionsMap \<Rightarrow> DifferencesMap \<Rightarrow> ResolutionSelection list \<Rightarrow> ResolutionsMap" where
  "draftsOf r d sels \<equiv> foldl (applyResolutionSelectionToDraft r d) [] sels"

lemma omap_set_member: "e \<in> set (omap_set m k v) \<Longrightarrow> e = (k, v) \<or> e \<in> set m"
  by (induction m) (auto split: if_splits)

lemma drafts_inv: "omap_wf (draftsOf r d sels) \<and> (\<forall>e\<in>set (draftsOf r d sels). snd e \<noteq> [])"
proof (induction sels rule: rev_induct)
  case (snoc s sels)
  then show ?case
    by (auto simp: applyResolutionSelectionToDraft_def omap_wf_def omap_keys_set selectInDraft_ne dest!: omap_set_member)
qed (simp add: omap_wf_def)

lemma writeDraft_all:
  "\<forall>e\<in>set es. snd e \<noteq> [] \<Longrightarrow> foldl writeDraft m es = foldl put m es"
  by (induction es arbitrary: m) (auto simp: writeDraft_def)

lemma selections_put: "applyResolutionSelections r d sels = foldl put r (draftsOf r d sels)"
  using drafts_inv by (auto simp: applyResolutionSelections_def writeDraft_all)

lemma selection_single:
  "applyResolutionSelection r d s = omap_set r (sel_model s) (selectInDraft d s (nullish (omap_get r (sel_model s)) []))"
  by (simp add: applyResolutionSelection_def selections_put applyResolutionSelectionToDraft_def
      getDraftModelResolution_def omap_get_def)

lemma draft_value:
  "getDraftModelResolution (draftsOf r d sels) r m = nullish (omap_get (foldl put r (draftsOf r d sels)) m) []"
proof -
  have "distinct (map fst (draftsOf r d sels))" using drafts_inv by (simp add: omap_wf_def)
  from omap_get_put_all [OF this, of "\<lambda>v. v" r m] show ?thesis
    by (simp add: getDraftModelResolution_def case_prod_beta' omap_get_def nullish_def split: option.split)
qed

lemma selections_fold:
  "applyResolutionSelections r d sels = foldl (\<lambda>acc s. applyResolutionSelection acc d s) r sels"
proof (induction sels rule: rev_induct)
  case (snoc s sels)
  have "applyResolutionSelections r d (sels @ [s]) = omap_set (foldl put r (draftsOf r d sels)) (sel_model s)
      (selectInDraft d s (getDraftModelResolution (draftsOf r d sels) r (sel_model s)))"
    using drafts_inv [of r d sels] by (simp add: selections_put applyResolutionSelectionToDraft_def put_all_replace)
  also have "\<dots> = applyResolutionSelection (applyResolutionSelections r d sels) d s"
    by (simp add: selection_single draft_value selections_put)
  finally show ?case by (simp add: snoc)
qed (simp add: applyResolutionSelections_def)

section \<open>What resolutions keep\<close>

definition unmixed :: "ModelResolution \<Rightarrow> bool" where
  "unmixed r \<longleftrightarrow> \<not> (\<exists>a\<in>set (omap_keys r). \<exists>b\<in>set (omap_keys r). getBillingCategory a = Price \<and> getBillingCategory b = Ratio)"

definition resolutionOk :: "ModelResolution \<Rightarrow> bool" where
  "resolutionOk r \<longleftrightarrow> omap_wf r \<and> r \<noteq> [] \<and> unmixed r"

definition resolutionsOk :: "ResolutionsMap \<Rightarrow> bool" where
  "resolutionsOk res \<longleftrightarrow> omap_wf res \<and> (\<forall>e\<in>set res. resolutionOk (snd e))"

lemma category_simps [simp]:
  "getBillingCategory R_PRICE = Price" "getBillingCategory R_MODE = Tiered" "getBillingCategory R_EXPR = Tiered"
  by (simp_all add: getBillingCategory_def R_PRICE_def R_MODE_def R_EXPR_def)

lemma omap_wf_set: "omap_wf m \<Longrightarrow> omap_wf (omap_set m k v)"
  by (rule om.wf_set)

lemma unmixed_tiered: "getBillingCategory k = Tiered \<Longrightarrow> unmixed (omap_set r k v) \<longleftrightarrow> unmixed r"
  by (auto simp: unmixed_def omap_keys_set)

lemma category_cases: "getBillingCategory a = Price \<or> getBillingCategory a = Ratio \<or> getBillingCategory a = Tiered"
  by (cases "getBillingCategory a") auto

lemma unmixed_chosen:
  assumes "unmixed r"
  shows "unmixed (omap_set (filter (\<lambda>e. \<not> (getBillingCategory t \<noteq> Tiered \<and> getBillingCategory (fst e) \<noteq> Tiered \<and>
    getBillingCategory (fst e) \<noteq> getBillingCategory t)) r) t v)"
  using assms category_cases [of t] by (auto simp: unmixed_def omap_keys_set)

definition good :: "ModelResolution \<Rightarrow> bool" where
  "good m \<longleftrightarrow> omap_wf m \<and> unmixed m"

lemma selectInDraft_ok:
  assumes "omap_wf r" "unmixed r"
  shows "resolutionOk (selectInDraft d s r)"
proof -
  let ?t = "sel_ratioType (resolveResolutionSelection d s)"
  let ?kept = "filter (\<lambda>e. \<not> (getBillingCategory ?t \<noteq> Tiered \<and> getBillingCategory (fst e) \<noteq> Tiered \<and>
    getBillingCategory (fst e) \<noteq> getBillingCategory ?t)) r"
  let ?c = "omap_set ?kept ?t (sel_value (resolveResolutionSelection d s))"
  have "omap_wf ?kept" using assms(1) by (simp add: omap_wf_def distinct_map_filter)
  then have "omap_wf ?c \<and> unmixed ?c" by (intro conjI omap_wf_set unmixed_chosen [OF assms(2)])
  then have c: "good ?c" by (simp add: good_def)
  have step: "good m \<Longrightarrow> getBillingCategory k = Tiered \<Longrightarrow> good (omap_set m k v)" for m k v
    by (simp add: good_def omap_wf_set unmixed_tiered)
  have "good (selectInDraft d s r)"
    using c unfolding selectInDraft_def Let_def
    by (cases "omap_get d (sel_model s)"; cases "getBillingCategory ?t = Tiered") (simp_all add: step assms good_def [of r])
  then show ?thesis using selectInDraft_ne unfolding resolutionOk_def good_def by blast
qed

lemma resolutionsOk_get: "resolutionsOk res \<Longrightarrow> omap_get res m = Some r \<Longrightarrow> resolutionOk r"
  unfolding resolutionsOk_def omap_get_def by (metis map_of_SomeD snd_conv)

lemma selection_ok:
  assumes "resolutionsOk res"
  shows "resolutionsOk (applyResolutionSelection res d s)"
proof -
  let ?r = "nullish (omap_get res (sel_model s)) []"
  have "omap_wf ?r \<and> unmixed ?r"
  proof (cases "omap_get res (sel_model s)")
    case (Some r)
    then show ?thesis using resolutionsOk_get [OF assms Some] by (simp add: nullish_def resolutionOk_def)
  qed (simp add: nullish_def omap_wf_def unmixed_def)
  then show ?thesis using assms selectInDraft_ok
    by (auto simp: selection_single resolutionsOk_def omap_wf_set dest!: omap_set_member)
qed

lemma selections_ok: "resolutionsOk res \<Longrightarrow> resolutionsOk (applyResolutionSelections res d sels)"
  unfolding selections_fold by (induction sels arbitrary: res) (simp_all add: selection_ok)

lemma delete_ok: "omap_wf r \<and> unmixed r \<Longrightarrow> omap_wf (omap_delete r k) \<and> unmixed (omap_delete r k)"
  by (auto simp: omap_wf_def omap_delete_def unmixed_def distinct_map_filter)

lemma removeField_ok: "omap_wf r \<and> unmixed r \<Longrightarrow> omap_wf (removeField r t) \<and> unmixed (removeField r t)"
  unfolding removeField_def Let_def by (simp add: delete_ok)

lemma removeFields_ok: "omap_wf r \<and> unmixed r \<Longrightarrow> omap_wf (foldl removeField r ts) \<and> unmixed (foldl removeField r ts)"
  by (induction ts arbitrary: r) (simp_all add: removeField_ok)

lemma writeDraft_ok:
  "resolutionsOk res \<Longrightarrow> omap_wf (snd e) \<and> unmixed (snd e) \<Longrightarrow> resolutionsOk (writeDraft res e)"
  by (auto simp: writeDraft_def resolutionsOk_def resolutionOk_def omap_wf_set omap_delete_def dest!: omap_set_member)
    (simp_all add: omap_wf_def distinct_map_filter)

lemma removals_ok:
  assumes "resolutionsOk res"
  shows "resolutionsOk (applyResolutionRemovalPlan res plan)"
proof -
  have "resolutionsOk (foldl (\<lambda>next_m (model, ratioTypes). case omap_get res model of
      None \<Rightarrow> next_m | Some cur \<Rightarrow> writeDraft next_m (model, foldl removeField cur ratioTypes)) acc plan)"
    if "resolutionsOk acc" for acc
    using that
  proof (induction plan arbitrary: acc)
    case (Cons e plan)
    have "omap_wf cur \<and> unmixed cur" if "omap_get res (fst e) = Some cur" for cur
      using resolutionsOk_get [OF assms that] by (simp add: resolutionOk_def)
    then show ?case using Cons removeFields_ok by (cases e) (auto intro!: Cons.IH writeDraft_ok split: option.split)
  qed simp
  then show ?thesis using assms by (simp add: applyResolutionRemovalPlan_def)
qed

inductive syncReachable :: "(jsstr \<Rightarrow> jsnum option) \<Rightarrow> (SyncValue \<Rightarrow> jsstr) \<Rightarrow> SyncState \<Rightarrow> bool" for num shw where
  mounted: "syncReachable num shw \<lparr>differences = [], resolutions = [], conflictItems = [], conflictDialogOpen = False\<rparr>"
| event: "syncReachable num shw s \<Longrightarrow> syncReachable num shw (fst (syncHandle num shw ev s))"

lemma syncHandle_ok: "resolutionsOk (resolutions s) \<Longrightarrow> resolutionsOk (resolutions (fst (syncHandle num shw ev s)))"
  by (cases ev) (auto simp: selection_ok selections_ok removals_ok deleteResolutionField_def applyResolutionRemovals_def
    syncSucceeded_def Let_def, simp_all add: resolutionsOk_def omap_wf_def)

lemma syncReachable_ok: "syncReachable num shw s \<Longrightarrow> resolutionsOk (resolutions s)"
  by (induction rule: syncReachable.induct) (simp_all add: syncHandle_ok, simp add: resolutionsOk_def omap_wf_def)

section \<open>Selecting all values of a source\<close>

abbreviation diffsOf :: "DifferencesMap \<Rightarrow> jsstr \<Rightarrow> RatioTypes" where
  "diffsOf d m \<equiv> nullish (omap_get d m) []"

text \<open>A selection of the value that a source has for a field.\<close>

definition fromSource :: "DifferencesMap \<Rightarrow> jsstr \<Rightarrow> ResolutionSelection \<Rightarrow> bool" where
  "fromSource d u s \<longleftrightarrow> sel_sourceName s = u \<and>
     upstreamValue (diffsOf d (sel_model s)) (sel_ratioType s) u = Some (sel_value s) \<and>
     isSelectableUpstreamValue (Some (sel_value s))"

lemma preferred_iff:
  "getPreferredSyncField rts t u = (if isSelectableUpstreamValue (upstreamValue rts R_EXPR u) then R_EXPR else t)"
  by (auto simp: getPreferredSyncField_def isSelectableUpstreamValue_def Let_def)

lemma resolve_model [simp]:
  "sel_model (resolveResolutionSelection d s) = sel_model s" "sel_sourceName (resolveResolutionSelection d s) = sel_sourceName s"
  by (simp_all add: resolveResolutionSelection_def Let_def)

lemma resolve_type:
  "sel_ratioType (resolveResolutionSelection d s) = getPreferredSyncField (diffsOf d (sel_model s)) (sel_ratioType s) (sel_sourceName s)"
  by (simp add: resolveResolutionSelection_def Let_def)

lemma resolve_fromSource:
  assumes "fromSource d u s"
  shows "fromSource d u (resolveResolutionSelection d s)"
proof -
  let ?v = "upstreamValue (diffsOf d (sel_model s)) R_EXPR u"
  show ?thesis
  proof (cases "isSelectableUpstreamValue ?v \<and> sel_ratioType s \<noteq> R_EXPR")
    case True
    then obtain v where v: "?v = Some v" "v \<noteq> VNull" by (auto simp: isSelectableUpstreamValue_def)
    then show ?thesis using True assms
      by (auto simp: fromSource_def resolveResolutionSelection_def preferred_iff Let_def)
  next
    case False
    then have "getPreferredSyncField (diffsOf d (sel_model s)) (sel_ratioType s) (sel_sourceName s) = sel_ratioType s"
      using assms by (auto simp: preferred_iff fromSource_def)
    then show ?thesis using assms by (simp add: fromSource_def resolveResolutionSelection_def Let_def)
  qed
qed

lemma resolve_idem: "resolveResolutionSelection d (resolveResolutionSelection d s) = resolveResolutionSelection d s"
proof -
  have "getPreferredSyncField rts (getPreferredSyncField rts t u) u = getPreferredSyncField rts t u" for rts t u
    by (simp add: preferred_iff)
  then show ?thesis
    unfolding resolveResolutionSelection_def [of d "resolveResolutionSelection d s"] by (simp add: resolve_type Let_def)
qed

text \<open>What selecting a resolved value does to the fields of its model: its own field gets the value, and
  fields that do not compete with it keep theirs.\<close>

definition resolvedFrom :: "DifferencesMap \<Rightarrow> jsstr \<Rightarrow> ResolutionSelection \<Rightarrow> bool" where
  "resolvedFrom d u e \<longleftrightarrow> fromSource d u e \<and> resolveResolutionSelection d e = e"

lemma resolvedFrom_expr:
  assumes "resolvedFrom d u e" "isSelectableUpstreamValue (upstreamValue (diffsOf d (sel_model e)) R_EXPR u)"
  shows "sel_ratioType e = R_EXPR"
  using assms resolve_type [of d e] by (simp add: resolvedFrom_def preferred_iff fromSource_def)

lemma tiered_type: "getBillingCategory t = Tiered \<Longrightarrow> t = R_MODE \<or> t = R_EXPR"
  by (auto simp: getBillingCategory_def R_MODE_def R_EXPR_def split: if_splits)

lemma mode_neq_expr [simp]: "R_MODE \<noteq> R_EXPR" "R_EXPR \<noteq> R_MODE"
  by (simp_all add: R_MODE_def R_EXPR_def)

lemma select_own:
  assumes "resolvedFrom d u e"
  shows "omap_get (selectInDraft d e r) (sel_ratioType e) = Some (sel_value e)"
proof -
  have e: "resolveResolutionSelection d e = e" "sel_sourceName e = u"
      "upstreamValue (diffsOf d (sel_model e)) (sel_ratioType e) u = Some (sel_value e)"
      "isSelectableUpstreamValue (Some (sel_value e))"
    using assms by (auto simp: resolvedFrom_def fromSource_def)
  then obtain rts where rts: "omap_get d (sel_model e) = Some rts"
    by (cases "omap_get d (sel_model e)") (auto simp: nullish_def upstreamValue_def omap_get_def)
  show ?thesis
  proof (cases "getBillingCategory (sel_ratioType e) = Tiered")
    case False
    then show ?thesis using e rts by (simp add: selectInDraft_def Let_def omap_get_set)
  next
    case True
    then have "sel_ratioType e = R_MODE \<or> sel_ratioType e = R_EXPR" by (rule tiered_type)
    then show ?thesis
      using e rts resolvedFrom_expr [OF assms] True by (auto simp: selectInDraft_def Let_def omap_get_set nullish_def)
  qed
qed

lemma get_filter: "P (k, the (omap_get r k)) \<Longrightarrow> omap_wf r \<Longrightarrow> omap_get (filter P r) k = omap_get r k"
  unfolding omap_get_def omap_wf_def by (induction r) (auto simp: map_of_eq_None_iff dest: map_of_SomeD split: if_splits)

lemma select_other:
  assumes "resolvedFrom d u e" "omap_wf r" "t \<noteq> sel_ratioType e"
    and "getBillingCategory t = Tiered \<Longrightarrow> getBillingCategory (sel_ratioType e) = Tiered \<Longrightarrow> False"
    and "getBillingCategory t = Tiered \<or> getBillingCategory (sel_ratioType e) = Tiered \<or>
      getBillingCategory t = getBillingCategory (sel_ratioType e)"
  shows "omap_get (selectInDraft d e r) t = omap_get r t"
proof -
  let ?kept = "filter (\<lambda>x. \<not> (getBillingCategory (sel_ratioType e) \<noteq> Tiered \<and> getBillingCategory (fst x) \<noteq> Tiered \<and>
    getBillingCategory (fst x) \<noteq> getBillingCategory (sel_ratioType e))) r"
  have e: "resolveResolutionSelection d e = e" using assms(1) by (simp add: resolvedFrom_def)
  have kept: "omap_get ?kept t = omap_get r t" using assms(2,5) by (intro get_filter) auto
  have "getBillingCategory (sel_ratioType e) = Tiered \<Longrightarrow> t \<noteq> R_MODE \<and> t \<noteq> R_EXPR" using assms(4) by auto
  then show ?thesis using kept assms(3) unfolding selectInDraft_def e Let_def
    by (auto simp: omap_get_set split: option.split)
qed

text \<open>Selections that can be made one after the other without undoing each other.\<close>

definition coexist :: "ResolutionSelection \<Rightarrow> ResolutionSelection \<Rightarrow> bool" where
  "coexist e f \<longleftrightarrow> (sel_model e = sel_model f \<longrightarrow> sel_ratioType e \<noteq> sel_ratioType f \<and>
     (getBillingCategory (sel_ratioType e) = Tiered \<or> getBillingCategory (sel_ratioType f) = Tiered \<or>
      getBillingCategory (sel_ratioType e) = getBillingCategory (sel_ratioType f)))"

lemma tiered_alone:
  assumes "resolvedFrom d u e" "resolvedFrom d u f" "sel_model e = sel_model f" "sel_ratioType e \<noteq> sel_ratioType f"
    and "getBillingCategory (sel_ratioType e) = Tiered" "getBillingCategory (sel_ratioType f) = Tiered"
  shows False
proof -
  have "sel_ratioType e = R_EXPR \<or> sel_ratioType f = R_EXPR" using assms(4) tiered_type [OF assms(5)] tiered_type [OF assms(6)] by auto
  then have "isSelectableUpstreamValue (upstreamValue (diffsOf d (sel_model e)) R_EXPR u)"
    using assms(1-3) by (auto simp: resolvedFrom_def fromSource_def)
  then show False using resolvedFrom_expr [OF assms(1)] resolvedFrom_expr [OF assms(2)] assms(3,4) by simp
qed

abbreviation chosen :: "ResolutionsMap \<Rightarrow> jsstr \<Rightarrow> RatioType \<Rightarrow> SyncValue option" where
  "chosen res m t \<equiv> Option.bind (omap_get res m) (\<lambda>r. omap_get r t)"

lemma select_all:
  assumes "resolutionsOk res" "\<forall>e\<in>set es. resolvedFrom d u e" "sorted_wrt coexist es"
  shows "\<forall>e\<in>set es. chosen (applyResolutionSelections res d es) (sel_model e) (sel_ratioType e) = Some (sel_value e)"
  using assms(2,3)
proof (induction es rule: rev_induct)
  case (snoc f es)
  let ?res = "applyResolutionSelections res d es"
  have ok: "resolutionsOk ?res" using assms(1) by (rule selections_ok)
  have step: "applyResolutionSelections res d (es @ [f]) = applyResolutionSelection ?res d f" by (simp add: selections_fold)
  have f: "resolvedFrom d u f" using snoc.prems by simp
  have "chosen (applyResolutionSelection ?res d f) (sel_model e) (sel_ratioType e) = Some (sel_value e)" if "e \<in> set es" for e
  proof (cases "sel_model e = sel_model f")
    case True
    have e: "resolvedFrom d u e" "coexist e f" using snoc.prems that by (auto simp: sorted_wrt_append)
    have "chosen ?res (sel_model e) (sel_ratioType e) = Some (sel_value e)"
      using snoc that by (simp add: sorted_wrt_append)
    then obtain r where r: "omap_get ?res (sel_model f) = Some r" "omap_get r (sel_ratioType e) = Some (sel_value e)"
      unfolding True by (auto simp: bind_eq_Some_conv)
    have "omap_get (selectInDraft d f r) (sel_ratioType e) = omap_get r (sel_ratioType e)"
    proof (rule select_other [OF f])
      show "omap_wf r" using resolutionsOk_get [OF ok r(1)] by (simp add: resolutionOk_def)
    qed (use e True tiered_alone [OF e(1) f True] in \<open>auto simp: coexist_def\<close>)
    then show ?thesis using r True by (simp add: selection_single omap_get_set nullish_def)
  next
    case False
    then show ?thesis using snoc that by (simp add: selection_single omap_get_set sorted_wrt_append)
  qed
  moreover have "chosen (applyResolutionSelection ?res d f) (sel_model f) (sel_ratioType f) = Some (sel_value f)"
    using select_own [OF f] by (simp add: selection_single omap_get_set)
  ultimately show ?case by (simp add: step)
qed simp

text \<open>The effective selections: resolved, one per model and type, and able to coexist.\<close>

definition effectiveInv :: "DifferencesMap \<Rightarrow> jsstr \<Rightarrow> (jsstr, ResolutionSelection) omap \<Rightarrow> bool" where
  "effectiveInv d u m \<longleftrightarrow> omap_wf m \<and> (\<forall>x\<in>set m. fst x = effectiveKey (snd x) \<and> resolvedFrom d u (snd x)) \<and>
     (\<forall>x\<in>set m. \<forall>y\<in>set m. x \<noteq> y \<longrightarrow> coexist (snd x) (snd y))"

lemma coexist_sym: "coexist e f \<longleftrightarrow> coexist f e"
  by (auto simp: coexist_def)

lemma set_omap_set: "omap_wf m \<Longrightarrow> set (omap_set m k v) = insert (k, v) {x \<in> set m. fst x \<noteq> k}"
proof (induction m)
  case (Cons e m)
  then show ?case by (cases e) (force simp: omap_wf_def)
qed simp

lemma effectiveStep_inv:
  assumes "effectiveInv d u m" "fromSource d u s"
  shows "effectiveInv d u (effectiveStep d m s)"
proof -
  let ?e = "resolveResolutionSelection d s"
  let ?cat = "getBillingCategory (sel_ratioType ?e)"
  let ?kept = "if ?cat \<noteq> Tiered then filter (\<lambda>(key, x). \<not> (sel_model x = sel_model ?e \<and>
    getBillingCategory (sel_ratioType x) \<noteq> Tiered \<and> getBillingCategory (sel_ratioType x) \<noteq> ?cat)) m else m"
  define e where "e = ?e"
  define kept where "kept = ?kept"
  have e: "resolvedFrom d u e" using resolve_fromSource [OF assms(2)] by (simp add: resolvedFrom_def resolve_idem e_def)
  have wf: "omap_wf kept" using assms(1) by (simp add: kept_def effectiveInv_def omap_wf_def distinct_map_filter)
  have sub: "set kept \<subseteq> set m" by (auto simp: kept_def)
  then have old: "\<forall>x\<in>set kept. fst x = effectiveKey (snd x) \<and> resolvedFrom d u (snd x)"
      "\<forall>x\<in>set kept. \<forall>y\<in>set kept. x \<noteq> y \<longrightarrow> coexist (snd x) (snd y)"
    using assms(1) unfolding effectiveInv_def by blast+
  have step: "effectiveStep d m s = omap_set kept (effectiveKey e) e"
    by (simp add: effectiveStep_def Let_def kept_def e_def)
  have new: "coexist (snd x) e" if "x \<in> set kept" "fst x \<noteq> effectiveKey e" for x
  proof -
    have "sel_model (snd x) \<noteq> sel_model e \<or> sel_ratioType (snd x) \<noteq> sel_ratioType e"
      using that old(1) by (auto simp: effectiveKey_def)
    then show ?thesis using that(1) by (auto simp: kept_def e_def coexist_def split: if_splits)
  qed
  let ?n = "(effectiveKey e, e)"
  have "fst x = effectiveKey (snd x) \<and> resolvedFrom d u (snd x)" if "x = ?n \<or> x \<in> set kept" for x
    using that e old(1) by auto
  moreover have "coexist (snd x) (snd y)"
    if "x = ?n \<or> x \<in> set kept \<and> fst x \<noteq> fst ?n" "y = ?n \<or> y \<in> set kept \<and> fst y \<noteq> fst ?n" "x \<noteq> y" for x y
    using that new [of x] iffD1 [OF coexist_sym new [of y]] old(2) by (cases "x = ?n"; cases "y = ?n") simp_all
  ultimately show ?thesis
    using omap_wf_set [OF wf] e unfolding effectiveInv_def step set_omap_set [OF wf] by simp
qed

lemma effective_inv: "\<forall>s\<in>set sels. fromSource d u s \<Longrightarrow> effectiveInv d u (foldl (effectiveStep d) [] sels)"
proof (induction sels rule: rev_induct)
  case (snoc s sels)
  then show ?case using effectiveStep_inv by simp
qed (simp add: effectiveInv_def omap_wf_def)

lemma effective_selections:
  assumes "\<forall>s\<in>set sels. fromSource d u s"
  shows "(\<forall>e\<in>set (getEffectiveResolutionSelections d sels). resolvedFrom d u e) \<and>
    sorted_wrt coexist (getEffectiveResolutionSelections d sels)"
proof -
  let ?m = "foldl (effectiveStep d) [] sels"
  have inv: "effectiveInv d u ?m" using assms by (rule effective_inv)
  then have "distinct ?m" by (auto simp: effectiveInv_def omap_wf_def distinct_map)
  then have "sorted_wrt (\<lambda>x y. coexist (snd x) (snd y)) ?m"
    using inv by (auto simp: effectiveInv_def sorted_wrt_iff_nth_less nth_eq_iff_index_eq)
  then show ?thesis using inv by (auto simp: getEffectiveResolutionSelections_def sorted_wrt_map effectiveInv_def)
qed

text \<open>An effective selection of a numeric field is one of the selections.\<close>

lemma effective_origin:
  "e \<in> set (getEffectiveResolutionSelections d sels) \<Longrightarrow> \<exists>s\<in>set sels. e = resolveResolutionSelection d s"
proof -
  have "\<forall>x\<in>set (foldl (effectiveStep d) [] sels). \<exists>s\<in>set sels. snd x = resolveResolutionSelection d s"
  proof (induction sels rule: rev_induct)
    case (snoc s sels)
    then show ?case by (auto simp: effectiveStep_def Let_def dest!: omap_set_member split: if_splits)
  qed simp
  then show "e \<in> set (getEffectiveResolutionSelections d sels) \<Longrightarrow> \<exists>s\<in>set sels. e = resolveResolutionSelection d s"
    by (auto simp: getEffectiveResolutionSelections_def)
qed

lemma expr_not_numeric: "R_EXPR \<notin> set NUMERIC_SYNC_FIELDS"
  by (simp add: R_EXPR_def NUMERIC_SYNC_FIELDS_def RATIO_SYNC_FIELDS_def)

lemma resolve_numeric:
  assumes "sel_ratioType (resolveResolutionSelection d s) \<in> set NUMERIC_SYNC_FIELDS"
  shows "resolveResolutionSelection d s = s"
proof -
  have "sel_ratioType (resolveResolutionSelection d s) \<noteq> R_EXPR" using assms expr_not_numeric by metis
  then have "getPreferredSyncField (diffsOf d (sel_model s)) (sel_ratioType s) (sel_sourceName s) = sel_ratioType s"
    by (auto simp: resolve_type preferred_iff split: if_splits)
  then show ?thesis by (simp add: resolveResolutionSelection_def Let_def)
qed

section \<open>Bulk selection in the table\<close>

lemma filteredData_sub: "set (filteredData lower flt d) \<subseteq> set (dataSource d)"
  by (auto simp: filteredData_def Let_def split: if_splits)

lemma row_diffs: "omap_wf d \<Longrightarrow> row \<in> set (dataSource d) \<Longrightarrow> diffsOf d (row_model row) = row_ratioTypes row"
  by (auto simp: dataSource_def omap_wf_def omap_get_def nullish_def)

lemma offered_from:
  assumes "omap_wf d" "s \<in> set (offeredSelections lower flt d u)"
  shows "fromSource d u s \<and> resolveResolutionSelection d s = s"
proof -
  obtain row rt where row: "row \<in> set (dataSource d)" "rt \<in> set (getAlignedRatioTypes (row_ratioTypes row) [u] (Some (ratioTypeFilter flt)))"
      "isSelectableUpstreamValue (upstreamValue (row_ratioTypes row) rt u)"
      "s = \<lparr>sel_model = row_model row, sel_ratioType = rt, sel_value = the (upstreamValue (row_ratioTypes row) rt u), sel_sourceName = u\<rparr>"
    using assms(2) filteredData_sub [of lower flt d]
    by (auto simp: offeredSelections_def rowSelections_def Let_def split: if_splits)
  have "getPreferredSyncField (row_ratioTypes row) rt u = rt"
    using row(2) by (auto simp: getAlignedRatioTypes_def getVisibleRatioTypesForSource_def Let_def)
  moreover obtain v where "upstreamValue (row_ratioTypes row) rt u = Some v"
    using row(3) by (auto simp: isSelectableUpstreamValue_def)
  ultimately show ?thesis
    using row(3,4) row_diffs [OF assms(1) row(1)] by (simp add: fromSource_def resolveResolutionSelection_def Let_def)
qed

lemma planStep_get:
  "omap_wf plan \<Longrightarrow> omap_wf (planStep plan r) \<and>
    set (nullish (omap_get (planStep plan r) m) []) =
      set (nullish (omap_get plan m) []) \<union> (if m = rem_model r then {rem_ratioType r} else {})"
  by (auto simp: planStep_def omap_wf_set omap_get_set nullish_def split: option.split)

lemma plan_get:
  "omap_wf plan \<Longrightarrow> omap_wf (foldl planStep plan rs) \<and>
    set (nullish (omap_get (foldl planStep plan rs) m) []) =
      set (nullish (omap_get plan m) []) \<union> {rem_ratioType r |r. r \<in> set rs \<and> rem_model r = m}"
proof (induction rs arbitrary: plan)
  case (Cons r rs)
  from planStep_get [OF Cons.prems, of r m] Cons.IH [of "planStep plan r"] show ?case by auto
qed simp

lemma omap_get_delete: "omap_get (omap_delete m k) j = (if j = k then None else omap_get m j)"
  unfolding omap_get_def omap_delete_def by (induction m) auto

lemma removeField_get: "omap_get r t = None \<or> t = rt \<Longrightarrow> omap_get (removeField r rt) t = None"
  by (auto simp: removeField_def Let_def omap_get_delete)

lemma removeFields_get: "omap_get r t = None \<or> t \<in> set ts \<Longrightarrow> omap_get (foldl removeField r ts) t = None"
  by (induction ts arbitrary: r) (auto simp: removeField_get)

abbreviation planWrite :: "ResolutionsMap \<Rightarrow> ResolutionsMap \<Rightarrow> jsstr \<times> RatioType list \<Rightarrow> ResolutionsMap" where
  "planWrite res next_m e \<equiv> (case omap_get res (fst e) of
      None \<Rightarrow> next_m | Some cur \<Rightarrow> writeDraft next_m (fst e, foldl removeField cur (snd e)))"

lemma writeDraft_get:
  "omap_get (writeDraft m e) k = (if k = fst e then (if snd e = [] then None else Some (snd e)) else omap_get m k)"
  by (simp add: writeDraft_def omap_get_set omap_get_delete)

lemma removal_chosen:
  assumes "omap_wf plan" "t \<in> set (nullish (omap_get plan m) [])"
  shows "chosen (applyResolutionRemovalPlan res plan) m t = None"
proof -
  have keep: "chosen (foldl (planWrite res) acc es) m t = None"
    if "m \<notin> set (omap_keys es)" "chosen acc m t = None" for acc es
    using that by (induction es arbitrary: acc) (auto simp: writeDraft_get split: option.split)
  have main: "chosen (foldl (planWrite res) acc es) m t = None"
    if "omap_wf es" "t \<in> set (nullish (omap_get es m) [])" "omap_get acc m = omap_get res m" for acc es
    using that
  proof (induction es arbitrary: acc)
    case (Cons e es)
    show ?case
    proof (cases "fst e = m")
      case True
      then have "t \<in> set (snd e)" "m \<notin> set (omap_keys es)"
        using Cons.prems by (cases e; auto simp: omap_get_def nullish_def omap_wf_def)+
      then have "chosen (planWrite res acc e) m t = None"
        using True removeFields_get [of _ t "snd e"] Cons.prems(3) by (auto simp: writeDraft_get split: option.split)
      then show ?thesis using keep [of es] \<open>m \<notin> set (omap_keys es)\<close> by simp
    next
      case False
      then have "omap_get (planWrite res acc e) m = omap_get res m" using Cons.prems(3) by (auto simp: writeDraft_get split: option.split)
      moreover have "t \<in> set (nullish (omap_get es m) [])" "omap_wf es"
        using Cons.prems False by (cases e; auto simp: omap_get_def omap_wf_def)+
      ultimately show ?thesis using Cons.IH by simp
    qed
  qed (simp add: nullish_def omap_get_def)
  have "plan \<noteq> []" using assms(2) by (auto simp: nullish_def omap_get_def)
  then have "applyResolutionRemovalPlan res plan = foldl (planWrite res) res plan"
    by (simp add: applyResolutionRemovalPlan_def case_prod_beta')
  then show ?thesis using main [OF assms refl] by simp
qed

text \<open>What the table offers, said of the fetched differences: the row of a model is shown when the search matches,
  and it offers the value a source has for a field when the value is given and differs from the current one,
  the filter of types admits the field, and the source has no expression of its own that stands for all fields.\<close>

definition shownRow :: "(jsstr \<Rightarrow> jsstr) \<Rightarrow> TableFilter \<Rightarrow> jsstr \<Rightarrow> bool" where
  "shownRow lower flt m \<longleftrightarrow> trim (search flt) = [] \<or> js_includes (lower m) (lower (search flt))"

definition offeredValue :: "TableFilter \<Rightarrow> RatioTypes \<Rightarrow> jsstr \<Rightarrow> RatioType \<Rightarrow> SyncValue \<Rightarrow> bool" where
  "offeredValue flt rts u rt v \<longleftrightarrow> upstreamValue rts rt u = Some v \<and> v \<notin> {VNull, VStr (js ''same'')} \<and>
     ratioTypeFilter flt \<in> {[], js ''__all__'', rt} \<and>
     (rt = js ''billing_expr'' \<or>
      upstreamValue rts (js ''billing_expr'') u \<in> {None, Some VNull, Some (VStr (js ''same''))})"

lemma ordered_set:
  "rt \<in> set (getOrderedRatioTypes rts (Some f)) \<longleftrightarrow> rt \<in> set (omap_keys rts) \<and> f \<in> {[], js ''__all__'', rt}"
  by (auto simp: getOrderedRatioTypes_def Let_def)

lemma upstream_key: "upstreamValue rts rt u = Some v \<Longrightarrow> rt \<in> set (omap_keys rts)"
  by (force simp: upstreamValue_def omap_get_def bind_eq_Some_conv dest: map_of_SomeD)

lemma aligned_set:
  "rt \<in> set (getAlignedRatioTypes rts [u] (Some f)) \<longleftrightarrow> rt \<in> set (omap_keys rts) \<and> f \<in> {[], js ''__all__'', rt} \<and>
     (rt = js ''billing_expr'' \<or>
      upstreamValue rts (js ''billing_expr'') u \<in> {None, Some VNull, Some (VStr (js ''same''))})"
  unfolding getAlignedRatioTypes_def getVisibleRatioTypesForSource_def
  by (auto simp: ordered_set preferred_iff isSelectableUpstreamValue_def R_EXPR_def)

lemma row_offers:
  "s \<in> set (rowSelections flt u row) \<longleftrightarrow> sel_model s = row_model row \<and> sel_sourceName s = u \<and>
     offeredValue flt (row_ratioTypes row) u (sel_ratioType s) (sel_value s)"
proof -
  let ?rts = "row_ratioTypes row"
  have "s \<in> set (rowSelections flt u row) \<longleftrightarrow>
      (\<exists>rt v. s = \<lparr>sel_model = row_model row, sel_ratioType = rt, sel_value = v, sel_sourceName = u\<rparr> \<and>
        rt \<in> set (getAlignedRatioTypes ?rts [u] (Some (ratioTypeFilter flt))) \<and> upstreamValue ?rts rt u = Some v \<and>
        v \<notin> {VNull, VStr (js ''same'')})"
    by (force simp: rowSelections_def isSelectableUpstreamValue_def Let_def split: if_splits)
  also have "\<dots> \<longleftrightarrow> (\<exists>rt v. s = \<lparr>sel_model = row_model row, sel_ratioType = rt, sel_value = v, sel_sourceName = u\<rparr> \<and>
        offeredValue flt ?rts u rt v)"
    unfolding aligned_set offeredValue_def using upstream_key by blast
  also have "\<dots> \<longleftrightarrow> sel_model s = row_model row \<and> sel_sourceName s = u \<and> offeredValue flt ?rts u (sel_ratioType s) (sel_value s)"
    by (cases s) auto
  finally show ?thesis .
qed

lemma filtered_rows:
  "row \<in> set (filteredData lower flt d) \<longleftrightarrow> row \<in> set (dataSource d) \<and> shownRow lower flt (row_model row) \<and>
     (ratioTypeFilter flt \<in> {[], js ''__all__''} \<or> ratioTypeFilter flt \<in> set (omap_keys (row_ratioTypes row)))"
  by (auto simp: filteredData_def shownRow_def Let_def)

lemma offers_iff:
  "s \<in> set (offeredSelections lower flt d u) \<longleftrightarrow> (\<exists>(m, rts)\<in>set d. sel_model s = m \<and> sel_sourceName s = u \<and>
     shownRow lower flt m \<and> offeredValue flt rts u (sel_ratioType s) (sel_value s))"
proof -
  have "s \<in> set (offeredSelections lower flt d u) \<longleftrightarrow> (\<exists>row\<in>set (filteredData lower flt d). s \<in> set (rowSelections flt u row))"
    by (simp add: offeredSelections_def)
  also have "\<dots> \<longleftrightarrow> (\<exists>row\<in>set (dataSource d). shownRow lower flt (row_model row) \<and> s \<in> set (rowSelections flt u row))"
  proof -
    have "ratioTypeFilter flt \<in> {[], js ''__all__''} \<or> ratioTypeFilter flt \<in> set (omap_keys (row_ratioTypes row))"
      if "s \<in> set (rowSelections flt u row)" for row
    proof -
      have "sel_ratioType s \<in> set (omap_keys (row_ratioTypes row))" "ratioTypeFilter flt \<in> {[], js ''__all__'', sel_ratioType s}"
        using that upstream_key [of "row_ratioTypes row" "sel_ratioType s" u] unfolding row_offers offeredValue_def by simp_all
      then show ?thesis unfolding insert_iff by metis
    qed
    then show ?thesis unfolding Bex_def filtered_rows by blast
  qed
  finally show ?thesis unfolding row_offers dataSource_def by (simp add: case_prod_beta') blast
qed

text \<open>The order of the fields puts the price after all ratios, so an offered price outlives them.\<close>

definition outlives :: "ResolutionSelection \<Rightarrow> ResolutionSelection \<Rightarrow> bool" where
  "outlives a b \<longleftrightarrow> effectiveKey a \<noteq> effectiveKey b \<and> (sel_model a = sel_model b \<longrightarrow>
     getBillingCategory (sel_ratioType a) = Price \<longrightarrow> getBillingCategory (sel_ratioType b) \<noteq> Ratio)"

definition knownTypes :: "DifferencesMap \<Rightarrow> bool" where
  "knownTypes d \<longleftrightarrow> (\<forall>e\<in>set d. set (omap_keys (snd e)) \<subseteq> set SYNC_FIELD_ORDER)"

lemma field_order:
  "sorted_wrt (\<lambda>a b. a \<noteq> b \<and> (getBillingCategory a = Price \<longrightarrow> getBillingCategory b \<noteq> Ratio)) SYNC_FIELD_ORDER"
  by (simp add: SYNC_FIELD_ORDER_def RATIO_SYNC_FIELDS_def getBillingCategory_def)

lemma append_sep_inj:
  "xs @ z # ys = xs' @ z # ys' \<Longrightarrow> z \<notin> set xs \<Longrightarrow> z \<notin> set xs' \<Longrightarrow> xs = xs' \<and> ys = ys'"
proof (induction xs arbitrary: xs')
  case Nil
  then show ?case by (cases xs') auto
next
  case (Cons x xs)
  then show ?case by (cases xs') auto
qed

lemma key_inj:
  assumes "effectiveKey a = effectiveKey b" "0 \<notin> set (sel_ratioType a)" "0 \<notin> set (sel_ratioType b)"
  shows "sel_model a = sel_model b \<and> sel_ratioType a = sel_ratioType b"
proof -
  have "rev (sel_ratioType a) @ [0] @ rev (sel_model a) = rev (sel_ratioType b) @ [0] @ rev (sel_model b)"
    using arg_cong [OF assms(1), of rev] by (simp add: effectiveKey_def)
  then have "rev (sel_ratioType a) @ 0 # rev (sel_model a) = rev (sel_ratioType b) @ 0 # rev (sel_model b)" by simp
  from append_sep_inj [OF this] assms(2,3) show ?thesis by simp
qed

lemma field_no_zero: "t \<in> set SYNC_FIELD_ORDER \<Longrightarrow> 0 \<notin> set t"
  by (auto simp: SYNC_FIELD_ORDER_def RATIO_SYNC_FIELDS_def js_def jsc_def)

lemma row_types_sorted:
  assumes "set (omap_keys rts) \<subseteq> set SYNC_FIELD_ORDER"
  shows "sorted_wrt (\<lambda>a b. a \<noteq> b \<and> (getBillingCategory a = Price \<longrightarrow> getBillingCategory b \<noteq> Ratio))
    (getAlignedRatioTypes rts [u] flt)"
proof -
  have "filter (\<lambda>f. f \<notin> set SYNC_FIELD_ORDER) (omap_keys rts) = []" using assms by (auto simp: filter_empty_conv)
  then show ?thesis using field_order
    by (auto simp: getAlignedRatioTypes_def getOrderedRatioTypes_def Let_def intro!: sorted_wrt_filter split: option.split)
qed

lemma sorted_wrt_concat_map:
  "\<forall>x\<in>set xs. sorted_wrt R (f x) \<Longrightarrow> sorted_wrt (\<lambda>x y. \<forall>a\<in>set (f x). \<forall>b\<in>set (f y). R a b) xs \<Longrightarrow>
     sorted_wrt R (concat (map f xs))"
  by (induction xs) (auto simp: sorted_wrt_append)

lemma row_selections_sorted:
  assumes "set (omap_keys (row_ratioTypes row)) \<subseteq> set SYNC_FIELD_ORDER"
  shows "sorted_wrt outlives (rowSelections flt u row)"
proof -
  let ?ts = "getAlignedRatioTypes (row_ratioTypes row) [u] (Some (ratioTypeFilter flt))"
  let ?f = "\<lambda>rt. let v = upstreamValue (row_ratioTypes row) rt u in if isSelectableUpstreamValue v
     then [\<lparr>sel_model = row_model row, sel_ratioType = rt, sel_value = the v, sel_sourceName = u\<rparr>] else []"
  have "sorted_wrt (\<lambda>x y. \<forall>a\<in>set (?f x). \<forall>b\<in>set (?f y). outlives a b) ?ts"
    by (rule sorted_wrt_mono_rel [OF _ row_types_sorted [OF assms]]) (auto simp: Let_def outlives_def effectiveKey_def)
  then show ?thesis unfolding rowSelections_def by (intro sorted_wrt_concat_map) (auto simp: Let_def)
qed

lemma offers_sorted:
  assumes "omap_wf d" "knownTypes d"
  shows "sorted_wrt outlives (offeredSelections lower flt d u)"
proof -
  have rows: "set (omap_keys (row_ratioTypes row)) \<subseteq> set SYNC_FIELD_ORDER" if "row \<in> set (dataSource d)" for row
  proof -
    obtain m where "(m, row_ratioTypes row) \<in> set d" using \<open>row \<in> _\<close> by (auto simp: dataSource_def)
    then show ?thesis using assms(2) unfolding knownTypes_def by (metis snd_conv)
  qed
  have known: "sel_model s = row_model row \<and> 0 \<notin> set (sel_ratioType s)"
    if "row \<in> set (dataSource d)" "s \<in> set (rowSelections flt u row)" for row s
  proof -
    have "sel_model s = row_model row" "upstreamValue (row_ratioTypes row) (sel_ratioType s) u = Some (sel_value s)"
      using that(2) by (simp_all add: row_offers offeredValue_def)
    then show ?thesis using field_no_zero [OF subsetD [OF rows [OF that(1)] upstream_key]] by blast
  qed
  have "sorted_wrt (\<lambda>x y. row_model x \<noteq> row_model y) (dataSource d)"
  proof -
    have "distinct (map row_model (dataSource d))"
      using assms(1) by (simp add: dataSource_def omap_wf_def comp_def case_prod_beta')
    then show ?thesis by (simp add: distinct_conv_nth sorted_wrt_iff_nth_less)
  qed
  then have "sorted_wrt (\<lambda>x y. row_model x \<noteq> row_model y) (filteredData lower flt d)"
    by (auto simp: filteredData_def Let_def intro!: sorted_wrt_filter)
  then have "sorted_wrt (\<lambda>x y. \<forall>a\<in>set (rowSelections flt u x). \<forall>b\<in>set (rowSelections flt u y). outlives a b) (filteredData lower flt d)"
  proof (rule sorted_wrt_mono_rel [rotated])
    fix x y
    assume xy: "x \<in> set (filteredData lower flt d)" "y \<in> set (filteredData lower flt d)" "row_model x \<noteq> row_model y"
    show "\<forall>a\<in>set (rowSelections flt u x). \<forall>b\<in>set (rowSelections flt u y). outlives a b"
    proof (intro ballI)
      fix a b
      assume ab: "a \<in> set (rowSelections flt u x)" "b \<in> set (rowSelections flt u y)"
      have "sel_model a \<noteq> sel_model b" "0 \<notin> set (sel_ratioType a)" "0 \<notin> set (sel_ratioType b)"
        using known [OF subsetD [OF filteredData_sub xy(1)] ab(1)] known [OF subsetD [OF filteredData_sub xy(2)] ab(2)] xy(3) by simp_all
      then show "outlives a b" using key_inj [of a b] unfolding outlives_def by blast
    qed
  qed
  moreover have "\<forall>x\<in>set (filteredData lower flt d). sorted_wrt outlives (rowSelections flt u x)"
    using row_selections_sorted [OF rows] filteredData_sub by blast
  ultimately show ?thesis unfolding offeredSelections_def by (rule sorted_wrt_concat_map [rotated])
qed

text \<open>A selection that no later one replaces or excludes is effective.\<close>

lemma omap_set_own: "(k, v) \<in> set (omap_set m k v)"
  by (induction m) auto

lemma omap_set_keeps: "(k, v) \<in> set m \<Longrightarrow> k \<noteq> j \<Longrightarrow> (k, v) \<in> set (omap_set m j w)"
  by (induction m) auto

definition excludes :: "ResolutionSelection \<Rightarrow> ResolutionSelection \<Rightarrow> bool" where
  "excludes f s \<longleftrightarrow> effectiveKey f = effectiveKey s \<or> \<not> coexist s f \<and> sel_ratioType s \<noteq> sel_ratioType f"

lemma effective_stays:
  assumes "\<forall>f\<in>set sels. resolveResolutionSelection d f = f"
    and "s \<in> set sels" "sorted_wrt (\<lambda>a b. a = s \<longrightarrow> \<not> excludes b s) sels"
  shows "s \<in> set (getEffectiveResolutionSelections d sels)"
proof -
  have "(effectiveKey s, s) \<in> set (foldl (effectiveStep d) [] sels)"
    using assms
  proof (induction sels rule: rev_induct)
    case (snoc f sels)
    then have f: "resolveResolutionSelection d f = f" by simp
    show ?case
    proof (cases "s = f")
      case True
      then show ?thesis by (simp add: effectiveStep_def f Let_def omap_set_own)
    next
      case False
      then have "s \<in> set sels" "\<not> excludes f s" using snoc.prems by (auto simp: sorted_wrt_append)
      then have "(effectiveKey s, s) \<in> set (foldl (effectiveStep d) [] sels)" using snoc by (auto simp: sorted_wrt_append)
      then show ?thesis using \<open>\<not> excludes f s\<close>
        by (auto simp: effectiveStep_def [of d _ f] f Let_def excludes_def coexist_def intro!: omap_set_keeps)
    qed
  qed simp
  then show ?thesis by (force simp: getEffectiveResolutionSelections_def)
qed

text \<open>Offered values that end up selected: all but the ratios of a model whose price is offered too.\<close>

lemma offer_effective:
  assumes "omap_wf d" "knownTypes d" "s \<in> set (offeredSelections lower flt d u)"
    and "getBillingCategory (sel_ratioType s) = Ratio \<Longrightarrow>
      \<forall>f\<in>set (offeredSelections lower flt d u). sel_model f = sel_model s \<longrightarrow> getBillingCategory (sel_ratioType f) \<noteq> Price"
  shows "s \<in> set (getEffectiveResolutionSelections d (offeredSelections lower flt d u))"
proof (rule effective_stays [OF _ assms(3)])
  show "\<forall>f\<in>set (offeredSelections lower flt d u). resolveResolutionSelection d f = f" using offered_from [OF assms(1)] by blast
  show "sorted_wrt (\<lambda>a b. a = s \<longrightarrow> \<not> excludes b s) (offeredSelections lower flt d u)"
  proof (rule sorted_wrt_mono_rel [OF _ offers_sorted [OF assms(1,2)]])
    fix a b
    assume "b \<in> set (offeredSelections lower flt d u)" "outlives a b"
    then show "a = s \<longrightarrow> \<not> excludes b s"
      using assms(4) category_cases [of "sel_ratioType s"] category_cases [of "sel_ratioType b"]
      by (auto simp: excludes_def outlives_def coexist_def)
  qed
qed

lemma bulk_selected:
  assumes "resolutionsOk res" "omap_wf d" "e \<in> set (getEffectiveResolutionSelections d (offeredSelections lower flt d u))"
  shows "chosen (applyResolutionSelections res d (getEffectiveResolutionSelections d (offeredSelections lower flt d u)))
    (sel_model e) (sel_ratioType e) = Some (sel_value e)"
proof -
  have "\<forall>s\<in>set (offeredSelections lower flt d u). fromSource d u s" using offered_from [OF assms(2)] by blast
  from effective_selections [OF this] select_all [OF assms(1)] assms(3) show ?thesis by blast
qed

lemma bulk_unselected:
  assumes "s \<in> set (offeredSelections lower flt d u)"
  shows "chosen (applyResolutionRemovalPlan res (removalPlan (bulkSelectState num lower flt d res' u)))
    (sel_model s) (sel_ratioType s) = None"
proof (rule removal_chosen)
  let ?rems = "map (\<lambda>s. \<lparr>rem_model = sel_model s, rem_ratioType = sel_ratioType s\<rparr>) (offeredSelections lower flt d u)"
  have plan: "removalPlan (bulkSelectState num lower flt d res' u) = foldl planStep [] ?rems"
    by (simp add: bulkSelectState_def Let_def)
  have "sel_ratioType s \<in> {rem_ratioType r |r. r \<in> set ?rems \<and> rem_model r = sel_model s}" using assms by force
  then show "omap_wf (removalPlan (bulkSelectState num lower flt d res' u))"
      "sel_ratioType s \<in> set (nullish (omap_get (removalPlan (bulkSelectState num lower flt d res' u)) (sel_model s)) [])"
    using plan_get [of "[]" ?rems "sel_model s"] unfolding plan by (simp_all add: omap_wf_def)
qed

lemma unmixed_ratio:
  assumes "resolutionsOk res" "chosen res m a = Some v" "getBillingCategory a = Price" "getBillingCategory b = Ratio"
  shows "chosen res m b = None"
proof (cases "omap_get res m")
  case (Some r)
  have keys: "omap_get r k = Some x \<Longrightarrow> k \<in> set (omap_keys r)" for k x
    by (force simp: omap_get_def dest: map_of_SomeD)
  have "unmixed r" using resolutionsOk_get [OF assms(1) Some] by (simp add: resolutionOk_def)
  then show ?thesis using assms(2-4) Some keys unfolding unmixed_def by (cases "omap_get r b") auto
qed simp

lemma bulk_counts:
  assumes "resolutionsOk res" "omap_wf d"
    and "\<forall>s\<in>set (offeredSelections lower flt d u).
      sel_ratioType s \<in> set NUMERIC_SYNC_FIELDS \<longrightarrow> toNumber num (sel_value s) \<noteq> None"
  shows "selectedCount (bulkSelectState num lower flt d (applyResolutionSelections res d
        (selections (bulkSelectState num lower flt d res u))) u) = selectableCount (bulkSelectState num lower flt d res u)"
    and "selectedCount (bulkSelectState num lower flt d (applyResolutionRemovalPlan res
        (removalPlan (bulkSelectState num lower flt d res u))) u) = 0"
proof -
  let ?es = "getEffectiveResolutionSelections d (offeredSelections lower flt d u)"
  have origin: "e \<in> set (offeredSelections lower flt d u)" if "e \<in> set ?es" for e
    using effective_origin [OF that] offered_from [OF assms(2)] by metis
  have "isSelectedResolutionValue num (applyResolutionSelections res d ?es) (sel_model e) (sel_ratioType e) (Some (sel_value e))"
    if e: "e \<in> set ?es" for e
  proof -
    have "isSelectableUpstreamValue (Some (sel_value e))" using offered_from [OF assms(2) origin [OF e]] by (simp add: fromSource_def)
    then show ?thesis using assms(3) origin [OF e]
      by (auto simp: isSelectedResolutionValue_def bulk_selected [OF assms(1,2) e] split: option.split)
  qed
  then show "selectedCount (bulkSelectState num lower flt d (applyResolutionSelections res d
      (selections (bulkSelectState num lower flt d res u))) u) = selectableCount (bulkSelectState num lower flt d res u)"
    by (simp add: bulkSelectState_def Let_def filter_id_conv)
  have "\<not> isSelectedResolutionValue num (applyResolutionRemovalPlan res (removalPlan (bulkSelectState num lower flt d res u)))
      (sel_model e) (sel_ratioType e) x" if "e \<in> set ?es" for e x
    using bulk_unselected [OF origin [OF that]] by (simp add: isSelectedResolutionValue_def)
  then show "selectedCount (bulkSelectState num lower flt d (applyResolutionRemovalPlan res
        (removalPlan (bulkSelectState num lower flt d res u))) u) = 0"
    unfolding bulkSelectState_def [of _ _ _ _ "applyResolutionRemovalPlan _ _"] by (simp add: Let_def filter_empty_conv)
qed

section \<open>Properties of selections\<close>

text \<open>Selecting a list of values at once gives the same resolutions as selecting them one by one.\<close>

theorem batch_is_sequence:
  "applyResolutionSelections r d sels = foldl (\<lambda>acc s. applyResolutionSelection acc d s) r sels"
  by (rule selections_fold)

text \<open>C27: In every state the price synchronization can reach, no model is resolved to a fixed price and to
  ratios at the same time, every resolved model has a value, and no model or field appears twice.\<close>

theorem resolutions_unmixed:
  assumes "syncReachable num shw s" "omap_get (resolutions s) m = Some r"
  shows "unmixed r \<and> r \<noteq> [] \<and> distinct (omap_keys r) \<and> distinct (omap_keys (resolutions s))"
  using syncReachable_ok [OF assms(1)] resolutionsOk_get [OF syncReachable_ok [OF assms(1)] assms(2)]
  by (simp add: resolutionOk_def resolutionsOk_def omap_wf_def)

theorem resolutions_unmixed_witness:
  "unmixed [(js ''model_price'', VNum 2)] \<and>
   syncReachable (\<lambda>_. None) (\<lambda>_. []) \<lparr>differences = [], resolutions = [(js ''m'', [(js ''model_price'', VNum 2)])],
     conflictItems = [], conflictDialogOpen = False\<rparr>"
proof -
  let ?sel = "\<lparr>sel_model = js ''m'', sel_ratioType = js ''model_price'', sel_value = VNum 2, sel_sourceName = js ''u''\<rparr>"
  let ?s = "\<lparr>differences = [], resolutions = [(js ''m'', [(js ''model_price'', VNum 2)])],
     conflictItems = [], conflictDialogOpen = False\<rparr> :: SyncState"
  have "syncReachable (\<lambda>_. None) (\<lambda>_. []) (fst (syncHandle (\<lambda>_. None) (\<lambda>_. []) (SelectValue ?sel)
      \<lparr>differences = [], resolutions = [], conflictItems = [], conflictDialogOpen = False\<rparr>))"
    by (rule event [OF mounted])
  then have r: "syncReachable (\<lambda>_. None) (\<lambda>_. []) ?s"
    by (simp add: selection_single selectInDraft_def resolveResolutionSelection_def Let_def omap_get_def nullish_def
      preferred_iff upstreamValue_def isSelectableUpstreamValue_def)
  then show ?thesis using resolutions_unmixed [OF r, of "js ''m''" "[(js ''model_price'', VNum 2)]"] by (simp add: omap_get_def)
qed

text \<open>C28: Selecting all values of an upstream in the table leaves every value it offers in the shown rows selected,
  except that of a model whose fixed price is offered only the price (and no ratio) is; the count of selected
  values reaches the count of selectable ones. Unselecting all leaves none of the offered values selected and the count at zero.
  The fields are those of the type \<open>RatioType\<close>, and numeric fields are assumed to have numeric values.\<close>

theorem bulk_select_complete:
  fixes num lower flt d res u
  defines "state \<equiv> bulkSelectState num lower flt d res u"
  defines "res' \<equiv> applyResolutionSelections res d (selections state)"
  defines "res'' \<equiv> applyResolutionRemovalPlan res (removalPlan state)"
  assumes "resolutionsOk res" "omap_wf d" "knownTypes d"
    and "\<forall>s\<in>set (offeredSelections lower flt d u).
      sel_ratioType s \<in> set NUMERIC_SYNC_FIELDS \<longrightarrow> toNumber num (sel_value s) \<noteq> None"
    and "(m, rts) \<in> set d" "shownRow lower flt m" "offeredValue flt rts u rt v"
  shows "chosen res' m rt =
      (if rt \<notin> {js ''model_price'', js ''billing_mode'', js ''billing_expr''} \<and> (\<exists>p. offeredValue flt rts u (js ''model_price'') p)
       then None else Some v) \<and>
    selectedCount (bulkSelectState num lower flt d res' u) = selectableCount state \<and>
    chosen res'' m rt = None \<and> selectedCount (bulkSelectState num lower flt d res'' u) = 0"
proof (intro conjI)
  let ?s = "\<lambda>rt v. \<lparr>sel_model = m, sel_ratioType = rt, sel_value = v, sel_sourceName = u\<rparr>"
  let ?offers = "offeredSelections lower flt d u"
  have offer: "?s t x \<in> set ?offers" if "offeredValue flt rts u t x" for t x
    using that assms(8,9) by (force simp: offers_iff)
  have only: "offeredValue flt rts u (sel_ratioType f) (sel_value f)" if "f \<in> set ?offers" "sel_model f = m" for f
    using that assms(5,8) unfolding offers_iff omap_wf_def by (auto dest: eq_key_imp_eq_value)
  have res': "res' = applyResolutionSelections res d (getEffectiveResolutionSelections d ?offers)"
    by (simp add: res'_def state_def bulkSelectState_def Let_def)
  have put: "chosen res' m t = Some x" if "offeredValue flt rts u t x"
      "getBillingCategory t = Ratio \<Longrightarrow> \<nexists>p. offeredValue flt rts u (js ''model_price'') p" for t x
  proof -
    have price: "getBillingCategory k = Price \<Longrightarrow> k = js ''model_price''" for k
      by (simp add: getBillingCategory_def split: if_splits)
    have "?s t x \<in> set (getEffectiveResolutionSelections d ?offers)"
      using that(2) only price by (intro offer_effective [OF assms(5,6) offer [OF that(1)]]) fastforce
    from bulk_selected [OF assms(4,5) this] show ?thesis by (simp add: res')
  qed
  show "chosen res' m rt =
      (if rt \<notin> {js ''model_price'', js ''billing_mode'', js ''billing_expr''} \<and> (\<exists>p. offeredValue flt rts u (js ''model_price'') p)
       then None else Some v)"
  proof (cases "getBillingCategory rt = Ratio \<and> (\<exists>p. offeredValue flt rts u (js ''model_price'') p)")
    case True
    then obtain p where "offeredValue flt rts u (js ''model_price'') p" by blast
    then have "chosen res' m (js ''model_price'') = Some p" by (rule put) (simp add: getBillingCategory_def)
    moreover have "resolutionsOk res'" unfolding res' by (rule selections_ok [OF assms(4)])
    ultimately have "chosen res' m rt = None"
      using True by (intro unmixed_ratio [of res' m "js ''model_price''" p rt]) (simp_all add: getBillingCategory_def)
    then show ?thesis using True by (auto simp: getBillingCategory_def split: if_splits)
  next
    case False
    then show ?thesis using put [OF assms(10)] by (auto simp: getBillingCategory_def split: if_splits)
  qed
  show "chosen res'' m rt = None" using bulk_unselected [OF offer [OF assms(10)]] by (simp add: res''_def state_def)
qed (use bulk_counts [OF assms(4,5,7)] in \<open>simp_all add: res'_def res''_def state_def\<close>)

text \<open>A model whose source gives two ratios, and one whose source gives a ratio and a price.\<close>

definition exampleDifferences :: DifferencesMap where
  "exampleDifferences = (let entry = (\<lambda>n. \<lparr>current = VNum 1, upstreams = [(js ''u'', VNum n)], confidence = []\<rparr>) in
     [(js ''m'', [(js ''model_ratio'', entry 2), (js ''cache_ratio'', entry 3)]),
      (js ''p'', [(js ''model_price'', entry 4), (js ''model_ratio'', entry 5)])])"

definition exampleFilter :: TableFilter where
  "exampleFilter = \<lparr>search = [], ratioTypeFilter = []\<rparr>"

lemma example_offers:
  "(js ''m'', rts) \<in> set exampleDifferences \<Longrightarrow> offeredValue exampleFilter rts (js ''u'') (js ''cache_ratio'') (VNum 3)"
  "(js ''p'', rts) \<in> set exampleDifferences \<Longrightarrow> offeredValue exampleFilter rts (js ''u'') (js ''model_price'') (VNum 4)"
  "(js ''p'', rts) \<in> set exampleDifferences \<Longrightarrow> offeredValue exampleFilter rts (js ''u'') (js ''model_ratio'') (VNum 5)"
  "(js ''m'', rts) \<in> set exampleDifferences \<Longrightarrow> \<not> offeredValue exampleFilter rts (js ''u'') (js ''model_price'') x"
  by (auto simp: exampleDifferences_def offeredValue_def exampleFilter_def upstreamValue_def omap_get_def Let_def)

theorem bulk_select_complete_witness:
  "let res' = applyResolutionSelections [] exampleDifferences
       (selections (bulkSelectState (\<lambda>_. None) id exampleFilter exampleDifferences [] (js ''u''))) in
   chosen res' (js ''m'') (js ''cache_ratio'') = Some (VNum 3) \<and>
   chosen res' (js ''p'') (js ''model_price'') = Some (VNum 4) \<and> chosen res' (js ''p'') (js ''model_ratio'') = None"
proof -
  have "resolutionsOk []" "omap_wf exampleDifferences" "knownTypes exampleDifferences"
    by (simp_all add: resolutionsOk_def omap_wf_def exampleDifferences_def knownTypes_def SYNC_FIELD_ORDER_def RATIO_SYNC_FIELDS_def Let_def)
  moreover have "\<forall>s\<in>set (offeredSelections id exampleFilter exampleDifferences (js ''u'')).
      sel_ratioType s \<in> set NUMERIC_SYNC_FIELDS \<longrightarrow> toNumber (\<lambda>_. None) (sel_value s) \<noteq> None"
    by (auto simp: offers_iff exampleDifferences_def offeredValue_def upstreamValue_def omap_get_def toNumber_def Let_def
      split: if_splits SyncValue.split)
  moreover obtain rts rts' where "(js ''m'', rts) \<in> set exampleDifferences" "(js ''p'', rts') \<in> set exampleDifferences"
    by (simp add: exampleDifferences_def Let_def)
  moreover have "shownRow id exampleFilter m" for m by (simp add: shownRow_def exampleFilter_def trim_def trim_start_def)
  ultimately show ?thesis
    using bulk_select_complete [of "[]" exampleDifferences id exampleFilter "js ''u''" "\<lambda>_. None" "js ''m''" rts "js ''cache_ratio''" "VNum 3"]
      bulk_select_complete [of "[]" exampleDifferences id exampleFilter "js ''u''" "\<lambda>_. None" "js ''p''" rts' "js ''model_price''" "VNum 4"]
      bulk_select_complete [of "[]" exampleDifferences id exampleFilter "js ''u''" "\<lambda>_. None" "js ''p''" rts' "js ''model_ratio''" "VNum 5"]
      example_offers [of rts] example_offers [of rts'] unfolding Let_def by auto
qed

end
