(* ===== verification/RatioSyncSettings.thy ===== *)
theory RatioSyncSettings
  imports RatioSyncProperties
begin

text \<open>
  The settings that a synchronization sends, against a specification that says for one option and one
  model what is written, and the condition under which the administrator is asked first.
\<close>

section \<open>Specification\<close>

definition hasPrice :: "ModelResolution \<Rightarrow> bool" where
  "hasPrice ratios \<longleftrightarrow> R_PRICE \<in> set (omap_keys ratios)"

definition hasRatio :: "ModelResolution \<Rightarrow> bool" where
  "hasRatio ratios \<longleftrightarrow> (\<exists>rt\<in>set RATIO_SYNC_FIELDS. rt \<in> set (omap_keys ratios))"

text \<open>The field that an option holds.\<close>

definition fieldOf :: "jsstr \<Rightarrow> RatioType" where
  "fieldOf key = the (map_of (zip OPTION_KEYS SYNC_FIELD_ORDER) key)"

text \<open>What an option holds for a model that is resolved: the selected value, nothing where the selection
  changes the kind of billing, else what it held.\<close>

definition specCell :: "(jsstr \<Rightarrow> jsnum option) \<Rightarrow> ModelResolution \<Rightarrow> jsstr \<Rightarrow> SyncValue option \<Rightarrow> SyncValue option" where
  "specCell num ratios key old = (case omap_get ratios (fieldOf key) of
      Some v \<Rightarrow> Some (syncedValue num (fieldOf key) v)
    | None \<Rightarrow>
        if key \<in> set RATIO_OPTION_KEYS \<and> hasPrice ratios \<or> key = js ''ModelPrice'' \<and> hasRatio ratios then None else old)"

definition specEntry :: "(jsstr \<Rightarrow> jsnum option) \<Rightarrow> Ratios \<Rightarrow> ResolutionsMap \<Rightarrow> jsstr \<Rightarrow> jsstr \<Rightarrow> SyncValue option" where
  "specEntry num cur res key model = (case omap_get res model of
      None \<Rightarrow> ratioEntry cur key model
    | Some ratios \<Rightarrow> specCell num ratios key (ratioEntry cur key model))"

section \<open>Options and fields\<close>

lemma optionKeys: "map optionKeyBySyncField SYNC_FIELD_ORDER = OPTION_KEYS"
  by code_simp

lemma distinct_options: "distinct OPTION_KEYS"
  by (simp add: OPTION_KEYS_def RATIO_OPTION_KEYS_def)

lemma length_options: "length OPTION_KEYS = length SYNC_FIELD_ORDER"
  using arg_cong [OF optionKeys, of length] by simp

lemma fieldOf_option: "rt \<in> set SYNC_FIELD_ORDER \<Longrightarrow> fieldOf (optionKeyBySyncField rt) = rt"
proof -
  assume "rt \<in> set SYNC_FIELD_ORDER"
  then obtain i where i: "i < length SYNC_FIELD_ORDER" "SYNC_FIELD_ORDER ! i = rt" by (auto simp: in_set_conv_nth)
  have "(OPTION_KEYS ! i, rt) \<in> set (zip OPTION_KEYS SYNC_FIELD_ORDER)"
    using i length_options by (auto simp: set_zip)
  moreover have "OPTION_KEYS ! i = optionKeyBySyncField rt" using i arg_cong [OF optionKeys, of "\<lambda>xs. xs ! i"] by simp
  ultimately show ?thesis using distinct_options length_options by (simp add: fieldOf_def)
qed

lemma option_field:
  assumes "key \<in> set OPTION_KEYS"
  shows "optionKeyBySyncField (fieldOf key) = key" "fieldOf key \<in> set SYNC_FIELD_ORDER"
proof -
  obtain rt where "rt \<in> set SYNC_FIELD_ORDER" "key = optionKeyBySyncField rt"
    using assms unfolding optionKeys [symmetric] by auto
  then show "optionKeyBySyncField (fieldOf key) = key" "fieldOf key \<in> set SYNC_FIELD_ORDER"
    by (simp_all add: fieldOf_option)
qed

section \<open>Single steps\<close>

definition complete :: "Ratios \<Rightarrow> bool" where
  "complete rs \<longleftrightarrow> set OPTION_KEYS \<subseteq> set (omap_keys rs)"

lemma complete_get: "complete rs \<Longrightarrow> key \<in> set OPTION_KEYS \<Longrightarrow> \<exists>m. omap_get rs key = Some m"
  using om.get_keys [of rs key] by (auto simp: complete_def)

lemma complete_set: "complete rs \<Longrightarrow> complete (omap_set rs k m)"
  by (auto simp: complete_def omap_keys_set)

lemma delete_complete: "complete rs \<Longrightarrow> complete (deleteRatio model rs key)"
  by (auto simp: deleteRatio_def complete_set split: option.split)

lemma delete_entry:
  "ratioEntry (deleteRatio model rs key) k m = (if k = key \<and> m = model then None else ratioEntry rs k m)"
  by (auto simp: ratioEntry_def deleteRatio_def omap_get_set omap_get_delete split: option.split)

lemma delete_all:
  "complete rs \<Longrightarrow> complete (foldl (deleteRatio model) rs keys) \<and>
    ratioEntry (foldl (deleteRatio model) rs keys) k m = (if k \<in> set keys \<and> m = model then None else ratioEntry rs k m)"
  by (induction keys arbitrary: rs) (auto simp: delete_complete delete_entry)

lemma write_one:
  assumes "complete rs" "rt \<in> set SYNC_FIELD_ORDER"
  shows "\<exists>rs'. writeRatio num model (Some rs) (rt, v) = Some rs' \<and> complete rs' \<and>
    (\<forall>k m. ratioEntry rs' k m = (if k = optionKeyBySyncField rt \<and> m = model then Some (syncedValue num rt v) else ratioEntry rs k m))"
proof -
  have "optionKeyBySyncField rt \<in> set OPTION_KEYS" using assms(2) unfolding optionKeys [symmetric] by simp
  then obtain m0 where "omap_get rs (optionKeyBySyncField rt) = Some m0" using complete_get [OF assms(1)] by blast
  then show ?thesis using assms(1) by (auto simp: writeRatio_def complete_set ratioEntry_def omap_get_set)
qed

lemma write_all:
  assumes "complete rs" "set (omap_keys es) \<subseteq> set SYNC_FIELD_ORDER" "omap_wf es"
  shows "\<exists>rs'. foldl (writeRatio num model) (Some rs) es = Some rs' \<and> complete rs' \<and>
    (\<forall>k\<in>set OPTION_KEYS. \<forall>m. ratioEntry rs' k m = (case omap_get es (fieldOf k) of
        Some v \<Rightarrow> if m = model then Some (syncedValue num (fieldOf k) v) else ratioEntry rs k m
      | None \<Rightarrow> ratioEntry rs k m))"
  using assms
proof (induction es arbitrary: rs)
  case (Cons e es)
  obtain rt v where e: "e = (rt, v)" by fastforce
  obtain rs1 where rs1: "writeRatio num model (Some rs) (rt, v) = Some rs1" "complete rs1"
      "\<forall>k m. ratioEntry rs1 k m = (if k = optionKeyBySyncField rt \<and> m = model then Some (syncedValue num rt v) else ratioEntry rs k m)"
    using write_one [OF Cons.prems(1), of rt num model v] Cons.prems(2) e by auto
  have sub: "set (omap_keys es) \<subseteq> set SYNC_FIELD_ORDER" "omap_wf es" using Cons.prems by (auto simp: omap_wf_def)
  obtain rs2 where rs2: "foldl (writeRatio num model) (Some rs1) es = Some rs2" "complete rs2"
      "\<forall>k\<in>set OPTION_KEYS. \<forall>m. ratioEntry rs2 k m = (case omap_get es (fieldOf k) of
        Some v \<Rightarrow> if m = model then Some (syncedValue num (fieldOf k) v) else ratioEntry rs1 k m
      | None \<Rightarrow> ratioEntry rs1 k m)"
    using Cons.IH [OF rs1(2) sub] by blast
  have fresh: "omap_get es rt = None" using Cons.prems(3) e by (simp add: omap_wf_def omap_get_def map_of_eq_None_iff)
  have "k = optionKeyBySyncField rt \<longleftrightarrow> fieldOf k = rt" if "k \<in> set OPTION_KEYS" for k
    using option_field [OF that] fieldOf_option [of rt] Cons.prems(2) e by auto
  then have "ratioEntry rs2 k m = (case omap_get (e # es) (fieldOf k) of
        Some v \<Rightarrow> if m = model then Some (syncedValue num (fieldOf k) v) else ratioEntry rs k m
      | None \<Rightarrow> ratioEntry rs k m)" if "k \<in> set OPTION_KEYS" for k m
    using rs1(3) rs2(3) fresh that e by (auto simp: omap_get_def split: option.splits)
  then show ?case using rs1(1) rs2 e by auto
qed (simp add: omap_get_def)

definition known :: "ModelResolution \<Rightarrow> bool" where
  "known ratios \<longleftrightarrow> set (omap_keys ratios) \<subseteq> set SYNC_FIELD_ORDER \<and> omap_wf ratios"

lemma sync_model:
  assumes "complete rs" "known ratios"
  shows "\<exists>rs'. syncModel num (Some rs) (model, ratios) = Some rs' \<and> complete rs' \<and>
    (\<forall>k\<in>set OPTION_KEYS. \<forall>m. ratioEntry rs' k m =
      (if m = model then specCell num ratios k (ratioEntry rs k m) else ratioEntry rs k m))"
proof -
  let ?rs1 = "if hasPrice ratios then foldl (deleteRatio model) rs RATIO_OPTION_KEYS else rs"
  let ?rs2 = "if hasRatio ratios then deleteRatio model ?rs1 (js ''ModelPrice'') else ?rs1"
  have rs1: "complete ?rs1" using delete_all [OF assms(1), of model RATIO_OPTION_KEYS] assms(1) by simp
  then have rs2: "complete ?rs2" using delete_complete by simp
  have cell: "ratioEntry ?rs2 k m = (if m = model \<and> (k \<in> set RATIO_OPTION_KEYS \<and> hasPrice ratios \<or>
      k = js ''ModelPrice'' \<and> hasRatio ratios) then None else ratioEntry rs k m)" for k m
    using delete_all [OF assms(1), of model RATIO_OPTION_KEYS k m] by (auto simp: delete_entry)
  have step: "syncModel num (Some rs) (model, ratios) = foldl (writeRatio num model) (Some ?rs2) ratios"
    by (simp add: syncModel_def Let_def hasPrice_def hasRatio_def R_PRICE_def list_ex_iff) (auto simp: image_iff)
  from write_all [OF rs2, of ratios num model] assms(2) cell show ?thesis
    unfolding step known_def specCell_def by (fastforce split: option.splits)
qed

lemma sync_models:
  assumes "complete rs" "\<forall>e\<in>set res. known (snd e)" "omap_wf res"
  shows "\<exists>final. foldl (syncModel num) (Some rs) res = Some final \<and>
    (\<forall>k\<in>set OPTION_KEYS. \<forall>m. ratioEntry final k m = specEntry num rs res k m)"
  using assms
proof (induction res arbitrary: rs)
  case (Cons e res)
  obtain model ratios where e: "e = (model, ratios)" by fastforce
  obtain rs1 where rs1: "syncModel num (Some rs) (model, ratios) = Some rs1" "complete rs1"
      "\<forall>k\<in>set OPTION_KEYS. \<forall>m. ratioEntry rs1 k m =
        (if m = model then specCell num ratios k (ratioEntry rs k m) else ratioEntry rs k m)"
    using sync_model [OF Cons.prems(1), of ratios num model] Cons.prems(2) e by auto
  obtain final where final: "foldl (syncModel num) (Some rs1) res = Some final"
      "\<forall>k\<in>set OPTION_KEYS. \<forall>m. ratioEntry final k m = specEntry num rs1 res k m"
    using Cons.IH [OF rs1(2)] Cons.prems(2,3) by (auto simp: omap_wf_def)
  have "omap_get res model = None" using Cons.prems(3) e by (simp add: omap_wf_def omap_get_def map_of_eq_None_iff)
  then have "specEntry num rs1 res k m = specEntry num rs (e # res) k m" if "k \<in> set OPTION_KEYS" for k m
    using rs1(3) that e by (auto simp: specEntry_def omap_get_def split: option.split)
  then show ?case using rs1(1) final e by auto
qed (simp add: specEntry_def omap_get_def)

abbreviation initialRatios :: "Ratios \<Rightarrow> Ratios" where
  "initialRatios cur \<equiv> map (\<lambda>key. (key, nullish (omap_get cur key) [])) OPTION_KEYS"

lemma initial_entry: "key \<in> set OPTION_KEYS \<Longrightarrow> ratioEntry (initialRatios cur) key m = ratioEntry cur key m"
proof -
  assume "key \<in> set OPTION_KEYS"
  then have "omap_get (initialRatios cur) key = Some (nullish (omap_get cur key) [])"
    using distinct_options by (simp add: omap_get_def map_of_map_restrict restrict_map_def)
  then show ?thesis by (cases "omap_get cur key") (auto simp: ratioEntry_def nullish_def omap_get_def)
qed

lemma initial_complete: "complete (initialRatios cur)"
  by (simp add: complete_def comp_def)

section \<open>Properties of the settings\<close>

text \<open>C29: Synchronization sends, for every option and model, what the specification says: the selected value, no
  value where the selection changes the kind of billing, and the current one elsewhere; it does not raise on
  resolutions of known fields.\<close>

theorem sync_refines_spec:
  assumes "resolutionsOk res" "\<forall>e\<in>set res. set (omap_keys (snd e)) \<subseteq> set SYNC_FIELD_ORDER"
  shows "\<exists>final. performSync num res cur = Some final \<and>
    (\<forall>key\<in>set OPTION_KEYS. \<forall>m. ratioEntry final key m = specEntry num cur res key m)"
proof -
  have "\<forall>e\<in>set res. known (snd e)" "omap_wf res"
    using assms by (auto simp: known_def resolutionsOk_def resolutionOk_def)
  moreover have "specEntry num (initialRatios cur) res key m = specEntry num cur res key m" if "key \<in> set OPTION_KEYS" for key m
    using that by (simp add: specEntry_def initial_entry split: option.split)
  ultimately show ?thesis using sync_models [OF initial_complete, of res num cur] by (auto simp: performSync_def)
qed

theorem sync_refines_spec_witness:
  "\<exists>final. performSync (\<lambda>_. None) [(js ''m'', [(js ''model_price'', VNum 2)])] [(js ''ModelRatio'', [(js ''m'', VNum 1)])] = Some final \<and>
    ratioEntry final (js ''ModelPrice'') (js ''m'') = Some (VNum 2) \<and> ratioEntry final (js ''ModelRatio'') (js ''m'') = None"
proof -
  let ?res = "[(js ''m'', [(js ''model_price'', VNum 2)])]" and ?cur = "[(js ''ModelRatio'', [(js ''m'', VNum 1)])]"
  have "resolutionsOk ?res" by (simp add: resolutionsOk_def resolutionOk_def omap_wf_def unmixed_def)
  moreover have "\<forall>e\<in>set ?res. set (omap_keys (snd e)) \<subseteq> set SYNC_FIELD_ORDER"
    by (simp add: SYNC_FIELD_ORDER_def RATIO_SYNC_FIELDS_def)
  ultimately obtain final where final: "performSync (\<lambda>_. None) ?res ?cur = Some final"
      "\<forall>key\<in>set OPTION_KEYS. \<forall>m. ratioEntry final key m = specEntry (\<lambda>_. None) ?cur ?res key m"
    using sync_refines_spec by blast
  have "js ''ModelPrice'' \<in> set OPTION_KEYS" "js ''ModelRatio'' \<in> set OPTION_KEYS"
    by (simp_all add: OPTION_KEYS_def RATIO_OPTION_KEYS_def)
  moreover have "specEntry (\<lambda>_. None) ?cur ?res (js ''ModelPrice'') (js ''m'') = Some (VNum 2)"
      "specEntry (\<lambda>_. None) ?cur ?res (js ''ModelRatio'') (js ''m'') = None"
    by (simp_all add: specEntry_def specCell_def omap_get_def fieldOf_def OPTION_KEYS_def RATIO_OPTION_KEYS_def
      SYNC_FIELD_ORDER_def RATIO_SYNC_FIELDS_def syncedValue_def NUMERIC_SYNC_FIELDS_def toNumber_def hasPrice_def R_PRICE_def)
  ultimately show ?thesis using final by auto
qed

end
