(* ===== verification/JSON_Text.thy ===== *)
theory JSON_Text
  imports JS_Matching JSON_Values
begin

text \<open>
  \<open>JSON.parse\<close> and \<open>JSON.stringify\<close> on whole values: the compact text and the text indented by two
  spaces. The texts of numbers are parameters: \<open>num_text\<close> is \<open>String(n)\<close> and \<open>to_num\<close> is
  \<open>Number(s)\<close>, \<open>None\<close> where that is not a finite number; a text with a number beyond the range of doubles
  (such as \<open>1e999\<close>) is rejected here, where the code reads the number as infinite and writes it as \<open>null\<close>. A locale states what the clients use of the
  pair, and is interpreted on the definitions here.
\<close>

section \<open>Definitions\<close>

subsection \<open>Order of properties\<close>

text \<open>An object lists its array indices first, in ascending order, then the other keys in order of
  insertion.\<close>

definition is_index :: "jsstr \<Rightarrow> bool" where
  "is_index k \<longleftrightarrow> k \<noteq> [] \<and> list_all is_digit k \<and> (length k = 1 \<or> hd k \<noteq> 48) \<and> parse_digits k < 2 ^ 32 - 1"

definition prop_order :: "(jsstr, 'v) omap \<Rightarrow> (jsstr, 'v) omap" where
  "prop_order fs = sort_key (\<lambda>p. parse_digits (fst p)) (filter (\<lambda>p. is_index (fst p)) fs)
     @ filter (\<lambda>p. \<not> is_index (fst p)) fs"

definition assign_all :: "('k, 'v) omap \<Rightarrow> ('k, 'v) omap \<Rightarrow> ('k, 'v) omap" where
  "assign_all m fs = foldl (\<lambda>m (k, v). omap_set m k v) m fs"

subsection \<open>Printing\<close>

text \<open>\<open>nl d\<close> is what separates the parts of a value at depth \<open>d\<close>, and \<open>gap\<close> what follows a colon:
  both are empty in the compact text.\<close>

fun json_text :: "(jsnum \<Rightarrow> jsstr) \<Rightarrow> (nat \<Rightarrow> jsstr) \<Rightarrow> jsstr \<Rightarrow> nat \<Rightarrow> json \<Rightarrow> jsstr" where
  "json_text num_text nl gap d JNull = js ''null''"
| "json_text num_text nl gap d (JBool b) = (if b then js ''true'' else js ''false'')"
| "json_text num_text nl gap d (JNum n) = num_text n"
| "json_text num_text nl gap d (JStr s) = stringify s"
| "json_text num_text nl gap d (JArr xs) =
     (if xs = [] then js ''[]''
      else js ''['' @ nl (Suc d)
        @ join (js '','' @ nl (Suc d)) (map (json_text num_text nl gap (Suc d)) xs) @ nl d @ js '']'')"
| "json_text num_text nl gap d (JObj fs) =
     (if fs = [] then js ''{}''
      else js ''{'' @ nl (Suc d)
        @ join (js '','' @ nl (Suc d))
            (map (\<lambda>(k, v). stringify k @ js '':'' @ gap @ json_text num_text nl gap (Suc d) v) fs)
        @ nl d @ js ''}'')"

definition indent2 :: "nat \<Rightarrow> jsstr" where
  "indent2 d = 10 # replicate (2 * d) 32"

definition printJSON :: "(jsnum \<Rightarrow> jsstr) \<Rightarrow> json \<Rightarrow> jsstr" where
  "printJSON num_text = json_text num_text (\<lambda>_. []) [] 0"

definition prettyJSON :: "(jsnum \<Rightarrow> jsstr) \<Rightarrow> json \<Rightarrow> jsstr" where
  "prettyJSON num_text = json_text num_text indent2 [32] 0"

subsection \<open>Parsing\<close>

definition json_ws :: "jschar \<Rightarrow> bool" where
  "json_ws c \<longleftrightarrow> c = 32 \<or> c = 9 \<or> c = 10 \<or> c = 13"

abbreviation skip_ws :: "jsstr \<Rightarrow> jsstr" where
  "skip_ws s \<equiv> dropWhile json_ws s"

text \<open>\<open>-?(0|[1-9]\d*)(\.\d+)?([eE][+-]?\d+)?\<close>. A number ends where the next token begins, so the
  lexeme is the longest run of the characters of numbers.\<close>

definition num_char :: "jschar \<Rightarrow> bool" where
  "num_char c \<longleftrightarrow> is_digit c \<or> c = 45 \<or> c = 43 \<or> c = 46 \<or> c = 69 \<or> c = 101"

definition digits1 :: "jsstr \<Rightarrow> bool" where
  "digits1 s \<longleftrightarrow> s \<noteq> [] \<and> list_all is_digit s"

definition json_exponent :: "jsstr \<Rightarrow> bool" where
  "json_exponent s \<longleftrightarrow> (case s of
      [] \<Rightarrow> True
    | e # r \<Rightarrow> (e = 69 \<or> e = 101) \<and>
        digits1 (case r of [] \<Rightarrow> [] | g # r' \<Rightarrow> if g = 45 \<or> g = 43 then r' else r))"

definition json_fraction :: "jsstr \<Rightarrow> bool" where
  "json_fraction s \<longleftrightarrow> (case s of
      [] \<Rightarrow> True
    | p # r \<Rightarrow> if p = 46 then takeWhile is_digit r \<noteq> [] \<and> json_exponent (dropWhile is_digit r)
              else json_exponent s)"

definition json_unsigned :: "jsstr \<Rightarrow> bool" where
  "json_unsigned s \<longleftrightarrow> (let ip = takeWhile is_digit s in
     ip \<noteq> [] \<and> (length ip = 1 \<or> hd ip \<noteq> 48) \<and> json_fraction (dropWhile is_digit s))"

definition json_number :: "jsstr \<Rightarrow> bool" where
  "json_number s \<longleftrightarrow> json_unsigned (case s of [] \<Rightarrow> [] | c # r \<Rightarrow> if c = 45 then r else s)"

definition pnum :: "(jsstr \<Rightarrow> jsnum option) \<Rightarrow> jsstr \<Rightarrow> (json \<times> jsstr) option" where
  "pnum to_num s =
     (let l = takeWhile num_char s in
      if json_number l then map_option (\<lambda>n. (JNum n, dropWhile num_char s)) (to_num l) else None)"

definition pstring :: "jsstr \<Rightarrow> (jsstr \<times> jsstr) option" where
  "pstring s = do { (l, r) \<leftarrow> quotedLiteral s; t \<leftarrow> json_string l; Some (t, r) }"

text \<open>The items of an array or an object, separated by commas, up to the closing bracket.\<close>

fun pitems :: "(jsstr \<Rightarrow> ('a \<times> jsstr) option) \<Rightarrow> jschar \<Rightarrow> nat \<Rightarrow> jsstr \<Rightarrow> ('a list \<times> jsstr) option" where
  "pitems p close 0 s = None"
| "pitems p close (Suc n) s =
     (case p s of
        None \<Rightarrow> None
      | Some (x, r) \<Rightarrow>
          (case skip_ws r of
             [] \<Rightarrow> None
           | c # r' \<Rightarrow>
               if c = close then Some ([x], r')
               else if c = 44 then map_option (apfst ((#) x)) (pitems p close n r') else None))"

definition pmember :: "(jsstr \<Rightarrow> (json \<times> jsstr) option) \<Rightarrow> jsstr \<Rightarrow> ((jsstr \<times> json) \<times> jsstr) option" where
  "pmember p s = do {
     (k, r) \<leftarrow> pstring (skip_ws s);
     r \<leftarrow> expect [58] (skip_ws r);
     (v, r) \<leftarrow> p r;
     Some ((k, v), r) }"

definition parray :: "(jsstr \<Rightarrow> (json \<times> jsstr) option) \<Rightarrow> jsstr \<Rightarrow> (json \<times> jsstr) option" where
  "parray p r =
     (case expect [93] (skip_ws r) of
        Some r' \<Rightarrow> Some (JArr [], r')
      | None \<Rightarrow> map_option (apfst JArr) (pitems p 93 (length r) r))"

definition pobject :: "(jsstr \<Rightarrow> (json \<times> jsstr) option) \<Rightarrow> jsstr \<Rightarrow> (json \<times> jsstr) option" where
  "pobject p r =
     (case expect [125] (skip_ws r) of
        Some r' \<Rightarrow> Some (JObj [], r')
      | None \<Rightarrow> map_option (apfst (\<lambda>fs. JObj (prop_order (assign_all [] fs))))
                  (pitems (pmember p) 125 (length r) r))"

definition pscalar :: "(jsstr \<Rightarrow> jsnum option) \<Rightarrow> jsstr \<Rightarrow> (json \<times> jsstr) option" where
  "pscalar to_num s =
     (case expect (js ''null'') s of Some r \<Rightarrow> Some (JNull, r) | None \<Rightarrow>
      case expect (js ''true'') s of Some r \<Rightarrow> Some (JBool True, r) | None \<Rightarrow>
      case expect (js ''false'') s of Some r \<Rightarrow> Some (JBool False, r) | None \<Rightarrow>
      pnum to_num s)"

text \<open>The first argument bounds the nesting of values.\<close>

primrec pvalue :: "(jsstr \<Rightarrow> jsnum option) \<Rightarrow> nat \<Rightarrow> jsstr \<Rightarrow> (json \<times> jsstr) option" where
  "pvalue to_num 0 = (\<lambda>s. None)"
| "pvalue to_num (Suc f) = (\<lambda>s.
     case skip_ws s of
       [] \<Rightarrow> None
     | c # r \<Rightarrow>
         if c = dquote then map_option (apfst JStr) (pstring (c # r))
         else if c = 91 then parray (pvalue to_num f) r
         else if c = 123 then pobject (pvalue to_num f) r
         else pscalar to_num (c # r))"

definition parseJSON :: "(jsstr \<Rightarrow> jsnum option) \<Rightarrow> jsstr \<Rightarrow> json option" where
  "parseJSON to_num s =
     (case pvalue to_num (length s) s of
        Some (v, r) \<Rightarrow> if skip_ws r = [] then Some v else None
      | None \<Rightarrow> None)"

subsection \<open>Values that a text can hold\<close>

text \<open>The numbers satisfy a predicate; objects have distinct keys in the order of properties.\<close>

fun json_ok :: "(jsnum \<Rightarrow> bool) \<Rightarrow> json \<Rightarrow> bool" where
  "json_ok P JNull \<longleftrightarrow> True"
| "json_ok P (JBool b) \<longleftrightarrow> True"
| "json_ok P (JNum n) \<longleftrightarrow> P n"
| "json_ok P (JStr s) \<longleftrightarrow> True"
| "json_ok P (JArr xs) \<longleftrightarrow> list_all (json_ok P) xs"
| "json_ok P (JObj fs) \<longleftrightarrow> distinct (omap_keys fs) \<and> prop_order fs = fs \<and> list_all (\<lambda>(k, v). json_ok P v) fs"

fun json_depth :: "json \<Rightarrow> nat" where
  "json_depth (JArr xs) = Suc (foldr (\<lambda>x. max (json_depth x)) xs 0)"
| "json_depth (JObj fs) = Suc (foldr (\<lambda>(k, v). max (json_depth v)) fs 0)"
| "json_depth _ = 1"

definition num_ok :: "(jsnum \<Rightarrow> jsstr) \<Rightarrow> (jsstr \<Rightarrow> jsnum option) \<Rightarrow> jsnum \<Rightarrow> bool" where
  "num_ok num_text to_num n \<longleftrightarrow> json_number (num_text n) \<and> to_num (num_text n) = Some n"

section \<open>Lemmas\<close>

subsection \<open>Objects\<close>

lemma set_prop_order [simp]: "set (prop_order fs) = set fs"
  by (auto simp: prop_order_def)

lemma mset_prop_order [simp]: "mset (prop_order fs) = mset fs"
  by (simp add: prop_order_def mset_filter)

lemma distinct_prop_order [simp]: "distinct (omap_keys (prop_order fs)) \<longleftrightarrow> distinct (omap_keys fs)"
  by (metis mset_map mset_prop_order mset_eq_imp_distinct_iff)

lemma filter_sort_index:
  "filter P (sort_key g (filter P xs)) = sort_key g (filter P xs)"
  by (simp add: filter_id_conv)

lemma prop_order_idem [simp]: "prop_order (prop_order fs) = prop_order fs"
proof -
  define A where "A = sort_key (\<lambda>p. parse_digits (fst p)) (filter (\<lambda>p. is_index (fst p)) fs)"
  define B where "B = filter (\<lambda>p. \<not> is_index (fst p)) fs"
  have "filter (\<lambda>p. is_index (fst p)) A = A" "filter (\<lambda>p. \<not> is_index (fst p)) A = []"
    "filter (\<lambda>p. is_index (fst p)) B = []" "filter (\<lambda>p. \<not> is_index (fst p)) B = B"
    by (auto simp: A_def B_def filter_id_conv filter_empty_conv)
  moreover have "sort_key (\<lambda>p. parse_digits (fst p)) A = A"
    by (simp add: A_def sort_key_id_if_sorted)
  ultimately show ?thesis
    by (simp add: prop_order_def A_def [symmetric] B_def [symmetric])
qed

lemma prop_order_plain: "list_all (\<lambda>k. \<not> is_index k) (omap_keys fs) \<Longrightarrow> prop_order fs = fs"
  by (auto simp: prop_order_def list_all_iff filter_empty_conv filter_id_conv)

lemma omap_set_new: "k \<notin> set (omap_keys m) \<Longrightarrow> omap_set m k v = m @ [(k, v)]"
  by (induction m) auto

lemma assign_all_distinct:
  "distinct (omap_keys m @ omap_keys fs) \<Longrightarrow> assign_all m fs = m @ fs"
proof (induction fs arbitrary: m)
  case (Cons p fs)
  obtain k v where p: "p = (k, v)" by (cases p)
  have "assign_all m (p # fs) = assign_all (omap_set m k v) fs" by (simp add: assign_all_def p)
  also have "omap_set m k v = m @ [(k, v)]" using Cons.prems by (intro omap_set_new) (auto simp: p)
  also have "assign_all (m @ [(k, v)]) fs = (m @ [(k, v)]) @ fs" using Cons.prems by (intro Cons.IH) (auto simp: p)
  finally show ?case by (simp add: p)
qed (simp add: assign_all_def)

lemma distinct_assign_all: "distinct (omap_keys m) \<Longrightarrow> distinct (omap_keys (assign_all m fs))"
proof (induction fs arbitrary: m)
  case (Cons p fs)
  obtain k v where p: "p = (k, v)" by (cases p)
  have "distinct (omap_keys (omap_set m k v))" using Cons.prems by (simp add: omap_keys_set)
  from Cons.IH [OF this] show ?case by (simp add: assign_all_def p)
qed (simp add: assign_all_def)

lemma values_omap_set: "snd ` set (omap_set m k v) \<subseteq> insert v (snd ` set m)"
proof (induction m)
  case (Cons p m)
  then show ?case by (cases p) auto
qed simp

lemma values_assign_all: "snd ` set (assign_all m fs) \<subseteq> snd ` set m \<union> snd ` set fs"
proof (induction fs arbitrary: m)
  case (Cons p fs)
  obtain k v where p: "p = (k, v)" by (cases p)
  show ?case using Cons.IH [of "omap_set m k v"] values_omap_set [of m k v]
    by (auto simp: assign_all_def p)
qed (simp add: assign_all_def)

subsection \<open>Tokens\<close>

lemma skip_ws_append: "list_all json_ws w \<Longrightarrow> skip_ws (w @ s) = skip_ws s"
  by (induction w) auto

lemma skip_ws_Cons: "\<not> json_ws c \<Longrightarrow> skip_ws (c # s) = c # s"
  by simp

lemma json_ws_simps [simp]:
  "\<not> json_ws 34" "\<not> json_ws 44" "\<not> json_ws 58" "\<not> json_ws 91" "\<not> json_ws 93" "\<not> json_ws 123" "\<not> json_ws 125"
  by (simp_all add: json_ws_def)

lemma num_char_simps [simp]:
  "\<not> num_char 34" "\<not> num_char 44" "\<not> num_char 58" "\<not> num_char 91" "\<not> num_char 93" "\<not> num_char 123" "\<not> num_char 125"
  by (simp_all add: num_char_def is_digit_def)

lemma ws_not_num: "json_ws c \<Longrightarrow> \<not> num_char c"
  by (auto simp: json_ws_def num_char_def is_digit_def)

lemma digit_not_json_ws: "is_digit c \<Longrightarrow> \<not> json_ws c"
  by (auto simp: json_ws_def is_digit_def)

lemma json_exponent_chars: "json_exponent s \<Longrightarrow> list_all num_char s"
  by (auto simp: json_exponent_def digits1_def num_char_def list_all_iff split: list.splits if_splits)

lemma list_all_digits: "list_all num_char (dropWhile is_digit s) \<Longrightarrow> list_all num_char s"
  by (induction s) (auto simp: num_char_def split: if_splits)

lemma json_fraction_chars: "json_fraction s \<Longrightarrow> list_all num_char s"
  by (auto simp: json_fraction_def num_char_def [of 46] dest: json_exponent_chars intro: list_all_digits split: list.splits if_splits)

lemma json_unsigned_chars: "json_unsigned s \<Longrightarrow> list_all num_char s"
  by (auto simp: json_unsigned_def Let_def dest: json_fraction_chars intro: list_all_digits)

lemma json_unsigned_hd: "json_unsigned s \<Longrightarrow> s \<noteq> [] \<and> is_digit (hd s)"
  by (cases s) (auto simp: json_unsigned_def Let_def split: if_splits)

lemma json_number_chars: "json_number s \<Longrightarrow> list_all num_char s"
  by (auto simp: json_number_def num_char_def [of 45] dest: json_unsigned_chars split: list.splits if_splits)

lemma json_number_hd: "json_number s \<Longrightarrow> s \<noteq> [] \<and> (is_digit (hd s) \<or> hd s = 45)"
  by (auto simp: json_number_def dest: json_unsigned_hd split: list.splits if_splits)

definition stops :: "jsstr \<Rightarrow> bool" where
  "stops r \<longleftrightarrow> r = [] \<or> \<not> num_char (hd r)"

lemma stops_simps [simp]: "stops []" "stops (c # r) \<longleftrightarrow> \<not> num_char c"
  by (simp_all add: stops_def)

lemma stops_ws: "list_all json_ws w \<Longrightarrow> stops s \<Longrightarrow> stops (w @ s)"
  by (cases w) (auto simp: ws_not_num)

lemma takeWhile_stops:
  assumes "list_all num_char l" "stops r"
  shows "takeWhile num_char (l @ r) = l" "dropWhile num_char (l @ r) = r"
  using assms by (induction l) (auto simp: stops_def, (cases r; simp)+)

lemma pnum_text:
  assumes "num_ok num_text to_num n" "stops r"
  shows "pnum to_num (num_text n @ r) = Some (JNum n, r)"
  using assms takeWhile_stops [of "num_text n" r] json_number_chars [of "num_text n"]
  by (simp add: pnum_def num_ok_def Let_def)

lemma pstring_stringify: "pstring (stringify s @ r) = Some (s, r)"
  by (simp add: pstring_def quotedLiteral_match json_string_stringify)

lemma expect_char: "expect [c] (d # s) = (if c = d then Some s else None)"
  by simp

lemma literal_heads:
  "jsc CHR ''n'' = 110" "jsc CHR ''t'' = 116" "jsc CHR ''f'' = 102"
  by (simp_all add: jsc_def)

lemma pscalar_literal:
  "pscalar to_num (js ''null'' @ r) = Some (JNull, r)"
  "pscalar to_num (js ''true'' @ r) = Some (JBool True, r)"
  "pscalar to_num (js ''false'' @ r) = Some (JBool False, r)"
  by (simp add: pscalar_def) (simp_all add: pscalar_def js_simps)

lemma pscalar_num:
  assumes ok: "num_ok num_text to_num n" and r: "stops r"
  shows "pscalar to_num (num_text n @ r) = Some (JNum n, r)"
proof -
  obtain c t where ct: "num_text n = c # t" and c: "is_digit c \<or> c = 45"
    using ok json_number_hd [of "num_text n"] by (cases "num_text n") (auto simp: num_ok_def)
  have "c \<noteq> 110 \<and> c \<noteq> 116 \<and> c \<noteq> 102" using c by (auto simp: is_digit_def)
  then show ?thesis using pnum_text [OF ok r] by (simp add: pscalar_def js_simps literal_heads ct)
qed

subsection \<open>The printed text is read back\<close>

text \<open>Items are read back when each of them is, whatever white space precedes it.\<close>

definition reads :: "(jsstr \<Rightarrow> ('a \<times> jsstr) option) \<Rightarrow> 'a \<Rightarrow> jsstr \<Rightarrow> bool" where
  "reads p x t \<longleftrightarrow> (\<forall>w r. list_all json_ws w \<longrightarrow> stops r \<longrightarrow> p (w @ t @ r) = Some (x, r))"

lemma readsD: "reads p x t \<Longrightarrow> list_all json_ws w \<Longrightarrow> stops r \<Longrightarrow> p (w @ t @ r) = Some (x, r)"
  by (simp add: reads_def)

lemma pitems_join:
  assumes "its \<noteq> []" "length its \<le> n" "list_all (\<lambda>(x, t). reads p x t) its"
    and ws: "list_all json_ws w" "list_all json_ws u" "list_all json_ws u'"
    and close: "\<not> json_ws close" "\<not> num_char close" "close \<noteq> 44"
  shows "pitems p close n (w @ join (44 # u) (map snd its) @ u' @ close # r) = Some (map fst its, r)"
  using assms
proof (induction its arbitrary: n w)
  case (Cons it its)
  obtain x t where it: "it = (x, t)" by (cases it)
  obtain m where n: "n = Suc m" using Cons.prems(2) by (cases n) auto
  have rd: "reads p x t" using Cons.prems(3) by (simp add: it)
  show ?case
  proof (cases its)
    case Nil
    have "stops (u' @ close # r)" using close ws by (intro stops_ws) simp_all
    from readsD [OF rd Cons.prems(4) this] show ?thesis
      using close by (simp add: n it Nil skip_ws_append ws)
  next
    case (Cons it' its')
    define rest where "rest = u @ join (44 # u) (map snd its) @ u' @ close # r"
    have "p (w @ t @ 44 # rest) = Some (x, 44 # rest)" using rd Cons.prems(4) by (intro readsD) simp_all
    moreover have "pitems p close m rest = Some (map fst its, r)"
      unfolding rest_def using Cons.prems n Cons by (intro Cons.IH) auto
    ultimately show ?thesis using close by (simp add: n it Cons rest_def)
  qed
qed simp

lemma length_join: "length xs \<le> Suc (length (join (c # u) xs))"
proof (induction xs)
  case (Cons x xs)
  then show ?case by (cases xs) auto
qed simp

lemma join_head: "xs \<noteq> [] \<Longrightarrow> \<exists>t. join sep xs = hd xs @ t"
  by (cases xs; cases "tl xs") auto

lemma stringify_Cons: "\<exists>t. stringify s = 34 # t"
  by (simp add: stringify_def)

lemma text_head:
  assumes "json_ok (num_ok num_text to_num) v"
  shows "\<exists>c t. json_text num_text nl gap d v = c # t \<and> \<not> json_ws c \<and> c \<noteq> 93"
proof (cases v)
  case (JNum n)
  then have "json_number (num_text n)" using assms by (simp add: num_ok_def)
  then show ?thesis using JNum json_number_hd [of "num_text n"]
    by (cases "num_text n") (auto simp: json_ws_def is_digit_def)
next
  case (JStr s)
  then show ?thesis using stringify_Cons [of s] by auto
qed (auto simp: js_simps jsc_def json_ws_def)

lemma reads_member:
  assumes "reads p v t" "list_all json_ws gap"
  shows "reads (pmember p) (k, v) (stringify k @ js '':'' @ gap @ t)"
proof (unfold reads_def, intro allI impI)
  fix w r assume w: "list_all json_ws w" and r: "stops r"
  obtain t' where t': "stringify k = 34 # t'" using stringify_Cons [of k] by blast
  have "skip_ws (w @ stringify k @ x) = stringify k @ x" for x by (simp add: skip_ws_append w t')
  moreover have "js '':'' = [58]" by (simp add: js_simps jsc_def)
  moreover have "p (gap @ t @ r) = Some (v, r)" by (rule readsD [OF assms r])
  ultimately show "pmember p (w @ (stringify k @ js '':'' @ gap @ t) @ r) = Some ((k, v), r)"
    by (simp add: pmember_def pstring_stringify)
qed

lemma depth_elem:
  "x \<in> set xs \<Longrightarrow> json_depth (JArr xs) \<le> Suc f \<Longrightarrow> json_depth x \<le> f"
  "(k, v) \<in> set fs \<Longrightarrow> json_depth (JObj fs) \<le> Suc f \<Longrightarrow> json_depth v \<le> f"
proof -
  show "x \<in> set xs \<Longrightarrow> json_depth (JArr xs) \<le> Suc f \<Longrightarrow> json_depth x \<le> f" by (induction xs) auto
  show "(k, v) \<in> set fs \<Longrightarrow> json_depth (JObj fs) \<le> Suc f \<Longrightarrow> json_depth v \<le> f" by (induction fs) auto
qed

lemma js_punct: "js ''['' = [91]" "js '']'' = [93]" "js ''{'' = [123]" "js ''}'' = [125]" "js '','' = [44]"
  "js ''[]'' = [91, 93]" "js ''{}'' = [123, 125]" "js '':'' = [58]"
  by (simp_all add: js_simps jsc_def)

lemma parray_text:
  assumes "xs \<noteq> []" "list_all (\<lambda>(x, t). reads p x t) its" "map fst its = xs"
    and ws: "list_all json_ws u" "list_all json_ws u'"
    and head: "\<exists>c t. snd (hd its) = c # t \<and> \<not> json_ws c \<and> c \<noteq> 93"
  shows "parray p (u @ join (44 # u) (map snd its) @ u' @ 93 # r) = Some (JArr xs, r)"
proof -
  have ne: "its \<noteq> []" using assms(1,3) by auto
  let ?s = "u @ join (44 # u) (map snd its) @ u' @ 93 # r"
  obtain c t where ct: "snd (hd its) = c # t" "\<not> json_ws c" "c \<noteq> 93" using head by blast
  obtain t' where "join (44 # u) (map snd its) = c # t'"
    using join_head [of "map snd its" "44 # u"] ne ct(1) by (auto simp: hd_map)
  then have "expect [93] (skip_ws ?s) = None" using ct by (simp add: skip_ws_append ws)
  moreover have "length its \<le> length ?s" using length_join [of "map snd its" 44 u] by simp
  then have "pitems p 93 (length ?s) ?s = Some (map fst its, r)"
    using ne assms(2) ws by (intro pitems_join) simp_all
  ultimately show ?thesis by (simp add: parray_def assms(3))
qed

lemma pobject_text:
  assumes "fs \<noteq> []" "list_all (\<lambda>(x, t). reads (pmember p) x t) its" "map fst its = fs"
    and ws: "list_all json_ws u" "list_all json_ws u'"
    and head: "\<exists>t. snd (hd its) = 34 # t"
    and ok: "distinct (omap_keys fs)" "prop_order fs = fs"
  shows "pobject p (u @ join (44 # u) (map snd its) @ u' @ 125 # r) = Some (JObj fs, r)"
proof -
  have ne: "its \<noteq> []" using assms(1,3) by auto
  let ?s = "u @ join (44 # u) (map snd its) @ u' @ 125 # r"
  obtain t where ct: "snd (hd its) = 34 # t" using head by blast
  obtain t' where "join (44 # u) (map snd its) = 34 # t'"
    using join_head [of "map snd its" "44 # u"] ne ct(1) by (auto simp: hd_map)
  then have "expect [125] (skip_ws ?s) = None" by (simp add: skip_ws_append ws)
  moreover have "length its \<le> length ?s" using length_join [of "map snd its" 44 u] by simp
  then have "pitems (pmember p) 125 (length ?s) ?s = Some (map fst its, r)"
    using ne assms(2) ws by (intro pitems_join) simp_all
  moreover have "assign_all [] fs = fs" using ok by (simp add: assign_all_distinct)
  ultimately show ?thesis using ok by (simp add: pobject_def assms(3))
qed

lemma skip_text:
  assumes "list_all json_ws w" "\<not> json_ws c"
  shows "skip_ws (w @ c # s) = c # s"
  using assms by (simp add: skip_ws_append)

lemma reads_scalar:
  assumes "\<And>r. stops r \<Longrightarrow> pscalar to_num (t @ r) = Some (v, r)"
    and "t = c # t'" "\<not> json_ws c" "c \<noteq> 34" "c \<noteq> 91" "c \<noteq> 123"
  shows "reads (pvalue to_num (Suc f)) v t"
  using assms by (auto simp: reads_def skip_text)

lemma reads_text:
  assumes nl: "\<And>d. list_all json_ws (nl d)" and gap: "list_all json_ws gap"
    and "json_ok (num_ok num_text to_num) v" "json_depth v \<le> f"
  shows "reads (pvalue to_num f) v (json_text num_text nl gap d v)"
  using assms(3,4)
proof (induction v arbitrary: d f)
  case JNull
  then obtain f' where f: "f = Suc f'" by (cases f) auto
  show ?case unfolding f json_text.simps
    by (rule reads_scalar [where c = 110 and t' = "js ''ull''"], rule pscalar_literal(1))
      (simp_all add: js_simps literal_heads json_ws_def)
next
  case (JBool b)
  then obtain f' where f: "f = Suc f'" by (cases f) auto
  have "pscalar to_num ((if b then js ''true'' else js ''false'') @ r) = Some (JBool b, r)" for r
    using pscalar_literal(2,3) by (cases b) auto
  then show ?case unfolding f json_text.simps
    by (rule reads_scalar [where c = "if b then 116 else 102" and t' = "if b then js ''rue'' else js ''alse''"])
      (simp_all add: js_simps literal_heads json_ws_def)
next
  case (JNum n)
  then obtain f' where f: "f = Suc f'" by (cases f) auto
  obtain c t where ct: "num_text n = c # t" "is_digit c \<or> c = 45"
    using JNum.prems(1) json_number_hd [of "num_text n"] by (cases "num_text n") (auto simp: num_ok_def)
  show ?case unfolding f json_text.simps
  proof (rule reads_scalar)
    show "stops r \<Longrightarrow> pscalar to_num (num_text n @ r) = Some (JNum n, r)" for r
      using JNum.prems(1) by (simp add: pscalar_num)
    show "num_text n = c # t" by (rule ct)
  qed (use ct(2) in \<open>auto simp: json_ws_def is_digit_def\<close>)
next
  case (JStr s)
  then obtain f' where f: "f = Suc f'" by (cases f) auto
  obtain t where t: "stringify s = 34 # t" using stringify_Cons by blast
  show ?case using pstring_stringify [of s] by (simp add: reads_def f t skip_text)
next
  case (JArr xs)
  then obtain f' where f: "f = Suc f'" by (cases f) auto
  show ?case
  proof (cases "xs = []")
    case True
    then show ?thesis by (simp add: reads_def f js_punct skip_text parray_def)
  next
    case False
    let ?its = "map (\<lambda>x. (x, json_text num_text nl gap (Suc d) x)) xs"
    have "list_all (\<lambda>(x, t). reads (pvalue to_num f') x t) ?its"
      using JArr depth_elem(1) by (auto simp: list_all_iff f)
    moreover have "\<exists>c t. snd (hd ?its) = c # t \<and> \<not> json_ws c \<and> c \<noteq> 93"
      using False JArr.prems(1) text_head [of num_text to_num "hd xs" nl gap "Suc d"]
      by (cases xs) auto
    ultimately have "parray (pvalue to_num f') (nl (Suc d) @ join (44 # nl (Suc d)) (map snd ?its) @ nl d @ 93 # r)
        = Some (JArr xs, r)" for r
      using False nl by (intro parray_text) (simp_all add: comp_def)
    then show ?thesis using False by (simp add: reads_def f js_punct skip_text comp_def)
  qed
next
  case (JObj fs)
  then obtain f' where f: "f = Suc f'" by (cases f) auto
  show ?case
  proof (cases "fs = []")
    case True
    then show ?thesis by (simp add: reads_def f js_punct skip_text pobject_def)
  next
    case False
    let ?its = "map (\<lambda>(k, v). ((k, v), stringify k @ js '':'' @ gap @ json_text num_text nl gap (Suc d) v)) fs"
    have "reads (pvalue to_num f') v (json_text num_text nl gap (Suc d) v)" if "(k, v) \<in> set fs" for k v
      using JObj.IH [of "(k, v)" v f' "Suc d"] JObj.prems depth_elem(2) [OF that] that
      by (auto simp: list_all_iff f)
    then have "list_all (\<lambda>(x, t). reads (pmember (pvalue to_num f')) x t) ?its"
      using gap by (auto simp: list_all_iff intro: reads_member)
    moreover have "\<exists>t. snd (hd ?its) = 34 # t"
      using False stringify_Cons [of "fst (hd fs)"] by (cases fs) (auto split: prod.splits)
    ultimately have "pobject (pvalue to_num f') (nl (Suc d) @ join (44 # nl (Suc d)) (map snd ?its) @ nl d @ 125 # r)
        = Some (JObj fs, r)" for r
      using False nl JObj.prems(1) by (intro pobject_text) (simp_all add: comp_def case_prod_unfold)
    then show ?thesis using False by (simp add: reads_def f js_punct skip_text comp_def case_prod_unfold)
  qed
qed

lemma length_join_elem: "t \<in> set ts \<Longrightarrow> length t \<le> length (join sep ts)"
  by (induction sep ts rule: join.induct) auto

lemma foldr_max_le: "(\<And>x. x \<in> set xs \<Longrightarrow> f x \<le> (n :: nat)) \<Longrightarrow> foldr (\<lambda>x. max (f x)) xs 0 \<le> n"
  by (induction xs) auto

lemma depth_le_length:
  assumes "json_ok (num_ok num_text to_num) v"
  shows "json_depth v \<le> length (json_text num_text nl gap d v)"
  using assms
proof (induction v arbitrary: d)
  case (JNum n)
  then show ?case using json_number_hd [of "num_text n"] by (cases "num_text n") (auto simp: num_ok_def)
next
  case (JArr xs)
  let ?J = "join (js '','' @ nl (Suc d)) (map (json_text num_text nl gap (Suc d)) xs)"
  have "json_depth x \<le> length ?J" if "x \<in> set xs" for x
  proof -
    have "json_depth x \<le> length (json_text num_text nl gap (Suc d) x)" using JArr that by (auto simp: list_all_iff)
    also have "\<dots> \<le> length ?J" using that by (intro length_join_elem) auto
    finally show ?thesis .
  qed
  then have "foldr (\<lambda>x. max (json_depth x)) xs 0 \<le> length ?J" by (rule foldr_max_le)
  then show ?case by auto
next
  case (JObj fs)
  let ?t = "\<lambda>(k, v). stringify k @ js '':'' @ gap @ json_text num_text nl gap (Suc d) v"
  let ?J = "join (js '','' @ nl (Suc d)) (map ?t fs)"
  have "(case p of (k, v) \<Rightarrow> json_depth v) \<le> length ?J" if p: "p \<in> set fs" for p
  proof -
    obtain k v where kv: "p = (k, v)" by (cases p)
    have "json_depth v \<le> length (json_text num_text nl gap (Suc d) v)"
      using JObj.IH [of p v "Suc d"] JObj.prems p by (auto simp: list_all_iff kv)
    also have "\<dots> \<le> length (?t p)" by (simp add: kv)
    also have "\<dots> \<le> length ?J" using p by (intro length_join_elem) auto
    finally show ?thesis by (simp add: kv)
  qed
  then have "foldr (\<lambda>p. max (case p of (k, v) \<Rightarrow> json_depth v)) fs 0 \<le> length ?J" by (rule foldr_max_le)
  also have "(\<lambda>p. max (case p of (k, v) \<Rightarrow> json_depth v)) = (\<lambda>(k, v). max (json_depth v))" by auto
  finally show ?case by simp
qed (auto simp: stringify_def)

theorem parseJSON_text:
  assumes "\<And>d. list_all json_ws (nl d)" "list_all json_ws gap" "json_ok (num_ok num_text to_num) v"
  shows "parseJSON to_num (json_text num_text nl gap d v) = Some v"
  using readsD [OF reads_text [OF assms(1,2,3) depth_le_length [OF assms(3)]], of "[]" "[]"]
  by (simp add: parseJSON_def)

lemma parse_print: "json_ok (num_ok num_text to_num) v \<Longrightarrow> parseJSON to_num (printJSON num_text v) = Some v"
  unfolding printJSON_def by (rule parseJSON_text) simp_all

lemma parse_pretty: "json_ok (num_ok num_text to_num) v \<Longrightarrow> parseJSON to_num (prettyJSON num_text v) = Some v"
  unfolding prettyJSON_def by (rule parseJSON_text) (simp_all add: indent2_def json_ws_def list_all_iff)

subsection \<open>What is read can be printed\<close>

lemma pitems_all:
  assumes "\<And>s x r. p s = Some (x, r) \<Longrightarrow> Q x" "pitems p close n s = Some (xs, r)"
  shows "list_all Q xs"
  using assms(2)
proof (induction n arbitrary: s xs)
  case (Suc n)
  then show ?case using assms(1) by (auto split: option.splits list.splits if_splits prod.splits)
qed simp

lemma pmember_value: "pmember p s = Some ((k, v), r) \<Longrightarrow> \<exists>s' r'. p s' = Some (v, r')"
  by (auto simp: pmember_def Option.bind_eq_Some_conv split: prod.splits)

lemma pvalue_ok:
  "pvalue to_num f s = Some (v, r) \<Longrightarrow> json_ok (\<lambda>n. \<exists>l. to_num l = Some n) v"
proof (induction f arbitrary: s v r)
  case (Suc f)
  let ?Q = "json_ok (\<lambda>n. \<exists>l. to_num l = Some n)"
  have arr: "?Q v" if "parray (pvalue to_num f) t = Some (v, r)" for t v r
    using that Suc.IH pitems_all [where Q = ?Q and p = "pvalue to_num f"]
    by (auto simp: parray_def split: option.splits)
  have items: "list_all (\<lambda>p. ?Q (snd p)) fs" if "pitems (pmember (pvalue to_num f)) 125 n t = Some (fs, r)" for n t fs r
    by (rule pitems_all [OF _ that]) (use Suc.IH pmember_value in \<open>force\<close>)
  have entries: "?Q (JObj (prop_order (assign_all [] fs)))" if "list_all (\<lambda>p. ?Q (snd p)) fs" for fs
  proof -
    have "?Q v" if "(k, v) \<in> set (assign_all [] fs)" for k v
      using values_assign_all [of "[]" fs] that \<open>list_all (\<lambda>p. ?Q (snd p)) fs\<close>
      by (force simp: list_all_iff)
    then show ?thesis by (auto simp: list_all_iff distinct_assign_all)
  qed
  have obj: "?Q v" if "pobject (pvalue to_num f) t = Some (v, r)" for t v r
  proof (cases "expect [125] (skip_ws t)")
    case None
    with that obtain fs where "pitems (pmember (pvalue to_num f)) 125 (length t) t = Some (fs, r)"
      "v = JObj (prop_order (assign_all [] fs))" by (auto simp: pobject_def)
    with items entries show ?thesis by blast
  qed (use that in \<open>auto simp: pobject_def prop_order_def\<close>)
  have scalar: "?Q v" if "pscalar to_num t = Some (v, r)" for t v r
    using that by (auto simp: pscalar_def pnum_def Let_def split: option.splits if_splits)
  show ?case using Suc.prems arr obj scalar
    by (auto split: list.splits if_splits)
qed simp

lemma parseJSON_ok: "parseJSON to_num s = Some v \<Longrightarrow> json_ok (\<lambda>n. \<exists>l. to_num l = Some n) v"
  using pvalue_ok by (fastforce simp: parseJSON_def split: option.splits prod.splits if_splits)

lemma json_ok_mono:
  assumes "json_ok P v" "\<And>n. P n \<Longrightarrow> Q n"
  shows "json_ok Q v"
  using assms(1)
proof (induction v)
  case (JObj fs)
  then have "json_ok Q v" if "(k, v) \<in> set fs" for k v using that by (force simp: list_all_iff)
  with JObj.prems show ?case by (auto simp: list_all_iff)
qed (auto simp: list_all_iff assms(2))

subsection \<open>The bound on the nesting is never reached\<close>

lemma dropWhile_length: "dropWhile P s = c # r \<Longrightarrow> length r < length s"
  by (metis length_Cons length_dropWhile_le less_eq_Suc_le)

lemma expect_length: "expect p s = Some r \<Longrightarrow> length s = length p + length r"
  by (auto simp: expect_def split: if_splits dest: prefix_length_le)

lemma literal_end_length: "literal_end s = Some (l, r) \<Longrightarrow> length s = length l + length r"
  by (induction s arbitrary: l r rule: literal_end.induct) (auto split: if_splits)

lemma pstring_length: "pstring s = Some (t, r) \<Longrightarrow> length r < length s"
  by (auto simp: pstring_def quotedLiteral_def Option.bind_eq_Some_conv dest!: expect_length literal_end_length)

definition consumes :: "(jsstr \<Rightarrow> ('a \<times> jsstr) option) \<Rightarrow> bool" where
  "consumes p \<longleftrightarrow> (\<forall>s x r. p s = Some (x, r) \<longrightarrow> length r < length s)"

lemma consumesD: "consumes p \<Longrightarrow> p s = Some (x, r) \<Longrightarrow> length r < length s"
  by (simp add: consumes_def)

lemma consumes_pitems:
  assumes "consumes p" "pitems p close n s = Some (xs, r)"
  shows "length r < length s"
  using assms(2)
proof (induction n arbitrary: s xs)
  case (Suc n)
  from Suc.prems obtain x r1 c r2 where p: "p s = Some (x, r1)" and sk: "skip_ws r1 = c # r2"
    and rest: "r = r2 \<or> (\<exists>ys. pitems p close n r2 = Some (ys, r))"
    by (auto split: option.splits list.splits if_splits prod.splits)
  have "length r2 < length s" using consumesD [OF assms(1) p] dropWhile_length [OF sk] by simp
  with rest Suc.IH show ?case by force
qed simp

lemma consumes_pmember: "consumes p \<Longrightarrow> consumes (pmember p)"
proof (unfold consumes_def [of "pmember p"], intro allI impI)
  fix s x r assume p: "consumes p" and "pmember p s = Some (x, r)"
  then obtain k r1 r2 v where m: "pstring (skip_ws s) = Some (k, r1)" "expect [58] (skip_ws r1) = Some r2"
    "p r2 = Some (v, r)" by (auto simp: pmember_def Option.bind_eq_Some_conv split: prod.splits)
  have "length r < length r2" using consumesD [OF p m(3)] .
  also have "length r2 < length (skip_ws r1)" using expect_length [OF m(2)] by simp
  also have "\<dots> \<le> length r1" by (rule length_dropWhile_le)
  also have "length r1 < length (skip_ws s)" by (rule pstring_length [OF m(1)])
  also have "\<dots> \<le> length s" by (rule length_dropWhile_le)
  finally show "length r < length s" .
qed

text \<open>Two parsers that agree on shorter texts read the same items.\<close>

lemma pitems_cong:
  assumes "consumes p" "\<And>t. length t \<le> length s \<Longrightarrow> p t = q t"
  shows "pitems p close n s = pitems q close n s"
  using assms(2)
proof (induction n arbitrary: s)
  case (Suc n)
  have eq: "p s = q s" by (rule Suc.prems) simp
  have "pitems p close n r2 = pitems q close n r2" if "p s = Some (x, r1)" "skip_ws r1 = c # r2" for x r1 c r2
  proof (rule Suc.IH)
    fix t :: jsstr assume "length t \<le> length r2"
    then show "p t = q t"
      using consumesD [OF assms(1) that(1)] dropWhile_length [OF that(2)] by (intro Suc.prems) simp
  qed
  note rest = this
  show ?case
  proof (cases "p s")
    case (Some a)
    obtain x r1 where a: "a = (x, r1)" by (cases a)
    show ?thesis using rest [of x r1] Some eq by (cases "skip_ws r1") (simp_all add: a del: dropWhile_eq_Nil_conv)
  qed (simp add: eq [symmetric])
qed simp

lemma pscalar_length: "pscalar to_num (c # t) = Some (v, r) \<Longrightarrow> length r < length (c # t)"
proof -
  have num: "length r < length (c # t)" if "pnum to_num (c # t) = Some (v, r)"
  proof -
    have "json_number (takeWhile num_char (c # t))" "r = dropWhile num_char (c # t)"
      using that by (auto simp: pnum_def Let_def split: if_splits)
    then have "num_char c" using json_number_hd by (cases "num_char c") auto
    then show ?thesis using \<open>r = _\<close> length_dropWhile_le [of num_char t] by simp
  qed
  assume "pscalar to_num (c # t) = Some (v, r)"
  then show ?thesis using num by (auto simp: pscalar_def split: option.splits dest: expect_length)
qed

lemma parray_length: "consumes p \<Longrightarrow> parray p r = Some (v, r') \<Longrightarrow> length r' < length r"
  using length_dropWhile_le [of json_ws r]
  by (auto simp: parray_def split: option.splits dest: expect_length consumes_pitems)

lemma pobject_length: "consumes p \<Longrightarrow> pobject p r = Some (v, r') \<Longrightarrow> length r' < length r"
  using length_dropWhile_le [of json_ws r]
  by (auto simp: pobject_def split: option.splits dest: expect_length consumes_pitems [OF consumes_pmember])

lemma consumes_pvalue: "consumes (pvalue to_num f)"
proof (induction f)
  case (Suc f)
  have "length r < length s" if *: "pvalue to_num (Suc f) s = Some (v, r)" for s v r
  proof -
    obtain c t where ct: "skip_ws s = c # t" using * by (auto split: list.splits)
    have "length r < length (c # t)"
      using * ct parray_length [OF Suc] pobject_length [OF Suc] pscalar_length [of to_num c t v r] pstring_length
      by (fastforce split: if_splits)
    then show ?thesis using dropWhile_length [OF ct] by simp
  qed
  then show ?case by (simp add: consumes_def)
qed (simp add: consumes_def)

lemma pvalue_Suc: "length s \<le> f \<Longrightarrow> pvalue to_num (Suc f) s = pvalue to_num f s"
proof (induction f arbitrary: s)
  case (Suc f)
  show ?case
  proof (cases "skip_ws s")
    case (Cons c r)
    have agree: "pvalue to_num (Suc f) t = pvalue to_num f t" if "length t \<le> length r" for t
      using that dropWhile_length [OF Cons] Suc.prems by (intro Suc.IH) simp
    have "pitems (pvalue to_num (Suc f)) 93 n r = pitems (pvalue to_num f) 93 n r" for n
      using agree by (intro pitems_cong consumes_pvalue)
    moreover have "pitems (pmember (pvalue to_num (Suc f))) 125 n r = pitems (pmember (pvalue to_num f)) 125 n r" for n
    proof (rule pitems_cong)
      show "consumes (pmember (pvalue to_num (Suc f)))" by (intro consumes_pmember consumes_pvalue)
      show "pmember (pvalue to_num (Suc f)) t = pmember (pvalue to_num f) t" if t: "length t \<le> length r" for t
      proof (cases "pstring (skip_ws t)")
        case (Some a)
        obtain k r1 where a: "a = (k, r1)" by (cases a)
        have le: "length r1 \<le> length r"
          using pstring_length [OF Some [unfolded a]] length_dropWhile_le [of json_ws t] t by simp
        have "pvalue to_num (Suc f) r2 = pvalue to_num f r2" if "expect [58] (skip_ws r1) = Some r2" for r2
          using expect_length [OF that] length_dropWhile_le [of json_ws r1] le by (intro agree) simp
        then show ?thesis by (cases "expect [58] (skip_ws r1)") (simp_all add: pmember_def Some a del: pvalue.simps)
      qed (simp add: pmember_def)
    qed
    ultimately have "parray (pvalue to_num (Suc f)) r = parray (pvalue to_num f) r"
      "pobject (pvalue to_num (Suc f)) r = pobject (pvalue to_num f) r"
      by (simp_all add: parray_def pobject_def del: pvalue.simps split: option.split)
    then show ?thesis unfolding pvalue.simps(2) [of to_num "Suc f"] pvalue.simps(2) [of to_num f] Cons by simp
  qed (simp del: dropWhile_eq_Nil_conv)
qed simp

theorem pvalue_bound: "length s \<le> f \<Longrightarrow> pvalue to_num f s = pvalue to_num (length s) s"
proof (induction f)
  case (Suc f)
  then show ?case by (cases "length s = Suc f") (auto simp: pvalue_Suc simp del: pvalue.simps)
qed simp

subsection \<open>The contract\<close>

text \<open>What the clients of \<open>JSON.parse\<close> and \<open>JSON.stringify\<close> rely on: a value that can be printed is read
  back from both texts, and neither text is empty or has white space around it.\<close>

locale json_codec =
  fixes parse :: "jsstr \<Rightarrow> json option"
    and compact pretty :: "json \<Rightarrow> jsstr"
    and printable :: "json \<Rightarrow> bool"
  assumes parse_compact: "printable v \<Longrightarrow> parse (compact v) = Some v"
    and parse_indented: "printable v \<Longrightarrow> parse (pretty v) = Some v"
    and trim_compact: "printable v \<Longrightarrow> trim (compact v) = compact v"
    and trim_pretty: "printable v \<Longrightarrow> trim (pretty v) = pretty v"
    and compact_ne: "printable v \<Longrightarrow> compact v \<noteq> []"
    and pretty_ne: "printable v \<Longrightarrow> pretty v \<noteq> []"

text \<open>\<open>Number(String(n))\<close> is \<open>n\<close>, and \<open>String(n)\<close> is a number of JSON, for every finite number.\<close>

definition num_laws :: "(jsnum \<Rightarrow> jsstr) \<Rightarrow> (jsstr \<Rightarrow> jsnum option) \<Rightarrow> bool" where
  "num_laws num_text to_num \<longleftrightarrow> (\<forall>l n. to_num l = Some n \<longrightarrow> num_ok num_text to_num n)"

lemma is_ws_json: "is_ws c \<Longrightarrow> \<not> is_digit c \<and> c \<noteq> 45 \<and> c \<noteq> 34 \<and> c \<noteq> 91 \<and> c \<noteq> 93 \<and> c \<noteq> 123 \<and> c \<noteq> 125"
  using digit_not_ws by (auto simp: is_ws_def)

lemma digits_last: "r = dropWhile is_digit s \<Longrightarrow> s \<noteq> [] \<Longrightarrow> (r \<noteq> [] \<Longrightarrow> is_digit (last r)) \<Longrightarrow> is_digit (last s)"
  by (metis append_Nil2 last_appendR list_all_iff set_takeWhileD takeWhile_dropWhile_id last_in_set)

lemma json_exponent_last: "json_exponent s \<Longrightarrow> s \<noteq> [] \<Longrightarrow> is_digit (last s)"
  by (auto simp: json_exponent_def digits1_def list_all_iff split: list.splits if_splits)

lemma json_fraction_last: "json_fraction s \<Longrightarrow> s \<noteq> [] \<Longrightarrow> is_digit (last s)"
proof (cases s)
  case (Cons p r)
  assume fr: "json_fraction s"
  show ?thesis
  proof (cases "p = 46")
    case True
    then have "r \<noteq> []" "json_exponent (dropWhile is_digit r)" using fr Cons by (auto simp: json_fraction_def)
    then show ?thesis using digits_last [OF refl, of r] json_exponent_last by (simp add: Cons)
  next
    case False
    then show ?thesis using fr Cons json_exponent_last [of s] by (simp add: json_fraction_def)
  qed
qed simp

lemma json_unsigned_last: "json_unsigned s \<Longrightarrow> is_digit (last s)"
  using json_fraction_last [of "dropWhile is_digit s"] digits_last [OF refl, of s]
  by (cases "s = []") (auto simp: json_unsigned_def Let_def)

lemma json_number_last: "json_number s \<Longrightarrow> is_digit (last s)"
proof (cases s)
  case (Cons c r)
  assume "json_number s"
  then show ?thesis using json_unsigned_hd [of r] json_unsigned_last [of r] json_unsigned_last [of s]
    by (cases "c = 45") (simp_all add: json_number_def Cons)
qed (simp add: json_number_def json_unsigned_def)

lemma text_no_ws:
  assumes "json_ok (num_ok num_text to_num) v"
  shows "json_text num_text nl gap d v \<noteq> [] \<and> \<not> is_ws (hd (json_text num_text nl gap d v))
    \<and> \<not> is_ws (last (json_text num_text nl gap d v))"
proof (cases v)
  case (JNum n)
  then have "json_number (num_text n)" using assms by (simp add: num_ok_def)
  then show ?thesis using JNum json_number_hd json_number_last is_ws_json by fastforce
next
  case (JStr s)
  then show ?thesis by (simp add: stringify_def is_ws_def)
next
  case (JBool b)
  then show ?thesis by (cases b) (simp_all add: js_simps jsc_def is_ws_def)
qed (simp_all add: js_punct js_simps jsc_def is_ws_def)

lemma text_trim:
  "json_ok (num_ok num_text to_num) v \<Longrightarrow> trim (json_text num_text nl gap d v) = json_text num_text nl gap d v"
  using text_no_ws by (intro trim_id) blast

definition printable_by :: "(jsnum \<Rightarrow> jsstr) \<Rightarrow> (jsstr \<Rightarrow> jsnum option) \<Rightarrow> json \<Rightarrow> bool" where
  "printable_by num_text to_num = json_ok (num_ok num_text to_num)"

interpretation jt: json_codec "parseJSON to_num" "printJSON num_text" "prettyJSON num_text" "printable_by num_text to_num"
  for num_text to_num
proof unfold_locales
  fix v assume v: "printable_by num_text to_num v"
  then show "parseJSON to_num (printJSON num_text v) = Some v" "parseJSON to_num (prettyJSON num_text v) = Some v"
    unfolding printable_by_def by (rule parse_print, rule parse_pretty)
  show "trim (printJSON num_text v) = printJSON num_text v" "trim (prettyJSON num_text v) = prettyJSON num_text v"
    using v text_trim by (simp_all add: printable_by_def printJSON_def prettyJSON_def)
  show "printJSON num_text v \<noteq> []" "prettyJSON num_text v \<noteq> []"
    using v text_no_ws by (simp_all add: printable_by_def printJSON_def prettyJSON_def)
qed

text \<open>What was read can be printed.\<close>

lemma parse_printable:
  assumes "num_laws num_text to_num" "parseJSON to_num s = Some v"
  shows "printable_by num_text to_num v"
  using parseJSON_ok [OF assms(2)] unfolding printable_by_def
  by (rule json_ok_mono) (use assms in \<open>auto simp: num_laws_def\<close>)

text \<open>An instance of the two texts of numbers, for natural numbers.\<close>

definition nat_text :: "jsnum \<Rightarrow> jsstr" where
  "nat_text n = show_nat (nat \<lfloor>n\<rfloor>)"

definition text_nat :: "jsstr \<Rightarrow> jsnum option" where
  "text_nat s = (if digits1 s then Some (of_nat (parse_digits s)) else None)"

lemma show_nat_unsigned: "show_nat n = [48] \<or> hd (show_nat n) \<noteq> 48"
proof (induction n rule: show_nat.induct)
  case (1 n)
  have "digit_char d \<noteq> 48" if "0 < d" "d < 10" for d
    using unat_digit_char [OF that(2)] that by auto
  moreover have "show_nat m \<noteq> [48]" if "0 < m" for m
    using that parse_digits_show_nat [of m] by (auto simp: parse_digits_def digit_val_def)
  ultimately show ?case using 1 by (cases "n < 10"; cases "n = 0") (auto simp: show_nat.simps [of n] show_nat.simps [of 0] digit_char_def)
qed

lemma num_laws_nat: "num_laws nat_text text_nat"
proof -
  have "num_ok nat_text text_nat (of_nat n)" for n
  proof -
    have all: "list_all is_digit (show_nat n)" using show_nat_digits by (simp add: list_all_iff)
    then have "takeWhile is_digit (show_nat n) = show_nat n" "dropWhile is_digit (show_nat n) = []"
      by (simp_all add: list_all_iff)
    moreover have "hd (show_nat n) \<noteq> 45"
      using all show_nat_ne [of n] by (cases "show_nat n") (auto simp: is_digit_def)
    ultimately have "json_number (show_nat n)" using show_nat_unsigned [of n] show_nat_ne [of n]
      by (cases "show_nat n") (auto simp: json_number_def json_unsigned_def Let_def json_fraction_def)
    then show ?thesis using all
      by (simp add: num_ok_def nat_text_def text_nat_def digits1_def parse_digits_show_nat)
  qed
  then show ?thesis by (auto simp: num_laws_def text_nat_def split: if_splits)
qed

end
