(* ===== verification/ParamOverride.thy ===== *)
theory ParamOverride
  imports JSON_Text
begin

text \<open>
  Data and pure functions of the parameter override editor
  (\<open>features/channels/components/dialogs/param-override-editor-dialog.tsx\<close>): rules and their
  conditions, reading them from JSON, validation, and the JSON that is saved. A call that raises
  a \<open>TypeError\<close> is \<open>None\<close>; the errors the code raises itself are values of \<open>ParamError\<close>.
\<close>

section \<open>Definitions\<close>

subsection \<open>Environment\<close>

text \<open>\<open>String(n)\<close>, \<open>Number(s)\<close>, \<open>toLowerCase\<close>, and \<open>Date.now()\<close> at the call that draws the given seed.\<close>

record penv =
  num_text :: "jsnum \<Rightarrow> jsstr"
  to_num :: "jsstr \<Rightarrow> jsnum option"
  lower :: "jsstr \<Rightarrow> jsstr"
  now :: "nat \<Rightarrow> int"

abbreviation parse :: "penv \<Rightarrow> jsstr \<Rightarrow> json option" where
  "parse E \<equiv> parseJSON (to_num E)"

abbreviation compact :: "penv \<Rightarrow> json \<Rightarrow> jsstr" where
  "compact E \<equiv> printJSON (num_text E)"

abbreviation pretty :: "penv \<Rightarrow> json \<Rightarrow> jsstr" where
  "pretty E \<equiv> prettyJSON (num_text E)"

text \<open>A property of a value other than \<open>null\<close>.\<close>

definition jprop :: "string \<Rightarrow> json \<Rightarrow> json option" where
  "jprop k j = (case j of JObj fs \<Rightarrow> omap_get fs (js k) | _ \<Rightarrow> None)"

definition strProp :: "string \<Rightarrow> json \<Rightarrow> jsstr" where
  "strProp k j = (case jprop k j of Some (JStr s) \<Rightarrow> s | _ \<Rightarrow> [])"

definition trueProp :: "string \<Rightarrow> json \<Rightarrow> bool" where
  "trueProp k j \<longleftrightarrow> jprop k j = Some (JBool True)"

text \<open>\<open>String(v || d)\<close> of a property.\<close>

definition orString :: "penv \<Rightarrow> json option \<Rightarrow> jsstr \<Rightarrow> jsstr" where
  "orString E v d = (case v of Some j \<Rightarrow> if truthy j then jsString (num_text E) j else d | None \<Rightarrow> d)"

text \<open>\<open>toUpperCase\<close> and \<open>toLowerCase\<close> where the result is compared with a word of letters that no other
  character is mapped to.\<close>

definition ascii_upper :: "jsstr \<Rightarrow> jsstr" where
  "ascii_upper = map (\<lambda>c. if 97 \<le> c \<and> c \<le> 122 then c - 32 else c)"

definition ascii_lower :: "jsstr \<Rightarrow> jsstr" where
  "ascii_lower = map (\<lambda>c. if 65 \<le> c \<and> c \<le> 90 then c + 32 else c)"

subsection \<open>Types and tables\<close>

record ParamOverrideCondition =
  c_id :: jsstr
  c_path :: jsstr
  c_mode :: jsstr
  c_value_text :: jsstr
  c_invert :: bool
  c_pass_missing_key :: bool

record ParamOverrideOperation =
  o_id :: jsstr
  o_description :: jsstr
  o_path :: jsstr
  o_mode :: jsstr
  o_from :: jsstr
  o_to :: jsstr
  o_value_text :: jsstr
  o_keep_origin :: bool
  o_logic :: jsstr
  o_conditions :: "ParamOverrideCondition list"

definition OPERATION_MODE_OPTIONS :: "(string \<times> string) list" where
  "OPERATION_MODE_OPTIONS = [
     (''Set Field'', ''set''), (''Delete Field'', ''delete''), (''Append to End'', ''append''),
     (''Prepend to Start'', ''prepend''), (''Copy Field'', ''copy''), (''Move Field'', ''move''),
     (''String Replace'', ''replace''), (''Regex Replace'', ''regex_replace''),
     (''Trim Prefix'', ''trim_prefix''), (''Trim Suffix'', ''trim_suffix''),
     (''Ensure Prefix'', ''ensure_prefix''), (''Ensure Suffix'', ''ensure_suffix''),
     (''Trim Space'', ''trim_space''), (''To Lowercase'', ''to_lower''), (''To Uppercase'', ''to_upper''),
     (''Return Custom Error'', ''return_error''), (''Prune Object Items'', ''prune_objects''),
     (''Pass Through Headers'', ''pass_headers''), (''Sync Fields'', ''sync_fields''),
     (''Set Request Header'', ''set_header''), (''Delete Request Header'', ''delete_header''),
     (''Copy Request Header'', ''copy_header''), (''Move Request Header'', ''move_header'')]"

definition OPERATION_MODE_VALUES :: "jsstr set" where
  "OPERATION_MODE_VALUES = set (map (\<lambda>p. js (snd p)) OPERATION_MODE_OPTIONS)"

definition OPERATION_MODE_LABEL_MAP :: "(jsstr, jsstr) omap" where
  "OPERATION_MODE_LABEL_MAP = foldl (\<lambda>acc (label, v). omap_set acc (js v) (js label)) [] OPERATION_MODE_OPTIONS"

definition CONDITION_MODE_OPTIONS :: "(string \<times> string) list" where
  "CONDITION_MODE_OPTIONS = [
     (''Exact Match'', ''full''), (''Prefix'', ''prefix''), (''Suffix'', ''suffix''), (''Contains'', ''contains''),
     (''Greater Than'', ''gt''), (''Greater Than or Equal'', ''gte''), (''Less Than'', ''lt''),
     (''Less Than or Equal'', ''lte'')]"

definition CONDITION_MODE_VALUES :: "jsstr set" where
  "CONDITION_MODE_VALUES = set (map (\<lambda>p. js (snd p)) CONDITION_MODE_OPTIONS)"

text \<open>An absent flag is false; of \<open>to\<close> the editor distinguishes absent and false.\<close>

record ModeMeta =
  m_path :: bool
  m_pathOptional :: bool
  m_value :: bool
  m_from :: bool
  m_to :: "bool option"
  m_keepOrigin :: bool
  m_pathAlias :: bool

definition noMeta :: ModeMeta where
  "noMeta = \<lparr>m_path = False, m_pathOptional = False, m_value = False, m_from = False, m_to = None,
     m_keepOrigin = False, m_pathAlias = False\<rparr>"

definition setMeta :: ModeMeta where
  "setMeta = noMeta\<lparr>m_path := True, m_value := True, m_keepOrigin := True\<rparr>"

definition MODE_META :: "(string \<times> ModeMeta) list" where
  "MODE_META = [
     (''delete'', noMeta\<lparr>m_path := True\<rparr>),
     (''set'', setMeta),
     (''append'', setMeta),
     (''prepend'', setMeta),
     (''copy'', noMeta\<lparr>m_from := True, m_to := Some True\<rparr>),
     (''move'', noMeta\<lparr>m_from := True, m_to := Some True\<rparr>),
     (''replace'', noMeta\<lparr>m_path := True, m_from := True, m_to := Some False\<rparr>),
     (''regex_replace'', noMeta\<lparr>m_path := True, m_from := True, m_to := Some False\<rparr>),
     (''trim_prefix'', noMeta\<lparr>m_path := True, m_value := True\<rparr>),
     (''trim_suffix'', noMeta\<lparr>m_path := True, m_value := True\<rparr>),
     (''ensure_prefix'', noMeta\<lparr>m_path := True, m_value := True\<rparr>),
     (''ensure_suffix'', noMeta\<lparr>m_path := True, m_value := True\<rparr>),
     (''trim_space'', noMeta\<lparr>m_path := True\<rparr>),
     (''to_lower'', noMeta\<lparr>m_path := True\<rparr>),
     (''to_upper'', noMeta\<lparr>m_path := True\<rparr>),
     (''return_error'', noMeta\<lparr>m_value := True\<rparr>),
     (''prune_objects'', noMeta\<lparr>m_pathOptional := True, m_value := True\<rparr>),
     (''pass_headers'', noMeta\<lparr>m_value := True, m_keepOrigin := True\<rparr>),
     (''sync_fields'', noMeta\<lparr>m_from := True, m_to := Some True\<rparr>),
     (''set_header'', setMeta),
     (''delete_header'', noMeta\<lparr>m_path := True\<rparr>),
     (''copy_header'', noMeta\<lparr>m_from := True, m_to := Some True, m_keepOrigin := True, m_pathAlias := True\<rparr>),
     (''move_header'', noMeta\<lparr>m_from := True, m_to := Some True, m_keepOrigin := True, m_pathAlias := True\<rparr>)]"

text \<open>\<open>MODE_META[mode] || MODE_META.set\<close>.\<close>

definition modeMeta :: "jsstr \<Rightarrow> ModeMeta" where
  "modeMeta mode = nullish (omap_get (map (\<lambda>(k, m). (js k, m)) MODE_META) mode) setMeta"

definition VALUE_REQUIRED_MODES :: "jsstr set" where
  "VALUE_REQUIRED_MODES = js ` set [''trim_prefix'', ''trim_suffix'', ''ensure_prefix'', ''ensure_suffix'',
     ''set_header'', ''return_error'', ''prune_objects'', ''pass_headers'']"

definition FROM_REQUIRED_MODES :: "jsstr set" where
  "FROM_REQUIRED_MODES = js ` set [''copy'', ''move'', ''replace'', ''regex_replace'', ''copy_header'',
     ''move_header'', ''sync_fields'']"

definition TO_REQUIRED_MODES :: "jsstr set" where
  "TO_REQUIRED_MODES = js ` set [''copy'', ''move'', ''copy_header'', ''move_header'', ''sync_fields'']"

subsection \<open>Values and identifiers\<close>

definition nextLocalId :: "penv \<Rightarrow> nat \<Rightarrow> jsstr" where
  "nextLocalId E n = js ''po_'' @ show_int (now E n) @ js ''_'' @ show_nat n"

definition toValueText :: "penv \<Rightarrow> json option \<Rightarrow> jsstr" where
  "toValueText E v = (case v of None \<Rightarrow> [] | Some (JStr s) \<Rightarrow> s | Some j \<Rightarrow> compact E j)"

definition parseLooseValue :: "penv \<Rightarrow> jsstr \<Rightarrow> json" where
  "parseLooseValue E valueText =
     (let raw = trim valueText in
      if raw = [] then JStr [] else case parse E raw of Some v \<Rightarrow> v | None \<Rightarrow> JStr raw)"

definition verifyJSON :: "penv \<Rightarrow> jsstr \<Rightarrow> bool" where
  "verifyJSON E s \<longleftrightarrow> parse E s \<noteq> None"

subsection \<open>Reading rules\<close>

definition conditionMode :: "json \<Rightarrow> jsstr" where
  "conditionMode j = (if strProp ''mode'' j \<in> CONDITION_MODE_VALUES then strProp ''mode'' j else js ''full'')"

definition normalizeCondition :: "penv \<Rightarrow> nat \<Rightarrow> json \<Rightarrow> (ParamOverrideCondition \<times> nat) option" where
  "normalizeCondition E n j = (if j = JNull then None else
     Some (\<lparr>c_id = nextLocalId E n, c_path = strProp ''path'' j, c_mode = conditionMode j,
       c_value_text = toValueText E (jprop ''value'' j), c_invert = trueProp ''invert'' j,
       c_pass_missing_key = trueProp ''pass_missing_key'' j\<rparr>, Suc n))"

definition createDefaultCondition :: "penv \<Rightarrow> nat \<Rightarrow> ParamOverrideCondition \<times> nat" where
  "createDefaultCondition E n = the (normalizeCondition E n (JObj []))"

text \<open>\<open>map\<close> with a function that draws identifiers and may raise.\<close>

fun map_seed :: "(nat \<Rightarrow> 'a \<Rightarrow> ('b \<times> nat) option) \<Rightarrow> nat \<Rightarrow> 'a list \<Rightarrow> ('b list \<times> nat) option" where
  "map_seed f n [] = Some ([], n)"
| "map_seed f n (x # xs) =
     do { (y, n') \<leftarrow> f n x; (ys, n'') \<leftarrow> map_seed f n' xs; Some (y # ys, n'') }"

definition operationLogic :: "penv \<Rightarrow> json \<Rightarrow> jsstr" where
  "operationLogic E j =
     (if ascii_upper (orString E (jprop ''logic'' j) (js ''OR'')) = js ''AND'' then js ''AND'' else js ''OR'')"

definition normalizeOperation :: "penv \<Rightarrow> nat \<Rightarrow> json \<Rightarrow> (ParamOverrideOperation \<times> nat) option" where
  "normalizeOperation E n j = (if j = JNull then None else do {
     (cs, n') \<leftarrow> (case jprop ''conditions'' j of
                  Some (JArr items) \<Rightarrow> map_seed (normalizeCondition E) (Suc n) items
                | _ \<Rightarrow> Some ([], Suc n));
     Some (\<lparr>o_id = nextLocalId E n, o_description = strProp ''description'' j, o_path = strProp ''path'' j,
        o_mode = (if strProp ''mode'' j \<in> OPERATION_MODE_VALUES then strProp ''mode'' j else js ''set''),
        o_from = strProp ''from'' j, o_to = strProp ''to'' j, o_value_text = toValueText E (jprop ''value'' j),
        o_keep_origin = trueProp ''keep_origin'' j, o_logic = operationLogic E j, o_conditions = cs\<rparr>, n') })"

definition createDefaultOperation :: "penv \<Rightarrow> nat \<Rightarrow> ParamOverrideOperation \<times> nat" where
  "createDefaultOperation E n = the (normalizeOperation E n (JObj [(js ''mode'', JStr (js ''set''))]))"

subsection \<open>Order, blank rules, summaries\<close>

definition splice_out :: "nat \<Rightarrow> 'a list \<Rightarrow> 'a list" where
  "splice_out i xs = take i xs @ drop (Suc i) xs"

definition splice_in :: "nat \<Rightarrow> 'a \<Rightarrow> 'a list \<Rightarrow> 'a list" where
  "splice_in i x xs = take i xs @ x # drop i xs"

datatype Position = Before | After

definition reorderOperations ::
  "ParamOverrideOperation list \<Rightarrow> jsstr \<Rightarrow> jsstr \<Rightarrow> Position \<Rightarrow> ParamOverrideOperation list" where
  "reorderOperations ops sourceId targetId position =
     (if sourceId = [] \<or> targetId = [] \<or> sourceId = targetId then ops
      else case find_index (\<lambda>x. o_id x = sourceId) ops of
        None \<Rightarrow> ops
      | Some srcIdx \<Rightarrow>
          let next = splice_out srcIdx ops; moved = ops ! srcIdx in
          case find_index (\<lambda>x. o_id x = targetId) next of
            None \<Rightarrow> ops
          | Some insertIdx \<Rightarrow> splice_in (if position = After then Suc insertIdx else insertIdx) moved next)"

definition conditionUsed :: "ParamOverrideCondition \<Rightarrow> bool" where
  "conditionUsed c \<longleftrightarrow> trim (c_path c) \<noteq> [] \<or> trim (c_value_text c) \<noteq> [] \<or> c_mode c \<noteq> js ''full''
     \<or> c_invert c \<or> c_pass_missing_key c"

definition isOperationBlank :: "ParamOverrideOperation \<Rightarrow> bool" where
  "isOperationBlank x \<longleftrightarrow> o_mode x = js ''set'' \<and> trim (o_path x) = [] \<and> trim (o_from x) = []
     \<and> trim (o_to x) = [] \<and> trim (o_value_text x) = [] \<and> \<not> o_keep_origin x
     \<and> \<not> list_ex conditionUsed (o_conditions x)"

text \<open>\<open>operation.mode || 'set'\<close>, and the first text that is not empty.\<close>

definition opMode :: "ParamOverrideOperation \<Rightarrow> jsstr" where
  "opMode x = or_str (Some (o_mode x)) (js ''set'')"

definition getOperationSummary :: "ParamOverrideOperation \<Rightarrow> nat \<Rightarrow> jsstr" where
  "getOperationSummary x idx =
     (let mode = opMode x;
          modeLabel = or_str (omap_get OPERATION_MODE_LABEL_MAP mode) mode;
          fromTo = or_str (Some (trim (o_from x))) (or_str (Some (trim (o_to x))) (js ''-''));
          target = (if mode = js ''sync_fields'' then fromTo else or_str (Some (trim (o_path x))) fromTo)
      in show_nat (idx + 1) @ js ''. '' @ modeLabel @ [32, 0xB7, 32] @ target)"

subsection \<open>Endpoints of \<open>sync_fields\<close>\<close>

definition parseSyncTargetSpec :: "jsstr \<Rightarrow> jsstr \<times> jsstr" where
  "parseSyncTargetSpec spec =
     (let raw = trim spec in
      if raw = [] then (js ''json'', [])
      else case index_of (js '':'') raw of
        None \<Rightarrow> (js ''json'', raw)
      | Some idx \<Rightarrow>
          let pre = ascii_lower (trim (take idx raw)); key = trim (drop (idx + 1) raw) in
          if pre = js ''header'' then (js ''header'', key) else (js ''json'', key))"

definition buildSyncTargetSpec :: "jsstr \<Rightarrow> jsstr \<Rightarrow> jsstr" where
  "buildSyncTargetSpec ty key =
     (let normalizedType = (if ty = js ''header'' then js ''header'' else js ''json''); normalizedKey = trim key in
      if normalizedKey = [] then [] else normalizedType @ js '':'' @ normalizedKey)"

subsection \<open>The draft of \<open>return_error\<close>\<close>

record ReturnErrorDraft =
  rd_message :: jsstr
  rd_statusCode :: jsnum
  rd_code :: jsstr
  rd_type :: jsstr
  rd_skipRetry :: bool
  rd_simpleMode :: bool

definition returnErrorDefaults :: ReturnErrorDraft where
  "returnErrorDefaults = \<lparr>rd_message = [], rd_statusCode = 400, rd_code = [], rd_type = [],
     rd_skipRetry = True, rd_simpleMode = True\<rparr>"

text \<open>\<open>Number(v)\<close>, \<open>None\<close> where it is not a finite number.\<close>

definition jsNumber :: "penv \<Rightarrow> json option \<Rightarrow> jsnum option" where
  "jsNumber E v = (case v of
      None \<Rightarrow> None
    | Some JNull \<Rightarrow> Some 0
    | Some (JBool b) \<Rightarrow> Some (if b then 1 else 0)
    | Some (JNum x) \<Rightarrow> Some x
    | Some (JStr s) \<Rightarrow> to_num E s
    | Some (JArr xs) \<Rightarrow> to_num E (jsString (num_text E) (JArr xs))
    | Some (JObj fs) \<Rightarrow> None)"

definition validStatus :: "jsnum \<Rightarrow> bool" where
  "validStatus x \<longleftrightarrow> x = of_int \<lfloor>x\<rfloor> \<and> 100 \<le> x \<and> x \<le> 599"

definition statusOr400 :: "jsnum option \<Rightarrow> jsnum" where
  "statusOr400 v = (case v of Some x \<Rightarrow> if validStatus x then x else 400 | None \<Rightarrow> 400)"

definition parseReturnErrorDraft :: "penv \<Rightarrow> jsstr \<Rightarrow> ReturnErrorDraft" where
  "parseReturnErrorDraft E valueText =
     (let raw = trim valueText in
      if raw = [] then returnErrorDefaults
      else case parse E raw of
        Some (JObj fs) \<Rightarrow>
          let parsed = JObj fs;
              statusRaw = (case jprop ''status_code'' parsed of Some v \<Rightarrow> Some v | None \<Rightarrow> jprop ''status'' parsed)
          in \<lparr>rd_message = trim (orString E (jprop ''message'' parsed) (orString E (jprop ''msg'' parsed) [])),
              rd_statusCode = statusOr400 (jsNumber E statusRaw),
              rd_code = trim (orString E (jprop ''code'' parsed) []),
              rd_type = trim (orString E (jprop ''type'' parsed) []),
              rd_skipRetry = (jprop ''skip_retry'' parsed \<noteq> Some (JBool False)),
              rd_simpleMode = False\<rparr>
      | _ \<Rightarrow> returnErrorDefaults\<lparr>rd_message := raw, rd_simpleMode := True\<rparr>)"

text \<open>A conditional assignment to a property of a payload.\<close>

definition put :: "bool \<Rightarrow> string \<Rightarrow> json \<Rightarrow> (jsstr, json) omap \<Rightarrow> (jsstr, json) omap" where
  "put b k v m = (if b then omap_set m (js k) v else m)"

definition returnErrorPayload :: "ReturnErrorDraft \<Rightarrow> (jsstr, json) omap" where
  "returnErrorPayload draft =
     (let code = trim (rd_code draft); ty = trim (rd_type draft) in
      put (\<not> rd_skipRetry draft) ''skip_retry'' (JBool False)
       (put (ty \<noteq> []) ''type'' (JStr ty)
        (put (code \<noteq> []) ''code'' (JStr code)
          [(js ''message'', JStr (trim (rd_message draft))),
           (js ''status_code'', JNum (statusOr400 (Some (rd_statusCode draft))))])))"

definition buildReturnErrorValueText :: "penv \<Rightarrow> ReturnErrorDraft \<Rightarrow> jsstr" where
  "buildReturnErrorValueText E draft =
     (if rd_simpleMode draft then trim (rd_message draft) else compact E (JObj (returnErrorPayload draft)))"

subsection \<open>The draft of \<open>prune_objects\<close>\<close>

record PruneRule =
  p_id :: jsstr
  p_path :: jsstr
  p_mode :: jsstr
  p_value_text :: jsstr
  p_invert :: bool
  p_pass_missing_key :: bool

record PruneObjectsDraft =
  pd_simpleMode :: bool
  pd_typeText :: jsstr
  pd_logic :: jsstr
  pd_recursive :: bool
  pd_rules :: "PruneRule list"

definition pruneDefaults :: PruneObjectsDraft where
  "pruneDefaults = \<lparr>pd_simpleMode = True, pd_typeText = [], pd_logic = js ''AND'', pd_recursive = True, pd_rules = []\<rparr>"

text \<open>Only called on values other than \<open>null\<close>; draws one identifier.\<close>

definition normalizePruneRule :: "penv \<Rightarrow> nat \<Rightarrow> json \<Rightarrow> PruneRule" where
  "normalizePruneRule E n j = \<lparr>p_id = nextLocalId E n, p_path = strProp ''path'' j, p_mode = conditionMode j,
     p_value_text = toValueText E (jprop ''value'' j), p_invert = trueProp ''invert'' j,
     p_pass_missing_key = trueProp ''pass_missing_key'' j\<rparr>"

fun pruneRules :: "penv \<Rightarrow> nat \<Rightarrow> json list \<Rightarrow> PruneRule list" where
  "pruneRules E n [] = []"
| "pruneRules E n (j # items) = normalizePruneRule E n j # pruneRules E (Suc n) items"

text \<open>The entries of an object, as rules that compare a path with a value.\<close>

definition entryRules :: "(jsstr, json) omap \<Rightarrow> json list" where
  "entryRules fs = map (\<lambda>(path, v). JObj [(js ''path'', JStr path), (js ''mode'', JStr (js ''full'')), (js ''value'', v)]) fs"

definition isObjectOrArray :: "json \<Rightarrow> bool" where
  "isObjectOrArray j = (case j of JObj _ \<Rightarrow> True | JArr _ \<Rightarrow> True | _ \<Rightarrow> False)"

definition pruneItems :: "json \<Rightarrow> json list" where
  "pruneItems parsed =
     (case jprop ''where'' parsed of Some (JObj fs) \<Rightarrow> entryRules fs | _ \<Rightarrow> [])
     @ (case jprop ''conditions'' parsed of
          Some (JArr xs) \<Rightarrow> filter isObjectOrArray xs
        | Some (JObj fs) \<Rightarrow> entryRules fs
        | _ \<Rightarrow> [])"

definition parsePruneObjectsDraft :: "penv \<Rightarrow> nat \<Rightarrow> jsstr \<Rightarrow> PruneObjectsDraft \<times> nat" where
  "parsePruneObjectsDraft E n valueText =
     (let raw = trim valueText in
      if raw = [] then (pruneDefaults, n)
      else case parse E raw of
        Some (JStr s) \<Rightarrow> (pruneDefaults\<lparr>pd_typeText := trim s\<rparr>, n)
      | Some (JObj fs) \<Rightarrow>
          let parsed = JObj fs; items = pruneItems parsed;
              hasAdvancedFields = (jprop ''logic'' parsed \<noteq> None \<or> jprop ''recursive'' parsed \<noteq> None
                \<or> jprop ''where'' parsed \<noteq> None \<or> jprop ''conditions'' parsed \<noteq> None)
          in (\<lparr>pd_simpleMode = (\<not> hasAdvancedFields),
               pd_typeText = (case jprop ''type'' parsed of None \<Rightarrow> [] | Some v \<Rightarrow> trim (jsString (num_text E) v)),
               pd_logic = (if ascii_upper (orString E (jprop ''logic'' parsed) (js ''AND'')) = js ''OR''
                           then js ''OR'' else js ''AND''),
               pd_recursive = (jprop ''recursive'' parsed \<noteq> Some (JBool False)),
               pd_rules = pruneRules E n items\<rparr>, n + length items)
      | Some JNull \<Rightarrow> (pruneDefaults, n)
      | Some v \<Rightarrow> (pruneDefaults\<lparr>pd_typeText := trim (jsString (num_text E) v)\<rparr>, n)
      | None \<Rightarrow> (pruneDefaults\<lparr>pd_typeText := raw\<rparr>, n))"

definition pruneRulePayload :: "penv \<Rightarrow> PruneRule \<Rightarrow> (jsstr, json) omap" where
  "pruneRulePayload E r =
     (let valueRaw = trim (p_value_text r) in
      put (p_pass_missing_key r) ''pass_missing_key'' (JBool True)
       (put (p_invert r) ''invert'' (JBool True)
        (put (valueRaw \<noteq> []) ''value'' (parseLooseValue E valueRaw)
          [(js ''path'', JStr (trim (p_path r))),
           (js ''mode'', JStr (if p_mode r \<in> CONDITION_MODE_VALUES then p_mode r else js ''full''))])))"

definition prunePayload :: "penv \<Rightarrow> PruneObjectsDraft \<Rightarrow> (jsstr, json) omap" where
  "prunePayload E draft =
     (let typeText = trim (pd_typeText draft);
          conditions = map (\<lambda>r. JObj (pruneRulePayload E r)) (filter (\<lambda>r. trim (p_path r) \<noteq> []) (pd_rules draft))
      in put (conditions \<noteq> []) ''conditions'' (JArr conditions)
          (put (\<not> pd_recursive draft) ''recursive'' (JBool False)
            (put (ascii_upper (or_str (Some (pd_logic draft)) (js ''AND'')) = js ''OR'') ''logic'' (JStr (js ''OR''))
              (put (typeText \<noteq> []) ''type'' (JStr typeText) []))))"

definition buildPruneObjectsValueText :: "penv \<Rightarrow> PruneObjectsDraft \<Rightarrow> jsstr" where
  "buildPruneObjectsValueText E draft =
     (if pd_simpleMode draft then trim (pd_typeText draft)
      else let payload = prunePayload E draft in
        if omap_get payload (js ''type'') = None \<and> omap_get payload (js ''conditions'') = None
        then compact E (JObj [(js ''logic'', JStr (js ''AND''))])
        else compact E (JObj payload))"

subsection \<open>Validation\<close>

datatype ParamError =
    MissingTargetPath nat
  | MissingSourceField nat
  | MissingTargetField nat
  | MissingValue nat
  | ReturnErrorNeedsMessage nat
  | PruneMissingConditions nat
  | PassHeadersMissingNames nat
  | PassHeadersInvalid nat
  | NotValidJSON
  | LegacyNotObject
  | NotJSONObject
  | LegacyCannotAppend

definition stringItems :: "penv \<Rightarrow> json list \<Rightarrow> jsstr list" where
  "stringItems E xs = filter (\<lambda>s. s \<noteq> [])
     (map (\<lambda>i. trim (if i = JNull then [] else jsString (num_text E) i)) xs)"

definition parsePassHeaderNames :: "penv \<Rightarrow> json \<Rightarrow> jsstr list" where
  "parsePassHeaderNames E rawValue = (case rawValue of
      JArr xs \<Rightarrow> stringItems E xs
    | JObj fs \<Rightarrow>
        (case jprop ''headers'' rawValue of
           Some (JArr xs) \<Rightarrow> stringItems E xs
         | _ \<Rightarrow> (case jprop ''header'' rawValue of Some v \<Rightarrow> stringItems E [v] | None \<Rightarrow> []))
    | JStr s \<Rightarrow> filter (\<lambda>s. s \<noteq> []) (map trim (split_on 44 s))
    | _ \<Rightarrow> [])"

definition returnErrorMessageMissing :: "penv \<Rightarrow> jsstr \<Rightarrow> bool" where
  "returnErrorMessageMissing E raw =
     (case parse E raw of
        Some (JObj fs) \<Rightarrow> trim (orString E (jprop ''message'' (JObj fs)) []) = []
      | _ \<Rightarrow> False)"

text \<open>The body of the loop: the error of one rule, which is the rule of the given line.\<close>

definition validateOperation :: "penv \<Rightarrow> ParamOverrideOperation \<Rightarrow> nat \<Rightarrow> ParamError option" where
  "validateOperation E op line =
     (let mode = opMode op; meta = modeMeta mode;
          pathValue = trim (o_path op); fromValue = trim (o_from op); toValue = trim (o_to op);
          raw = trim (o_value_text op); aliased = (m_pathAlias meta \<and> pathValue \<noteq> [])
      in if m_path meta \<and> pathValue = [] then Some (MissingTargetPath line)
         else if mode \<in> FROM_REQUIRED_MODES \<and> fromValue = [] \<and> \<not> aliased then Some (MissingSourceField line)
         else if mode \<in> TO_REQUIRED_MODES \<and> toValue = [] \<and> \<not> aliased then Some (MissingTargetField line)
         else if mode \<in> VALUE_REQUIRED_MODES \<and> raw = [] then Some (MissingValue line)
         else if mode = js ''return_error'' \<and> raw = [] then Some (MissingValue line)
         else if mode = js ''return_error'' \<and> returnErrorMessageMissing E raw then Some (ReturnErrorNeedsMessage line)
         else if mode = js ''prune_objects'' \<and> raw = [] then Some (PruneMissingConditions line)
         else if mode = js ''pass_headers'' \<and> raw = [] then Some (PassHeadersMissingNames line)
         else if mode = js ''pass_headers'' \<and> parsePassHeaderNames E (parseLooseValue E raw) = []
           then Some (PassHeadersInvalid line)
         else None)"

fun validateFrom :: "penv \<Rightarrow> nat \<Rightarrow> ParamOverrideOperation list \<Rightarrow> ParamError option" where
  "validateFrom E i [] = None"
| "validateFrom E i (op # ops) =
     (case validateOperation E op (i + 1) of Some e \<Rightarrow> Some e | None \<Rightarrow> validateFrom E (Suc i) ops)"

definition validateOperations :: "penv \<Rightarrow> ParamOverrideOperation list \<Rightarrow> ParamError option" where
  "validateOperations E operations = validateFrom E 0 operations"

subsection \<open>The JSON of the rules\<close>

definition buildConditionPayload :: "penv \<Rightarrow> ParamOverrideCondition \<Rightarrow> json option" where
  "buildConditionPayload E c =
     (let path = trim (c_path c) in
      if path = [] then None
      else Some (JObj
        (put (c_pass_missing_key c) ''pass_missing_key'' (JBool True)
          (put (c_invert c) ''invert'' (JBool True)
            [(js ''path'', JStr path), (js ''mode'', JStr (or_str (Some (c_mode c)) (js ''full''))),
             (js ''value'', parseLooseValue E (c_value_text c))]))))"

text \<open>\<open>if (!payload[k] && pathValue) payload[k] = pathValue\<close>, where \<open>payload[k]\<close> is a string or absent.\<close>

definition aliasField :: "bool \<Rightarrow> string \<Rightarrow> jsstr \<Rightarrow> (jsstr, json) omap \<Rightarrow> (jsstr, json) omap" where
  "aliasField b k path payload =
     put (b \<and> (case omap_get payload (js k) of Some v \<Rightarrow> \<not> truthy v | None \<Rightarrow> True) \<and> path \<noteq> []) k (JStr path) payload"

definition operationFields :: "penv \<Rightarrow> ParamOverrideOperation \<Rightarrow> (jsstr, json) omap" where
  "operationFields E op =
     (let mode = opMode op; meta = modeMeta mode;
          description = trim (o_description op); path = trim (o_path op);
          fromValue = trim (o_from op); toValue = trim (o_to op);
          p = [(js ''mode'', JStr mode)];
          p = put (description \<noteq> []) ''description'' (JStr description) p;
          p = put (m_path meta) ''path'' (JStr path) p;
          p = put (m_pathOptional meta \<and> path \<noteq> []) ''path'' (JStr path) p;
          p = put (m_value meta) ''value'' (parseLooseValue E (o_value_text op)) p;
          p = put (m_keepOrigin meta \<and> o_keep_origin op) ''keep_origin'' (JBool True) p;
          p = put (m_from meta) ''from'' (JStr fromValue) p;
          p = put (m_to meta \<noteq> Some True \<and> toValue \<noteq> []) ''to'' (JStr toValue) p;
          p = put (m_to meta = Some True) ''to'' (JStr toValue) p;
          p = aliasField (m_pathAlias meta) ''from'' path p
      in aliasField (m_pathAlias meta) ''to'' path p)"

definition conditionPayloads :: "penv \<Rightarrow> ParamOverrideOperation \<Rightarrow> json list" where
  "conditionPayloads E op = List.map_filter (buildConditionPayload E) (o_conditions op)"

definition operationPayload :: "penv \<Rightarrow> ParamOverrideOperation \<Rightarrow> json" where
  "operationPayload E op =
     (let conditions = conditionPayloads E op in
      JObj (put (conditions \<noteq> []) ''logic'' (JStr (if o_logic op = js ''AND'' then js ''AND'' else js ''OR''))
        (put (conditions \<noteq> []) ''conditions'' (JArr conditions) (operationFields E op))))"

definition operationsValue :: "penv \<Rightarrow> ParamOverrideOperation list \<Rightarrow> json" where
  "operationsValue E ops = JObj [(js ''operations'', JArr (map (operationPayload E) ops))]"

definition buildOperationsJson :: "penv \<Rightarrow> ParamOverrideOperation list \<Rightarrow> bool \<Rightarrow> ParamError + jsstr" where
  "buildOperationsJson E sourceOperations validate =
     (let filteredOps = filter (\<lambda>x. \<not> isOperationBlank x) sourceOperations in
      if filteredOps = [] then Inr []
      else case (if validate then validateOperations E filteredOps else None) of
        Some e \<Rightarrow> Inl e
      | None \<Rightarrow> Inr (pretty E (operationsValue E filteredOps)))"

subsection \<open>The state the editor opens with\<close>

datatype EditMode = Visual | JsonText

datatype VisualMode = Operations | Legacy

text \<open>What the field \<open>jsonError\<close> shows: nothing, \<open>Invalid JSON format\<close>, \<open>JSON format error\<close>, or the
  message of an error raised while the text was built.\<close>

datatype JsonError = NoError | InvalidFormat | FormatError | BuildError ParamError

record EditorState =
  es_editMode :: EditMode
  es_visualMode :: VisualMode
  es_legacyValue :: jsstr
  es_operations :: "ParamOverrideOperation list"
  es_jsonText :: jsstr
  es_jsonError :: JsonError

definition initialOperations :: "penv \<Rightarrow> nat \<Rightarrow> json list \<Rightarrow> (ParamOverrideOperation list \<times> nat) option" where
  "initialOperations E n items =
     (if items \<noteq> [] then map_seed (normalizeOperation E) n items
      else let (op, n') = createDefaultOperation E n in Some ([op], n'))"

definition parseInitialState :: "penv \<Rightarrow> nat \<Rightarrow> jsstr \<Rightarrow> (EditorState \<times> nat) option" where
  "parseInitialState E n rawValue =
     (let trimmed = trim rawValue; (dflt, n1) = createDefaultOperation E n;
          state = \<lparr>es_editMode = Visual, es_visualMode = Operations, es_legacyValue = [],
            es_operations = [dflt], es_jsonText = [], es_jsonError = NoError\<rparr>
      in if trimmed = [] then Some (state, n1)
         else case parse E trimmed of
           None \<Rightarrow> Some (state\<lparr>es_editMode := JsonText, es_jsonText := rawValue,
                              es_jsonError := InvalidFormat\<rparr>, n1)
         | Some (JObj fs) \<Rightarrow>
             (let text' = pretty E (JObj fs) in
              case jprop ''operations'' (JObj fs) of
                Some (JArr items) \<Rightarrow> do {
                  (ops, n') \<leftarrow> initialOperations E n items;
                  Some (state\<lparr>es_operations := ops, es_jsonText := text'\<rparr>, n') }
              | _ \<Rightarrow> Some (state\<lparr>es_visualMode := Legacy, es_legacyValue := text', es_jsonText := text'\<rparr>, n1))
         | Some v \<Rightarrow> Some (state\<lparr>es_editMode := JsonText, es_jsonText := pretty E v\<rparr>, n1))"

end
