(* ===== verification/ParamOverrideEditor.thy ===== *)
theory ParamOverrideEditor
  imports ParamOverride
begin

text \<open>
  The component \<open>ParamOverrideEditorDialog\<close>: its state, its handlers, the effects that run after a
  render, and the events a user can cause. The identifiers that are drawn come from a counter kept
  in the state. An event handler that raises changes nothing; the identifiers it had drawn are used
  by nothing, so their numbers may be drawn again.
\<close>

section \<open>Definitions\<close>

subsection \<open>Templates\<close>

definition jstr :: "string \<Rightarrow> json" where
  "jstr s = JStr (js s)"

definition jobj :: "(string \<times> json) list \<Rightarrow> json" where
  "jobj fs = JObj (map (\<lambda>(k, v). (js k, v)) fs)"

definition LEGACY_TEMPLATE :: "(string \<times> json) list" where
  "LEGACY_TEMPLATE = [(''temperature'', JNum 0), (''max_tokens'', JNum 1000)]"

definition OPERATION_TEMPLATE :: "json list" where
  "OPERATION_TEMPLATE = [jobj [
     (''description'', jstr ''Set default temperature for openai/* models.''),
     (''path'', jstr ''temperature''), (''mode'', jstr ''set''), (''value'', JNum (7 / 10)),
     (''conditions'', JArr [jobj [(''path'', jstr ''model''), (''mode'', jstr ''prefix''), (''value'', jstr ''openai/'')]]),
     (''logic'', jstr ''AND'')]]"

definition HEADER_PASSTHROUGH_TEMPLATE :: "json list" where
  "HEADER_PASSTHROUGH_TEMPLATE = [jobj [
     (''description'', jstr ''Pass through X-Request-Id header to upstream.''), (''mode'', jstr ''pass_headers''),
     (''value'', JArr [jstr ''X-Request-Id'']), (''keep_origin'', JBool True)]]"

definition modelCondition :: "string \<Rightarrow> string \<Rightarrow> json" where
  "modelCondition mode v = jobj [(''path'', jstr ''original_model''), (''mode'', jstr mode), (''value'', jstr v)]"

definition GEMINI_IMAGE_4K_TEMPLATE :: "json list" where
  "GEMINI_IMAGE_4K_TEMPLATE = [jobj [
     (''description'', jstr ''Set imageSize to 4K when model contains gemini/image and ends with 4k.''),
     (''mode'', jstr ''set''), (''path'', jstr ''generationConfig.imageConfig.imageSize''), (''value'', jstr ''4K''),
     (''conditions'', JArr [modelCondition ''contains'' ''gemini'', modelCondition ''contains'' ''image'',
        modelCondition ''suffix'' ''4k'']),
     (''logic'', jstr ''AND'')]]"

definition CODEX_CLI_HEADER_PASSTHROUGH_HEADERS :: "string list" where
  "CODEX_CLI_HEADER_PASSTHROUGH_HEADERS = [''Originator'', ''Session_id'', ''Thread_id'', ''Session-Id'', ''Thread-Id'',
     ''X-Client-Request-Id'', ''User-Agent'', ''X-Codex-Beta-Features'', ''X-Codex-Turn-State'',
     ''X-Codex-Turn-Metadata'', ''X-Codex-Window-Id'', ''X-Codex-Parent-Thread-Id'', ''X-OpenAI-Subagent'',
     ''X-OpenAI-Memgen-Request'', ''X-ResponsesAPI-Include-Timing-Metrics'',
     ''X-OpenAI-Internal-Codex-Responses-Lite'']"

definition CLAUDE_CLI_HEADER_PASSTHROUGH_HEADERS :: "string list" where
  "CLAUDE_CLI_HEADER_PASSTHROUGH_HEADERS = [''X-Stainless-Arch'', ''X-Stainless-Lang'', ''X-Stainless-Os'',
     ''X-Stainless-Package-Version'', ''X-Stainless-Retry-Count'', ''X-Stainless-Runtime'',
     ''X-Stainless-Runtime-Version'', ''X-Stainless-Timeout'', ''User-Agent'', ''X-App'', ''Anthropic-Beta'',
     ''Anthropic-Dangerous-Direct-Browser-Access'', ''Anthropic-Version'']"

definition buildPassHeadersTemplate :: "string list \<Rightarrow> json list" where
  "buildPassHeadersTemplate headers = [jobj [(''mode'', jstr ''pass_headers''), (''value'', JArr (map jstr headers)),
     (''keep_origin'', JBool True)]]"

definition bedrockTokens :: "(string \<times> json) list" where
  "bedrockTokens = [
     (''advanced-tool-use-2025-11-20'', jstr ''tool-search-tool-2025-10-19''),
     (''bash_20241022'', JNull), (''bash_20250124'', JNull), (''code-execution-2025-08-25'', JNull),
     (''compact-2026-01-12'', jstr ''compact-2026-01-12''),
     (''computer-use-2025-01-24'', jstr ''computer-use-2025-01-24''),
     (''computer-use-2025-11-24'', jstr ''computer-use-2025-11-24''),
     (''context-1m-2025-08-07'', jstr ''context-1m-2025-08-07''),
     (''context-management-2025-06-27'', jstr ''context-management-2025-06-27''),
     (''effort-2025-11-24'', JNull), (''fast-mode-2026-02-01'', JNull), (''files-api-2025-04-14'', JNull),
     (''fine-grained-tool-streaming-2025-05-14'', JNull),
     (''interleaved-thinking-2025-05-14'', jstr ''interleaved-thinking-2025-05-14''),
     (''mcp-client-2025-11-20'', JNull), (''mcp-client-2025-04-04'', JNull), (''mcp-servers-2025-12-04'', JNull),
     (''output-128k-2025-02-19'', JNull), (''structured-output-2024-03-01'', JNull),
     (''prompt-caching-scope-2026-01-05'', JNull), (''skills-2025-10-02'', JNull),
     (''structured-outputs-2025-11-13'', JNull), (''text_editor_20241022'', JNull),
     (''text_editor_20250124'', JNull), (''token-efficient-tools-2025-02-19'', JNull),
     (''tool-search-tool-2025-10-19'', jstr ''tool-search-tool-2025-10-19''),
     (''web-fetch-2025-09-10'', JNull), (''web-search-2025-03-05'', JNull), (''oauth-2025-04-20'', JNull)]"

definition AWS_BEDROCK_ANTHROPIC_COMPAT_TEMPLATE :: "json list" where
  "AWS_BEDROCK_ANTHROPIC_COMPAT_TEMPLATE = [
     jobj [(''description'', jstr ''Normalize anthropic-beta header tokens for Bedrock compatibility.''),
       (''mode'', jstr ''set_header''), (''path'', jstr ''anthropic-beta''), (''value'', jobj bedrockTokens)],
     jobj [(''description'', jstr ''Remove all tools[*].custom.input_examples before upstream relay.''),
       (''mode'', jstr ''delete''), (''path'', jstr ''tools.*.custom.input_examples'')]]"

datatype TemplatePayload = OperationsPayload "json list" | LegacyPayload "(string \<times> json) list"

definition TEMPLATE_PRESET_CONFIG :: "(string \<times> string \<times> TemplatePayload) list" where
  "TEMPLATE_PRESET_CONFIG = [
     (''operations_default'', ''New Format Template'', OperationsPayload OPERATION_TEMPLATE),
     (''legacy_default'', ''Legacy Format Template'', LegacyPayload LEGACY_TEMPLATE),
     (''pass_headers_auth'', ''Header Passthrough (X-Request-Id)'', OperationsPayload HEADER_PASSTHROUGH_TEMPLATE),
     (''gemini_image_4k'', ''Gemini Image 4K'', OperationsPayload GEMINI_IMAGE_4K_TEMPLATE),
     (''claude_cli_headers_passthrough'', ''Claude CLI Header Passthrough'',
        OperationsPayload (buildPassHeadersTemplate CLAUDE_CLI_HEADER_PASSTHROUGH_HEADERS)),
     (''codex_cli_headers_passthrough'', ''Codex CLI Header Passthrough'',
        OperationsPayload (buildPassHeadersTemplate CODEX_CLI_HEADER_PASSTHROUGH_HEADERS)),
     (''aws_bedrock_anthropic_beta_override'', ''AWS Bedrock Claude Compat'',
        OperationsPayload AWS_BEDROCK_ANTHROPIC_COMPAT_TEMPLATE)]"

text \<open>\<open>TEMPLATE_PRESET_CONFIG[key] || TEMPLATE_PRESET_CONFIG.operations_default\<close>.\<close>

definition presetPayload :: "string \<Rightarrow> TemplatePayload" where
  "presetPayload key = (case map_of TEMPLATE_PRESET_CONFIG key of
      Some (label, payload) \<Rightarrow> payload
    | None \<Rightarrow> OperationsPayload OPERATION_TEMPLATE)"

subsection \<open>State\<close>

text \<open>The \<open>useState\<close> cells, the draft of \<open>prune_objects\<close> that was last rendered, the counter of
  identifiers, whether the dialog is shown, and what was reported: messages and saved values.\<close>

record pstate =
  editMode :: EditMode
  visualMode :: VisualMode
  legacyValue :: jsstr
  operations :: "ParamOverrideOperation list"
  jsonText :: jsstr
  jsonError :: JsonError
  operationSearch :: jsstr
  selectedOperationId :: jsstr
  expandedConditions :: "(jsstr, bool) omap"
  draggedOperationId :: jsstr
  dragOverOperationId :: jsstr
  dragOverPosition :: Position
  templatePresetKey :: string
  shownPrune :: "PruneObjectsDraft option"
  seed :: nat
  shown :: bool
  toasts :: "ParamError list"
  saved :: "jsstr list"

definition mountState :: "penv \<Rightarrow> nat \<Rightarrow> pstate" where
  "mountState E n =
     (let (op, n') = createDefaultOperation E n in
      \<lparr>editMode = Visual, visualMode = Operations, legacyValue = [], operations = [op], jsonText = [],
       jsonError = NoError, operationSearch = [], selectedOperationId = [], expandedConditions = [],
       draggedOperationId = [], dragOverOperationId = [], dragOverPosition = Before,
       templatePresetKey = ''operations_default'', shownPrune = None, seed = n', shown = False,
       toasts = [], saved = []\<rparr>)"

text \<open>The effect that runs when the dialog is opened or its value changes.\<close>

definition openDialog :: "penv \<Rightarrow> jsstr \<Rightarrow> pstate \<Rightarrow> pstate option" where
  "openDialog E v s = do {
     (st, n') \<leftarrow> parseInitialState E (seed s) v;
     Some (s\<lparr>shown := True, editMode := es_editMode st, visualMode := es_visualMode st,
       legacyValue := es_legacyValue st, operations := es_operations st, jsonText := es_jsonText st,
       jsonError := es_jsonError st, operationSearch := [],
       selectedOperationId := (case es_operations st of x # _ \<Rightarrow> o_id x | [] \<Rightarrow> []),
       expandedConditions := [], draggedOperationId := [], dragOverOperationId := [],
       dragOverPosition := Before,
       templatePresetKey := (if es_visualMode st = Legacy then ''legacy_default'' else ''operations_default''),
       seed := n'\<rparr>) }"

text \<open>The effect that keeps the selection valid.\<close>

definition keepSelected :: "pstate \<Rightarrow> pstate" where
  "keepSelected s = (case operations s of
      [] \<Rightarrow> s\<lparr>selectedOperationId := []\<rparr>
    | x # _ \<Rightarrow> if list_ex (\<lambda>y. o_id y = selectedOperationId s) (operations s) then s
              else s\<lparr>selectedOperationId := o_id x\<rparr>)"

subsection \<open>Derived values\<close>

definition operationCount :: "pstate \<Rightarrow> nat" where
  "operationCount s = length (filter (\<lambda>x. \<not> isOperationBlank x) (operations s))"

definition searchableText :: "penv \<Rightarrow> ParamOverrideOperation \<Rightarrow> jsstr" where
  "searchableText E x = lower E (join [32] (filter (\<lambda>t. t \<noteq> [])
     [o_description x, o_mode x, o_path x, o_from x, o_to x, o_value_text x]))"

definition filteredOperations :: "penv \<Rightarrow> pstate \<Rightarrow> ParamOverrideOperation list" where
  "filteredOperations E s =
     (let keyword = lower E (trim (operationSearch s)) in
      if keyword = [] then operations s
      else filter (\<lambda>x. js_includes (searchableText E x) keyword) (operations s))"

definition selectedOperation :: "pstate \<Rightarrow> ParamOverrideOperation option" where
  "selectedOperation s = find (\<lambda>x. o_id x = selectedOperationId s) (operations s)"

definition selectedOperationIndex :: "pstate \<Rightarrow> nat option" where
  "selectedOperationIndex s = find_index (\<lambda>x. o_id x = selectedOperationId s) (operations s)"

definition returnErrorDraft :: "penv \<Rightarrow> pstate \<Rightarrow> ReturnErrorDraft option" where
  "returnErrorDraft E s = (case selectedOperation s of
      Some x \<Rightarrow> if o_mode x = js ''return_error'' then Some (parseReturnErrorDraft E (o_value_text x)) else None
    | None \<Rightarrow> None)"

text \<open>A render computes the draft of \<open>prune_objects\<close>, and draws an identifier for each of its rules.\<close>

definition renderPrune :: "penv \<Rightarrow> pstate \<Rightarrow> pstate" where
  "renderPrune E s = (case selectedOperation s of
      Some x \<Rightarrow> if o_mode x = js ''prune_objects''
        then let (draft, n') = parsePruneObjectsDraft E (seed s) (o_value_text x)
             in s\<lparr>shownPrune := Some draft, seed := n'\<rparr>
        else s\<lparr>shownPrune := None\<rparr>
    | None \<Rightarrow> s\<lparr>shownPrune := None\<rparr>)"

definition topOperationModes :: "pstate \<Rightarrow> (jsstr \<times> nat) list" where
  "topOperationModes s =
     (let counts = foldl (\<lambda>m x. omap_set m (opMode x) (nullish (omap_get m (opMode x)) 0 + 1)) [] (operations s)
      in take 4 (js_sort (\<lambda>a b. int (snd b) - int (snd a)) counts))"

subsection \<open>Rules and conditions\<close>

text \<open>\<open>setOperations((prev) => prev.map((o) => (o.id === id ? f(o) : o)))\<close>.\<close>

definition mapOperation ::
  "jsstr \<Rightarrow> (ParamOverrideOperation \<Rightarrow> ParamOverrideOperation) \<Rightarrow> ParamOverrideOperation list \<Rightarrow> ParamOverrideOperation list" where
  "mapOperation opId f ops = map (\<lambda>x. if o_id x = opId then f x else x) ops"

text \<open>The patches the editors of the rules pass.\<close>

datatype OperationPatch =
    PatchMode jsstr
  | PatchPath jsstr
  | PatchDescription jsstr
  | PatchValueText jsstr
  | PatchKeepOrigin bool
  | PatchFrom jsstr
  | PatchTo jsstr
  | PatchFromTo jsstr jsstr
  | PatchLogic jsstr

fun applyPatch :: "OperationPatch \<Rightarrow> ParamOverrideOperation \<Rightarrow> ParamOverrideOperation" where
  "applyPatch (PatchMode v) x = x\<lparr>o_mode := v\<rparr>"
| "applyPatch (PatchPath v) x = x\<lparr>o_path := v\<rparr>"
| "applyPatch (PatchDescription v) x = x\<lparr>o_description := v\<rparr>"
| "applyPatch (PatchValueText v) x = x\<lparr>o_value_text := v\<rparr>"
| "applyPatch (PatchKeepOrigin b) x = x\<lparr>o_keep_origin := b\<rparr>"
| "applyPatch (PatchFrom v) x = x\<lparr>o_from := v\<rparr>"
| "applyPatch (PatchTo v) x = x\<lparr>o_to := v\<rparr>"
| "applyPatch (PatchFromTo v w) x = x\<lparr>o_from := v, o_to := w\<rparr>"
| "applyPatch (PatchLogic v) x = x\<lparr>o_logic := v\<rparr>"

definition updateOperation :: "jsstr \<Rightarrow> OperationPatch \<Rightarrow> pstate \<Rightarrow> pstate" where
  "updateOperation opId patch s = s\<lparr>operations := mapOperation opId (applyPatch patch) (operations s)\<rparr>"

text \<open>The button that formats the value of the rule.\<close>

definition formatValue :: "penv \<Rightarrow> ParamOverrideOperation \<Rightarrow> pstate \<Rightarrow> pstate" where
  "formatValue E x s = (case parse E (o_value_text x) of
      Some v \<Rightarrow> updateOperation (o_id x) (PatchValueText (pretty E v)) s
    | None \<Rightarrow> s)"

text \<open>The endpoints of \<open>sync_fields\<close>: the type or the key of one of them is edited.\<close>

definition syncFromType :: "ParamOverrideOperation \<Rightarrow> jsstr \<Rightarrow> OperationPatch" where
  "syncFromType x ty = PatchFrom (buildSyncTargetSpec ty (snd (parseSyncTargetSpec (o_from x))))"

definition syncFromKey :: "ParamOverrideOperation \<Rightarrow> jsstr \<Rightarrow> OperationPatch" where
  "syncFromKey x key = PatchFrom (buildSyncTargetSpec (fst (parseSyncTargetSpec (o_from x))) key)"

definition syncToType :: "ParamOverrideOperation \<Rightarrow> jsstr \<Rightarrow> OperationPatch" where
  "syncToType x ty = PatchTo (buildSyncTargetSpec ty (snd (parseSyncTargetSpec (o_to x))))"

definition syncToKey :: "ParamOverrideOperation \<Rightarrow> jsstr \<Rightarrow> OperationPatch" where
  "syncToKey x key = PatchTo (buildSyncTargetSpec (fst (parseSyncTargetSpec (o_to x))) key)"

definition addOperation :: "penv \<Rightarrow> pstate \<Rightarrow> pstate" where
  "addOperation E s =
     (let (created, n') = createDefaultOperation E (seed s) in
      s\<lparr>operations := operations s @ [created], selectedOperationId := o_id created, seed := n'\<rparr>)"

text \<open>The object that is passed to \<open>normalizeOperation\<close> to copy a rule.\<close>

definition conditionCopy :: "penv \<Rightarrow> ParamOverrideCondition \<Rightarrow> json" where
  "conditionCopy E c = jobj [(''path'', JStr (c_path c)), (''mode'', JStr (c_mode c)),
     (''value'', parseLooseValue E (c_value_text c)), (''invert'', JBool (c_invert c)),
     (''pass_missing_key'', JBool (c_pass_missing_key c))]"

definition operationCopy :: "penv \<Rightarrow> ParamOverrideOperation \<Rightarrow> json" where
  "operationCopy E x = jobj [(''description'', JStr (o_description x)), (''path'', JStr (o_path x)),
     (''mode'', JStr (o_mode x)), (''value'', parseLooseValue E (o_value_text x)),
     (''keep_origin'', JBool (o_keep_origin x)), (''from'', JStr (o_from x)), (''to'', JStr (o_to x)),
     (''logic'', JStr (o_logic x)), (''conditions'', JArr (map (conditionCopy E) (o_conditions x)))]"

text \<open>\<open>eager\<close> says whether React runs the update before \<open>setOperations\<close> returns: only then the copy
  is selected.\<close>

definition duplicateOperation :: "penv \<Rightarrow> jsstr \<Rightarrow> bool \<Rightarrow> pstate \<Rightarrow> pstate" where
  "duplicateOperation E opId eager s =
     (case find_index (\<lambda>x. o_id x = opId) (operations s) of
        None \<Rightarrow> s
      | Some idx \<Rightarrow>
          let (cloned, n') = the (normalizeOperation E (seed s) (operationCopy E (operations s ! idx))) in
          s\<lparr>operations := splice_in (idx + 1) cloned (operations s), seed := n',
            selectedOperationId := (if eager then o_id cloned else selectedOperationId s)\<rparr>)"

definition removeOperation :: "penv \<Rightarrow> jsstr \<Rightarrow> pstate \<Rightarrow> pstate" where
  "removeOperation E opId s =
     (if length (operations s) \<le> 1
      then let (created, n') = createDefaultOperation E (seed s) in s\<lparr>operations := [created], seed := n'\<rparr>
      else s\<lparr>operations := filter (\<lambda>x. o_id x \<noteq> opId) (operations s)\<rparr>)"

definition addCondition :: "penv \<Rightarrow> jsstr \<Rightarrow> pstate \<Rightarrow> pstate" where
  "addCondition E opId s =
     (let (created, n') = createDefaultCondition E (seed s) in
      s\<lparr>operations := mapOperation opId (\<lambda>x. x\<lparr>o_conditions := o_conditions x @ [created]\<rparr>) (operations s),
        expandedConditions := omap_set (expandedConditions s) (c_id created) True, seed := n'\<rparr>)"

datatype ConditionPatch =
    CondPath jsstr
  | CondMode jsstr
  | CondValueText jsstr
  | CondInvert bool
  | CondPassMissingKey bool

fun applyConditionPatch :: "ConditionPatch \<Rightarrow> ParamOverrideCondition \<Rightarrow> ParamOverrideCondition" where
  "applyConditionPatch (CondPath v) c = c\<lparr>c_path := v\<rparr>"
| "applyConditionPatch (CondMode v) c = c\<lparr>c_mode := v\<rparr>"
| "applyConditionPatch (CondValueText v) c = c\<lparr>c_value_text := v\<rparr>"
| "applyConditionPatch (CondInvert b) c = c\<lparr>c_invert := b\<rparr>"
| "applyConditionPatch (CondPassMissingKey b) c = c\<lparr>c_pass_missing_key := b\<rparr>"

definition mapConditions :: "(ParamOverrideCondition list \<Rightarrow> ParamOverrideCondition list) \<Rightarrow> ParamOverrideOperation \<Rightarrow> ParamOverrideOperation" where
  "mapConditions f x = x\<lparr>o_conditions := f (o_conditions x)\<rparr>"

definition updateCondition :: "jsstr \<Rightarrow> jsstr \<Rightarrow> ConditionPatch \<Rightarrow> pstate \<Rightarrow> pstate" where
  "updateCondition opId condId patch s =
     s\<lparr>operations := mapOperation opId
        (mapConditions (map (\<lambda>c. if c_id c = condId then applyConditionPatch patch c else c))) (operations s)\<rparr>"

definition removeCondition :: "jsstr \<Rightarrow> jsstr \<Rightarrow> pstate \<Rightarrow> pstate" where
  "removeCondition opId condId s =
     s\<lparr>operations := mapOperation opId (mapConditions (filter (\<lambda>c. c_id c \<noteq> condId))) (operations s)\<rparr>"

subsection \<open>Drafts\<close>

text \<open>\<open>Number.parseInt(s, 10) || 400\<close>.\<close>

definition parseIntOr400 :: "jsstr \<Rightarrow> jsnum" where
  "parseIntOr400 v =
     (let t = trim_start v; neg = prefix [45] t; body = (if neg \<or> prefix [43] t then tl t else t);
          digits = takeWhile is_digit body; k = int (parse_digits digits)
      in if digits = [] \<or> k = 0 then 400 else of_int (if neg then - k else k))"

datatype ReturnErrorPatch =
    ErrMessage jsstr
  | ErrStatusInput jsstr
  | ErrCode jsstr
  | ErrType jsstr
  | ErrSkipRetry bool
  | ErrSimpleMode bool
  | ErrPreset jsnum jsstr jsstr

fun applyReturnErrorPatch :: "ReturnErrorPatch \<Rightarrow> ReturnErrorDraft \<Rightarrow> ReturnErrorDraft" where
  "applyReturnErrorPatch (ErrMessage v) d = d\<lparr>rd_message := v\<rparr>"
| "applyReturnErrorPatch (ErrStatusInput v) d = d\<lparr>rd_statusCode := parseIntOr400 v\<rparr>"
| "applyReturnErrorPatch (ErrCode v) d = d\<lparr>rd_code := v\<rparr>"
| "applyReturnErrorPatch (ErrType v) d = d\<lparr>rd_type := v\<rparr>"
| "applyReturnErrorPatch (ErrSkipRetry b) d = d\<lparr>rd_skipRetry := b\<rparr>"
| "applyReturnErrorPatch (ErrSimpleMode b) d = d\<lparr>rd_simpleMode := b\<rparr>"
| "applyReturnErrorPatch (ErrPreset n c t) d = d\<lparr>rd_statusCode := n, rd_code := c, rd_type := t\<rparr>"

definition updateReturnErrorDraft :: "penv \<Rightarrow> jsstr \<Rightarrow> ReturnErrorPatch \<Rightarrow> pstate \<Rightarrow> pstate" where
  "updateReturnErrorDraft E opId patch s =
     s\<lparr>operations := mapOperation opId (\<lambda>x. x\<lparr>o_value_text :=
        buildReturnErrorValueText E (applyReturnErrorPatch patch (parseReturnErrorDraft E (o_value_text x)))\<rparr>) (operations s)\<rparr>"

text \<open>\<open>updatePruneObjectsDraft\<close>: every rule that has the identifier draws the identifiers of its draft; the
  updater may draw more.\<close>

fun mapPrune ::
  "penv \<Rightarrow> jsstr \<Rightarrow> (nat \<Rightarrow> PruneObjectsDraft \<Rightarrow> PruneObjectsDraft \<times> nat) \<Rightarrow> nat \<Rightarrow> ParamOverrideOperation list
     \<Rightarrow> ParamOverrideOperation list \<times> nat" where
  "mapPrune E opId updater n [] = ([], n)"
| "mapPrune E opId updater n (x # ops) =
     (if o_id x \<noteq> opId then (let (ys, n') = mapPrune E opId updater n ops in (x # ys, n'))
      else let (draft, n1) = parsePruneObjectsDraft E n (o_value_text x);
               (nextDraft, n2) = updater n1 draft;
               (ys, n') = mapPrune E opId updater n2 ops
           in (x\<lparr>o_value_text := buildPruneObjectsValueText E nextDraft\<rparr> # ys, n'))"

definition updatePruneObjectsDraft ::
  "penv \<Rightarrow> jsstr \<Rightarrow> (nat \<Rightarrow> PruneObjectsDraft \<Rightarrow> PruneObjectsDraft \<times> nat) \<Rightarrow> pstate \<Rightarrow> pstate" where
  "updatePruneObjectsDraft E opId updater s =
     (let (ops, n') = mapPrune E opId updater (seed s) (operations s) in s\<lparr>operations := ops, seed := n'\<rparr>)"

datatype PrunePatch =
    PruneTypeText jsstr
  | PruneLogic jsstr
  | PruneRecursive bool
  | PruneSimpleMode bool

fun applyPrunePatch :: "PrunePatch \<Rightarrow> PruneObjectsDraft \<Rightarrow> PruneObjectsDraft" where
  "applyPrunePatch (PruneTypeText v) d = d\<lparr>pd_typeText := v\<rparr>"
| "applyPrunePatch (PruneLogic v) d = d\<lparr>pd_logic := v\<rparr>"
| "applyPrunePatch (PruneRecursive b) d = d\<lparr>pd_recursive := b\<rparr>"
| "applyPrunePatch (PruneSimpleMode b) d = d\<lparr>pd_simpleMode := b\<rparr>"

definition patchPrune :: "penv \<Rightarrow> jsstr \<Rightarrow> PrunePatch \<Rightarrow> pstate \<Rightarrow> pstate" where
  "patchPrune E opId patch = updatePruneObjectsDraft E opId (\<lambda>n d. (applyPrunePatch patch d, n))"

definition addPruneRule :: "penv \<Rightarrow> jsstr \<Rightarrow> pstate \<Rightarrow> pstate" where
  "addPruneRule E opId = updatePruneObjectsDraft E opId
     (\<lambda>n d. (d\<lparr>pd_simpleMode := False, pd_rules := pd_rules d @ [normalizePruneRule E n (JObj [])]\<rparr>, Suc n))"

datatype RulePatch =
    RulePath jsstr
  | RuleMode jsstr
  | RuleValueText jsstr
  | RuleInvert bool
  | RulePassMissingKey bool

fun applyRulePatch :: "RulePatch \<Rightarrow> PruneRule \<Rightarrow> PruneRule" where
  "applyRulePatch (RulePath v) r = r\<lparr>p_path := v\<rparr>"
| "applyRulePatch (RuleMode v) r = r\<lparr>p_mode := v\<rparr>"
| "applyRulePatch (RuleValueText v) r = r\<lparr>p_value_text := v\<rparr>"
| "applyRulePatch (RuleInvert b) r = r\<lparr>p_invert := b\<rparr>"
| "applyRulePatch (RulePassMissingKey b) r = r\<lparr>p_pass_missing_key := b\<rparr>"

definition updatePruneRule :: "penv \<Rightarrow> jsstr \<Rightarrow> jsstr \<Rightarrow> RulePatch \<Rightarrow> pstate \<Rightarrow> pstate" where
  "updatePruneRule E opId ruleId patch = updatePruneObjectsDraft E opId
     (\<lambda>n d. (d\<lparr>pd_rules := map (\<lambda>r. if p_id r = ruleId then applyRulePatch patch r else r) (pd_rules d)\<rparr>, n))"

definition removePruneRule :: "penv \<Rightarrow> jsstr \<Rightarrow> jsstr \<Rightarrow> pstate \<Rightarrow> pstate" where
  "removePruneRule E opId ruleId = updatePruneObjectsDraft E opId
     (\<lambda>n d. (d\<lparr>pd_rules := filter (\<lambda>r. p_id r \<noteq> ruleId) (pd_rules d)\<rparr>, n))"

subsection \<open>Drag and drop\<close>

definition resetDragState :: "pstate \<Rightarrow> pstate" where
  "resetDragState s = s\<lparr>draggedOperationId := [], dragOverOperationId := [], dragOverPosition := Before\<rparr>"

definition handleDragStart :: "jsstr \<Rightarrow> pstate \<Rightarrow> pstate" where
  "handleDragStart opId s = s\<lparr>draggedOperationId := opId, selectedOperationId := opId\<rparr>"

definition handleDragOver :: "jsstr \<Rightarrow> Position \<Rightarrow> pstate \<Rightarrow> pstate" where
  "handleDragOver opId position s =
     (if draggedOperationId s = [] \<or> draggedOperationId s = opId then s
      else s\<lparr>dragOverOperationId := opId, dragOverPosition := position\<rparr>)"

text \<open>The last argument but one is the text the browser transfers with the drop.\<close>

definition handleDrop :: "jsstr \<Rightarrow> jsstr \<Rightarrow> pstate \<Rightarrow> pstate" where
  "handleDrop opId transferred s =
     (let sourceId = or_str (Some (draggedOperationId s)) transferred;
          position = (if dragOverOperationId s = opId then dragOverPosition s else Before)
      in resetDragState
          (if sourceId \<noteq> [] \<and> opId \<noteq> [] \<and> sourceId \<noteq> opId
           then s\<lparr>operations := reorderOperations (operations s) sourceId opId position,
                  selectedOperationId := sourceId\<rparr>
           else s))"

subsection \<open>Modes and templates\<close>

definition buildVisualJson :: "penv \<Rightarrow> pstate \<Rightarrow> ParamError + jsstr" where
  "buildVisualJson E s =
     (if visualMode s = Legacy then
        let trimmed = trim (legacyValue s) in
        if trimmed = [] then Inr []
        else case parse E trimmed of
          None \<Rightarrow> Inl NotValidJSON
        | Some (JObj fs) \<Rightarrow> Inr (pretty E (JObj fs))
        | Some _ \<Rightarrow> Inl LegacyNotObject
      else buildOperationsJson E (operations s) True)"

definition switchToJsonMode :: "penv \<Rightarrow> pstate \<Rightarrow> pstate" where
  "switchToJsonMode E s =
     (if editMode s = JsonText then s
      else case buildVisualJson E s of
        Inr t \<Rightarrow> s\<lparr>jsonText := t, jsonError := NoError, editMode := JsonText\<rparr>
      | Inl e \<Rightarrow> s\<lparr>toasts := toasts s @ [e],
            jsonText := (if visualMode s = Legacy then legacyValue s
                         else case buildOperationsJson E (operations s) False of Inr t \<Rightarrow> t | Inl _ \<Rightarrow> jsonText s),
            jsonError := BuildError e, editMode := JsonText\<rparr>)"

definition showDefault :: "penv \<Rightarrow> pstate \<Rightarrow> pstate" where
  "showDefault E s =
     (let (fallback, n') = createDefaultOperation E (seed s) in
      s\<lparr>visualMode := Operations, operations := [fallback], selectedOperationId := o_id fallback,
        legacyValue := [], jsonError := NoError, editMode := Visual, seed := n'\<rparr>)"

definition switchToVisualMode :: "penv \<Rightarrow> pstate \<Rightarrow> pstate" where
  "switchToVisualMode E s =
     (if editMode s = Visual then s
      else let trimmed = trim (jsonText s) in
        if trimmed = [] then showDefault E s
        else case parse E trimmed of
          None \<Rightarrow> s\<lparr>toasts := toasts s @ [NotValidJSON]\<rparr>
        | Some (JObj fs) \<Rightarrow>
            (case jprop ''operations'' (JObj fs) of
               Some (JArr items) \<Rightarrow>
                 (case initialOperations E (seed s) items of
                    None \<Rightarrow> s
                  | Some (nextOps, n') \<Rightarrow>
                      s\<lparr>visualMode := Operations, operations := nextOps,
                        selectedOperationId := (case nextOps of x # _ \<Rightarrow> o_id x | [] \<Rightarrow> []),
                        legacyValue := [], jsonError := NoError, editMode := Visual,
                        templatePresetKey := ''operations_default'', seed := n'\<rparr>)
             | _ \<Rightarrow> (showDefault E s)\<lparr>visualMode := Legacy, legacyValue := pretty E (JObj fs),
                      templatePresetKey := ''legacy_default''\<rparr>)
        | Some _ \<Rightarrow> s\<lparr>toasts := toasts s @ [NotJSONObject]\<rparr>)"

text \<open>What the spread \<open>{...v}\<close> copies.\<close>

definition spreadEntries :: "json \<Rightarrow> (jsstr, json) omap" where
  "spreadEntries v = (case v of
      JObj fs \<Rightarrow> fs
    | JArr xs \<Rightarrow> map (\<lambda>(i, x). (show_nat i, x)) (enumerate 0 xs)
    | JStr t \<Rightarrow> map (\<lambda>(i, c). (show_nat i, JStr [c])) (enumerate 0 t)
    | _ \<Rightarrow> [])"

datatype FillMode = Fill | AppendTemplate

definition fillLegacy :: "penv \<Rightarrow> json \<Rightarrow> pstate \<Rightarrow> pstate" where
  "fillLegacy E v s =
     (let t = pretty E v; (created, n') = createDefaultOperation E (seed s) in
      s\<lparr>visualMode := Legacy, legacyValue := t, operations := [created], jsonText := t, jsonError := NoError,
        editMode := Visual, seed := n'\<rparr>)"

definition fillTemplate :: "penv \<Rightarrow> FillMode \<Rightarrow> pstate \<Rightarrow> pstate" where
  "fillTemplate E mode s = (case presetPayload (templatePresetKey s) of
      LegacyPayload payload \<Rightarrow>
        if mode = AppendTemplate \<and> visualMode s = Legacy then
          let trimmed = trim (legacyValue s) in
          if trimmed = [] then fillLegacy E (jobj payload) s
          else (case parse E trimmed of
            None \<Rightarrow> s\<lparr>toasts := toasts s @ [LegacyCannotAppend]\<rparr>
          | Some v \<Rightarrow> fillLegacy E
              (JObj (prop_order (assign_all (map (\<lambda>(k, v). (js k, v)) payload) (spreadEntries v)))) s)
        else fillLegacy E (jobj payload) s
    | OperationsPayload items \<Rightarrow>
        (case map_seed (normalizeOperation E) (seed s) items of
           None \<Rightarrow> s
         | Some (filled, n') \<Rightarrow>
             if mode = AppendTemplate then
               let existing = (if visualMode s = Operations then filter (\<lambda>x. \<not> isOperationBlank x) (operations s) else []);
                   nextOps = existing @ filled
               in s\<lparr>visualMode := Operations, operations := nextOps,
                    selectedOperationId := (case nextOps of x # _ \<Rightarrow> o_id x | [] \<Rightarrow> []),
                    legacyValue := [], jsonError := NoError, editMode := Visual, jsonText := [], seed := n'\<rparr>
             else
               let (finalOps, n'') = (if filled \<noteq> [] then (filled, n')
                     else let (created, k) = createDefaultOperation E n' in ([created], k))
               in s\<lparr>visualMode := Operations, operations := finalOps,
                    selectedOperationId := (case finalOps of x # _ \<Rightarrow> o_id x | [] \<Rightarrow> []),
                    jsonText := pretty E (jobj [(''operations'', JArr items)]), jsonError := NoError,
                    editMode := Visual, seed := n''\<rparr>))"

definition resetEditorState :: "penv \<Rightarrow> pstate \<Rightarrow> pstate" where
  "resetEditorState E s = (showDefault E s)\<lparr>jsonText := [], templatePresetKey := ''operations_default''\<rparr>"

definition handleJsonChange :: "penv \<Rightarrow> jsstr \<Rightarrow> pstate \<Rightarrow> pstate" where
  "handleJsonChange E nextValue s =
     (let trimmed = trim nextValue in
      s\<lparr>jsonText := nextValue,
        jsonError := (if trimmed = [] \<or> verifyJSON E trimmed then NoError else FormatError)\<rparr>)"

definition formatJson :: "penv \<Rightarrow> pstate \<Rightarrow> pstate" where
  "formatJson E s =
     (let trimmed = trim (jsonText s) in
      if trimmed = [] then s
      else case parse E trimmed of
        None \<Rightarrow> s\<lparr>toasts := toasts s @ [NotValidJSON]\<rparr>
      | Some v \<Rightarrow> s\<lparr>jsonText := pretty E v, jsonError := NoError\<rparr>)"

definition visualValidationError :: "penv \<Rightarrow> pstate \<Rightarrow> ParamError option" where
  "visualValidationError E s =
     (if editMode s \<noteq> Visual then None
      else case buildVisualJson E s of Inl e \<Rightarrow> Some e | Inr _ \<Rightarrow> None)"

definition saveResult :: "penv \<Rightarrow> pstate \<Rightarrow> ParamError + jsstr" where
  "saveResult E s =
     (if editMode s = JsonText then
        let trimmed = trim (jsonText s) in
        if trimmed = [] then Inr []
        else (case parse E trimmed of None \<Rightarrow> Inl NotValidJSON | Some v \<Rightarrow> Inr (pretty E v))
      else buildVisualJson E s)"

definition handleSave :: "penv \<Rightarrow> pstate \<Rightarrow> pstate" where
  "handleSave E s = (case saveResult E s of
      Inr result \<Rightarrow> s\<lparr>saved := saved s @ [result], shown := False\<rparr>
    | Inl e \<Rightarrow> s\<lparr>toasts := toasts s @ [e]\<rparr>)"

definition setAllConditions :: "bool \<Rightarrow> pstate \<Rightarrow> pstate" where
  "setAllConditions b s = (case selectedOperation s of
      None \<Rightarrow> s
    | Some x \<Rightarrow> s\<lparr>expandedConditions := foldl (\<lambda>m c. omap_set m (c_id c) b) (expandedConditions s) (o_conditions x)\<rparr>)"

subsection \<open>Events\<close>

datatype Event =
    OpenDialog jsstr
  | Render
  | Search jsstr
  | SelectRule jsstr
  | SelectTemplate string
  | EditLegacy jsstr
  | EditRule jsstr OperationPatch
  | FormatValue ParamOverrideOperation
  | AddRule
  | DuplicateRule jsstr bool
  | RemoveRule jsstr
  | AddCond jsstr
  | EditCond jsstr jsstr ConditionPatch
  | RemoveCond jsstr jsstr
  | ExpandCond jsstr bool
  | ExpandAll bool
  | EditReturnError jsstr ReturnErrorPatch
  | EditPrune jsstr PrunePatch
  | AddPrune jsstr
  | EditPruneRule jsstr jsstr RulePatch
  | RemovePruneRule jsstr jsstr
  | DragStart jsstr
  | DragOver jsstr Position
  | Drop jsstr jsstr
  | DragEnd
  | ToJson
  | ToVisual
  | FillTemplate FillMode
  | ResetEditor
  | EditJson jsstr
  | FormatJson
  | Save

text \<open>\<open>None\<close> where the effect raises and React unmounts the component.\<close>

fun handle :: "penv \<Rightarrow> Event \<Rightarrow> pstate \<Rightarrow> pstate option" where
  "handle E (OpenDialog v) s = openDialog E v s"
| "handle E Render s = Some (renderPrune E s)"
| "handle E (Search v) s = Some (s\<lparr>operationSearch := v\<rparr>)"
| "handle E (SelectRule i) s = Some (s\<lparr>selectedOperationId := i\<rparr>)"
| "handle E (SelectTemplate k) s = Some (s\<lparr>templatePresetKey := k\<rparr>)"
| "handle E (EditLegacy v) s = Some (s\<lparr>legacyValue := v\<rparr>)"
| "handle E (EditRule i patch) s = Some (updateOperation i patch s)"
| "handle E (FormatValue x) s = Some (formatValue E x s)"
| "handle E AddRule s = Some (addOperation E s)"
| "handle E (DuplicateRule i eager) s = Some (duplicateOperation E i eager s)"
| "handle E (RemoveRule i) s = Some (removeOperation E i s)"
| "handle E (AddCond i) s = Some (addCondition E i s)"
| "handle E (EditCond i c patch) s = Some (updateCondition i c patch s)"
| "handle E (RemoveCond i c) s = Some (removeCondition i c s)"
| "handle E (ExpandCond c b) s = Some (s\<lparr>expandedConditions := omap_set (expandedConditions s) c b\<rparr>)"
| "handle E (ExpandAll b) s = Some (setAllConditions b s)"
| "handle E (EditReturnError i patch) s = Some (updateReturnErrorDraft E i patch s)"
| "handle E (EditPrune i patch) s = Some (patchPrune E i patch s)"
| "handle E (AddPrune i) s = Some (addPruneRule E i s)"
| "handle E (EditPruneRule i r patch) s = Some (updatePruneRule E i r patch s)"
| "handle E (RemovePruneRule i r) s = Some (removePruneRule E i r s)"
| "handle E (DragStart i) s = Some (handleDragStart i s)"
| "handle E (DragOver i p) s = Some (handleDragOver i p s)"
| "handle E (Drop i t) s = Some (handleDrop i t s)"
| "handle E DragEnd s = Some (resetDragState s)"
| "handle E ToJson s = Some (switchToJsonMode E s)"
| "handle E ToVisual s = Some (switchToVisualMode E s)"
| "handle E (FillTemplate m) s = Some (fillTemplate E m s)"
| "handle E ResetEditor s = Some (resetEditorState E s)"
| "handle E (EditJson v) s = Some (handleJsonChange E v s)"
| "handle E FormatJson s = Some (formatJson E s)"
| "handle E Save s = Some (handleSave E s)"

text \<open>What the controls offer: the modes, logics and templates of their lists, and the rules of
  \<open>prune_objects\<close> that were rendered.\<close>

fun offered :: "pstate \<Rightarrow> Event \<Rightarrow> bool" where
  "offered s (EditRule i (PatchMode m)) \<longleftrightarrow> m \<in> OPERATION_MODE_VALUES"
| "offered s (EditRule i (PatchLogic l)) \<longleftrightarrow> l = js ''AND'' \<or> l = js ''OR''"
| "offered s (EditCond i c (CondMode m)) \<longleftrightarrow> m \<in> CONDITION_MODE_VALUES"
| "offered s (SelectTemplate k) \<longleftrightarrow> k \<in> set (map fst TEMPLATE_PRESET_CONFIG)"
| "offered s (EditPruneRule i r patch) \<longleftrightarrow> (\<exists>d\<in>set_option (shownPrune s). r \<in> p_id ` set (pd_rules d))"
| "offered s (RemovePruneRule i r) \<longleftrightarrow> (\<exists>d\<in>set_option (shownPrune s). r \<in> p_id ` set (pd_rules d))"
| "offered s _ \<longleftrightarrow> True"

inductive editorReachable :: "penv \<Rightarrow> pstate \<Rightarrow> bool" for E where
  mount: "editorReachable E (keepSelected (mountState E n))"
| step: "editorReachable E s \<Longrightarrow> offered s ev \<Longrightarrow> handle E ev s = Some s' \<Longrightarrow> editorReachable E (keepSelected s')"

subsection \<open>Well-formed states\<close>

definition validCondition :: "ParamOverrideCondition \<Rightarrow> bool" where
  "validCondition c \<longleftrightarrow> c_mode c \<in> CONDITION_MODE_VALUES"

definition validOperation :: "ParamOverrideOperation \<Rightarrow> bool" where
  "validOperation x \<longleftrightarrow> o_mode x \<in> OPERATION_MODE_VALUES \<and> (o_logic x = js ''AND'' \<or> o_logic x = js ''OR'')
     \<and> list_all validCondition (o_conditions x)"

definition operationIds :: "ParamOverrideOperation \<Rightarrow> jsstr list" where
  "operationIds x = o_id x # map c_id (o_conditions x)"

definition allIds :: "ParamOverrideOperation list \<Rightarrow> jsstr list" where
  "allIds ops = concat (map operationIds ops)"

text \<open>An identifier that was drawn before the counter reached \<open>n\<close>.\<close>

definition drawnBefore :: "penv \<Rightarrow> nat \<Rightarrow> jsstr set" where
  "drawnBefore E n = nextLocalId E ` {..<n}"

definition opsInv :: "penv \<Rightarrow> nat \<Rightarrow> ParamOverrideOperation list \<Rightarrow> bool" where
  "opsInv E n ops \<longleftrightarrow> distinct (allIds ops) \<and> set (allIds ops) \<subseteq> drawnBefore E n \<and> list_all validOperation ops"

definition editorInv :: "penv \<Rightarrow> pstate \<Rightarrow> bool" where
  "editorInv E s \<longleftrightarrow> operations s \<noteq> [] \<and> opsInv E (seed s) (operations s)
     \<and> selectedOperationId s \<in> o_id ` set (operations s)
     \<and> templatePresetKey s \<in> set (map fst TEMPLATE_PRESET_CONFIG)
     \<and> (\<forall>d\<in>set_option (shownPrune s). p_id ` set (pd_rules d) \<subseteq> drawnBefore E (seed s))"

end
