(* ===== verification/ParamOverrideInvariant.thy ===== *)
theory ParamOverrideInvariant
  imports ParamOverrideEditor
begin

text \<open>
  The states of the parameter override editor are well formed: there is always a rule, one of the
  rules is selected, the identifiers of rules and conditions are pairwise distinct and were drawn
  from the counter, and all modes and logics are registered ones. The order of the rules after a
  drop, and why edits of a rule of \<open>prune_objects\<close> are lost.
\<close>

section \<open>Identifiers\<close>

lemma show_int_chars: "c \<in> set (show_int i) \<Longrightarrow> c = 45 \<or> is_digit c"
  using show_nat_digits by (auto simp: show_int_def js_simps jsc_def split: if_splits)

lemma no_underscore: "95 \<notin> set (show_int i)" "95 \<notin> set (show_nat n)"
proof -
  have "\<not> is_digit 95" "(95 :: jschar) \<noteq> 45" by (simp_all add: is_digit_def)
  then show "95 \<notin> set (show_int i)" "95 \<notin> set (show_nat n)"
    using show_int_chars show_nat_digits by blast+
qed

lemma nextLocalId_parts: "nextLocalId E k = [112, 111] @ 95 # show_int (now E k) @ 95 # show_nat k"
  by (simp add: nextLocalId_def js_simps jsc_def)

lemma split_id:
  "split_on 95 ([112, 111] @ 95 # show_int i @ 95 # show_nat k) = [[112, 111], show_int i, show_nat k]"
  by (simp add: split_on_append_sep split_on_no_sep no_underscore)

lemma nextLocalId_inj [simp]: "nextLocalId E m = nextLocalId E n \<longleftrightarrow> m = n"
proof
  assume "nextLocalId E m = nextLocalId E n"
  then have "split_on 95 (nextLocalId E m) = split_on 95 (nextLocalId E n)" by (rule arg_cong)
  then have "show_nat m = show_nat n" unfolding nextLocalId_parts split_id by simp
  then show "m = n" by (simp add: show_nat_inj)
qed simp

lemma nextLocalId_ne [simp]: "nextLocalId E n \<noteq> []"
  by (simp add: nextLocalId_def)

lemma drawn_upt: "set (map (nextLocalId E) [m..<n]) \<inter> drawnBefore E m = {}"
  by (auto simp: drawnBefore_def)

lemma drawnBefore_mono: "m \<le> n \<Longrightarrow> drawnBefore E m \<subseteq> drawnBefore E n"
  by (auto simp: drawnBefore_def)

lemma distinct_ids: "distinct (map (nextLocalId E) [m..<n])"
  by (simp add: distinct_map inj_on_def)

lemma upt_join: "i \<le> j \<Longrightarrow> j \<le> k \<Longrightarrow> map f [i..<j] @ map f [j..<k] = map f [i..<k]"
  by (metis map_append upt_add_eq_append le_add_diff_inverse)

section \<open>What is read is well formed\<close>

lemma full_mode: "js ''full'' \<in> CONDITION_MODE_VALUES" and set_mode: "js ''set'' \<in> OPERATION_MODE_VALUES"
  by (simp_all add: CONDITION_MODE_VALUES_def CONDITION_MODE_OPTIONS_def OPERATION_MODE_VALUES_def OPERATION_MODE_OPTIONS_def)

lemma conditionMode_valid: "conditionMode j \<in> CONDITION_MODE_VALUES"
  by (simp add: conditionMode_def full_mode)

text \<open>\<open>fresh n xs n'\<close>: the identifiers of a list are the ones drawn from \<open>n\<close> up to \<open>n'\<close>.\<close>

definition fresh :: "penv \<Rightarrow> nat \<Rightarrow> jsstr list \<Rightarrow> nat \<Rightarrow> bool" where
  "fresh E n ids n' \<longleftrightarrow> n \<le> n' \<and> ids = map (nextLocalId E) [n..<n']"

lemma fresh_Nil: "fresh E n [] n"
  by (simp add: fresh_def)

lemma fresh_append: "fresh E n xs m \<Longrightarrow> fresh E m ys k \<Longrightarrow> fresh E n (xs @ ys) k"
  by (auto simp: fresh_def upt_join)

lemma fresh_one: "fresh E n [nextLocalId E n] (Suc n)"
  by (simp add: fresh_def)

lemma fresh_Cons: "fresh E (Suc n) xs m \<Longrightarrow> fresh E n (nextLocalId E n # xs) m"
  using fresh_append [OF fresh_one] by simp

lemma fresh_distinct: "fresh E n xs m \<Longrightarrow> distinct xs"
  using distinct_ids by (simp add: fresh_def)

lemma fresh_drawn: "fresh E n xs m \<Longrightarrow> set xs \<subseteq> drawnBefore E m"
  by (auto simp: fresh_def drawnBefore_def)

lemma fresh_disjoint: "fresh E n xs m \<Longrightarrow> set xs \<inter> drawnBefore E n = {}"
  using drawn_upt by (simp add: fresh_def)

lemma fresh_le: "fresh E n xs m \<Longrightarrow> n \<le> m"
  by (simp add: fresh_def)

lemma map_seed_fresh:
  assumes "\<And>n x y n'. f n x = Some (y, n') \<Longrightarrow> fresh E n (ids y) n' \<and> Q y"
    and "map_seed f n xs = Some (ys, n')"
  shows "fresh E n (concat (map ids ys)) n' \<and> list_all Q ys"
  using assms(2)
proof (induction xs arbitrary: n ys)
  case Nil
  then show ?case by (simp add: fresh_Nil)
next
  case (Cons x xs)
  from Cons.prems obtain y m zs where fx: "f n x = Some (y, m)" and rest: "map_seed f m xs = Some (zs, n')"
    and ys: "ys = y # zs" by (auto simp: Option.bind_eq_Some_conv split: prod.splits)
  from assms(1) [OF fx] Cons.IH [OF rest] show ?case by (auto simp: ys intro: fresh_append)
qed

lemma normalizeCondition_fresh:
  "normalizeCondition E n j = Some (c, n') \<Longrightarrow> fresh E n [c_id c] n' \<and> validCondition c"
  by (auto simp: normalizeCondition_def fresh_one validCondition_def conditionMode_valid split: if_splits)

lemma normalizeOperation_fresh:
  assumes "normalizeOperation E n j = Some (x, n')"
  shows "fresh E n (operationIds x) n' \<and> validOperation x"
proof -
  obtain cs where cs: "(case jprop ''conditions'' j of
      Some (JArr items) \<Rightarrow> map_seed (normalizeCondition E) (Suc n) items | _ \<Rightarrow> Some ([], Suc n)) = Some (cs, n')"
    and x: "o_id x = nextLocalId E n" "o_conditions x = cs"
      "o_mode x = (if strProp ''mode'' j \<in> OPERATION_MODE_VALUES then strProp ''mode'' j else js ''set'')"
      "o_logic x = operationLogic E j"
    using assms by (auto simp: normalizeOperation_def Option.bind_eq_Some_conv split: if_splits)
  have "fresh E (Suc n) (concat (map (\<lambda>c. [c_id c]) cs)) n' \<and> list_all validCondition cs"
    using cs map_seed_fresh [where f = "normalizeCondition E" and ids = "\<lambda>c. [c_id c]", OF normalizeCondition_fresh]
    by (auto simp: fresh_Nil split: option.splits json.splits)
  then show ?thesis
    by (simp add: operationIds_def x fresh_Cons validOperation_def set_mode operationLogic_def)
qed

lemma map_operations_fresh:
  assumes "map_seed (normalizeOperation E) n items = Some (ops, n')"
  shows "fresh E n (allIds ops) n' \<and> list_all validOperation ops"
  unfolding allIds_def by (rule map_seed_fresh [OF normalizeOperation_fresh assms])

lemma map_seed_length: "map_seed f n xs = Some (ys, n') \<Longrightarrow> length ys = length xs"
  by (induction xs arbitrary: n ys) (auto simp: Option.bind_eq_Some_conv split: prod.splits)

lemma mode_jprop [simp]: "jprop ''mode'' (JObj [(js ''mode'', JStr m)]) = Some (JStr m)"
  and conditions_jprop: "jprop ''conditions'' (JObj [(js ''mode'', JStr m)]) = None"
  by (simp_all add: jprop_def omap_get_def)

lemma createDefaultOperation_Some:
  "normalizeOperation E n (JObj [(js ''mode'', JStr (js ''set''))]) = Some (createDefaultOperation E n)"
  by (simp add: createDefaultOperation_def normalizeOperation_def conditions_jprop)

lemma createDefault_fresh:
  assumes "createDefaultOperation E n = (x, n')"
  shows "fresh E n (operationIds x) n' \<and> validOperation x"
  using createDefaultOperation_Some [of E n] by (intro normalizeOperation_fresh) (simp add: assms)

lemma createDefaultCondition_Some: "normalizeCondition E n (JObj []) = Some (createDefaultCondition E n)"
  by (simp add: createDefaultCondition_def normalizeCondition_def)

lemma normalizeOperation_total:
  assumes "j \<noteq> JNull" "\<And>items. jprop ''conditions'' j = Some (JArr items) \<Longrightarrow> JNull \<notin> set items"
  shows "\<exists>x n'. normalizeOperation E n j = Some (x, n')"
proof -
  have conds: "\<exists>cs n'. map_seed (normalizeCondition E) n items = Some (cs, n')" if "JNull \<notin> set items" for n items
    using that
  proof (induction items arbitrary: n)
    case (Cons i items)
    then obtain c n1 where "normalizeCondition E n i = Some (c, n1)" by (auto simp: normalizeCondition_def)
    with Cons.IH [of n1] Cons.prems show ?case by auto
  qed simp
  have "\<exists>cs n'. (case jprop ''conditions'' j of
      Some (JArr items) \<Rightarrow> map_seed (normalizeCondition E) (Suc n) items | _ \<Rightarrow> Some ([], Suc n)) = Some (cs, n')"
    using assms(2) conds by (auto split: option.split json.split)
  then show ?thesis using assms(1) by (auto simp: normalizeOperation_def)
qed

section \<open>Lists of rules\<close>

lemma allIds_simps [simp]: "allIds [] = []" "allIds (x # xs) = operationIds x @ allIds xs"
  "allIds (xs @ ys) = allIds xs @ allIds ys"
  by (simp_all add: allIds_def)

lemma opsInv_fresh: "fresh E n (allIds ops) n' \<Longrightarrow> list_all validOperation ops \<Longrightarrow> opsInv E n' ops"
  using fresh_distinct fresh_drawn by (auto simp: opsInv_def)

lemma opsInv_mono: "opsInv E n ops \<Longrightarrow> n \<le> n' \<Longrightarrow> opsInv E n' ops"
  using drawnBefore_mono by (fastforce simp: opsInv_def)

lemma opsInv_append:
  assumes "opsInv E n ops" "fresh E n (allIds new) n'" "list_all validOperation new"
  shows "opsInv E n' (ops @ new)"
proof -
  have "set (allIds ops) \<subseteq> drawnBefore E n'"
    using assms(1) drawnBefore_mono [OF fresh_le [OF assms(2)]] by (auto simp: opsInv_def)
  then show ?thesis
    using assms fresh_distinct [OF assms(2)] fresh_drawn [OF assms(2)] fresh_disjoint [OF assms(2)]
    by (auto simp: opsInv_def)
qed

lemma mset_allIds: "mset (allIds ops) = (\<Sum>x\<in>#mset ops. mset (operationIds x))"
  by (induction ops) auto

lemma opsInv_perm:
  assumes "mset ops = mset ops'" "opsInv E n ops"
  shows "opsInv E n ops'"
proof -
  have eq: "mset (allIds ops) = mset (allIds ops')" using assms(1) by (simp add: mset_allIds)
  have "distinct (allIds ops')" using assms(2) mset_eq_imp_distinct_iff [OF eq] by (simp add: opsInv_def)
  moreover have "set (allIds ops') = set (allIds ops)" using mset_eq_setD [OF eq] by simp
  moreover have "set ops' = set ops" using mset_eq_setD [OF assms(1)] by simp
  ultimately show ?thesis using assms(2) by (simp add: opsInv_def list_all_iff)
qed

lemma subseq_facts: "subseq xs ys \<Longrightarrow> set xs \<subseteq> set ys \<and> (distinct ys \<longrightarrow> distinct xs)"
  by (induction rule: list_emb.induct) auto

text \<open>A change of rules that only drops identifiers.\<close>

lemma opsInv_map:
  assumes "opsInv E n ops"
    and "\<And>x. x \<in> set ops \<Longrightarrow> subseq (operationIds (f x)) (operationIds x)"
    and "\<And>x. x \<in> set ops \<Longrightarrow> validOperation x \<Longrightarrow> validOperation (f x)"
  shows "opsInv E n (map f ops)"
proof -
  have "subseq (allIds (map f ops)) (allIds ops)"
    using assms(2) by (induction ops) (auto intro: list_emb_append_mono)
  then have "distinct (allIds (map f ops))" "set (allIds (map f ops)) \<subseteq> set (allIds ops)"
    using assms(1) subseq_facts by (auto simp: opsInv_def)
  then show ?thesis using assms by (auto simp: opsInv_def list_all_iff)
qed

lemma opsInv_filter:
  assumes "opsInv E n ops"
  shows "opsInv E n (filter P ops)"
proof -
  have "subseq (allIds (filter P ops)) (allIds ops)"
    by (induction ops) (auto intro: list_emb_append_mono list_emb_append2)
  then show ?thesis
    using assms subseq_facts [of "allIds (filter P ops)" "allIds ops"] by (auto simp: opsInv_def list_all_iff)
qed

lemma distinct_oids: "distinct (allIds ops) \<Longrightarrow> distinct (map o_id ops)"
proof (induction ops)
  case (Cons x ops)
  have "o_id y \<in> set (allIds ops)" if "y \<in> set ops" for y
    using that by (auto simp: allIds_def operationIds_def)
  with Cons show ?case by (auto simp: operationIds_def)
qed simp

text \<open>At most one rule has a given identifier.\<close>

lemma mapOperation_other: "opId \<notin> o_id ` set ops \<Longrightarrow> mapOperation opId f ops = ops"
  unfolding mapOperation_def by (rule map_idI) auto

lemma mapOperation_split:
  assumes "distinct (map o_id ops)" "opId \<in> o_id ` set ops"
  shows "\<exists>A x B. ops = A @ x # B \<and> o_id x = opId \<and> mapOperation opId f ops = A @ f x # B"
proof -
  from assms(2) obtain x where "x \<in> set ops" "o_id x = opId" by auto
  then obtain A B where ops: "ops = A @ x # B" by (auto simp: in_set_conv_decomp)
  then have "opId \<notin> o_id ` set A" "opId \<notin> o_id ` set B" using assms(1) \<open>o_id x = opId\<close> by auto
  then have "mapOperation opId f ops = A @ f x # B"
    using mapOperation_other [of opId A f] mapOperation_other [of opId B f] \<open>o_id x = opId\<close>
    by (simp add: ops mapOperation_def)
  with ops \<open>o_id x = opId\<close> show ?thesis by blast
qed

section \<open>Handlers keep the invariant\<close>

text \<open>All of the invariant but the selection, which an effect restores.\<close>

definition coreInv :: "penv \<Rightarrow> pstate \<Rightarrow> bool" where
  "coreInv E s \<longleftrightarrow> operations s \<noteq> [] \<and> opsInv E (seed s) (operations s)
     \<and> templatePresetKey s \<in> set (map fst TEMPLATE_PRESET_CONFIG)
     \<and> (\<forall>d\<in>set_option (shownPrune s). p_id ` set (pd_rules d) \<subseteq> drawnBefore E (seed s))"

lemma keepSelected_inv: "coreInv E s \<Longrightarrow> editorInv E (keepSelected s)"
proof (cases "operations s")
  case (Cons x ops)
  assume "coreInv E s"
  moreover have "selectedOperationId (keepSelected s) \<in> o_id ` set (operations s)"
  proof (cases "list_ex (\<lambda>y. o_id y = selectedOperationId s) (operations s)")
    case True
    then obtain y where "y \<in> set (operations s)" "o_id y = selectedOperationId s" by (auto simp: list_ex_iff)
    then show ?thesis using True by (force simp: keepSelected_def Cons)
  qed (simp add: keepSelected_def Cons)
  moreover have "operations (keepSelected s) = operations s" "seed (keepSelected s) = seed s"
    "templatePresetKey (keepSelected s) = templatePresetKey s" "shownPrune (keepSelected s) = shownPrune s"
    by (simp_all add: keepSelected_def Cons)
  ultimately show ?thesis by (simp add: coreInv_def editorInv_def)
qed (simp add: coreInv_def)

lemma keepSelected_id: "list_ex (\<lambda>y. o_id y = selectedOperationId s) (operations s) \<Longrightarrow> keepSelected s = s"
  by (cases "operations s") (simp_all add: keepSelected_def)

lemma editorInv_core: "editorInv E s \<Longrightarrow> coreInv E s"
  by (simp add: coreInv_def editorInv_def)

lemma coreInv_ops:
  assumes "coreInv E s" "ops \<noteq> []" "opsInv E n ops" "seed s \<le> n"
    and "operations s' = ops" "seed s' = n" "templatePresetKey s' \<in> set (map fst TEMPLATE_PRESET_CONFIG)"
    and "shownPrune s' = shownPrune s"
  shows "coreInv E s'"
  using assms drawnBefore_mono [OF assms(4), of E] by (fastforce simp: coreInv_def)

lemma coreInv_same:
  assumes "coreInv E s" "operations s' = operations s" "seed s' = seed s" "shownPrune s' = shownPrune s"
    and "templatePresetKey s' \<in> set (map fst TEMPLATE_PRESET_CONFIG)"
  shows "coreInv E s'"
  using assms by (auto simp: coreInv_def)

lemma coreInv_update [simp]:
  "coreInv E (s\<lparr>toasts := a\<rparr>) = coreInv E s" "coreInv E (s\<lparr>saved := b\<rparr>) = coreInv E s"
  "coreInv E (s\<lparr>shown := c\<rparr>) = coreInv E s" "coreInv E (s\<lparr>editMode := d\<rparr>) = coreInv E s"
  "coreInv E (s\<lparr>legacyValue := e\<rparr>) = coreInv E s" "coreInv E (s\<lparr>jsonText := f\<rparr>) = coreInv E s"
  "coreInv E (s\<lparr>jsonError := g\<rparr>) = coreInv E s" "coreInv E (s\<lparr>operationSearch := h\<rparr>) = coreInv E s"
  "coreInv E (s\<lparr>selectedOperationId := i\<rparr>) = coreInv E s" "coreInv E (s\<lparr>expandedConditions := j\<rparr>) = coreInv E s"
  "coreInv E (s\<lparr>draggedOperationId := k\<rparr>) = coreInv E s" "coreInv E (s\<lparr>dragOverOperationId := l\<rparr>) = coreInv E s"
  "coreInv E (s\<lparr>dragOverPosition := m\<rparr>) = coreInv E s"
  by (simp_all add: coreInv_def)

lemma preset_keys [simp]:
  "''operations_default'' \<in> fst ` set TEMPLATE_PRESET_CONFIG" "''legacy_default'' \<in> fst ` set TEMPLATE_PRESET_CONFIG"
  by (simp_all add: TEMPLATE_PRESET_CONFIG_def)

lemma coreInv_preset [simp]: "coreInv E s \<Longrightarrow> templatePresetKey s \<in> fst ` set TEMPLATE_PRESET_CONFIG"
  by (simp add: coreInv_def)

lemma pruneRules_fresh: "fresh E n (map p_id (pruneRules E n items)) (n + length items)"
proof (induction items arbitrary: n)
  case (Cons j items)
  from fresh_Cons [OF Cons [of "Suc n"]] show ?case by (simp add: normalizePruneRule_def)
qed (simp add: fresh_Nil)

lemma parsePrune_fresh:
  assumes "parsePruneObjectsDraft E n t = (d, n')"
  shows "fresh E n (map p_id (pd_rules d)) n'"
  using assms pruneRules_fresh
  by (auto simp: parsePruneObjectsDraft_def Let_def pruneDefaults_def fresh_Nil split: if_splits option.splits json.splits)

lemma initialOperations_inv:
  assumes "initialOperations E n items = Some (ops, n')"
  shows "fresh E n (allIds ops) n' \<and> list_all validOperation ops \<and> ops \<noteq> []"
proof (cases "items = []")
  case True
  then show ?thesis using assms createDefault_fresh [of E n]
    by (auto simp: initialOperations_def split: prod.splits)
next
  case False
  then have "map_seed (normalizeOperation E) n items = Some (ops, n')" using assms by (simp add: initialOperations_def)
  then show ?thesis using map_operations_fresh map_seed_length False by fastforce
qed

lemma parseInitialState_inv:
  assumes "parseInitialState E n v = Some (st, n')"
  shows "fresh E n (allIds (es_operations st)) n' \<and> list_all validOperation (es_operations st) \<and> es_operations st \<noteq> []"
proof -
  obtain x k where d: "createDefaultOperation E n = (x, k)" by (cases "createDefaultOperation E n")
  have "fresh E n (allIds [x]) k \<and> list_all validOperation [x]" using createDefault_fresh [OF d] by simp
  then show ?thesis using assms initialOperations_inv
    by (auto simp: parseInitialState_def d Let_def Option.bind_eq_Some_conv split: if_splits option.splits json.splits)
qed

lemma openDialog_inv:
  assumes "coreInv E s" "openDialog E v s = Some s'"
  shows "coreInv E s'"
proof -
  obtain st n' where st: "parseInitialState E (seed s) v = Some (st, n')"
    using assms(2) by (auto simp: openDialog_def Option.bind_eq_Some_conv)
  note inv = parseInitialState_inv [OF st]
  have "operations s' = es_operations st" "seed s' = n'" "shownPrune s' = shownPrune s"
    "templatePresetKey s' \<in> set (map fst TEMPLATE_PRESET_CONFIG)"
    using assms(2) by (auto simp: openDialog_def st)
  with inv show ?thesis using assms(1) opsInv_fresh fresh_le
    by (intro coreInv_ops [where s = s and s' = s']) (auto simp: coreInv_def)
qed

lemma renderPrune_inv:
  assumes "coreInv E s"
  shows "coreInv E (renderPrune E s)"
proof (cases "selectedOperation s")
  case (Some x)
  obtain d n' where d: "parsePruneObjectsDraft E (seed s) (o_value_text x) = (d, n')"
    by (cases "parsePruneObjectsDraft E (seed s) (o_value_text x)")
  note fr = parsePrune_fresh [OF d]
  show ?thesis
    using assms fresh_drawn [OF fr] opsInv_mono [OF _ fresh_le [OF fr]]
    by (auto simp: renderPrune_def Some d coreInv_def)
qed (use assms in \<open>simp add: renderPrune_def coreInv_def\<close>)

lemma mapOperation_inv:
  assumes "coreInv E s"
    and "\<And>x. subseq (operationIds (f x)) (operationIds x)" "\<And>x. validOperation x \<Longrightarrow> validOperation (f x)"
  shows "coreInv E (s\<lparr>operations := mapOperation opId f (operations s)\<rparr>)"
proof -
  have "opsInv E (seed s) (mapOperation opId f (operations s))"
    unfolding mapOperation_def using assms by (intro opsInv_map) (auto simp: coreInv_def)
  then show ?thesis using assms(1) by (auto simp: coreInv_def mapOperation_def)
qed

lemma subseq_ids: "o_id y = o_id x \<Longrightarrow> subseq (map c_id (o_conditions y)) (map c_id (o_conditions x)) \<Longrightarrow>
    subseq (operationIds y) (operationIds x)"
  by (simp add: operationIds_def)

lemma applyPatch_ids: "operationIds (applyPatch patch x) = operationIds x"
  by (cases patch) (simp_all add: operationIds_def)

lemma updateOperation_inv:
  assumes "coreInv E s" "offered s (EditRule opId patch)"
  shows "coreInv E (updateOperation opId patch s)"
  unfolding updateOperation_def
proof (rule mapOperation_inv [OF assms(1)])
  show "subseq (operationIds (applyPatch patch x)) (operationIds x)" for x by (simp add: applyPatch_ids)
  show "validOperation x \<Longrightarrow> validOperation (applyPatch patch x)" for x
    using assms(2) by (cases patch) (auto simp: validOperation_def)
qed

lemma updateCondition_inv:
  assumes "coreInv E s" "offered s (EditCond opId condId patch)"
  shows "coreInv E (updateCondition opId condId patch s)"
  unfolding updateCondition_def
proof (rule mapOperation_inv [OF assms(1)])
  have ids: "c_id (applyConditionPatch patch c) = c_id c" for c by (cases patch) simp_all
  show "subseq (operationIds (mapConditions (map (\<lambda>c. if c_id c = condId then applyConditionPatch patch c else c)) x))
      (operationIds x)" for x
    by (rule subseq_ids) (simp_all add: mapConditions_def comp_def ids if_distrib [of c_id] cong: if_cong)
  have "validCondition c \<Longrightarrow> validCondition (applyConditionPatch patch c)" for c
    using assms(2) by (cases patch) (auto simp: validCondition_def)
  then show "validOperation x \<Longrightarrow>
      validOperation (mapConditions (map (\<lambda>c. if c_id c = condId then applyConditionPatch patch c else c)) x)" for x
    by (auto simp: validOperation_def mapConditions_def list_all_iff)
qed

lemma removeCondition_inv: "coreInv E s \<Longrightarrow> coreInv E (removeCondition opId condId s)"
  unfolding removeCondition_def
proof (rule mapOperation_inv)
  show "subseq (operationIds (mapConditions (filter (\<lambda>c. c_id c \<noteq> condId)) x)) (operationIds x)" for x
    by (rule subseq_ids) (simp_all add: mapConditions_def subseq_map)
qed (auto simp: validOperation_def mapConditions_def list_all_iff)

lemma updateReturnErrorDraft_inv: "coreInv E s \<Longrightarrow> coreInv E (updateReturnErrorDraft E opId patch s)"
  unfolding updateReturnErrorDraft_def
  by (rule mapOperation_inv) (simp_all add: operationIds_def validOperation_def)

lemma addOperation_inv:
  assumes "coreInv E s"
  shows "coreInv E (addOperation E s)"
proof -
  obtain x n' where d: "createDefaultOperation E (seed s) = (x, n')" by (cases "createDefaultOperation E (seed s)")
  have "fresh E (seed s) (allIds [x]) n'" "list_all validOperation [x]" using createDefault_fresh [OF d] by simp_all
  then have "opsInv E n' (operations s @ [x])" "seed s \<le> n'"
    using assms opsInv_append fresh_le by (auto simp: coreInv_def)
  with assms show ?thesis by (intro coreInv_ops [OF assms]) (simp_all add: addOperation_def d)
qed

text \<open>The state that a fresh default rule replaces all rules in.\<close>

lemma default_inv:
  assumes "coreInv E s" "createDefaultOperation E (seed s) = (x, n')"
    and "operations s' = [x]" "seed s' = n'" "shownPrune s' = shownPrune s"
    and "templatePresetKey s' \<in> set (map fst TEMPLATE_PRESET_CONFIG)"
  shows "coreInv E s'"
proof -
  have "fresh E (seed s) (allIds [x]) n'" "list_all validOperation [x]" using createDefault_fresh [OF assms(2)] by simp_all
  then have "opsInv E n' [x]" "seed s \<le> n'" using opsInv_fresh fresh_le by blast+
  then show ?thesis using assms by (intro coreInv_ops [OF assms(1)]) simp_all
qed

lemma operationCopy_total: "\<exists>x n'. normalizeOperation E n (operationCopy E y) = Some (x, n')"
  by (rule normalizeOperation_total)
    (auto simp: operationCopy_def jobj_def jprop_def omap_get_def conditionCopy_def)

lemma mset_splice_in: "mset (splice_in i x xs) = add_mset x (mset xs)"
proof -
  have "mset xs = mset (take i xs) + mset (drop i xs)" by (metis append_take_drop_id mset_append)
  then show ?thesis by (simp add: splice_in_def)
qed

lemma duplicateOperation_inv:
  assumes "coreInv E s"
  shows "coreInv E (duplicateOperation E opId eager s)"
proof (cases "find_index (\<lambda>x. o_id x = opId) (operations s)")
  case (Some idx)
  obtain x n' where c: "normalizeOperation E (seed s) (operationCopy E (operations s ! idx)) = Some (x, n')"
    using operationCopy_total by blast
  have "fresh E (seed s) (allIds [x]) n'" "list_all validOperation [x]" using normalizeOperation_fresh [OF c] by simp_all
  then have "opsInv E n' (operations s @ [x])" "seed s \<le> n'"
    using assms opsInv_append fresh_le by (auto simp: coreInv_def)
  moreover have "mset (operations s @ [x]) = mset (splice_in (idx + 1) x (operations s))"
    by (simp add: mset_splice_in)
  ultimately have "opsInv E n' (splice_in (idx + 1) x (operations s))" using opsInv_perm by blast
  with \<open>seed s \<le> n'\<close> show ?thesis
    using assms by (intro coreInv_ops [OF assms]) (simp_all add: duplicateOperation_def Some c splice_in_def)
qed (simp add: duplicateOperation_def assms)

lemma removeOperation_inv:
  assumes "coreInv E s"
  shows "coreInv E (removeOperation E opId s)"
proof (cases "length (operations s) \<le> 1")
  case True
  obtain x n' where d: "createDefaultOperation E (seed s) = (x, n')" by (cases "createDefaultOperation E (seed s)")
  show ?thesis using assms True by (intro default_inv [OF assms d]) (simp_all add: removeOperation_def d)
next
  case False
  then obtain x y ops where ops: "operations s = x # y # ops"
    by (cases "operations s"; cases "tl (operations s)") auto
  have "distinct (map o_id (operations s))" using assms by (intro distinct_oids) (simp add: coreInv_def opsInv_def)
  then have "o_id x \<noteq> o_id y" by (auto simp: ops)
  then have "filter (\<lambda>x. o_id x \<noteq> opId) (operations s) \<noteq> []" by (auto simp: ops)
  moreover have "opsInv E (seed s) (filter (\<lambda>x. o_id x \<noteq> opId) (operations s))"
    using assms by (intro opsInv_filter) (simp add: coreInv_def)
  moreover have "removeOperation E opId s = s\<lparr>operations := filter (\<lambda>x. o_id x \<noteq> opId) (operations s)\<rparr>"
    using False by (simp add: removeOperation_def)
  ultimately show ?thesis using assms by (intro coreInv_ops [OF assms]) simp_all
qed

lemma addCondition_inv:
  assumes "coreInv E s"
  shows "coreInv E (addCondition E opId s)"
proof -
  obtain c n' where c: "createDefaultCondition E (seed s) = (c, n')" by (cases "createDefaultCondition E (seed s)")
  have fr: "fresh E (seed s) [c_id c] n'" "validCondition c"
    using normalizeCondition_fresh [of E "seed s" "JObj []"] createDefaultCondition_Some [of E "seed s"] by (auto simp: c)
  let ?f = "\<lambda>x. x\<lparr>o_conditions := o_conditions x @ [c]\<rparr>"
  let ?ops = "operations s"
  have inv: "opsInv E (seed s) ?ops" using assms by (simp add: coreInv_def)
  have "opsInv E n' (mapOperation opId ?f ?ops)"
  proof (cases "opId \<in> o_id ` set ?ops")
    case True
    obtain A x B where ops: "?ops = A @ x # B" and m: "mapOperation opId ?f ?ops = A @ ?f x # B"
      using mapOperation_split [OF distinct_oids True, of ?f] inv unfolding opsInv_def by blast
    have "mset (allIds (A @ ?f x # B)) = mset (allIds ?ops @ [c_id c])" by (simp add: ops operationIds_def)
    then have eq: "distinct (allIds (A @ ?f x # B)) = distinct (allIds ?ops @ [c_id c])"
      "set (allIds (A @ ?f x # B)) = set (allIds ?ops @ [c_id c])"
      by (rule mset_eq_imp_distinct_iff, rule mset_eq_setD)
    have "c_id c \<notin> set (allIds ?ops)" using inv fresh_disjoint [OF fr(1)] by (auto simp: opsInv_def)
    then have "distinct (allIds ?ops @ [c_id c])" using inv by (simp add: opsInv_def)
    moreover have "set (allIds ?ops @ [c_id c]) \<subseteq> drawnBefore E n'"
      using inv fresh_drawn [OF fr(1)] drawnBefore_mono [OF fresh_le [OF fr(1)]] by (auto simp: opsInv_def)
    moreover have "list_all validOperation (A @ ?f x # B)"
      using inv fr(2) by (auto simp: opsInv_def ops validOperation_def)
    ultimately show ?thesis unfolding m opsInv_def eq by blast
  next
    case False
    then show ?thesis using opsInv_mono [OF inv fresh_le [OF fr(1)]] by (simp add: mapOperation_other)
  qed
  then show ?thesis using assms fresh_le [OF fr(1)]
    by (intro coreInv_ops [OF assms]) (simp_all add: addCondition_def c mapOperation_def coreInv_def)
qed

lemma mapPrune_facts:
  assumes "\<And>n d. n \<le> snd (updater n d)" "mapPrune E opId updater n ops = (ops', n')"
  shows "n \<le> n' \<and> map operationIds ops' = map operationIds ops \<and> (list_all validOperation ops \<longrightarrow> list_all validOperation ops')"
  using assms(2)
proof (induction ops arbitrary: n ops' n')
  case (Cons x ops)
  show ?case
  proof (cases "o_id x = opId")
    case True
    obtain d n1 where d: "parsePruneObjectsDraft E n (o_value_text x) = (d, n1)"
      by (cases "parsePruneObjectsDraft E n (o_value_text x)")
    obtain d' n2 where u: "updater n1 d = (d', n2)" by (cases "updater n1 d")
    obtain ys k where r: "mapPrune E opId updater n2 ops = (ys, k)" by (cases "mapPrune E opId updater n2 ops")
    have "n \<le> n1" "n1 \<le> n2" using fresh_le [OF parsePrune_fresh [OF d]] assms(1) [of n1 d] by (simp_all add: u)
    with Cons.IH [OF r] Cons.prems True show ?thesis
      by (auto simp: d u r operationIds_def validOperation_def)
  next
    case False
    obtain ys k where r: "mapPrune E opId updater n ops = (ys, k)" by (cases "mapPrune E opId updater n ops")
    from Cons.IH [OF r] Cons.prems False show ?thesis by (auto simp: r)
  qed
qed simp

lemma updatePrune_inv:
  assumes "coreInv E s" "\<And>n d. n \<le> snd (updater n d)"
  shows "coreInv E (updatePruneObjectsDraft E opId updater s)"
proof -
  obtain ops n' where m: "mapPrune E opId updater (seed s) (operations s) = (ops, n')"
    by (cases "mapPrune E opId updater (seed s) (operations s)")
  note facts = mapPrune_facts [OF assms(2) m]
  have "allIds ops = allIds (operations s)" using facts by (simp add: allIds_def)
  then have "opsInv E n' ops" using assms(1) facts opsInv_mono [of E "seed s" "operations s" n']
    by (auto simp: coreInv_def opsInv_def)
  moreover have "ops \<noteq> []" using facts assms(1) by (auto simp: coreInv_def)
  ultimately show ?thesis
    using facts assms(1) by (intro coreInv_ops [OF assms(1)]) (simp_all add: updatePruneObjectsDraft_def m)
qed

section \<open>The order of the rules\<close>

lemma splice_out_split: "i < length xs \<Longrightarrow> xs = take i xs @ xs ! i # drop (Suc i) xs"
  by (simp add: id_take_nth_drop)

lemma mset_splice_out: "i < length xs \<Longrightarrow> mset xs = add_mset (xs ! i) (mset (splice_out i xs))"
  by (subst splice_out_split [of i xs]) (simp_all add: splice_out_def del: append_take_drop_id)

lemma mset_reorder: "mset (reorderOperations ops sourceId targetId position) = mset ops"
  by (auto simp: reorderOperations_def Let_def mset_splice_in mset_splice_out [symmetric] dest!: find_index_Some
      split: option.split)

lemma find_index_split:
  assumes "find_index P xs = Some i"
  shows "xs = take i xs @ xs ! i # drop (Suc i) xs" "P (xs ! i)" "\<forall>x\<in>set (take i xs). \<not> P x"
proof -
  note f = find_index_Some [OF assms]
  then show "xs = take i xs @ xs ! i # drop (Suc i) xs" "P (xs ! i)" using splice_out_split by auto
  show "\<forall>x\<in>set (take i xs). \<not> P x" using f by (auto simp: in_set_conv_nth)
qed

text \<open>What a drop does: the dragged rule is taken out and put back next to the target.\<close>

definition movedNextTo ::
  "ParamOverrideOperation list \<Rightarrow> jsstr \<Rightarrow> jsstr \<Rightarrow> Position \<Rightarrow> ParamOverrideOperation list \<Rightarrow> bool" where
  "movedNextTo ops sourceId targetId position ops' \<longleftrightarrow>
     (\<exists>x y A B. o_id x = sourceId \<and> o_id y = targetId \<and> filter (\<lambda>z. o_id z \<noteq> sourceId) ops = A @ y # B
       \<and> ops' = (if position = Before then A @ x # y # B else A @ y # x # B) \<and> x \<in> set ops)"

lemma reorder_moved:
  assumes "distinct (map o_id ops)" "sourceId \<in> o_id ` set ops" "targetId \<in> o_id ` set ops"
    and "sourceId \<noteq> targetId" "sourceId \<noteq> []" "targetId \<noteq> []"
  shows "movedNextTo ops sourceId targetId position (reorderOperations ops sourceId targetId position)"
proof -
  obtain i where i: "find_index (\<lambda>x. o_id x = sourceId) ops = Some i"
    using assms(2) find_index_None [of "\<lambda>x. o_id x = sourceId" ops] by (cases "find_index (\<lambda>x. o_id x = sourceId) ops") auto
  note si = find_index_split [OF i]
  let ?next = "splice_out i ops"
  have "\<forall>z\<in>set ?next. o_id z \<noteq> sourceId"
  proof -
    have "distinct (map o_id (take i ops @ ops ! i # drop (Suc i) ops))" using assms(1) si(1) by simp
    then show ?thesis using si(2) by (auto simp: splice_out_def) (metis image_eqI)+
  qed
  then have flt': "filter (\<lambda>z. o_id z \<noteq> sourceId) (take i ops @ ops ! i # drop (Suc i) ops) = ?next"
    using si(2) by (simp add: splice_out_def filter_id_conv)
  have flt: "filter (\<lambda>z. o_id z \<noteq> sourceId) ops = ?next"
    using flt' unfolding si(1) [symmetric] .
  have "targetId \<in> o_id ` set ?next" using assms(3,4) by (auto simp: flt [symmetric])
  then obtain k where k: "find_index (\<lambda>x. o_id x = targetId) ?next = Some k"
    using find_index_None [of "\<lambda>x. o_id x = targetId" ?next] by (cases "find_index (\<lambda>x. o_id x = targetId) ?next") auto
  note sk = find_index_split [OF k]
  have kl: "k < length ?next" using find_index_Some [OF k] by simp
  have "take (Suc k) ?next = take k ?next @ [?next ! k]" using kl by (simp add: take_Suc_conv_app_nth)
  moreover have "drop k ?next = ?next ! k # drop (Suc k) ?next" using kl by (simp add: Cons_nth_drop_Suc)
  ultimately have "reorderOperations ops sourceId targetId position =
      (if position = Before then take k ?next @ ops ! i # ?next ! k # drop (Suc k) ?next
       else take k ?next @ ?next ! k # ops ! i # drop (Suc k) ?next)"
    using assms(4-6) by (cases position) (simp_all add: reorderOperations_def i k splice_in_def Let_def)
  moreover have "ops ! i \<in> set ops" using find_index_Some [OF i] by simp
  ultimately show ?thesis unfolding movedNextTo_def flt using si(2) sk(1,2) by blast
qed

section \<open>The remaining handlers\<close>

lemma handleDrop_inv:
  assumes "coreInv E s"
  shows "coreInv E (handleDrop opId transferred s)"
proof -
  let ?src = "or_str (Some (draggedOperationId s)) transferred"
  let ?pos = "if dragOverOperationId s = opId then dragOverPosition s else Before"
  have "opsInv E (seed s) (reorderOperations (operations s) ?src opId ?pos)"
    using assms opsInv_perm [OF mset_reorder [symmetric]] by (simp add: coreInv_def)
  moreover have "reorderOperations (operations s) ?src opId ?pos \<noteq> []"
    using assms mset_reorder [of "operations s" ?src opId ?pos] by (auto simp: coreInv_def)
  ultimately show ?thesis using assms by (simp add: handleDrop_def Let_def resetDragState_def coreInv_def)
qed

lemma showDefault_inv:
  assumes "coreInv E s" "operations s' = operations (showDefault E s)" "seed s' = seed (showDefault E s)"
    and "shownPrune s' = shownPrune s" "templatePresetKey s' \<in> set (map fst TEMPLATE_PRESET_CONFIG)"
  shows "coreInv E s'"
proof -
  obtain x n' where d: "createDefaultOperation E (seed s) = (x, n')" by (cases "createDefaultOperation E (seed s)")
  show ?thesis using assms by (intro default_inv [OF assms(1) d]) (simp_all add: showDefault_def d)
qed

lemma showDefault_other [simp]:
  "shownPrune (showDefault E s) = shownPrune s" "templatePresetKey (showDefault E s) = templatePresetKey s"
  by (simp_all add: showDefault_def split: prod.split)

lemma initialOperations_core:
  assumes "coreInv E s" "initialOperations E (seed s) items = Some (ops, n')"
    and "operations s' = ops" "seed s' = n'" "shownPrune s' = shownPrune s"
    and "templatePresetKey s' \<in> set (map fst TEMPLATE_PRESET_CONFIG)"
  shows "coreInv E s'"
  using initialOperations_inv [OF assms(2)] assms opsInv_fresh fresh_le by (intro coreInv_ops [OF assms(1)]) auto

lemma switchToVisualMode_inv:
  assumes "coreInv E s"
  shows "coreInv E (switchToVisualMode E s)"
proof (cases "editMode s = Visual \<or> trim (jsonText s) = []")
  case True
  then show ?thesis using assms by (auto simp: switchToVisualMode_def intro: showDefault_inv)
next
  case False
  show ?thesis
  proof (cases "parse E (trim (jsonText s))")
    case (Some v)
    show ?thesis
    proof (cases "\<exists>fs items. v = JObj fs \<and> jprop ''operations'' v = Some (JArr items)")
      case True
      then obtain fs items where v: "v = JObj fs" "jprop ''operations'' (JObj fs) = Some (JArr items)" by auto
      show ?thesis
      proof (cases "initialOperations E (seed s) items")
        case (Some a)
        obtain ops n' where a: "a = (ops, n')" by (cases a)
        show ?thesis using False \<open>parse E (trim (jsonText s)) = Some v\<close>
          by (intro initialOperations_core [OF assms Some [unfolded a]]) (simp_all add: switchToVisualMode_def v Some a Let_def)
      qed (use False Some v assms in \<open>simp add: switchToVisualMode_def Let_def\<close>)
    next
      case no_ops: False
      show ?thesis
      proof (cases v)
        case (JObj fs)
        have "switchToVisualMode E s = (showDefault E s)\<lparr>visualMode := Legacy, legacyValue := pretty E v,
            templatePresetKey := ''legacy_default''\<rparr>"
          using False Some no_ops JObj by (auto simp: switchToVisualMode_def Let_def split: option.split json.split)
        then show ?thesis using assms by (intro showDefault_inv [OF assms]) simp_all
      qed (use False Some assms in \<open>simp_all add: switchToVisualMode_def Let_def\<close>)
    qed
  qed (use False assms in \<open>simp add: switchToVisualMode_def Let_def\<close>)
qed

lemma fillLegacy_inv:
  assumes "coreInv E s"
  shows "coreInv E (fillLegacy E v s)"
proof -
  obtain x n' where d: "createDefaultOperation E (seed s) = (x, n')" by (cases "createDefaultOperation E (seed s)")
  show ?thesis using assms by (intro default_inv [OF assms d]) (simp_all add: fillLegacy_def d Let_def)
qed

lemma preset_operations_ne:
  assumes "presetPayload key = OperationsPayload items"
  shows "items \<noteq> []"
proof -
  have "\<exists>a. payload = OperationsPayload items \<Longrightarrow> items \<noteq> []"
    if "(k, label, payload) \<in> set TEMPLATE_PRESET_CONFIG" for k label payload
    using that by (auto simp: TEMPLATE_PRESET_CONFIG_def OPERATION_TEMPLATE_def HEADER_PASSTHROUGH_TEMPLATE_def
      GEMINI_IMAGE_4K_TEMPLATE_def buildPassHeadersTemplate_def AWS_BEDROCK_ANTHROPIC_COMPAT_TEMPLATE_def)
  then show ?thesis using assms
    by (auto simp: presetPayload_def OPERATION_TEMPLATE_def dest: map_of_SomeD split: option.splits)
qed

lemma fillTemplate_inv:
  assumes "coreInv E s"
  shows "coreInv E (fillTemplate E mode s)"
proof (cases "presetPayload (templatePresetKey s)")
  case (LegacyPayload payload)
  then show ?thesis using assms fillLegacy_inv by (auto simp: fillTemplate_def Let_def split: option.split)
next
  case (OperationsPayload items)
  note ne = preset_operations_ne [OF OperationsPayload]
  show ?thesis
  proof (cases "map_seed (normalizeOperation E) (seed s) items")
    case (Some a)
    obtain ops n' where a: "a = (ops, n')" by (cases a)
    have fr: "fresh E (seed s) (allIds ops) n'" "list_all validOperation ops" "ops \<noteq> []"
      using map_operations_fresh map_seed_length ne Some by (fastforce simp: a)+
    let ?old = "if visualMode s = Operations then filter (\<lambda>x. \<not> isOperationBlank x) (operations s) else []"
    have "opsInv E (seed s) ?old" using assms opsInv_filter by (auto simp: coreInv_def opsInv_def)
    then have app: "opsInv E n' (?old @ ops)" using fr(1,2) by (rule opsInv_append)
    show ?thesis
    proof (cases mode)
      case Fill
      then show ?thesis using fr opsInv_fresh [OF fr(1,2)] fresh_le [OF fr(1)] assms
        by (intro coreInv_ops [OF assms fr(3)]) (simp_all add: fillTemplate_def OperationsPayload Some a)
    next
      case AppendTemplate
      then show ?thesis using app fr fresh_le [OF fr(1)] assms
        by (intro coreInv_ops [OF assms _ app]) (simp_all add: fillTemplate_def OperationsPayload Some a Let_def)
    qed
  qed (use assms in \<open>simp add: fillTemplate_def OperationsPayload\<close>)
qed

text \<open>The handlers that touch neither rules nor identifiers.\<close>

lemma passive_inv:
  assumes "coreInv E s"
  shows "coreInv E (switchToJsonMode E s)" "coreInv E (handleSave E s)" "coreInv E (formatJson E s)"
    "coreInv E (handleJsonChange E v s)" "coreInv E (setAllConditions b s)" "coreInv E (resetDragState s)"
    "coreInv E (handleDragOver i p s)" "coreInv E (handleDragStart i s)"
  using assms
  by (simp_all add: switchToJsonMode_def handleSave_def formatJson_def handleJsonChange_def setAllConditions_def
      resetDragState_def handleDragOver_def handleDragStart_def Let_def split: sum.split option.split)

lemma formatValue_inv: "coreInv E s \<Longrightarrow> coreInv E (formatValue E x s)"
  by (auto simp: formatValue_def intro: updateOperation_inv split: option.split)

lemma resetEditorState_inv:
  assumes "coreInv E s"
  shows "coreInv E (resetEditorState E s)"
  by (rule showDefault_inv [OF assms]) (simp_all add: resetEditorState_def)

lemma prune_handlers_inv:
  assumes "coreInv E s"
  shows "coreInv E (patchPrune E i p s)" "coreInv E (addPruneRule E i s)" "coreInv E (updatePruneRule E i r q s)"
    "coreInv E (removePruneRule E i r s)"
  using assms by (simp_all add: patchPrune_def addPruneRule_def updatePruneRule_def removePruneRule_def updatePrune_inv)

lemma handle_inv:
  assumes "coreInv E s" "offered s ev"
  shows "pred_option (coreInv E) (handle E ev s)"
proof (cases ev)
  case (OpenDialog v)
  then show ?thesis using openDialog_inv [OF assms(1)] by (simp add: option.pred_set)
next
  case (EditRule i patch)
  then show ?thesis using assms updateOperation_inv by simp
next
  case (EditCond i c patch)
  then show ?thesis using assms updateCondition_inv by simp
next
  case (SelectTemplate k)
  then show ?thesis using assms(2) by (simp add: coreInv_same [OF assms(1)])
qed (use assms(1) in \<open>simp_all add: renderPrune_inv removeCondition_inv updateReturnErrorDraft_inv addOperation_inv
    duplicateOperation_inv removeOperation_inv addCondition_inv handleDrop_inv switchToVisualMode_inv
    fillTemplate_inv passive_inv formatValue_inv resetEditorState_inv prune_handlers_inv\<close>)

lemma mount_inv: "coreInv E (mountState E n)"
proof -
  obtain x n' where d: "createDefaultOperation E n = (x, n')" by (cases "createDefaultOperation E n")
  have "fresh E n (allIds [x]) n'" "list_all validOperation [x]" using createDefault_fresh [OF d] by simp_all
  from opsInv_fresh [OF this] show ?thesis by (simp add: mountState_def d coreInv_def)
qed

lemma editor_inv: "editorReachable E s \<Longrightarrow> editorInv E s"
proof (induction rule: editorReachable.induct)
  case (mount n)
  then show ?case by (simp add: keepSelected_inv mount_inv)
next
  case (step s ev s')
  then show ?case using handle_inv [OF editorInv_core [OF step.IH] step.hyps(2)] by (simp add: keepSelected_inv)
qed

section \<open>Rules of \<open>prune_objects\<close>\<close>

text \<open>The text that an update of the draft leaves in the rule.\<close>

definition prunedText :: "penv \<Rightarrow> nat \<Rightarrow> (nat \<Rightarrow> PruneObjectsDraft \<Rightarrow> PruneObjectsDraft \<times> nat) \<Rightarrow> jsstr \<Rightarrow> jsstr" where
  "prunedText E n updater t = (case parsePruneObjectsDraft E n t of
      (d, n') \<Rightarrow> buildPruneObjectsValueText E (fst (updater n' d)))"

lemma mapPrune_other: "opId \<notin> o_id ` set ops \<Longrightarrow> mapPrune E opId updater n ops = (ops, n)"
  by (induction ops) auto

lemma mapPrune_one:
  "distinct (map o_id ops) \<Longrightarrow> fst (mapPrune E opId updater n ops) =
     mapOperation opId (\<lambda>x. x\<lparr>o_value_text := prunedText E n updater (o_value_text x)\<rparr>) ops"
proof (induction ops)
  case (Cons x ops)
  show ?case
  proof (cases "o_id x = opId")
    case True
    then have "opId \<notin> o_id ` set ops" using Cons.prems by auto
    then show ?thesis using True mapOperation_other [of opId ops]
      by (simp add: mapPrune_other mapOperation_def prunedText_def split: prod.split)
  next
    case False
    then show ?thesis using Cons by (simp add: mapOperation_def case_prod_beta Let_def)
  qed
qed (simp add: mapOperation_def)

lemma updatePrune_operations:
  assumes "distinct (map o_id (operations s))"
  shows "operations (updatePruneObjectsDraft E opId updater s) =
    mapOperation opId (\<lambda>x. x\<lparr>o_value_text := prunedText E (seed s) updater (o_value_text x)\<rparr>) (operations s)"
  using mapPrune_one [OF assms, of E opId updater "seed s"]
  by (simp add: updatePruneObjectsDraft_def case_prod_beta Let_def)

text \<open>The identifiers of a draft are new each time it is read, so none of them is one that was shown.\<close>

lemma stale_rule:
  assumes "parsePruneObjectsDraft E n t = (d, n')" "ruleId \<in> drawnBefore E n"
  shows "\<forall>r\<in>set (pd_rules d). p_id r \<noteq> ruleId"
  using fresh_disjoint [OF parsePrune_fresh [OF assms(1)]] assms(2) by auto

lemma prunedText_stale:
  assumes "ruleId \<in> drawnBefore E n"
  shows "prunedText E n (\<lambda>n d. (d\<lparr>pd_rules := map (\<lambda>r. if p_id r = ruleId then f r else r) (pd_rules d)\<rparr>, n)) t
      = prunedText E n (\<lambda>n d. (d, n)) t"
    and "prunedText E n (\<lambda>n d. (d\<lparr>pd_rules := filter (\<lambda>r. p_id r \<noteq> ruleId) (pd_rules d)\<rparr>, n)) t
      = prunedText E n (\<lambda>n d. (d, n)) t"
proof -
  obtain d n' where d: "parsePruneObjectsDraft E n t = (d, n')" by (cases "parsePruneObjectsDraft E n t")
  note stale = stale_rule [OF d assms]
  have "map (\<lambda>r. if p_id r = ruleId then f r else r) (pd_rules d) = pd_rules d"
    using stale by (intro map_idI) auto
  then show "prunedText E n (\<lambda>n d. (d\<lparr>pd_rules := map (\<lambda>r. if p_id r = ruleId then f r else r) (pd_rules d)\<rparr>, n)) t
      = prunedText E n (\<lambda>n d. (d, n)) t" by (simp add: prunedText_def d)
  have "filter (\<lambda>r. p_id r \<noteq> ruleId) (pd_rules d) = pd_rules d" using stale by (simp add: filter_id_conv)
  then show "prunedText E n (\<lambda>n d. (d\<lparr>pd_rules := filter (\<lambda>r. p_id r \<noteq> ruleId) (pd_rules d)\<rparr>, n)) t
      = prunedText E n (\<lambda>n d. (d, n)) t" by (simp add: prunedText_def d)
qed

lemma blank_rule_dropped:
  "buildPruneObjectsValueText E (d\<lparr>pd_simpleMode := False, pd_rules := pd_rules d @ [normalizePruneRule E n (JObj [])]\<rparr>)
   = buildPruneObjectsValueText E (d\<lparr>pd_simpleMode := False\<rparr>)"
proof -
  have "trim (p_path (normalizePruneRule E n (JObj []))) = []"
    by (simp add: normalizePruneRule_def strProp_def jprop_def)
  then show ?thesis by (simp add: buildPruneObjectsValueText_def prunePayload_def)
qed

lemma reachable_distinct: "editorReachable E s \<Longrightarrow> distinct (map o_id (operations s))"
  using editor_inv [of E s] distinct_oids by (simp add: editorInv_def opsInv_def)

lemma oids_allIds: "o_id ` set ops \<subseteq> set (allIds ops)"
  by (auto simp: allIds_def operationIds_def)

lemma drawn_ne: "x \<in> drawnBefore E n \<Longrightarrow> x \<noteq> []"
  by (auto simp: drawnBefore_def)

lemma reachable_id_ne: "editorReachable E s \<Longrightarrow> x \<in> o_id ` set (operations s) \<Longrightarrow> x \<noteq> []"
  using editor_inv [of E s] oids_allIds drawn_ne unfolding editorInv_def opsInv_def by blast

text \<open>An environment to evaluate with: texts of natural numbers, and a clock that stands still.\<close>

definition sampleEnv :: penv where
  "sampleEnv = \<lparr>num_text = nat_text, to_num = text_nat, lower = ascii_lower, now = (\<lambda>_. 0)\<rparr>"

lemma createDefaultOperation_eq: "createDefaultOperation E n =
    (\<lparr>o_id = nextLocalId E n, o_description = [], o_path = [], o_mode = js ''set'', o_from = [], o_to = [],
      o_value_text = [], o_keep_origin = False, o_logic = js ''OR'', o_conditions = []\<rparr>, Suc n)"
proof -
  have "operationLogic E (JObj [(js ''mode'', JStr (js ''set''))]) = js ''OR''"
    by (simp add: operationLogic_def jprop_def omap_get_def orString_def ascii_upper_def js_simps jsc_def)
  then show ?thesis
    by (simp add: createDefaultOperation_def normalizeOperation_def jprop_def omap_get_def strProp_def trueProp_def
        toValueText_def set_mode)
qed

lemmas sample_eval = createDefaultOperation_eq mountState_def keepSelected_def handleDragStart_def handleDragOver_def
  addOperation_def updateOperation_def mapOperation_def

text \<open>Two rules, the first of which is dragged below the second; and a rule of \<open>prune_objects\<close> with one
  condition, as rendered.\<close>

abbreviation sampleId :: "nat \<Rightarrow> jsstr" where
  "sampleId \<equiv> nextLocalId sampleEnv"

definition sampleRun :: "Event list \<Rightarrow> pstate option" where
  "sampleRun evs = foldl (\<lambda>st ev. Option.bind st (\<lambda>s. map_option keepSelected (handle sampleEnv ev s)))
     (Some (keepSelected (mountState sampleEnv 0))) evs"

lemma sampleRun_snoc: "sampleRun (evs @ [ev]) = Option.bind (sampleRun evs) (\<lambda>s. map_option keepSelected (handle sampleEnv ev s))"
  by (simp add: sampleRun_def)

lemma sampleRun_reachable:
  "sampleRun evs = Some s \<Longrightarrow> (\<And>s ev. ev \<in> set evs \<Longrightarrow> offered s ev) \<Longrightarrow> editorReachable sampleEnv s"
proof (induction evs arbitrary: s rule: rev_induct)
  case Nil
  then show ?case by (auto simp: sampleRun_def intro: editorReachable.mount)
next
  case (snoc ev evs)
  then obtain s0 s1 where "sampleRun evs = Some s0" "handle sampleEnv ev s0 = Some s1" "s = keepSelected s1"
    by (auto simp: sampleRun_snoc Option.bind_eq_Some_conv)
  with snoc show ?case by (auto intro: editorReachable.step)
qed

definition sampleDrag :: pstate where
  "sampleDrag = the (sampleRun [AddRule, DragStart (sampleId 0), DragOver (sampleId 1) After])"

lemma sampleDrag_facts:
  "editorReachable sampleEnv sampleDrag" "draggedOperationId sampleDrag = sampleId 0"
  "map o_id (operations sampleDrag) = [sampleId 0, sampleId 1]"
proof -
  have run: "sampleRun [AddRule, DragStart (sampleId 0), DragOver (sampleId 1) After] = Some sampleDrag"
    by (simp add: sampleDrag_def sampleRun_def)
  show "editorReachable sampleEnv sampleDrag" by (rule sampleRun_reachable [OF run]) auto
  show "draggedOperationId sampleDrag = sampleId 0" "map o_id (operations sampleDrag) = [sampleId 0, sampleId 1]"
    by (simp_all add: sampleDrag_def sampleRun_def sample_eval)
qed

definition samplePruneValue :: json where
  "samplePruneValue = jobj [(''conditions'', JArr [jobj [(''path'', jstr ''type'')]])]"

definition samplePrune :: pstate where
  "samplePrune = the (sampleRun [EditRule (sampleId 0) (PatchMode (js ''prune_objects'')),
     EditRule (sampleId 0) (PatchValueText (compact sampleEnv samplePruneValue)), Render])"

lemma samplePrune_text: "printable_by nat_text text_nat samplePruneValue"
  by (simp add: printable_by_def samplePruneValue_def jobj_def jstr_def prop_order_plain is_index_def js_simps jsc_def is_digit_def)

lemma samplePrune_parse:
  "parsePruneObjectsDraft sampleEnv n (compact sampleEnv samplePruneValue) =
    (\<lparr>pd_simpleMode = False, pd_typeText = [], pd_logic = js ''AND'', pd_recursive = True,
      pd_rules = [normalizePruneRule sampleEnv n (jobj [(''path'', jstr ''type'')])]\<rparr>, Suc n)"
proof -
  have "trim (printJSON nat_text samplePruneValue) = printJSON nat_text samplePruneValue"
    "printJSON nat_text samplePruneValue \<noteq> []" "parseJSON text_nat (printJSON nat_text samplePruneValue) = Some samplePruneValue"
    using samplePrune_text jt.trim_compact jt.compact_ne jt.parse_compact by blast+
  then show ?thesis
    by (simp add: parsePruneObjectsDraft_def sampleEnv_def samplePruneValue_def jobj_def jprop_def omap_get_def
        pruneItems_def isObjectOrArray_def orString_def ascii_upper_def js_simps jsc_def)
qed

lemma samplePrune_facts:
  "editorReachable sampleEnv samplePrune" "offered samplePrune (EditPruneRule (sampleId 0) (sampleId 1) (RulePath (js ''id'')))"
proof -
  have run: "sampleRun [EditRule (sampleId 0) (PatchMode (js ''prune_objects'')),
     EditRule (sampleId 0) (PatchValueText (compact sampleEnv samplePruneValue)), Render] = Some samplePrune"
    by (simp add: samplePrune_def sampleRun_def)
  show "editorReachable sampleEnv samplePrune"
    by (rule sampleRun_reachable [OF run]) (auto simp: OPERATION_MODE_VALUES_def OPERATION_MODE_OPTIONS_def)
  show "offered samplePrune (EditPruneRule (sampleId 0) (sampleId 1) (RulePath (js ''id'')))"
    by (simp add: samplePrune_def sampleRun_def sample_eval renderPrune_def selectedOperation_def samplePrune_parse
        normalizePruneRule_def)
qed

section \<open>Properties\<close>

text \<open>C30: In every state the editor reaches there is at least one rule and one of the rules is selected; the
  identifiers of all rules and conditions are pairwise distinct and were drawn from the counter; every rule
  has a registered mode and a logic that is AND or OR, every condition a registered mode; the selected
  template exists; and the rules of \<open>prune_objects\<close> on screen have identifiers that were drawn before.\<close>

theorem editor_reachable_inv: "editorReachable E s \<Longrightarrow> editorInv E s"
  by (rule editor_inv)

text \<open>The states after the dialog is mounted, and after a rule is added and copied.\<close>

theorem editor_reachable_inv_witness:
  "editorInv sampleEnv (keepSelected (duplicateOperation sampleEnv (nextLocalId sampleEnv 0) True
     (keepSelected (mountState sampleEnv 0))))"
  by (rule editor_reachable_inv, rule editorReachable.step [where ev = "DuplicateRule (nextLocalId sampleEnv 0) True"])
    (rule editorReachable.mount, simp_all)

text \<open>Dropping a dragged rule on another one takes it out of the list and puts it back directly before or
  after the target, as last shown; all other rules keep their order, and the moved rule is selected.\<close>

theorem drop_moves_rule:
  assumes "editorReachable E s" "draggedOperationId s \<in> o_id ` set (operations s)"
    and "target \<in> o_id ` set (operations s)" "target \<noteq> draggedOperationId s"
  shows "movedNextTo (operations s) (draggedOperationId s) target
      (if dragOverOperationId s = target then dragOverPosition s else Before)
      (operations (keepSelected (handleDrop target transferred s)))
    \<and> selectedOperationId (keepSelected (handleDrop target transferred s)) = draggedOperationId s
    \<and> draggedOperationId (keepSelected (handleDrop target transferred s)) = []"
proof -
  let ?src = "draggedOperationId s" and ?pos = "if dragOverOperationId s = target then dragOverPosition s else Before"
  let ?ops = "reorderOperations (operations s) ?src target ?pos"
  have src: "?src \<noteq> []" and tgt: "target \<noteq> []" using reachable_id_ne [OF assms(1)] assms(2,3) by blast+
  have moved: "movedNextTo (operations s) ?src target ?pos ?ops"
    using assms src tgt by (intro reorder_moved reachable_distinct [OF assms(1)]) auto
  have "set ?ops = set (operations s)" using mset_reorder by (rule mset_eq_setD)
  then have "list_ex (\<lambda>y. o_id y = ?src) ?ops" using assms(2) by (auto simp: list_ex_iff)
  then have "keepSelected (resetDragState (s\<lparr>operations := ?ops, selectedOperationId := ?src\<rparr>))
      = resetDragState (s\<lparr>operations := ?ops, selectedOperationId := ?src\<rparr>)"
    by (intro keepSelected_id) (simp add: resetDragState_def)
  moreover have "handleDrop target transferred s = resetDragState (s\<lparr>operations := ?ops, selectedOperationId := ?src\<rparr>)"
    using src tgt assms(4) by (simp add: handleDrop_def Let_def or_str_def)
  ultimately show ?thesis using moved by (simp add: resetDragState_def)
qed

text \<open>A rule dragged below the next one.\<close>

theorem drop_moves_rule_witness:
  "movedNextTo (operations sampleDrag) (sampleId 0) (sampleId 1) After
     (operations (keepSelected (handleDrop (sampleId 1) [] sampleDrag)))"
proof -
  have "o_id ` set (operations sampleDrag) = set (map o_id (operations sampleDrag))" by simp
  also have "\<dots> = {sampleId 0, sampleId 1}" by (simp only: sampleDrag_facts(3)) simp
  finally have ids: "o_id ` set (operations sampleDrag) = {sampleId 0, sampleId 1}" .
  have "dragOverOperationId sampleDrag = sampleId 1" "dragOverPosition sampleDrag = After"
    by (simp_all add: sampleDrag_def sampleRun_def sample_eval)
  then show ?thesis using drop_moves_rule [OF sampleDrag_facts(1), of "sampleId 1" "[]"]
    by (simp add: ids sampleDrag_facts(2))
qed

text \<open>In the visual editor the conditions of a \<open>prune_objects\<close> rule cannot be changed: editing or deleting a
  condition that is shown has the same effect as no change of the draft, because reading the draft gives its
  conditions new identifiers; and adding a condition has the same effect as choosing the advanced mode.\<close>

theorem prune_conditions_fixed:
  assumes "editorReachable E s" "offered s (EditPruneRule opId ruleId patch)"
  shows "operations (updatePruneRule E opId ruleId patch s) = operations (updatePruneObjectsDraft E opId (\<lambda>n d. (d, n)) s)
    \<and> operations (removePruneRule E opId ruleId s) = operations (updatePruneObjectsDraft E opId (\<lambda>n d. (d, n)) s)
    \<and> operations (addPruneRule E opId s) = operations (patchPrune E opId (PruneSimpleMode False) s)"
proof -
  note ops = updatePrune_operations [OF reachable_distinct [OF assms(1)]]
  have "ruleId \<in> drawnBefore E (seed s)" using editor_inv [OF assms(1)] assms(2) by (auto simp: editorInv_def)
  note stale = prunedText_stale [OF this]
  have "prunedText E n (\<lambda>n d. (d\<lparr>pd_simpleMode := False, pd_rules := pd_rules d @ [normalizePruneRule E n (JObj [])]\<rparr>, Suc n)) t
      = prunedText E n (\<lambda>n d. (applyPrunePatch (PruneSimpleMode False) d, n)) t" for n t
    by (simp add: prunedText_def blank_rule_dropped split: prod.split)
  then show ?thesis
    by (simp add: updatePruneRule_def removePruneRule_def addPruneRule_def patchPrune_def ops stale)
qed

text \<open>The condition that is shown keeps its path.\<close>

theorem prune_conditions_fixed_witness:
  "operations (updatePruneRule sampleEnv (sampleId 0) (sampleId 1) (RulePath (js ''id'')) samplePrune)
   = operations (updatePruneObjectsDraft sampleEnv (sampleId 0) (\<lambda>n d. (d, n)) samplePrune)"
  using prune_conditions_fixed [OF samplePrune_facts] by blast

end
