(* ===== verification/ParamOverrideJson.thy ===== *)
theory ParamOverrideJson
  imports ParamOverrideInvariant
begin

text \<open>
  The JSON that the parameter override editor saves: it is read back as the same rules, so that saving,
  opening the dialog again and saving once more gives the same text; which rule an error names; what the
  templates, copies and drafts give; and the values for which this fails.
\<close>

section \<open>Values\<close>

lemma parseLooseValue_cases:
  obtains (empty) "trim t = []" "parseLooseValue E t = JStr []"
  | (json) v where "trim t \<noteq> []" "parse E (trim t) = Some v" "parseLooseValue E t = v"
  | (plain) "trim t \<noteq> []" "parse E (trim t) = None" "parseLooseValue E t = JStr (trim t)"
  by (cases "trim t = []"; cases "parse E (trim t)") (auto simp: parseLooseValue_def)

lemma parseLooseValue_trim [simp]: "parseLooseValue E (trim t) = parseLooseValue E t"
  by (simp add: parseLooseValue_def)

text \<open>A value that is typed as a string literal of JSON is shown again without its quotes; the text then stands
  for the same string unless it is empty, has outer white space or is JSON itself. Every other text is shown
  again as a text for the same value.\<close>

definition rereadable :: "penv \<Rightarrow> jsstr \<Rightarrow> bool" where
  "rereadable E t \<longleftrightarrow> (case parse E (trim t) of
     Some (JStr s) \<Rightarrow> s \<noteq> [] \<and> trim s = s \<and> parse E s = None | _ \<Rightarrow> True)"

abbreviation numbers_ok :: "penv \<Rightarrow> bool" where
  "numbers_ok E \<equiv> num_laws (num_text E) (to_num E)"

abbreviation printable :: "penv \<Rightarrow> json \<Rightarrow> bool" where
  "printable E \<equiv> printable_by (num_text E) (to_num E)"

lemma toValueText_nonstring: "(\<And>s. v \<noteq> JStr s) \<Longrightarrow> toValueText E (Some v) = compact E v"
  by (cases v) (auto simp: toValueText_def)

text \<open>The text that shows a value again stands for the same value, and validation sees the same.\<close>

lemma reshown_text:
  assumes "numbers_ok E" "rereadable E t"
  defines "t' \<equiv> toValueText E (Some (parseLooseValue E t))"
  shows "trim t' = t'" "t' = [] \<longleftrightarrow> trim t = []" "parse E t' = None \<or> parse E t' = parse E (trim t)"
    "parseLooseValue E t' = parseLooseValue E t"
proof -
  have "trim t' = t' \<and> (t' = [] \<longleftrightarrow> trim t = []) \<and> (parse E t' = None \<or> parse E t' = parse E (trim t))
    \<and> parseLooseValue E t' = parseLooseValue E t"
  proof (cases rule: parseLooseValue_cases [of t E])
    case empty
    then show ?thesis by (simp add: t'_def toValueText_def parseLooseValue_def)
  next
    case (json v)
    have v: "printable E v" using parse_printable [OF assms(1) json(2)] .
    show ?thesis
    proof (cases "\<exists>s. v = JStr s")
      case True
      then show ?thesis using assms(2) json by (auto simp: rereadable_def t'_def toValueText_def parseLooseValue_def)
    next
      case False
      then have t': "t' = compact E v" using json(3) by (simp add: t'_def toValueText_nonstring)
      show ?thesis using json jt.trim_compact [OF v] jt.compact_ne [OF v] jt.parse_compact [OF v]
        by (simp add: t' parseLooseValue_def)
    qed
  next
    case plain
    then show ?thesis by (simp add: t'_def toValueText_def parseLooseValue_def)
  qed
  then show "trim t' = t'" "t' = [] \<longleftrightarrow> trim t = []" "parse E t' = None \<or> parse E t' = parse E (trim t)"
    "parseLooseValue E t' = parseLooseValue E t" by blast+
qed

lemma printable_str [simp]: "printable E (JStr s)" "printable E (JBool b)"
  by (simp_all add: printable_by_def)

lemma parseLooseValue_printable: "numbers_ok E \<Longrightarrow> printable E (parseLooseValue E t)"
  using parse_printable by (cases rule: parseLooseValue_cases [of t E]) auto

section \<open>Payloads\<close>

text \<open>A property that is there or not.\<close>

definition entry :: "bool \<Rightarrow> string \<Rightarrow> json \<Rightarrow> (jsstr, json) omap" where
  "entry b k v = (if b then [(js k, v)] else [])"

lemma keys_entry [simp]: "js k' \<in> fst ` set (entry b k v) \<longleftrightarrow> b \<and> k' = k"
  by (auto simp: entry_def)

lemma get_entry [simp]: "omap_get (entry b k v) (js k') = (if b \<and> k' = k then Some v else None)"
  by (auto simp: entry_def omap_get_def)

lemma get_append: "omap_get (m @ m') k = (case omap_get m k of Some v \<Rightarrow> Some v | None \<Rightarrow> omap_get m' k)"
  by (simp add: omap_get_def map_add_def split: option.split)

lemma put_entry: "js k \<notin> fst ` set m \<Longrightarrow> put b k v m = m @ entry b k v"
  by (auto simp: put_def entry_def omap_set_new)

lemma put_single: "[(js k, v)] = entry True k v"
  by (simp add: entry_def)

lemma omap_set_mid: "k \<notin> fst ` set A \<Longrightarrow> omap_set (A @ (k, v) # B) k w = A @ (k, w) # B"
  by (induction A) auto

lemma alias_entry:
  assumes "js k \<notin> fst ` set A"
  shows "aliasField True k path (A @ entry True k (JStr s) @ B) =
    A @ entry True k (JStr (if s = [] \<and> path \<noteq> [] then path else s)) @ B"
proof -
  have "omap_get (A @ entry True k (JStr s) @ B) (js k) = Some (JStr s)"
    using assms map_of_eq_None_iff [of A "js k"] by (simp add: omap_get_def map_add_def entry_def)
  then show ?thesis using omap_set_mid [OF assms] by (auto simp: aliasField_def put_def entry_def)
qed

lemma alias_off [simp]: "aliasField False k path m = m"
  by (simp add: aliasField_def put_def)

text \<open>Objects with fixed keys are printable.\<close>

lemma not_index: "\<not> is_digit (jsc c) \<Longrightarrow> \<not> is_index (js (c # cs))"
  by (simp only: is_index_def js_Cons list.pred_inject) simp

definition plainKey :: "string \<Rightarrow> bool" where
  "plainKey k \<longleftrightarrow> (case k of [] \<Rightarrow> True | c # _ \<Rightarrow> \<not> is_digit (jsc c))"

lemma plainKey_index: "plainKey k \<Longrightarrow> \<not> is_index (js k)"
  by (cases k) (simp_all add: plainKey_def not_index, simp add: is_index_def)

definition entriesOk :: "penv \<Rightarrow> (jsstr, json) omap \<Rightarrow> bool" where
  "entriesOk E fs \<longleftrightarrow> list_all (\<lambda>(k, v). \<not> is_index k \<and> printable E v) fs"

lemma entriesOk_append [simp]: "entriesOk E (xs @ ys) \<longleftrightarrow> entriesOk E xs \<and> entriesOk E ys"
  by (simp add: entriesOk_def)

lemma entriesOk_entry [simp]: "plainKey k \<Longrightarrow> (b \<Longrightarrow> printable E v) \<Longrightarrow> entriesOk E (entry b k v)"
  by (simp add: entriesOk_def entry_def plainKey_index)

lemma printable_obj:
  assumes "entriesOk E fs" "distinct (omap_keys fs)"
  shows "printable E (JObj fs)"
proof -
  have "prop_order fs = fs" using assms(1) by (intro prop_order_plain) (auto simp: entriesOk_def list_all_iff)
  then show ?thesis using assms by (auto simp: printable_by_def entriesOk_def list_all_iff)
qed

lemma printable_arr: "list_all (printable E) xs \<Longrightarrow> printable E (JArr xs)"
  by (simp add: printable_by_def)

lemma distinct_entry [simp]:
  "distinct (map fst (entry b k v))"
  by (simp add: entry_def)

lemma disjoint_entry: "fst ` set (entry b k v) \<inter> S = (if b \<and> js k \<in> S then {js k} else {})"
  by (auto simp: entry_def)

section \<open>The modes\<close>

text \<open>What validation requires of a mode is what its entry in the table says is saved, and the header modes
  that take a path for a missing name save both names.\<close>

definition metaOk :: "jsstr \<Rightarrow> bool" where
  "metaOk mode \<longleftrightarrow> (let m = modeMeta mode in
     (m_pathAlias m \<longrightarrow> m_from m \<and> m_to m = Some True \<and> \<not> m_path m \<and> \<not> m_pathOptional m)
     \<and> (m_path m \<longrightarrow> \<not> m_pathOptional m)
     \<and> (mode \<in> FROM_REQUIRED_MODES \<longrightarrow> m_from m) \<and> (mode \<in> TO_REQUIRED_MODES \<longrightarrow> m_to m = Some True)
     \<and> (mode \<in> VALUE_REQUIRED_MODES \<longrightarrow> m_value m))"

lemma modes_cases: "mode \<in> OPERATION_MODE_VALUES \<Longrightarrow> \<exists>k\<in>set (map snd OPERATION_MODE_OPTIONS). mode = js k"
  by (auto simp: OPERATION_MODE_VALUES_def)

lemma get_js_table: "omap_get (map (\<lambda>(k, m). (js k, m)) xs) (js k) = map_of xs k"
  by (induction xs) (auto simp: omap_get_def)

lemma modeMeta_js: "modeMeta (js k) = nullish (map_of MODE_META k) setMeta"
  by (simp add: modeMeta_def get_js_table)

lemma js_image: "js k \<in> js ` S \<longleftrightarrow> k \<in> S"
  by auto

lemma metaOk_modes: "mode \<in> OPERATION_MODE_VALUES \<Longrightarrow> metaOk mode"
proof -
  assume "mode \<in> OPERATION_MODE_VALUES"
  then obtain k where mode: "mode = js k" and k: "k \<in> set (map snd OPERATION_MODE_OPTIONS)" using modes_cases by blast
  have "list_all (\<lambda>k. metaOk (js k)) (map snd OPERATION_MODE_OPTIONS)"
    by (simp add: OPERATION_MODE_OPTIONS_def FROM_REQUIRED_MODES_def TO_REQUIRED_MODES_def VALUE_REQUIRED_MODES_def
        js_image MODE_META_def setMeta_def noMeta_def metaOk_def modeMeta_js)
  then show ?thesis using k by (auto simp: list_all_iff mode)
qed

lemma set_meta: "modeMeta (js ''set'') = setMeta"
  by (simp add: modeMeta_js MODE_META_def)

section \<open>A rule and its payload\<close>

text \<open>The name that is saved: the path stands in for a missing one in the modes that allow it.\<close>

definition orPath :: "ParamOverrideOperation \<Rightarrow> jsstr \<Rightarrow> jsstr" where
  "orPath x s = (if m_pathAlias (modeMeta (opMode x)) \<and> trim s = [] \<and> trim (o_path x) \<noteq> [] then trim (o_path x) else trim s)"

definition savesPath :: "ParamOverrideOperation \<Rightarrow> bool" where
  "savesPath x \<longleftrightarrow> m_path (modeMeta (opMode x)) \<or> (m_pathOptional (modeMeta (opMode x)) \<and> trim (o_path x) \<noteq> [])"

lemma fields_explicit:
  assumes "metaOk (opMode x)"
  shows "operationFields E x =
    entry True ''mode'' (JStr (opMode x))
    @ entry (trim (o_description x) \<noteq> []) ''description'' (JStr (trim (o_description x)))
    @ entry (savesPath x) ''path'' (JStr (trim (o_path x)))
    @ entry (m_value (modeMeta (opMode x))) ''value'' (parseLooseValue E (o_value_text x))
    @ entry (m_keepOrigin (modeMeta (opMode x)) \<and> o_keep_origin x) ''keep_origin'' (JBool True)
    @ entry (m_from (modeMeta (opMode x))) ''from'' (JStr (orPath x (o_from x)))
    @ entry (m_to (modeMeta (opMode x)) = Some True \<or> trim (o_to x) \<noteq> []) ''to'' (JStr (orPath x (o_to x)))"
proof -
  define m where "m = modeMeta (opMode x)"
  define A where "A = entry True ''mode'' (JStr (opMode x))
    @ entry (trim (o_description x) \<noteq> []) ''description'' (JStr (trim (o_description x)))"
  define B where "B = entry (m_value m) ''value'' (parseLooseValue E (o_value_text x))
    @ entry (m_keepOrigin m \<and> o_keep_origin x) ''keep_origin'' (JBool True)"
  have ok: "m_pathAlias m \<Longrightarrow> m_from m \<and> m_to m = Some True" "m_path m \<Longrightarrow> \<not> m_pathOptional m"
    using assms by (auto simp: metaOk_def m_def Let_def)
  have path: "put (m_pathOptional m \<and> trim (o_path x) \<noteq> []) ''path'' (JStr (trim (o_path x)))
      (put (m_path m) ''path'' (JStr (trim (o_path x))) A) = A @ entry (savesPath x) ''path'' (JStr (trim (o_path x)))"
    using ok(2) by (cases "m_path m") (auto simp: put_def entry_def savesPath_def m_def [symmetric] A_def omap_set_new)
  define C where "C = A @ entry (savesPath x) ''path'' (JStr (trim (o_path x))) @ B"
  have C: "put (m_keepOrigin m \<and> o_keep_origin x) ''keep_origin'' (JBool True)
      (put (m_value m) ''value'' (parseLooseValue E (o_value_text x)) (A @ entry (savesPath x) ''path'' (JStr (trim (o_path x))))) = C"
    unfolding C_def B_def by (subst put_entry, simp add: A_def image_Un, subst put_entry) (simp_all add: A_def image_Un)
  have keys: "js ''from'' \<notin> fst ` set C" "js ''to'' \<notin> fst ` set C"
    by (simp_all add: C_def A_def B_def image_Un)
  define F where "F = C @ entry (m_from m) ''from'' (JStr (trim (o_from x)))"
  have F: "put (m_from m) ''from'' (JStr (trim (o_from x))) C = F"
    unfolding F_def using keys(1) by (rule put_entry)
  have Fto: "js ''to'' \<notin> fst ` set F" using keys(2) by (simp add: F_def image_Un)
  define T where "T = F @ entry (m_to m = Some True \<or> trim (o_to x) \<noteq> []) ''to'' (JStr (trim (o_to x)))"
  have T: "put (m_to m = Some True) ''to'' (JStr (trim (o_to x)))
      (put (m_to m \<noteq> Some True \<and> trim (o_to x) \<noteq> []) ''to'' (JStr (trim (o_to x))) F) = T"
    using Fto by (cases "m_to m = Some True") (auto simp: T_def put_def entry_def omap_set_new)
  have "operationFields E x = aliasField (m_pathAlias m) ''to'' (trim (o_path x))
      (aliasField (m_pathAlias m) ''from'' (trim (o_path x)) T)"
  proof -
    have "put (trim (o_description x) \<noteq> []) ''description'' (JStr (trim (o_description x))) [(js ''mode'', JStr (opMode x))] = A"
      by (subst put_entry) (simp_all add: A_def entry_def)
    then show ?thesis by (simp only: operationFields_def Let_def m_def [symmetric] path C F T)
  qed
  also have "\<dots> = C @ entry (m_from m) ''from'' (JStr (orPath x (o_from x)))
      @ entry (m_to m = Some True \<or> trim (o_to x) \<noteq> []) ''to'' (JStr (orPath x (o_to x)))"
  proof (cases "m_pathAlias m")
    case True
    then show ?thesis using ok(1) keys
        alias_entry [of "''from''" C "trim (o_path x)" "trim (o_from x)" "entry True ''to'' (JStr (trim (o_to x)))"]
        alias_entry [of "''to''" "C @ entry True ''from'' (JStr (orPath x (o_from x)))" "trim (o_path x)" "trim (o_to x)" "[]"]
      by (simp add: T_def F_def orPath_def m_def [symmetric] image_Un)
  next
    case False
    then show ?thesis by (simp add: T_def F_def orPath_def m_def [symmetric])
  qed
  finally show ?thesis by (simp add: C_def A_def B_def m_def)
qed

lemma payload_explicit:
  assumes "metaOk (opMode x)"
  shows "operationPayload E x = JObj (operationFields E x
    @ entry (conditionPayloads E x \<noteq> []) ''conditions'' (JArr (conditionPayloads E x))
    @ entry (conditionPayloads E x \<noteq> []) ''logic'' (JStr (if o_logic x = js ''AND'' then js ''AND'' else js ''OR'')))"
proof -
  have "js ''conditions'' \<notin> fst ` set (operationFields E x)" "js ''logic'' \<notin> fst ` set (operationFields E x)"
    by (simp_all add: fields_explicit [OF assms] image_Un)
  then show ?thesis by (simp add: operationPayload_def Let_def put_entry image_Un)
qed

lemma modes_ne: "mode \<in> OPERATION_MODE_VALUES \<Longrightarrow> mode \<noteq> []"
  using modes_cases by (fastforce simp: OPERATION_MODE_OPTIONS_def)

lemma condition_modes_ne: "mode \<in> CONDITION_MODE_VALUES \<Longrightarrow> mode \<noteq> []"
  by (auto simp: CONDITION_MODE_VALUES_def CONDITION_MODE_OPTIONS_def)

lemma valid_opMode: "validOperation x \<Longrightarrow> opMode x = o_mode x"
  by (cases "o_mode x") (auto simp: validOperation_def opMode_def or_str_def dest: modes_ne)

lemma valid_metaOk: "validOperation x \<Longrightarrow> metaOk (opMode x)"
  by (simp add: valid_opMode metaOk_modes validOperation_def)

text \<open>The rule that is read from the payload of a rule.\<close>

definition rereadOperation :: "penv \<Rightarrow> jsstr \<Rightarrow> ParamOverrideCondition list \<Rightarrow> ParamOverrideOperation \<Rightarrow> ParamOverrideOperation" where
  "rereadOperation E i cs x = (let m = modeMeta (opMode x) in
     \<lparr>o_id = i, o_description = trim (o_description x),
      o_path = (if savesPath x then trim (o_path x) else []), o_mode = opMode x,
      o_from = (if m_from m then orPath x (o_from x) else []),
      o_to = (if m_to m = Some True \<or> trim (o_to x) \<noteq> [] then orPath x (o_to x) else []),
      o_value_text = (if m_value m then toValueText E (Some (parseLooseValue E (o_value_text x))) else []),
      o_keep_origin = (m_keepOrigin m \<and> o_keep_origin x),
      o_logic = (if conditionPayloads E x \<noteq> [] \<and> o_logic x = js ''AND'' then js ''AND'' else js ''OR''),
      o_conditions = cs\<rparr>)"

lemma toValueText_None [simp]: "toValueText E None = []"
  by (simp add: toValueText_def)

lemma upper_logic: "ascii_upper (js ''AND'') = js ''AND''" "ascii_upper (js ''OR'') \<noteq> js ''AND''"
  by (simp_all add: ascii_upper_def js_simps jsc_def)

lemma logic_back:
  "jprop ''logic'' j = (if b then Some (JStr (if a then js ''AND'' else js ''OR'')) else None) \<Longrightarrow>
   operationLogic E j = (if b \<and> a then js ''AND'' else js ''OR'')"
  by (simp add: operationLogic_def orString_def upper_logic)

lemma normalize_payload:
  assumes "validOperation x"
    and cs: "map_seed (normalizeCondition E) (Suc n) (conditionPayloads E x) = Some (cs, n')"
  shows "normalizeOperation E n (operationPayload E x) = Some (rereadOperation E (nextLocalId E n) cs x, n')"
proof -
  define p where "p = operationPayload E x"
  define m where "m = modeMeta (opMode x)"
  have p: "p = JObj (operationFields E x
    @ entry (conditionPayloads E x \<noteq> []) ''conditions'' (JArr (conditionPayloads E x))
    @ entry (conditionPayloads E x \<noteq> []) ''logic'' (JStr (if o_logic x = js ''AND'' then js ''AND'' else js ''OR'')))"
    unfolding p_def by (rule payload_explicit [OF valid_metaOk [OF assms(1)]])
  note fields = fields_explicit [OF valid_metaOk [OF assms(1)], of E, folded m_def]
  have props: "jprop ''description'' p = (if trim (o_description x) \<noteq> [] then Some (JStr (trim (o_description x))) else None)"
    "jprop ''path'' p = (if savesPath x then Some (JStr (trim (o_path x))) else None)"
    "jprop ''mode'' p = Some (JStr (opMode x))"
    "jprop ''from'' p = (if m_from m then Some (JStr (orPath x (o_from x))) else None)"
    "jprop ''to'' p = (if m_to m = Some True \<or> trim (o_to x) \<noteq> [] then Some (JStr (orPath x (o_to x))) else None)"
    "jprop ''value'' p = (if m_value m then Some (parseLooseValue E (o_value_text x)) else None)"
    "jprop ''keep_origin'' p = (if m_keepOrigin m \<and> o_keep_origin x then Some (JBool True) else None)"
    "jprop ''conditions'' p = (if conditionPayloads E x \<noteq> [] then Some (JArr (conditionPayloads E x)) else None)"
    "jprop ''logic'' p = (if conditionPayloads E x \<noteq> [] then Some (JStr (if o_logic x = js ''AND'' then js ''AND'' else js ''OR'')) else None)"
    by (simp_all add: p jprop_def fields get_append)
  have "p \<noteq> JNull" by (simp add: p)
  moreover have "(case jprop ''conditions'' p of
      Some (JArr items) \<Rightarrow> map_seed (normalizeCondition E) (Suc n) items | _ \<Rightarrow> Some ([], Suc n)) = Some (cs, n')"
    using cs by (cases "conditionPayloads E x = []") (simp_all add: props)
  moreover have "opMode x \<in> OPERATION_MODE_VALUES" using assms(1) valid_opMode by (simp add: validOperation_def)
  ultimately show ?thesis
    unfolding p_def [symmetric] normalizeOperation_def rereadOperation_def
    by (simp add: Let_def m_def [symmetric] strProp_def trueProp_def props(1-8) logic_back [OF props(9)])
qed

subsection \<open>Conditions\<close>

lemma condition_explicit:
  "buildConditionPayload E c = (if trim (c_path c) = [] then None else Some (JObj (
     entry True ''path'' (JStr (trim (c_path c))) @ entry True ''mode'' (JStr (or_str (Some (c_mode c)) (js ''full'')))
     @ entry True ''value'' (parseLooseValue E (c_value_text c)) @ entry (c_invert c) ''invert'' (JBool True)
     @ entry (c_pass_missing_key c) ''pass_missing_key'' (JBool True))))"
  by (simp add: buildConditionPayload_def Let_def put_def entry_def)

lemma condition_back:
  assumes "numbers_ok E" "validCondition c" "rereadable E (c_value_text c)" "buildConditionPayload E c = Some p"
  shows "\<exists>c'. normalizeCondition E n p = Some (c', Suc n) \<and> buildConditionPayload E c' = Some p"
proof -
  define t where "t = toValueText E (Some (parseLooseValue E (c_value_text c)))"
  have path: "trim (c_path c) \<noteq> []" using assms(4) by (simp add: buildConditionPayload_def Let_def split: if_splits)
  have mode: "or_str (Some (c_mode c)) (js ''full'') = c_mode c"
    using condition_modes_ne assms(2) by (cases "c_mode c") (auto simp: validCondition_def or_str_def)
  have p: "p = JObj (entry True ''path'' (JStr (trim (c_path c))) @ entry True ''mode'' (JStr (c_mode c))
     @ entry True ''value'' (parseLooseValue E (c_value_text c)) @ entry (c_invert c) ''invert'' (JBool True)
     @ entry (c_pass_missing_key c) ''pass_missing_key'' (JBool True))"
    using assms(4) path by (simp add: condition_explicit mode)
  have "conditionMode p = c_mode c"
    using assms(2) by (simp add: conditionMode_def strProp_def jprop_def p get_append validCondition_def)
  then have n: "normalizeCondition E n p = Some (\<lparr>c_id = nextLocalId E n, c_path = trim (c_path c), c_mode = c_mode c,
      c_value_text = t, c_invert = c_invert c, c_pass_missing_key = c_pass_missing_key c\<rparr>, Suc n)"
    by (simp add: normalizeCondition_def strProp_def trueProp_def jprop_def p get_append t_def)
  have "parseLooseValue E t = parseLooseValue E (c_value_text c)"
    unfolding t_def by (rule reshown_text(4) [OF assms(1,3)])
  then show ?thesis using n path by (simp add: condition_explicit p mode)
qed

lemma map_filter_Cons: "List.map_filter f (x # xs) = (case f x of None \<Rightarrow> List.map_filter f xs | Some y \<Rightarrow> y # List.map_filter f xs)"
  by (simp add: map_filter_def split: option.split)

lemma conditions_back:
  assumes "numbers_ok E" "list_all (\<lambda>c. validCondition c \<and> rereadable E (c_value_text c)) conds"
  shows "\<exists>cs n'. map_seed (normalizeCondition E) n (List.map_filter (buildConditionPayload E) conds) = Some (cs, n')
    \<and> List.map_filter (buildConditionPayload E) cs = List.map_filter (buildConditionPayload E) conds"
  using assms(2)
proof (induction conds arbitrary: n)
  case Nil
  then show ?case by (simp add: map_filter_def)
next
  case (Cons c conds)
  show ?case
  proof (cases "buildConditionPayload E c")
    case (Some p)
    obtain c' where c': "normalizeCondition E n p = Some (c', Suc n)" "buildConditionPayload E c' = Some p"
      using condition_back [OF assms(1) _ _ Some] Cons.prems by auto
    obtain cs n' where "map_seed (normalizeCondition E) (Suc n) (List.map_filter (buildConditionPayload E) conds) = Some (cs, n')"
      "List.map_filter (buildConditionPayload E) cs = List.map_filter (buildConditionPayload E) conds"
      using Cons.IH [of "Suc n"] Cons.prems by auto
    with c' show ?thesis by (simp add: map_filter_Cons Some)
  qed (use Cons in \<open>simp add: map_filter_Cons\<close>)
qed

section \<open>Saved rules are read back\<close>

text \<open>The values of the rule and of its conditions are shown again as texts for the same values.\<close>

definition rereadableRule :: "penv \<Rightarrow> ParamOverrideOperation \<Rightarrow> bool" where
  "rereadableRule E x \<longleftrightarrow> rereadable E (o_value_text x) \<and> list_all (\<lambda>c. rereadable E (c_value_text c)) (o_conditions x)"

lemma orPath_trim [simp]: "trim (orPath x s) = orPath x s"
  by (simp add: orPath_def)

lemma reread_simps:
  assumes "validOperation x"
  shows "opMode (rereadOperation E i cs x) = opMode x"
  using assms valid_opMode [OF assms] modes_ne
  by (cases "o_mode x") (auto simp: opMode_def rereadOperation_def Let_def or_str_def validOperation_def)

lemma reread_paths:
  fixes E i cs
  assumes "validOperation x"
  defines "y \<equiv> rereadOperation E i cs x"
  shows "savesPath y = savesPath x" "orPath y (o_from y) = (if m_from (modeMeta (opMode x)) then orPath x (o_from x) else [])"
    "orPath y (o_to y) = (if m_to (modeMeta (opMode x)) = Some True \<or> trim (o_to x) \<noteq> [] then orPath x (o_to x) else [])"
    "trim (o_path y) = (if savesPath x then trim (o_path x) else [])"
proof -
  define m where "m = modeMeta (opMode x)"
  have ok: "m_pathAlias m \<Longrightarrow> \<not> m_path m \<and> \<not> m_pathOptional m"
    using valid_metaOk [OF assms(1)] by (auto simp: metaOk_def m_def Let_def)
  have mode: "modeMeta (opMode y) = m" using reread_simps [OF assms(1)] by (simp add: y_def m_def)
  show path: "trim (o_path y) = (if savesPath x then trim (o_path x) else [])"
    by (simp add: y_def rereadOperation_def Let_def)
  show "savesPath y = savesPath x" unfolding savesPath_def [of y] path mode by (auto simp: savesPath_def m_def)
  have own: "orPath y s = trim s" for s
    using ok by (auto simp: orPath_def [of y] path mode savesPath_def m_def [symmetric])
  show "orPath y (o_from y) = (if m_from (modeMeta (opMode x)) then orPath x (o_from x) else [])"
    "orPath y (o_to y) = (if m_to (modeMeta (opMode x)) = Some True \<or> trim (o_to x) \<noteq> [] then orPath x (o_to x) else [])"
    unfolding own by (simp_all add: y_def rereadOperation_def Let_def)
qed

lemma orPath_empty: "orPath x s = [] \<Longrightarrow> trim s = []"
  by (auto simp: orPath_def split: if_splits)

lemma payload_back:
  assumes "numbers_ok E" "validOperation x" "rereadable E (o_value_text x)"
    and cs: "List.map_filter (buildConditionPayload E) cs = conditionPayloads E x"
  shows "operationPayload E (rereadOperation E i cs x) = operationPayload E x"
proof -
  define y where "y = rereadOperation E i cs x"
  define m where "m = modeMeta (opMode x)"
  have mode: "opMode y = opMode x" unfolding y_def by (rule reread_simps [OF assms(2)])
  note paths = reread_paths [OF assms(2), of E i cs, folded y_def]
  have value_eq: "m_value m \<Longrightarrow> parseLooseValue E (o_value_text y) = parseLooseValue E (o_value_text x)"
    using reshown_text(4) [OF assms(1,3)] by (simp add: y_def rereadOperation_def Let_def m_def)
  have to_eq: "(m_to m = Some True \<or> trim (o_to y) \<noteq> []) = (m_to m = Some True \<or> trim (o_to x) \<noteq> [])"
    using orPath_empty [of x "o_to x"] by (auto simp: y_def rereadOperation_def Let_def m_def split: if_splits)
  have "operationFields E y = operationFields E x"
    unfolding fields_explicit [OF valid_metaOk [OF assms(2)]] fields_explicit [OF valid_metaOk [OF assms(2), folded mode]]
      mode paths m_def [symmetric] to_eq
    using value_eq by (auto simp: entry_def y_def rereadOperation_def Let_def m_def)
  moreover have "conditionPayloads E y = conditionPayloads E x"
    using cs by (simp add: conditionPayloads_def y_def rereadOperation_def Let_def)
  moreover have "o_logic y = (if conditionPayloads E x \<noteq> [] \<and> o_logic x = js ''AND'' then js ''AND'' else js ''OR'')"
    by (simp add: y_def rereadOperation_def Let_def)
  ultimately show ?thesis unfolding y_def [symmetric]
    using payload_explicit [OF valid_metaOk [OF assms(2)], of E]
      payload_explicit [OF valid_metaOk [OF assms(2), folded mode], of E]
    by (auto simp: entry_def)
qed

lemma if_Some_None: "(if A then Some e else r) = None \<longleftrightarrow> \<not> A \<and> r = None"
  by simp

lemma validate_None:
  "validateOperation E x l = None \<longleftrightarrow> (let mode = opMode x; m = modeMeta mode; raw = trim (o_value_text x) in
     (m_path m \<longrightarrow> trim (o_path x) \<noteq> [])
     \<and> (mode \<in> FROM_REQUIRED_MODES \<longrightarrow> trim (o_from x) \<noteq> [] \<or> (m_pathAlias m \<and> trim (o_path x) \<noteq> []))
     \<and> (mode \<in> TO_REQUIRED_MODES \<longrightarrow> trim (o_to x) \<noteq> [] \<or> (m_pathAlias m \<and> trim (o_path x) \<noteq> []))
     \<and> (mode \<in> VALUE_REQUIRED_MODES \<longrightarrow> raw \<noteq> [])
     \<and> (mode = js ''return_error'' \<longrightarrow> \<not> returnErrorMessageMissing E raw)
     \<and> (mode = js ''pass_headers'' \<longrightarrow> parsePassHeaderNames E (parseLooseValue E raw) \<noteq> []))"
proof -
  have "mode = js ''return_error'' \<or> mode = js ''prune_objects'' \<or> mode = js ''pass_headers'' \<Longrightarrow>
      mode \<in> VALUE_REQUIRED_MODES" for mode by (auto simp: VALUE_REQUIRED_MODES_def)
  then show ?thesis unfolding validateOperation_def Let_def if_Some_None by blast
qed

lemma validate_back:
  assumes "numbers_ok E" "validOperation x" "rereadable E (o_value_text x)" "validateOperation E x l = None"
  shows "validateOperation E (rereadOperation E i cs x) l = None"
proof -
  define y where "y = rereadOperation E i cs x"
  define m where "m = modeMeta (opMode x)"
  have mode: "opMode y = opMode x" unfolding y_def by (rule reread_simps [OF assms(2)])
  note paths = reread_paths [OF assms(2), of E i cs, folded y_def]
  have ok: "m_pathAlias m \<Longrightarrow> \<not> m_path m \<and> \<not> m_pathOptional m"
    "opMode x \<in> FROM_REQUIRED_MODES \<Longrightarrow> m_from m" "opMode x \<in> TO_REQUIRED_MODES \<Longrightarrow> m_to m = Some True"
    "opMode x \<in> VALUE_REQUIRED_MODES \<Longrightarrow> m_value m"
    using valid_metaOk [OF assms(2)] by (auto simp: metaOk_def m_def Let_def)
  note v = assms(4) [unfolded validate_None Let_def m_def [symmetric]]
  have path: "trim (o_path y) \<noteq> []" if "m_path m"
    using v that by (simp add: paths(4) savesPath_def m_def)
  have "orPath x (o_from x) \<noteq> []" if "opMode x \<in> FROM_REQUIRED_MODES"
    using v that by (auto simp: orPath_def m_def [symmetric])
  then have source: "trim (o_from y) \<noteq> []" if "opMode x \<in> FROM_REQUIRED_MODES"
    using ok(2) that by (simp add: y_def rereadOperation_def Let_def m_def)
  have "orPath x (o_to x) \<noteq> []" if "opMode x \<in> TO_REQUIRED_MODES"
    using v that by (auto simp: orPath_def m_def [symmetric])
  then have target: "trim (o_to y) \<noteq> []" if "opMode x \<in> TO_REQUIRED_MODES"
    using ok(3) that by (simp add: y_def rereadOperation_def Let_def m_def)
  have val: "trim (o_value_text y) \<noteq> [] \<and> (parse E (trim (o_value_text y)) = None \<or>
        parse E (trim (o_value_text y)) = parse E (trim (o_value_text x)))
      \<and> parseLooseValue E (o_value_text y) = parseLooseValue E (o_value_text x)"
    if "opMode x \<in> VALUE_REQUIRED_MODES"
    using v that ok(4) [OF that] reshown_text [OF assms(1,3)]
    by (simp add: y_def rereadOperation_def Let_def m_def)
  have value_modes: "js ''return_error'' \<in> VALUE_REQUIRED_MODES" "js ''pass_headers'' \<in> VALUE_REQUIRED_MODES"
    by (simp_all add: VALUE_REQUIRED_MODES_def)
  have "\<not> returnErrorMessageMissing E (trim (o_value_text y))" if "opMode x = js ''return_error''"
    using v that val value_modes(1) by (auto simp: returnErrorMessageMissing_def)
  moreover have "parsePassHeaderNames E (parseLooseValue E (trim (o_value_text y))) \<noteq> []" if "opMode x = js ''pass_headers''"
    using v that val value_modes(2) by simp
  ultimately show ?thesis
    unfolding y_def [symmetric] validate_None Let_def mode m_def [symmetric] using path source target val by blast
qed

lemma blank_back:
  assumes "validOperation x" "validateOperation E x l = None"
  shows "\<not> isOperationBlank (rereadOperation E i cs x)"
proof (cases "opMode x = js ''set''")
  case True
  then have "trim (o_path x) \<noteq> []"
    using assms(2) by (auto simp: validateOperation_def Let_def set_meta setMeta_def noMeta_def split: if_splits)
  then show ?thesis using True
    by (simp add: isOperationBlank_def rereadOperation_def Let_def savesPath_def set_meta setMeta_def noMeta_def)
qed (simp add: isOperationBlank_def rereadOperation_def Let_def)

lemma rules_back:
  assumes "numbers_ok E" "list_all (\<lambda>x. validOperation x \<and> rereadableRule E x) ops" "validateFrom E k ops = None"
  shows "\<exists>ops' n'. map_seed (normalizeOperation E) n (map (operationPayload E) ops) = Some (ops', n')
    \<and> map (operationPayload E) ops' = map (operationPayload E) ops \<and> validateFrom E k ops' = None
    \<and> list_all (\<lambda>x. \<not> isOperationBlank x) ops'"
  using assms(2,3)
proof (induction ops arbitrary: n k)
  case (Cons x ops)
  have x: "validOperation x" "rereadable E (o_value_text x)"
    "list_all (\<lambda>c. validCondition c \<and> rereadable E (c_value_text c)) (o_conditions x)"
    using Cons.prems(1) by (auto simp: rereadableRule_def validOperation_def list_all_iff)
  have v: "validateOperation E x (k + 1) = None" "validateFrom E (Suc k) ops = None"
    using Cons.prems(2) by (auto split: option.splits)
  obtain cs n1 where cs: "map_seed (normalizeCondition E) (Suc n) (conditionPayloads E x) = Some (cs, n1)"
    "List.map_filter (buildConditionPayload E) cs = conditionPayloads E x"
    unfolding conditionPayloads_def using conditions_back [OF assms(1) x(3)] by blast
  define y where "y = rereadOperation E (nextLocalId E n) cs x"
  have y: "normalizeOperation E n (operationPayload E x) = Some (y, n1)"
    unfolding y_def by (rule normalize_payload [OF x(1) cs(1)])
  have "operationPayload E y = operationPayload E x" "validateOperation E y (k + 1) = None" "\<not> isOperationBlank y"
    unfolding y_def using payload_back [OF assms(1) x(1,2) cs(2)] validate_back [OF assms(1) x(1,2) v(1)]
      blank_back [OF x(1) v(1)] by blast+
  moreover obtain ops' n' where "map_seed (normalizeOperation E) n1 (map (operationPayload E) ops) = Some (ops', n')"
    "map (operationPayload E) ops' = map (operationPayload E) ops" "validateFrom E (Suc k) ops' = None"
    "list_all (\<lambda>x. \<not> isOperationBlank x) ops'"
    using Cons.IH [of "Suc k" n1] Cons.prems(1) v(2) by auto
  ultimately show ?case using y by simp
qed simp

lemma distinct_entry_append: "distinct (map fst (entry b k v @ m)) \<longleftrightarrow> (b \<longrightarrow> js k \<notin> fst ` set m) \<and> distinct (map fst m)"
  by (auto simp: entry_def)

lemma plain_keys [simp]:
  "plainKey ''mode''" "plainKey ''description''" "plainKey ''path''" "plainKey ''value''" "plainKey ''keep_origin''"
  "plainKey ''from''" "plainKey ''to''" "plainKey ''conditions''" "plainKey ''logic''" "plainKey ''invert''"
  "plainKey ''pass_missing_key''" "plainKey ''operations''" "plainKey ''message''" "plainKey ''status_code''"
  "plainKey ''code''" "plainKey ''type''" "plainKey ''skip_retry''"
  by (simp_all add: plainKey_def is_digit_def jsc_def)

lemma condition_printable: "numbers_ok E \<Longrightarrow> buildConditionPayload E c = Some p \<Longrightarrow> printable E p"
  by (auto simp: condition_explicit parseLooseValue_printable distinct_entry_append image_Un simp del: map_append
      intro!: printable_obj split: if_splits)

lemma conditionPayloads_printable: "numbers_ok E \<Longrightarrow> list_all (printable E) (conditionPayloads E x)"
  using condition_printable by (auto simp: conditionPayloads_def map_filter_def list_all_iff)

lemma payload_printable:
  assumes "numbers_ok E" "validOperation x"
  shows "printable E (operationPayload E x)"
proof -
  note ok = valid_metaOk [OF assms(2)]
  have "printable E (JArr (conditionPayloads E x))"
    using conditionPayloads_printable [OF assms(1)] by (rule printable_arr)
  then show ?thesis unfolding payload_explicit [OF ok] fields_explicit [OF ok]
    by (intro printable_obj) (simp_all add: parseLooseValue_printable assms(1) distinct_entry_append image_Un del: map_append)
qed

lemma operationsValue_printable:
  assumes "numbers_ok E" "list_all validOperation ops"
  shows "printable E (operationsValue E ops)"
proof -
  have "printable E (JArr (map (operationPayload E) ops))"
    using assms payload_printable by (intro printable_arr) (auto simp: list_all_iff)
  then show ?thesis unfolding operationsValue_def put_single
    by (intro printable_obj) simp_all
qed

lemma default_blank: "isOperationBlank (fst (createDefaultOperation E n))"
  by (simp add: createDefaultOperation_eq isOperationBlank_def)

lemma open_empty:
  assumes "openDialog E [] s = Some s'"
  shows "saveResult E s' = Inr []"
  using assms default_blank [of E "seed s"]
  by (auto simp: openDialog_def parseInitialState_def Let_def saveResult_def buildVisualJson_def buildOperationsJson_def
      split: prod.splits)

section \<open>Validation\<close>

lemma validate_line: "validateOperation E x l = None \<longleftrightarrow> validateOperation E x l' = None"
  by (simp add: validate_None)

lemma validateFrom_Some:
  "validateFrom E k ops = Some e \<longleftrightarrow> (\<exists>A x B. ops = A @ x # B \<and> list_all (\<lambda>a. validateOperation E a 0 = None) A
     \<and> validateOperation E x (k + length A + 1) = Some e)"
proof (induction ops arbitrary: k)
  case (Cons y ops)
  have eq: "validateOperation E y (k + 1) = None \<longleftrightarrow> validateOperation E y 0 = None" by (rule validate_line)
  show ?case
  proof (cases "validateOperation E y (k + 1)")
    case None
    then have "validateFrom E k (y # ops) = Some e \<longleftrightarrow> validateFrom E (Suc k) ops = Some e" by simp
    also have "\<dots> \<longleftrightarrow> (\<exists>A x B. ops = A @ x # B \<and> list_all (\<lambda>a. validateOperation E a 0 = None) A
        \<and> validateOperation E x (Suc k + length A + 1) = Some e)" by (rule Cons.IH)
    also have "\<dots> \<longleftrightarrow> (\<exists>A x B. y # ops = A @ x # B \<and> list_all (\<lambda>a. validateOperation E a 0 = None) A
        \<and> validateOperation E x (k + length A + 1) = Some e)" (is "?L \<longleftrightarrow> ?R")
    proof
      assume ?L
      then obtain A x B where "ops = A @ x # B" "list_all (\<lambda>a. validateOperation E a 0 = None) A"
        "validateOperation E x (Suc k + length A + 1) = Some e" by blast
      then have "y # ops = (y # A) @ x # B \<and> list_all (\<lambda>a. validateOperation E a 0 = None) (y # A)
        \<and> validateOperation E x (k + length (y # A) + 1) = Some e" using None eq by simp
      then show ?R by blast
    next
      assume ?R
      then obtain A x B where r: "y # ops = A @ x # B" "list_all (\<lambda>a. validateOperation E a 0 = None) A"
        "validateOperation E x (k + length A + 1) = Some e" by blast
      then obtain A' where "A = y # A'" using None by (cases A) auto
      with r show ?L by auto
    qed
    finally show ?thesis .
  next
    case (Some e')
    have nil: "A = []" if "y # ops = A @ x # B" "list_all (\<lambda>a. validateOperation E a 0 = None) A" for A x B
      using that Some eq by (cases A) auto
    show ?thesis
    proof
      assume "validateFrom E k (y # ops) = Some e"
      then have "y # ops = [] @ y # ops \<and> list_all (\<lambda>a. validateOperation E a 0 = None) []
        \<and> validateOperation E y (k + length [] + 1) = Some e" using Some by simp
      then show "\<exists>A x B. y # ops = A @ x # B \<and> list_all (\<lambda>a. validateOperation E a 0 = None) A
        \<and> validateOperation E x (k + length A + 1) = Some e" by blast
    qed (use nil Some in fastforce)
  qed
qed simp

lemma validateFrom_None: "validateFrom E k ops = None \<longleftrightarrow> list_all (\<lambda>a. validateOperation E a 0 = None) ops"
proof (induction ops arbitrary: k)
  case (Cons y ops)
  have "validateOperation E y (k + 1) = None \<longleftrightarrow> validateOperation E y 0 = None" by (rule validate_line)
  then show ?case using Cons by (cases "validateOperation E y (k + 1)") auto
qed simp

text \<open>The payload of a rule has what its mode needs.\<close>

definition completePayload :: "json \<Rightarrow> bool" where
  "completePayload p \<longleftrightarrow> (let mode = strProp ''mode'' p; m = modeMeta mode in
     mode \<in> OPERATION_MODE_VALUES
     \<and> (m_path m \<longrightarrow> strProp ''path'' p \<noteq> [])
     \<and> (mode \<in> FROM_REQUIRED_MODES \<longrightarrow> strProp ''from'' p \<noteq> [])
     \<and> (mode \<in> TO_REQUIRED_MODES \<longrightarrow> strProp ''to'' p \<noteq> [])
     \<and> (m_value m \<longrightarrow> jprop ''value'' p \<noteq> None))"

lemma payload_complete:
  assumes "validOperation x" "validateOperation E x l = None"
  shows "completePayload (operationPayload E x)"
proof -
  define m where "m = modeMeta (opMode x)"
  define p where "p = operationPayload E x"
  have ok: "opMode x \<in> FROM_REQUIRED_MODES \<Longrightarrow> m_from m" "opMode x \<in> TO_REQUIRED_MODES \<Longrightarrow> m_to m = Some True"
    using valid_metaOk [OF assms(1)] by (auto simp: metaOk_def m_def Let_def)
  note v = assms(2) [unfolded validate_None Let_def m_def [symmetric]]
  note explicit = payload_explicit [OF valid_metaOk [OF assms(1)], of E, folded p_def]
    fields_explicit [OF valid_metaOk [OF assms(1)], of E, folded m_def]
  have "strProp ''mode'' p = opMode x" "strProp ''path'' p = (if savesPath x then trim (o_path x) else [])"
    "strProp ''from'' p = (if m_from m then orPath x (o_from x) else [])"
    "strProp ''to'' p = (if m_to m = Some True \<or> trim (o_to x) \<noteq> [] then orPath x (o_to x) else [])"
    "m_value m \<Longrightarrow> jprop ''value'' p \<noteq> None"
    by (simp_all add: strProp_def jprop_def explicit get_append)
  moreover have "opMode x \<in> OPERATION_MODE_VALUES" using assms(1) valid_opMode by (simp add: validOperation_def)
  moreover have "opMode x \<in> FROM_REQUIRED_MODES \<Longrightarrow> orPath x (o_from x) \<noteq> []"
    "opMode x \<in> TO_REQUIRED_MODES \<Longrightarrow> orPath x (o_to x) \<noteq> []"
    using v by (auto simp: orPath_def m_def [symmetric])
  ultimately show ?thesis using v ok by (auto simp: completePayload_def p_def [symmetric] Let_def m_def savesPath_def)
qed

section \<open>Copies\<close>

lemma jprop_jobj: "jprop k (jobj fs) = map_of fs k"
  by (simp add: jprop_def jobj_def get_js_table)

lemma condition_copy:
  assumes "numbers_ok E" "validCondition c" "rereadable E (c_value_text c)"
  shows "\<exists>c'. normalizeCondition E n (conditionCopy E c) = Some (c', Suc n)
    \<and> buildConditionPayload E c' = buildConditionPayload E c"
proof -
  have "normalizeCondition E n (conditionCopy E c) = Some (\<lparr>c_id = nextLocalId E n, c_path = c_path c, c_mode = c_mode c,
      c_value_text = toValueText E (Some (parseLooseValue E (c_value_text c))), c_invert = c_invert c,
      c_pass_missing_key = c_pass_missing_key c\<rparr>, Suc n)"
    using assms(2) by (auto simp: normalizeCondition_def conditionCopy_def conditionMode_def strProp_def trueProp_def jprop_jobj
        validCondition_def) (simp add: jobj_def)
  then show ?thesis using reshown_text(4) [OF assms(1,3)] by (simp add: condition_explicit)
qed

lemma conditions_copy:
  assumes "numbers_ok E" "list_all (\<lambda>c. validCondition c \<and> rereadable E (c_value_text c)) conds"
  shows "\<exists>cs n'. map_seed (normalizeCondition E) n (map (conditionCopy E) conds) = Some (cs, n')
    \<and> map (buildConditionPayload E) cs = map (buildConditionPayload E) conds"
  using assms(2)
proof (induction conds arbitrary: n)
  case (Cons c conds)
  obtain c' where "normalizeCondition E n (conditionCopy E c) = Some (c', Suc n)"
    "buildConditionPayload E c' = buildConditionPayload E c"
    using condition_copy [OF assms(1)] Cons.prems by force
  moreover obtain cs n' where "map_seed (normalizeCondition E) (Suc n) (map (conditionCopy E) conds) = Some (cs, n')"
    "map (buildConditionPayload E) cs = map (buildConditionPayload E) conds"
    using Cons.IH [of "Suc n"] Cons.prems by auto
  ultimately show ?case by simp
qed simp

lemma map_filter_alt: "List.map_filter f xs = map the (filter (\<lambda>v. v \<noteq> None) (map f xs))"
  by (simp add: map_filter_def filter_map comp_def)

lemma map_filter_map: "map f xs = map f ys \<Longrightarrow> List.map_filter f xs = List.map_filter f ys"
  unfolding map_filter_alt by simp

lemma operation_copy:
  assumes "numbers_ok E" "validOperation x" "rereadableRule E x"
  shows "\<exists>y n'. normalizeOperation E n (operationCopy E x) = Some (y, n') \<and> operationPayload E y = operationPayload E x"
proof -
  have conds: "list_all (\<lambda>c. validCondition c \<and> rereadable E (c_value_text c)) (o_conditions x)"
    using assms(2,3) by (auto simp: rereadableRule_def validOperation_def list_all_iff)
  obtain cs n' where cs: "map_seed (normalizeCondition E) (Suc n) (map (conditionCopy E) (o_conditions x)) = Some (cs, n')"
    "map (buildConditionPayload E) cs = map (buildConditionPayload E) (o_conditions x)"
    using conditions_copy [OF assms(1) conds] by blast
  define y where "y = x\<lparr>o_id := nextLocalId E n,
    o_value_text := toValueText E (Some (parseLooseValue E (o_value_text x))), o_conditions := cs\<rparr>"
  have logic: "operationLogic E (operationCopy E x) = o_logic x"
  proof -
    have "o_logic x = js ''AND'' \<or> o_logic x = js ''OR''" using assms(2) by (simp add: validOperation_def)
    then show ?thesis by (auto simp: operationLogic_def orString_def operationCopy_def jprop_jobj upper_logic)
  qed
  have "normalizeOperation E n (operationCopy E x) = Some (y, n')"
    using assms(2) cs(1) logic
    by (simp add: normalizeOperation_def operationCopy_def strProp_def trueProp_def jprop_jobj y_def validOperation_def)
      (simp add: jobj_def)
  moreover have "operationPayload E y = operationPayload E x"
  proof -
    have "parseLooseValue E (o_value_text y) = parseLooseValue E (o_value_text x)"
      using reshown_text(4) [OF assms(1)] assms(3) by (simp add: y_def rereadableRule_def)
    then have "operationFields E y = operationFields E x"
      by (simp add: operationFields_def y_def opMode_def Let_def)
    moreover have "conditionPayloads E y = conditionPayloads E x"
      using map_filter_map [OF cs(2)] by (simp add: conditionPayloads_def y_def)
    ultimately show ?thesis by (simp add: operationPayload_def y_def)
  qed
  ultimately show ?thesis by blast
qed

end
