(* ===== verification/ParamOverrideProperties.thy ===== *)
theory ParamOverrideProperties
  imports ParamOverrideJson
begin

text \<open>
  What the parameter override editor guarantees about errors, copies, templates and drafts, and the inputs
  for which a value changes its type or an input is lost.
\<close>

section \<open>Templates\<close>

lemma normalize_jobj:
  assumes "normalizeOperation E n (jobj fs) = Some (x, n')"
  shows "o_mode x = (if strProp ''mode'' (jobj fs) \<in> OPERATION_MODE_VALUES then strProp ''mode'' (jobj fs) else js ''set'')"
    "o_path x = strProp ''path'' (jobj fs)" "o_value_text x = toValueText E (map_of fs ''value'')"
  using assms by (auto simp: normalizeOperation_def Option.bind_eq_Some_conv jprop_jobj split: if_splits)

lemma map_seed_elem: "map_seed f n xs = Some (ys, n') \<Longrightarrow> y \<in> set ys \<Longrightarrow> \<exists>k k'. \<exists>x\<in>set xs. f k x = Some (y, k')"
proof (induction xs arbitrary: n ys)
  case (Cons x xs)
  from Cons.prems(1) obtain z m zs where fx: "f n x = Some (z, m)" and rest: "map_seed f m xs = Some (zs, n')"
    and ys: "ys = z # zs" by (auto simp: Option.bind_eq_Some_conv)
  show ?case using Cons.prems(2) fx Cons.IH [OF rest] by (auto simp: ys)
qed simp

lemma jobj_not_null [simp]: "jobj fs \<noteq> JNull" "JNull \<noteq> jobj fs"
  by (simp_all add: jobj_def)

text \<open>The rules of the templates: what validation looks at.\<close>

definition tokenValue :: "json \<Rightarrow> bool" where
  "tokenValue v = (case v of JNull \<Rightarrow> True | JStr _ \<Rightarrow> True | _ \<Rightarrow> False)"

lemma tokenValue_simps [simp]: "tokenValue JNull" "tokenValue (jstr s)"
  by (simp_all add: tokenValue_def jstr_def)

lemma tokenValue_printable: "tokenValue v \<Longrightarrow> printable E v"
  by (cases v) (simp_all add: tokenValue_def printable_by_def)

definition templateRuleOk :: "(string \<times> json) list \<Rightarrow> bool" where
  "templateRuleOk fs \<longleftrightarrow> (let j = jobj fs in
     (\<forall>cs. map_of fs ''conditions'' = Some (JArr cs) \<longrightarrow> JNull \<notin> set cs) \<and>
     (strProp ''mode'' j = js ''set'' \<and> trim (strProp ''path'' j) \<noteq> []
      \<or> strProp ''mode'' j = js ''delete'' \<and> trim (strProp ''path'' j) \<noteq> []
      \<or> strProp ''mode'' j = js ''set_header'' \<and> trim (strProp ''path'' j) \<noteq> []
          \<and> (\<exists>ps. map_of fs ''value'' = Some (jobj ps) \<and> list_all (\<lambda>(k, v). plainKey k \<and> tokenValue v) ps
              \<and> distinct (map fst ps))
      \<or> strProp ''mode'' j = js ''pass_headers'' \<and> (\<exists>h hs. map_of fs ''value'' = Some (JArr (map jstr (h # hs))) \<and> trim (js h) \<noteq> [])))"

lemma tokens_printable:
  assumes "list_all (\<lambda>(k, v). plainKey k \<and> tokenValue v) ps" "distinct (map fst ps)"
  shows "printable E (jobj ps)"
proof -
  have "entriesOk E (map (\<lambda>(k, v). (js k, v)) ps)"
    using assms(1) by (auto simp: entriesOk_def list_all_iff plainKey_index tokenValue_printable)
  moreover have "distinct (map fst (map (\<lambda>(k, v). (js k, v)) ps))"
  proof -
    have "map fst (map (\<lambda>(k, v). (js k, v)) ps) = map js (map fst ps)" by (simp add: case_prod_beta comp_def)
    then show ?thesis using assms(2) by (simp add: distinct_map inj_on_def del: map_map)
  qed
  ultimately show ?thesis unfolding jobj_def by (rule printable_obj)
qed

lemma reshown_value:
  assumes "printable E v" "\<And>s. v \<noteq> JStr s"
  shows "trim (toValueText E (Some v)) = toValueText E (Some v)" "toValueText E (Some v) \<noteq> []"
    "parseLooseValue E (toValueText E (Some v)) = v"
  using jt.trim_compact [OF assms(1)] jt.compact_ne [OF assms(1)] jt.parse_compact [OF assms(1)]
  by (simp_all add: toValueText_nonstring [OF assms(2)] parseLooseValue_def)

lemma known_meta:
  "modeMeta (js ''delete'') = noMeta\<lparr>m_path := True\<rparr>" "modeMeta (js ''set_header'') = setMeta"
  "modeMeta (js ''pass_headers'') = noMeta\<lparr>m_value := True, m_keepOrigin := True\<rparr>"
  by (simp_all add: modeMeta_js MODE_META_def)

lemma template_rule_valid:
  assumes "templateRuleOk fs" "normalizeOperation E n (jobj fs) = Some (x, n')"
  shows "validateOperation E x l = None \<and> \<not> isOperationBlank x"
proof -
  define j where "j = jobj fs"
  note x = normalize_jobj [OF assms(2), folded j_def]
  have modes: "js ''set'' \<in> OPERATION_MODE_VALUES" "js ''delete'' \<in> OPERATION_MODE_VALUES"
    "js ''set_header'' \<in> OPERATION_MODE_VALUES" "js ''pass_headers'' \<in> OPERATION_MODE_VALUES"
    by (simp_all add: OPERATION_MODE_VALUES_def OPERATION_MODE_OPTIONS_def)
  note sets = FROM_REQUIRED_MODES_def TO_REQUIRED_MODES_def VALUE_REQUIRED_MODES_def
  consider (field) "strProp ''mode'' j = js ''set'' \<or> strProp ''mode'' j = js ''delete''" "trim (strProp ''path'' j) \<noteq> []"
    | (header) ps where "strProp ''mode'' j = js ''set_header''" "trim (strProp ''path'' j) \<noteq> []"
        "map_of fs ''value'' = Some (jobj ps)" "list_all (\<lambda>(k, v). plainKey k \<and> tokenValue v) ps"
        "distinct (map fst ps)"
    | (pass) h hs where "strProp ''mode'' j = js ''pass_headers''" "map_of fs ''value'' = Some (JArr (map jstr (h # hs)))"
        "trim (js h) \<noteq> []"
    using assms(1) unfolding templateRuleOk_def Let_def j_def [symmetric] by blast
  then show ?thesis
  proof cases
    case field
    then have m: "o_mode x = js ''set'' \<or> o_mode x = js ''delete''" and p: "trim (o_path x) \<noteq> []" using x modes by auto
    then have "opMode x = o_mode x" by (auto simp: opMode_def or_str_def)
    then show ?thesis using m p
      by (auto simp: validate_None Let_def set_meta known_meta setMeta_def noMeta_def sets isOperationBlank_def)
  next
    case header
    then have m: "o_mode x = js ''set_header''" and p: "trim (o_path x) \<noteq> []" using x modes by auto
    have mode: "opMode x = js ''set_header''" using m by (simp add: opMode_def or_str_def)
    have "trim (o_value_text x) \<noteq> []"
      using reshown_value [OF tokens_printable [OF header(4,5)], of E] x(3) header(3) by (simp add: jobj_def)
    then show ?thesis using m p mode
      by (simp add: validate_None Let_def known_meta setMeta_def noMeta_def sets isOperationBlank_def)
  next
    case pass
    then have m: "o_mode x = js ''pass_headers''" using x modes by auto
    have mode: "opMode x = js ''pass_headers''" using m by (simp add: opMode_def or_str_def)
    define v where "v = JArr (map jstr (h # hs))"
    have "printable E v" unfolding v_def by (rule printable_arr) (simp add: list_all_iff jstr_def)
    then have t: "trim (o_value_text x) \<noteq> []" "parseLooseValue E (o_value_text x) = v"
      using reshown_value [of E v] x(3) pass(2) by (simp_all add: v_def)
    have "parsePassHeaderNames E v \<noteq> []" using pass(3) by (simp add: v_def parsePassHeaderNames_def stringItems_def jstr_def)
    then show ?thesis using m t mode
      by (simp add: validate_None Let_def known_meta setMeta_def noMeta_def sets isOperationBlank_def)
  qed
qed

lemma trim_ne: "\<not> is_ws c \<Longrightarrow> trim (c # s) \<noteq> []"
proof -
  assume "\<not> is_ws c"
  then have "\<not> (\<forall>x\<in>set (rev (c # s)). is_ws x)" by simp
  then have "dropWhile is_ws (rev (c # s)) \<noteq> []" by (simp add: dropWhile_eq_Nil_conv)
  then show ?thesis using \<open>\<not> is_ws c\<close> by (simp add: trim_def trim_start_def)
qed

lemma trim_js_ne: "\<not> is_ws (jsc c) \<Longrightarrow> trim (js (c # cs)) \<noteq> []"
  by (simp add: js_simps trim_ne del: is_ws_jsc)

lemma bedrock_tokens_ok:
  "list_all (\<lambda>(k, v). plainKey k \<and> tokenValue v) bedrockTokens \<and> distinct (map fst bedrockTokens)"
  by (simp add: bedrockTokens_def plainKey_def is_digit_jsc)

lemma template_rules_ok:
  assumes "presetPayload key = OperationsPayload items"
  shows "\<forall>j\<in>set items. \<exists>fs. j = jobj fs \<and> templateRuleOk fs"
proof -
  note eval = templateRuleOk_def strProp_def jprop_jobj jstr_def Let_def modelCondition_def
  have ne: "trim (js (c # cs)) \<noteq> []" if "of_char c > (32 :: nat)" "of_char c < (128 :: nat)" for c cs
    using that by (intro trim_js_ne) (auto simp: is_ws_jsc)
  have pass: "templateRuleOk ([(''mode'', jstr ''pass_headers''), (''value'', JArr (map jstr (h # hs))), (''keep_origin'', JBool True)])"
    if "trim (js h) \<noteq> []" for h hs using that by (auto simp: eval)
  have default_ok: "\<forall>j\<in>set OPERATION_TEMPLATE. \<exists>fs. j = jobj fs \<and> templateRuleOk fs"
    unfolding OPERATION_TEMPLATE_def by (auto intro!: exI simp: ne eval)
  have header_ok: "\<forall>j\<in>set HEADER_PASSTHROUGH_TEMPLATE. \<exists>fs. j = jobj fs \<and> templateRuleOk fs"
    unfolding HEADER_PASSTHROUGH_TEMPLATE_def
    by (auto intro!: exI [where x = "''X-Request-Id''"] exI simp: ne eval)
  have gemini_ok: "\<forall>j\<in>set GEMINI_IMAGE_4K_TEMPLATE. \<exists>fs. j = jobj fs \<and> templateRuleOk fs"
    unfolding GEMINI_IMAGE_4K_TEMPLATE_def by (auto intro!: exI simp: ne eval)
  have headers_ok: "\<forall>j\<in>set (buildPassHeadersTemplate hs). \<exists>fs. j = jobj fs \<and> templateRuleOk fs"
    if "hs \<noteq> []" "trim (js (hd hs)) \<noteq> []" for hs
    using that pass [of "hd hs" "tl hs"] by (auto simp: buildPassHeadersTemplate_def simp del: map_eq_Cons_conv)
  have bedrock_ok: "\<forall>j\<in>set AWS_BEDROCK_ANTHROPIC_COMPAT_TEMPLATE. \<exists>fs. j = jobj fs \<and> templateRuleOk fs"
  proof -
    have "templateRuleOk [(''description'', d), (''mode'', jstr ''set_header''), (''path'', jstr ''anthropic-beta''), (''value'', jobj bedrockTokens)]" for d
      using bedrock_tokens_ok by (auto simp: eval ne)
    moreover have "templateRuleOk [(''description'', d), (''mode'', jstr ''delete''), (''path'', jstr ''tools.*.custom.input_examples'')]" for d
      by (auto simp: eval ne)
    ultimately show ?thesis unfolding AWS_BEDROCK_ANTHROPIC_COMPAT_TEMPLATE_def by auto
  qed
  have codex: "CODEX_CLI_HEADER_PASSTHROUGH_HEADERS \<noteq> []" "trim (js (hd CODEX_CLI_HEADER_PASSTHROUGH_HEADERS)) \<noteq> []"
    and claude: "CLAUDE_CLI_HEADER_PASSTHROUGH_HEADERS \<noteq> []" "trim (js (hd CLAUDE_CLI_HEADER_PASSTHROUGH_HEADERS)) \<noteq> []"
    by (simp_all add: CODEX_CLI_HEADER_PASSTHROUGH_HEADERS_def CLAUDE_CLI_HEADER_PASSTHROUGH_HEADERS_def ne)
  have "payload = OperationsPayload items \<Longrightarrow> \<forall>j\<in>set items. \<exists>fs. j = jobj fs \<and> templateRuleOk fs"
    if "(k, label, payload) \<in> set TEMPLATE_PRESET_CONFIG" for k label payload
    using that default_ok header_ok gemini_ok bedrock_ok headers_ok [OF codex] headers_ok [OF claude]
    by (auto simp: TEMPLATE_PRESET_CONFIG_def)
  then show ?thesis using assms default_ok
    by (auto simp: presetPayload_def dest!: map_of_SomeD split: option.splits)
qed

lemma pretty_object_ne: "pretty E (JObj fs) \<noteq> []"
  by (simp add: prettyJSON_def js_punct)

lemma template_read:
  assumes "presetPayload key = OperationsPayload items" "map_seed (normalizeOperation E) n items = Some (ops, n')"
  shows "list_all (\<lambda>x. validateOperation E x 0 = None \<and> \<not> isOperationBlank x) ops"
proof -
  have "validateOperation E x 0 = None \<and> \<not> isOperationBlank x" if x: "x \<in> set ops" for x
  proof -
    obtain k k' j where "j \<in> set items" "normalizeOperation E k j = Some (x, k')"
      using map_seed_elem [OF assms(2) x] by blast
    moreover from this obtain fs where "j = jobj fs" "templateRuleOk fs" using template_rules_ok [OF assms(1)] by blast
    ultimately show ?thesis using template_rule_valid by blast
  qed
  then show ?thesis by (simp add: list_all_iff)
qed

lemma template_total:
  assumes "presetPayload key = OperationsPayload items"
  shows "\<exists>ops n'. map_seed (normalizeOperation E) n items = Some (ops, n')"
proof -
  have total: "\<exists>ops n'. map_seed (normalizeOperation E) n js' = Some (ops, n')"
    if "\<And>j n. j \<in> set js' \<Longrightarrow> \<exists>x n'. normalizeOperation E n j = Some (x, n')" for n js'
    using that
  proof (induction js' arbitrary: n)
    case (Cons j js')
    obtain x n1 where "normalizeOperation E n j = Some (x, n1)" using Cons.prems [of j n] by auto
    moreover obtain ops n2 where "map_seed (normalizeOperation E) n1 js' = Some (ops, n2)"
      using Cons.IH [of n1] Cons.prems by auto
    ultimately show ?case by simp
  qed simp
  have "\<exists>x n'. normalizeOperation E n j = Some (x, n')" if j: "j \<in> set items" for j n
  proof (rule normalizeOperation_total)
    obtain fs where fs: "j = jobj fs" "templateRuleOk fs" using template_rules_ok [OF assms] j by blast
    then show "j \<noteq> JNull" by simp
    show "JNull \<notin> set cs" if "jprop ''conditions'' j = Some (JArr cs)" for cs
      using that fs by (simp add: templateRuleOk_def Let_def jprop_jobj)
  qed
  then show ?thesis by (rule total)
qed

section \<open>Drafts\<close>

lemma statusOr400_valid: "validStatus (statusOr400 v)"
  by (auto simp: statusOr400_def validStatus_def split: option.split)

lemma statusOr400_idem [simp]: "statusOr400 (Some (statusOr400 v)) = statusOr400 v"
  using statusOr400_valid [of v] by (simp add: statusOr400_def [of "Some _"])

lemma payload_entries: "returnErrorPayload d =
    entry True ''message'' (JStr (trim (rd_message d))) @ entry True ''status_code'' (JNum (statusOr400 (Some (rd_statusCode d))))
    @ entry (trim (rd_code d) \<noteq> []) ''code'' (JStr (trim (rd_code d)))
    @ entry (trim (rd_type d) \<noteq> []) ''type'' (JStr (trim (rd_type d)))
    @ entry (\<not> rd_skipRetry d) ''skip_retry'' (JBool False)"
  by (simp add: returnErrorPayload_def Let_def put_def entry_def)

lemma orString_str: "orString E (Some (JStr s)) [] = s" "orString E None d = d"
  by (simp_all add: orString_def)

lemma parse_digits_bound: "list_all is_digit v \<Longrightarrow> parse_digits v < 10 ^ length v"
proof (induction v rule: rev_induct)
  case (snoc c v)
  have "digit_val c < 10" using snoc.prems by (auto simp: digit_val_def is_digit_def word_le_nat_alt unat_sub_if')
  moreover have "parse_digits (v @ [c]) = 10 * parse_digits v + digit_val c" by (simp add: parse_digits_def)
  ultimately show ?case using snoc by simp
qed (simp add: parse_digits_def)

section \<open>Endpoints\<close>

lemma index_colon: "58 \<notin> set p \<Longrightarrow> index_of [58] (p @ 58 # s) = Some (length p)"
  by (induction p) (auto simp: prefix_def)

lemma trim_prefixed:
  assumes "\<not> is_ws c" "k \<noteq> []" "trim k = k"
  shows "trim (c # p @ k) = c # p @ k"
  using assms trim_ends [of k] by (intro trim_id) auto

lemma js_words: "js ''header'' = [104, 101, 97, 100, 101, 114]" "js ''json'' = [106, 115, 111, 110]" "js '':'' = [58]"
  by (simp_all add: js_simps jsc_def)

lemma get_prop_order:
  assumes "distinct (map fst m)"
  shows "omap_get (prop_order m) k = omap_get m k"
proof (cases "map_of m k")
  case None
  then have "map_of (prop_order m) k = None" unfolding map_of_eq_None_iff by simp
  with None show ?thesis by (simp add: omap_get_def)
next
  case (Some v)
  then have "(k, v) \<in> set (prop_order m)" using map_of_SomeD by fastforce
  then show ?thesis using assms Some by (simp add: omap_get_def map_of_eq_Some_iff del: set_prop_order)
qed

section \<open>Sample states\<close>

lemma sample_numbers: "num_laws (num_text sampleEnv) (to_num sampleEnv)"
  by (simp add: sampleEnv_def num_laws_nat)

definition sampleRule :: pstate where
  "sampleRule = the (sampleRun [EditRule (sampleId 0) (PatchPath (js ''temperature'')),
     EditRule (sampleId 0) (PatchValueText (compact sampleEnv (JNum 7)))])"

lemma sampleRule_facts:
  "editorReachable sampleEnv sampleRule" "editMode sampleRule = Visual" "visualMode sampleRule = Operations"
  "operations sampleRule = [(fst (createDefaultOperation sampleEnv 0))\<lparr>o_path := js ''temperature'',
     o_value_text := compact sampleEnv (JNum 7)\<rparr>]"
proof -
  have run: "sampleRun [EditRule (sampleId 0) (PatchPath (js ''temperature'')),
     EditRule (sampleId 0) (PatchValueText (compact sampleEnv (JNum 7)))] = Some sampleRule"
    by (simp add: sampleRule_def sampleRun_def)
  show "editorReachable sampleEnv sampleRule" by (rule sampleRun_reachable [OF run]) auto
qed (simp_all add: sampleRule_def sampleRun_def sample_eval)

lemma sampleRule_text:
  "parse sampleEnv (trim (compact sampleEnv (JNum 7))) = Some (JNum 7)" "trim (compact sampleEnv (JNum 7)) \<noteq> []"
proof -
  have "num_ok nat_text text_nat 7"
    using num_laws_nat by (auto simp: num_laws_def text_nat_def digits1_def is_digit_def parse_digits_def digit_val_def
        dest: spec [of _ "[55]"])
  then have P: "printable sampleEnv (JNum 7)" by (simp add: printable_by_def sampleEnv_def)
  show "parse sampleEnv (trim (compact sampleEnv (JNum 7))) = Some (JNum 7)" "trim (compact sampleEnv (JNum 7)) \<noteq> []"
    using jt.parse_compact [OF P] jt.trim_compact [OF P] jt.compact_ne [OF P] by simp_all
qed

lemma sampleRule_rereadable: "list_all (rereadableRule sampleEnv) (operations sampleRule)"
  by (simp add: sampleRule_facts(4) rereadableRule_def rereadable_def sampleRule_text createDefaultOperation_eq)

lemma sampleRule_saves: "\<exists>t. saveResult sampleEnv sampleRule = Inr t \<and> t \<noteq> []"
proof -
  let ?x = "(fst (createDefaultOperation sampleEnv 0))\<lparr>o_path := js ''temperature'', o_value_text := compact sampleEnv (JNum 7)\<rparr>"
  have path: "trim (o_path ?x) \<noteq> []" using trim_js_ne [of "CHR ''t''" "''emperature''"] by (simp add: is_ws_jsc)
  then have "\<not> isOperationBlank ?x" by (simp add: isOperationBlank_def)
  moreover have "opMode ?x = js ''set''" by (simp add: createDefaultOperation_eq opMode_def or_str_def)
  then have "validateOperation sampleEnv ?x l = None" for l
    using path by (simp add: validate_None set_meta setMeta_def noMeta_def FROM_REQUIRED_MODES_def TO_REQUIRED_MODES_def
        VALUE_REQUIRED_MODES_def)
  ultimately show ?thesis
    by (simp add: saveResult_def buildVisualJson_def sampleRule_facts buildOperationsJson_def validateOperations_def
        operationsValue_def pretty_object_ne)
qed

section \<open>Properties\<close>

text \<open>C31: A saved list of rules is stable: when the rules of the visual editor are saved, opening the dialog again on
  the saved text succeeds, and saving then gives the same text, provided that no value is typed as a quoted
  string that is empty, has outer white space or is JSON itself (such a value is shown again without its quotes
  and then stands for something else, as \<open>quoted_value_retyped\<close> below shows).\<close>

theorem save_reopen_save:
  assumes "num_laws (num_text E) (to_num E)" "editorReachable E s" "editMode s = Visual" "visualMode s = Operations"
    and "list_all (rereadableRule E) (operations s)" "saveResult E s = Inr txt'"
  shows "\<exists>s'. openDialog E txt' s = Some s' \<and> saveResult E s' = Inr txt'"
proof -
  define ops where "ops = filter (\<lambda>x. \<not> isOperationBlank x) (operations s)"
  have build: "buildOperationsJson E (operations s) True = Inr txt'"
    using assms(3,4,6) by (simp add: saveResult_def buildVisualJson_def)
  have valid: "list_all validOperation (operations s)"
    using editor_inv [OF assms(2)] by (simp add: editorInv_def opsInv_def)
  show ?thesis
  proof (cases "ops = []")
    case True
    then have "txt' = []" using build by (simp add: buildOperationsJson_def ops_def)
    moreover have "openDialog E [] s \<noteq> None"
      by (simp add: openDialog_def parseInitialState_def split: prod.split)
    ultimately show ?thesis using open_empty by auto
  next
    case False
    define V where "V = operationsValue E ops"
    have v: "validateFrom E 0 ops = None" and tx: "txt' = pretty E V"
      using build False
      by (auto simp: buildOperationsJson_def ops_def [symmetric] Let_def validateOperations_def V_def split: option.splits)
    have all: "list_all (\<lambda>x. validOperation x \<and> rereadableRule E x) ops"
      using valid assms(5) by (auto simp: ops_def list_all_iff)
    then have P: "printable E V" unfolding V_def using assms(1) by (intro operationsValue_printable) (auto simp: list_all_iff)
    obtain ops' n' where again: "map_seed (normalizeOperation E) (seed s) (map (operationPayload E) ops) = Some (ops', n')"
      "map (operationPayload E) ops' = map (operationPayload E) ops" "validateFrom E 0 ops' = None"
      "list_all (\<lambda>x. \<not> isOperationBlank x) ops'"
      using rules_back [OF assms(1) all v] by blast
    have "jprop ''operations'' V = Some (JArr (map (operationPayload E) ops))"
      by (simp add: V_def operationsValue_def jprop_def omap_get_def)
    moreover obtain fs where "V = JObj fs" by (simp add: V_def operationsValue_def)
    moreover have "initialOperations E (seed s) (map (operationPayload E) ops) = Some (ops', n')"
      using again(1) False by (simp add: initialOperations_def)
    ultimately obtain s' where s': "openDialog E txt' s = Some s'" "editMode s' = Visual" "visualMode s' = Operations"
      "operations s' = ops'"
      using jt.parse_indented [OF P] jt.trim_pretty [OF P] jt.pretty_ne [OF P]
      by (auto simp: openDialog_def parseInitialState_def tx Let_def split: prod.splits)
    have "filter (\<lambda>x. \<not> isOperationBlank x) ops' = ops'" using again(4) by (simp add: filter_id_conv list_all_iff)
    moreover have "ops' \<noteq> []" using map_seed_length [OF again(1)] False by auto
    ultimately have "saveResult E s' = Inr (pretty E (operationsValue E ops'))"
      using s' again(3) by (simp add: saveResult_def buildVisualJson_def buildOperationsJson_def validateOperations_def)
    then show ?thesis using s'(1) again(2) by (simp add: tx V_def operationsValue_def)
  qed
qed

text \<open>One rule with a path and a value.\<close>

theorem save_reopen_save_witness:
  "\<exists>t s'. saveResult sampleEnv sampleRule = Inr t \<and> t \<noteq> [] \<and> openDialog sampleEnv t sampleRule = Some s'
     \<and> saveResult sampleEnv s' = Inr t"
proof -
  obtain t where t: "saveResult sampleEnv sampleRule = Inr t" "t \<noteq> []" using sampleRule_saves by blast
  from save_reopen_save [OF sample_numbers sampleRule_facts(1-3) sampleRule_rereadable t(1)] t show ?thesis by blast
qed

text \<open>C33: Saving fails exactly when some rule that is not blank is invalid, and then reports the first one: its
  number counts only the rules that are not blank.\<close>

theorem save_names_first_invalid:
  "buildOperationsJson E ops True = Inl e \<longleftrightarrow>
   (\<exists>A x B. filter (\<lambda>x. \<not> isOperationBlank x) ops = A @ x # B \<and> list_all (\<lambda>a. validateOperation E a 0 = None) A
      \<and> validateOperation E x (length A + 1) = Some e)"
  using validateFrom_Some [of E 0 "filter (\<lambda>x. \<not> isOperationBlank x) ops" e]
  by (auto simp: buildOperationsJson_def Let_def validateOperations_def split: option.splits)

text \<open>C32: Every rule that is saved is complete: it has a registered mode, a path where the mode needs one, a source
  and a target where the mode needs them (the header modes may take the path for a missing name), and a value
  where the mode takes one.\<close>

theorem saved_rules_complete:
  assumes "editorReachable E s" "buildOperationsJson E (operations s) True = Inr t"
  shows "list_all (\<lambda>x. completePayload (operationPayload E x)) (filter (\<lambda>x. \<not> isOperationBlank x) (operations s))"
proof -
  let ?ops = "filter (\<lambda>x. \<not> isOperationBlank x) (operations s)"
  have "validateFrom E 0 ?ops = None"
    using assms(2) by (auto simp: buildOperationsJson_def Let_def validateOperations_def split: if_splits option.splits)
  then have "list_all (\<lambda>a. validateOperation E a 0 = None) ?ops" by (simp add: validateFrom_None)
  moreover have "list_all validOperation (operations s)"
    using editor_inv [OF assms(1)] by (simp add: editorInv_def opsInv_def)
  ultimately show ?thesis using payload_complete by (auto simp: list_all_iff)
qed

text \<open>One rule with a path and a value.\<close>

theorem saved_rules_complete_witness:
  "list_all (\<lambda>x. completePayload (operationPayload sampleEnv x))
     (filter (\<lambda>x. \<not> isOperationBlank x) (operations sampleRule))"
proof -
  obtain t where "saveResult sampleEnv sampleRule = Inr t" using sampleRule_saves by blast
  then have "buildOperationsJson sampleEnv (operations sampleRule) True = Inr t"
    by (simp add: saveResult_def buildVisualJson_def sampleRule_facts(2,3))
  then show ?thesis by (rule saved_rules_complete [OF sampleRule_facts(1)])
qed

text \<open>A copy of a rule is put directly after it and is saved as the same JSON, provided no value of the rule is
  typed as a quoted string that is empty, has outer white space or is JSON itself.\<close>

theorem duplicate_saves_same:
  assumes "num_laws (num_text E) (to_num E)" "editorReachable E s"
    and "find_index (\<lambda>x. o_id x = opId) (operations s) = Some i" "rereadableRule E (operations s ! i)"
  shows "\<exists>y. operations (duplicateOperation E opId eager s) = splice_in (i + 1) y (operations s)
    \<and> operationPayload E y = operationPayload E (operations s ! i)"
proof -
  have "operations s ! i \<in> set (operations s)" using find_index_Some [OF assms(3)] by simp
  then have "validOperation (operations s ! i)"
    using editor_inv [OF assms(2)] by (auto simp: editorInv_def opsInv_def list_all_iff)
  from operation_copy [OF assms(1) this assms(4), of "seed s"] show ?thesis
    by (auto simp: duplicateOperation_def assms(3))
qed

text \<open>The copy of a rule with a number.\<close>

theorem duplicate_saves_same_witness:
  "\<exists>y. operations (duplicateOperation sampleEnv (sampleId 0) True sampleRule) = splice_in 1 y (operations sampleRule)
    \<and> operationPayload sampleEnv y = operationPayload sampleEnv (operations sampleRule ! 0)"
proof -
  have "find_index (\<lambda>x. o_id x = sampleId 0) (operations sampleRule) = Some 0"
    by (simp add: sampleRule_facts(4) createDefaultOperation_eq)
  moreover have "rereadableRule sampleEnv (operations sampleRule ! 0)"
    using sampleRule_rereadable by (simp add: sampleRule_facts(4))
  ultimately show ?thesis
    using duplicate_saves_same [OF sample_numbers sampleRule_facts(1), of "sampleId 0" 0 True] by simp
qed

text \<open>A string whose text is itself JSON changes its type: written as a quoted string it is saved as a string, but the
  dialog shows it again without the quotes, so that saving once more stores the number, object or literal.\<close>

theorem quoted_value_retyped:
  assumes "printable_by (num_text E) (to_num E) v" "\<nexists>s. v = JStr s"
  shows "parseLooseValue E (compact E (JStr (compact E v))) = JStr (compact E v)
    \<and> parseLooseValue E (toValueText E (Some (JStr (compact E v)))) = v"
proof -
  have P: "printable E (JStr (compact E v))" by simp
  show ?thesis
    using jt.parse_compact [OF P] jt.trim_compact [OF P] jt.compact_ne [OF P]
      jt.parse_compact [OF assms(1)] jt.trim_compact [OF assms(1)] jt.compact_ne [OF assms(1)]
    by (simp add: parseLooseValue_def toValueText_def)
qed

text \<open>The text \<open>"true"\<close>, with its quotes, becomes the value \<open>true\<close>.\<close>

theorem quoted_value_retyped_witness:
  "parseLooseValue sampleEnv (compact sampleEnv (JStr (compact sampleEnv (JBool True)))) = JStr (compact sampleEnv (JBool True))
    \<and> parseLooseValue sampleEnv (toValueText sampleEnv (Some (JStr (compact sampleEnv (JBool True))))) = JBool True"
  by (rule quoted_value_retyped) (simp_all add: printable_by_def)

text \<open>Filling in a template of rules gives rules that can be saved without changes.\<close>

theorem filled_template_saves:
  assumes "presetPayload (templatePresetKey s) = OperationsPayload items"
  shows "\<exists>t. saveResult E (fillTemplate E Fill s) = Inr t \<and> t \<noteq> []"
proof -
  obtain ops n' where ops: "map_seed (normalizeOperation E) (seed s) items = Some (ops, n')"
    using template_total [OF assms] by blast
  have ne: "ops \<noteq> []" using map_seed_length [OF ops] preset_operations_ne [OF assms] by auto
  note ok = template_read [OF assms ops]
  have "filter (\<lambda>x. \<not> isOperationBlank x) ops = ops" using ok by (simp add: filter_id_conv list_all_iff)
  moreover have "validateFrom E 0 ops = None" unfolding validateFrom_None using ok by (auto simp: list_all_iff)
  moreover have "editMode (fillTemplate E Fill s) = Visual" "visualMode (fillTemplate E Fill s) = Operations"
    "operations (fillTemplate E Fill s) = ops"
    using ne by (simp_all add: fillTemplate_def assms ops)
  ultimately show ?thesis using ne
    by (simp add: saveResult_def buildVisualJson_def buildOperationsJson_def validateOperations_def operationsValue_def
        pretty_object_ne)
qed

text \<open>The template that is selected when the dialog is mounted.\<close>

theorem filled_template_saves_witness:
  "\<exists>t. saveResult sampleEnv (fillTemplate sampleEnv Fill (mountState sampleEnv 0)) = Inr t \<and> t \<noteq> []"
  by (rule filled_template_saves [where items = OPERATION_TEMPLATE])
    (simp add: mountState_def createDefaultOperation_eq presetPayload_def TEMPLATE_PRESET_CONFIG_def)

text \<open>The advanced draft of \<open>return_error\<close> is read back from the text it is stored as: with its texts trimmed, and
  with the status 400 in place of one that is no integer from 100 to 599.\<close>

theorem return_error_draft_roundtrip:
  assumes "\<not> rd_simpleMode d" "num_ok (num_text E) (to_num E) (statusOr400 (Some (rd_statusCode d)))"
  shows "parseReturnErrorDraft E (buildReturnErrorValueText E d) =
    d\<lparr>rd_message := trim (rd_message d), rd_statusCode := statusOr400 (Some (rd_statusCode d)),
      rd_code := trim (rd_code d), rd_type := trim (rd_type d)\<rparr>"
proof -
  define p where "p = JObj (returnErrorPayload d)"
  have "printable E (JNum (statusOr400 (Some (rd_statusCode d))))" using assms(2) by (simp add: printable_by_def)
  then have P: "printable E p" unfolding p_def payload_entries
    by (intro printable_obj) (simp_all add: distinct_entry_append image_Un del: map_append)
  have props: "jprop ''message'' p = Some (JStr (trim (rd_message d)))"
    "jprop ''status_code'' p = Some (JNum (statusOr400 (Some (rd_statusCode d))))" "jprop ''msg'' p = None"
    "jprop ''code'' p = (if trim (rd_code d) \<noteq> [] then Some (JStr (trim (rd_code d))) else None)"
    "jprop ''type'' p = (if trim (rd_type d) \<noteq> [] then Some (JStr (trim (rd_type d))) else None)"
    "jprop ''skip_retry'' p = (if rd_skipRetry d then None else Some (JBool False))"
    by (simp_all add: jprop_def p_def payload_entries get_append)
  have "buildReturnErrorValueText E d = compact E p" using assms(1) by (simp add: buildReturnErrorValueText_def p_def)
  moreover have "parseReturnErrorDraft E (compact E p) =
     \<lparr>rd_message = trim (rd_message d), rd_statusCode = statusOr400 (Some (rd_statusCode d)),
      rd_code = trim (rd_code d), rd_type = trim (rd_type d), rd_skipRetry = rd_skipRetry d, rd_simpleMode = False\<rparr>"
    using jt.parse_compact [OF P] jt.trim_compact [OF P] jt.compact_ne [OF P] props
    by (simp add: parseReturnErrorDraft_def p_def orString_str jsNumber_def Let_def)
  ultimately show ?thesis using assms(1) by simp
qed

text \<open>A draft with the status 400.\<close>

theorem return_error_draft_roundtrip_witness:
  "parseReturnErrorDraft sampleEnv (buildReturnErrorValueText sampleEnv
     (returnErrorDefaults\<lparr>rd_message := js ''Denied'', rd_simpleMode := False\<rparr>))
   = returnErrorDefaults\<lparr>rd_message := trim (js ''Denied''), rd_simpleMode := False\<rparr>"
proof -
  have "text_nat [52, 48, 48] = Some 400"
    by (simp add: text_nat_def digits1_def is_digit_def parse_digits_def digit_val_def)
  then have "num_ok (num_text sampleEnv) (to_num sampleEnv) 400"
    using num_laws_nat unfolding num_laws_def by (simp add: sampleEnv_def)
  moreover have "statusOr400 (Some 400) = 400" by (simp add: statusOr400_def)
  ultimately show ?thesis
    using return_error_draft_roundtrip [of "returnErrorDefaults\<lparr>rd_message := js ''Denied'', rd_simpleMode := False\<rparr>" sampleEnv]
    by (simp add: returnErrorDefaults_def)
qed

text \<open>A status code cannot be typed digit by digit: whatever the draft was, an input of one or two digits stores 400.\<close>

theorem short_status_stored_as_400:
  assumes "list_all is_digit v" "length v < 3"
  shows "omap_get (returnErrorPayload (applyReturnErrorPatch (ErrStatusInput v) d)) (js ''status_code'') = Some (JNum 400)"
proof -
  have "parse_digits v < 10 ^ length v" using assms(1) by (rule parse_digits_bound)
  also have "(10 :: nat) ^ length v \<le> 10 ^ 2" using assms(2) by (intro power_increasing) simp_all
  finally have small: "parse_digits v < 100" by simp
  have "trim_start v = v" using assms(1) digit_not_ws by (cases v) (auto simp: trim_start_def)
  moreover have "takeWhile is_digit v = v" using assms(1) by (simp add: list_all_iff)
  moreover have "\<not> prefix [45] v" "\<not> prefix [43] v" using assms(1) by (cases v; auto simp: is_digit_def)+
  ultimately have "parseIntOr400 v = (if v = [] \<or> parse_digits v = 0 then 400 else of_nat (parse_digits v))"
    by (simp add: parseIntOr400_def Let_def del: takeWhile_eq_all_conv)
  then have "statusOr400 (Some (parseIntOr400 v)) = 400"
    using small by (auto simp: statusOr400_def validStatus_def)
  then show ?thesis by (simp add: payload_entries get_append)
qed

text \<open>The code 503 with its last digit still missing.\<close>

theorem short_status_stored_as_400_witness:
  "omap_get (returnErrorPayload (applyReturnErrorPatch (ErrStatusInput (js ''50'')) returnErrorDefaults)) (js ''status_code'')
   = Some (JNum 400)"
  by (rule short_status_stored_as_400) (simp_all add: js_simps is_digit_jsc)

text \<open>An endpoint of \<open>sync_fields\<close> is read back from its text with its type and its key, except that the type is
  lost as long as the key is empty.\<close>

theorem sync_endpoint_roundtrip:
  "parseSyncTargetSpec (buildSyncTargetSpec ty key) =
    (if trim key = [] then (js ''json'', []) else (if ty = js ''header'' then js ''header'' else js ''json'', trim key))"
proof (cases "trim key = []")
  case True
  then show ?thesis by (simp add: buildSyncTargetSpec_def parseSyncTargetSpec_def)
next
  case False
  define w where "w = (if ty = js ''header'' then js ''header'' else js ''json'')"
  have w: "w = [104, 101, 97, 100, 101, 114] \<or> w = [106, 115, 111, 110]" by (simp add: w_def js_words)
  have raw: "buildSyncTargetSpec ty key = w @ 58 # trim key"
    using False by (simp add: buildSyncTargetSpec_def w_def js_words(3) Let_def)
  have "trim (w @ 58 # trim key) = w @ 58 # trim key"
    using w False trim_prefixed [of 104 "trim key" "[101, 97, 100, 101, 114, 58]"] trim_prefixed [of 106 "trim key" "[115, 111, 110, 58]"]
    by (auto simp: is_ws_def)
  moreover have "index_of [58] (w @ 58 # trim key) = Some (length w)" using w by (intro index_colon) auto
  moreover have "ascii_lower (trim w) = w"
  proof -
    have "trim w = w" using w by (intro trim_no_ws) (auto simp: is_ws_def)
    then show ?thesis using w by (auto simp: ascii_lower_def)
  qed
  ultimately show ?thesis using False
    by (simp add: raw parseSyncTargetSpec_def js_words(3) Let_def) (auto simp: w_def)
qed

text \<open>Appending the template of the legacy format to an object keeps every property of the object, and adds those of
  the template that it does not have.\<close>

theorem append_legacy_keeps:
  assumes "visualMode s = Legacy" "presetPayload (templatePresetKey s) = LegacyPayload payload"
    and "distinct (map fst payload)" "parse E (trim (legacyValue s)) = Some (JObj fs)"
  shows "\<exists>merged. legacyValue (fillTemplate E AppendTemplate s) = pretty E (JObj merged)
    \<and> omap_get merged (js k) = (case omap_get fs (js k) of Some v \<Rightarrow> Some v | None \<Rightarrow> map_of payload k)"
proof -
  define m where "m = assign_all (map (\<lambda>(k, v). (js k, v)) payload) fs"
  have ok: "distinct (map fst fs)" using parseJSON_ok [OF assms(4)] by simp
  have "map fst (map (\<lambda>(k, v). (js k, v)) payload) = map js (map fst payload)" by (simp add: case_prod_beta comp_def)
  then have "distinct (map fst (map (\<lambda>(k, v). (js k, v)) payload))"
    using assms(3) by (simp add: distinct_map inj_on_def del: map_map)
  then have "distinct (map fst m)" unfolding m_def by (rule distinct_assign_all)
  then have "omap_get (prop_order m) (js k) = omap_get m (js k)" by (rule get_prop_order)
  also have "\<dots> = (case map_of fs (js k) of None \<Rightarrow> omap_get (map (\<lambda>(k, v). (js k, v)) payload) (js k) | Some v \<Rightarrow> Some v)"
    unfolding m_def assign_all_def using omap_get_put_all [OF ok, of "\<lambda>v. v"] by simp
  finally have "omap_get (prop_order m) (js k) = (case omap_get fs (js k) of Some v \<Rightarrow> Some v | None \<Rightarrow> map_of payload k)"
    using get_js_table [of payload k] by (simp add: omap_get_def split: option.split)
  moreover have "trim (legacyValue s) \<noteq> []" using assms(4) by (auto simp: parseJSON_def)
  then have "legacyValue (fillTemplate E AppendTemplate s) = pretty E (JObj (prop_order m))"
    using assms by (simp add: fillTemplate_def fillLegacy_def spreadEntries_def m_def Let_def split: prod.split)
  ultimately show ?thesis by blast
qed

text \<open>An object with its own \<open>temperature\<close>, which keeps it and gets \<open>max_tokens\<close>.\<close>

theorem append_legacy_keeps_witness:
  "\<exists>merged. legacyValue (fillTemplate sampleEnv AppendTemplate ((mountState sampleEnv 0)\<lparr>visualMode := Legacy,
        templatePresetKey := ''legacy_default'', legacyValue := compact sampleEnv (jobj [(''temperature'', JBool True)])\<rparr>))
      = pretty sampleEnv (JObj merged)
    \<and> omap_get merged (js ''temperature'') = Some (JBool True)"
proof -
  have P: "printable sampleEnv (jobj [(''temperature'', JBool True)])"
    by (simp add: jobj_def put_single) (rule printable_obj, simp_all add: entriesOk_def entry_def is_index_def js_simps is_digit_jsc)
  have "presetPayload ''legacy_default'' = LegacyPayload LEGACY_TEMPLATE"
    by (simp add: presetPayload_def TEMPLATE_PRESET_CONFIG_def)
  moreover have "parse sampleEnv (trim (compact sampleEnv (jobj [(''temperature'', JBool True)])))
      = Some (JObj [(js ''temperature'', JBool True)])"
    using jt.parse_compact [OF P] jt.trim_compact [OF P] by (simp add: jobj_def)
  ultimately show ?thesis
    using append_legacy_keeps [of "(mountState sampleEnv 0)\<lparr>visualMode := Legacy, templatePresetKey := ''legacy_default'',
        legacyValue := compact sampleEnv (jobj [(''temperature'', JBool True)])\<rparr>" LEGACY_TEMPLATE sampleEnv
        "[(js ''temperature'', JBool True)]" "''temperature''"]
    by (simp add: LEGACY_TEMPLATE_def omap_get_def)
qed

end
