(* ===== verification/ParamOverrideLabels.thy ===== *)
theory ParamOverrideLabels
  imports ParamOverrideProperties
begin

text \<open>
  The texts and the input fields that the parameter override editor shows for the mode of a rule. Every
  registered mode has a label, a description and an entry in the table of its fields, and every field
  that a mode saves can be edited.
\<close>

section \<open>Definitions\<close>

definition MODE_DESCRIPTIONS :: "(string \<times> string) list" where
  "MODE_DESCRIPTIONS = [
     (''set'', ''Write value to the target field''), (''delete'', ''Remove the target field''),
     (''append'', ''Append value to array / string / object end''),
     (''prepend'', ''Prepend value to array / string / object start''),
     (''copy'', ''Copy source field to target field''), (''move'', ''Move source field to target field''),
     (''replace'', ''Do string replacement in the target field''),
     (''regex_replace'', ''Do regex replacement in the target field''),
     (''trim_prefix'', ''Remove string prefix''), (''trim_suffix'', ''Remove string suffix''),
     (''ensure_prefix'', ''Ensure the string has a specified prefix''),
     (''ensure_suffix'', ''Ensure the string has a specified suffix''),
     (''trim_space'', ''Trim leading/trailing whitespace''), (''to_lower'', ''Convert string to lowercase''),
     (''to_upper'', ''Convert string to uppercase''), (''return_error'', ''Return a custom error immediately''),
     (''prune_objects'', ''Prune object items by conditions''),
     (''pass_headers'', ''Pass specified request headers to upstream''),
     (''sync_fields'', ''Auto-fill when one field exists and another is missing''),
     (''set_header'', ''Set runtime request header: override entire value, or manipulate comma-separated tokens''),
     (''delete_header'', ''Delete a runtime request header''), (''copy_header'', ''Copy a request header''),
     (''move_header'', ''Move a request header'')]"

definition SYNC_TARGET_TYPE_OPTIONS :: "(string \<times> string) list" where
  "SYNC_TARGET_TYPE_OPTIONS = [(''Request Body Field'', ''json''), (''Request Header Field'', ''header'')]"

definition getModeTagTailwind :: "string \<Rightarrow> string" where
  "getModeTagTailwind mode =
     (if js_includes mode ''header'' then ''bg-cyan-500/15 text-cyan-700 dark:text-cyan-300 border-cyan-500/20''
      else if js_includes mode ''replace'' \<or> js_includes mode ''trim''
        then ''bg-violet-500/15 text-violet-700 dark:text-violet-300 border-violet-500/20''
      else if js_includes mode ''copy'' \<or> js_includes mode ''move''
        then ''bg-blue-500/15 text-blue-700 dark:text-blue-300 border-blue-500/20''
      else if js_includes mode ''error'' \<or> js_includes mode ''prune''
        then ''bg-red-500/15 text-red-700 dark:text-red-300 border-red-500/20''
      else if js_includes mode ''sync'' then ''bg-green-500/15 text-green-700 dark:text-green-300 border-green-500/20''
      else ''bg-muted text-muted-foreground'')"

definition getModePathLabel :: "string \<Rightarrow> string" where
  "getModePathLabel mode =
     (if mode = ''set_header'' \<or> mode = ''delete_header'' then ''Header Name''
      else if mode = ''prune_objects'' then ''Target Path (optional)'' else ''Target Field Path'')"

definition getModePathPlaceholder :: "string \<Rightarrow> string" where
  "getModePathPlaceholder mode =
     (if mode = ''set_header'' then ''Authorization'' else if mode = ''delete_header'' then ''X-Debug-Mode''
      else if mode = ''prune_objects'' then ''messages'' else ''temperature'')"

definition getModeFromLabel :: "string \<Rightarrow> string" where
  "getModeFromLabel mode =
     (if mode = ''replace'' then ''Match Text'' else if mode = ''regex_replace'' then ''Regex Pattern''
      else if mode = ''copy_header'' \<or> mode = ''move_header'' then ''Source Header'' else ''Source Field'')"

definition getModeFromPlaceholder :: "string \<Rightarrow> string" where
  "getModeFromPlaceholder mode =
     (if mode = ''replace'' then ''openai/'' else if mode = ''regex_replace'' then ''^gpt-''
      else if mode = ''copy_header'' \<or> mode = ''move_header'' then ''Authorization'' else ''model'')"

definition getModeToLabel :: "string \<Rightarrow> string" where
  "getModeToLabel mode =
     (if mode = ''replace'' \<or> mode = ''regex_replace'' then ''Replace With''
      else if mode = ''copy_header'' \<or> mode = ''move_header'' then ''Target Header'' else ''Target Field'')"

definition getModeToPlaceholder :: "string \<Rightarrow> string" where
  "getModeToPlaceholder mode =
     (if mode = ''replace'' then ''(leave empty to delete)'' else if mode = ''regex_replace'' then ''openai/gpt-''
      else if mode = ''copy_header'' \<or> mode = ''move_header'' then ''X-Upstream-Auth'' else ''original_model'')"

definition affixMode :: "string \<Rightarrow> bool" where
  "affixMode mode \<longleftrightarrow> mode = ''trim_prefix'' \<or> mode = ''trim_suffix'' \<or> mode = ''ensure_prefix'' \<or> mode = ''ensure_suffix''"

definition getModeValueLabel :: "string \<Rightarrow> string" where
  "getModeValueLabel mode =
     (if mode = ''set_header'' then ''Header Value (supports string or JSON mapping)''
      else if mode = ''pass_headers'' then ''Pass-through Headers (comma-separated or JSON array)''
      else if affixMode mode then ''Prefix/Suffix Text''
      else if mode = ''prune_objects'' then ''Prune Rule (string or JSON object)''
      else ''Value (supports JSON or plain text)'')"

definition getModeValuePlaceholder :: "string \<Rightarrow> string" where
  "getModeValuePlaceholder mode =
     (if mode = ''set_header'' then ''Bearer sk-xxx''
      else if mode = ''pass_headers'' then ''Authorization, X-Request-Id''
      else if affixMode mode then ''openai/''
      else if mode = ''prune_objects'' then ''{\"type\":\"redacted_thinking\"}'' else ''0.7'')"

text \<open>The input fields of the rule editor.\<close>

datatype RuleField =
    PathInput
  | ValueInput
  | ReturnErrorFields
  | PruneObjectsFields
  | KeepOriginSwitch
  | SyncFieldsInputs
  | FromInput
  | ToInput

definition ruleFields :: "ParamOverrideOperation \<Rightarrow> RuleField set" where
  "ruleFields x =
     (let mode = opMode x; meta = modeMeta mode;
          showReturnErrorEditor = (m_value meta \<and> mode = js ''return_error'');
          showPruneObjectsEditor = (m_value meta \<and> mode = js ''prune_objects'');
          showSyncFieldsEditor = (mode = js ''sync_fields'');
          showFromToEditor = (\<not> showSyncFieldsEditor \<and> (m_from meta \<or> m_to meta \<noteq> None) \<and> mode \<noteq> js ''sync_fields'')
      in (if m_path meta \<or> m_pathOptional meta then {PathInput} else {})
       \<union> (if showReturnErrorEditor then {ReturnErrorFields} else {})
       \<union> (if showPruneObjectsEditor then {PruneObjectsFields} else {})
       \<union> (if m_value meta \<and> \<not> showReturnErrorEditor \<and> \<not> showPruneObjectsEditor then {ValueInput} else {})
       \<union> (if m_keepOrigin meta then {KeepOriginSwitch} else {})
       \<union> (if showSyncFieldsEditor then {SyncFieldsInputs} else {})
       \<union> (if showFromToEditor \<and> (m_from meta \<or> m_to meta = Some False) then {FromInput} else {})
       \<union> (if showFromToEditor \<and> m_to meta \<noteq> None then {ToInput} else {}))"

section \<open>Lemmas\<close>

text \<open>What validation requires can be entered.\<close>

definition requiredFields :: "ParamOverrideOperation \<Rightarrow> RuleField set \<Rightarrow> bool" where
  "requiredFields x F \<longleftrightarrow> (let mode = opMode x in
     (m_path (modeMeta mode) \<longrightarrow> PathInput \<in> F)
     \<and> (mode \<in> FROM_REQUIRED_MODES \<longrightarrow> FromInput \<in> F \<or> SyncFieldsInputs \<in> F)
     \<and> (mode \<in> TO_REQUIRED_MODES \<longrightarrow> ToInput \<in> F \<or> SyncFieldsInputs \<in> F)
     \<and> (mode \<in> VALUE_REQUIRED_MODES \<longrightarrow> ValueInput \<in> F \<or> ReturnErrorFields \<in> F \<or> PruneObjectsFields \<in> F))"

definition registered :: "string \<Rightarrow> bool" where
  "registered k \<longleftrightarrow> k \<in> set (map fst MODE_META) \<and> k \<in> set (map fst MODE_DESCRIPTIONS)
     \<and> omap_get OPERATION_MODE_LABEL_MAP (js k) \<noteq> None"

lemma label_map_keys: "omap_get OPERATION_MODE_LABEL_MAP (js k) \<noteq> None \<longleftrightarrow> k \<in> set (map snd OPERATION_MODE_OPTIONS)"
proof -
  have "omap_get (foldl (\<lambda>acc (label, v). omap_set acc (js v) (js label)) m xs) (js k) \<noteq> None
      \<longleftrightarrow> omap_get m (js k) \<noteq> None \<or> k \<in> set (map snd xs)" for m :: "(jsstr, jsstr) omap" and xs
    by (induction xs arbitrary: m) (auto simp: omap_get_set split: if_splits)
  then show ?thesis by (simp add: OPERATION_MODE_LABEL_MAP_def)
qed

lemma registry_complete: "list_all registered (map snd OPERATION_MODE_OPTIONS)"
proof -
  have "list_all (\<lambda>k. k \<in> set (map fst MODE_META) \<and> k \<in> set (map fst MODE_DESCRIPTIONS)) (map snd OPERATION_MODE_OPTIONS)"
    by (simp add: OPERATION_MODE_OPTIONS_def MODE_META_def MODE_DESCRIPTIONS_def)
  then show ?thesis unfolding registered_def label_map_keys by (auto simp: list_all_iff)
qed

text \<open>For every rule of a reachable state the editor shows an input for each field that validation
  requires of the mode of the rule.\<close>

theorem required_fields_editable:
  assumes "editorReachable E s"
  shows "list_all (\<lambda>x. requiredFields x (ruleFields x)) (operations s)"
proof -
  have "requiredFields x (ruleFields x)" if "x \<in> set (operations s)" for x
  proof -
    have valid: "validOperation x" using editor_inv [OF assms] that by (auto simp: editorInv_def opsInv_def list_all_iff)
    define m where "m = modeMeta (opMode x)"
    have ok: "opMode x \<in> FROM_REQUIRED_MODES \<Longrightarrow> m_from m" "opMode x \<in> TO_REQUIRED_MODES \<Longrightarrow> m_to m = Some True"
      "opMode x \<in> VALUE_REQUIRED_MODES \<Longrightarrow> m_value m"
      using valid_metaOk [OF valid] by (auto simp: metaOk_def m_def Let_def)
    then show ?thesis by (auto simp: requiredFields_def ruleFields_def Let_def m_def [symmetric])
  qed
  then show ?thesis by (simp add: list_all_iff)
qed

text \<open>The state in which the dialog is mounted.\<close>

theorem required_fields_editable_witness:
  "list_all (\<lambda>x. requiredFields x (ruleFields x)) (operations (keepSelected (mountState sampleEnv 0)))"
  by (rule required_fields_editable, rule editorReachable.mount)

end
