(* ===== verification/ChannelForm.thy ===== *)
theory ChannelForm
  imports AdvancedCustomEditor JSON_Text
begin

text \<open>
  The form of a channel (\<open>features/channels/lib/channel-form.ts\<close>): its schema, the values it is filled with from
  a channel, and the payloads that create and update a channel. The two settings of a channel are JSON
  texts that other parts of the system share, so the form merges its fields into them. Payloads are objects:
  lists of properties in their order of insertion.
\<close>

section \<open>Definitions\<close>

subsection \<open>Environment\<close>

text \<open>\<open>String(n)\<close> and \<open>Number(s)\<close>; what the advanced custom routes use; a configuration as a JSON value, and a
  JSON value read as a configuration (\<open>None\<close> where its normalization raises).\<close>

record fenv =
  f_num_text :: "jsnum \<Rightarrow> jsstr"
  f_to_num :: "jsstr \<Rightarrow> jsnum option"
  f_routes :: Env
  f_config_json :: "AdvancedCustomConfig \<Rightarrow> json"
  f_json_config :: "json \<Rightarrow> AdvancedCustomConfig option"

abbreviation fparse :: "fenv \<Rightarrow> jsstr \<Rightarrow> json option" where
  "fparse E \<equiv> parseJSON (f_to_num E)"

abbreviation fprint :: "fenv \<Rightarrow> json \<Rightarrow> jsstr" where
  "fprint E \<equiv> printJSON (f_num_text E)"

definition prop_of :: "string \<Rightarrow> json \<Rightarrow> json option" where
  "prop_of k j = (case j of JObj fs \<Rightarrow> omap_get fs (js k) | _ \<Rightarrow> None)"

text \<open>\<open>v || d\<close> on a value that may be undefined.\<close>

definition or_json :: "json option \<Rightarrow> json \<Rightarrow> json" where
  "or_json v d = (case v of Some j \<Rightarrow> if truthy j then j else d | None \<Rightarrow> d)"

definition is_true :: "json option \<Rightarrow> bool" where
  "is_true v \<longleftrightarrow> v = Some (JBool True)"

definition number_of :: "fenv \<Rightarrow> json \<Rightarrow> jsnum option" where
  "number_of E v = (case v of
      JNull \<Rightarrow> Some 0
    | JBool b \<Rightarrow> Some (if b then 1 else 0)
    | JNum x \<Rightarrow> Some x
    | JStr s \<Rightarrow> f_to_num E s
    | JArr xs \<Rightarrow> f_to_num E (jsString (f_num_text E) (JArr xs))
    | JObj fs \<Rightarrow> None)"

fun omap_del :: "('k, 'v) omap \<Rightarrow> 'k \<Rightarrow> ('k, 'v) omap" where
  "omap_del [] k = []"
| "omap_del (p # m) k = (if fst p = k then omap_del m k else p # omap_del m k)"

subsection \<open>Channels and form values\<close>

text \<open>The properties of a channel that the form reads. Of a nullish property the code distinguishes nothing
  but absence.\<close>

record Channel =
  ch_type :: int
  ch_name :: jsstr
  ch_base_url :: "jsstr option"
  ch_openai_organization :: "jsstr option"
  ch_models :: jsstr
  ch_group :: jsstr
  ch_model_mapping :: "jsstr option"
  ch_priority :: "jsnum option"
  ch_weight :: "jsnum option"
  ch_test_model :: "jsstr option"
  ch_auto_ban :: "jsnum option"
  ch_status :: int
  ch_status_code_mapping :: "jsstr option"
  ch_tag :: "jsstr option"
  ch_remark :: jsstr
  ch_setting :: "jsstr option"
  ch_param_override :: "jsstr option"
  ch_header_override :: "jsstr option"
  ch_settings :: jsstr
  ch_other :: jsstr
  ch_multi_key_mode :: jsstr

text \<open>The values of the form. The fields that are copied from parsed JSON may hold any value until the schema
  has checked them.\<close>

record ChannelFormValues =
  v_name :: jsstr
  v_type :: int
  v_base_url :: "jsstr option"
  v_key :: jsstr
  v_openai_organization :: "jsstr option"
  v_models :: jsstr
  v_group :: "jsstr list"
  v_model_mapping :: "jsstr option"
  v_priority :: "jsnum option"
  v_weight :: "jsnum option"
  v_test_model :: "jsstr option"
  v_auto_ban :: "jsnum option"
  v_status :: int
  v_status_code_mapping :: "jsstr option"
  v_tag :: "jsstr option"
  v_remark :: "jsstr option"
  v_setting :: "jsstr option"
  v_param_override :: "jsstr option"
  v_header_override :: "jsstr option"
  v_settings :: "jsstr option"
  v_other :: "jsstr option"
  v_advanced_custom :: "jsstr option"
  v_multi_key_mode :: "jsstr option"
  v_multi_key_type :: "jsstr option"
  v_batch_add_set_key_prefix_2_name :: "bool option"
  v_key_mode :: "jsstr option"
  v_force_format :: "json option"
  v_upstream_endpoint_type :: "json option"
  v_thinking_to_content :: "json option"
  v_proxy :: "json option"
  v_pass_through_body_enabled :: "json option"
  v_system_prompt :: "json option"
  v_system_prompt_override :: "json option"
  v_is_enterprise_account :: "bool option"
  v_vertex_key_type :: "json option"
  v_aws_key_type :: "json option"
  v_azure_responses_version :: "json option"
  v_allow_service_tier :: "bool option"
  v_disable_store :: "bool option"
  v_allow_safety_identifier :: "bool option"
  v_allow_include_obfuscation :: "bool option"
  v_allow_inference_geo :: "bool option"
  v_allow_speed :: "bool option"
  v_claude_beta_query :: "bool option"
  v_disable_task_polling_sleep :: "bool option"
  v_upstream_model_update_check_enabled :: "bool option"
  v_upstream_model_update_auto_sync_enabled :: "bool option"
  v_upstream_model_update_ignored_models :: "jsstr option"

definition CHANNEL_TYPE_ADVANCED_CUSTOM :: int where
  "CHANNEL_TYPE_ADVANCED_CUSTOM = 58"

definition MODEL_FETCHABLE_TYPES :: "int list" where
  "MODEL_FETCHABLE_TYPES = [1, 4, 14, 17, 20, 23, 24, 25, 26, 27, 31, 34, 35, 40, 42, 43, 47, 48]"

definition CHANNEL_FORM_DEFAULT_VALUES :: ChannelFormValues where
  "CHANNEL_FORM_DEFAULT_VALUES = \<lparr>
     v_name = [], v_type = 1, v_base_url = Some [], v_key = [], v_openai_organization = Some [], v_models = [],
     v_group = [js ''default''], v_model_mapping = Some [], v_priority = Some 0, v_weight = Some 0,
     v_test_model = Some [], v_auto_ban = Some 1, v_status = 1, v_status_code_mapping = Some [], v_tag = Some [],
     v_remark = Some [], v_setting = Some [], v_param_override = Some [], v_header_override = Some [],
     v_settings = Some (js ''{}''), v_other = Some [], v_advanced_custom = Some [],
     v_multi_key_mode = Some (js ''single''), v_multi_key_type = Some (js ''random''),
     v_batch_add_set_key_prefix_2_name = Some False, v_key_mode = Some (js ''append''),
     v_force_format = Some (JBool False), v_upstream_endpoint_type = Some (JStr (js ''auto'')),
     v_thinking_to_content = Some (JBool False), v_proxy = Some (JStr []),
     v_pass_through_body_enabled = Some (JBool False), v_system_prompt = Some (JStr []),
     v_system_prompt_override = Some (JBool False), v_is_enterprise_account = Some False,
     v_vertex_key_type = Some (JStr (js ''json'')), v_aws_key_type = Some (JStr (js ''ak_sk'')),
     v_azure_responses_version = Some (JStr []), v_allow_service_tier = Some False, v_disable_store = Some False,
     v_allow_safety_identifier = Some False, v_allow_include_obfuscation = Some False,
     v_allow_inference_geo = Some False, v_allow_speed = Some False, v_claude_beta_query = Some False,
     v_disable_task_polling_sleep = Some False, v_upstream_model_update_check_enabled = Some False,
     v_upstream_model_update_auto_sync_enabled = Some False, v_upstream_model_update_ignored_models = Some []\<rparr>"

subsection \<open>The schema\<close>

text \<open>\<open>parseOptionalJson\<close>: \<open>None\<close> where it raises, \<open>Some None\<close> for undefined.\<close>

definition parseOptionalJson :: "fenv \<Rightarrow> jsstr option \<Rightarrow> json option option" where
  "parseOptionalJson E v = (case v of
      None \<Rightarrow> Some None
    | Some s \<Rightarrow> if trim s = [] then Some None else map_option Some (fparse E s))"

definition isJsonObjectValue :: "json \<Rightarrow> bool" where
  "isJsonObjectValue j = (case j of JObj _ \<Rightarrow> True | _ \<Rightarrow> False)"

definition isOptionalJsonObject :: "fenv \<Rightarrow> jsstr option \<Rightarrow> bool" where
  "isOptionalJsonObject E v = (case parseOptionalJson E v of
      None \<Rightarrow> False | Some None \<Rightarrow> True | Some (Some j) \<Rightarrow> isJsonObjectValue j)"

definition isOptionalModelMapping :: "fenv \<Rightarrow> jsstr option \<Rightarrow> bool" where
  "isOptionalModelMapping E v = (case parseOptionalJson E v of
      None \<Rightarrow> False
    | Some None \<Rightarrow> True
    | Some (Some (JObj fs)) \<Rightarrow> list_all (\<lambda>item. zstring item \<noteq> None) (omap_values fs)
    | Some (Some _) \<Rightarrow> False)"

definition validCode :: "jsnum option \<Rightarrow> bool" where
  "validCode v = (case v of Some x \<Rightarrow> x = of_int \<lfloor>x\<rfloor> \<and> 100 \<le> x \<and> x \<le> 599 | None \<Rightarrow> False)"

definition isOptionalStatusCodeMapping :: "fenv \<Rightarrow> jsstr option \<Rightarrow> bool" where
  "isOptionalStatusCodeMapping E v = (case parseOptionalJson E v of
      None \<Rightarrow> False
    | Some None \<Rightarrow> True
    | Some (Some (JObj fs)) \<Rightarrow> list_all (\<lambda>(source, target). validCode (f_to_num E source) \<and> validCode (number_of E target)) fs
    | Some (Some _) \<Rightarrow> False)"

definition filledString :: "json option \<Rightarrow> bool" where
  "filledString v = (case v of Some (JStr s) \<Rightarrow> trim s \<noteq> [] | _ \<Rightarrow> False)"

definition isCodexCredential :: "fenv \<Rightarrow> jsstr option \<Rightarrow> bool" where
  "isCodexCredential E v = (case parseOptionalJson E v of
      None \<Rightarrow> False
    | Some None \<Rightarrow> True
    | Some (Some j) \<Rightarrow> isJsonObjectValue j \<and> filledString (prop_of ''access_token'' j) \<and> filledString (prop_of ''account_id'' j))"

definition isVertexJsonKey :: "fenv \<Rightarrow> jsstr option \<Rightarrow> bool" where
  "isVertexJsonKey E v = (case parseOptionalJson E v of
      None \<Rightarrow> False
    | Some None \<Rightarrow> True
    | Some (Some (JArr xs)) \<Rightarrow> list_all isJsonObjectValue xs
    | Some (Some j) \<Rightarrow> isJsonObjectValue j)"

text \<open>An issue names the field it belongs to.\<close>

datatype FormField =
    FName | FType | FModels | FGroup | FModelMapping | FStatusCodeMapping | FRemark | FSetting | FParamOverride
  | FHeaderOverride | FSettings | FBaseUrl | FOther | FAdvancedCustom | FKey | FMultiKeyMode | FMultiKeyType | FKeyMode
  | FForceFormat | FUpstreamEndpointType | FThinkingToContent | FProxy | FPassThroughBody | FSystemPrompt
  | FSystemPromptOverride | FVertexKeyType | FAwsKeyType | FAzureResponsesVersion

text \<open>\<open>z.boolean().optional()\<close>, \<open>z.string().optional()\<close> and \<open>z.enum([...]).optional()\<close> on a value.\<close>

definition optBoolean :: "json option \<Rightarrow> bool" where
  "optBoolean v = (case v of None \<Rightarrow> True | Some (JBool _) \<Rightarrow> True | _ \<Rightarrow> False)"

definition optString :: "json option \<Rightarrow> bool" where
  "optString v = (case v of None \<Rightarrow> True | Some (JStr _) \<Rightarrow> True | _ \<Rightarrow> False)"

definition optEnum :: "string list \<Rightarrow> json option \<Rightarrow> bool" where
  "optEnum ks v = (case v of None \<Rightarrow> True | Some (JStr s) \<Rightarrow> s \<in> js ` set ks | _ \<Rightarrow> False)"

definition issue :: "bool \<Rightarrow> FormField \<Rightarrow> FormField list" where
  "issue bad fld = (if bad then [fld] else [])"

text \<open>Values of a wrong type; after one of them the refinement of the whole form does not run.\<close>

definition typeIssues :: "ChannelFormValues \<Rightarrow> FormField list" where
  "typeIssues v =
     issue (\<not> optEnum [''single'', ''batch'', ''multi_to_single''] (map_option JStr (v_multi_key_mode v))) FMultiKeyMode
     @ issue (\<not> optEnum [''random'', ''polling''] (map_option JStr (v_multi_key_type v))) FMultiKeyType
     @ issue (\<not> optEnum [''append'', ''replace''] (map_option JStr (v_key_mode v))) FKeyMode
     @ issue (\<not> optBoolean (v_force_format v)) FForceFormat
     @ issue (\<not> optString (v_upstream_endpoint_type v)) FUpstreamEndpointType
     @ issue (\<not> optBoolean (v_thinking_to_content v)) FThinkingToContent
     @ issue (\<not> optString (v_proxy v)) FProxy
     @ issue (\<not> optBoolean (v_pass_through_body_enabled v)) FPassThroughBody
     @ issue (\<not> optString (v_system_prompt v)) FSystemPrompt
     @ issue (\<not> optBoolean (v_system_prompt_override v)) FSystemPromptOverride
     @ issue (\<not> optEnum [''json'', ''api_key''] (v_vertex_key_type v)) FVertexKeyType
     @ issue (\<not> optEnum [''ak_sk'', ''api_key''] (v_aws_key_type v)) FAwsKeyType
     @ issue (\<not> optString (v_azure_responses_version v)) FAzureResponsesVersion"

definition fieldIssues :: "fenv \<Rightarrow> ChannelFormValues \<Rightarrow> FormField list" where
  "fieldIssues E v =
     issue (length (v_name v) < 1) FName @ issue (v_type v < 0) FType
     @ issue (length (v_models v) < 1) FModels @ issue (length (v_group v) < 1) FGroup
     @ issue (\<not> isOptionalModelMapping E (v_model_mapping v)) FModelMapping
     @ issue (\<not> isOptionalStatusCodeMapping E (v_status_code_mapping v)) FStatusCodeMapping
     @ issue (case v_remark v of Some r \<Rightarrow> length r > 255 | None \<Rightarrow> False) FRemark
     @ issue (\<not> isOptionalJsonObject E (v_setting v)) FSetting
     @ issue (\<not> isOptionalJsonObject E (v_param_override v)) FParamOverride
     @ issue (\<not> isOptionalJsonObject E (v_header_override v)) FHeaderOverride
     @ issue (\<not> isOptionalJsonObject E (v_settings v)) FSettings"

definition blank :: "jsstr option \<Rightarrow> bool" where
  "blank v \<longleftrightarrow> (case v of None \<Rightarrow> True | Some s \<Rightarrow> trim s = [])"

definition batchMode :: "ChannelFormValues \<Rightarrow> bool" where
  "batchMode v \<longleftrightarrow> (case v_multi_key_mode v of None \<Rightarrow> False | Some m \<Rightarrow> m \<noteq> [] \<and> m \<noteq> js ''single'')"

definition routesOf :: "fenv \<Rightarrow> ChannelFormValues \<Rightarrow> AdvancedCustomConfig option" where
  "routesOf E v = (case v_advanced_custom v of None \<Rightarrow> None | Some s \<Rightarrow> parseAdvancedCustomConfig (f_routes E) s)"

definition refineIssues :: "fenv \<Rightarrow> ChannelFormValues \<Rightarrow> FormField list" where
  "refineIssues E v =
     issue (v_type v \<in> {3, 8, 36, 45} \<and> blank (v_base_url v)) FBaseUrl
     @ (if v_type v = CHANNEL_TYPE_ADVANCED_CUSTOM then
          issue (validateAdvancedCustomConfig (env_url (f_routes E)) (routesOf E v) \<noteq> None) FAdvancedCustom
          @ issue (advancedCustomConfigUsesRelativeUpstreamPath (routesOf E v) \<and> blank (v_base_url v)) FBaseUrl
        else [])
     @ issue (v_type v \<in> {3, 18, 21, 39, 41, 49} \<and> blank (v_other v)) FOther
     @ (if v_type v = 57 then
          issue (batchMode v) FMultiKeyMode
          @ issue (trim (v_key v) \<noteq> [] \<and> \<not> isCodexCredential E (Some (v_key v))) FKey
        else [])
     @ issue (v_type v = 41 \<and> v_vertex_key_type v = Some (JStr (js ''json'')) \<and> trim (v_key v) \<noteq> []
         \<and> \<not> isVertexJsonKey E (Some (v_key v))) FKey
     @ issue (v_type v = 41 \<and> v_vertex_key_type v = Some (JStr (js ''api_key'')) \<and> batchMode v) FMultiKeyMode"

definition channelFormIssues :: "fenv \<Rightarrow> ChannelFormValues \<Rightarrow> FormField list" where
  "channelFormIssues E v = typeIssues v @ fieldIssues E v @ (if typeIssues v = [] then refineIssues E v else [])"

subsection \<open>From a channel to the form\<close>

definition parseGroups :: "jsstr \<Rightarrow> jsstr list" where
  "parseGroups groups = (if groups = [] then [] else filter (\<lambda>g. length g > 0) (map trim (split_on 44 groups)))"

definition parseModels :: "jsstr \<Rightarrow> jsstr list" where
  "parseModels ms = (if ms = [] then [] else filter (\<lambda>m. length m > 0) (map trim (split_on 44 ms)))"

definition formatGroups :: "jsstr list \<Rightarrow> jsstr" where
  "formatGroups groups = join [44] groups"

definition formatModels :: "jsstr list \<Rightarrow> jsstr" where
  "formatModels ms = join [44] ms"

text \<open>The parsed text of a setting; \<open>None\<close> where parsing or the first access to a property raises.\<close>

definition parsedSetting :: "fenv \<Rightarrow> jsstr \<Rightarrow> json option" where
  "parsedSetting E t = (if t = [] then None else
     case fparse E t of Some JNull \<Rightarrow> None | r \<Rightarrow> r)"

text \<open>\<open>extraSettings\<close>, written into the form.\<close>

definition loadExtra :: "fenv \<Rightarrow> jsstr \<Rightarrow> ChannelFormValues \<Rightarrow> ChannelFormValues" where
  "loadExtra E t v = (case parsedSetting E t of
      None \<Rightarrow> v\<lparr>v_force_format := Some (JBool False), v_upstream_endpoint_type := Some (JStr (js ''auto'')),
        v_thinking_to_content := Some (JBool False), v_proxy := Some (JStr []),
        v_pass_through_body_enabled := Some (JBool False), v_system_prompt := Some (JStr []),
        v_system_prompt_override := Some (JBool False)\<rparr>
    | Some p \<Rightarrow> v\<lparr>v_force_format := Some (or_json (prop_of ''force_format'' p) (JBool False)),
        v_upstream_endpoint_type := Some (or_json (prop_of ''upstream_endpoint_type'' p) (JStr (js ''auto''))),
        v_thinking_to_content := Some (or_json (prop_of ''thinking_to_content'' p) (JBool False)),
        v_proxy := Some (or_json (prop_of ''proxy'' p) (JStr [])),
        v_pass_through_body_enabled := Some (or_json (prop_of ''pass_through_body_enabled'' p) (JBool False)),
        v_system_prompt := Some (or_json (prop_of ''system_prompt'' p) (JStr [])),
        v_system_prompt_override := Some (or_json (prop_of ''system_prompt_override'' p) (JBool False))\<rparr>)"

definition loadRoutes :: "fenv \<Rightarrow> json \<Rightarrow> jsstr" where
  "loadRoutes E p = (case prop_of ''advanced_custom'' p of
      None \<Rightarrow> []
    | Some c \<Rightarrow> if truthy c then (case f_json_config E c of
          None \<Rightarrow> [] | Some cfg \<Rightarrow> stringifyAdvancedCustomConfig (f_routes E) cfg) else [])"

definition loadIgnored :: "fenv \<Rightarrow> json \<Rightarrow> jsstr" where
  "loadIgnored E p = (case prop_of ''upstream_model_update_ignored_models'' p of
      Some (JArr xs) \<Rightarrow> jsString (f_num_text E) (JArr xs) | _ \<Rightarrow> [])"

text \<open>The settings of the channel type, written into the form; the defaults where the text cannot be read.\<close>

definition loadTyped :: "fenv \<Rightarrow> jsstr \<Rightarrow> ChannelFormValues \<Rightarrow> ChannelFormValues" where
  "loadTyped E t v =
     (let p = nullish (parsedSetting E t) (JObj []); flag = (\<lambda>k. Some (is_true (prop_of k p))) in
      v\<lparr>v_vertex_key_type := Some (or_json (prop_of ''vertex_key_type'' p) (JStr (js ''json''))),
        v_azure_responses_version := Some (or_json (prop_of ''azure_responses_version'' p) (JStr [])),
        v_is_enterprise_account := flag ''openrouter_enterprise'',
        v_aws_key_type := Some (or_json (prop_of ''aws_key_type'' p) (JStr (js ''ak_sk''))),
        v_allow_service_tier := flag ''allow_service_tier'', v_disable_store := flag ''disable_store'',
        v_allow_safety_identifier := flag ''allow_safety_identifier'',
        v_allow_include_obfuscation := flag ''allow_include_obfuscation'',
        v_allow_inference_geo := flag ''allow_inference_geo'', v_allow_speed := flag ''allow_speed'',
        v_claude_beta_query := flag ''claude_beta_query'',
        v_disable_task_polling_sleep := flag ''disable_task_polling_sleep'',
        v_upstream_model_update_check_enabled := flag ''upstream_model_update_check_enabled'',
        v_upstream_model_update_auto_sync_enabled := flag ''upstream_model_update_auto_sync_enabled'',
        v_upstream_model_update_ignored_models := Some (loadIgnored E p),
        v_advanced_custom := Some (loadRoutes E p)\<rparr>)"

definition orZero :: "jsnum option \<Rightarrow> jsnum" where
  "orZero v = nullish v 0"

definition transformChannelToFormDefaults :: "fenv \<Rightarrow> Channel \<Rightarrow> ChannelFormValues" where
  "transformChannelToFormDefaults E ch =
     loadTyped E (ch_settings ch) (loadExtra E (or_str (ch_setting ch) [])
       (CHANNEL_FORM_DEFAULT_VALUES\<lparr>v_name := ch_name ch, v_type := ch_type ch,
          v_base_url := Some (or_str (ch_base_url ch) []), v_key := [],
          v_openai_organization := Some (or_str (ch_openai_organization ch) []), v_models := ch_models ch,
          v_group := parseGroups (or_str (Some (ch_group ch)) (js ''default'')),
          v_model_mapping := Some (or_str (ch_model_mapping ch) []), v_priority := Some (orZero (ch_priority ch)),
          v_weight := Some (orZero (ch_weight ch)), v_test_model := Some (or_str (ch_test_model ch) []),
          v_auto_ban := Some (nullish (ch_auto_ban ch) 1), v_status := ch_status ch,
          v_status_code_mapping := Some (or_str (ch_status_code_mapping ch) []),
          v_tag := Some (or_str (ch_tag ch) []), v_remark := Some (ch_remark ch),
          v_setting := Some (or_str (ch_setting ch) []),
          v_param_override := Some (or_str (ch_param_override ch) []),
          v_header_override := Some (or_str (ch_header_override ch) []),
          v_settings := Some (or_str (Some (ch_settings ch)) (js ''{}'')), v_other := Some (ch_other ch),
          v_multi_key_mode := Some (js ''single''),
          v_multi_key_type := Some (or_str (Some (ch_multi_key_mode ch)) (js ''random'')),
          v_batch_add_set_key_prefix_2_name := Some False, v_key_mode := Some (js ''append'')\<rparr>))"

subsection \<open>From the form to the payloads\<close>

text \<open>The object that \<open>channel.setting\<close> holds, and the properties that the form assigns to it.\<close>

definition settingObj :: "fenv \<Rightarrow> ChannelFormValues \<Rightarrow> (jsstr, json) omap" where
  "settingObj E v = (if blank (v_setting v) then []
     else case fparse E (or_str (v_setting v) []) of Some (JObj fs) \<Rightarrow> fs | _ \<Rightarrow> [])"

definition extraSettings :: "ChannelFormValues \<Rightarrow> (jsstr, json) omap" where
  "extraSettings v =
     [(js ''force_format'', or_json (v_force_format v) (JBool False)),
      (js ''upstream_endpoint_type'', or_json (v_upstream_endpoint_type v) (JStr (js ''auto''))),
      (js ''thinking_to_content'', or_json (v_thinking_to_content v) (JBool False)),
      (js ''proxy'', or_json (v_proxy v) (JStr [])),
      (js ''pass_through_body_enabled'', or_json (v_pass_through_body_enabled v) (JBool False)),
      (js ''system_prompt'', or_json (v_system_prompt v) (JStr [])),
      (js ''system_prompt_override'', or_json (v_system_prompt_override v) (JBool False))]"

definition buildSettingJSON :: "fenv \<Rightarrow> ChannelFormValues \<Rightarrow> jsstr" where
  "buildSettingJSON E v = fprint E (JObj (assign_all (settingObj E v) (extraSettings v)))"

text \<open>A setting that belongs to some channel types: written for them, removed for others.\<close>

definition typedSetting :: "bool \<Rightarrow> string \<Rightarrow> json \<Rightarrow> (jsstr, json) omap \<Rightarrow> (jsstr, json) omap" where
  "typedSetting b k x m = (if b then omap_set m (js k) x else omap_del m (js k))"

abbreviation flagValue :: "bool option \<Rightarrow> json" where
  "flagValue b \<equiv> JBool (b = Some True)"

definition ignoredModels :: "ChannelFormValues \<Rightarrow> json" where
  "ignoredModels v = JArr (map JStr (dedupe (filter (\<lambda>m. m \<noteq> [])
     (map trim (split_on 44 (or_str (v_upstream_model_update_ignored_models v) []))))))"

text \<open>The part for channel types whose models can be fetched.\<close>

definition updateSettings :: "ChannelFormValues \<Rightarrow> (jsstr, json) omap \<Rightarrow> (jsstr, json) omap" where
  "updateSettings v m =
     (if v_type v \<in> set MODEL_FETCHABLE_TYPES then
        let check = (v_upstream_model_update_check_enabled v = Some True);
            m = omap_set m (js ''upstream_model_update_check_enabled'') (JBool check);
            m = omap_set m (js ''upstream_model_update_auto_sync_enabled'')
                  (JBool (check \<and> v_upstream_model_update_auto_sync_enabled v = Some True));
            m = omap_set m (js ''upstream_model_update_ignored_models'') (ignoredModels v);
            m = (if (case omap_get m (js ''upstream_model_update_last_detected_models'') of Some (JArr _) \<Rightarrow> False | _ \<Rightarrow> True) \<or> \<not> check
                 then omap_set m (js ''upstream_model_update_last_detected_models'') (JArr []) else m)
        in if (case omap_get m (js ''upstream_model_update_last_check_time'') of Some (JNum _) \<Rightarrow> False | _ \<Rightarrow> True)
           then omap_set m (js ''upstream_model_update_last_check_time'') (JNum 0) else m
      else m)"

definition routeSettings :: "fenv \<Rightarrow> ChannelFormValues \<Rightarrow> (jsstr, json) omap \<Rightarrow> (jsstr, json) omap" where
  "routeSettings E v m =
     (if v_type v = CHANNEL_TYPE_ADVANCED_CUSTOM then
        (case routesOf E v of Some cfg \<Rightarrow> omap_set m (js ''advanced_custom'') (f_config_json E cfg) | None \<Rightarrow> m)
      else omap_del m (js ''advanced_custom''))"

definition passthroughSettings :: "ChannelFormValues \<Rightarrow> (jsstr, json) omap \<Rightarrow> (jsstr, json) omap" where
  "passthroughSettings v m =
     (let t = v_type v; openai = (t = 1 \<or> t = 57);
          m = typedSetting (t = 1 \<or> t = 14 \<or> t = 57) ''allow_service_tier'' (flagValue (v_allow_service_tier v)) m;
          m = typedSetting openai ''disable_store'' (flagValue (v_disable_store v)) m;
          m = typedSetting openai ''allow_safety_identifier'' (flagValue (v_allow_safety_identifier v)) m;
          m = typedSetting openai ''allow_include_obfuscation'' (flagValue (v_allow_include_obfuscation v)) m;
          m = (if openai then omap_set m (js ''allow_inference_geo'') (flagValue (v_allow_inference_geo v))
               else if t \<noteq> 14 then omap_del m (js ''allow_inference_geo'') else m);
          m = (if t = 14 then omap_set m (js ''allow_inference_geo'') (flagValue (v_allow_inference_geo v)) else m);
          m = typedSetting (t = 14) ''allow_speed'' (flagValue (v_allow_speed v)) m;
          m = typedSetting (t = 14) ''claude_beta_query'' (flagValue (v_claude_beta_query v)) m
      in omap_set m (js ''disable_task_polling_sleep'') (flagValue (v_disable_task_polling_sleep v)))"

definition keySettings :: "ChannelFormValues \<Rightarrow> (jsstr, json) omap \<Rightarrow> (jsstr, json) omap" where
  "keySettings v m =
     (let t = v_type v; azure = or_json (v_azure_responses_version v) JNull;
          m = typedSetting (t = 41) ''vertex_key_type'' (or_json (v_vertex_key_type v) (JStr (js ''json''))) m;
          m = typedSetting (t = 3 \<and> truthy azure) ''azure_responses_version'' azure m;
          m = typedSetting (t = 20) ''openrouter_enterprise'' (flagValue (v_is_enterprise_account v)) m
      in typedSetting (t = 33) ''aws_key_type'' (or_json (v_aws_key_type v) (JStr (js ''ak_sk''))) m)"

text \<open>What the existing text holds: nothing readable or an object; \<open>Inl\<close> any other value.\<close>

definition existingSettings :: "fenv \<Rightarrow> ChannelFormValues \<Rightarrow> json + (jsstr, json) omap" where
  "existingSettings E v =
     (let t = or_str (v_settings v) [] in
      if t = [] \<or> t = js ''{}'' then Inr []
      else case fparse E t of None \<Rightarrow> Inr [] | Some (JObj fs) \<Rightarrow> Inr fs | Some j \<Rightarrow> Inl j)"

definition settingsObject :: "fenv \<Rightarrow> ChannelFormValues \<Rightarrow> (jsstr, json) omap \<Rightarrow> (jsstr, json) omap" where
  "settingsObject E v m = routeSettings E v (updateSettings v (passthroughSettings v (keySettings v m)))"

text \<open>The properties that are put on an array are not printed; on \<open>null\<close> or a primitive value the code
  raises.\<close>

definition buildSettingsJSON :: "fenv \<Rightarrow> ChannelFormValues \<Rightarrow> jsstr option" where
  "buildSettingsJSON E v = (case existingSettings E v of
      Inr m \<Rightarrow> Some (fprint E (JObj (settingsObject E v m)))
    | Inl (JArr xs) \<Rightarrow> Some (fprint E (JArr xs))
    | Inl _ \<Rightarrow> None)"

definition normalizeBaseUrl :: "jsstr option \<Rightarrow> jsstr" where
  "normalizeBaseUrl v = rev (dropWhile (\<lambda>c. c = 47) (rev (trim (or_str v []))))"

text \<open>\<open>v || null\<close>, and the loop that replaces empty texts.\<close>

definition strOrNull :: "jsstr option \<Rightarrow> json" where
  "strOrNull v = (if or_str v [] = [] then JNull else JStr (or_str v []))"

definition numOrNull :: "jsnum option \<Rightarrow> json" where
  "numOrNull v = (if orZero v = 0 then JNull else JNum (orZero v))"

definition emptyToNull :: "(jsstr, json) omap \<Rightarrow> (jsstr, json) omap" where
  "emptyToNull m = map (\<lambda>(k, x). (k, if x = JStr [] then JNull else x)) m"

record CreatePayload =
  cp_mode :: jsstr
  cp_multi_key_mode :: "jsstr option"
  cp_batch_add_set_key_prefix_2_name :: "bool option"
  cp_channel :: "(jsstr, json) omap"

definition transformFormDataToCreatePayload :: "fenv \<Rightarrow> ChannelFormValues \<Rightarrow> CreatePayload option" where
  "transformFormDataToCreatePayload E v = do {
     settings \<leftarrow> buildSettingsJSON E v;
     let mode = or_str (v_multi_key_mode v) (js ''single'');
     Some \<lparr>cp_mode = mode,
       cp_multi_key_mode = (if mode = js ''multi_to_single'' then v_multi_key_type v else None),
       cp_batch_add_set_key_prefix_2_name = (if mode = js ''batch'' then v_batch_add_set_key_prefix_2_name v else None),
       cp_channel = emptyToNull [
         (js ''name'', JStr (v_name v)), (js ''type'', JNum (of_int (v_type v))),
         (js ''base_url'', strOrNull (Some (normalizeBaseUrl (v_base_url v)))), (js ''key'', JStr (v_key v)),
         (js ''openai_organization'', strOrNull (v_openai_organization v)), (js ''models'', JStr (v_models v)),
         (js ''group'', JStr (formatGroups (v_group v))), (js ''model_mapping'', strOrNull (v_model_mapping v)),
         (js ''priority'', numOrNull (v_priority v)), (js ''weight'', numOrNull (v_weight v)),
         (js ''test_model'', strOrNull (v_test_model v)), (js ''auto_ban'', JNum (nullish (v_auto_ban v) 1)),
         (js ''status'', JNum (of_int (v_status v))), (js ''status_code_mapping'', strOrNull (v_status_code_mapping v)),
         (js ''tag'', strOrNull (v_tag v)), (js ''remark'', JStr (or_str (v_remark v) [])),
         (js ''setting'', JStr (buildSettingJSON E v)), (js ''param_override'', strOrNull (v_param_override v)),
         (js ''header_override'', strOrNull (v_header_override v)), (js ''settings'', JStr settings),
         (js ''other'', JStr (or_str (v_other v) []))]\<rparr> }"

text \<open>A property that is written when it has a text, and deleted otherwise.\<close>

definition setOrDelete :: "string \<Rightarrow> bool \<Rightarrow> jsstr \<Rightarrow> (jsstr, json) omap \<Rightarrow> (jsstr, json) omap" where
  "setOrDelete k b t m = (if b then omap_set m (js k) (JStr t) else omap_del m (js k))"

text \<open>The payload of an update: its fields, the key and the name, the optional texts.\<close>

abbreviation textValue :: "jsstr option \<Rightarrow> json" where
  "textValue x \<equiv> JStr (or_str x [])"

definition updateFields :: "fenv \<Rightarrow> ChannelFormValues \<Rightarrow> int \<Rightarrow> jsstr \<Rightarrow> (jsstr, json) omap" where
  "updateFields E v channelId settings =
     [(js ''id'', JNum (of_int channelId)), (js ''name'', JStr (v_name v)), (js ''type'', JNum (of_int (v_type v))),
      (js ''models'', JStr (v_models v)), (js ''group'', JStr (formatGroups (v_group v))),
      (js ''priority'', JNum (orZero (v_priority v))), (js ''weight'', JNum (orZero (v_weight v))),
      (js ''auto_ban'', JNum (nullish (v_auto_ban v) 1)), (js ''remark'', textValue (v_remark v)),
      (js ''setting'', JStr (buildSettingJSON E v)), (js ''settings'', JStr settings), (js ''other'', textValue (v_other v))]"

definition keyAndName :: "ChannelFormValues \<Rightarrow> (jsstr, json) omap \<Rightarrow> (jsstr, json) omap" where
  "keyAndName v p =
     (let p = (if trim (v_key v) \<noteq> [] then omap_set p (js ''key'') (JStr (v_key v)) else p)
      in emptyToNull (if trim (v_name v) = [] then omap_del p (js ''name'') else p))"

definition optionalTexts :: "ChannelFormValues \<Rightarrow> (jsstr, json) omap \<Rightarrow> (jsstr, json) omap" where
  "optionalTexts v p =
     (let baseUrl = normalizeBaseUrl (v_base_url v);
          p = setOrDelete ''base_url'' (baseUrl \<noteq> []) baseUrl p;
          p = omap_set p (js ''openai_organization'') (textValue (v_openai_organization v));
          p = omap_set p (js ''test_model'') (textValue (v_test_model v));
          p = omap_set p (js ''tag'') (textValue (v_tag v));
          p = omap_set p (js ''remark'') (textValue (v_remark v));
          p = omap_set p (js ''model_mapping'') (textValue (v_model_mapping v));
          p = omap_set p (js ''status_code_mapping'') (textValue (v_status_code_mapping v));
          p = setOrDelete ''param_override'' (\<not> blank (v_param_override v)) (or_str (v_param_override v) []) p
      in setOrDelete ''header_override'' (\<not> blank (v_header_override v)) (or_str (v_header_override v) []) p)"

definition transformFormDataToUpdatePayload :: "fenv \<Rightarrow> ChannelFormValues \<Rightarrow> int \<Rightarrow> (jsstr, json) omap option" where
  "transformFormDataToUpdatePayload E v channelId = map_option
     (\<lambda>settings. optionalTexts v (keyAndName v (updateFields E v channelId settings))) (buildSettingsJSON E v)"

definition validateJSON :: "fenv \<Rightarrow> jsstr \<Rightarrow> bool" where
  "validateJSON E v \<longleftrightarrow> v = [] \<or> trim v = [] \<or> fparse E v \<noteq> None"

definition validateModelMapping :: "fenv \<Rightarrow> jsstr \<Rightarrow> bool" where
  "validateModelMapping E v \<longleftrightarrow> v = [] \<or> trim v = [] \<or> validateJSON E v"

end
