(* ===== verification/ChannelEditor.thy ===== *)
theory ChannelEditor
  imports ChannelForm
begin

text \<open>
  The editor of a channel: the checks of its model mapping and of its status code mapping
  (\<open>features/channels/lib/model-mapping-validation.ts\<close>, \<open>status-code-risk-guard.ts\<close>), keys and connection
  information (\<open>channel-utils.ts\<close>, \<open>lib/channel-connection-info.ts\<close>), the handlers of the drawer
  (\<open>channel-mutate-drawer.tsx\<close>) up to the submission, and the request that the submission makes
  (\<open>hooks/use-channel-mutate-form.ts\<close>). The answers to the two confirmation dialogs of the submission are
  arguments: functions of what the dialog shows.
\<close>

section \<open>Definitions\<close>

subsection \<open>Model mapping\<close>

definition parseModelsString :: "jsstr \<Rightarrow> jsstr list" where
  "parseModelsString modelsStr = (if modelsStr \<noteq> [] then filter (\<lambda>m. m \<noteq> []) (map trim (split_on 44 modelsStr)) else [])"

definition formatModelsArray :: "jsstr list \<Rightarrow> jsstr" where
  "formatModelsArray ms = join [44] (dedupe ms)"

definition normalizeModelName :: "jsstr \<Rightarrow> jsstr" where
  "normalizeModelName m = trim m"

text \<open>A text that holds an object.\<close>

definition parsedObject :: "fenv \<Rightarrow> jsstr \<Rightarrow> (jsstr, json) omap option" where
  "parsedObject E t = (case fparse E t of Some (JObj fs) \<Rightarrow> Some fs | _ \<Rightarrow> None)"

definition extractMappingSourceModels :: "fenv \<Rightarrow> jsstr \<Rightarrow> jsstr list" where
  "extractMappingSourceModels E modelMapping =
     (let trimmed = trim modelMapping in
      if trimmed = [] then [] else case parsedObject E trimmed of
        None \<Rightarrow> []
      | Some parsed \<Rightarrow> dedupe (filter (\<lambda>k. k \<noteq> []) (map trim (omap_keys parsed))))"

definition extractRedirectModels :: "fenv \<Rightarrow> jsstr \<Rightarrow> jsstr list" where
  "extractRedirectModels E modelMapping =
     (let trimmed = trim modelMapping in
      if trimmed = [] then [] else case parsedObject E trimmed of
        None \<Rightarrow> []
      | Some parsed \<Rightarrow> dedupe (filter (\<lambda>k. k \<noteq> []) (map trim (List.map_filter zstring (omap_values parsed)))))"

definition hasModelConfigChanged :: "jsstr list \<Rightarrow> jsstr \<Rightarrow> jsstr list \<Rightarrow> jsstr \<Rightarrow> bool" where
  "hasModelConfigChanged currentModels currentModelMapping initialModels initialModelMapping =
     (if length initialModels = 0 \<and> initialModelMapping = [] then True
      else if length currentModels \<noteq> length initialModels then True
      else if list_ex (\<lambda>i. currentModels ! i \<noteq> initialModels ! i) [0..<length currentModels] then True
      else trim currentModelMapping \<noteq> trim initialModelMapping)"

definition findMissingModelsInMapping :: "fenv \<Rightarrow> jsstr \<Rightarrow> jsstr list \<Rightarrow> jsstr list" where
  "findMissingModelsInMapping E modelMapping currentModels =
     (if modelMapping = [] \<or> trim modelMapping = [] then [] else case parsedObject E modelMapping of
        None \<Rightarrow> []
      | Some parsed \<Rightarrow>
          let modelSet = dedupe (map normalizeModelName currentModels)
          in dedupe (filter (\<lambda>k. k \<noteq> [] \<and> k \<notin> set modelSet) (map normalizeModelName (omap_keys parsed))))"

text \<open>The error, \<open>None\<close> where the mapping is valid.\<close>

definition validateModelMappingJson :: "fenv \<Rightarrow> jsstr \<Rightarrow> string option" where
  "validateModelMappingJson E modelMapping =
     (if modelMapping = [] \<or> trim modelMapping = [] then None else case fparse E modelMapping of
        None \<Rightarrow> Some ''Model mapping must be valid JSON format''
      | Some (JObj parsed) \<Rightarrow>
          if list_ex (\<lambda>v. zstring v = None) (omap_values parsed) then Some ''Model mapping values must be strings'' else None
      | Some _ \<Rightarrow> Some ''Model mapping must be a valid JSON object'')"

definition findExposedTargetModels :: "fenv \<Rightarrow> jsstr \<Rightarrow> jsstr list \<Rightarrow> jsstr list" where
  "findExposedTargetModels E modelMapping currentModels =
     (let redirectModels = extractRedirectModels E modelMapping in
      if length redirectModels = 0 then [] else
        let modelSet = dedupe (map normalizeModelName currentModels)
        in filter (\<lambda>m. normalizeModelName m \<in> set modelSet) redirectModels)"

record RedirectCategories =
  normalizedCurrentModels :: "jsstr list"
  normalizedRedirectModels :: "jsstr list"
  classificationSet :: "jsstr list"
  redirectOnlySet :: "jsstr list"

definition categorizeModelsWithRedirect :: "jsstr list \<Rightarrow> jsstr list \<Rightarrow> RedirectCategories" where
  "categorizeModelsWithRedirect currentModels redirectModels =
     (let cur = dedupe (filter (\<lambda>m. m \<noteq> []) (map normalizeModelName currentModels));
          red = dedupe (filter (\<lambda>m. m \<noteq> []) (map normalizeModelName redirectModels))
      in \<lparr>normalizedCurrentModels = cur, normalizedRedirectModels = red, classificationSet = dedupe (cur @ red),
          redirectOnlySet = dedupe (filter (\<lambda>m. m \<notin> set cur) red)\<rparr>)"

subsection \<open>Status code mapping\<close>

definition NON_REDIRECTABLE_STATUS_CODES :: "nat list" where
  "NON_REDIRECTABLE_STATUS_CODES = [504, 524]"

text \<open>\<open>/^[1-5]\d{2}$/\<close>.\<close>

definition codeText :: "jsstr \<Rightarrow> bool" where
  "codeText s \<longleftrightarrow> length s = 3 \<and> 49 \<le> hd s \<and> hd s \<le> 53 \<and> list_all is_digit s"

definition parseStatusCodeKey :: "jsstr \<Rightarrow> nat option" where
  "parseStatusCodeKey rawKey =
     (let normalized = trim rawKey in if \<not> codeText normalized then None else Some (parse_digits normalized))"

definition parseStatusCodeMappingTarget :: "json \<Rightarrow> nat option" where
  "parseStatusCodeMappingTarget rawValue = (case rawValue of
      JNum x \<Rightarrow> if x = of_int \<lfloor>x\<rfloor> \<and> 100 \<le> x \<and> x \<le> 599 then Some (nat \<lfloor>x\<rfloor>) else None
    | JStr s \<Rightarrow> (let normalized = trim s in
        if \<not> codeText normalized then None
        else let code = parse_digits normalized in if 100 \<le> code \<and> code \<le> 599 then Some code else None)
    | _ \<Rightarrow> None)"

definition mappingEntries :: "fenv \<Rightarrow> jsstr \<Rightarrow> (jsstr, json) omap" where
  "mappingEntries E s = (if trim s = [] then [] else case parsedObject E s of Some fs \<Rightarrow> fs | None \<Rightarrow> [])"

definition collectInvalidStatusCodeEntries :: "fenv \<Rightarrow> jsstr \<Rightarrow> jsstr list" where
  "collectInvalidStatusCodeEntries E s =
     map (\<lambda>(rawKey, rawValue). rawKey @ [32, 8594, 32] @ jsString (f_num_text E) rawValue)
       (filter (\<lambda>(rawKey, rawValue). parseStatusCodeKey rawKey = None \<or> parseStatusCodeMappingTarget rawValue = None)
         (mappingEntries E s))"

text \<open>The default order of \<open>sort\<close>: by code units.\<close>

fun unitCompare :: "jsstr \<Rightarrow> jsstr \<Rightarrow> int" where
  "unitCompare [] [] = 0"
| "unitCompare [] (b # bs) = - 1"
| "unitCompare (a # as) [] = 1"
| "unitCompare (a # as) (b # bs) = (if a < b then - 1 else if b < a then 1 else unitCompare as bs)"

definition riskyRedirect :: "jsstr \<times> json \<Rightarrow> jsstr option" where
  "riskyRedirect p = (case (parseStatusCodeKey (fst p), parseStatusCodeMappingTarget (snd p)) of
      (Some fromCode, Some toCode) \<Rightarrow>
        if fromCode \<notin> set NON_REDIRECTABLE_STATUS_CODES then None
        else if fromCode = toCode then None
        else Some (show_nat fromCode @ js '' -> '' @ show_nat toCode)
    | _ \<Rightarrow> None)"

definition collectDisallowedStatusCodeRedirects :: "fenv \<Rightarrow> jsstr \<Rightarrow> jsstr list" where
  "collectDisallowedStatusCodeRedirects E s =
     js_sort unitCompare (dedupe (List.map_filter riskyRedirect (mappingEntries E s)))"

definition collectNewDisallowedStatusCodeRedirects :: "fenv \<Rightarrow> jsstr \<Rightarrow> jsstr \<Rightarrow> jsstr list" where
  "collectNewDisallowedStatusCodeRedirects E originalStr currentStr =
     (let currentRisky = collectDisallowedStatusCodeRedirects E currentStr in
      if length currentRisky = 0 then [] else
        let originalRiskySet = dedupe (collectDisallowedStatusCodeRedirects E originalStr)
        in filter (\<lambda>m. m \<notin> set originalRiskySet) currentRisky)"

subsection \<open>Keys and connection information\<close>

record DeduplicatedKeys =
  deduplicatedText :: jsstr
  beforeCount :: nat
  afterCount :: nat
  removedCount :: int

definition keepLine :: "jsstr list \<Rightarrow> jsstr \<Rightarrow> jsstr list" where
  "keepLine keys line =
     (let trimmedLine = trim line in if trimmedLine \<noteq> [] \<and> trimmedLine \<notin> set keys then keys @ [trimmedLine] else keys)"

definition deduplicateKeys :: "jsstr \<Rightarrow> DeduplicatedKeys" where
  "deduplicateKeys keysText =
     (if keysText = [] \<or> trim keysText = [] then
        \<lparr>deduplicatedText = [], beforeCount = 0, afterCount = 0, removedCount = 0\<rparr>
      else
        let keyLines = split_on 10 keysText;
            deduplicatedKeys = foldl keepLine [] keyLines
        in \<lparr>deduplicatedText = join [10] deduplicatedKeys, beforeCount = length keyLines,
            afterCount = length deduplicatedKeys,
            removedCount = int (length keyLines) - int (length deduplicatedKeys)\<rparr>)"

definition CHANNEL_CONNECTION_INFO_TYPE :: jsstr where
  "CHANNEL_CONNECTION_INFO_TYPE = js ''newapi_channel_conn''"

record ChannelConnectionInfo =
  conn_key :: jsstr
  conn_url :: jsstr

definition encodeChannelConnectionInfo :: "fenv \<Rightarrow> jsstr \<Rightarrow> jsstr \<Rightarrow> jsstr" where
  "encodeChannelConnectionInfo E k url = fprint E (JObj
     [(js ''_type'', JStr CHANNEL_CONNECTION_INFO_TYPE), (js ''key'', JStr k), (js ''url'', JStr url)])"

definition parseChannelConnectionInfo :: "fenv \<Rightarrow> jsstr \<Rightarrow> ChannelConnectionInfo option" where
  "parseChannelConnectionInfo E t = (if t = [] then None else case fparse E (trim t) of
      Some j \<Rightarrow> (case (prop_of ''_type'' j, prop_of ''key'' j, prop_of ''url'' j) of
          (Some ty, Some (JStr k), Some (JStr url)) \<Rightarrow>
            if ty = JStr CHANNEL_CONNECTION_INFO_TYPE then Some \<lparr>conn_key = k, conn_url = url\<rparr> else None
        | _ \<Rightarrow> None)
    | None \<Rightarrow> None)"

subsection \<open>What the drawer shows of the mapping and of the settings\<close>

record ModelMappingGuardrail =
  invalidJson :: bool
  entries :: "(jsstr \<times> jsstr) list"
  missingSourceModels :: "jsstr list"
  exposedTargetModels :: "jsstr list"

definition createEmptyModelMappingGuardrail :: ModelMappingGuardrail where
  "createEmptyModelMappingGuardrail =
     \<lparr>invalidJson = False, entries = [], missingSourceModels = [], exposedTargetModels = []\<rparr>"

definition guardrailEntries :: "fenv \<Rightarrow> (jsstr, json) omap \<Rightarrow> (jsstr \<times> jsstr) list" where
  "guardrailEntries E parsed =
     foldl (\<lambda>acc (rawSource, rawTarget).
         let source = trim rawSource; target = trim (if rawTarget = JNull then [] else jsString (f_num_text E) rawTarget)
         in if source = [] \<or> target = [] then acc else acc @ [(source, target)])
       [] parsed"

definition modelMappingGuardrail :: "fenv \<Rightarrow> jsstr option \<Rightarrow> jsstr list \<Rightarrow> ModelMappingGuardrail" where
  "modelMappingGuardrail E currentModelMapping currentModelsArray =
     (if blank currentModelMapping then createEmptyModelMappingGuardrail
      else case fparse E (or_str currentModelMapping []) of
        Some (JObj parsed) \<Rightarrow>
          let es = guardrailEntries E parsed in
          \<lparr>invalidJson = False, entries = es,
           missingSourceModels = dedupe (map fst (filter (\<lambda>e. fst e \<noteq> [] \<and> fst e \<notin> set currentModelsArray) es)),
           exposedTargetModels = dedupe (map snd (filter (\<lambda>e. snd e \<noteq> [] \<and> snd e \<in> set currentModelsArray) es))\<rparr>
      | _ \<Rightarrow> createEmptyModelMappingGuardrail\<lparr>invalidJson := True\<rparr>)"

definition mappingPreviewPairs :: "ModelMappingGuardrail \<Rightarrow> (jsstr \<times> jsstr) list" where
  "mappingPreviewPairs g = (if length (entries g) > 0 then take 3 (entries g) else [(js ''client-model'', js ''upstream-model'')])"

definition remainingMappingCount :: "ModelMappingGuardrail \<Rightarrow> nat" where
  "remainingMappingCount g = (if length (entries g) > 3 then length (entries g) - 3 else 0)"

definition parseSettingsRecord :: "fenv \<Rightarrow> jsstr option \<Rightarrow> (jsstr, json) omap" where
  "parseSettingsRecord E settings =
     (if blank settings then [] else case parsedObject E (or_str settings []) of Some fs \<Rightarrow> fs | None \<Rightarrow> [])"

definition upstreamDetectedModels :: "fenv \<Rightarrow> jsstr option \<Rightarrow> jsstr list" where
  "upstreamDetectedModels E settings =
     (case omap_get (parseSettingsRecord E settings) (js ''upstream_model_update_last_detected_models'') of
        Some (JArr xs) \<Rightarrow> dedupe (filter (\<lambda>m. m \<noteq> [])
          (map (\<lambda>m. trim (jsString (f_num_text E) (if truthy m then m else JStr []))) xs))
      | _ \<Rightarrow> [])"

definition hasConfiguredOverrideValue :: "fenv \<Rightarrow> jsstr option \<Rightarrow> bool" where
  "hasConfiguredOverrideValue E v = (case v of None \<Rightarrow> False | Some s \<Rightarrow>
     (let trimmed = trim s in
      if trimmed = [] \<or> trimmed = js ''null'' then False
      else case fparse E trimmed of
        None \<Rightarrow> True | Some JNull \<Rightarrow> False | Some (JArr xs) \<Rightarrow> length xs > 0 | Some (JObj fs) \<Rightarrow> length (omap_keys fs) > 0
      | Some _ \<Rightarrow> True))"

text \<open>\<open>v?.trim()\<close> and \<open>Boolean(v)\<close> on the fields that were read from JSON. (On a value of another type
  \<open>trim\<close> raises; here it counts as not filled.)\<close>

definition filledValue :: "json option \<Rightarrow> bool" where
  "filledValue v = (case v of Some (JStr s) \<Rightarrow> trim s \<noteq> [] | _ \<Rightarrow> False)"

definition setValue :: "json option \<Rightarrow> bool" where
  "setValue v = (case v of Some j \<Rightarrow> truthy j | None \<Rightarrow> False)"

definition hasAdvancedSettingsValues :: "fenv \<Rightarrow> ChannelFormValues \<Rightarrow> bool" where
  "hasAdvancedSettingsValues E v \<longleftrightarrow>
     hasConfiguredOverrideValue E (v_param_override v) \<or> hasConfiguredOverrideValue E (v_header_override v)
     \<or> \<not> blank (v_advanced_custom v) \<or> hasConfiguredOverrideValue E (v_status_code_mapping v)
     \<or> \<not> blank (v_tag v) \<or> \<not> blank (v_remark v) \<or> orZero (v_priority v) \<noteq> 0 \<or> orZero (v_weight v) \<noteq> 0
     \<or> filledValue (v_proxy v) \<or> filledValue (v_system_prompt v) \<or> setValue (v_force_format v)
     \<or> setValue (v_thinking_to_content v) \<or> setValue (v_pass_through_body_enabled v)
     \<or> setValue (v_system_prompt_override v) \<or> v_claude_beta_query v = Some True
     \<or> v_upstream_model_update_check_enabled v = Some True \<or> v_upstream_model_update_auto_sync_enabled v = Some True
     \<or> \<not> blank (v_upstream_model_update_ignored_models v)"

subsection \<open>The state of the drawer\<close>

record Drawer =
  d_form :: ChannelFormValues
  d_advancedSettingsOpen :: bool
  d_initialModels :: "jsstr list"
  d_initialModelMapping :: jsstr
  d_initialStatusCodeMapping :: jsstr

text \<open>The effect that loads the channel; \<open>pref\<close> is the stored preference.\<close>

definition loadDrawer :: "fenv \<Rightarrow> bool \<Rightarrow> bool \<Rightarrow> Channel option \<Rightarrow> Drawer \<Rightarrow> Drawer" where
  "loadDrawer E pref isEditing channelData d =
     (if isEditing then (case channelData of
        None \<Rightarrow> d
      | Some ch \<Rightarrow>
          let defaults = transformChannelToFormDefaults E ch in
          \<lparr>d_form = defaults, d_advancedSettingsOpen = pref \<or> hasAdvancedSettingsValues E defaults,
           d_initialModels = parseModelsString (ch_models ch), d_initialModelMapping = or_str (ch_model_mapping ch) [],
           d_initialStatusCodeMapping = or_str (ch_status_code_mapping ch) []\<rparr>)
      else \<lparr>d_form = CHANNEL_FORM_DEFAULT_VALUES, d_advancedSettingsOpen = False, d_initialModels = [],
        d_initialModelMapping = [], d_initialStatusCodeMapping = []\<rparr>)"

text \<open>The effects that follow the type, the base URL and the mode of adding keys.\<close>

definition typeDefaults :: "bool \<Rightarrow> ChannelFormValues \<Rightarrow> ChannelFormValues" where
  "typeDefaults isEditing v =
     (if isEditing then v else
        let v = (if v_type v = 45 \<and> or_str (v_base_url v) [] = []
                 then v\<lparr>v_base_url := Some (js ''https://ark.cn-beijing.volces.com'')\<rparr> else v)
        in if v_type v = 18 \<and> or_str (v_other v) [] = [] then v\<lparr>v_other := Some (js ''v2.1'')\<rparr> else v)"

definition doubaoBaseUrl :: "ChannelFormValues \<Rightarrow> ChannelFormValues" where
  "doubaoBaseUrl v =
     (if v_type v \<noteq> 45 \<or> v_base_url v \<noteq> Some (js ''doubao-coding-plan'') then v
      else v\<lparr>v_base_url := Some (js ''https://ark.cn-beijing.volces.com'')\<rparr>)"

definition supportsMultiKeyAddMode :: "ChannelFormValues \<Rightarrow> bool" where
  "supportsMultiKeyAddMode v \<longleftrightarrow>
     v_type v \<noteq> 57 \<and> \<not> (v_type v = 41 \<and> v_vertex_key_type v = Some (JStr (js ''api_key'')))"

definition singleKeyMode :: "bool \<Rightarrow> ChannelFormValues \<Rightarrow> ChannelFormValues" where
  "singleKeyMode isEditing v =
     (if isEditing \<or> supportsMultiKeyAddMode v then v
      else if batchMode v then v\<lparr>v_multi_key_mode := Some (js ''single'')\<rparr> else v)"

subsection \<open>Handlers of the drawer\<close>

definition updateModels :: "jsstr list \<Rightarrow> bool \<Rightarrow> ChannelFormValues \<Rightarrow> ChannelFormValues" where
  "updateModels newModels merge v = v\<lparr>v_models :=
     (if merge then formatModelsArray (parseModelsString (v_models v) @ newModels) else formatModelsArray newModels)\<rparr>"

definition basicModels :: "jsstr list \<Rightarrow> int \<Rightarrow> jsstr list" where
  "basicModels allModelsList currentType =
     (if allModelsList = [] then []
      else if currentType = 1 then filter (\<lambda>m. prefix (js ''gpt-'') m \<or> prefix (js ''text-'') m) allModelsList
      else allModelsList)"

definition handleFillRelatedModels :: "jsstr list \<Rightarrow> ChannelFormValues \<Rightarrow> ChannelFormValues" where
  "handleFillRelatedModels allModelsList v =
     (let ms = basicModels allModelsList (v_type v) in if ms = [] then v else updateModels ms False v)"

definition handleFillAllModels :: "jsstr list \<Rightarrow> ChannelFormValues \<Rightarrow> ChannelFormValues" where
  "handleFillAllModels allModelsList v = (if allModelsList = [] then v else updateModels allModelsList False v)"

definition handleClearModels :: "ChannelFormValues \<Rightarrow> ChannelFormValues" where
  "handleClearModels v = v\<lparr>v_models := []\<rparr>"

definition handleModelsChange :: "jsstr list \<Rightarrow> ChannelFormValues \<Rightarrow> ChannelFormValues" where
  "handleModelsChange selected v = v\<lparr>v_models := join [44] selected\<rparr>"

datatype KeyNotice = EnterKeysFirst | NoDuplicateKeys | RemovedKeys int nat nat

definition handleDeduplicateKeys :: "ChannelFormValues \<Rightarrow> ChannelFormValues \<times> KeyNotice" where
  "handleDeduplicateKeys v =
     (let currentKey = v_key v in
      if currentKey = [] \<or> trim currentKey = [] then (v, EnterKeysFirst)
      else let result = deduplicateKeys currentKey in
        if removedCount result = 0 then (v, NoDuplicateKeys)
        else (v\<lparr>v_key := deduplicatedText result\<rparr>,
              RemovedKeys (removedCount result) (beforeCount result) (afterCount result)))"

definition applyConnectionInfo :: "ChannelConnectionInfo \<Rightarrow> ChannelFormValues \<Rightarrow> ChannelFormValues" where
  "applyConnectionInfo c v = v\<lparr>v_key := conn_key c, v_base_url := Some (conn_url c)\<rparr>"

subsection \<open>Submission\<close>

definition SENSITIVE_FORM_FIELDS :: "string list" where
  "SENSITIVE_FORM_FIELDS = [''type'', ''base_url'', ''key'', ''openai_organization'', ''other'', ''key_mode'',
     ''param_override'', ''header_override'', ''settings'', ''setting'', ''advanced_custom'', ''is_enterprise_account'',
     ''vertex_key_type'', ''aws_key_type'', ''azure_responses_version'', ''force_format'', ''upstream_endpoint_type'',
     ''thinking_to_content'', ''proxy'', ''pass_through_body_enabled'', ''system_prompt'', ''system_prompt_override'',
     ''allow_service_tier'', ''disable_store'', ''allow_safety_identifier'', ''allow_include_obfuscation'',
     ''allow_inference_geo'', ''allow_speed'', ''claude_beta_query'', ''disable_task_polling_sleep'',
     ''upstream_model_update_check_enabled'', ''upstream_model_update_auto_sync_enabled'',
     ''upstream_model_update_ignored_models'']"

datatype MissingModelsAction = CancelAction | SubmitAction | AddAction

text \<open>How a submission ends: an error message, a declined dialog, or the values that are sent.\<close>

datatype SubmitResult =
    RequiredKey
  | NoPermission
  | InvalidStatusEntries "jsstr list"
  | RiskDeclined
  | InvalidMapping string
  | MissingCancelled
  | Mutate ChannelFormValues

text \<open>What the submission depends on: the user, the dirty fields, and the answers to the dialogs.\<close>

record SubmitContext =
  isEditing :: bool
  canEditSensitive :: bool
  dirtyFields :: "string list"
  riskAnswer :: "jsstr list \<Rightarrow> bool"
  missingAnswer :: "jsstr list \<Rightarrow> MissingModelsAction"

definition sensitiveLocked :: "SubmitContext \<Rightarrow> bool" where
  "sensitiveLocked cx \<longleftrightarrow> isEditing cx \<and> \<not> canEditSensitive cx"

definition submitStatusCodes :: "fenv \<Rightarrow> SubmitContext \<Rightarrow> Drawer \<Rightarrow> ChannelFormValues \<Rightarrow> SubmitResult option" where
  "submitStatusCodes E cx d data =
     (if blank (v_status_code_mapping data) then None else
        let mapping = or_str (v_status_code_mapping data) [];
            invalidEntries = collectInvalidStatusCodeEntries E mapping
        in if length invalidEntries > 0 then Some (InvalidStatusEntries invalidEntries)
           else let riskyRedirects = collectNewDisallowedStatusCodeRedirects E (d_initialStatusCodeMapping d) mapping
             in if length riskyRedirects > 0 \<and> \<not> riskAnswer cx riskyRedirects then Some RiskDeclined else None)"

definition submitModels :: "fenv \<Rightarrow> SubmitContext \<Rightarrow> Drawer \<Rightarrow> ChannelFormValues \<Rightarrow> SubmitResult" where
  "submitModels E cx d data =
     (let hasModelMapping = (\<not> blank (v_model_mapping data));
          modelMappingValue = or_str (v_model_mapping data) [];
          normalizedModels = parseModelsString (v_models data);
          missingModels = findMissingModelsInMapping E modelMappingValue normalizedModels;
          shouldPromptMissing = (length missingModels > 0
            \<and> hasModelConfigChanged normalizedModels modelMappingValue (d_initialModels d) (d_initialModelMapping d))
      in case (if hasModelMapping then validateModelMappingJson E modelMappingValue else None) of
           Some err \<Rightarrow> InvalidMapping err
         | None \<Rightarrow>
             if hasModelMapping \<and> shouldPromptMissing then (case missingAnswer cx missingModels of
                 CancelAction \<Rightarrow> MissingCancelled
               | AddAction \<Rightarrow> Mutate (data\<lparr>v_models := formatModelsArray (dedupe (normalizedModels @ missingModels))\<rparr>)
               | SubmitAction \<Rightarrow> Mutate data)
             else Mutate data)"

text \<open>The submit handler, which the form library calls only with values that the schema of the form accepts.\<close>

definition onSubmit :: "fenv \<Rightarrow> SubmitContext \<Rightarrow> Drawer \<Rightarrow> ChannelFormValues \<Rightarrow> SubmitResult" where
  "onSubmit E cx d data =
     (if \<not> isEditing cx \<and> trim (v_key data) = [] then RequiredKey
      else if sensitiveLocked cx \<and> list_ex (\<lambda>f. f \<in> set (dirtyFields cx)) SENSITIVE_FORM_FIELDS then NoPermission
      else case submitStatusCodes E cx d data of Some r \<Rightarrow> r | None \<Rightarrow> submitModels E cx d data)"

subsection \<open>The request\<close>

definition SENSITIVE_UPDATE_FIELDS :: "string list" where
  "SENSITIVE_UPDATE_FIELDS = [''type'', ''key'', ''base_url'', ''openai_organization'', ''param_override'',
     ''header_override'', ''setting'', ''settings'', ''other'']"

datatype ChannelRequest = UpdateChannel int "(jsstr, json) omap" | CreateChannel CreatePayload

text \<open>\<open>currentRow\<close> is the identifier of the channel that is edited; \<open>None\<close> where building the payload raises.\<close>

definition updateRequest :: "fenv \<Rightarrow> bool \<Rightarrow> bool \<Rightarrow> ChannelFormValues \<Rightarrow> int \<Rightarrow> (jsstr, json) omap option" where
  "updateRequest E canEdit isMultiKeyChannel data channelId = do {
     payload \<leftarrow> transformFormDataToUpdatePayload E data channelId;
     let payload = (if trim (v_key data) = [] then omap_del payload (js ''key'') else payload);
         payload = (if \<not> canEdit then foldl (\<lambda>p f. omap_del p (js f)) payload SENSITIVE_UPDATE_FIELDS else payload)
     in Some (if canEdit \<and> isMultiKeyChannel \<and> trim (v_key data) \<noteq> [] \<and> or_str (v_key_mode data) [] \<noteq> []
         then omap_set payload (js ''key_mode'') (JStr (or_str (v_key_mode data) [])) else payload) }"

definition mutationRequest :: "fenv \<Rightarrow> SubmitContext \<Rightarrow> bool \<Rightarrow> int option \<Rightarrow> ChannelFormValues \<Rightarrow> ChannelRequest option" where
  "mutationRequest E cx isMultiKeyChannel currentRow data = (case (isEditing cx, currentRow) of
      (True, Some i) \<Rightarrow> map_option (UpdateChannel i) (updateRequest E (canEditSensitive cx) isMultiKeyChannel data i)
    | _ \<Rightarrow> map_option CreateChannel (transformFormDataToCreatePayload E data))"

end
