(* ===== verification/ChannelFormProperties.thy ===== *)
theory ChannelFormProperties
  imports ChannelForm AdvancedCustomEditing
begin

text \<open>
  What the form of a channel guarantees: the two settings texts it writes are objects that keep what other
  parts of the system stored in them, a saved channel opens with the values that were saved and saves again
  unchanged, an accepted form always has payloads, and an update sends no blank text that would clear a value.
\<close>

section \<open>Objects\<close>

subsection \<open>Properties that are set and deleted\<close>

lemma omap_del_filter: "omap_del m k = filter (\<lambda>p. fst p \<noteq> k) m"
  by (induction m) auto

lemma omap_get_del: "omap_get (omap_del m k) k' = (if k' = k then None else omap_get m k')"
  by (induction m) (auto simp: omap_get_def)

lemma omap_del_absent: "omap_get m k = None \<Longrightarrow> omap_del m k = m"
  by (induction m) (auto simp: omap_get_def split: if_splits)

lemma omap_set_same: "omap_get m k = Some x \<Longrightarrow> omap_set m k x = m"
  by (induction m) (auto simp: omap_get_def split: if_splits)

lemmas omap_gets = omap_get_set omap_get_del

lemma get_typedSetting:
  "omap_get (typedSetting b k x m) k' = (if k' = js k then if b then Some x else None else omap_get m k')"
  by (simp add: typedSetting_def omap_gets)

lemma typedSetting_same: "omap_get m (js k) = (if b then Some x else None) \<Longrightarrow> typedSetting b k x m = m"
  by (simp add: typedSetting_def omap_set_same omap_del_absent split: if_splits)

text \<open>The order of the properties of an object survives both.\<close>

lemma prop_order_Nil [simp]: "prop_order [] = []"
  by (simp add: prop_order_def)

lemma prop_order_del: "prop_order fs = fs \<Longrightarrow> prop_order (omap_del fs k) = omap_del fs k"
proof -
  assume "prop_order fs = fs"
  then have "omap_del fs k = filter (\<lambda>p. fst p \<noteq> k) (prop_order fs)" by (simp add: omap_del_filter)
  also have "\<dots> = prop_order (omap_del fs k)"
    by (simp add: prop_order_def omap_del_filter filter_sort conj_commute)
  finally show ?thesis by simp
qed

lemma omap_set_append: "k \<notin> set (omap_keys A) \<Longrightarrow> omap_set (A @ B) k v = A @ omap_set B k v"
  by (induction A) auto

lemma omap_set_filter:
  "\<not> P k \<Longrightarrow> filter (\<lambda>p. P (fst p)) (omap_set m k v) = filter (\<lambda>p. P (fst p)) m"
  "P k \<Longrightarrow> filter (\<lambda>p. P (fst p)) (omap_set m k v) = omap_set (filter (\<lambda>p. P (fst p)) m) k v"
  by (induction m) auto

lemma prop_order_set:
  assumes "prop_order fs = fs" "\<not> is_index k"
  shows "prop_order (omap_set fs k v) = omap_set fs k v"
proof -
  let ?A = "sort_key (\<lambda>p. parse_digits (fst p)) (filter (\<lambda>p. is_index (fst p)) fs)"
  have "prop_order (omap_set fs k v) = ?A @ omap_set (filter (\<lambda>p. \<not> is_index (fst p)) fs) k v"
    using assms(2) omap_set_filter(2) [where P = "\<lambda>k. \<not> is_index k"]
    by (simp add: prop_order_def omap_set_filter(1))
  also have "\<dots> = omap_set (prop_order fs) k v"
    using assms(2) omap_set_append [of k ?A] unfolding prop_order_def by force
  finally show ?thesis using assms(1) by simp
qed

lemma json_ok_set:
  assumes "json_ok P (JObj fs)" "\<not> is_index k" "json_ok P x"
  shows "json_ok P (JObj (omap_set fs k x))"
proof -
  have "json_ok P y" if "(j, y) \<in> set (omap_set fs k x)" for j y
    using that assms(1, 3) values_omap_set [of fs k x] by (force simp: list_all_iff)
  with assms show ?thesis by (auto simp: prop_order_set omap_keys_set list_all_iff)
qed

lemma json_ok_del: "json_ok P (JObj fs) \<Longrightarrow> json_ok P (JObj (omap_del fs k))"
  by (auto simp: prop_order_del) (auto simp: omap_del_filter list_all_iff distinct_map_filter)

lemma literal_not_index: "k \<noteq> [] \<Longrightarrow> \<not> is_digit (jsc (hd k)) \<Longrightarrow> \<not> is_index (js k)"
  by (cases k) (auto simp: is_index_def js_simps)

lemma json_ok_typed:
  assumes "json_ok P (JObj m)" "k \<noteq> []" "\<not> is_digit (jsc (hd k))" "b \<Longrightarrow> json_ok P x"
  shows "json_ok P (JObj (typedSetting b k x m))"
  using assms literal_not_index [of k] unfolding typedSetting_def by (auto simp del: json_ok.simps intro!: json_ok_set json_ok_del)

subsection \<open>A blank text holds no value\<close>

lemma trim_Nil_iff: "trim s = [] \<longleftrightarrow> list_all is_ws s"
proof -
  have "trim s = [] \<longleftrightarrow> list_all is_ws (dropWhile is_ws s)" by (simp add: trim_def trim_start_def list_all_iff)
  also have "\<dots> \<longleftrightarrow> list_all is_ws s" by (induction s) auto
  finally show ?thesis .
qed

lemma ws_no_value: "is_ws c \<Longrightarrow> pscalar to_num (c # r) = None"
proof -
  assume c: "is_ws c"
  then have "\<not> num_char c" using is_ws_json by (auto simp: num_char_def) (auto simp: is_ws_def)
  then have "pnum to_num (c # r) = None" by (simp add: pnum_def json_number_def json_unsigned_def)
  moreover have "c \<noteq> jsc CHR ''n''" "c \<noteq> jsc CHR ''t''" "c \<noteq> jsc CHR ''f''" using c by (auto simp: js_simps)
  ultimately show ?thesis by (simp add: pscalar_def js_Cons expect_def)
qed

lemma blank_no_value: "trim s = [] \<Longrightarrow> parseJSON to_num s = None"
proof -
  assume "trim s = []"
  then have ws: "is_ws c" if "skip_ws s = c # r" for c r
    using that set_dropWhileD [of c json_ws s] by (auto simp: trim_Nil_iff list_all_iff)
  have "pvalue to_num n s = None" for n
  proof (cases n)
    case (Suc f)
    then show ?thesis using ws is_ws_json ws_no_value by (auto split: list.split)
  qed simp
  then show ?thesis by (simp add: parseJSON_def)
qed

section \<open>What the form writes\<close>

subsection \<open>Accepted forms\<close>

lemma issue_Nil [simp]: "issue b fld = [] \<longleftrightarrow> \<not> b"
  by (simp add: issue_def)

lemma accepted_parts:
  assumes "channelFormIssues E v = []"
  shows "typeIssues v = []" "fieldIssues E v = []" "refineIssues E v = []"
  using assms by (simp_all add: channelFormIssues_def split: if_splits)

text \<open>An optional value of the right type prints and reads back; so does the default it is replaced with.\<close>

definition scalar :: "json \<Rightarrow> bool" where
  "scalar j \<longleftrightarrow> (\<exists>b. j = JBool b) \<or> (\<exists>s. j = JStr s)"

lemma scalar_simps [simp]: "scalar (JBool b)" "scalar (JStr s)"
  by (simp_all add: scalar_def)

lemma scalar_ok: "scalar j \<Longrightarrow> json_ok P j"
  by (auto simp: scalar_def)

lemma scalar_or: "optBoolean v \<or> optString v \<or> optEnum ks v \<Longrightarrow> scalar d \<Longrightarrow> scalar (or_json v d)"
  by (auto simp: optBoolean_def optString_def optEnum_def or_json_def split: option.splits json.splits)

lemma or_json_or: "truthy d \<or> d = JBool False \<or> d = JStr [] \<Longrightarrow> or_json (Some (or_json v d)) d = or_json v d"
  by (auto simp: or_json_def split: option.split)

subsection \<open>The setting of a channel\<close>

abbreviation numbers :: "fenv \<Rightarrow> bool" where
  "numbers E \<equiv> num_laws (f_num_text E) (f_to_num E)"

abbreviation fok :: "fenv \<Rightarrow> json \<Rightarrow> bool" where
  "fok E \<equiv> json_ok (num_ok (f_num_text E) (f_to_num E))"

lemma fparse_ok: "numbers E \<Longrightarrow> fparse E s = Some j \<Longrightarrow> fok E j"
  using parse_printable by (simp add: printable_by_def)

lemma fprint_parse: "fok E j \<Longrightarrow> fparse E (fprint E j) = Some j"
  by (rule parse_print)

lemma fprint_ne: "fok E j \<Longrightarrow> fprint E j \<noteq> [] \<and> trim (fprint E j) = fprint E j"
  using text_no_ws text_trim unfolding printJSON_def by blast

lemma json_ok_assign:
  assumes "json_ok P (JObj m)" "list_all (\<lambda>(k, x). \<not> is_index k \<and> json_ok P x) ps"
  shows "json_ok P (JObj (assign_all m ps))"
  using assms
proof (induction ps arbitrary: m)
  case (Cons p ps)
  then obtain k x where p: "p = (k, x)" "\<not> is_index k" "json_ok P x" by (cases p) auto
  with Cons.prems have "json_ok P (JObj (omap_set m k x))" by (intro json_ok_set)
  with Cons p show ?case by (simp add: assign_all_def del: json_ok.simps)
qed (simp add: assign_all_def)

lemma settingObj_ok: "numbers E \<Longrightarrow> fok E (JObj (settingObj E v))"
  using fparse_ok [of E "or_str (v_setting v) []"]
  by (auto simp: settingObj_def simp del: json_ok.simps split: option.split json.split) auto

lemma extraSettings_ok:
  assumes "channelFormIssues E v = []"
  shows "list_all (\<lambda>(k, x). \<not> is_index k \<and> json_ok P x) (extraSettings v)"
  using accepted_parts(1) [OF assms]
  by (simp add: extraSettings_def typeIssues_def literal_not_index is_digit_jsc scalar_ok scalar_or)

lemma get_assign:
  assumes "distinct (map fst ps)"
  shows "omap_get (assign_all m ps) k = (case map_of ps k of None \<Rightarrow> omap_get m k | Some x \<Rightarrow> Some x)"
  unfolding assign_all_def using omap_get_put_all [OF assms, where f = "\<lambda>x. x"] by simp

lemma extraSettings_distinct: "distinct (map fst (extraSettings v))"
  by (simp add: extraSettings_def)

lemma setting_text:
  assumes "numbers E" "channelFormIssues E v = []"
  shows "fok E (JObj (assign_all (settingObj E v) (extraSettings v)))"
  using assms by (intro json_ok_assign settingObj_ok extraSettings_ok)

subsection \<open>The settings of a channel type\<close>

lemma settings_readable:
  assumes "numbers E" "channelFormIssues E v = []"
  obtains m where "existingSettings E v = Inr m" "fok E (JObj m)"
proof -
  let ?t = "or_str (v_settings v) []"
  have "isOptionalJsonObject E (v_settings v)" using accepted_parts(2) [OF assms(2)] by (simp add: fieldIssues_def)
  then have "\<exists>m. existingSettings E v = Inr m \<and> fok E (JObj m)" if "fparse E ?t = Some j" for j
    using that fparse_ok [OF assms(1) that] blank_no_value [of ?t "f_to_num E"]
    by (cases "v_settings v"; cases j)
      (auto simp: isOptionalJsonObject_def parseOptionalJson_def isJsonObjectValue_def existingSettings_def Let_def or_str_def
        split: if_splits)
  moreover have "\<exists>m. existingSettings E v = Inr m \<and> fok E (JObj m)" if "fparse E ?t = None"
    using that by (simp add: existingSettings_def Let_def)
  ultimately show thesis using that by (cases "fparse E ?t") blast+
qed

text \<open>Of the settings, \<open>passthroughSettings\<close> treats one in two places.\<close>

lemma passthroughSettings_typed:
  "passthroughSettings v m =
     (let t = v_type v; openai = (t = 1 \<or> t = 57);
          m = typedSetting (t = 1 \<or> t = 14 \<or> t = 57) ''allow_service_tier'' (flagValue (v_allow_service_tier v)) m;
          m = typedSetting openai ''disable_store'' (flagValue (v_disable_store v)) m;
          m = typedSetting openai ''allow_safety_identifier'' (flagValue (v_allow_safety_identifier v)) m;
          m = typedSetting openai ''allow_include_obfuscation'' (flagValue (v_allow_include_obfuscation v)) m;
          m = typedSetting (openai \<or> t = 14) ''allow_inference_geo'' (flagValue (v_allow_inference_geo v)) m;
          m = typedSetting (t = 14) ''allow_speed'' (flagValue (v_allow_speed v)) m;
          m = typedSetting (t = 14) ''claude_beta_query'' (flagValue (v_claude_beta_query v)) m
      in typedSetting True ''disable_task_polling_sleep'' (flagValue (v_disable_task_polling_sleep v)) m)"
proof -
  consider "v_type v = 14" | "v_type v = 1" | "v_type v = 57" | "v_type v \<noteq> 1" "v_type v \<noteq> 14" "v_type v \<noteq> 57" by blast
  then show ?thesis by cases (simp_all add: passthroughSettings_def typedSetting_def Let_def)
qed

lemmas typed_parts = keySettings_def passthroughSettings_typed Let_def

text \<open>The names that each part writes.\<close>

definition typedNames :: "string list" where
  "typedNames = [''vertex_key_type'', ''azure_responses_version'', ''openrouter_enterprise'', ''aws_key_type'',
     ''allow_service_tier'', ''disable_store'', ''allow_safety_identifier'', ''allow_include_obfuscation'',
     ''allow_inference_geo'', ''allow_speed'', ''claude_beta_query'', ''disable_task_polling_sleep'']"

definition updateNames :: "string list" where
  "updateNames = [''upstream_model_update_check_enabled'', ''upstream_model_update_auto_sync_enabled'',
     ''upstream_model_update_ignored_models'', ''upstream_model_update_last_detected_models'',
     ''upstream_model_update_last_check_time'']"

lemma updateSettings_other: "k \<notin> js ` set updateNames \<Longrightarrow> omap_get (updateSettings v m) k = omap_get m k"
  by (auto simp: updateSettings_def updateNames_def Let_def omap_gets)

lemma routeSettings_other: "k \<noteq> js ''advanced_custom'' \<Longrightarrow> omap_get (routeSettings E v m) k = omap_get m k"
  by (auto simp: routeSettings_def omap_gets split: option.split)

lemma typed_other:
  "k \<notin> js ` set typedNames \<Longrightarrow> omap_get (passthroughSettings v (keySettings v m)) k = omap_get m k"
  by (simp add: typed_parts typedNames_def get_typedSetting)

text \<open>A key of the first two parts has the value that its own rule gives it.\<close>

lemma get_settings_typed:
  assumes "k \<in> set typedNames"
  shows "omap_get (settingsObject E v m) (js k) = omap_get (passthroughSettings v (keySettings v m)) (js k)"
proof -
  have "js k \<notin> js ` set updateNames" "js k \<noteq> js ''advanced_custom''"
    using assms by (auto simp: typedNames_def updateNames_def)
  then show ?thesis by (simp add: settingsObject_def routeSettings_other updateSettings_other)
qed

lemma settings_foreign:
  assumes "k \<notin> js ` set (typedNames @ updateNames @ [''advanced_custom''])"
  shows "omap_get (settingsObject E v m) k = omap_get m k"
  using assms by (simp add: settingsObject_def routeSettings_other updateSettings_other typed_other image_Un)

text \<open>The text that is written reads back as the object.\<close>

definition routesPrint :: "fenv \<Rightarrow> ChannelFormValues \<Rightarrow> bool" where
  "routesPrint E v \<longleftrightarrow> pred_option (\<lambda>c. fok E (f_config_json E c)) (routesOf E v)"

lemma typed_ok:
  assumes "typeIssues v = []" "json_ok P (JObj m)"
  shows "json_ok P (JObj (passthroughSettings v (keySettings v m)))"
proof -
  have "scalar (or_json (v_azure_responses_version v) JNull) \<or> \<not> truthy (or_json (v_azure_responses_version v) JNull)"
    using assms(1) by (auto simp: typeIssues_def optString_def or_json_def split: option.splits json.splits)
  moreover have "optEnum [''json'', ''api_key''] (v_vertex_key_type v)" "optEnum [''ak_sk'', ''api_key''] (v_aws_key_type v)"
    using assms(1) by (simp_all add: typeIssues_def)
  ultimately show ?thesis unfolding typed_parts
    by (intro json_ok_typed assms(2)) (auto simp: is_digit_jsc intro!: scalar_ok scalar_or)
qed

lemma json_ok_if:
  "(c \<Longrightarrow> json_ok P (JObj a)) \<Longrightarrow> (\<not> c \<Longrightarrow> json_ok P (JObj b)) \<Longrightarrow> json_ok P (JObj (if c then a else b))"
  by simp

lemma updateSettings_ok:
  assumes "json_ok P (JObj m)" "P 0"
  shows "json_ok P (JObj (updateSettings v m))"
proof -
  have "json_ok P (ignoredModels v)" by (simp add: ignoredModels_def list_all_iff)
  moreover have "\<not> is_index (js k)" if "k \<in> set updateNames" for k
    using that by (auto simp: updateNames_def literal_not_index is_digit_jsc)
  ultimately show ?thesis using assms unfolding updateSettings_def Let_def updateNames_def
    by (intro json_ok_if json_ok_set) simp_all
qed

lemma settingsObject_ok:
  assumes "numbers E" "f_to_num E (js ''0'') = Some 0" "routesPrint E v" "typeIssues v = []" "fok E (JObj m)"
  shows "fok E (JObj (settingsObject E v m))"
proof -
  have "num_ok (f_num_text E) (f_to_num E) 0" using assms(1, 2) by (auto simp: num_laws_def)
  then have "fok E (JObj (updateSettings v (passthroughSettings v (keySettings v m))))"
    by (intro updateSettings_ok typed_ok assms)
  then show ?thesis using assms(3) unfolding settingsObject_def routeSettings_def routesPrint_def
    using literal_not_index [of "''advanced_custom''"]
    by (auto simp: is_digit_jsc simp del: json_ok.simps split: option.split intro!: json_ok_set json_ok_del)
qed

section \<open>Saving and opening again\<close>

subsection \<open>The setting\<close>

lemma assign_all_same:
  assumes "list_all (\<lambda>(k, x). omap_get m k = Some x) ps"
  shows "assign_all m ps = m"
  using assms
proof (induction ps)
  case (Cons p ps)
  then have "omap_set m (fst p) (snd p) = m" by (auto simp: omap_set_same split: prod.splits)
  with Cons show ?case by (simp add: assign_all_def case_prod_beta)
qed (simp add: assign_all_def)

lemma parsedSetting_print:
  "fok E (JObj m) \<Longrightarrow> parsedSetting E (fprint E (JObj m)) = Some (JObj m)"
  using fprint_ne [of E "JObj m"] fprint_parse [of E "JObj m"] by (simp add: parsedSetting_def del: json_ok.simps)

definition savedExtra :: "(jsstr, json) omap \<Rightarrow> ChannelFormValues \<Rightarrow> bool" where
  "savedExtra fs v \<longleftrightarrow> list_all (\<lambda>(k, x). omap_get fs k = Some x) (extraSettings v)"

lemma assigned_extra: "savedExtra (assign_all m (extraSettings v)) v"
proof -
  have "map_of (extraSettings v) k = Some x" if "(k, x) \<in> set (extraSettings v)" for k x
    using that extraSettings_distinct by (rule map_of_is_SomeI [rotated])
  then show ?thesis by (auto simp: savedExtra_def list_all_iff get_assign extraSettings_distinct)
qed

lemma transform_extra:
  "extraSettings (transformChannelToFormDefaults E ch) = extraSettings (loadExtra E (or_str (ch_setting ch) []) v)"
  by (simp add: transformChannelToFormDefaults_def loadTyped_def Let_def extraSettings_def loadExtra_def split: option.split)

lemma loaded_extra:
  assumes "parsedSetting E t = Some (JObj fs)" "savedExtra fs v"
  shows "extraSettings (loadExtra E t v') = extraSettings v"
  using assms by (simp add: savedExtra_def loadExtra_def extraSettings_def prop_of_def or_json_or)

lemma transform_texts [simp]:
  "v_setting (transformChannelToFormDefaults E ch) = Some (or_str (ch_setting ch) [])"
  "v_settings (transformChannelToFormDefaults E ch) = Some (or_str (Some (ch_settings ch)) (js ''{}''))"
  "v_type (transformChannelToFormDefaults E ch) = ch_type ch"
  by (simp_all add: transformChannelToFormDefaults_def loadTyped_def Let_def loadExtra_def split: option.split)

lemma setting_stable:
  assumes "numbers E" "channelFormIssues E v = []" "ch_setting ch = Some (buildSettingJSON E v)"
  shows "buildSettingJSON E (transformChannelToFormDefaults E ch) = buildSettingJSON E v"
proof -
  define fs where "fs = assign_all (settingObj E v) (extraSettings v)"
  let ?v = "transformChannelToFormDefaults E ch" and ?t = "fprint E (JObj fs)"
  have ok: "fok E (JObj fs)" using assms by (simp add: setting_text fs_def del: json_ok.simps)
  then have t: "ch_setting ch = Some ?t" "?t \<noteq> []" "trim ?t \<noteq> []" "fparse E ?t = Some (JObj fs)"
    using assms(3) fprint_ne [OF ok] fprint_parse [OF ok] by (simp_all add: buildSettingJSON_def fs_def)
  have saved: "savedExtra fs v" by (simp add: fs_def assigned_extra)
  have "settingObj E ?v = fs" using t by (simp add: settingObj_def blank_def)
  moreover have "extraSettings ?v = extraSettings v"
    using transform_extra [of E ch v] t loaded_extra [OF parsedSetting_print [OF ok] saved] by simp
  ultimately show ?thesis using saved by (simp add: buildSettingJSON_def assign_all_same savedExtra_def fs_def)
qed

subsection \<open>The settings of the type\<close>

lemma settings_values:
  "omap_get (settingsObject E v m) (js ''vertex_key_type'') =
     (if v_type v = 41 then Some (or_json (v_vertex_key_type v) (JStr (js ''json''))) else None)"
  "omap_get (settingsObject E v m) (js ''azure_responses_version'') =
     (let azure = or_json (v_azure_responses_version v) JNull in if v_type v = 3 \<and> truthy azure then Some azure else None)"
  "omap_get (settingsObject E v m) (js ''openrouter_enterprise'') =
     (if v_type v = 20 then Some (flagValue (v_is_enterprise_account v)) else None)"
  "omap_get (settingsObject E v m) (js ''aws_key_type'') =
     (if v_type v = 33 then Some (or_json (v_aws_key_type v) (JStr (js ''ak_sk''))) else None)"
  "omap_get (settingsObject E v m) (js ''allow_service_tier'') =
     (if v_type v = 1 \<or> v_type v = 14 \<or> v_type v = 57 then Some (flagValue (v_allow_service_tier v)) else None)"
  "omap_get (settingsObject E v m) (js ''disable_store'') =
     (if v_type v = 1 \<or> v_type v = 57 then Some (flagValue (v_disable_store v)) else None)"
  "omap_get (settingsObject E v m) (js ''allow_safety_identifier'') =
     (if v_type v = 1 \<or> v_type v = 57 then Some (flagValue (v_allow_safety_identifier v)) else None)"
  "omap_get (settingsObject E v m) (js ''allow_include_obfuscation'') =
     (if v_type v = 1 \<or> v_type v = 57 then Some (flagValue (v_allow_include_obfuscation v)) else None)"
  "omap_get (settingsObject E v m) (js ''allow_inference_geo'') =
     (if (v_type v = 1 \<or> v_type v = 57) \<or> v_type v = 14 then Some (flagValue (v_allow_inference_geo v)) else None)"
  "omap_get (settingsObject E v m) (js ''allow_speed'') =
     (if v_type v = 14 then Some (flagValue (v_allow_speed v)) else None)"
  "omap_get (settingsObject E v m) (js ''claude_beta_query'') =
     (if v_type v = 14 then Some (flagValue (v_claude_beta_query v)) else None)"
  "omap_get (settingsObject E v m) (js ''disable_task_polling_sleep'') = Some (flagValue (v_disable_task_polling_sleep v))"
  by (simp_all add: get_settings_typed typedNames_def typed_parts get_typedSetting)

lemma update_values:
  assumes "v_type v \<in> set MODEL_FETCHABLE_TYPES"
  shows "omap_get (settingsObject E v m) (js ''upstream_model_update_check_enabled'') =
      Some (flagValue (v_upstream_model_update_check_enabled v))"
    "omap_get (settingsObject E v m) (js ''upstream_model_update_auto_sync_enabled'') =
      Some (JBool (v_upstream_model_update_check_enabled v = Some True \<and> v_upstream_model_update_auto_sync_enabled v = Some True))"
    "omap_get (settingsObject E v m) (js ''upstream_model_update_ignored_models'') = Some (ignoredModels v)"
    "\<exists>xs. omap_get (settingsObject E v m) (js ''upstream_model_update_last_detected_models'') = Some (JArr xs)
       \<and> (v_upstream_model_update_check_enabled v = Some True \<or> xs = [])"
    "\<exists>n. omap_get (settingsObject E v m) (js ''upstream_model_update_last_check_time'') = Some (JNum n)"
proof -
  define p where "p = passthroughSettings v (keySettings v m)"
  have get: "omap_get (settingsObject E v m) (js k) = omap_get (updateSettings v p) (js k)" if "k \<in> set updateNames" for k
    using that by (auto simp: settingsObject_def p_def updateNames_def routeSettings_other)
  note [simp] = get [unfolded updateNames_def] updateSettings_def Let_def omap_gets assms
  let ?k = "js ''upstream_model_update_last_detected_models''" and ?t = "js ''upstream_model_update_last_check_time''"
  show "omap_get (settingsObject E v m) (js ''upstream_model_update_check_enabled'') =
      Some (flagValue (v_upstream_model_update_check_enabled v))"
    "omap_get (settingsObject E v m) (js ''upstream_model_update_auto_sync_enabled'') =
      Some (JBool (v_upstream_model_update_check_enabled v = Some True \<and> v_upstream_model_update_auto_sync_enabled v = Some True))"
    "omap_get (settingsObject E v m) (js ''upstream_model_update_ignored_models'') = Some (ignoredModels v)"
    by simp_all
  show "\<exists>xs. omap_get (settingsObject E v m) ?k = Some (JArr xs) \<and> (v_upstream_model_update_check_enabled v = Some True \<or> xs = [])"
    by (auto split: option.split json.split)
  show "\<exists>n. omap_get (settingsObject E v m) ?t = Some (JNum n)"
    by (auto split: option.split json.split)
qed

lemma or_json_idem: "truthy (or_json v JNull) \<Longrightarrow>
    or_json (Some (or_json (Some (or_json v JNull)) (JStr []))) JNull = or_json v JNull"
  by (simp add: or_json_def split: option.splits if_splits)

lemma typed_stable:
  assumes "parsedSetting E t = Some (JObj m)" "m = settingsObject E v m0" "v_type w = v_type v"
  shows "passthroughSettings (loadTyped E t w) (keySettings (loadTyped E t w) m) = m"
proof -
  define v' where "v' = loadTyped E t w"
  have ty: "v_type v' = v_type v" using assms(3) by (simp add: v'_def loadTyped_def Let_def)
  note vals = settings_values [of E v m0, folded assms(2)]
  note reads = loadTyped_def Let_def prop_of_def assms(1) vals is_true_def
  have "keySettings v' m = m"
  proof -
    let ?a = "or_json (v_azure_responses_version v') JNull"
    have "omap_get m (js ''vertex_key_type'') =
        (if v_type v' = 41 then Some (or_json (v_vertex_key_type v') (JStr (js ''json''))) else None)"
      "omap_get m (js ''aws_key_type'') =
        (if v_type v' = 33 then Some (or_json (v_aws_key_type v') (JStr (js ''ak_sk''))) else None)"
      by (simp_all add: ty) (simp_all add: v'_def reads or_json_or)
    moreover have "omap_get m (js ''openrouter_enterprise'') =
        (if v_type v' = 20 then Some (flagValue (v_is_enterprise_account v')) else None)"
      by (simp add: ty) (simp add: v'_def reads)
    moreover have "omap_get m (js ''azure_responses_version'') = (if v_type v' = 3 \<and> truthy ?a then Some ?a else None)"
      using or_json_idem [of "v_azure_responses_version v"]
      by (cases "v_type v = 3 \<and> truthy (or_json (v_azure_responses_version v) JNull)")
        (auto simp: assms(3) v'_def reads or_json_def)
    ultimately show ?thesis by (simp add: keySettings_def Let_def typedSetting_same)
  qed
  moreover have "passthroughSettings v' m = m"
  proof -
    have "omap_get m (js ''allow_service_tier'') =
        (if v_type v' = 1 \<or> v_type v' = 14 \<or> v_type v' = 57 then Some (flagValue (v_allow_service_tier v')) else None)"
      "omap_get m (js ''disable_store'') =
        (if v_type v' = 1 \<or> v_type v' = 57 then Some (flagValue (v_disable_store v')) else None)"
      "omap_get m (js ''allow_safety_identifier'') =
        (if v_type v' = 1 \<or> v_type v' = 57 then Some (flagValue (v_allow_safety_identifier v')) else None)"
      "omap_get m (js ''allow_include_obfuscation'') =
        (if v_type v' = 1 \<or> v_type v' = 57 then Some (flagValue (v_allow_include_obfuscation v')) else None)"
      "omap_get m (js ''allow_inference_geo'') =
        (if (v_type v' = 1 \<or> v_type v' = 57) \<or> v_type v' = 14 then Some (flagValue (v_allow_inference_geo v')) else None)"
      "omap_get m (js ''allow_speed'') = (if v_type v' = 14 then Some (flagValue (v_allow_speed v')) else None)"
      "omap_get m (js ''claude_beta_query'') = (if v_type v' = 14 then Some (flagValue (v_claude_beta_query v')) else None)"
      "omap_get m (js ''disable_task_polling_sleep'') =
        (if True then Some (flagValue (v_disable_task_polling_sleep v')) else None)"
      by (simp_all add: ty) (simp_all add: v'_def reads)
    then show ?thesis unfolding passthroughSettings_typed Let_def by (simp only: typedSetting_same)
  qed
  ultimately show ?thesis by (simp add: v'_def)
qed

text \<open>The models to ignore are listed without repetition, separated by commas.\<close>

lemma ignored_again:
  assumes "v_upstream_model_update_ignored_models v' = Some (join [44] xs)" "ignoredModels v = JArr (map JStr xs)"
  shows "ignoredModels v' = JArr (map JStr xs)"
proof -
  define ps where "ps = split_on 44 (or_str (v_upstream_model_update_ignored_models v) [])"
  have "map JStr xs = map JStr (dedupe (filter (\<lambda>m. m \<noteq> []) (map trim ps)))"
    using assms(2) by (simp add: ignoredModels_def ps_def)
  then have xs: "xs = dedupe (filter (\<lambda>m. m \<noteq> []) (map trim ps))" by (rule map_injective) (simp add: inj_def)
  have item: "x \<noteq> []" "trim x = x" "44 \<notin> set x" if "x \<in> set xs" for x
  proof -
    obtain y where y: "x = trim y" "x \<noteq> []" "y \<in> set ps" using \<open>x \<in> set xs\<close> unfolding xs by auto
    show "x \<noteq> []" "trim x = x" "44 \<notin> set x"
      using y split_on_pieces [OF y(3) [unfolded ps_def]] set_trim [of y] by auto
  qed
  have same: "dedupe xs = xs" "filter (\<lambda>m. m \<noteq> []) xs = xs" "map trim xs = xs"
  proof -
    show "dedupe xs = xs" unfolding xs by simp
    show "filter (\<lambda>m. m \<noteq> []) xs = xs" using item(1) by (simp add: filter_id_conv)
    show "map trim xs = xs" by (rule map_idI) (rule item(2))
  qed
  show ?thesis
  proof (cases "xs = []")
    case False
    then have "join [44] xs \<noteq> []" using item(1) by (cases xs; cases "tl xs") auto
    moreover have "split_on 44 (join [44] xs) = xs" using item(3) False by (intro split_on_join) auto
    ultimately show ?thesis by (simp add: ignoredModels_def assms(1) same)
  qed (simp add: ignoredModels_def assms(1))
qed

lemma update_stable:
  assumes "parsedSetting E t = Some (JObj m)" "m = settingsObject E v m0" "v_type w = v_type v"
  shows "updateSettings (loadTyped E t w) m = m"
proof (cases "v_type v \<in> set MODEL_FETCHABLE_TYPES")
  case True
  define v' where "v' = loadTyped E t w"
  note vals = update_values [OF True, of E m0, folded assms(2)]
  obtain xs where xs: "ignoredModels v = JArr (map JStr xs)" by (simp add: ignoredModels_def)
  have "jsString (f_num_text E) (JArr (map JStr xs)) = join [44] xs"
    by (simp add: js_simps jsc_def comp_def)
  then have "v_upstream_model_update_ignored_models v' = Some (join [44] xs)"
    by (simp add: v'_def loadTyped_def loadIgnored_def Let_def assms(1) prop_of_def vals xs del: jsString.simps)
  from ignored_again [OF this xs] have ig: "ignoredModels v' = ignoredModels v" by (simp add: xs)
  have flags: "v_upstream_model_update_check_enabled v' = Some (v_upstream_model_update_check_enabled v = Some True)"
    "v_upstream_model_update_auto_sync_enabled v' = Some (v_upstream_model_update_check_enabled v = Some True
       \<and> v_upstream_model_update_auto_sync_enabled v = Some True)"
    "v_type v' \<in> set MODEL_FETCHABLE_TYPES"
    using True by (simp_all add: v'_def loadTyped_def Let_def assms(1, 3) prop_of_def vals is_true_def)
  obtain ys n where det: "omap_get m (js ''upstream_model_update_last_detected_models'') = Some (JArr ys)"
    "v_upstream_model_update_check_enabled v = Some True \<or> ys = []"
    "omap_get m (js ''upstream_model_update_last_check_time'') = Some (JNum n)" using vals(4, 5) by blast
  then show ?thesis unfolding v'_def [symmetric] updateSettings_def Let_def
    by (cases "v_upstream_model_update_check_enabled v = Some True") (simp_all add: flags ig vals(1-3) omap_set_same)
qed (simp add: updateSettings_def loadTyped_def Let_def assms(3))

definition routesReread :: "fenv \<Rightarrow> ChannelFormValues \<Rightarrow> bool" where
  "routesReread E v \<longleftrightarrow> pred_option (\<lambda>c. fok E (f_config_json E c) \<and> truthy (f_config_json E c)
     \<and> f_json_config E (f_config_json E c) = Some c \<and> trim (env_write (f_routes E) c) \<noteq> []
     \<and> env_read (f_routes E) (env_write (f_routes E) c) = Some c) (routesOf E v)"

lemma normalizeConfig_idem: "normalizeAdvancedCustomConfig (normalizeAdvancedCustomConfig c) = normalizeAdvancedCustomConfig c"
  by (auto simp: normalizeAdvancedCustomConfig_def normalizeRoute_idem split: option.split)

lemma accepted_routes:
  assumes "channelFormIssues E v = []" "v_type v = CHANNEL_TYPE_ADVANCED_CUSTOM"
  obtains c where "routesOf E v = Some c"
proof -
  have "validateAdvancedCustomConfig (env_url (f_routes E)) (routesOf E v) = None"
    using accepted_parts(3) [OF assms(1)] assms(2) by (auto simp: refineIssues_def)
  then show thesis using that by (cases "routesOf E v") (auto simp: validateAdvancedCustomConfig_def)
qed

lemma route_stable:
  assumes "parsedSetting E t = Some (JObj m)" "m = settingsObject E v m0" "v_type w = v_type v" "routesReread E v"
    "channelFormIssues E v = []"
  shows "routeSettings E (loadTyped E t w) m = m"
proof (cases "v_type v = CHANNEL_TYPE_ADVANCED_CUSTOM")
  case True
  then obtain c where c: "routesOf E v = Some c" using accepted_routes [OF assms(5)] by blast
  then have norm: "normalizeAdvancedCustomConfig c = c"
    by (auto simp: routesOf_def parseAdvancedCustomConfig_def normalizeConfig_idem split: option.splits if_splits)
  have laws: "truthy (f_config_json E c)" "f_json_config E (f_config_json E c) = Some c"
    "trim (env_write (f_routes E) c) \<noteq> []" "env_read (f_routes E) (env_write (f_routes E) c) = Some c"
    using assms(4) by (simp_all add: routesReread_def c)
  have get: "omap_get m (js ''advanced_custom'') = Some (f_config_json E c)"
    using True by (simp add: assms(2) settingsObject_def routeSettings_def c omap_gets)
  then have "v_advanced_custom (loadTyped E t w) = Some (env_write (f_routes E) c)"
    by (simp add: loadTyped_def Let_def assms(1) prop_of_def loadRoutes_def laws stringifyAdvancedCustomConfig_def norm)
  then have "routesOf E (loadTyped E t w) = Some c"
    by (simp add: routesOf_def parseAdvancedCustomConfig_def laws norm)
  moreover have "v_type (loadTyped E t w) = CHANNEL_TYPE_ADVANCED_CUSTOM"
    using True assms(3) by (simp add: loadTyped_def Let_def)
  ultimately show ?thesis using get by (simp add: routeSettings_def omap_set_same)
next
  case False
  have "omap_get m (js ''advanced_custom'') = None"
    using False by (simp add: assms(2) settingsObject_def routeSettings_def omap_gets)
  with False show ?thesis by (simp add: routeSettings_def loadTyped_def Let_def assms(3) omap_del_absent)
qed

lemma transform_typed:
  "\<exists>w. transformChannelToFormDefaults E ch = loadTyped E (ch_settings ch) w \<and> v_type w = ch_type ch"
  unfolding transformChannelToFormDefaults_def
  by (intro exI conjI, rule refl) (simp add: loadExtra_def split: option.split)

lemma empty_object: "fparse E (js ''{}'') = Some (JObj [])"
  using fprint_parse [of E "JObj []"] by (simp add: printJSON_def js_punct js_simps jsc_def)

lemma settings_stable:
  assumes "numbers E" "f_to_num E (js ''0'') = Some 0" "routesReread E v" "channelFormIssues E v = []"
    "buildSettingsJSON E v = Some (ch_settings ch)" "ch_type ch = v_type v"
  shows "buildSettingsJSON E (transformChannelToFormDefaults E ch) = Some (ch_settings ch)"
proof -
  let ?v = "transformChannelToFormDefaults E ch"
  obtain m0 where m0: "existingSettings E v = Inr m0" "fok E (JObj m0)" using settings_readable assms(1, 4) by blast
  define m where "m = settingsObject E v m0"
  have "routesPrint E v" using assms(3) by (cases "routesOf E v") (simp_all add: routesPrint_def routesReread_def)
  then have ok: "fok E (JObj m)"
    unfolding m_def by (intro settingsObject_ok assms m0 accepted_parts(1) [OF assms(4)])
  have t: "ch_settings ch = fprint E (JObj m)" using assms(5) m0 by (simp add: buildSettingsJSON_def m_def)
  then have p: "parsedSetting E (ch_settings ch) = Some (JObj m)" "fparse E (ch_settings ch) = Some (JObj m)"
    "ch_settings ch \<noteq> []"
    using parsedSetting_print [OF ok] fprint_parse [OF ok] fprint_ne [OF ok] by simp_all
  have "m \<noteq> []" using settings_values(12) [of E v m0] by (auto simp: m_def)
  moreover note empty_object
  ultimately have ex: "existingSettings E ?v = Inr m" using p by (auto simp: existingSettings_def Let_def)
  obtain w where w: "v_type w = v_type v" "?v = loadTyped E (ch_settings ch) w"
    using transform_typed [of E ch] assms(6) by auto
  have "settingsObject E ?v m = m" unfolding settingsObject_def w(2)
    by (simp add: typed_stable [OF p(1) m_def w(1)] update_stable [OF p(1) m_def w(1)]
        route_stable [OF p(1) m_def w(1) assms(3, 4)])
  with ex t show ?thesis by (simp add: buildSettingsJSON_def)
qed

subsection \<open>The payload of an update\<close>

lemma get_emptyToNull:
  "omap_get (emptyToNull m) k = map_option (\<lambda>x. if x = JStr [] then JNull else x) (omap_get m k)"
  by (simp add: emptyToNull_def omap_get_def map_of_map)

lemma get_setOrDelete:
  "omap_get (setOrDelete k b t m) k' = (if k' = js k then if b then Some (JStr t) else None else omap_get m k')"
  by (simp add: setOrDelete_def omap_gets)

lemma get_Cons: "omap_get ((k, x) # m) k' = (if k = k' then Some x else omap_get m k')"
  by (simp add: omap_get_def)

lemma get_keyAndName:
  "omap_get (keyAndName v p) k = map_option (\<lambda>x. if x = JStr [] then JNull else x)
     (if k = js ''name'' \<and> trim (v_name v) = [] then None
      else if k = js ''key'' \<and> trim (v_key v) \<noteq> [] then Some (JStr (v_key v)) else omap_get p k)"
  by (simp add: keyAndName_def get_emptyToNull omap_gets Let_def)

lemmas payload_gets = omap_gets get_setOrDelete get_keyAndName get_Cons

lemma update_built:
  assumes "buildSettingsJSON E v = Some t" "t \<noteq> []"
  obtains u where "transformFormDataToUpdatePayload E v i = Some u" "omap_get u (js ''settings'') = Some (JStr t)"
proof (rule that)
  let ?u = "optionalTexts v (keyAndName v (updateFields E v i t))"
  show "transformFormDataToUpdatePayload E v i = Some ?u" by (simp add: transformFormDataToUpdatePayload_def assms)
  show "omap_get ?u (js ''settings'') = Some (JStr t)"
    by (simp add: optionalTexts_def updateFields_def Let_def payload_gets assms(2))
qed

subsection \<open>What is written, key by key\<close>

text \<open>The object that a stored text holds, and the value that each key has after the form is saved: the twelve keys
  that belong to channel types, the configuration of routes and, for types whose models can be fetched, the five
  keys of model updates are set or removed; every other key keeps its value.\<close>

definition storedObject :: "fenv \<Rightarrow> jsstr option \<Rightarrow> (jsstr, json) omap" where
  "storedObject E t = (case Option.bind t (fparse E) of Some (JObj fs) \<Rightarrow> fs | _ \<Rightarrow> [])"

definition for_types :: "int set \<Rightarrow> ChannelFormValues \<Rightarrow> json \<Rightarrow> json option" where
  "for_types ts v x = (if v_type v \<in> ts then Some x else None)"

definition typeKeys :: "fenv \<Rightarrow> ChannelFormValues \<Rightarrow> (jsstr \<times> json option) list" where
  "typeKeys E v =
    [(js ''vertex_key_type'', for_types {41} v (or_json (v_vertex_key_type v) (JStr (js ''json'')))),
     (js ''azure_responses_version'',
       case v_azure_responses_version v of Some x \<Rightarrow> if truthy x then for_types {3} v x else None | None \<Rightarrow> None),
     (js ''openrouter_enterprise'', for_types {20} v (JBool (v_is_enterprise_account v = Some True))),
     (js ''aws_key_type'', for_types {33} v (or_json (v_aws_key_type v) (JStr (js ''ak_sk'')))),
     (js ''allow_service_tier'', for_types {1, 14, 57} v (JBool (v_allow_service_tier v = Some True))),
     (js ''disable_store'', for_types {1, 57} v (JBool (v_disable_store v = Some True))),
     (js ''allow_safety_identifier'', for_types {1, 57} v (JBool (v_allow_safety_identifier v = Some True))),
     (js ''allow_include_obfuscation'', for_types {1, 57} v (JBool (v_allow_include_obfuscation v = Some True))),
     (js ''allow_inference_geo'', for_types {1, 14, 57} v (JBool (v_allow_inference_geo v = Some True))),
     (js ''allow_speed'', for_types {14} v (JBool (v_allow_speed v = Some True))),
     (js ''claude_beta_query'', for_types {14} v (JBool (v_claude_beta_query v = Some True))),
     (js ''disable_task_polling_sleep'', Some (JBool (v_disable_task_polling_sleep v = Some True))),
     (js ''advanced_custom'', if v_type v = 58 then map_option (f_config_json E) (routesOf E v) else None)]"

definition updateKeys :: "ChannelFormValues \<Rightarrow> (jsstr, json) omap \<Rightarrow> (jsstr \<times> json option) list" where
  "updateKeys v old =
    (let check = (v_upstream_model_update_check_enabled v = Some True) in
     if v_type v \<in> {1, 4, 14, 17, 20, 23, 24, 25, 26, 27, 31, 34, 35, 40, 42, 43, 47, 48} then
      [(js ''upstream_model_update_check_enabled'', Some (JBool check)),
       (js ''upstream_model_update_auto_sync_enabled'',
         Some (JBool (check \<and> v_upstream_model_update_auto_sync_enabled v = Some True))),
       (js ''upstream_model_update_ignored_models'',
         Some (JArr (map JStr (dedupe (filter (\<lambda>m. m \<noteq> []) (map trim (split_on (jsc CHR '','')
           (case v_upstream_model_update_ignored_models v of None \<Rightarrow> [] | Some s \<Rightarrow> s)))))))),
       (js ''upstream_model_update_last_detected_models'',
         Some (case omap_get old (js ''upstream_model_update_last_detected_models'') of
             Some (JArr xs) \<Rightarrow> JArr (if check then xs else []) | _ \<Rightarrow> JArr [])),
       (js ''upstream_model_update_last_check_time'',
         Some (case omap_get old (js ''upstream_model_update_last_check_time'') of Some (JNum n) \<Rightarrow> JNum n | _ \<Rightarrow> JNum 0))]
     else [])"

definition writtenSetting :: "fenv \<Rightarrow> ChannelFormValues \<Rightarrow> (jsstr, json) omap \<Rightarrow> jsstr \<Rightarrow> json option" where
  "writtenSetting E v old k = (case map_of (typeKeys E v @ updateKeys v old) k of Some x \<Rightarrow> x | None \<Rightarrow> omap_get old k)"

lemma update_exact:
  assumes "v_type v \<in> set MODEL_FETCHABLE_TYPES"
  shows "omap_get (settingsObject E v m) (js ''upstream_model_update_last_detected_models'') =
      Some (case omap_get m (js ''upstream_model_update_last_detected_models'') of
         Some (JArr xs) \<Rightarrow> JArr (if v_upstream_model_update_check_enabled v = Some True then xs else []) | _ \<Rightarrow> JArr [])"
    "omap_get (settingsObject E v m) (js ''upstream_model_update_last_check_time'') =
      Some (case omap_get m (js ''upstream_model_update_last_check_time'') of Some (JNum n) \<Rightarrow> JNum n | _ \<Rightarrow> JNum 0)"
proof -
  define p where "p = passthroughSettings v (keySettings v m)"
  have get: "omap_get (settingsObject E v m) (js k) = omap_get (updateSettings v p) (js k)"
      "omap_get p (js k) = omap_get m (js k)" if "k \<in> set updateNames" for k
    using that by (auto simp: settingsObject_def p_def updateNames_def typedNames_def routeSettings_other typed_other)
  note [simp] = get [unfolded updateNames_def] updateSettings_def Let_def omap_gets assms
  show "omap_get (settingsObject E v m) (js ''upstream_model_update_last_detected_models'') =
      Some (case omap_get m (js ''upstream_model_update_last_detected_models'') of
         Some (JArr xs) \<Rightarrow> JArr (if v_upstream_model_update_check_enabled v = Some True then xs else []) | _ \<Rightarrow> JArr [])"
    by (auto split: option.split json.split)
  show "omap_get (settingsObject E v m) (js ''upstream_model_update_last_check_time'') =
      Some (case omap_get m (js ''upstream_model_update_last_check_time'') of Some (JNum n) \<Rightarrow> JNum n | _ \<Rightarrow> JNum 0)"
    by (auto split: option.split json.split)
qed

lemma update_kept:
  assumes "v_type v \<notin> set MODEL_FETCHABLE_TYPES" "k \<in> set updateNames"
  shows "omap_get (settingsObject E v m) (js k) = omap_get m (js k)"
  using assms by (auto simp: settingsObject_def updateNames_def typedNames_def routeSettings_other updateSettings_def typed_other)

lemma settings_route:
  "omap_get (settingsObject E v m) (js ''advanced_custom'') =
     (if v_type v = 58 then (case routesOf E v of Some c \<Rightarrow> Some (f_config_json E c) | None \<Rightarrow> omap_get m (js ''advanced_custom'')) else None)"
proof -
  have "js ''advanced_custom'' \<notin> js ` set updateNames" "js ''advanced_custom'' \<notin> js ` set typedNames"
    by (auto simp: updateNames_def typedNames_def)
  then show ?thesis
    by (auto simp: settingsObject_def routeSettings_def omap_gets CHANNEL_TYPE_ADVANCED_CUSTOM_def updateSettings_other typed_other
      split: option.split)
qed

lemma fetchable_types:
  "v_type v \<in> set MODEL_FETCHABLE_TYPES \<longleftrightarrow> v_type v \<in> {1, 4, 14, 17, 20, 23, 24, 25, 26, 27, 31, 34, 35, 40, 42, 43, 47, 48}"
  by (simp add: MODEL_FETCHABLE_TYPES_def)

lemma keys_listed:
  "map fst (typeKeys E v) = map js (typedNames @ [''advanced_custom''])"
  "map fst (updateKeys v m) = (if v_type v \<in> set MODEL_FETCHABLE_TYPES then map js updateNames else [])"
  unfolding fetchable_types by (simp_all add: typeKeys_def updateKeys_def typedNames_def updateNames_def Let_def)

lemma typeKeys_written:
  assumes "v_type v = 58 \<Longrightarrow> routesOf E v \<noteq> None" "(k, x) \<in> set (typeKeys E v)"
  shows "omap_get (settingsObject E v m) k = x"
  using assms(2) assms(1)
  by (auto simp: typeKeys_def settings_values settings_route for_types_def or_json_def Let_def split: option.split if_splits)

lemma updateKeys_written:
  assumes "(k, x) \<in> set (updateKeys v m)"
  shows "omap_get (settingsObject E v m) k = x"
proof -
  have f: "v_type v \<in> set MODEL_FETCHABLE_TYPES" using assms unfolding fetchable_types by (auto simp: updateKeys_def Let_def split: if_splits)
  show ?thesis
    using assms update_values(1-3) [OF f, of E m] update_exact [OF f, of E m]
    by (auto simp: updateKeys_def Let_def ignoredModels_def jsc_def or_str_def split: if_splits option.splits)
qed

lemma settings_written:
  assumes "v_type v = 58 \<Longrightarrow> routesOf E v \<noteq> None"
  shows "omap_get (settingsObject E v m) k = writtenSetting E v m k"
proof (cases "map_of (typeKeys E v @ updateKeys v m) k")
  case (Some x)
  then have "(k, x) \<in> set (typeKeys E v @ updateKeys v m)" by (rule map_of_SomeD)
  then have "omap_get (settingsObject E v m) k = x" using typeKeys_written [OF assms] updateKeys_written by auto
  then show ?thesis by (simp add: writtenSetting_def Some del: map_of_append)
next
  case None
  then have k: "k \<notin> js ` set (typedNames @ [''advanced_custom''])" "k \<in> js ` set updateNames \<Longrightarrow> v_type v \<notin> set MODEL_FETCHABLE_TYPES"
    unfolding map_of_eq_None_iff set_append image_Un set_map [symmetric] map_append keys_listed by auto
  have "omap_get (settingsObject E v m) k = omap_get m k"
  proof (cases "k \<in> js ` set updateNames")
    case True
    then show ?thesis using k(2) update_kept by blast
  next
    case False
    then show ?thesis using k(1) by (intro settings_foreign) auto
  qed
  then show ?thesis by (simp add: writtenSetting_def None del: map_of_append)
qed

lemma existing_stored:
  assumes "channelFormIssues E v = []" "existingSettings E v = Inr m"
  shows "m = storedObject E (v_settings v)"
  using assms(2) empty_object [of E] blank_no_value [of "[]" "f_to_num E"]
  by (cases "v_settings v") (auto simp: existingSettings_def storedObject_def or_str_def Let_def split: if_splits option.splits json.splits)

lemma settingObj_stored: "settingObj E v = storedObject E (v_setting v)"
  using blank_no_value [of _ "f_to_num E"]
  by (cases "v_setting v") (auto simp: settingObj_def storedObject_def blank_def or_str_def)

subsection \<open>A sample\<close>

definition formEnv :: fenv where
  "formEnv = \<lparr>f_num_text = nat_text, f_to_num = text_nat,
     f_routes = \<lparr>env_url = (\<lambda>_. None), env_read = (\<lambda>_. None), env_write = (\<lambda>_. [])\<rparr>,
     f_config_json = (\<lambda>_. JObj []), f_json_config = (\<lambda>_. None)\<rparr>"

definition importedSetting :: "(jsstr, json) omap" where
  "importedSetting = [(js ''import_source'', JStr (js ''cli''))]"

definition sampleForm :: ChannelFormValues where
  "sampleForm = CHANNEL_FORM_DEFAULT_VALUES\<lparr>v_name := js ''main'', v_models := js ''gpt-4o'',
     v_setting := Some (fprint formEnv (JObj importedSetting)), v_proxy := Some (JStr (js ''http://p'')),
     v_upstream_model_update_check_enabled := Some True, v_upstream_model_update_ignored_models := Some (js ''a, b,a'')\<rparr>"

definition sampleChannel :: Channel where
  "sampleChannel = \<lparr>ch_type = 1, ch_name = js ''main'', ch_base_url = None, ch_openai_organization = None,
     ch_models = js ''gpt-4o'', ch_group = js ''default'', ch_model_mapping = None, ch_priority = None, ch_weight = None,
     ch_test_model = None, ch_auto_ban = None, ch_status = 1, ch_status_code_mapping = None, ch_tag = None, ch_remark = [],
     ch_setting = Some (buildSettingJSON formEnv sampleForm), ch_param_override = None, ch_header_override = None,
     ch_settings = fprint formEnv (JObj (settingsObject formEnv sampleForm [])), ch_other = [],
     ch_multi_key_mode = js ''random''\<rparr>"

lemma formEnv_numbers: "numbers formEnv" "f_to_num formEnv (js ''0'') = Some 0"
  using num_laws_nat by (simp_all add: formEnv_def text_nat_def digits1_def js_simps parse_digits_def)

lemma imported_ok: "fok formEnv (JObj importedSetting)"
  by (simp add: importedSetting_def prop_order_plain literal_not_index is_digit_jsc)

lemma sampleForm_simps:
  "v_setting sampleForm = Some (fprint formEnv (JObj importedSetting))" "v_settings sampleForm = Some (js ''{}'')"
  "v_advanced_custom sampleForm = Some []" "v_key sampleForm = []" "v_type sampleForm = 1"
  by (simp_all add: sampleForm_def CHANNEL_FORM_DEFAULT_VALUES_def)

lemma sample_settings: "existingSettings formEnv sampleForm = Inr []"
  by (simp add: existingSettings_def Let_def sampleForm_simps)

lemma sample_routes: "routesOf formEnv sampleForm = None"
  by (simp add: routesOf_def sampleForm_simps parseAdvancedCustomConfig_def)

lemma sample_accepted: "channelFormIssues formEnv sampleForm = []"
proof -
  have "isOptionalJsonObject formEnv (v_setting sampleForm)"
    using fprint_ne [OF imported_ok] fprint_parse [OF imported_ok]
    by (simp add: isOptionalJsonObject_def parseOptionalJson_def isJsonObjectValue_def sampleForm_simps)
  moreover have "isOptionalJsonObject formEnv (v_settings sampleForm)"
    by (simp add: isOptionalJsonObject_def parseOptionalJson_def isJsonObjectValue_def sampleForm_simps empty_object)
  ultimately have "fieldIssues formEnv sampleForm = []"
    by (simp add: fieldIssues_def)
      (simp add: sampleForm_def CHANNEL_FORM_DEFAULT_VALUES_def isOptionalModelMapping_def
        isOptionalStatusCodeMapping_def isOptionalJsonObject_def parseOptionalJson_def js_simps)
  moreover have "typeIssues sampleForm = []"
    by (simp add: typeIssues_def sampleForm_def CHANNEL_FORM_DEFAULT_VALUES_def optEnum_def optBoolean_def optString_def)
  moreover have "refineIssues formEnv sampleForm = []"
    by (simp add: refineIssues_def sampleForm_simps CHANNEL_TYPE_ADVANCED_CUSTOM_def)
  ultimately show ?thesis by (simp add: channelFormIssues_def)
qed

section \<open>Properties\<close>

text \<open>C34: Opening a saved channel and saving it again without changes writes the same two settings texts,
  for every accepted form, whatever else the texts hold.\<close>

theorem form_save_reopen_save:
  assumes "num_laws (f_num_text E) (f_to_num E)" "f_to_num E (js ''0'') = Some 0" "routesReread E v"
    "channelFormIssues E v = []"
    "ch_setting ch = Some (buildSettingJSON E v)" "buildSettingsJSON E v = Some (ch_settings ch)" "ch_type ch = v_type v"
  shows "buildSettingJSON E (transformChannelToFormDefaults E ch) = buildSettingJSON E v
    \<and> buildSettingsJSON E (transformChannelToFormDefaults E ch) = Some (ch_settings ch)"
  using assms setting_stable settings_stable by blast

theorem form_save_reopen_save_witness:
  "buildSettingJSON formEnv (transformChannelToFormDefaults formEnv sampleChannel) = buildSettingJSON formEnv sampleForm
    \<and> buildSettingsJSON formEnv (transformChannelToFormDefaults formEnv sampleChannel) = Some (ch_settings sampleChannel)"
proof (rule form_save_reopen_save)
  show "num_laws (f_num_text formEnv) (f_to_num formEnv)" "f_to_num formEnv (js ''0'') = Some 0" by (rule formEnv_numbers)+
  show "channelFormIssues formEnv sampleForm = []" by (rule sample_accepted)
qed (simp_all add: routesReread_def sample_routes sampleChannel_def buildSettingsJSON_def sample_settings sampleForm_simps)

text \<open>C35: Saving an accepted form keeps what other parts of the system stored in the setting of the channel:
  the text that is written is an object in which the seven fields of the form have the values of the form and
  every other key has the value that it has in the object of the stored text.\<close>

theorem setting_keeps_foreign:
  assumes "num_laws (f_num_text E) (f_to_num E)" "channelFormIssues E v = []"
  shows "\<exists>fs. fparse E (buildSettingJSON E v) = Some (JObj fs)
    \<and> omap_get fs (js ''force_format'') = Some (or_json (v_force_format v) (JBool False))
    \<and> omap_get fs (js ''upstream_endpoint_type'') = Some (or_json (v_upstream_endpoint_type v) (JStr (js ''auto'')))
    \<and> omap_get fs (js ''thinking_to_content'') = Some (or_json (v_thinking_to_content v) (JBool False))
    \<and> omap_get fs (js ''proxy'') = Some (or_json (v_proxy v) (JStr []))
    \<and> omap_get fs (js ''pass_through_body_enabled'') = Some (or_json (v_pass_through_body_enabled v) (JBool False))
    \<and> omap_get fs (js ''system_prompt'') = Some (or_json (v_system_prompt v) (JStr []))
    \<and> omap_get fs (js ''system_prompt_override'') = Some (or_json (v_system_prompt_override v) (JBool False))
    \<and> (\<forall>k. k \<notin> js ` {''force_format'', ''upstream_endpoint_type'', ''thinking_to_content'', ''proxy'',
          ''pass_through_body_enabled'', ''system_prompt'', ''system_prompt_override''} \<longrightarrow>
        omap_get fs k = omap_get (case v_setting v of None \<Rightarrow> []
          | Some s \<Rightarrow> (case fparse E s of Some (JObj old) \<Rightarrow> old | _ \<Rightarrow> [])) k)"
proof -
  define fs where "fs = assign_all (settingObj E v) (extraSettings v)"
  define old where "old = (case v_setting v of None \<Rightarrow> [] | Some s \<Rightarrow> (case fparse E s of Some (JObj old) \<Rightarrow> old | _ \<Rightarrow> []))"
  have "settingObj E v = old" by (simp add: settingObj_stored storedObject_def old_def split: option.split)
  then have get: "omap_get fs k = (case map_of (extraSettings v) k of None \<Rightarrow> omap_get old k | Some x \<Rightarrow> Some x)" for k
    by (simp add: fs_def get_assign extraSettings_distinct)
  have "fparse E (buildSettingJSON E v) = Some (JObj fs)"
    unfolding buildSettingJSON_def fs_def using assms by (intro fprint_parse setting_text)
  then show ?thesis unfolding old_def [symmetric] by (intro exI [of _ fs]) (simp add: get extraSettings_def)
qed

theorem setting_keeps_foreign_witness:
  "\<exists>fs. fparse formEnv (buildSettingJSON formEnv sampleForm) = Some (JObj fs)
    \<and> omap_get fs (js ''import_source'') = Some (JStr (js ''cli'')) \<and> omap_get fs (js ''proxy'') = Some (JStr (js ''http://p''))"
proof -
  have "js ''import_source'' \<notin> js ` {''force_format'', ''upstream_endpoint_type'', ''thinking_to_content'', ''proxy'',
      ''pass_through_body_enabled'', ''system_prompt'', ''system_prompt_override''}" by auto
  moreover have "fparse formEnv (fprint formEnv (JObj importedSetting)) = Some (JObj importedSetting)"
    by (rule fprint_parse [OF imported_ok])
  ultimately have "\<exists>fs. fparse formEnv (buildSettingJSON formEnv sampleForm) = Some (JObj fs)
      \<and> omap_get fs (js ''import_source'') = omap_get importedSetting (js ''import_source'')
      \<and> omap_get fs (js ''proxy'') = Some (or_json (v_proxy sampleForm) (JStr []))"
    using setting_keeps_foreign [OF formEnv_numbers(1) sample_accepted] unfolding sampleForm_simps by auto
  moreover have "or_json (v_proxy sampleForm) (JStr []) = JStr (js ''http://p'')"
    by (simp add: sampleForm_def or_json_def js_simps)
  ultimately show ?thesis by (simp add: importedSetting_def omap_get_def)
qed

text \<open>C36: An accepted form can always be sent: both payloads are built, and their two settings are texts of
  JSON objects. (The texts of settings that would make the code raise are not accepted.)\<close>

theorem accepted_form_payloads:
  assumes "num_laws (f_num_text E) (f_to_num E)" "f_to_num E (js ''0'') = Some 0" "routesPrint E v"
    "channelFormIssues E v = []"
  shows "\<exists>c u t m. transformFormDataToCreatePayload E v = Some c \<and> transformFormDataToUpdatePayload E v i = Some u
    \<and> omap_get (cp_channel c) (js ''settings'') = Some (JStr t) \<and> omap_get u (js ''settings'') = Some (JStr t)
    \<and> fparse E t = Some (JObj m)"
proof -
  obtain m where m: "existingSettings E v = Inr m" "fok E (JObj m)" using settings_readable assms(1, 4) by blast
  define t where "t = fprint E (JObj (settingsObject E v m))"
  have ok: "fok E (JObj (settingsObject E v m))"
    by (intro settingsObject_ok assms m accepted_parts(1) [OF assms(4)])
  have t: "fparse E t = Some (JObj (settingsObject E v m))" "t \<noteq> []"
    using fprint_parse [OF ok] fprint_ne [OF ok] by (simp_all add: t_def)
  have b: "buildSettingsJSON E v = Some t" by (simp add: buildSettingsJSON_def m t_def)
  obtain c where c: "transformFormDataToCreatePayload E v = Some c" "omap_get (cp_channel c) (js ''settings'') = Some (JStr t)"
    using t(2) by (simp add: transformFormDataToCreatePayload_def b Let_def emptyToNull_def omap_get_def)
  obtain u where u: "transformFormDataToUpdatePayload E v i = Some u" "omap_get u (js ''settings'') = Some (JStr t)"
    using update_built [OF b t(2)] by blast
  show ?thesis using c u t(1) by blast
qed

theorem accepted_form_payloads_witness:
  "\<exists>c u t m. transformFormDataToCreatePayload formEnv sampleForm = Some c
    \<and> transformFormDataToUpdatePayload formEnv sampleForm 7 = Some u
    \<and> omap_get (cp_channel c) (js ''settings'') = Some (JStr t) \<and> omap_get u (js ''settings'') = Some (JStr t)
    \<and> fparse formEnv t = Some (JObj m)"
  by (rule accepted_form_payloads [OF formEnv_numbers _ sample_accepted]) (simp add: routesPrint_def sample_routes)

text \<open>C37: The settings of an accepted form, key by key: each of the twelve keys of channel types has the value of the
  form for the types it belongs to and is removed for all others, whatever was stored; the configuration of
  routes is there exactly for the type of advanced custom channels; the five keys of model updates are written for the types
  whose models can be fetched, and keep their stored values for the others; every other key keeps its stored
  value.\<close>

theorem settings_by_type:
  assumes "num_laws (f_num_text E) (f_to_num E)" "f_to_num E (js ''0'') = Some 0" "routesPrint E v"
    "channelFormIssues E v = []"
  shows "\<exists>t gs. buildSettingsJSON E v = Some t \<and> fparse E t = Some (JObj gs)
    \<and> (\<forall>k. omap_get gs k = writtenSetting E v (storedObject E (v_settings v)) k)
    \<and> (omap_get gs (js ''advanced_custom'') \<noteq> None \<longleftrightarrow> v_type v = 58)"
proof -
  obtain m where m: "existingSettings E v = Inr m" "fok E (JObj m)" using settings_readable assms(1, 4) by blast
  define gs where "gs = settingsObject E v m"
  have ok: "fok E (JObj gs)" unfolding gs_def by (intro settingsObject_ok assms m accepted_parts(1) [OF assms(4)])
  have route: "routesOf E v \<noteq> None" if "v_type v = 58"
    using accepted_routes [OF assms(4)] that by (auto simp: CHANNEL_TYPE_ADVANCED_CUSTOM_def)
  have "omap_get gs k = writtenSetting E v (storedObject E (v_settings v)) k" for k
    unfolding gs_def existing_stored [OF assms(4) m(1), symmetric] using route by (rule settings_written)
  moreover have "omap_get gs (js ''advanced_custom'') \<noteq> None \<longleftrightarrow> v_type v = 58"
    using route by (auto simp: gs_def settings_route split: option.split)
  moreover have "buildSettingsJSON E v = Some (fprint E (JObj gs))" by (simp add: buildSettingsJSON_def m gs_def)
  ultimately show ?thesis using fprint_parse [OF ok] by blast
qed

text \<open>A channel that was stored for Vertex AI and is now of another type, with keys of both parts and a foreign one.\<close>

definition storedSettings :: "(jsstr, json) omap" where
  "storedSettings = [(js ''vertex_key_type'', JStr (js ''json'')), (js ''region'', JStr (js ''eu'')),
     (js ''upstream_model_update_check_enabled'', JBool True)]"

definition retypedForm :: ChannelFormValues where
  "retypedForm = CHANNEL_FORM_DEFAULT_VALUES\<lparr>v_name := js ''main'', v_models := js ''gpt-4o'', v_type := 33,
     v_settings := Some (fprint formEnv (JObj storedSettings))\<rparr>"

lemma retyped_stored: "storedObject formEnv (v_settings retypedForm) = storedSettings"
proof -
  have "fok formEnv (JObj storedSettings)" by (simp add: storedSettings_def prop_order_plain literal_not_index is_digit_jsc)
  from fprint_parse [OF this] show ?thesis by (simp add: storedObject_def retypedForm_def)
qed

lemma retyped_accepted: "channelFormIssues formEnv retypedForm = []"
proof -
  have ok: "fok formEnv (JObj storedSettings)" by (simp add: storedSettings_def prop_order_plain literal_not_index is_digit_jsc)
  have "isOptionalJsonObject formEnv (v_settings retypedForm)"
    using fprint_ne [OF ok] fprint_parse [OF ok]
    by (simp add: isOptionalJsonObject_def parseOptionalJson_def isJsonObjectValue_def retypedForm_def)
  then have "fieldIssues formEnv retypedForm = []"
    by (simp add: fieldIssues_def)
      (simp add: retypedForm_def CHANNEL_FORM_DEFAULT_VALUES_def isOptionalModelMapping_def
        isOptionalStatusCodeMapping_def isOptionalJsonObject_def parseOptionalJson_def js_simps)
  moreover have "typeIssues retypedForm = []"
    by (simp add: typeIssues_def retypedForm_def CHANNEL_FORM_DEFAULT_VALUES_def optEnum_def optBoolean_def optString_def)
  moreover have "refineIssues formEnv retypedForm = []"
    by (simp add: refineIssues_def retypedForm_def CHANNEL_FORM_DEFAULT_VALUES_def CHANNEL_TYPE_ADVANCED_CUSTOM_def)
  ultimately show ?thesis by (simp add: channelFormIssues_def)
qed

theorem settings_by_type_witness:
  "\<exists>t gs. buildSettingsJSON formEnv retypedForm = Some t \<and> fparse formEnv t = Some (JObj gs)
    \<and> omap_get gs (js ''vertex_key_type'') = None \<and> omap_get gs (js ''aws_key_type'') = Some (JStr (js ''ak_sk''))
    \<and> omap_get gs (js ''region'') = Some (JStr (js ''eu''))
    \<and> omap_get gs (js ''upstream_model_update_check_enabled'') = Some (JBool True)"
proof -
  have "routesPrint formEnv retypedForm"
    by (simp add: routesPrint_def routesOf_def retypedForm_def CHANNEL_FORM_DEFAULT_VALUES_def parseAdvancedCustomConfig_def)
  from settings_by_type [OF formEnv_numbers this retyped_accepted] obtain t gs where
    "buildSettingsJSON formEnv retypedForm = Some t" "fparse formEnv t = Some (JObj gs)"
    "\<forall>k. omap_get gs k = writtenSetting formEnv retypedForm storedSettings k" unfolding retyped_stored by blast
  then show ?thesis
    by (intro exI [of _ t] exI [of _ gs])
      (simp add: writtenSetting_def typeKeys_def updateKeys_def for_types_def retypedForm_def CHANNEL_FORM_DEFAULT_VALUES_def
        storedSettings_def omap_get_def or_json_def js_simps Let_def)
qed

text \<open>An update sends a key only when one was typed, a name only when it is not blank, and the base URL and
  the two overrides only when they have a text, so that the server keeps its values; the base URL has no slash
  at its end. The optional texts that can be cleared are always sent.\<close>

theorem update_sends:
  assumes "transformFormDataToUpdatePayload E v i = Some u"
  shows "omap_get u (js ''key'') = (if trim (v_key v) = [] then None else Some (JStr (v_key v)))
    \<and> omap_get u (js ''name'') = (if trim (v_name v) = [] then None else Some (JStr (v_name v)))
    \<and> omap_get u (js ''base_url'') = (if normalizeBaseUrl (v_base_url v) = [] then None else Some (JStr (normalizeBaseUrl (v_base_url v))))
    \<and> omap_get u (js ''param_override'') = (if blank (v_param_override v) then None else map_option JStr (v_param_override v))
    \<and> omap_get u (js ''header_override'') = (if blank (v_header_override v) then None else map_option JStr (v_header_override v))
    \<and> omap_get u (js ''tag'') = Some (JStr (or_str (v_tag v) []))
    \<and> omap_get u (js ''model_mapping'') = Some (JStr (or_str (v_model_mapping v) []))
    \<and> omap_get u (js ''status_code_mapping'') = Some (JStr (or_str (v_status_code_mapping v) []))
    \<and> (normalizeBaseUrl (v_base_url v) = [] \<or> last (normalizeBaseUrl (v_base_url v)) \<noteq> 47)"
proof -
  have "normalizeBaseUrl (v_base_url v) = [] \<or> last (normalizeBaseUrl (v_base_url v)) \<noteq> 47"
    using hd_dropWhile [of "\<lambda>c. c = 47" "rev (trim (or_str (v_base_url v) []))"]
    by (auto simp: normalizeBaseUrl_def last_rev)
  moreover have "Some (JStr (or_str x [])) = map_option JStr x" if "\<not> blank x" for x
    using that by (cases x) (auto simp: blank_def or_str_def)
  moreover have "v_key v \<noteq> []" if "trim (v_key v) \<noteq> []" using that by auto
  moreover have "v_name v \<noteq> []" if "trim (v_name v) \<noteq> []" using that by auto
  moreover obtain t where "u = optionalTexts v (keyAndName v (updateFields E v i t))"
    using assms by (auto simp: transformFormDataToUpdatePayload_def)
  ultimately show ?thesis by (simp add: optionalTexts_def updateFields_def Let_def payload_gets)
qed

theorem update_sends_witness:
  "\<exists>u. transformFormDataToUpdatePayload formEnv sampleForm 7 = Some u \<and> omap_get u (js ''key'') = None
    \<and> omap_get u (js ''base_url'') = None \<and> omap_get u (js ''name'') = Some (JStr (js ''main''))"
proof -
  obtain u where u: "transformFormDataToUpdatePayload formEnv sampleForm 7 = Some u"
    by (simp add: transformFormDataToUpdatePayload_def buildSettingsJSON_def sample_settings)
  moreover have "normalizeBaseUrl (v_base_url sampleForm) = []"
    by (simp add: sampleForm_def CHANNEL_FORM_DEFAULT_VALUES_def normalizeBaseUrl_def)
  moreover have "v_name sampleForm = js ''main''" by (simp add: sampleForm_def)
  moreover have "trim (js ''main'') \<noteq> []" by (simp add: trim_Nil_iff js_simps)
  ultimately show ?thesis using update_sends [OF u] by (simp add: sampleForm_simps)
qed

end
