(* ===== verification/ChannelEditorProperties.thy ===== *)
theory ChannelEditorProperties
  imports ChannelEditor ChannelFormProperties
begin

text \<open>
  What the editor of a channel guarantees: which submissions reach the server, that a user without the
  permission sends no sensitive field, that an unchanged channel is submitted without questions, and that the
  checks of the mapping agree with each other.
\<close>

section \<open>Lists of models\<close>

lemma models_parsed:
  assumes "x \<in> set (parseModelsString s)"
  shows "x \<noteq> []" "trim x = x" "44 \<notin> set x"
proof -
  obtain y where y: "x = trim y" "x \<noteq> []" "y \<in> set (split_on 44 s)"
    using assms by (auto simp: parseModelsString_def split: if_splits)
  then show "x \<noteq> []" "trim x = x" "44 \<notin> set x" using split_on_pieces [OF y(3)] set_trim [of y] by auto
qed

lemma parse_join:
  assumes "\<And>x. x \<in> set xs \<Longrightarrow> x \<noteq> [] \<and> trim x = x \<and> 44 \<notin> set x"
  shows "parseModelsString (join [44] xs) = xs"
proof (cases "xs = []")
  case False
  have "join [44] xs \<noteq> []" using assms False by (cases xs; cases "tl xs") auto
  moreover have "split_on 44 (join [44] xs) = xs" using assms False by (intro split_on_join) auto
  moreover have "map trim xs = xs" by (rule map_idI) (use assms in blast)
  moreover have "filter (\<lambda>m. m \<noteq> []) xs = xs" using assms by (auto simp: filter_id_conv)
  ultimately show ?thesis by (simp add: parseModelsString_def)
qed (simp add: parseModelsString_def)

lemma parse_formatted:
  assumes "\<And>x. x \<in> set xs \<Longrightarrow> x \<noteq> [] \<and> trim x = x \<and> 44 \<notin> set x"
  shows "parseModelsString (formatModelsArray xs) = dedupe xs"
  unfolding formatModelsArray_def by (rule parse_join) (use assms in simp)

section \<open>The mapping of models\<close>

lemma parsedObject_Some: "parsedObject E t = Some fs \<longleftrightarrow> fparse E t = Some (JObj fs)"
  by (auto simp: parsedObject_def split: option.splits json.splits)

lemma missing_iff:
  "k \<in> set (findMissingModelsInMapping E m ms) \<longleftrightarrow>
     trim m \<noteq> [] \<and> k \<noteq> [] \<and> k \<notin> trim ` set ms \<and> (\<exists>fs. parsedObject E m = Some fs \<and> k \<in> trim ` set (omap_keys fs))"
  by (cases "parsedObject E m") (auto simp: findMissingModelsInMapping_def Let_def normalizeModelName_def)

lemma missing_Nil: "findMissingModelsInMapping E m ms = [] \<longleftrightarrow> (\<forall>k. k \<notin> set (findMissingModelsInMapping E m ms))"
  by (metis list.set_intros(1) list.exhaust emptyE empty_set)

lemma missing_trimmed: "k \<in> set (findMissingModelsInMapping E m ms) \<Longrightarrow> k \<noteq> [] \<and> trim k = k"
  by (auto simp: missing_iff)

text \<open>Adding the missing models leaves none missing, where no name has a comma.\<close>

lemma added_covers:
  assumes "list_all (\<lambda>k. 44 \<notin> set k) (findMissingModelsInMapping E m (parseModelsString s))"
  shows "findMissingModelsInMapping E m (parseModelsString
    (formatModelsArray (dedupe (parseModelsString s @ findMissingModelsInMapping E m (parseModelsString s))))) = []"
proof -
  let ?xs = "dedupe (parseModelsString s @ findMissingModelsInMapping E m (parseModelsString s))"
  have "parseModelsString (formatModelsArray ?xs) = dedupe ?xs"
  proof (rule parse_formatted)
    fix x assume "x \<in> set ?xs"
    then consider "x \<in> set (parseModelsString s)" | "x \<in> set (findMissingModelsInMapping E m (parseModelsString s))" by auto
    then show "x \<noteq> [] \<and> trim x = x \<and> 44 \<notin> set x"
      using models_parsed [of x s] missing_trimmed assms by cases (auto simp: list_all_iff)
  qed
  moreover have "k \<notin> set (findMissingModelsInMapping E m (dedupe ?xs))" for k
  proof
    assume k: "k \<in> set (findMissingModelsInMapping E m (dedupe ?xs))"
    then have new: "k \<notin> trim ` set ?xs" by (simp add: missing_iff)
    have "k \<in> set (findMissingModelsInMapping E m (parseModelsString s))"
      using k new by (simp add: missing_iff image_Un)
    then have "trim k \<in> trim ` set ?xs" by simp
    with missing_trimmed [OF k] new show False by simp
  qed
  ultimately show ?thesis by (simp add: missing_Nil)
qed

lemma validators_agree: "validateModelMappingJson E s = None \<longleftrightarrow> isOptionalModelMapping E (Some s)"
  by (auto simp: validateModelMappingJson_def isOptionalModelMapping_def parseOptionalJson_def list_ex_iff list_all_iff
      split: option.splits json.splits if_splits)

lemma changed_same: "hasModelConfigChanged ms m ms m \<longleftrightarrow> ms = [] \<and> m = []"
  by (auto simp: hasModelConfigChanged_def list_ex_iff)

text \<open>The loop over the two lists of models compares them.\<close>

lemma changed_iff:
  "hasModelConfigChanged cs m is n \<longleftrightarrow> is = [] \<and> n = [] \<or> cs \<noteq> is \<or> trim m \<noteq> trim n"
proof (cases "length cs = length is")
  case True
  then have "list_ex (\<lambda>i. cs ! i \<noteq> is ! i) [0..<length cs] \<longleftrightarrow> cs \<noteq> is"
    by (auto simp: list_ex_iff list_eq_iff_nth_eq [of cs])
  with True show ?thesis by (auto simp: hasModelConfigChanged_def)
qed (auto simp: hasModelConfigChanged_def)

section \<open>Submission\<close>

lemma onSubmit_Mutate:
  assumes "onSubmit E cx d data = Mutate sent"
  shows "isEditing cx \<or> trim (v_key data) \<noteq> []" "submitModels E cx d data = Mutate sent"
    "\<not> (sensitiveLocked cx \<and> list_ex (\<lambda>f. f \<in> set (dirtyFields cx)) SENSITIVE_FORM_FIELDS)"
  using assms by (auto simp: onSubmit_def submitStatusCodes_def Let_def split: if_splits option.splits)

lemma submitModels_cases:
  assumes "submitModels E cx d data = Mutate sent"
  defines "mapping \<equiv> or_str (v_model_mapping data) []"
  defines "missing \<equiv> findMissingModelsInMapping E mapping (parseModelsString (v_models data))"
  shows "blank (v_model_mapping data) \<and> sent = data
    \<or> validateModelMappingJson E mapping = None
      \<and> (missing = [] \<and> sent = data
         \<or> \<not> hasModelConfigChanged (parseModelsString (v_models data)) mapping (d_initialModels d) (d_initialModelMapping d) \<and> sent = data
         \<or> missingAnswer cx missing = SubmitAction \<and> sent = data
         \<or> missingAnswer cx missing = AddAction
           \<and> sent = data\<lparr>v_models := formatModelsArray (dedupe (parseModelsString (v_models data) @ missing))\<rparr>)"
  using assms(1) unfolding submitModels_def Let_def mapping_def [symmetric] missing_def [symmetric]
  by (auto split: if_splits option.splits MissingModelsAction.splits)

lemma blank_covers: "blank m \<Longrightarrow> findMissingModelsInMapping E (or_str m []) ms = []"
  by (cases m) (auto simp: blank_def findMissingModelsInMapping_def or_str_def)

lemma blank_valid: "blank m \<Longrightarrow> validateModelMappingJson E (or_str m []) = None"
  by (cases m) (auto simp: blank_def validateModelMappingJson_def or_str_def)

section \<open>The request of an update\<close>

text \<open>The fields an update can have.\<close>

lemma payload_keys:
  assumes "transformFormDataToUpdatePayload E v i = Some payload"
    and "k \<notin> js ` {''id'', ''name'', ''models'', ''group'', ''priority'', ''weight'', ''auto_ban'', ''remark'', ''test_model'',
      ''tag'', ''model_mapping'', ''status_code_mapping'', ''type'', ''key'', ''base_url'', ''openai_organization'',
      ''param_override'', ''header_override'', ''setting'', ''settings'', ''other''}"
  shows "omap_get payload k = None"
proof -
  obtain t where "payload = optionalTexts v (keyAndName v (updateFields E v i t))"
    using assms(1) by (auto simp: transformFormDataToUpdatePayload_def)
  then show ?thesis using assms(2)
    by (simp add: optionalTexts_def updateFields_def Let_def payload_gets eq_commute [of k])
qed

lemma payload_key:
  assumes "transformFormDataToUpdatePayload E v i = Some payload" "trim (v_key v) = []"
  shows "omap_get payload (js ''key'') = None"
proof -
  obtain t where "payload = optionalTexts v (keyAndName v (updateFields E v i t))"
    using assms(1) by (auto simp: transformFormDataToUpdatePayload_def)
  then show ?thesis using assms(2)
    by (simp add: optionalTexts_def updateFields_def Let_def payload_gets)
qed

lemma get_del_all:
  "omap_get (foldl (\<lambda>p f. omap_del p (js f)) m fs) k = (if k \<in> js ` set fs then None else omap_get m k)"
  by (induction fs arbitrary: m) (auto simp: omap_get_del)

section \<open>Keys\<close>

lemma keepLine_all:
  "distinct acc \<Longrightarrow> foldl keepLine acc ls = acc @ filter (\<lambda>x. x \<notin> set acc) (dedupe (filter (\<lambda>x. x \<noteq> []) (map trim ls)))"
proof (induction ls arbitrary: acc)
  case (Cons l ls)
  have "filter (\<lambda>x. x \<notin> set acc) (removeAll t xs) = filter (\<lambda>x. x \<notin> set acc \<and> x \<noteq> t) xs" for t :: jsstr and xs
    by (auto simp: removeAll_filter_not_eq conj_commute eq_commute)
  moreover have "filter (\<lambda>x. x \<notin> set acc) (removeAll t xs) = filter (\<lambda>x. x \<notin> set acc) xs" if "t \<in> set acc" for t :: jsstr and xs
    using that by (auto simp: removeAll_filter_not_eq intro: filter_cong)
  ultimately show ?case using Cons
    by (cases "trim l = []"; cases "trim l \<in> set acc") (auto simp: keepLine_def Let_def conj_commute)
qed simp

lemma deduplicate_reference:
  "deduplicatedText (deduplicateKeys t) = join [10] (dedupe (filter (\<lambda>x. x \<noteq> []) (map trim (split_on 10 t))))"
proof (cases "trim t = []")
  case True
  have "trim x = []" if "x \<in> set (split_on 10 t)" for x
    using that True split_on_pieces [OF that] by (auto simp: trim_Nil_iff list_all_iff)
  then have "filter (\<lambda>x. x \<noteq> []) (map trim (split_on 10 t)) = []" by (auto simp: filter_empty_conv)
  with True show ?thesis by (simp add: deduplicateKeys_def)
next
  case False
  then show ?thesis using keepLine_all [of "[]"] by (auto simp: deduplicateKeys_def Let_def)
qed

section \<open>A channel that is opened and submitted\<close>

lemma opened_texts [simp]:
  "v_models (transformChannelToFormDefaults E ch) = ch_models ch"
  "v_model_mapping (transformChannelToFormDefaults E ch) = Some (or_str (ch_model_mapping ch) [])"
  "v_status_code_mapping (transformChannelToFormDefaults E ch) = Some (or_str (ch_status_code_mapping ch) [])"
  by (simp_all add: transformChannelToFormDefaults_def loadTyped_def Let_def loadExtra_def split: option.split)

lemma no_new_redirects: "collectNewDisallowedStatusCodeRedirects E s s = []"
  by (simp add: collectNewDisallowedStatusCodeRedirects_def Let_def filter_empty_conv)

lemma or_str_again [simp]: "or_str (Some (or_str x [])) [] = or_str x []"
  by (cases "or_str x [] = []") simp_all

section \<open>A sample\<close>

definition sampleContext :: "bool \<Rightarrow> SubmitContext" where
  "sampleContext e = \<lparr>isEditing = e, canEditSensitive = True, dirtyFields = [], riskAnswer = (\<lambda>_. False),
     missingAnswer = (\<lambda>_. AddAction)\<rparr>"

definition sampleDrawer :: Drawer where
  "sampleDrawer = loadDrawer formEnv False False None
     \<lparr>d_form = sampleForm, d_advancedSettingsOpen = False, d_initialModels = [], d_initialModelMapping = [],
      d_initialStatusCodeMapping = []\<rparr>"

definition sampleMapping :: "(jsstr, json) omap" where
  "sampleMapping = [(js ''a'', JStr (js ''b''))]"

definition mappedForm :: ChannelFormValues where
  "mappedForm = sampleForm\<lparr>v_key := js ''k'', v_models := js ''m'',
     v_model_mapping := Some (fprint formEnv (JObj sampleMapping))\<rparr>"

lemma trim_literals: "trim (js ''a'') = js ''a''" "trim (js ''m'') = js ''m''" "trim (js ''k'') = js ''k''"
  by (simp_all add: trim_id js_simps)

lemma mapping_ok: "fok formEnv (JObj sampleMapping)"
  by (simp add: sampleMapping_def prop_order_plain literal_not_index is_digit_jsc)

lemma mapped_texts:
  "or_str (v_model_mapping mappedForm) [] = fprint formEnv (JObj sampleMapping)"
  "\<not> blank (v_model_mapping mappedForm)" "trim (fprint formEnv (JObj sampleMapping)) \<noteq> []"
  "fparse formEnv (fprint formEnv (JObj sampleMapping)) = Some (JObj sampleMapping)"
  "v_status_code_mapping mappedForm = Some []" "v_key mappedForm = js ''k''" "v_models mappedForm = js ''m''"
  using fprint_ne [OF mapping_ok] fprint_parse [OF mapping_ok]
  by (simp_all add: mappedForm_def blank_def) (simp add: sampleForm_def CHANNEL_FORM_DEFAULT_VALUES_def)

lemma mapped_missing:
  "parseModelsString (v_models mappedForm) = [js ''m'']"
  "findMissingModelsInMapping formEnv (fprint formEnv (JObj sampleMapping)) [js ''m''] = [js ''a'']"
proof -
  show "parseModelsString (v_models mappedForm) = [js ''m'']"
    using parse_join [of "[js ''m'']"] trim_literals by (simp add: mapped_texts js_simps jsc_def)
  show "findMissingModelsInMapping formEnv (fprint formEnv (JObj sampleMapping)) [js ''m''] = [js ''a'']"
    using mapped_texts(3, 4) trim_literals
    by (auto simp: findMissingModelsInMapping_def parsedObject_def sampleMapping_def normalizeModelName_def Let_def js_simps)
qed

lemma mapped_submits:
  "\<exists>sent. onSubmit formEnv (sampleContext False) sampleDrawer mappedForm = Mutate sent"
proof -
  have "validateModelMappingJson formEnv (fprint formEnv (JObj sampleMapping)) = None"
    using mapped_texts(3, 4) by (simp add: validateModelMappingJson_def sampleMapping_def)
  moreover have "trim (v_key mappedForm) \<noteq> []" using trim_literals by (simp add: mapped_texts js_simps)
  moreover have "blank (v_status_code_mapping mappedForm)" by (simp add: mapped_texts blank_def)
  ultimately show ?thesis
    by (simp add: onSubmit_def sensitiveLocked_def sampleContext_def submitStatusCodes_def submitModels_def Let_def
        mapped_texts(1, 2) mapped_missing changed_iff)
qed

section \<open>Properties\<close>

text \<open>C38: What a submission sends has a valid model mapping, and a key unless a channel is edited. Every model that
  the mapping redirects is among the models of the channel, unless the user chose to submit without it or
  neither the models nor the mapping were changed; this holds where no missing model has a comma in its name.\<close>

theorem submitted_mapping_covered:
  assumes "onSubmit E cx d data = Mutate sent"
    "list_all (\<lambda>k. 44 \<notin> set k) (findMissingModelsInMapping E (or_str (v_model_mapping data) []) (parseModelsString (v_models data)))"
  shows "validateModelMappingJson E (or_str (v_model_mapping sent) []) = None
    \<and> (isEditing cx \<or> trim (v_key sent) \<noteq> [])
    \<and> (findMissingModelsInMapping E (or_str (v_model_mapping sent) []) (parseModelsString (v_models sent)) = []
       \<or> missingAnswer cx (findMissingModelsInMapping E (or_str (v_model_mapping data) []) (parseModelsString (v_models data))) = SubmitAction
       \<or> parseModelsString (v_models data) = d_initialModels d
         \<and> trim (or_str (v_model_mapping data) []) = trim (d_initialModelMapping d))"
  using submitModels_cases [OF onSubmit_Mutate(2) [OF assms(1)]] onSubmit_Mutate(1) [OF assms(1)]
    added_covers [OF assms(2)]
  by (auto simp: blank_covers blank_valid changed_iff)

theorem submitted_mapping_covered_witness:
  "\<exists>sent. onSubmit formEnv (sampleContext False) sampleDrawer mappedForm = Mutate sent
    \<and> findMissingModelsInMapping formEnv (or_str (v_model_mapping sent) []) (parseModelsString (v_models sent)) = []"
proof -
  obtain sent where s: "onSubmit formEnv (sampleContext False) sampleDrawer mappedForm = Mutate sent"
    using mapped_submits by blast
  moreover have "list_all (\<lambda>k. 44 \<notin> set k) (findMissingModelsInMapping formEnv (or_str (v_model_mapping mappedForm) [])
      (parseModelsString (v_models mappedForm)))"
    by (simp add: mapped_texts(1) mapped_missing) (simp add: js_simps jsc_def)
  moreover have "d_initialModels sampleDrawer = []" by (simp add: sampleDrawer_def loadDrawer_def)
  ultimately show ?thesis
    using submitted_mapping_covered [OF s] by (simp add: sampleContext_def mapped_texts(1) mapped_missing)
qed

text \<open>C39: The update request of a user who may not edit sensitive settings is the payload cut down to twelve harmless
  fields: it has none of the type, the key, the base URL, the organization, the two overrides, the two settings
  and the other data, and no mode for keys. The request of a user who may is the whole payload, with the mode
  for keys of a channel with several keys when a key was typed.\<close>

theorem restricted_update_safe:
  assumes "isEditing cx" "transformFormDataToUpdatePayload E data i = Some payload"
  shows "\<exists>p. mutationRequest E cx isMulti (Some i) data = Some (UpdateChannel i p)
    \<and> (if canEditSensitive cx
       then \<forall>k. omap_get p k = (if k = js ''key_mode'' \<and> isMulti \<and> trim (v_key data) \<noteq> [] \<and> v_key_mode data \<notin> {None, Some []}
         then map_option JStr (v_key_mode data) else omap_get payload k)
       else (\<forall>k. omap_get p k = (if k \<in> js ` {''id'', ''name'', ''models'', ''group'', ''priority'', ''weight'', ''auto_ban'',
           ''remark'', ''test_model'', ''tag'', ''model_mapping'', ''status_code_mapping''} then omap_get payload k else None))
         \<and> (\<forall>f\<in>{''type'', ''key'', ''base_url'', ''openai_organization'', ''param_override'', ''header_override'',
           ''setting'', ''settings'', ''other'', ''key_mode''}. omap_get p (js f) = None))"
proof -
  let ?q = "if trim (v_key data) = [] then omap_del payload (js ''key'') else payload"
  have q: "omap_get ?q k = omap_get payload k" for k
    using payload_key [OF assms(2)] by (simp add: omap_get_del)
  show ?thesis
  proof (cases "canEditSensitive cx")
    case True
    have mode: "or_str (v_key_mode data) [] \<noteq> [] \<longleftrightarrow> v_key_mode data \<notin> {None, Some []}"
        "v_key_mode data \<notin> {None, Some []} \<Longrightarrow> Some (JStr (or_str (v_key_mode data) [])) = map_option JStr (v_key_mode data)"
      by (cases "v_key_mode data"; simp add: or_str_def)+
    show ?thesis
      using assms True mode q payload_key [OF assms(2)] by (auto simp: mutationRequest_def updateRequest_def omap_gets)
  next
    case False
    let ?p = "foldl (\<lambda>p f. omap_del p (js f)) ?q SENSITIVE_UPDATE_FIELDS"
    have request: "mutationRequest E cx isMulti (Some i) data = Some (UpdateChannel i ?p)"
      using assms False by (simp add: mutationRequest_def updateRequest_def)
    have get: "omap_get ?p k = (if k \<in> js ` {''id'', ''name'', ''models'', ''group'', ''priority'', ''weight'', ''auto_ban'',
         ''remark'', ''test_model'', ''tag'', ''model_mapping'', ''status_code_mapping''} then omap_get payload k else None)" for k
      using payload_keys [OF assms(2), of k] unfolding get_del_all q by (auto simp: SENSITIVE_UPDATE_FIELDS_def)
    show ?thesis using False by (intro exI [of _ ?p]) (simp add: request get)
  qed
qed

text \<open>A form with a key, a base URL and an override of headers, all of which the payload has.\<close>

definition restrictedForm :: ChannelFormValues where
  "restrictedForm = mappedForm\<lparr>v_base_url := Some (js ''u''), v_header_override := Some (js ''h'')\<rparr>"

theorem restricted_update_safe_witness:
  "\<exists>payload p. transformFormDataToUpdatePayload formEnv restrictedForm 7 = Some payload
    \<and> mutationRequest formEnv ((sampleContext True)\<lparr>canEditSensitive := False\<rparr>) True (Some 7) restrictedForm = Some (UpdateChannel 7 p)
    \<and> list_all (\<lambda>f. omap_get payload (js f) \<noteq> None \<and> omap_get p (js f) = None)
        [''type'', ''key'', ''base_url'', ''header_override'', ''setting'', ''settings'']
    \<and> omap_get p (js ''models'') = Some (JStr (js ''m''))"
proof -
  have "v_settings restrictedForm = Some (js ''{}'')" by (simp add: restrictedForm_def mappedForm_def sampleForm_simps)
  then obtain payload t where p: "transformFormDataToUpdatePayload formEnv restrictedForm 7 = Some payload"
      "payload = optionalTexts restrictedForm (keyAndName restrictedForm (updateFields formEnv restrictedForm 7 t))"
    by (simp add: transformFormDataToUpdatePayload_def buildSettingsJSON_def existingSettings_def Let_def)
  have form: "v_key restrictedForm = js ''k''" "v_base_url restrictedForm = Some (js ''u'')" "v_models restrictedForm = js ''m''"
      "v_header_override restrictedForm = Some (js ''h'')"
    by (simp_all add: restrictedForm_def mappedForm_def)
  have texts: "trim (js ''k'') \<noteq> []" "normalizeBaseUrl (Some (js ''u'')) \<noteq> []" "\<not> blank (Some (js ''h''))" "js ''k'' \<noteq> []" "js ''m'' \<noteq> []"
    by (simp_all add: trim_Nil_iff normalizeBaseUrl_def or_str_def trim_id blank_def js_simps)
      (simp add: jsc_def)
  have "omap_get payload (js ''models'') = Some (JStr (js ''m''))"
    "list_all (\<lambda>f. omap_get payload (js f) \<noteq> None) [''type'', ''key'', ''base_url'', ''header_override'', ''setting'', ''settings'']"
    unfolding p(2) by (simp_all add: optionalTexts_def updateFields_def Let_def payload_gets form texts)
  moreover have "isEditing ((sampleContext True)\<lparr>canEditSensitive := False\<rparr>)" by (simp add: sampleContext_def)
  ultimately show ?thesis
    using restricted_update_safe [of "(sampleContext True)\<lparr>canEditSensitive := False\<rparr>" formEnv restrictedForm 7 payload True] p(1)
    by auto
qed

text \<open>C40: A channel that is opened for editing and submitted as it is reaches the server without any question,
  whatever the answers would be, if its own mappings are valid.\<close>

theorem unchanged_form_submits:
  assumes "isEditing cx" "dirtyFields cx = []" "d = loadDrawer E pref True (Some ch) d0"
    "collectInvalidStatusCodeEntries E (or_str (ch_status_code_mapping ch) []) = []"
    "validateModelMappingJson E (or_str (ch_model_mapping ch) []) = None"
  shows "onSubmit E cx d (d_form d) = Mutate (transformChannelToFormDefaults E ch)"
proof -
  have d: "d_form d = transformChannelToFormDefaults E ch" "d_initialModels d = parseModelsString (ch_models ch)"
    "d_initialModelMapping d = or_str (ch_model_mapping ch) []"
    "d_initialStatusCodeMapping d = or_str (ch_status_code_mapping ch) []"
    by (simp_all add: assms(3) loadDrawer_def Let_def)
  have "submitStatusCodes E cx d (d_form d) = None"
    by (simp add: submitStatusCodes_def d assms(4) no_new_redirects)
  moreover have "submitModels E cx d (d_form d) = Mutate (d_form d)"
    using blank_covers [of "Some (or_str (ch_model_mapping ch) [])" E] assms(5)
    by (auto simp: submitModels_def Let_def d changed_same blank_def split: option.split)
  moreover have "\<not> list_ex (\<lambda>f. f \<in> set (dirtyFields cx)) SENSITIVE_FORM_FIELDS"
    by (simp add: assms(2) list_ex_iff)
  ultimately show ?thesis by (simp add: onSubmit_def assms(1) d(1))
qed

theorem unchanged_form_submits_witness:
  "onSubmit formEnv (sampleContext True) (loadDrawer formEnv False True (Some sampleChannel) sampleDrawer)
     (d_form (loadDrawer formEnv False True (Some sampleChannel) sampleDrawer))
   = Mutate (transformChannelToFormDefaults formEnv sampleChannel)"
proof (rule unchanged_form_submits)
  show "collectInvalidStatusCodeEntries formEnv (or_str (ch_status_code_mapping sampleChannel) []) = []"
    by (simp add: sampleChannel_def collectInvalidStatusCodeEntries_def mappingEntries_def)
  show "validateModelMappingJson formEnv (or_str (ch_model_mapping sampleChannel) []) = None"
    by (simp add: sampleChannel_def validateModelMappingJson_def)
qed (simp_all add: sampleContext_def)

text \<open>Removing duplicate keys counts blank lines as duplicates: one key followed by a line break is reported as
  one removed duplicate of two keys.\<close>

theorem blank_line_counted:
  assumes "trim k \<noteq> []" "10 \<notin> set k"
  shows "handleDeduplicateKeys (v\<lparr>v_key := k @ [10]\<rparr>) = (v\<lparr>v_key := trim k\<rparr>, RemovedKeys 1 2 1)"
proof -
  have "split_on 10 (k @ [10]) = [k, []]" using split_on_append_sep [of 10 k "[]"] assms(2) by simp
  moreover have "trim (k @ [10]) \<noteq> []" using assms(1) by (auto simp: trim_Nil_iff)
  ultimately show ?thesis
    using assms(1) by (simp add: handleDeduplicateKeys_def deduplicateKeys_def Let_def keepLine_def)
qed

theorem blank_line_counted_witness:
  "handleDeduplicateKeys (mappedForm\<lparr>v_key := js ''k'' @ [10]\<rparr>) = (mappedForm\<lparr>v_key := js ''k''\<rparr>, RemovedKeys 1 2 1)"
  using blank_line_counted [of "js ''k''" mappedForm] trim_literals by (simp add: js_simps jsc_def)

text \<open>A model whose name has a comma cannot be added: however the models are listed, it stays missing.\<close>

theorem comma_model_stays_missing:
  assumes "parsedObject E m = Some fs" "k \<in> set (omap_keys fs)" "44 \<in> set (trim k)" "trim m \<noteq> []"
  shows "trim k \<in> set (findMissingModelsInMapping E m (parseModelsString s))"
proof -
  have "trim k \<noteq> trim x" if "x \<in> set (parseModelsString s)" for x
    using models_parsed [OF that] assms(3) by auto
  with assms show ?thesis by (auto simp: missing_iff)
qed

text \<open>Connection information that was copied is recognized when it is pasted.\<close>

theorem connection_roundtrip:
  "parseChannelConnectionInfo E (encodeChannelConnectionInfo E k url) = Some \<lparr>conn_key = k, conn_url = url\<rparr>"
proof -
  let ?j = "JObj [(js ''_type'', JStr CHANNEL_CONNECTION_INFO_TYPE), (js ''key'', JStr k), (js ''url'', JStr url)]"
  have ok: "fok E ?j" by (simp add: prop_order_plain literal_not_index is_digit_jsc)
  show ?thesis using fprint_ne [OF ok] fprint_parse [OF ok]
    by (simp add: parseChannelConnectionInfo_def encodeChannelConnectionInfo_def prop_of_def omap_get_def)
qed

text \<open>The effects of the drawer on a new channel leave no issue about the mode of adding keys, and the base URL and
  the version that two of the types need are filled in.\<close>

theorem new_channel_effects:
  "FMultiKeyMode \<notin> set (refineIssues E (singleKeyMode False v))"
  "v_type v = 45 \<Longrightarrow> or_str (v_base_url (typeDefaults False v)) [] \<noteq> []"
  "v_type v = 18 \<Longrightarrow> or_str (v_other (typeDefaults False v)) [] \<noteq> []"
proof -
  show "FMultiKeyMode \<notin> set (refineIssues E (singleKeyMode False v))"
    by (auto simp: refineIssues_def issue_def singleKeyMode_def supportsMultiKeyAddMode_def batchMode_def split: if_splits option.splits)
qed (auto simp: typeDefaults_def Let_def js_simps)

end
