(* ===== verification/JS_Regex.thy ===== *)
theory JS_Regex
  imports JS_Prelude
begin

text \<open>
  Regular expressions of JavaScript with captures, for the patterns of the sources that need backtracking. A
  match is a list of outcomes in the order in which a backtracking matcher tries them; the first one is the
  result of \<open>exec\<close>. \<open>first_match\<close> describes that first outcome without the alternatives behind it.
\<close>

section \<open>Definitions\<close>

datatype rx =
    Cls "jschar \<Rightarrow> bool"
  | Lit jsstr
  | Seq rx rx
  | Alt rx rx
  | Opt rx
  | Star rx
  | Grp nat rx
  | WordB

abbreviation Plus :: "rx \<Rightarrow> rx" where
  "Plus r \<equiv> Seq r (Star r)"

text \<open>Where a match stands: the unit before the position, what is left, and the captures so far.\<close>

record rstate =
  r_prev :: "jschar option"
  r_rest :: jsstr
  r_caps :: "(nat \<times> jsstr) list"

definition is_word :: "jschar option \<Rightarrow> bool" where
  "is_word c = (case c of None \<Rightarrow> False
    | Some c \<Rightarrow> is_digit c \<or> 65 \<le> c \<and> c \<le> 90 \<or> 97 \<le> c \<and> c \<le> 122 \<or> c = 95)"

definition advance :: "nat \<Rightarrow> rstate \<Rightarrow> rstate" where
  "advance n s = s\<lparr>r_prev := (if n = 0 then r_prev s else Some (r_rest s ! (n - 1))), r_rest := drop n (r_rest s)\<rparr>"

text \<open>A greedy repetition: as many rounds as possible first; a round that consumes nothing is not repeated.\<close>

fun rstar :: "(rstate \<Rightarrow> rstate list) \<Rightarrow> nat \<Rightarrow> rstate \<Rightarrow> rstate list" where
  "rstar m 0 s = [s]"
| "rstar m (Suc n) s =
     concat (map (\<lambda>t. if length (r_rest t) < length (r_rest s) then rstar m n t else []) (m s)) @ [s]"

primrec rmatch :: "rx \<Rightarrow> rstate \<Rightarrow> rstate list" where
  "rmatch (Cls P) = (\<lambda>s. case r_rest s of c # t \<Rightarrow> if P c then [advance 1 s] else [] | [] \<Rightarrow> [])"
| "rmatch (Lit p) = (\<lambda>s. if prefix p (r_rest s) then [advance (length p) s] else [])"
| "rmatch (Seq a b) = (\<lambda>s. concat (map (rmatch b) (rmatch a s)))"
| "rmatch (Alt a b) = (\<lambda>s. rmatch a s @ rmatch b s)"
| "rmatch (Opt a) = (\<lambda>s. rmatch a s @ [s])"
| "rmatch (Star a) = (\<lambda>s. rstar (rmatch a) (length (r_rest s)) s)"
| "rmatch (Grp n a) = (\<lambda>s. map (\<lambda>t. t\<lparr>r_caps :=
     (n, take (length (r_rest s) - length (r_rest t)) (r_rest s)) # r_caps t\<rparr>) (rmatch a s))"
| "rmatch WordB = (\<lambda>s. if is_word (r_prev s) \<noteq> is_word (case r_rest s of [] \<Rightarrow> None | c # _ \<Rightarrow> Some c) then [s] else [])"

text \<open>\<open>exec\<close> searches from a position to the right; a global expression is executed until it fails. Its first
  argument bounds the number of matches.\<close>

fun rfind :: "rx \<Rightarrow> jschar option \<Rightarrow> jsstr \<Rightarrow> rstate option" where
  "rfind r p [] = (case rmatch r \<lparr>r_prev = p, r_rest = [], r_caps = []\<rparr> of t # _ \<Rightarrow> Some t | [] \<Rightarrow> None)"
| "rfind r p (c # s) = (case rmatch r \<lparr>r_prev = p, r_rest = c # s, r_caps = []\<rparr> of t # _ \<Rightarrow> Some t | [] \<Rightarrow> rfind r (Some c) s)"

fun rall :: "nat \<Rightarrow> rx \<Rightarrow> jschar option \<Rightarrow> jsstr \<Rightarrow> (nat \<times> jsstr) list list" where
  "rall 0 r p s = []"
| "rall (Suc n) r p s = (case rfind r p s of None \<Rightarrow> [] | Some t \<Rightarrow> r_caps t # rall n r (r_prev t) (r_rest t))"

definition exec_all :: "rx \<Rightarrow> jsstr \<Rightarrow> (nat \<times> jsstr) list list" where
  "exec_all r s = rall (Suc (length s)) r None s"

text \<open>A match of a whole text: \<open>^...$\<close>.\<close>

definition match_whole :: "rx \<Rightarrow> jsstr \<Rightarrow> (nat \<times> jsstr) list option" where
  "match_whole r s = (case filter (\<lambda>t. r_rest t = []) (rmatch r \<lparr>r_prev = None, r_rest = s, r_caps = []\<rparr>) of
      t # _ \<Rightarrow> Some (r_caps t) | [] \<Rightarrow> None)"

definition cap :: "(nat \<times> jsstr) list \<Rightarrow> nat \<Rightarrow> jsstr option" where
  "cap cs n = map_of cs n"

section \<open>Lemmas\<close>

subsection \<open>The first outcome\<close>

definition first_match :: "rx \<Rightarrow> rstate \<Rightarrow> rstate \<Rightarrow> bool" where
  "first_match r s t \<longleftrightarrow> (\<exists>ts. rmatch r s = t # ts)"

lemma advance_simps [simp]:
  "r_rest (advance n s) = drop n (r_rest s)" "r_caps (advance n s) = r_caps s" "advance 0 s = s"
  by (simp_all add: advance_def)

lemma advance_advance:
  assumes "m + n \<le> length (r_rest s)"
  shows "advance n (advance m s) = advance (m + n) s"
  using assms by (cases n; cases m) (simp_all add: advance_def ac_simps)

lemma first_Seq: "first_match a s u \<Longrightarrow> first_match b u t \<Longrightarrow> first_match (Seq a b) s t"
  by (auto simp: first_match_def)

lemma first_Lit: "prefix p (r_rest s) \<Longrightarrow> first_match (Lit p) s (advance (length p) s)"
  by (simp add: first_match_def)

lemma first_Opt: "first_match a s t \<Longrightarrow> first_match (Opt a) s t"
  by (auto simp: first_match_def)

lemma first_Opt_none: "rmatch a s = [] \<Longrightarrow> first_match (Opt a) s s"
  by (simp add: first_match_def)

lemma first_Alt: "first_match a s t \<Longrightarrow> first_match (Alt a b) s t"
  by (auto simp: first_match_def)

lemma first_Alt_right: "rmatch a s = [] \<Longrightarrow> first_match b s t \<Longrightarrow> first_match (Alt a b) s t"
  by (simp add: first_match_def)

lemma first_Grp:
  "first_match a s t \<Longrightarrow> first_match (Grp n a) s
     (t\<lparr>r_caps := (n, take (length (r_rest s) - length (r_rest t)) (r_rest s)) # r_caps t\<rparr>)"
  by (auto simp: first_match_def)

lemma Seq_Alt: "rmatch (Seq (Alt a b) c) s = rmatch (Seq a c) s @ rmatch (Seq b c) s"
  by simp

text \<open>A repeated class takes the longest run; where the text does not start with the class, it takes nothing.\<close>

lemma rstar_run:
  "length (r_rest s) \<le> n \<Longrightarrow>
     \<exists>ts. rstar (rmatch (Cls P)) n s = advance (length (takeWhile P (r_rest s))) s # ts"
proof (induction n arbitrary: s)
  case (Suc n)
  show ?case
  proof (cases "r_rest s")
    case (Cons c r)
    show ?thesis
    proof (cases "P c")
      case True
      have "length (r_rest (advance 1 s)) \<le> n" using Suc.prems Cons by simp
      from Suc.IH [OF this] obtain ts where
        ts: "rstar (rmatch (Cls P)) n (advance 1 s) = advance (length (takeWhile P r)) (advance 1 s) # ts"
        using Cons by auto
      moreover have "advance (length (takeWhile P r)) (advance 1 s) = advance (Suc (length (takeWhile P r))) s"
        using Cons length_takeWhile_le [of P r] by (subst advance_advance) auto
      ultimately show ?thesis using Cons True by simp
    qed (simp add: Cons)
  qed simp
qed simp

lemma first_Star: "first_match (Star (Cls P)) s (advance (length (takeWhile P (r_rest s))) s)"
  using rstar_run [of s "length (r_rest s)" P] by (simp add: first_match_def)

lemma Star_none: "(case r_rest s of [] \<Rightarrow> True | c # _ \<Rightarrow> \<not> P c) \<Longrightarrow> rmatch (Star (Cls P)) s = [s]"
  by (cases "r_rest s") simp_all

lemma Star_one: "r_rest s = c # r \<Longrightarrow> P c \<Longrightarrow> (case r of [] \<Rightarrow> True | d # _ \<Rightarrow> \<not> P d) \<Longrightarrow> rmatch (Star (Cls P)) s = [advance 1 s, s]"
  using Star_none [where s = "advance 1 s" and P = P] by (cases r) simp_all

lemma first_Plus:
  assumes "takeWhile P (r_rest s) \<noteq> []"
  shows "first_match (Plus (Cls P)) s (advance (length (takeWhile P (r_rest s))) s)"
proof -
  obtain c r where c: "r_rest s = c # r" "P c" using assms by (cases "r_rest s") (auto split: if_splits)
  then have "first_match (Cls P) s (advance 1 s)" by (simp add: first_match_def)
  moreover have "first_match (Star (Cls P)) (advance 1 s) (advance (length (takeWhile P (r_rest s))) s)"
    using first_Star [of P "advance 1 s"] c length_takeWhile_le [of P r] by (simp add: advance_advance)
  ultimately show ?thesis by (rule first_Seq)
qed

subsection \<open>Searching\<close>

lemma rfind_here:
  "first_match r \<lparr>r_prev = p, r_rest = s, r_caps = []\<rparr> t \<Longrightarrow> rfind r p s = Some t"
  by (cases s) (auto simp: first_match_def)

lemma rfind_skip:
  "rmatch r \<lparr>r_prev = p, r_rest = c # s, r_caps = []\<rparr> = [] \<Longrightarrow> rfind r p (c # s) = rfind r (Some c) s"
  by simp

subsection \<open>Matches by what is left\<close>

text \<open>From a text and captures to what is left and the captures then; no match at a text.\<close>

definition fm :: "rx \<Rightarrow> jsstr \<Rightarrow> (nat \<times> jsstr) list \<Rightarrow> jsstr \<Rightarrow> (nat \<times> jsstr) list \<Rightarrow> bool" where
  "fm r X C Y D \<longleftrightarrow> (\<forall>s :: rstate. r_rest s = X \<and> r_caps s = C \<longrightarrow> (\<exists>t. first_match r s t \<and> r_rest t = Y \<and> r_caps t = D))"

definition nm :: "rx \<Rightarrow> jsstr \<Rightarrow> bool" where
  "nm r X \<longleftrightarrow> (\<forall>s :: rstate. r_rest s = X \<longrightarrow> rmatch r s = [])"

definition breaks :: "(jschar \<Rightarrow> bool) \<Rightarrow> jsstr \<Rightarrow> bool" where
  "breaks P Y = (case Y of [] \<Rightarrow> True | c # _ \<Rightarrow> \<not> P c)"

lemma breaks_simps [simp]: "breaks P []" "breaks P (c # Y) \<longleftrightarrow> \<not> P c"
  by (simp_all add: breaks_def)

lemma breaks_append: "X \<noteq> [] \<Longrightarrow> breaks P (X @ Y) \<longleftrightarrow> \<not> P (hd X)"
  by (cases X) simp_all

lemma takeWhile_breaks: "list_all P W \<Longrightarrow> breaks P Y \<Longrightarrow> takeWhile P (W @ Y) = W"
  by (induction W) (auto simp: breaks_def split: list.splits)

lemma fm_Seq: "fm a X C Y D \<Longrightarrow> fm b Y D Z F \<Longrightarrow> fm (Seq a b) X C Z F"
  unfolding fm_def using first_Seq by blast

lemma fm_Lit: "fm (Lit p) (p @ Y) C Y C"
  by (auto simp: fm_def first_match_def)

lemma fm_Star_run: "list_all P W \<Longrightarrow> breaks P Y \<Longrightarrow> fm (Star (Cls P)) (W @ Y) C Y C"
  unfolding fm_def by (metis advance_simps(1, 2) append_eq_conv_conj first_Star takeWhile_breaks)

lemma fm_Plus_run: "W \<noteq> [] \<Longrightarrow> list_all P W \<Longrightarrow> breaks P Y \<Longrightarrow> fm (Plus (Cls P)) (W @ Y) C Y C"
  unfolding fm_def by (metis advance_simps(1, 2) append_eq_conv_conj first_Plus takeWhile_breaks)

lemma fm_Grp: "fm a (W @ Y) C Y D \<Longrightarrow> fm (Grp n a) (W @ Y) C Y ((n, W) # D)"
  unfolding fm_def
proof (intro allI impI)
  fix s :: rstate assume "\<forall>s :: rstate. r_rest s = W @ Y \<and> r_caps s = C \<longrightarrow> (\<exists>t. first_match a s t \<and> r_rest t = Y \<and> r_caps t = D)"
    and s: "r_rest s = W @ Y \<and> r_caps s = C"
  then obtain t where t: "first_match a s t" "r_rest t = Y" "r_caps t = D" by blast
  show "\<exists>t. first_match (Grp n a) s t \<and> r_rest t = Y \<and> r_caps t = (n, W) # D"
    using first_Grp [OF t(1), of n] s t by (intro exI [of _ "t\<lparr>r_caps := (n, W) # r_caps t\<rparr>"]) simp
qed

lemma fm_Opt: "fm a X C Y D \<Longrightarrow> fm (Opt a) X C Y D"
  unfolding fm_def using first_Opt by blast

lemma fm_Opt_none: "nm a X \<Longrightarrow> fm (Opt a) X C X C"
  unfolding fm_def nm_def using first_Opt_none by blast

lemma fm_Alt: "fm a X C Y D \<Longrightarrow> fm (Alt a b) X C Y D"
  unfolding fm_def using first_Alt by blast

lemma fm_Alt_right: "nm a X \<Longrightarrow> fm b X C Y D \<Longrightarrow> fm (Alt a b) X C Y D"
  unfolding fm_def nm_def using first_Alt_right by blast

text \<open>An alternative whose first branch leads to no match of what follows.\<close>

lemma fm_rmatch: "(\<And>s :: rstate. rmatch r s = rmatch r' s) \<Longrightarrow> fm r' X C Y D \<Longrightarrow> fm r X C Y D"
  by (simp add: fm_def first_match_def)

lemma fm_Seq_Alt: "fm (Seq a c) X C Y D \<Longrightarrow> fm (Seq (Alt a b) c) X C Y D"
  by (rule fm_rmatch [of _ "Alt (Seq a c) (Seq b c)"]) (simp_all add: fm_Alt)

lemma fm_Seq_Alt_right: "nm (Seq a c) X \<Longrightarrow> fm (Seq b c) X C Y D \<Longrightarrow> fm (Seq (Alt a b) c) X C Y D"
  by (rule fm_rmatch [of _ "Alt (Seq a c) (Seq b c)"]) (simp_all add: fm_Alt_right)

lemma fm_Grp_Alt: "fm (Seq (Grp n a) c) X C Y D \<Longrightarrow> fm (Seq (Grp n (Alt a b)) c) X C Y D"
  by (rule fm_rmatch [of _ "Alt (Seq (Grp n a) c) (Seq (Grp n b) c)"]) (simp_all add: fm_Alt)

lemma fm_Grp_Alt_right: "nm (Seq (Grp n a) c) X \<Longrightarrow> fm (Seq (Grp n b) c) X C Y D \<Longrightarrow> fm (Seq (Grp n (Alt a b)) c) X C Y D"
  by (rule fm_rmatch [of _ "Alt (Seq (Grp n a) c) (Seq (Grp n b) c)"]) (simp_all add: fm_Alt_right)

text \<open>No match.\<close>

lemma nm_Lit: "\<not> prefix p X \<Longrightarrow> nm (Lit p) X"
  by (simp add: nm_def)

lemma nm_Seq: "nm a X \<Longrightarrow> nm (Seq a b) X"
  by (simp add: nm_def)

lemma nm_Seq_Lit: "nm b Y \<Longrightarrow> nm (Seq (Lit p) b) (p @ Y)"
  by (simp add: nm_def)

lemma nm_Seq_Lit':
  assumes that: "\<And>Y. X = p @ Y \<Longrightarrow> nm b Y"
  shows "nm (Seq (Lit p) b) X"
proof (cases "prefix p X")
  case True
  then obtain Y where "X = p @ Y" by (auto simp: prefix_def)
  then show ?thesis using that nm_Seq_Lit by auto
next
  case False
  then show ?thesis by (rule nm_Seq [OF nm_Lit])
qed

lemma nm_Alt: "nm a X \<Longrightarrow> nm b X \<Longrightarrow> nm (Alt a b) X"
  by (simp add: nm_def)

lemma nm_Grp: "nm a X \<Longrightarrow> nm (Grp n a) X"
  by (simp add: nm_def)

lemma nm_Seq_Grp: "nm b Y \<Longrightarrow> nm (Seq (Grp n (Lit p)) b) (p @ Y)"
  by (simp add: nm_def)

lemma nm_Plus: "breaks P X \<Longrightarrow> nm (Plus (Cls P)) X"
  by (auto simp: nm_def breaks_def split: list.splits)

lemma nm_Seq_Star: "breaks P Y \<Longrightarrow> nm b Y \<Longrightarrow> nm (Seq (Star (Cls P)) b) Y"
  unfolding nm_def by (auto simp: breaks_def Star_none simp del: rmatch.simps(6))

lemma nm_Seq_Star1: "P c \<Longrightarrow> breaks P Y \<Longrightarrow> nm b Y \<Longrightarrow> nm b (c # Y) \<Longrightarrow> nm (Seq (Star (Cls P)) b) (c # Y)"
  unfolding nm_def by (auto simp: breaks_def Star_one simp del: rmatch.simps(6))

text \<open>A repeated expression.\<close>

lemma rstar_fuel:
  "length (r_rest s) \<le> n \<Longrightarrow> length (r_rest s) \<le> k \<Longrightarrow> rstar m n s = rstar m k s"
proof (induction n arbitrary: s k)
  case (Suc n)
  show ?case
  proof (cases k)
    case 0
    then show ?thesis using Suc.prems by auto
  next
    case (Suc k')
    have "rstar m n t = rstar m k' t" if "length (r_rest t) < length (r_rest s)" for t
      using that Suc.IH [of t k'] Suc.prems \<open>k = Suc k'\<close> by simp
    then show ?thesis unfolding Suc by (auto intro!: arg_cong [where f = concat])
  qed
next
  case 0
  then show ?case by (cases k) auto
qed

lemma fm_Star_stop:
  assumes "nm a X"
  shows "fm (Star a) X C X C"
  unfolding fm_def
proof (intro allI impI)
  fix s :: rstate assume s: "r_rest s = X \<and> r_caps s = C"
  with assms have "rmatch a s = []" by (simp add: nm_def)
  then have "rmatch (Star a) s = [s]" by (cases "length (r_rest s)") simp_all
  with s show "\<exists>t. first_match (Star a) s t \<and> r_rest t = X \<and> r_caps t = C" by (auto simp: first_match_def)
qed

lemma fm_Star_step:
  assumes "fm a X C Y D" "length Y < length X" "fm (Star a) Y D Z F"
  shows "fm (Star a) X C Z F"
  unfolding fm_def
proof (intro allI impI)
  fix s :: rstate assume s: "r_rest s = X \<and> r_caps s = C"
  obtain u us where u: "rmatch a s = u # us" "r_rest u = Y" "r_caps u = D"
    using assms(1) s by (auto simp: fm_def first_match_def)
  obtain t ts where t: "rstar (rmatch a) (length Y) u = t # ts" "r_rest t = Z" "r_caps t = F"
    using assms(3) u by (auto simp: fm_def first_match_def)
  obtain n where n: "length X = Suc n" using assms(2) by (cases "length X") auto
  have "rstar (rmatch a) n u = t # ts" using rstar_fuel [of u n "length Y" "rmatch a"] t u n assms(2) by simp
  then have "rmatch (Star a) s = t # (ts @ concat (map (\<lambda>t. if length (r_rest t) < length (r_rest s) then rstar (rmatch a) n t else []) us) @ [s])"
    using s n u assms(2) by simp
  then show "\<exists>t. first_match (Star a) s t \<and> r_rest t = Z \<and> r_caps t = F"
    using t by (auto simp: first_match_def)
qed

subsection \<open>A match consumes a prefix; what it needs is in the text\<close>

lemma rstar_suffix:
  assumes "\<And>s t. t \<in> set (m s) \<Longrightarrow> suffix (r_rest t) (r_rest s)"
  shows "t \<in> set (rstar m n s) \<Longrightarrow> suffix (r_rest t) (r_rest s)"
proof (induction n arbitrary: s)
  case (Suc n)
  then show ?case using assms suffix_order.trans by (fastforce split: if_splits)
qed simp

lemma rmatch_suffix: "t \<in> set (rmatch r s) \<Longrightarrow> suffix (r_rest t) (r_rest s)"
proof (induction r arbitrary: s t)
  case (Seq a b)
  then show ?case by (fastforce intro: suffix_order.trans)
next
  case (Star a)
  then show ?case using rstar_suffix [of "rmatch a"] by auto
qed (auto simp: suffix_drop split: list.splits if_splits)

primrec needs :: "jschar \<Rightarrow> rx \<Rightarrow> bool" where
  "needs c (Cls P) = False"
| "needs c (Lit p) = (c \<in> set p)"
| "needs c (Seq a b) = (needs c a \<or> needs c b)"
| "needs c (Alt a b) = (needs c a \<and> needs c b)"
| "needs c (Opt a) = False"
| "needs c (Star a) = False"
| "needs c (Grp n a) = needs c a"
| "needs c WordB = False"

lemma needs_unit: "needs c r \<Longrightarrow> t \<in> set (rmatch r s) \<Longrightarrow> c \<in> set (r_rest s)"
proof (induction r arbitrary: s t)
  case (Lit p)
  then show ?case by (auto simp: prefix_def split: if_splits)
next
  case (Seq a b)
  then obtain u where u: "u \<in> set (rmatch a s)" "t \<in> set (rmatch b u)" by auto
  show ?case
  proof (cases "needs c a")
    case False
    then have "c \<in> set (r_rest u)" using Seq u by auto
    then show ?thesis using rmatch_suffix [OF u(1)] set_mono_suffix by blast
  qed (use Seq u in auto)
qed auto

lemma needs_none:
  assumes "needs c r" "c \<notin> set (r_rest s)"
  shows "rmatch r s = []"
proof (cases "rmatch r s")
  case (Cons t ts)
  then have "c \<in> set (r_rest s)" using needs_unit [OF assms(1), of t s] by simp
  with assms(2) show ?thesis by simp
qed

lemma rfind_None:
  assumes "needs c r"
  shows "c \<notin> set s \<Longrightarrow> rfind r p s = None"
  by (induction s arbitrary: p) (simp_all add: needs_none [OF assms] del: rmatch.simps)

lemma rfind_fm:
  assumes "fm r X [] Y D"
  obtains t where "rfind r p X = Some t" "r_rest t = Y" "r_caps t = D"
proof -
  have "\<exists>t. first_match r \<lparr>r_prev = p, r_rest = X, r_caps = []\<rparr> t \<and> r_rest t = Y \<and> r_caps t = D"
    using assms unfolding fm_def by (elim allE [of _ "\<lparr>r_prev = p, r_rest = X, r_caps = []\<rparr>"]) simp
  then show thesis using rfind_here that by blast
qed

lemma rfind_nm: "nm r (c # s) \<Longrightarrow> rfind r p (c # s) = rfind r (Some c) s"
  by (simp add: nm_def)

lemma match_whole_fm: "fm r X [] [] D \<Longrightarrow> match_whole r X = Some D"
  by (auto simp: fm_def first_match_def match_whole_def dest!: spec [of _ "\<lparr>r_prev = None, r_rest = X, r_caps = []\<rparr>"])

lemma match_whole_nm: "nm r X \<Longrightarrow> match_whole r X = None"
  by (simp add: nm_def match_whole_def)

end
