(* ===== verification/TierExpr.thy ===== *)
theory TierExpr
  imports JS_Regex
begin

text \<open>
  Tiered prices (\<open>features/pricing/lib/tier-expr.ts\<close> and the tier parser of \<open>billing-expr.ts\<close>): the visual
  configuration of a price, the expression that is generated from it, and the two parsers that read an
  expression back. \<open>num_text\<close> is \<open>String(n)\<close> and \<open>to_num\<close> is \<open>Number(s)\<close>, \<open>None\<close> for \<open>NaN\<close>.
\<close>

section \<open>Definitions\<close>

subsection \<open>Variables\<close>

datatype ExtraVar = CacheRead | CacheCreate | CacheCreate1h | ImageIn | ImageOut | AudioIn | AudioOut

datatype CondVar = VarP | VarC | VarLen

datatype CondOp = OpLt | OpLe | OpGt | OpGe

fun extraKey :: "ExtraVar \<Rightarrow> jsstr" where
  "extraKey CacheRead = js ''cr''"
| "extraKey CacheCreate = js ''cc''"
| "extraKey CacheCreate1h = js ''cc1h''"
| "extraKey ImageIn = js ''img''"
| "extraKey ImageOut = js ''img_o''"
| "extraKey AudioIn = js ''ai''"
| "extraKey AudioOut = js ''ao''"

text \<open>\<open>BILLING_CACHE_VAR_MAP\<close>: the variables with a price of their own, in the order of the registry.\<close>

definition BILLING_CACHE_VAR_MAP :: "ExtraVar list" where
  "BILLING_CACHE_VAR_MAP = [CacheRead, CacheCreate, CacheCreate1h, ImageIn, ImageOut, AudioIn, AudioOut]"

fun condVarKey :: "CondVar \<Rightarrow> jsstr" where
  "condVarKey VarP = js ''p''"
| "condVarKey VarC = js ''c''"
| "condVarKey VarLen = js ''len''"

fun condOpText :: "CondOp \<Rightarrow> jsstr" where
  "condOpText OpLt = js ''<''"
| "condOpText OpLe = js ''<=''"
| "condOpText OpGt = js ''>''"
| "condOpText OpGe = js ''>=''"

subsection \<open>The visual configuration\<close>

text \<open>The values of tier_conditions and of the two base prices may be \<open>NaN\<close>, here \<open>None\<close>. (The editor stores
  numbers only; the type of the source also allows texts.)\<close>

record TierConditionInput =
  cond_var :: CondVar
  cond_op :: CondOp
  cond_value :: "jsnum option"

datatype CacheMode = CACHE_MODE_TIMED | CACHE_MODE_GENERIC

text \<open>\<open>unit_cost\<close> holds the seven prices of the variables in \<open>BILLING_CACHE_VAR_MAP\<close>.\<close>

record VisualTier =
  label :: jsstr
  tier_conditions :: "TierConditionInput list"
  input_unit_cost :: "jsnum option"
  output_unit_cost :: "jsnum option"
  cache_mode :: CacheMode
  unit_cost :: "ExtraVar \<Rightarrow> jsnum"

type_synonym VisualConfig = "VisualTier list"

text \<open>\<open>Partial<VisualTier>\<close>: a property may be missing.\<close>

record PartialTier =
  pt_label :: "jsstr option"
  pt_conditions :: "TierConditionInput list option"
  pt_input :: "jsnum option option"
  pt_output :: "jsnum option option"
  pt_cache_mode :: "CacheMode option"
  pt_cost :: "ExtraVar \<Rightarrow> jsnum option"

definition fullTier :: "VisualTier \<Rightarrow> PartialTier" where
  "fullTier t = \<lparr>pt_label = Some (label t), pt_conditions = Some (tier_conditions t), pt_input = Some (input_unit_cost t),
     pt_output = Some (output_unit_cost t), pt_cache_mode = Some (cache_mode t), pt_cost = (\<lambda>v. Some (unit_cost t v))\<rparr>"

definition getTierCacheMode :: "PartialTier \<Rightarrow> CacheMode" where
  "getTierCacheMode t = (case pt_cache_mode t of
      Some m \<Rightarrow> m
    | None \<Rightarrow> if nullish (pt_cost t CacheCreate1h) 0 > 0 then CACHE_MODE_TIMED else CACHE_MODE_GENERIC)"

definition normalizeVisualTier :: "PartialTier \<Rightarrow> VisualTier" where
  "normalizeVisualTier t =
     \<lparr>label = nullish (pt_label t) [], tier_conditions = nullish (pt_conditions t) [],
      input_unit_cost = nullish (pt_input t) (Some 0), output_unit_cost = nullish (pt_output t) (Some 0),
      cache_mode = getTierCacheMode t, unit_cost = (\<lambda>v. nullish (pt_cost t v) 0)\<rparr>"

definition createDefaultVisualConfig :: VisualConfig where
  "createDefaultVisualConfig = [normalizeVisualTier \<lparr>pt_label = Some (js ''base''), pt_conditions = Some [],
     pt_input = Some (Some 0), pt_output = Some (Some 0), pt_cache_mode = Some CACHE_MODE_GENERIC, pt_cost = (\<lambda>_. None)\<rparr>]"

definition normalizeVisualConfig :: "VisualConfig option \<Rightarrow> VisualConfig" where
  "normalizeVisualConfig cfg = (case cfg of
      None \<Rightarrow> createDefaultVisualConfig
    | Some ts \<Rightarrow> if ts = [] then createDefaultVisualConfig else map (\<lambda>t. normalizeVisualTier (fullTier t)) ts)"

subsection \<open>Generating the expression\<close>

definition numberText :: "(jsnum \<Rightarrow> jsstr) \<Rightarrow> jsnum option \<Rightarrow> jsstr" where
  "numberText num_text x = (case x of Some n \<Rightarrow> num_text n | None \<Rightarrow> js ''NaN'')"

definition conditionText :: "(jsnum \<Rightarrow> jsstr) \<Rightarrow> TierConditionInput \<Rightarrow> jsstr" where
  "conditionText num_text c =
     condVarKey (cond_var c) @ js '' '' @ condOpText (cond_op c) @ js '' '' @ numberText num_text (cond_value c)"

definition buildConditionStr :: "(jsnum \<Rightarrow> jsstr) \<Rightarrow> TierConditionInput list \<Rightarrow> jsstr" where
  "buildConditionStr num_text cs = join (js '' && '') (map (conditionText num_text) cs)"

definition extraPart :: "(jsnum \<Rightarrow> jsstr) \<Rightarrow> VisualTier \<Rightarrow> ExtraVar \<Rightarrow> jsstr" where
  "extraPart num_text t v = extraKey v @ js '' * '' @ num_text (unit_cost t v)"

definition buildTierBodyExpr :: "(jsnum \<Rightarrow> jsstr) \<Rightarrow> VisualTier \<Rightarrow> jsstr" where
  "buildTierBodyExpr num_text t = join (js '' + '')
     ([js ''p * '' @ num_text (nullish (input_unit_cost t) 0), js ''c * '' @ num_text (nullish (output_unit_cost t) 0)]
      @ map (extraPart num_text t) (filter (\<lambda>v. unit_cost t v \<noteq> 0) BILLING_CACHE_VAR_MAP))"

definition tierText :: "(jsnum \<Rightarrow> jsstr) \<Rightarrow> jsstr \<Rightarrow> VisualTier \<Rightarrow> jsstr" where
  "tierText num_text dflt t =
     js ''tier('' @ [34] @ (if label t = [] then dflt else label t) @ [34] @ js '', '' @ buildTierBodyExpr num_text t @ js '')''"

definition tierPart :: "(jsnum \<Rightarrow> jsstr) \<Rightarrow> nat \<Rightarrow> nat \<Rightarrow> VisualTier \<Rightarrow> jsstr" where
  "tierPart num_text n i t =
     (let body = tierText num_text (js ''tier_'' @ show_nat (i + 1)) t; cond = buildConditionStr num_text (tier_conditions t)
      in if i < n - 1 \<and> cond \<noteq> [] then cond @ js '' ? '' @ body else body)"

definition generateExprFromVisualConfig :: "(jsnum \<Rightarrow> jsstr) \<Rightarrow> VisualConfig option \<Rightarrow> jsstr" where
  "generateExprFromVisualConfig num_text cfg = (case cfg of
      None \<Rightarrow> js ''p * 0 + c * 0''
    | Some [] \<Rightarrow> js ''p * 0 + c * 0''
    | Some [t] \<Rightarrow>
        let body = tierText num_text (js ''default'') t; cond = buildConditionStr num_text (tier_conditions t)
        in if cond \<noteq> [] then cond @ js '' ? '' @ body @ js '' : p * 0 + c * 0'' else body
    | Some ts \<Rightarrow> join (js '' : '') (map (\<lambda>(i, t). tierPart num_text (length ts) i t) (enumerate 0 ts)))"

subsection \<open>Patterns\<close>

definition wsR :: rx where
  "wsR = Star (Cls is_ws)"

text \<open>\<open>[\d.eE+-]\<close> and \<open>[\d.eE+]\<close>.\<close>

definition priceChar :: "jschar \<Rightarrow> bool" where
  "priceChar c \<longleftrightarrow> is_digit c \<or> c = 46 \<or> c = 101 \<or> c = 69 \<or> c = 43 \<or> c = 45"

definition limitChar :: "jschar \<Rightarrow> bool" where
  "limitChar c \<longleftrightarrow> is_digit c \<or> c = 46 \<or> c = 101 \<or> c = 69 \<or> c = 43"

text \<open>\<open>v\s*\*\s*([\d.eE+-]+)\<close> and, for the variables that may be missing, \<open>(?:\s*\+\s*...)?\<close>.\<close>

definition priceR :: "nat \<Rightarrow> jsstr \<Rightarrow> rx" where
  "priceR n v = Seq (Lit v) (Seq wsR (Seq (Lit (js ''*'')) (Seq wsR (Grp n (Plus (Cls priceChar))))))"

definition plusR :: "rx \<Rightarrow> rx" where
  "plusR r = Seq wsR (Seq (Lit (js ''+'')) (Seq wsR r))"

text \<open>\<open>bodyPat\<close>; its groups start at the given number.\<close>

fun optCache :: "nat \<Rightarrow> ExtraVar list \<Rightarrow> rx \<Rightarrow> rx" where
  "optCache n [] r = r"
| "optCache n (v # vs) r = Seq (Opt (plusR (priceR n (extraKey v)))) (optCache (n + 1) vs r)"

definition bodyR :: "nat \<Rightarrow> rx \<Rightarrow> rx" where
  "bodyR n r = Seq (priceR n (js ''p'')) (Seq (plusR (priceR (n + 1) (js ''c''))) (optCache (n + 2) BILLING_CACHE_VAR_MAP r))"

definition labelR :: "nat \<Rightarrow> rx \<Rightarrow> rx" where
  "labelR n r = Seq (Lit (js ''tier('' @ [34])) (Seq (Grp n (Star (Cls (\<lambda>c. c \<noteq> 34)))) (Seq (Lit ([34] @ js '','')) (Seq wsR r)))"

definition condVarR :: rx where
  "condVarR = Alt (Lit (js ''p'')) (Alt (Lit (js ''c'')) (Lit (js ''len'')))"

definition condOpR :: rx where
  "condOpR = Alt (Lit (js ''<'')) (Alt (Lit (js ''<='')) (Alt (Lit (js ''>'')) (Lit (js ''>=''))))"

definition conditionR :: rx where
  "conditionR = Seq condVarR (Seq wsR (Seq condOpR (Seq wsR (Plus (Cls limitChar)))))"

definition condGroupR :: rx where
  "condGroupR = Grp 1 (Seq conditionR (Star (Seq wsR (Seq (Lit (js ''&&'')) (Seq wsR conditionR)))))"

definition guardR :: rx where
  "guardR = Opt (Seq condGroupR (Seq wsR (Seq (Lit (js ''?'')) wsR)))"

definition singleRe :: rx where
  "singleRe = labelR 1 (bodyR 2 (Lit (js '')'')))"

definition tierRe :: rx where
  "tierRe = Seq guardR (labelR 2 (bodyR 3 (Lit (js '')''))))"

text \<open>\<open>^(p|c|len)\s*(<|<=|>|>=)\s*([\d.eE+]+)$\<close>.\<close>

definition conditionRe :: rx where
  "conditionRe = Seq (Grp 1 condVarR) (Seq wsR (Seq (Grp 2 condOpR) (Seq wsR (Grp 3 (Plus (Cls limitChar))))))"

subsection \<open>Reading the expression\<close>

text \<open>\<open>/^v\d+:([\s\S]*)$/\<close>.\<close>

definition stripVersion :: "jsstr \<Rightarrow> jsstr" where
  "stripVersion s = (case s of
      c # r \<Rightarrow> if c = 118 \<and> takeWhile is_digit r \<noteq> [] \<and> prefix (js '':'') (dropWhile is_digit r)
                then tl (dropWhile is_digit r) else s
    | [] \<Rightarrow> s)"

text \<open>\<open>split(/\s*&&\s*/)\<close>, with the pieces trimmed as the code does next.\<close>

fun splitAnd :: "jsstr \<Rightarrow> jsstr list" where
  "splitAnd [] = [[]]"
| "splitAnd [c] = [[c]]"
| "splitAnd (c # d # s) =
     (if c = 38 \<and> d = 38 then [] # splitAnd s
      else (case splitAnd (d # s) of [] \<Rightarrow> [[c]] | y # ys \<Rightarrow> (c # y) # ys))"

definition condVarOf :: "jsstr option \<Rightarrow> CondVar" where
  "condVarOf s = (if s = Some (js ''p'') then VarP else if s = Some (js ''c'') then VarC else VarLen)"

definition condOpOf :: "jsstr option \<Rightarrow> CondOp" where
  "condOpOf s = (if s = Some (js ''<'') then OpLt else if s = Some (js ''<='') then OpLe
     else if s = Some (js ''>'') then OpGt else OpGe)"

definition parseCondition :: "(jsstr \<Rightarrow> jsnum option) \<Rightarrow> jsstr \<Rightarrow> TierConditionInput option" where
  "parseCondition to_num cp = map_option
     (\<lambda>cm. \<lparr>cond_var = condVarOf (cap cm 1), cond_op = condOpOf (cap cm 2), cond_value = Option.bind (cap cm 3) to_num\<rparr>)
     (match_whole conditionRe (trim cp))"

definition parseConditions :: "(jsstr \<Rightarrow> jsnum option) \<Rightarrow> jsstr option \<Rightarrow> TierConditionInput list" where
  "parseConditions to_num condStr = (case condStr of
      None \<Rightarrow> []
    | Some s \<Rightarrow> if s = [] then [] else List.map_filter (parseCondition to_num) (splitAnd s))"

text \<open>The tier of a match whose label has the given number; the prices follow it.\<close>

definition matchedTier :: "(jsstr \<Rightarrow> jsnum option) \<Rightarrow> nat \<Rightarrow> TierConditionInput list \<Rightarrow> (nat \<times> jsstr) list \<Rightarrow> VisualTier" where
  "matchedTier to_num n cs m = normalizeVisualTier
     \<lparr>pt_label = cap m n, pt_conditions = Some cs, pt_input = Some (Option.bind (cap m (n + 1)) to_num),
      pt_output = Some (Option.bind (cap m (n + 2)) to_num), pt_cache_mode = None,
      pt_cost = (\<lambda>v. case map_of (zip BILLING_CACHE_VAR_MAP [n + 3..<n + 10]) v of
         Some k \<Rightarrow> Option.bind (cap m k) to_num | None \<Rightarrow> None)\<rparr>"

definition tryParseVisualConfig ::
  "(jsnum \<Rightarrow> jsstr) \<Rightarrow> (jsstr \<Rightarrow> jsnum option) \<Rightarrow> jsstr \<Rightarrow> VisualConfig option" where
  "tryParseVisualConfig num_text to_num exprStr =
     (if exprStr = [] then None else
        let body = stripVersion exprStr in
        case match_whole singleRe body of
          Some simple \<Rightarrow> Some (normalizeVisualConfig (Some [matchedTier to_num 1 [] simple]))
        | None \<Rightarrow>
            let tiers = map (\<lambda>m. matchedTier to_num 2 (parseConditions to_num (cap m 1)) m) (exec_all tierRe body) in
            if tiers = [] then None else
              let cfg = normalizeVisualConfig (Some tiers);
                  regenerated = generateExprFromVisualConfig num_text (Some cfg)
              in if filter (\<lambda>c. \<not> is_ws c) regenerated \<noteq> filter (\<lambda>c. \<not> is_ws c) body then None else Some cfg)"

end
