(* ===== verification/TierEditor.thy ===== *)
theory TierEditor
  imports TierExpr BillingRules
begin

text \<open>
  The price editor (\<open>features/system-settings/models/tiered-pricing-editor.tsx\<close>): the cards of tiers and rule
  groups, and the component \<open>TieredPricingEditor\<close> with its state, its effects and its handlers. The two texts
  that the editor receives and sends back (\<open>billingExpr\<close>, \<open>requestRuleExpr\<close>) belong to the sheet around it, whose
  setters are the callbacks; they are fields of the state here.
\<close>

section \<open>Definitions\<close>

subsection \<open>Number inputs\<close>

text \<open>\<open>num_text\<close> is \<open>String(n)\<close>; \<open>to_num\<close> is \<open>Number(s)\<close>, with \<open>None\<close> for a value that is not finite.\<close>

definition parseNumberDraft :: "(jsstr \<Rightarrow> jsnum option) \<Rightarrow> jsstr \<Rightarrow> jsnum" where
  "parseNumberDraft to_num v = (if trim v = [] then 0 else nullish (to_num v) 0)"

definition formatNumberDraft :: "(jsnum \<Rightarrow> jsstr) \<Rightarrow> jsnum option \<Rightarrow> jsstr" where
  "formatNumberDraft num_text v = (case v of Some n \<Rightarrow> num_text n | None \<Rightarrow> js ''0'')"

definition isZeroDraft :: "(jsstr \<Rightarrow> jsnum option) \<Rightarrow> jsstr \<Rightarrow> bool" where
  "isZeroDraft to_num v \<longleftrightarrow> trim v \<noteq> [] \<and> parseNumberDraft to_num v = 0"

text \<open>An input with the value that its owner stores.\<close>

record DraftInput =
  draft :: jsstr
  focused :: bool
  stored :: "jsnum option"

definition draftEffect :: "(jsnum \<Rightarrow> jsstr) \<Rightarrow> DraftInput \<Rightarrow> DraftInput" where
  "draftEffect num_text d = (if \<not> focused d then d\<lparr>draft := formatNumberDraft num_text (stored d)\<rparr> else d)"

definition draftChange :: "(jsstr \<Rightarrow> jsnum option) \<Rightarrow> jsstr \<Rightarrow> DraftInput \<Rightarrow> DraftInput" where
  "draftChange to_num nextDraft d = d\<lparr>draft := nextDraft, stored := Some (parseNumberDraft to_num nextDraft)\<rparr>"

definition draftFocus :: "DraftInput \<Rightarrow> DraftInput" where
  "draftFocus d = d\<lparr>focused := True\<rparr>"

definition draftBlur :: "(jsnum \<Rightarrow> jsstr) \<Rightarrow> (jsstr \<Rightarrow> jsnum option) \<Rightarrow> DraftInput \<Rightarrow> DraftInput" where
  "draftBlur num_text to_num d = (let normalized = parseNumberDraft to_num (draft d) in
     d\<lparr>focused := False, draft := num_text normalized, stored := Some normalized\<rparr>)"

subsection \<open>The card of a tier\<close>

text \<open>An index of a card is the index of a rendered element; the assignment to it replaces that element.\<close>

definition handleConditionChange :: "nat \<Rightarrow> TierConditionInput \<Rightarrow> VisualTier \<Rightarrow> VisualTier" where
  "handleConditionChange conditionIndex c t = t\<lparr>tier_conditions := (tier_conditions t)[conditionIndex := c]\<rparr>"

definition dropIndex :: "nat \<Rightarrow> 'a list \<Rightarrow> 'a list" where
  "dropIndex i xs = map snd (filter (\<lambda>(j, _). j \<noteq> i) (enumerate 0 xs))"

definition handleConditionRemove :: "nat \<Rightarrow> VisualTier \<Rightarrow> VisualTier" where
  "handleConditionRemove conditionIndex t = t\<lparr>tier_conditions := dropIndex conditionIndex (tier_conditions t)\<rparr>"

datatype PriceKey = InputPrice | OutputPrice | ExtraPrice ExtraVar

definition handlePriceChange :: "PriceKey \<Rightarrow> jsnum \<Rightarrow> VisualTier \<Rightarrow> VisualTier" where
  "handlePriceChange k v t = (case k of
      InputPrice \<Rightarrow> t\<lparr>input_unit_cost := Some v\<rparr>
    | OutputPrice \<Rightarrow> t\<lparr>output_unit_cost := Some v\<rparr>
    | ExtraPrice x \<Rightarrow> t\<lparr>unit_cost := (unit_cost t)(x := v)\<rparr>)"

definition handleCacheModeChange :: "CacheMode \<Rightarrow> VisualTier \<Rightarrow> VisualTier" where
  "handleCacheModeChange mode t = t\<lparr>cache_mode := mode,
     unit_cost := (unit_cost t)(CacheCreate1h := (if mode = CACHE_MODE_TIMED then unit_cost t CacheCreate1h else 0))\<rparr>"

definition handleLabelChange :: "jsstr \<Rightarrow> VisualTier \<Rightarrow> VisualTier" where
  "handleLabelChange l t = t\<lparr>label := l\<rparr>"

subsection \<open>The list of tiers\<close>

definition handleTierChange :: "nat \<Rightarrow> VisualTier \<Rightarrow> VisualConfig option \<Rightarrow> VisualConfig" where
  "handleTierChange index t visual = (normalizeVisualConfig visual)[index := normalizeVisualTier (fullTier t)]"

definition newTier :: "nat \<Rightarrow> VisualTier" where
  "newTier n = normalizeVisualTier \<lparr>pt_label = Some (js ''tier_'' @ show_nat n), pt_conditions = Some [],
     pt_input = Some (Some 0), pt_output = Some (Some 0), pt_cache_mode = None, pt_cost = (\<lambda>_. None)\<rparr>"

definition defaultLimit :: "CondVar \<Rightarrow> TierConditionInput" where
  "defaultLimit v = \<lparr>cond_var = v, cond_op = OpLt, cond_value = Some 200000\<rparr>"

definition handleAddTier :: "VisualConfig option \<Rightarrow> VisualConfig" where
  "handleAddTier visual =
     (let tiers = normalizeVisualConfig visual;
          tiers = (if tiers \<noteq> [] \<and> tier_conditions (last tiers) = []
            then tiers[length tiers - 1 := normalizeVisualTier (fullTier (last tiers\<lparr>tier_conditions := [defaultLimit VarLen]\<rparr>))]
            else tiers)
      in tiers @ [newTier (length tiers + 1)])"

definition handleRemoveTier :: "nat \<Rightarrow> VisualConfig option \<Rightarrow> VisualConfig" where
  "handleRemoveTier index visual =
     (let config = normalizeVisualConfig visual; tiers = dropIndex index config
      in if length tiers > 0 then tiers else config)"

text \<open>No change is reported when the tier has two conditions.\<close>

definition handleAddCondition :: "nat \<Rightarrow> VisualConfig option \<Rightarrow> VisualConfig option" where
  "handleAddCondition index visual =
     (let config = normalizeVisualConfig visual; t = config ! index in
      if length (tier_conditions t) \<ge> 2 then None
      else let nextVar = (if VarLen \<in> set (map cond_var (tier_conditions t)) then VarC else VarLen)
           in Some (config[index := t\<lparr>tier_conditions := tier_conditions t @ [defaultLimit nextVar]\<rparr>]))"

subsection \<open>The card of a rule group\<close>

definition changeRuleCondition :: "nat \<Rightarrow> RequestCondition \<Rightarrow> RequestRuleGroup \<Rightarrow> RequestRuleGroup" where
  "changeRuleCondition i c g = g\<lparr>conditions := (conditions g)[i := c]\<rparr>"

definition addRuleCondition :: "bool \<Rightarrow> RequestRuleGroup \<Rightarrow> RequestRuleGroup" where
  "addRuleCondition timeMode g = g\<lparr>conditions := conditions g @
     [if timeMode then TimeCond createEmptyTimeCondition else ParamHeaderCond createEmptyCondition]\<rparr>"

definition removeRuleCondition :: "nat \<Rightarrow> RequestRuleGroup \<Rightarrow> RequestRuleGroup" where
  "removeRuleCondition i g = g\<lparr>conditions := dropIndex i (conditions g)\<rparr>"

definition handleSourceChange :: "ConditionSource \<Rightarrow> RequestCondition" where
  "handleSourceChange src = (if src = TimeSource then TimeCond createEmptyTimeCondition
     else ParamHeaderCond (createEmptyCondition\<lparr>ph_source := src\<rparr>))"

definition handleMatchModeChange :: "jsstr \<Rightarrow> RequestCondition \<Rightarrow> RequestCondition" where
  "handleMatchModeChange mode c = (case c of
      TimeCond t \<Rightarrow> TimeCond (t\<lparr>tc_mode := mode\<rparr>)
    | ParamHeaderCond p \<Rightarrow> ParamHeaderCond (p\<lparr>ph_mode := mode\<rparr>))"

subsection \<open>The editor\<close>

text \<open>What the editor calls: \<open>JSON.parse\<close> on other texts than string literals, \<open>String\<close> and \<open>Number\<close>.\<close>

record tenv =
  te_json :: "jsstr \<Rightarrow> json option"
  te_text :: "jsnum \<Rightarrow> jsstr"
  te_num :: "jsstr \<Rightarrow> jsnum option"

datatype EditorMode = VisualMode | RawMode

record TierEditor =
  editorMode :: EditorMode
  visualConfig :: "VisualConfig option"
  rawExpr :: jsstr
  requestRuleGroups :: "RequestRuleGroup list"
  initRef :: bool
  modelName :: jsstr
  currentExpr :: jsstr
  currentRequestRuleExpr :: jsstr

abbreviation parseConfig :: "tenv \<Rightarrow> jsstr \<Rightarrow> VisualConfig option" where
  "parseConfig E \<equiv> tryParseVisualConfig (te_text E) (te_num E)"

abbreviation generateExpr :: "tenv \<Rightarrow> VisualConfig option \<Rightarrow> jsstr" where
  "generateExpr E \<equiv> generateExprFromVisualConfig (te_text E)"

abbreviation parseRules :: "tenv \<Rightarrow> jsstr \<Rightarrow> ParseError + RequestRuleGroup list option" where
  "parseRules E \<equiv> tryParseRequestRuleExpr (te_json E) (te_text E)"

abbreviation splitExpr :: "tenv \<Rightarrow> jsstr \<Rightarrow> ParseError + BillingParts" where
  "splitExpr E \<equiv> splitBillingExprAndRequestRules (te_json E) (te_text E)"

text \<open>\<open>tryParseRequestRuleExpr(...) || []\<close>.\<close>

definition ruleGroups :: "tenv \<Rightarrow> jsstr \<Rightarrow> ParseError + RequestRuleGroup list" where
  "ruleGroups E s = (case parseRules E s of Inl e \<Rightarrow> Inl e | Inr r \<Rightarrow> Inr (nullish r []))"

definition initialEditor :: "tenv \<Rightarrow> jsstr \<Rightarrow> jsstr \<Rightarrow> jsstr \<Rightarrow> ParseError + TierEditor" where
  "initialEditor E name expr rules = (case ruleGroups E rules of
      Inl e \<Rightarrow> Inl e
    | Inr groups \<Rightarrow> Inr \<lparr>editorMode = VisualMode, visualConfig = parseConfig E expr, rawExpr = combineBillingExpr expr rules,
        requestRuleGroups = groups, initRef = False, modelName = name, currentExpr = expr, currentRequestRuleExpr = rules\<rparr>)"

text \<open>The initialization, which runs once after the editor appears and once after a change of the model.\<close>

definition initEffect :: "tenv \<Rightarrow> TierEditor \<Rightarrow> ParseError + TierEditor" where
  "initEffect E s = (if initRef s then Inr s else
     (case ruleGroups E (currentRequestRuleExpr s) of
        Inl e \<Rightarrow> Inl e
      | Inr groups \<Rightarrow>
          let s1 = s\<lparr>initRef := True, rawExpr := combineBillingExpr (currentExpr s) (currentRequestRuleExpr s), requestRuleGroups := groups\<rparr>
          in Inr (case parseConfig E (currentExpr s) of
               Some cfg \<Rightarrow> s1\<lparr>visualConfig := Some cfg, editorMode := VisualMode\<rparr>
             | None \<Rightarrow> if currentExpr s \<noteq> [] then s1\<lparr>visualConfig := None, editorMode := RawMode\<rparr>
                 else s1\<lparr>visualConfig := Some createDefaultVisualConfig\<rparr>)))"

definition canUseVisualRules :: "tenv \<Rightarrow> TierEditor \<Rightarrow> ParseError + bool" where
  "canUseVisualRules E s = (if currentRequestRuleExpr s = [] then Inr True else
     (case parseRules E (currentRequestRuleExpr s) of Inl e \<Rightarrow> Inl e | Inr r \<Rightarrow> Inr (r \<noteq> None)))"

definition effectiveExpr :: "tenv \<Rightarrow> TierEditor \<Rightarrow> ParseError + jsstr" where
  "effectiveExpr E s = (case editorMode s of
      VisualMode \<Rightarrow> Inr (generateExpr E (visualConfig s))
    | RawMode \<Rightarrow> (case splitExpr E (rawExpr s) of Inl e \<Rightarrow> Inl e | Inr parts \<Rightarrow> Inr (billingExpr parts)))"

definition sentRules :: "TierEditor \<Rightarrow> jsstr" where
  "sentRules s = (case editorMode s of
      VisualMode \<Rightarrow> buildRequestRuleExpr (requestRuleGroups s)
    | RawMode \<Rightarrow> currentRequestRuleExpr s)"

text \<open>The effects after a render, in their order. All of them read the values of that render, and their updates
  make the next one. The first runs when one of the two texts changed since the last render, the second when
  the model changed; both run after the first render.\<close>

definition textsChanged :: "TierEditor option \<Rightarrow> TierEditor \<Rightarrow> bool" where
  "textsChanged prev s = (case prev of None \<Rightarrow> True
     | Some p \<Rightarrow> currentExpr p \<noteq> currentExpr s \<or> currentRequestRuleExpr p \<noteq> currentRequestRuleExpr s)"

definition nameChanged :: "TierEditor option \<Rightarrow> TierEditor \<Rightarrow> bool" where
  "nameChanged prev s = (case prev of None \<Rightarrow> True | Some p \<Rightarrow> modelName p \<noteq> modelName s)"

definition runEffects :: "tenv \<Rightarrow> TierEditor option \<Rightarrow> TierEditor \<Rightarrow> ParseError + TierEditor" where
  "runEffects E prev s =
     (case (if textsChanged prev s then initEffect E s else Inr s) of
        Inl e \<Rightarrow> Inl e
      | Inr s1 \<Rightarrow>
          (case effectiveExpr E s of
             Inl e \<Rightarrow> Inl e
           | Inr expr \<Rightarrow>
               Inr ((if nameChanged prev s then s1\<lparr>initRef := False\<rparr> else s1)
                 \<lparr>currentExpr := expr, currentRequestRuleExpr := sentRules s\<rparr>)))"

text \<open>Renders follow each other until the effects change nothing more; the bound is a number of renders.\<close>

fun settle :: "nat \<Rightarrow> tenv \<Rightarrow> TierEditor option \<Rightarrow> TierEditor \<Rightarrow> (ParseError + TierEditor) option" where
  "settle 0 E prev s = None"
| "settle (Suc n) E prev s = (case runEffects E prev s of
      Inl e \<Rightarrow> Some (Inl e)
    | Inr t \<Rightarrow> if t\<lparr>initRef := initRef s\<rparr> = s then Some (Inr t) else settle n E (Some s) t)"

definition openEditor :: "tenv \<Rightarrow> nat \<Rightarrow> jsstr \<Rightarrow> jsstr \<Rightarrow> jsstr \<Rightarrow> (ParseError + TierEditor) option" where
  "openEditor E n name expr rules = (case initialEditor E name expr rules of
      Inl e \<Rightarrow> Some (Inl e) | Inr s \<Rightarrow> settle n E None s)"

subsection \<open>Handlers\<close>

definition handleVisualChange :: "VisualConfig \<Rightarrow> TierEditor \<Rightarrow> TierEditor" where
  "handleVisualChange cfg s = s\<lparr>visualConfig := Some cfg\<rparr>"

definition handleRawChange :: "tenv \<Rightarrow> jsstr \<Rightarrow> TierEditor \<Rightarrow> ParseError + TierEditor" where
  "handleRawChange E v s = (case splitExpr E v of
      Inl e \<Rightarrow> Inl e
    | Inr parts \<Rightarrow> Inr (s\<lparr>rawExpr := v, currentRequestRuleExpr := requestRuleExpr parts\<rparr>))"

definition handleModeChange :: "tenv \<Rightarrow> EditorMode \<Rightarrow> TierEditor \<Rightarrow> ParseError + TierEditor" where
  "handleModeChange E mode s = (case mode of
      VisualMode \<Rightarrow> (case splitExpr E (rawExpr s) of
          Inl e \<Rightarrow> Inl e
        | Inr parts \<Rightarrow> (case ruleGroups E (requestRuleExpr parts) of
              Inl e \<Rightarrow> Inl e
            | Inr groups \<Rightarrow> Inr (s\<lparr>visualConfig := Some (nullish (parseConfig E (billingExpr parts)) createDefaultVisualConfig),
                requestRuleGroups := groups, currentRequestRuleExpr := requestRuleExpr parts, editorMode := VisualMode\<rparr>)))
    | RawMode \<Rightarrow>
        let expr = generateExpr E (visualConfig s); combined = combineBillingExpr expr (buildRequestRuleExpr (requestRuleGroups s))
        in Inr (s\<lparr>rawExpr := (if combined = [] then expr else combined), editorMode := RawMode\<rparr>))"

record Preset =
  preset_key :: jsstr
  preset_expr :: jsstr
  preset_rules :: "RequestRuleGroup list"

definition plainPreset :: "string \<Rightarrow> string \<Rightarrow> Preset" where
  "plainPreset k x = \<lparr>preset_key = js k, preset_expr = js x, preset_rules = []\<rparr>"

definition FIXED_PRICE_PRESETS :: "Preset list" where
  \<open>FIXED_PRICE_PRESETS =
    [plainPreset ''flat'' ''tier("base", p * 2 + c * 4)'',
     plainPreset ''claude-opus'' ''tier("base", p * 5 + c * 25 + cr * 0.5 + cc * 6.25 + cc1h * 10)'',
     plainPreset ''gpt-5.4'' ''len <= 272000 ? tier("standard", p * 2.5 + c * 15 + cr * 0.25) : tier("long_context", p * 5 + c * 22.5 + cr * 0.5)'']\<close>

definition TIERED_PRESETS :: "Preset list" where
  \<open>TIERED_PRESETS =
    [plainPreset ''claude-sonnet'' ''len <= 200000 ? tier("standard", p * 3 + c * 15 + cr * 0.3 + cc * 3.75 + cc1h * 6) : tier("long_context", p * 6 + c * 22.5 + cr * 0.6 + cc * 7.5 + cc1h * 12)'',
     plainPreset ''qwen3-max'' ''len <= 32000 ? tier("short", p * 1.2 + c * 6 + cr * 0.24 + cc * 1.5) : len <= 128000 ? tier("mid", p * 2.4 + c * 12 + cr * 0.48 + cc * 3) : tier("long", p * 3 + c * 15 + cr * 0.6 + cc * 3.75)'',
     plainPreset ''glm-4.5-air'' ''len < 32000 && c < 200 ? tier("short_output", p * 0.8 + c * 2 + cr * 0.16) : len < 32000 && c >= 200 ? tier("long_output", p * 0.8 + c * 6 + cr * 0.16) : tier("mid_context", p * 1.2 + c * 8 + cr * 0.24)'',
     plainPreset ''doubao-seed-1.8'' ''len <= 32000 && c <= 200 ? tier("discount", p * 0.8 + c * 2 + cr * 0.16 + cc * 0.17) : len <= 32000 ? tier("short", p * 0.8 + c * 8 + cr * 0.16 + cc * 0.17) : len <= 128000 ? tier("mid", p * 1.2 + c * 16 + cr * 0.16 + cc * 0.17) : tier("long", p * 2.4 + c * 24 + cr * 0.16 + cc * 0.17)'']\<close>

definition MULTIMODAL_PRESETS :: "Preset list" where
  \<open>MULTIMODAL_PRESETS =
    [plainPreset ''gpt-image-1-mini'' ''tier("base", p * 2 + c * 8 + img * 2.5)'',
     plainPreset ''gemini-2.5-flash'' ''tier("base", p * 0.3 + c * 2.5 + cr * 0.03 + ai * 1.0)'',
     plainPreset ''gemini-3-pro-image'' ''tier("base", p * 2 + c * 12 + img_o * 120)'',
     plainPreset ''qwen3-omni-flash'' ''tier("base", p * 0.43 + c * 3.06 + img * 0.78 + ai * 3.81 + ao * 15.11)'']\<close>

definition equalsRule :: "string \<Rightarrow> string \<Rightarrow> string \<Rightarrow> RequestRuleGroup" where
  "equalsRule path v m = \<lparr>conditions = [ParamHeaderCond \<lparr>ph_source = ParamSource, ph_path = js path, ph_mode = MATCH_EQ, ph_value = js v\<rparr>],
     multiplier = js m\<rparr>"

definition REQUEST_RULE_PRESETS :: "Preset list" where
  \<open>REQUEST_RULE_PRESETS =
    [(plainPreset ''claude-opus-fast'' ''tier("base", p * 5 + c * 25 + cr * 0.5 + cc * 6.25 + cc1h * 10)'')
       \<lparr>preset_rules := [\<lparr>conditions = [ParamHeaderCond \<lparr>ph_source = HeaderSource, ph_path = js ''anthropic-beta'',
          ph_mode = MATCH_CONTAINS, ph_value = js ''fast-mode-2026-02-01''\<rparr>], multiplier = js ''6''\<rparr>]\<rparr>,
     (plainPreset ''gpt-5.4-tiers'' ''len <= 272000 ? tier("standard", p * 2.5 + c * 15 + cr * 0.25) : tier("long_context", p * 5 + c * 22.5 + cr * 0.5)'')
       \<lparr>preset_rules := [equalsRule ''service_tier'' ''priority'' ''2'', equalsRule ''service_tier'' ''flex'' ''0.5'']\<rparr>]\<close>

definition timeRule :: "TimeFunc \<Rightarrow> jsstr \<Rightarrow> string \<Rightarrow> string \<Rightarrow> string \<Rightarrow> string \<Rightarrow> RequestRuleGroup" where
  "timeRule f mode v a b m = \<lparr>conditions = [TimeCond \<lparr>timeFunc = f, timezone = js ''Asia/Shanghai'', tc_mode = mode, tc_value = js v,
     rangeStart = js a, rangeEnd = js b\<rparr>], multiplier = js m\<rparr>"

definition TIME_PRESETS :: "Preset list" where
  \<open>TIME_PRESETS =
    [(plainPreset ''night-discount'' ''tier("base", p * 3 + c * 15)'')
       \<lparr>preset_rules := [timeRule Hour MATCH_RANGE [] ''21'' ''6'' ''0.5'']\<rparr>,
     (plainPreset ''weekend-discount'' ''tier("base", p * 3 + c * 15)'')
       \<lparr>preset_rules := [timeRule Weekday MATCH_EQ ''0'' [] [] ''0.8'', timeRule Weekday MATCH_EQ ''6'' [] [] ''0.8'']\<rparr>]\<close>

definition PRESET_GROUPS :: "Preset list list" where
  "PRESET_GROUPS = [FIXED_PRICE_PRESETS, TIERED_PRESETS, MULTIMODAL_PRESETS, REQUEST_RULE_PRESETS, TIME_PRESETS]"

definition applyPreset :: "tenv \<Rightarrow> Preset \<Rightarrow> TierEditor \<Rightarrow> TierEditor" where
  "applyPreset E preset s =
     (let ruleExpr = buildRequestRuleExpr (preset_rules preset);
          combined = combineBillingExpr (preset_expr preset) ruleExpr;
          s1 = s\<lparr>rawExpr := (if combined = [] then preset_expr preset else combined),
            requestRuleGroups := preset_rules preset, currentRequestRuleExpr := ruleExpr\<rparr>
      in case parseConfig E (preset_expr preset) of
           Some cfg \<Rightarrow> s1\<lparr>visualConfig := Some cfg, editorMode := VisualMode\<rparr>
         | None \<Rightarrow> s1\<lparr>editorMode := RawMode, visualConfig := None\<rparr>)"

definition handleRuleGroupsChange :: "RequestRuleGroup list \<Rightarrow> TierEditor \<Rightarrow> TierEditor" where
  "handleRuleGroupsChange groups s = s\<lparr>requestRuleGroups := groups\<rparr>"

definition changeRuleGroup :: "nat \<Rightarrow> RequestRuleGroup \<Rightarrow> TierEditor \<Rightarrow> TierEditor" where
  "changeRuleGroup i g s = handleRuleGroupsChange ((requestRuleGroups s)[i := g]) s"

definition removeRuleGroup :: "nat \<Rightarrow> TierEditor \<Rightarrow> TierEditor" where
  "removeRuleGroup i s = handleRuleGroupsChange (dropIndex i (requestRuleGroups s)) s"

definition addRuleGroup :: "TierEditor \<Rightarrow> TierEditor" where
  "addRuleGroup s = handleRuleGroupsChange (requestRuleGroups s @ [createEmptyRuleGroup]) s"

end
