(* ===== verification/TierRoundtrip.thy ===== *)
theory TierRoundtrip
  imports TierExpr
begin

text \<open>
  The expression of a visual configuration is read back: the matches of the patterns on the generated texts, and
  the tiers that the parser makes of them.
\<close>

section \<open>Literals\<close>

named_theorems tier_simps \<open>literals of tier expressions and the classes of their units\<close>

lemma tier_literals [tier_simps]:
  "js ''p'' = [112]" "js ''c'' = [99]" "js ''len'' = [108, 101, 110]" "js '' '' = [32]" "js ''*'' = [42]" "js ''+'' = [43]"
  "js '' * '' = [32, 42, 32]" "js '' + '' = [32, 43, 32]" "js '' && '' = [32, 38, 38, 32]" "js ''&&'' = [38, 38]"
  "js '' ? '' = [32, 63, 32]" "js ''?'' = [63]" "js '' : '' = [32, 58, 32]" "js ''<'' = [60]" "js ''<='' = [60, 61]"
  "js ''>'' = [62]" "js ''>='' = [62, 61]" "js '')'' = [41]" "js '','' = [44]" "js '', '' = [44, 32]"
  "js ''tier('' = [116, 105, 101, 114, 40]" "js ''p * '' = [112, 32, 42, 32]" "js ''c * '' = [99, 32, 42, 32]"
  "js ''cr'' = [99, 114]" "js ''cc'' = [99, 99]" "js ''cc1h'' = [99, 99, 49, 104]" "js ''img'' = [105, 109, 103]"
  "js ''img_o'' = [105, 109, 103, 95, 111]" "js ''ai'' = [97, 105]" "js ''ao'' = [97, 111]"
  by (simp_all add: js_def jsc_def)

lemma tier_literals2 [tier_simps]: "js '' : p * 0 + c * 0'' = [32, 58, 32, 112, 32, 42, 32, 48, 32, 43, 32, 99, 32, 42, 32, 48]"
  by (simp add: js_def jsc_def)

lemma tier_ws [tier_simps]:
  "is_ws 32" "\<not> is_ws 42" "\<not> is_ws 43" "\<not> is_ws 38" "\<not> is_ws 63" "\<not> is_ws 58" "\<not> is_ws 60" "\<not> is_ws 61" "\<not> is_ws 62"
  "\<not> is_ws 112" "\<not> is_ws 99" "\<not> is_ws 108" "\<not> is_ws 110" "\<not> is_ws 105" "\<not> is_ws 97" "\<not> is_ws 116" "\<not> is_ws 49" "\<not> is_ws 95" "\<not> is_ws 41"
  by (simp_all add: is_ws_def)

lemma tier_classes [tier_simps]:
  "\<not> priceChar 32" "\<not> priceChar 41" "\<not> limitChar 32" "\<not> limitChar 61"
  by (simp_all add: priceChar_def limitChar_def is_digit_def)

lemma priceChar_not_ws: "priceChar c \<Longrightarrow> \<not> is_ws c"
  by (auto simp: priceChar_def is_digit_def is_ws_def word_le_nat_alt)

lemma limit_price: "limitChar c \<Longrightarrow> priceChar c"
  by (auto simp: priceChar_def limitChar_def)

section \<open>Prices\<close>

text \<open>A number whose text has only units of the class and is read back as the number.\<close>

definition price_ok :: "(jsnum \<Rightarrow> jsstr) \<Rightarrow> (jsstr \<Rightarrow> jsnum option) \<Rightarrow> jsnum \<Rightarrow> bool" where
  "price_ok nt tn n \<longleftrightarrow> nt n \<noteq> [] \<and> list_all priceChar (nt n) \<and> tn (nt n) = Some n"

definition limit_ok :: "(jsnum \<Rightarrow> jsstr) \<Rightarrow> (jsstr \<Rightarrow> jsnum option) \<Rightarrow> jsnum \<Rightarrow> bool" where
  "limit_ok nt tn n \<longleftrightarrow> nt n \<noteq> [] \<and> list_all limitChar (nt n) \<and> tn (nt n) = Some n"

lemma breaks_run: "W \<noteq> [] \<Longrightarrow> list_all P W \<Longrightarrow> (\<And>c. P c \<Longrightarrow> \<not> Q c) \<Longrightarrow> breaks Q (W @ Y)"
  by (cases W) simp_all

lemma fm_ws1: "breaks is_ws Y \<Longrightarrow> fm wsR (32 # Y) C Y C"
  unfolding wsR_def using fm_Star_run [of is_ws "[32]" Y C] by (simp add: tier_simps)

lemma fm_ws0: "breaks is_ws Y \<Longrightarrow> fm wsR Y C Y C"
  unfolding wsR_def using fm_Star_run [of is_ws "[]" Y C] by simp

lemma fm_Lit1: "fm (Lit [c]) (c # Y) C Y C"
  using fm_Lit [of "[c]" Y C] by simp

lemma fm_price:
  assumes "W \<noteq> []" "list_all priceChar W" "breaks priceChar Y"
  shows "fm (priceR n v) (v @ 32 # 42 # 32 # W @ Y) C Y ((n, W) # C)"
  unfolding priceR_def tier_simps
  by (intro fm_Seq [OF fm_Lit1] fm_Seq [OF fm_ws1] fm_Seq [OF fm_Lit] fm_Grp fm_Plus_run)
     (use assms breaks_run [of W priceChar is_ws Y] priceChar_not_ws in \<open>auto simp: tier_simps\<close>)

lemma fm_plus:
  assumes "fm r X C Y D" "breaks is_ws X"
  shows "fm (plusR r) (32 # 43 # 32 # X) C Y D"
  unfolding plusR_def tier_simps
  by (intro fm_Seq [OF fm_Lit1] fm_Seq [OF fm_ws1]) (simp_all add: tier_simps assms)

lemma nm_ws0: "breaks is_ws X \<Longrightarrow> nm b X \<Longrightarrow> nm (Seq wsR b) X"
  unfolding wsR_def by (rule nm_Seq_Star)

lemma nm_ws1: "breaks is_ws X \<Longrightarrow> nm b X \<Longrightarrow> nm b (32 # X) \<Longrightarrow> nm (Seq wsR b) (32 # X)"
  unfolding wsR_def by (rule nm_Seq_Star1) (simp_all add: tier_simps)

lemma nm_Lit1: "breaks (\<lambda>d. d = c) X \<Longrightarrow> nm (Lit [c]) X"
  by (rule nm_Lit) (cases X; simp)

lemma nm_price:
  assumes "\<And>Y. X = v @ Y \<Longrightarrow> breaks is_ws Y \<and> breaks (\<lambda>c. c = 42) Y"
  shows "nm (priceR n v) X"
  unfolding priceR_def tier_simps
  by (intro nm_Seq_Lit' nm_ws0 nm_Seq [OF nm_Lit1]) (use assms in auto)

lemma nm_other_price:
  assumes "v \<noteq> v'"
  shows "nm (priceR n (extraKey v)) (extraKey v' @ 32 # X)"
  by (rule nm_price) (use assms in \<open>cases v; cases v'; auto simp: tier_simps\<close>)

lemma extraKey_breaks: "breaks is_ws (extraKey v @ X)"
  by (cases v) (simp_all add: tier_simps)

lemma nm_plus: "nm r X \<Longrightarrow> breaks is_ws X \<Longrightarrow> nm r (32 # X) \<Longrightarrow> nm (plusR r) (32 # 43 # 32 # X)"
  unfolding plusR_def tier_simps
  by (intro nm_ws1 nm_Seq_Lit' nm_Seq [OF nm_Lit1]) (auto simp: tier_simps intro: nm_ws1)

lemma nm_plus_stop: "nm (plusR r) (41 # X)"
  unfolding plusR_def tier_simps by (intro nm_ws0 nm_Seq [OF nm_Lit1]) (simp_all add: tier_simps)

lemma nm_price_ws: "nm (priceR n (extraKey v)) (32 # X)"
  by (rule nm_price) (cases v; simp add: tier_simps)

text \<open>The prices that are not zero, as they follow the two base prices, and their captures.\<close>

definition extraTexts :: "(jsnum \<Rightarrow> jsstr) \<Rightarrow> VisualTier \<Rightarrow> ExtraVar list \<Rightarrow> jsstr" where
  "extraTexts nt t vs = concat (map (\<lambda>v. 32 # 43 # 32 # extraPart nt t v) (filter (\<lambda>v. unit_cost t v \<noteq> 0) vs))"

fun extraCaps :: "(jsnum \<Rightarrow> jsstr) \<Rightarrow> VisualTier \<Rightarrow> nat \<Rightarrow> ExtraVar list \<Rightarrow> (nat \<times> jsstr) list \<Rightarrow> (nat \<times> jsstr) list" where
  "extraCaps nt t n [] C = C"
| "extraCaps nt t n (v # vs) C =
     extraCaps nt t (n + 1) vs (if unit_cost t v \<noteq> 0 then (n, nt (unit_cost t v)) # C else C)"

lemma map_of_extraCaps:
  "(\<forall>k\<ge>n. map_of C k = None) \<Longrightarrow> map_of (extraCaps nt t n vs C) k =
     (if n \<le> k \<and> k < n + length vs then (if unit_cost t (vs ! (k - n)) \<noteq> 0 then Some (nt (unit_cost t (vs ! (k - n)))) else None)
      else map_of C k)"
proof (induction vs arbitrary: n C)
  case (Cons v vs)
  show ?case
  proof (cases "k = n")
    case False
    then show ?thesis using Cons by (auto simp: nth_Cons' Suc_diff_le)
  qed (use Cons in \<open>auto simp: Cons.IH\<close>)
qed auto

lemma extraTexts_breaks: "extraTexts nt t vs @ 41 # X = 41 # X \<or> (\<exists>Y. extraTexts nt t vs @ 41 # X = 32 # Y)"
  by (cases "filter (\<lambda>v. unit_cost t v \<noteq> 0) vs") (simp_all add: extraTexts_def)

lemma nm_extra:
  assumes "v \<notin> set vs"
  shows "nm (plusR (priceR n (extraKey v))) (extraTexts nt t vs @ 41 # X)"
proof (cases "filter (\<lambda>v. unit_cost t v \<noteq> 0) vs")
  case Nil
  then show ?thesis by (simp add: extraTexts_def nm_plus_stop)
next
  case (Cons v' vs')
  then have "v' \<in> set vs" using filter_is_subset [of "\<lambda>v. unit_cost t v \<noteq> 0" vs] by simp
  then have "v \<noteq> v'" using assms by auto
  then have "nm (priceR n (extraKey v)) (extraKey v' @ 32 # Y)" for Y by (rule nm_other_price)
  then show ?thesis unfolding extraTexts_def Cons
    by (auto simp: extraPart_def tier_simps intro!: nm_plus nm_price_ws extraKey_breaks)
qed

lemma fm_extras:
  assumes "distinct vs" "\<And>v. v \<in> set vs \<Longrightarrow> unit_cost t v \<noteq> 0 \<Longrightarrow> price_ok nt tn (unit_cost t v)"
    and "fm r (41 # X) (extraCaps nt t n vs C) Y D"
  shows "fm (optCache n vs r) (extraTexts nt t vs @ 41 # X) C Y D"
  using assms
proof (induction vs arbitrary: n C)
  case (Cons v vs)
  have IH: "fm (optCache (n + 1) vs r) (extraTexts nt t vs @ 41 # X) C' Y D"
    if "C' = (if unit_cost t v \<noteq> 0 then (n, nt (unit_cost t v)) # C else C)" for C'
    using Cons that by simp
  show ?case
  proof (cases "unit_cost t v = 0")
    case True
    then have "extraTexts nt t (v # vs) = extraTexts nt t vs" by (simp add: extraTexts_def)
    moreover have "nm (plusR (priceR n (extraKey v))) (extraTexts nt t vs @ 41 # X)" using Cons.prems nm_extra by simp
    ultimately show ?thesis using IH True by (auto intro: fm_Seq fm_Opt_none)
  next
    case False
    let ?W = "nt (unit_cost t v)"
    have ok: "?W \<noteq> []" "list_all priceChar ?W" using Cons.prems False by (auto simp: price_ok_def)
    have stop: "breaks priceChar (extraTexts nt t vs @ 41 # X)"
      using extraTexts_breaks [of nt t vs X] by (auto simp: tier_simps)
    have "fm (plusR (priceR n (extraKey v))) (32 # 43 # 32 # extraKey v @ 32 # 42 # 32 # ?W @ extraTexts nt t vs @ 41 # X) C
        (extraTexts nt t vs @ 41 # X) ((n, ?W) # C)"
      by (intro fm_plus fm_price ok stop extraKey_breaks)
    moreover have "extraTexts nt t (v # vs) @ 41 # X = 32 # 43 # 32 # extraKey v @ 32 # 42 # 32 # ?W @ extraTexts nt t vs @ 41 # X"
      using False by (simp add: extraTexts_def extraPart_def tier_simps)
    ultimately show ?thesis using IH False by (auto intro: fm_Seq fm_Opt)
  qed
qed (simp add: extraTexts_def)

section \<open>Tiers\<close>

text \<open>The prices of a tier are written in the class and read back; its label can stand between quotes.\<close>

definition tier_ok :: "(jsnum \<Rightarrow> jsstr) \<Rightarrow> (jsstr \<Rightarrow> jsnum option) \<Rightarrow> VisualTier \<Rightarrow> bool" where
  "tier_ok nt tn t \<longleftrightarrow> label t \<noteq> [] \<and> 34 \<notin> set (label t) \<and>
     (case input_unit_cost t of Some n \<Rightarrow> price_ok nt tn n | None \<Rightarrow> False) \<and>
     (case output_unit_cost t of Some n \<Rightarrow> price_ok nt tn n | None \<Rightarrow> False) \<and>
     list_all (\<lambda>v. unit_cost t v = 0 \<or> price_ok nt tn (unit_cost t v)) BILLING_CACHE_VAR_MAP \<and>
     cache_mode t = (if unit_cost t CacheCreate1h > 0 then CACHE_MODE_TIMED else CACHE_MODE_GENERIC) \<and>
     list_all (\<lambda>c. case cond_value c of Some n \<Rightarrow> limit_ok nt tn n | None \<Rightarrow> False) (tier_conditions t)"

lemma tier_okE:
  assumes "tier_ok nt tn t"
  obtains i out where "input_unit_cost t = Some i" "output_unit_cost t = Some out" "price_ok nt tn i" "price_ok nt tn out"
  using assms by (auto simp: tier_ok_def split: option.splits)

lemma all_extras: "v \<in> set BILLING_CACHE_VAR_MAP"
  by (cases v) (simp_all add: BILLING_CACHE_VAR_MAP_def)

lemma distinct_extras: "distinct BILLING_CACHE_VAR_MAP" "length BILLING_CACHE_VAR_MAP = 7"
  by (simp_all add: BILLING_CACHE_VAR_MAP_def)

lemma extras_ok: "tier_ok nt tn t \<Longrightarrow> unit_cost t v \<noteq> 0 \<Longrightarrow> price_ok nt tn (unit_cost t v)"
  using all_extras [of v] by (auto simp: tier_ok_def list_all_iff)

lemma join_Cons: "join sep (x # xs) = x @ concat (map (\<lambda>y. sep @ y) xs)"
  by (induction xs arbitrary: x) auto

definition priceText :: "(jsnum \<Rightarrow> jsstr) \<Rightarrow> jsnum option \<Rightarrow> jsstr" where
  "priceText nt n = nt (nullish n 0)"

lemma body_text:
  "buildTierBodyExpr nt t = 112 # 32 # 42 # 32 # priceText nt (input_unit_cost t) @
     32 # 43 # 32 # 99 # 32 # 42 # 32 # priceText nt (output_unit_cost t) @ extraTexts nt t BILLING_CACHE_VAR_MAP"
  unfolding buildTierBodyExpr_def extraTexts_def priceText_def
  by (simp add: join_Cons tier_simps comp_def)

definition bodyCaps :: "(jsnum \<Rightarrow> jsstr) \<Rightarrow> VisualTier \<Rightarrow> nat \<Rightarrow> (nat \<times> jsstr) list \<Rightarrow> (nat \<times> jsstr) list" where
  "bodyCaps nt t n C = extraCaps nt t (n + 2) BILLING_CACHE_VAR_MAP
     ((n + 1, priceText nt (output_unit_cost t)) # (n, priceText nt (input_unit_cost t)) # C)"

lemma fm_body:
  assumes "tier_ok nt tn t"
  shows "fm (bodyR n (Lit [41])) (buildTierBodyExpr nt t @ 41 # X) C X (bodyCaps nt t n C)"
proof -
  let ?E = "extraTexts nt t BILLING_CACHE_VAR_MAP @ 41 # X"
  have ok: "priceText nt x \<noteq> []" "list_all priceChar (priceText nt x)"
    if "x = input_unit_cost t \<or> x = output_unit_cost t" for x
    using that assms by (auto simp: priceText_def price_ok_def elim!: tier_okE)
  have stop: "breaks priceChar ?E" using extraTexts_breaks [of nt t BILLING_CACHE_VAR_MAP X] by (auto simp: tier_simps)
  have p: "fm (priceR n [112]) ([112] @ 32 # 42 # 32 # priceText nt (input_unit_cost t) @ Y) C Y ((n, priceText nt (input_unit_cost t)) # C)"
    if "breaks priceChar Y" for Y by (intro fm_price ok that) simp_all
  have c: "fm (priceR (n + 1) [99]) ([99] @ 32 # 42 # 32 # priceText nt (output_unit_cost t) @ ?E) D ?E
      ((n + 1, priceText nt (output_unit_cost t)) # D)" for D by (intro fm_price ok stop) simp_all
  have e: "fm (optCache (n + 2) BILLING_CACHE_VAR_MAP (Lit [41])) ?E
      ((n + 1, priceText nt (output_unit_cost t)) # (n, priceText nt (input_unit_cost t)) # C) X (bodyCaps nt t n C)"
    unfolding bodyCaps_def by (rule fm_extras [OF distinct_extras(1)]) (use assms extras_ok fm_Lit1 in auto)
  show ?thesis unfolding bodyR_def body_text tier_simps
    using fm_Seq [OF p fm_Seq [OF fm_plus [OF c] e]] by (simp add: tier_simps)
qed

definition quoted :: "(jsnum \<Rightarrow> jsstr) \<Rightarrow> VisualTier \<Rightarrow> jsstr" where
  "quoted nt t = js ''tier('' @ [34] @ label t @ [34] @ js '', '' @ buildTierBodyExpr nt t @ js '')''"

lemma quoted_text: "label t \<noteq> [] \<Longrightarrow> tierText nt d t = quoted nt t"
  by (simp add: tierText_def quoted_def)

lemma fm_label:
  assumes "tier_ok nt tn t"
  shows "fm (labelR n (bodyR (n + 1) (Lit [41]))) (quoted nt t @ X) C X (bodyCaps nt t (n + 1) ((n, label t) # C))"
proof -
  have l: "fm (Grp n (Star (Cls (\<lambda>c. c \<noteq> 34)))) (label t @ 34 # Y) D (34 # Y) ((n, label t) # D)" for Y D
    using assms by (intro fm_Grp fm_Star_run) (auto simp: tier_ok_def list_all_iff)
  have "breaks is_ws (buildTierBodyExpr nt t @ 41 # X)" by (simp add: body_text tier_simps)
  then have "fm (Seq wsR (bodyR (n + 1) (Lit [41]))) (32 # buildTierBodyExpr nt t @ 41 # X) D X (bodyCaps nt t (n + 1) D)" for D
    by (rule fm_Seq [OF fm_ws1 fm_body [OF assms]])
  then have "fm (Seq (Lit [34, 44]) (Seq wsR (bodyR (n + 1) (Lit [41])))) (34 # 44 # 32 # buildTierBodyExpr nt t @ 41 # X) D X
     (bodyCaps nt t (n + 1) D)" for D using fm_Seq [OF fm_Lit [of "[34, 44]"]] by simp
  from fm_Seq [OF fm_Lit [of "js ''tier('' @ [34]"] fm_Seq [OF l this]]
  show ?thesis unfolding labelR_def quoted_def by (simp add: tier_simps)
qed

section \<open>Conditions\<close>

definition limitText :: "(jsnum \<Rightarrow> jsstr) \<Rightarrow> TierConditionInput \<Rightarrow> jsstr" where
  "limitText nt c = numberText nt (cond_value c)"

definition cond_ok :: "(jsnum \<Rightarrow> jsstr) \<Rightarrow> (jsstr \<Rightarrow> jsnum option) \<Rightarrow> TierConditionInput \<Rightarrow> bool" where
  "cond_ok nt tn c \<longleftrightarrow> limitText nt c \<noteq> [] \<and> list_all limitChar (limitText nt c) \<and> tn (limitText nt c) = cond_value c"

lemma tier_conds_ok: "tier_ok nt tn t \<Longrightarrow> c \<in> set (tier_conditions t) \<Longrightarrow> cond_ok nt tn c"
  by (auto simp: tier_ok_def list_all_iff cond_ok_def limitText_def numberText_def limit_ok_def split: option.splits)

lemma fm_condVar: "fm condVarR (condVarKey v @ 32 # X) C (32 # X) C"
proof -
  note lit = fm_Lit [of "[112]", simplified] fm_Lit [of "[99]", simplified] fm_Lit [of "[108, 101, 110]", simplified]
  have no: "nm (Lit (p # ps)) (q # Z)" if "p \<noteq> q" for p ps q Z using that by (intro nm_Lit) simp
  show ?thesis unfolding condVarR_def tier_simps
    by (cases v) (simp_all add: tier_simps lit no fm_Alt fm_Alt_right)
qed

text \<open>After an operator that is only the start of the written one, no number follows.\<close>

lemma nm_limit: "nm (Seq wsR (Grp n (Plus (Cls limitChar)))) (61 # X)" "nm (Seq wsR (Plus (Cls limitChar))) (61 # X)"
  by (intro nm_ws0 nm_Grp nm_Plus; simp add: tier_simps)+

lemma fm_limit:
  assumes "W \<noteq> []" "list_all limitChar W" "breaks limitChar Y"
  shows "fm (Seq wsR (Plus (Cls limitChar))) (32 # W @ Y) C Y C"
    and "fm (Seq wsR (Grp n (Plus (Cls limitChar)))) (32 # W @ Y) C Y ((n, W) # C)"
proof -
  have "breaks is_ws (W @ Y)" by (rule breaks_run [OF assms(1, 2)]) (simp add: priceChar_not_ws limit_price)
  then show "fm (Seq wsR (Plus (Cls limitChar))) (32 # W @ Y) C Y C"
    and "fm (Seq wsR (Grp n (Plus (Cls limitChar)))) (32 # W @ Y) C Y ((n, W) # C)"
    by (intro fm_Seq [OF fm_ws1] fm_Grp fm_Plus_run assms; simp)+
qed

lemma fm_op:
  assumes "nm K (61 # 32 # X)" "\<And>C. fm K (32 # X) C Y (D C)"
  shows "fm (Seq condOpR K) (condOpText v @ 32 # X) C Y (D C)"
proof -
  have "fm (Seq (Lit p) K) (p @ 32 # X) C Y (D C)" for p by (rule fm_Seq [OF fm_Lit assms(2)])
  note lit = this [of "[60]", simplified] this [of "[60, 61]", simplified] this [of "[62]", simplified] this [of "[62, 61]", simplified]
  have bad: "nm (Seq (Lit [q]) K) (q # 61 # 32 # X)" for q using nm_Seq_Lit [OF assms(1), of "[q]"] by simp
  have no: "nm (Seq (Lit (p # ps)) K) (q # Z)" if "p \<noteq> q \<or> (\<exists>r rs. ps = r # rs \<and> Z = 32 # X \<and> r \<noteq> 32)" for p ps q Z
    using that by (intro nm_Seq nm_Lit) auto
  show ?thesis unfolding condOpR_def tier_simps
    by (cases v) (simp_all add: tier_simps lit bad no fm_Seq_Alt fm_Seq_Alt_right)
qed

lemma fm_op_group:
  assumes "nm K (61 # 32 # X)" "\<And>C. fm K (32 # X) C Y (D C)"
  shows "fm (Seq (Grp n condOpR) K) (condOpText v @ 32 # X) C Y (D ((n, condOpText v) # C))"
proof -
  have "fm (Seq (Grp n (Lit p)) K) (p @ 32 # X) C Y (D ((n, p) # C))" for p by (rule fm_Seq [OF fm_Grp [OF fm_Lit] assms(2)])
  note lit = this [of "[60]", simplified] this [of "[60, 61]", simplified] this [of "[62]", simplified] this [of "[62, 61]", simplified]
  have bad: "nm (Seq (Grp n (Lit [q])) K) (q # 61 # 32 # X)" for q using nm_Seq_Grp [OF assms(1), of n "[q]"] by simp
  have no: "nm (Seq (Grp n (Lit (p # ps))) K) (q # Z)" if "p \<noteq> q" for p ps q Z
    using that by (intro nm_Seq nm_Grp nm_Lit) auto
  show ?thesis unfolding condOpR_def tier_simps
    by (cases v) (simp_all add: tier_simps lit bad no fm_Grp_Alt fm_Grp_Alt_right)
qed

lemma cond_text: "conditionText nt c = condVarKey (cond_var c) @ 32 # condOpText (cond_op c) @ 32 # limitText nt c"
  by (simp add: conditionText_def limitText_def tier_simps)

lemma condOp_breaks: "breaks is_ws (condOpText v @ X)"
  by (cases v) (simp_all add: tier_simps)

lemma condVar_breaks: "breaks is_ws (condVarKey v @ X)"
  by (cases v) (simp_all add: tier_simps)

lemma fm_condition:
  assumes "cond_ok nt tn c" "breaks limitChar Y"
  shows "fm conditionR (conditionText nt c @ Y) C Y C"
proof -
  have "fm (Seq condOpR (Seq wsR (Plus (Cls limitChar)))) (condOpText (cond_op c) @ 32 # limitText nt c @ Y) C Y C"
    using assms by (intro fm_op nm_limit fm_limit) (simp_all add: cond_ok_def)
  then show ?thesis unfolding conditionR_def cond_text
    using fm_Seq [OF fm_condVar fm_Seq [OF fm_ws1 [OF condOp_breaks]]] by simp
qed

lemma condition_match:
  assumes "cond_ok nt tn c"
  shows "match_whole conditionRe (conditionText nt c) =
     Some [(3, limitText nt c), (2, condOpText (cond_op c)), (1, condVarKey (cond_var c))]"
proof (rule match_whole_fm)
  have lim: "fm (Seq wsR (Grp 3 (Plus (Cls limitChar)))) (32 # limitText nt c) C [] ((3, limitText nt c) # C)" for C
    using fm_limit(2) [of "limitText nt c" "[]" 3 C] assms by (simp add: cond_ok_def)
  have op: "fm (Seq (Grp 2 condOpR) (Seq wsR (Grp 3 (Plus (Cls limitChar))))) (condOpText (cond_op c) @ 32 # limitText nt c) C []
      ((3, limitText nt c) # (2, condOpText (cond_op c)) # C)" for C
    by (rule fm_op_group [OF nm_limit(1) lim])
  have "fm (Grp 1 condVarR) (condVarKey (cond_var c) @ 32 # X) C (32 # X) ((1, condVarKey (cond_var c)) # C)" for X C
    by (rule fm_Grp [OF fm_condVar])
  from fm_Seq [OF this fm_Seq [OF fm_ws1 [OF condOp_breaks] op]]
  show "fm conditionRe (conditionText nt c) [] []
     [(3, limitText nt c), (2, condOpText (cond_op c)), (1, condVarKey (cond_var c))]"
    unfolding conditionRe_def cond_text by simp
qed

lemma condVarOf_key [simp]: "condVarOf (Some (condVarKey v)) = v"
  by (cases v) (simp_all add: condVarOf_def)

lemma condOpOf_text [simp]: "condOpOf (Some (condOpText v)) = v"
  by (cases v) (simp_all add: condOpOf_def)

lemma condition_units: "cond_ok nt tn c \<Longrightarrow> 38 \<notin> set (conditionText nt c)"
  unfolding cond_text
  by (cases "cond_var c"; cases "cond_op c") (auto simp: tier_simps cond_ok_def list_all_iff limitChar_def is_digit_def word_le_nat_alt)

lemma trim_condition:
  assumes "cond_ok nt tn c"
  shows "trim (conditionText nt c) = conditionText nt c"
proof (rule trim_id, intro disjI2 conjI)
  show "\<not> is_ws (hd (conditionText nt c))"
    unfolding cond_text by (cases "cond_var c") (simp_all add: tier_simps)
  have "last (limitText nt c) \<in> set (limitText nt c)" using assms by (simp add: cond_ok_def)
  then have "limitChar (last (limitText nt c))" using assms by (auto simp: cond_ok_def list_all_iff)
  then show "\<not> is_ws (last (conditionText nt c))"
    unfolding cond_text using assms by (simp add: cond_ok_def priceChar_not_ws limit_price)
qed

lemma parse_tier_condition: "cond_ok nt tn c \<Longrightarrow> trim s = conditionText nt c \<Longrightarrow> parseCondition tn s = Some c"
  by (simp add: parseCondition_def condition_match cap_def) (simp add: cond_ok_def)

subsection \<open>Conjunctions\<close>

lemma splitAnd_plain: "38 \<notin> set x \<Longrightarrow> splitAnd x = [x]"
  by (induction x rule: splitAnd.induct) auto

lemma splitAnd_step: "38 \<notin> set x \<Longrightarrow> splitAnd (x @ 38 # 38 # y) = x # splitAnd y"
proof (induction x)
  case (Cons c x)
  then show ?case by (cases x) auto
qed simp

lemma trim_space: "trim (32 # s) = trim s" "trim (s @ [32]) = trim s"
proof -
  show "trim (32 # s) = trim s" by (simp add: trim_def trim_start_def tier_simps)
  show "trim (s @ [32]) = trim s"
  proof (cases "\<forall>c\<in>set s. is_ws c")
    case True
    then show ?thesis by (auto simp: trim_def trim_start_def dropWhile_append tier_simps dest: set_dropWhileD)
  next
    case False
    then have "dropWhile is_ws (s @ [32]) = dropWhile is_ws s @ [32]" by (simp add: dropWhile_append)
    then show ?thesis by (simp add: trim_def trim_start_def tier_simps)
  qed
qed

lemma splitAnd_join:
  "xs \<noteq> [] \<Longrightarrow> \<forall>x\<in>set xs. 38 \<notin> set x \<Longrightarrow> map trim (splitAnd (join (js '' && '') xs)) = map trim xs"
proof (induction xs rule: induct_list012)
  case (3 x y zs)
  have "splitAnd (join (js '' && '') (x # y # zs)) = (x @ [32]) # splitAnd (32 # join (js '' && '') (y # zs))"
    using 3 splitAnd_step [of "x @ [32]"] by (simp add: tier_simps)
  moreover have "map trim (splitAnd (32 # j)) = map trim (splitAnd j)" for j
    by (cases j rule: splitAnd.cases) (auto simp: trim_space split: list.splits)
  ultimately show ?case using 3 by (simp add: trim_space)
qed (simp_all add: splitAnd_plain)

lemma map_filter_parse: "List.map_filter (parseCondition tn) xs = List.map_filter (parseCondition tn) (map trim xs)"
  by (induction xs) (simp_all add: List.map_filter_def parseCondition_def)

lemma map_filter_inverse: "(\<And>x. x \<in> set xs \<Longrightarrow> f (g x) = Some x) \<Longrightarrow> List.map_filter f (map g xs) = xs"
  by (induction xs) (simp_all add: List.map_filter_def)

lemma parse_tier_conditions:
  assumes "\<And>c. c \<in> set cs \<Longrightarrow> cond_ok nt tn c" "cs \<noteq> []"
  shows "parseConditions tn (Some (buildConditionStr nt cs)) = cs"
proof -
  let ?xs = "map (conditionText nt) cs"
  have ne: "buildConditionStr nt cs \<noteq> []"
    using assms(2) by (cases cs) (auto simp: buildConditionStr_def join_Cons cond_text)
  have "map trim (splitAnd (buildConditionStr nt cs)) = map trim ?xs"
    unfolding buildConditionStr_def using assms condition_units [of nt tn] by (intro splitAnd_join) auto
  then have "List.map_filter (parseCondition tn) (splitAnd (buildConditionStr nt cs)) = List.map_filter (parseCondition tn) (map trim ?xs)"
    by (metis map_filter_parse)
  also have "\<dots> = cs"
    unfolding map_map comp_def
    by (rule map_filter_inverse) (simp add: parse_tier_condition [OF assms(1)] trim_condition [OF assms(1)])
  finally show ?thesis using ne by (simp add: parseConditions_def)
qed

subsection \<open>The guard of a tier\<close>

definition andTail :: "(jsnum \<Rightarrow> jsstr) \<Rightarrow> TierConditionInput list \<Rightarrow> jsstr" where
  "andTail nt cs = concat (map (\<lambda>c. 32 # 38 # 38 # 32 # conditionText nt c) cs)"

lemma andTail_breaks: "breaks limitChar (andTail nt cs @ 32 # X)"
  by (cases cs) (simp_all add: andTail_def tier_simps)

lemma cond_breaks: "breaks is_ws (conditionText nt c @ X)"
  using condVar_breaks by (simp add: cond_text)

lemma fm_andTail:
  "(\<And>c. c \<in> set cs \<Longrightarrow> cond_ok nt tn c) \<Longrightarrow>
   fm (Star (Seq wsR (Seq (Lit [38, 38]) (Seq wsR conditionR)))) (andTail nt cs @ 32 # 63 # X) C (32 # 63 # X) C"
proof (induction cs)
  case Nil
  have "nm (Seq wsR (Seq (Lit [38, 38]) (Seq wsR conditionR))) (32 # 63 # X)"
    by (intro nm_ws1 nm_Seq nm_Lit) (simp_all add: tier_simps)
  then show ?case by (simp add: andTail_def fm_Star_stop)
next
  case (Cons c cs)
  let ?R = "andTail nt cs @ 32 # 63 # X"
  have "fm (Seq wsR conditionR) (32 # conditionText nt c @ ?R) C ?R C"
    by (rule fm_Seq [OF fm_ws1 [OF cond_breaks] fm_condition [where tn = tn]]) (simp_all add: Cons.prems andTail_breaks)
  then have "fm (Seq (Lit [38, 38]) (Seq wsR conditionR)) (38 # 38 # 32 # conditionText nt c @ ?R) C ?R C"
    using fm_Seq [OF fm_Lit [of "[38, 38]"]] by simp
  then have "fm (Seq wsR (Seq (Lit [38, 38]) (Seq wsR conditionR))) (32 # 38 # 38 # 32 # conditionText nt c @ ?R) C ?R C"
    by (intro fm_Seq [OF fm_ws1]) (simp_all add: tier_simps)
  from fm_Star_step [OF this _ Cons.IH] show ?case
    using Cons.prems by (simp add: andTail_def)
qed

lemma cond_str: "buildConditionStr nt (c # cs) = conditionText nt c @ andTail nt cs"
  by (simp add: buildConditionStr_def andTail_def join_Cons tier_simps comp_def)

lemma fm_guard:
  assumes "\<And>c. c \<in> set cs \<Longrightarrow> cond_ok nt tn c" "cs \<noteq> []" "breaks is_ws X"
  shows "fm guardR (buildConditionStr nt cs @ 32 # 63 # 32 # X) C X ((1, buildConditionStr nt cs) # C)"
proof -
  obtain c ds where cs: "cs = c # ds" using assms(2) by (cases cs) auto
  have "fm (Seq conditionR (Star (Seq wsR (Seq (Lit [38, 38]) (Seq wsR conditionR)))))
      (buildConditionStr nt cs @ 32 # 63 # 32 # X) C (32 # 63 # 32 # X) C"
    unfolding cs cond_str append_assoc
    using assms(1) cs by (intro fm_Seq [OF fm_condition fm_andTail] andTail_breaks) auto
  from fm_Seq [OF fm_Grp [OF this, of 1] fm_Seq [OF fm_ws1 fm_Seq [OF fm_Lit1 fm_ws1 [OF assms(3)]]]]
  show ?thesis unfolding guardR_def condGroupR_def tier_simps by (intro fm_Opt) (simp add: tier_simps)
qed

section \<open>Matching the tiers of an expression\<close>

lemma nm_Seq_Opt: "nm a X \<Longrightarrow> nm b X \<Longrightarrow> nm (Seq (Opt a) b) X"
  by (simp add: nm_def)

lemma nm_guard:
  assumes "breaks (\<lambda>d. d = 112 \<or> d = 99 \<or> d = 108) X"
  shows "nm (Seq condGroupR r) X"
proof -
  have "nm (Lit (p # ps)) X" if "p = 112 \<or> p = 99 \<or> p = 108" for p ps
    using assms that by (intro nm_Lit) (cases X; auto)
  then show ?thesis unfolding condGroupR_def conditionR_def condVarR_def tier_simps
    by (intro nm_Seq nm_Grp nm_Alt) simp_all
qed

lemma nm_label: "breaks (\<lambda>d. d = 116) X \<Longrightarrow> nm (labelR n r) X"
  unfolding labelR_def tier_simps by (intro nm_Seq nm_Lit) (cases X; simp)

lemma nm_tier: "c \<notin> {112, 99, 108, 116} \<Longrightarrow> nm tierRe (c # X)"
  unfolding tierRe_def guardR_def by (intro nm_Seq_Opt nm_guard nm_label) auto

text \<open>The text of one tier in an expression of several, and its captures.\<close>

definition tierCaps :: "(jsnum \<Rightarrow> jsstr) \<Rightarrow> VisualTier \<Rightarrow> bool \<Rightarrow> (nat \<times> jsstr) list" where
  "tierCaps nt t withGuard = bodyCaps nt t 3 ((2, label t) # (if withGuard then [(1, buildConditionStr nt (tier_conditions t))] else []))"

lemma quoted_start: "quoted nt t @ X = 116 # tl (quoted nt t @ X)"
  by (simp add: quoted_def tier_simps)

lemma guard_none: "fm guardR (quoted nt t @ X) C (quoted nt t @ X) C"
proof -
  have "nm (Seq condGroupR r) (quoted nt t @ X)" for r by (subst quoted_start) (simp add: nm_guard)
  then show ?thesis unfolding guardR_def by (intro fm_Opt_none)
qed

lemma guard_some:
  assumes "tier_ok nt tn t" "tier_conditions t \<noteq> []"
  shows "fm guardR (buildConditionStr nt (tier_conditions t) @ 32 # 63 # 32 # quoted nt t @ X) C (quoted nt t @ X)
     ((1, buildConditionStr nt (tier_conditions t)) # C)"
proof -
  have "breaks is_ws (quoted nt t @ X)" by (subst quoted_start) (simp add: tier_simps)
  with fm_guard [of "tier_conditions t" nt tn] assms(2) tier_conds_ok [OF assms(1)] show ?thesis by blast
qed

lemma fm_tier:
  assumes "tier_ok nt tn t"
  shows "fm tierRe (quoted nt t @ X) [] X (tierCaps nt t False)"
    and "tier_conditions t \<noteq> [] \<Longrightarrow> fm tierRe (buildConditionStr nt (tier_conditions t) @ 32 # 63 # 32 # quoted nt t @ X) [] X (tierCaps nt t True)"
proof -
  from fm_Seq [OF guard_none fm_label [OF assms, of 2]]
  show "fm tierRe (quoted nt t @ X) [] X (tierCaps nt t False)"
    unfolding tierRe_def tierCaps_def tier_simps by simp
  assume "tier_conditions t \<noteq> []"
  from fm_Seq [OF guard_some [OF assms this] fm_label [OF assms, of 2]]
  show "fm tierRe (buildConditionStr nt (tier_conditions t) @ 32 # 63 # 32 # quoted nt t @ X) [] X (tierCaps nt t True)"
    unfolding tierRe_def tierCaps_def tier_simps by simp
qed

text \<open>What the parser makes of the captures.\<close>

lemma cap_body:
  assumes "\<And>k. n \<le> k \<Longrightarrow> map_of C k = None"
  shows "cap (bodyCaps nt t n C) k =
    (if k = n then Some (priceText nt (input_unit_cost t)) else if k = n + 1 then Some (priceText nt (output_unit_cost t))
     else if n + 2 \<le> k \<and> k < n + 9
     then (if unit_cost t (BILLING_CACHE_VAR_MAP ! (k - (n + 2))) \<noteq> 0
           then Some (nt (unit_cost t (BILLING_CACHE_VAR_MAP ! (k - (n + 2))))) else None)
     else map_of C k)"
  unfolding cap_def bodyCaps_def using assms
  by (subst map_of_extraCaps) (auto simp: distinct_extras)

lemma extra_number:
  "map_of (zip BILLING_CACHE_VAR_MAP [n..<n + 7]) v = Some k \<Longrightarrow> n \<le> k \<and> k < n + 7 \<and> BILLING_CACHE_VAR_MAP ! (k - n) = v"
  using map_of_SomeD [of "zip BILLING_CACHE_VAR_MAP [n..<n + 7]" v k] by (auto simp: in_set_zip)

lemma extra_numbered: "\<exists>k. map_of (zip BILLING_CACHE_VAR_MAP [n..<n + 7]) v = Some k"
  by (rule iffD1 [OF map_of_zip_is_Some all_extras]) (simp add: distinct_extras)

lemma matched_body:
  assumes "tier_ok nt tn t" "\<And>k. n < k \<Longrightarrow> map_of C k = None" "map_of C n = Some (label t)"
  shows "matchedTier tn n (tier_conditions t) (bodyCaps nt t (n + 1) C) = t"
proof -
  have "map_of C k = None" if "n + 1 \<le> k" for k using assms(2) that by simp
  note caps = cap_body [of "n + 1" C nt t, OF this, simplified]
  have "nullish (case map_of (zip BILLING_CACHE_VAR_MAP [n + 3..<n + 10]) v of None \<Rightarrow> None
      | Some k \<Rightarrow> Option.bind (cap (bodyCaps nt t (n + 1) C) k) tn) 0 = unit_cost t v" for v
  proof -
    obtain k where k: "map_of (zip BILLING_CACHE_VAR_MAP [n + 3..<n + 10]) v = Some k"
      using extra_numbered [of "n + 3" v] by (auto simp: ac_simps)
    with extra_number [of "n + 3" v k] have kn: "n + 3 \<le> k" "k < n + 10" "BILLING_CACHE_VAR_MAP ! (k - (n + 3)) = v"
      by (auto simp: ac_simps)
    then have "cap (bodyCaps nt t (n + 1) C) k = (if unit_cost t v \<noteq> 0 then Some (nt (unit_cost t v)) else None)"
      by (simp add: caps eval_nat_numeral)
    then show ?thesis using k extras_ok [OF assms(1), of v] by (simp add: price_ok_def)
  qed
  then have costs: "(\<lambda>v. nullish (case map_of (zip BILLING_CACHE_VAR_MAP [n + 3..<n + 10]) v of None \<Rightarrow> None
      | Some k \<Rightarrow> Option.bind (cap (bodyCaps nt t (n + 1) C) k) tn) 0) = unit_cost t" by (rule ext)
  obtain i out where io: "input_unit_cost t = Some i" "output_unit_cost t = Some out" "price_ok nt tn i" "price_ok nt tn out"
    using assms(1) by (rule tier_okE)
  then have base: "Option.bind (cap (bodyCaps nt t (n + 1) C) (n + 1)) tn = Some i"
    "Option.bind (cap (bodyCaps nt t (n + 1) C) (n + 2)) tn = Some out" "cap (bodyCaps nt t (n + 1) C) n = Some (label t)"
    using assms(3) by (simp_all add: caps priceText_def price_ok_def eval_nat_numeral)
  have mode: "cache_mode t = (if unit_cost t CacheCreate1h > 0 then CACHE_MODE_TIMED else CACHE_MODE_GENERIC)"
    using assms(1) by (simp add: tier_ok_def)
  show ?thesis
    unfolding matchedTier_def base normalizeVisualTier_def getTierCacheMode_def PartialTier.simps option.simps nullish_simps
      costs fun_cong [OF costs, of CacheCreate1h] mode [symmetric] io(1, 2) [symmetric] by simp
qed

lemma normalize_tier [simp]: "normalizeVisualTier (fullTier t) = t"
  by (simp add: normalizeVisualTier_def fullTier_def getTierCacheMode_def)

lemma normalize_config: "ts \<noteq> [] \<Longrightarrow> normalizeVisualConfig (Some ts) = ts"
  by (simp add: normalizeVisualConfig_def)

lemma matched_tier:
  assumes "tier_ok nt tn t" "withGuard \<longleftrightarrow> tier_conditions t \<noteq> []"
  shows "matchedTier tn 2 (parseConditions tn (cap (tierCaps nt t withGuard) 1)) (tierCaps nt t withGuard) = t"
proof -
  let ?C = "(2 :: nat, label t) # (if withGuard then [(1, buildConditionStr nt (tier_conditions t))] else [])"
  have "cap (tierCaps nt t withGuard) 1 = map_of ?C 1"
    unfolding tierCaps_def by (subst cap_body) auto
  then have "parseConditions tn (cap (tierCaps nt t withGuard) 1) = tier_conditions t"
    using assms parse_tier_conditions [of "tier_conditions t" nt tn] tier_conds_ok by (auto simp: parseConditions_def)
  moreover have "matchedTier tn 2 (tier_conditions t) (bodyCaps nt t (2 + 1) ?C) = t"
    by (rule matched_body [OF assms(1)]) auto
  ultimately show ?thesis by (simp add: tierCaps_def)
qed

section \<open>Expressions\<close>

text \<open>The configurations that an expression can represent: prices and limits have texts that are read back, labels
  are not empty and have no quote, and when there are several tiers, all but the last have tier_conditions.\<close>

definition config_ok :: "(jsnum \<Rightarrow> jsstr) \<Rightarrow> (jsstr \<Rightarrow> jsnum option) \<Rightarrow> VisualConfig \<Rightarrow> bool" where
  "config_ok nt tn ts \<longleftrightarrow> ts \<noteq> [] \<and> list_all (tier_ok nt tn) ts \<and>
     (length ts > 1 \<longrightarrow> list_all (\<lambda>t. tier_conditions t \<noteq> []) (butlast ts) \<and> tier_conditions (last ts) = [])"

text \<open>The expression as a chain of withGuard tiers.\<close>

fun chainText :: "(jsnum \<Rightarrow> jsstr) \<Rightarrow> VisualConfig \<Rightarrow> jsstr" where
  "chainText nt [] = []"
| "chainText nt [t] = quoted nt t"
| "chainText nt (t # u # ts) =
     buildConditionStr nt (tier_conditions t) @ 32 # 63 # 32 # quoted nt t @ 32 # 58 # 32 # chainText nt (u # ts)"

fun chain :: "VisualConfig \<Rightarrow> bool" where
  "chain [] = False"
| "chain [t] = (tier_conditions t = [])"
| "chain (t # u # ts) = (tier_conditions t \<noteq> [] \<and> chain (u # ts))"

lemma chain_iff: "chain ts \<longleftrightarrow> ts \<noteq> [] \<and> list_all (\<lambda>t. tier_conditions t \<noteq> []) (butlast ts) \<and> tier_conditions (last ts) = []"
  by (induction ts rule: chain.induct) auto

lemma cond_str_Nil: "buildConditionStr nt cs = [] \<longleftrightarrow> cs = []"
  by (cases cs) (simp_all add: cond_str cond_text, simp add: buildConditionStr_def)

lemma tierPart_last: "label t \<noteq> [] \<Longrightarrow> i + 1 = n \<Longrightarrow> tierPart nt n i t = quoted nt t"
  by (auto simp: tierPart_def Let_def quoted_text)

lemma tierPart_withGuard:
  "label t \<noteq> [] \<Longrightarrow> i + 1 < n \<Longrightarrow> tier_conditions t \<noteq> [] \<Longrightarrow>
     tierPart nt n i t = buildConditionStr nt (tier_conditions t) @ 32 # 63 # 32 # quoted nt t"
  by (auto simp: tierPart_def Let_def quoted_text cond_str_Nil tier_simps)

lemma join_chain:
  "chain ts \<Longrightarrow> list_all (\<lambda>t. label t \<noteq> []) ts \<Longrightarrow> k + length ts = n \<Longrightarrow>
     join (js '' : '') (map (\<lambda>(i, t). tierPart nt n i t) (enumerate k ts)) = chainText nt ts"
proof (induction ts arbitrary: k rule: chain.induct)
  case (3 t u ts)
  then have "join (js '' : '') (map (\<lambda>(i, t). tierPart nt n i t) (enumerate (Suc k) (u # ts))) = chainText nt (u # ts)"
    by simp
  then show ?case using 3 by (simp add: tierPart_withGuard) (simp add: tier_simps)
qed (simp_all add: tierPart_last)

lemma generate_chain:
  assumes "config_ok nt tn ts" "length ts > 1"
  shows "generateExprFromVisualConfig nt (Some ts) = chainText nt ts" "chain ts"
proof -
  obtain t u us where ts: "ts = t # u # us" using assms(2) by (cases ts; cases "tl ts") auto
  show c: "chain ts" using assms by (simp add: chain_iff config_ok_def)
  have "list_all (\<lambda>t. label t \<noteq> []) ts" using assms(1) by (auto simp: config_ok_def list_all_iff tier_ok_def)
  from join_chain [OF c this, of 0 "length ts" nt]
  show "generateExprFromVisualConfig nt (Some ts) = chainText nt ts"
    unfolding ts by (simp add: generateExprFromVisualConfig_def)
qed

lemma rall_Suc_fm: "fm r X [] Y D \<Longrightarrow> \<exists>q. rall (Suc n) r p X = D # rall n r q Y"
  by (elim rfind_fm [where p = p]) auto

lemma chain_length: "length ts \<le> length (chainText nt ts)"
  by (induction ts rule: chain.induct) (auto simp: quoted_def)

text \<open>What an expression for the tiers of a text has to provide: it does not match between two tiers, and where a
  tier starts, with or without its guard, it matches the tier and captures what \<open>caps\<close> says.\<close>

locale tier_pattern =
  fixes re :: rx and caps :: "VisualTier \<Rightarrow> bool \<Rightarrow> (nat \<times> jsstr) list"
    and nt :: "jsnum \<Rightarrow> jsstr" and tn :: "jsstr \<Rightarrow> jsnum option"
  assumes between: "c \<notin> {112, 99, 108, 116} \<Longrightarrow> nm re (c # X)"
    and at_tier: "tier_ok nt tn t \<Longrightarrow> fm re (quoted nt t @ X) [] X (caps t False)"
    and at_guard: "tier_ok nt tn t \<Longrightarrow> tier_conditions t \<noteq> [] \<Longrightarrow>
      fm re (buildConditionStr nt (tier_conditions t) @ 32 # 63 # 32 # quoted nt t @ X) [] X (caps t True)"
    and quote: "needs 34 re"
begin

lemma rfind_colon: "rfind re p (32 # 58 # 32 # X) = rfind re (Some 32) X"
  using rfind_nm [OF between, of 32 p] rfind_nm [OF between, of 58 "Some 32"] rfind_nm [OF between, of 32 "Some 58"]
  by (simp del: rfind.simps)

lemma rall_colon: "\<exists>q. rall n re p (32 # 58 # 32 # X) = rall n re q X"
  by (rule exI [of _ "Some 32"], cases n) (simp_all add: rfind_colon del: rfind.simps)

lemma rall_none: "34 \<notin> set X \<Longrightarrow> rall n re p X = []"
  by (cases n) (simp_all add: rfind_None [OF quote])

lemma rall_chain:
  "chain ts \<Longrightarrow> list_all (tier_ok nt tn) ts \<Longrightarrow> length ts \<le> n \<Longrightarrow>
     rall n re p (chainText nt ts) = map (\<lambda>t. caps t (tier_conditions t \<noteq> [])) ts"
proof (induction ts arbitrary: p n rule: chain.induct)
  case (2 t)
  then obtain m where m: "n = Suc m" by (cases n) auto
  have "fm re (quoted nt t) [] [] (caps t False)" using at_tier [of t "[]"] 2 by simp
  from rall_Suc_fm [OF this, of m p] show ?case using 2 m by (auto simp: rall_none)
next
  case (3 t u ts)
  then obtain m where m: "n = Suc m" by (cases n) auto
  let ?X = "32 # 58 # 32 # chainText nt (u # ts)"
  have "fm re (chainText nt (t # u # ts)) [] ?X (caps t True)" using at_guard [of t ?X] 3 by simp
  from rall_Suc_fm [OF this, of m p] obtain q where q: "rall n re p (chainText nt (t # u # ts)) = caps t True # rall m re q ?X"
    unfolding m by blast
  obtain q' where "rall m re q ?X = rall m re q' (chainText nt (u # ts))" using rall_colon by blast
  with q 3 m show ?case by simp
qed simp

lemma exec_chain:
  assumes "chain ts" "list_all (tier_ok nt tn) ts"
  shows "exec_all re (chainText nt ts) = map (\<lambda>t. caps t (tier_conditions t \<noteq> [])) ts"
  unfolding exec_all_def by (rule rall_chain [OF assms]) (simp add: chain_length le_SucI)

text \<open>One tier with a guard, followed by a text without tiers.\<close>

lemma exec_guarded:
  assumes "tier_ok nt tn t" "tier_conditions t \<noteq> []" "34 \<notin> set Y"
  shows "exec_all re (buildConditionStr nt (tier_conditions t) @ 32 # 63 # 32 # quoted nt t @ Y) = [caps t True]"
  unfolding exec_all_def using rall_Suc_fm [OF at_guard [OF assms(1, 2)]] rall_none [OF assms(3)] by metis

lemma exec_none: "34 \<notin> set X \<Longrightarrow> exec_all re X = []"
  unfolding exec_all_def by (rule rall_none)

end

lemma needs_tier: "needs 34 tierRe"
  by (simp add: tierRe_def labelR_def guardR_def)

interpretation editor: tier_pattern tierRe "tierCaps nt" nt tn for nt tn
  by unfold_locales (use nm_tier in blast, rule fm_tier(1), assumption, rule fm_tier(2), assumption+, rule needs_tier)

lemma nm_single: "breaks (\<lambda>d. d = 116) X \<Longrightarrow> nm singleRe X"
  unfolding singleRe_def by (rule nm_label)

lemma cond_str_start: "cs \<noteq> [] \<Longrightarrow> \<exists>c X. buildConditionStr nt cs = c # X \<and> c \<in> {112, 99, 108}"
  by (cases cs; cases "cond_var (hd cs)") (auto simp: cond_str cond_text tier_simps)

lemma stripVersion_other: "c \<noteq> 118 \<Longrightarrow> stripVersion (c # X) = c # X"
  by (simp add: stripVersion_def)

text \<open>An expression that starts with a condition is read by the pattern of several tiers.\<close>

lemma parse_guarded:
  assumes "X = buildConditionStr nt cs @ Y" "cs \<noteq> []" "generateExprFromVisualConfig nt (Some ts) = X" "ts \<noteq> []"
    and "map (\<lambda>m. matchedTier tn 2 (parseConditions tn (cap m 1)) m) (exec_all tierRe X) = ts"
  shows "tryParseVisualConfig nt tn X = Some ts"
proof -
  obtain c Z where c: "X = c # Z" "c \<in> {112, 99, 108}" using cond_str_start [OF assms(2), of nt] assms(1) by auto
  have "match_whole singleRe X = None" using c by (intro match_whole_nm nm_single) auto
  moreover have "stripVersion X = X" "X \<noteq> []" using c by (auto simp: stripVersion_other)
  ultimately show ?thesis
    using assms(3-5) by (simp add: tryParseVisualConfig_def normalize_config Let_def)
qed

lemma parse_single:
  assumes "tier_ok nt tn t" "tier_conditions t = []"
  shows "tryParseVisualConfig nt tn (quoted nt t) = Some [t]"
proof -
  have m: "match_whole singleRe (quoted nt t) = Some (bodyCaps nt t (1 + 1) [(1, label t)])"
    using fm_label [OF assms(1), of 1 "[]" "[]"]
    by (intro match_whole_fm) (simp add: singleRe_def tier_simps numeral_2_eq_2)
  have "matchedTier tn 1 [] (bodyCaps nt t (1 + 1) [(1, label t)]) = t"
    using matched_body [OF assms(1), of 1 "[(1, label t)]"] assms(2) by simp
  moreover have "stripVersion (quoted nt t) = quoted nt t" "quoted nt t \<noteq> []"
    by (simp_all add: quoted_def tier_simps stripVersion_other)
  ultimately show ?thesis
    by (simp only: tryParseVisualConfig_def Let_def m option.case if_False) (simp add: normalize_config)
qed

lemma parse_single_guarded:
  assumes "tier_ok nt tn t" "tier_conditions t \<noteq> []"
  shows "tryParseVisualConfig nt tn (generateExprFromVisualConfig nt (Some [t])) = Some [t]"
proof -
  let ?Y = "32 # 63 # 32 # quoted nt t @ js '' : p * 0 + c * 0''"
  have g: "generateExprFromVisualConfig nt (Some [t]) = buildConditionStr nt (tier_conditions t) @ ?Y"
    using assms by (simp add: generateExprFromVisualConfig_def Let_def cond_str_Nil quoted_text tier_ok_def)
      (simp add: tier_simps)
  have "exec_all tierRe (buildConditionStr nt (tier_conditions t) @ ?Y) = [tierCaps nt t True]"
    by (rule editor.exec_guarded [OF assms]) (simp add: tier_simps)
  then have "map (\<lambda>m. matchedTier tn 2 (parseConditions tn (cap m 1)) m)
      (exec_all tierRe (buildConditionStr nt (tier_conditions t) @ ?Y)) = [t]"
    using matched_tier [OF assms(1), of True] assms(2) by (simp only: list.map) simp
  from parse_guarded [OF refl assms(2) g _ this] show ?thesis unfolding g by simp
qed

lemma parse_chain:
  assumes "config_ok nt tn ts" "length ts > 1"
  shows "tryParseVisualConfig nt tn (generateExprFromVisualConfig nt (Some ts)) = Some ts"
proof -
  note gen = generate_chain [OF assms]
  have ok: "list_all (tier_ok nt tn) ts" using assms(1) by (simp add: config_ok_def)
  obtain t u us where ts: "ts = t # u # us" using assms(2) by (cases ts; cases "tl ts") auto
  have "exec_all tierRe (chainText nt ts) = map (\<lambda>t. tierCaps nt t (tier_conditions t \<noteq> [])) ts"
    by (rule editor.exec_chain [OF gen(2) ok])
  then have "map (\<lambda>m. matchedTier tn 2 (parseConditions tn (cap m 1)) m) (exec_all tierRe (chainText nt ts)) = ts"
    using ok matched_tier by (simp add: list_all_iff map_idI)
  moreover have "tier_conditions t \<noteq> []" using gen(2) ts by simp
  moreover have "chainText nt ts = buildConditionStr nt (tier_conditions t) @ 32 # 63 # 32 # quoted nt t @ 32 # 58 # 32 # chainText nt (u # us)"
    by (simp add: ts)
  ultimately show ?thesis using gen(1) ts by (intro parse_guarded) auto
qed

lemma parse_generated:
  assumes "config_ok nt tn ts"
  shows "tryParseVisualConfig nt tn (generateExprFromVisualConfig nt (Some ts)) = Some ts"
proof -
  consider "length ts > 1" | t where "ts = [t]" using assms by (cases ts; cases "tl ts") (auto simp: config_ok_def)
  then show ?thesis
  proof cases
    case 2
    then have t: "tier_ok nt tn t" using assms by (simp add: config_ok_def)
    show ?thesis
    proof (cases "tier_conditions t = []")
      case True
      then have "generateExprFromVisualConfig nt (Some ts) = quoted nt t"
        using 2 t by (simp add: generateExprFromVisualConfig_def Let_def cond_str_Nil quoted_text tier_ok_def)
      then show ?thesis using parse_single [OF t True] 2 by simp
    qed (use parse_single_guarded [OF t] 2 in simp)
  qed (rule parse_chain [OF assms])
qed

text \<open>An expression of one tier is not compared with what it is read as: a price whose text is in the class but is no
  number is read as no number, and written as zero.\<close>

lemma malformed_price_read:
  assumes "tn (js ''1-2'') = None" "tn (js ''4'') = Some 4"
  shows "\<exists>t. tryParseVisualConfig nt tn (js ''tier('' @ [34] @ js ''a'' @ [34] @ js '', p * 1-2 + c * 4)'') = Some [t] \<and>
     input_unit_cost t = None \<and> prefix (js ''p * '' @ nt 0 @ js '' + c * '') (buildTierBodyExpr nt t)"
proof -
  define nt' where "nt' n = (if n = 1 then js ''1-2'' else js ''4'')" for n :: jsnum
  define tn' where "tn' s = (if s = js ''1-2'' then Some 1 else Some 4 :: jsnum option)" for s
  define t where "t = \<lparr>label = js ''a'', tier_conditions = [], input_unit_cost = Some 1, output_unit_cost = Some 4,
    cache_mode = CACHE_MODE_GENERIC, unit_cost = (\<lambda>_. 0)\<rparr>"
  let ?x = "js ''tier('' @ [34] @ js ''a'' @ [34] @ js '', p * 1-2 + c * 4)''"
  have ok: "tier_ok nt' tn' t"
    by (simp add: tier_ok_def t_def nt'_def tn'_def price_ok_def BILLING_CACHE_VAR_MAP_def) (simp add: js_def jsc_def priceChar_def is_digit_def)
  have x: "quoted nt' t = ?x"
    by (simp add: quoted_def body_text extraTexts_def t_def priceText_def nt'_def) (simp add: js_def jsc_def)
  let ?D = "bodyCaps nt' t (1 + 1) [(1, label t)]"
  have "match_whole singleRe ?x = Some ?D"
    using fm_label [OF ok, of 1 "[]" "[]"] unfolding x
    by (intro match_whole_fm) (simp add: singleRe_def tier_simps numeral_2_eq_2)
  moreover have "stripVersion ?x = ?x" by (simp add: tier_simps stripVersion_other)
  ultimately have p: "tryParseVisualConfig nt tn ?x = Some [matchedTier tn 1 [] ?D]"
    by (simp only: tryParseVisualConfig_def Let_def option.case) (simp add: normalize_config)
  have caps: "cap ?D 1 = Some (js ''a'')" "cap ?D 2 = Some (js ''1-2'')"
    by (subst cap_body; simp add: t_def priceText_def nt'_def)+
  then have "input_unit_cost (matchedTier tn 1 [] ?D) = None"
    using assms(1) by (simp add: matchedTier_def normalizeVisualTier_def numeral_2_eq_2)
  then show ?thesis
    unfolding p by (intro exI [of _ "matchedTier tn 1 [] ?D"]) (simp add: body_text priceText_def tier_simps prefix_def, simp add: js_def jsc_def)
qed

section \<open>Sample\<close>

text \<open>Numbers without fractions and their texts, and a price with two tiers.\<close>

definition wholeText :: "jsnum \<Rightarrow> jsstr" where
  "wholeText n = show_nat (nat \<lfloor>n\<rfloor>)"

definition wholeNumber :: "jsstr \<Rightarrow> jsnum option" where
  "wholeNumber s = Some (of_nat (parse_digits s))"

lemma whole_ok: "price_ok wholeText wholeNumber (of_nat n)" "limit_ok wholeText wholeNumber (of_nat n)"
  using show_nat_digits [of n]
  by (auto simp: price_ok_def limit_ok_def wholeText_def wholeNumber_def parse_digits_show_nat list_all_iff priceChar_def limitChar_def)

lemma whole_numeral: "price_ok wholeText wholeNumber (numeral k)" "limit_ok wholeText wholeNumber (numeral k)"
  using whole_ok [of "numeral k"] by simp_all

definition sampleTier :: "jsstr \<Rightarrow> TierConditionInput list \<Rightarrow> jsnum \<Rightarrow> VisualTier" where
  "sampleTier l cs n = \<lparr>label = l, tier_conditions = cs, input_unit_cost = Some n, output_unit_cost = Some 15,
     cache_mode = CACHE_MODE_TIMED, unit_cost = (\<lambda>v. if v = CacheRead then 2 else if v = CacheCreate1h then 6 else 0)\<rparr>"

definition sampleTiers :: VisualConfig where
  "sampleTiers =
     [sampleTier (js ''standard'') [\<lparr>cond_var = VarLen, cond_op = OpLe, cond_value = Some 200000\<rparr>,
         \<lparr>cond_var = VarC, cond_op = OpGt, cond_value = Some 10\<rparr>] 3,
      sampleTier (js ''long_context'') [] 6]"

lemma sample_ok: "config_ok wholeText wholeNumber sampleTiers"
  by (simp add: config_ok_def sampleTiers_def sampleTier_def tier_ok_def whole_numeral BILLING_CACHE_VAR_MAP_def)
     (simp add: js_def jsc_def)

section \<open>Property\<close>

text \<open>C19: The expression that the price editor writes for a configuration of tiers is read back as the same configuration:
  whatever mixture of conditions, base prices and further prices the tiers have, as long as every price and
  limit has a text that \<open>Number\<close> reads back, and all tiers but the last of several are guarded.\<close>

theorem tiers_roundtrip:
  assumes "config_ok nt tn ts"
  shows "tryParseVisualConfig nt tn (generateExprFromVisualConfig nt (Some ts)) = Some ts"
  using parse_generated [OF assms] .

theorem tiers_roundtrip_witness:
  "tryParseVisualConfig wholeText wholeNumber (generateExprFromVisualConfig wholeText (Some sampleTiers)) = Some sampleTiers"
  using tiers_roundtrip [OF sample_ok] .

end
