(* ===== verification/TierEditorProperties.thy ===== *)
theory TierEditorProperties
  imports TierEditor TierRoundtrip BillingProperties
begin

text \<open>
  What the price editor guarantees: an editor that is opened on texts of its own, and then edited, always shows
  what it has sent; and the texts that it loses.
\<close>

section \<open>Generated expressions beside rules\<close>

text \<open>Labels without parentheses, and all tiers but the last guarded.\<close>

definition editable :: "tenv \<Rightarrow> VisualConfig \<Rightarrow> bool" where
  "editable E ts \<longleftrightarrow> config_ok (te_text E) (te_num E) ts \<and> chain ts \<and> list_all (\<lambda>t. no_parens (label t)) ts"

definition clear :: "jsstr \<Rightarrow> bool" where
  "clear s \<longleftrightarrow> (\<forall>cur rest. \<not> prefix [42, 32] rest \<longrightarrow>
     splitTop (js '' * '') 0 0 cur (s @ rest) = splitTop (js '' * '') 0 0 (cur @ s) rest)"

lemma clear_plain:
  assumes "no_parens s" "42 \<notin> set s"
  shows "clear s"
  unfolding clear_def
proof (intro allI impI)
  fix cur rest assume rest: "\<not> prefix [42, 32 :: jschar] rest"
  have "splitTop (js '' * '') 0 0 cur (s @ rest) = splitTop (js '' * '') 0 (0 + depth s) (cur @ s) rest"
  proof (rule splitTop_pass)
    fix u c v assume s: "s = u @ c # v"
    show "\<not> prefix (js '' * '') (c # v @ rest)"
      using assms(2) s rest by (cases v) (auto simp: tier_simps)
  qed
  then show "splitTop (js '' * '') 0 0 cur (s @ rest) = splitTop (js '' * '') 0 0 (cur @ s) rest"
    by (simp add: depth_no_parens [OF assms(1)])
qed

lemma clear_paren: "nested s \<Longrightarrow> clear (js ''('' @ s @ js '')'')"
  unfolding clear_def using mult.split_paren by simp

lemma clear_append: "clear s \<Longrightarrow> clear t \<Longrightarrow> t \<noteq> [] \<Longrightarrow> hd t \<noteq> 42 \<Longrightarrow> clear (s @ t)"
  unfolding clear_def by (cases t) auto

lemma clear_split: "clear s \<Longrightarrow> splitTop (js '' * '') 0 0 [] s = [trim s]"
  unfolding clear_def by (drule spec [of _ "[]"], drule spec [of _ "[]"]) simp

subsection \<open>The parts of an expression\<close>

lemma tier_parens [tier_simps]: "js ''('' = [40]" "js '')'' = [41]" "js ''tier'' = [116, 105, 101, 114]"
  by (simp_all add: js_def jsc_def)

lemma paren_units: "jsc CHR ''('' = 40" "jsc CHR '')'' = 41"
  by (simp_all add: jsc_def)

lemma plain_units: "\<forall>c\<in>set s. c \<notin> {40, 41} \<Longrightarrow> no_parens s"
  by (auto simp: no_parens_def paren_units)

lemma price_plain: "list_all priceChar s \<Longrightarrow> no_parens s"
  by (rule plain_units) (auto simp: list_all_iff priceChar_def is_digit_def word_le_nat_alt)

lemma number_plain:
  "price_ok nt tn n \<Longrightarrow> no_parens (nt n)"
  by (simp add: price_ok_def price_plain)

lemma extra_plain: "no_parens (extraKey v)"
  by (cases v) (simp_all add: no_parens_def paren_units tier_simps)

lemma no_parens_Nil: "no_parens []"
  by (simp add: no_parens_def)

lemma no_parens_Cons: "no_parens (c # s) \<longleftrightarrow> c \<noteq> 40 \<and> c \<noteq> 41 \<and> no_parens s"
  by (auto simp: no_parens_def paren_units)

lemma no_parens_concat: "(\<And>s. s \<in> set ss \<Longrightarrow> no_parens s) \<Longrightarrow> no_parens (concat ss)"
  by (induction ss) (auto simp: no_parens_append no_parens_def)

lemma extras_plain:
  assumes "tier_ok nt tn t"
  shows "no_parens (extraTexts nt t vs)"
  unfolding extraTexts_def
  by (rule no_parens_concat) (auto simp: extraPart_def no_parens_Cons no_parens_append extra_plain tier_simps
    intro: number_plain [OF extras_ok [OF assms]])

lemma body_plain:
  assumes "tier_ok nt tn t"
  shows "no_parens (buildTierBodyExpr nt t)"
proof -
  obtain i out where "input_unit_cost t = Some i" "output_unit_cost t = Some out" "price_ok nt tn i" "price_ok nt tn out"
    using assms by (rule tier_okE)
  then show ?thesis
    by (simp add: body_text no_parens_Cons no_parens_append priceText_def extras_plain [OF assms] number_plain)
qed

lemma quoted_parts:
  "quoted nt t = js ''tier'' @ js ''('' @ ([34] @ label t @ [34, 44, 32] @ buildTierBodyExpr nt t) @ js '')''"
  by (simp add: quoted_def tier_simps)

lemma quoted_inner:
  assumes "tier_ok nt tn t" "no_parens (label t)"
  shows "nested ([34] @ label t @ [34, 44, 32] @ buildTierBodyExpr nt t)"
  using assms body_plain by (intro nested_no_parens) (simp add: no_parens_Cons no_parens_append)

lemma quoted_nested:
  assumes "tier_ok nt tn t" "no_parens (label t)"
  shows "nested (quoted nt t)" "clear (quoted nt t)"
proof -
  have "no_parens (js ''tier'')" by (simp add: tier_simps no_parens_Cons no_parens_Nil)
  then show "nested (quoted nt t)"
    unfolding quoted_parts by (rule nested_append [OF nested_no_parens nested_paren [OF quoted_inner [OF assms]]])
  show "clear (quoted nt t)" unfolding quoted_parts
    by (rule clear_append [OF clear_plain clear_paren [OF quoted_inner [OF assms]]])
       (simp_all add: tier_simps no_parens_Cons no_parens_Nil)
qed

lemma cond_plain:
  assumes "cond_ok nt tn c"
  shows "no_parens (conditionText nt c)" "42 \<notin> set (conditionText nt c)"
proof -
  have l: "list_all limitChar (limitText nt c)" using assms by (simp add: cond_ok_def)
  then have "no_parens (limitText nt c)" by (intro price_plain) (auto simp: list_all_iff limit_price)
  then show "no_parens (conditionText nt c)"
    unfolding cond_text by (cases "cond_var c"; cases "cond_op c") (simp_all add: tier_simps no_parens_Cons)
  have "42 \<notin> set (limitText nt c)" using l by (auto simp: list_all_iff limitChar_def is_digit_def word_le_nat_alt)
  then show "42 \<notin> set (conditionText nt c)"
    unfolding cond_text by (cases "cond_var c"; cases "cond_op c") (simp_all add: tier_simps)
qed

lemma guard_plain:
  assumes "tier_ok nt tn t"
  shows "no_parens (buildConditionStr nt (tier_conditions t))" "42 \<notin> set (buildConditionStr nt (tier_conditions t))"
proof -
  have "no_parens (buildConditionStr nt cs) \<and> 42 \<notin> set (buildConditionStr nt cs)"
    if "\<And>c. c \<in> set cs \<Longrightarrow> cond_ok nt tn c" for cs
  proof (cases cs)
    case Nil
    then show ?thesis by (simp add: buildConditionStr_def no_parens_def)
  next
    case (Cons d ds)
    have "no_parens (andTail nt ds)" "42 \<notin> set (andTail nt ds)"
      unfolding andTail_def using that Cons cond_plain [of nt tn]
      by (auto intro!: no_parens_concat simp: no_parens_Cons)
    then show ?thesis using cond_plain [OF that [of d]] Cons by (simp add: cond_str no_parens_append)
  qed
  then show "no_parens (buildConditionStr nt (tier_conditions t))" "42 \<notin> set (buildConditionStr nt (tier_conditions t))"
    using tier_conds_ok [OF assms] by blast+
qed

lemma chain_parts:
  assumes "chain ts" "list_all (tier_ok nt tn) ts" "list_all (\<lambda>t. no_parens (label t)) ts"
  shows "nested (chainText nt ts) \<and> clear (chainText nt ts) \<and> chainText nt ts \<noteq> [] \<and> last (chainText nt ts) = 41 \<and>
     hd (chainText nt ts) \<in> {112, 99, 108, 116}"
  using assms
proof (induction ts rule: chain.induct)
  case (2 t)
  then show ?case using quoted_nested [of nt tn t] by (simp add: quoted_parts) (simp add: tier_simps)
next
  case (3 t u ts)
  let ?c = "buildConditionStr nt (tier_conditions t)" and ?r = "chainText nt (u # ts)"
  have IH: "nested ?r" "clear ?r" "?r \<noteq> []" "last ?r = 41" "hd ?r \<in> {112, 99, 108, 116}" using 3 by simp_all
  have t: "tier_ok nt tn t" "no_parens (label t)" using 3 by simp_all
  have q: "[32, 63, 32] @ quoted nt t @ [32, 58, 32] @ ?r = 32 # 63 # 32 # quoted nt t @ 32 # 58 # 32 # ?r" by simp
  have plain: "no_parens [32, 63, 32]" "no_parens [32, 58, 32]" by (simp_all add: no_parens_Cons no_parens_Nil)
  have "nested (?c @ [32, 63, 32] @ quoted nt t @ [32, 58, 32] @ ?r)"
    by (intro nested_append nested_no_parens guard_plain [OF t(1)] plain quoted_nested [OF t] IH)
  moreover have "clear (?c @ [32, 63, 32] @ quoted nt t @ [32, 58, 32] @ ?r)"
    by (rule clear_append [OF clear_plain [OF guard_plain [OF t(1)]]
          clear_append [OF clear_plain [OF plain(1)] clear_append [OF quoted_nested(2) [OF t] clear_append [OF clear_plain [OF plain(2)] IH(2)]]]])
       (use IH in \<open>auto simp: quoted_def tier_simps\<close>)
  moreover obtain c Z where "?c = c # Z" "c \<in> {112, 99, 108}" using cond_str_start [of "tier_conditions t" nt] 3 by auto
  ultimately show ?case using IH by (auto simp: q)
qed simp

subsection \<open>Splitting what was combined\<close>

lemma editable_text:
  assumes "editable E ts"
  shows "generateExpr E (Some ts) = chainText (te_text E) ts"
proof (cases "length ts > 1")
  case True
  then show ?thesis using assms generate_chain(1) by (auto simp: editable_def)
next
  case False
  then obtain t where "ts = [t]" using assms by (cases ts) (auto simp: editable_def config_ok_def)
  then show ?thesis using assms
    by (simp add: editable_def config_ok_def generateExprFromVisualConfig_def Let_def cond_str_Nil quoted_text tier_ok_def)
qed

lemma generated_parts:
  assumes "editable E ts"
  shows "nested (generateExpr E (Some ts))" "clear (generateExpr E (Some ts))" "generateExpr E (Some ts) \<noteq> []"
    "last (generateExpr E (Some ts)) = 41" "hd (generateExpr E (Some ts)) \<in> {112, 99, 108, 116}"
    "trim (generateExpr E (Some ts)) = generateExpr E (Some ts)"
proof -
  have "chain ts" "list_all (tier_ok (te_text E) (te_num E)) ts" "list_all (\<lambda>t. no_parens (label t)) ts"
    using assms by (simp_all add: editable_def config_ok_def)
  from chain_parts [OF this] show parts: "nested (generateExpr E (Some ts))" "clear (generateExpr E (Some ts))"
      "generateExpr E (Some ts) \<noteq> []" "last (generateExpr E (Some ts)) = 41" "hd (generateExpr E (Some ts)) \<in> {112, 99, 108, 116}"
    by (simp_all add: editable_text [OF assms])
  then show "trim (generateExpr E (Some ts)) = generateExpr E (Some ts)"
    by (intro trim_id) (auto simp: tier_simps)
qed

lemma generated_piece:
  assumes "editable E ts" shows "mult.piece (generateExpr E (Some ts))"
  unfolding mult.piece_def
proof (intro conjI allI impI)
  fix cur rest assume "rest = [] \<or> prefix (js '' * '') rest"
  then have "\<not> prefix [42, 32] rest" by (cases rest) (auto simp: tier_simps)
  then show "splitTop (js '' * '') 0 0 cur (generateExpr E (Some ts) @ rest) =
      splitTop (js '' * '') 0 0 (cur @ generateExpr E (Some ts)) rest"
    using generated_parts(2) [OF assms] by (simp add: clear_def)
qed (rule generated_parts(6) [OF assms])

lemma paren_no_rule:
  assumes "nested g" "g \<noteq> []" "last g = 41"
  shows "tryParseRequestRuleExpr j n (js ''('' @ g @ js '')'') = Inr None"
proof -
  define p where "p = js ''('' @ g @ js '')''"
  have piece: "mult.piece p" unfolding p_def by (rule mult.piece_paren [OF assms(1)])
  have ne: "p \<noteq> []" by (simp add: p_def)
  have split: "splitTopLevelMultiply p = [p]" using splitTopLevelMultiply_join [of "[p]"] piece ne by simp
  have "\<not> suffix (js '' : 1)'') (tl p)"
  proof
    assume "suffix (js '' : 1)'') (tl p)"
    then obtain u where "tl p = u @ js '' : 1)''" by (auto simp only: suffix_def)
    moreover have "tl p = g @ js '')''" by (simp add: p_def tier_simps)
    moreover have "js '' : 1)'' = js '' : 1'' @ js '')''" by (simp only: js_append [symmetric]) simp
    ultimately have "g @ js '')'' = (u @ js '' : 1'') @ js '')''" by simp
    then have "g = u @ js '' : 1''" by (simp only: append_same_eq)
    then have "last g = last (js '' : 1'')" by simp
    then show False using assms(3) by (simp add: js_def jsc_def)
  qed
  then have "matchFactor p = None" unfolding matchFactor_def by (simp only: if_False simp_thms)
  then have "tryParseRequestRuleExpr j n p = Inr None"
    unfolding tryParseRequestRuleExpr_def mult.piece_trim [OF piece] Let_def split using ne by (simp add: tryParseRuleGroupFactor_def)
  then show ?thesis unfolding p_def .
qed

lemma paren_generated:
  "editable E ts \<Longrightarrow> tryParseRequestRuleExpr j n (js ''('' @ generateExpr E (Some ts) @ js '')'') = Inr None"
  by (intro paren_no_rule generated_parts)

lemma combine_none: "editable E ts \<Longrightarrow> combineBillingExpr (generateExpr E (Some ts)) [] = generateExpr E (Some ts)"
  using generated_parts(3, 6) by (simp add: combineBillingExpr_def)

lemma split_generated:
  assumes "editable E ts" "\<forall>g\<in>set gs. savableGroup g"
  shows "splitExpr E (combineBillingExpr (generateExpr E (Some ts)) (buildRequestRuleExpr gs)) =
    Inr \<lparr>billingExpr = generateExpr E (Some ts), requestRuleExpr = buildRequestRuleExpr gs\<rparr>"
proof (cases "gs = []")
  case True
  let ?g = "generateExpr E (Some ts)"
  have "splitTopLevelMultiply ?g = [?g]"
    using splitTopLevelMultiply_join [of "[?g]"] generated_piece [OF assms(1)] generated_parts(3) [OF assms(1)] by simp
  then show ?thesis using generated_parts(3, 6) [OF assms(1)] True combine_none [OF assms(1)]
    by (simp add: buildRequestRuleExpr_def splitBillingExprAndRequestRules_def)
next
  case False
  have "\<not> hasFullOuterParens (generateExpr E (Some ts))"
    using generated_parts(3, 5) [OF assms(1)] by (cases "generateExpr E (Some ts)") (auto simp: hasFullOuterParens_def tier_simps)
  then show ?thesis
    using split_combined [OF assms(2) False _ _ _ _ paren_generated [OF assms(1)]] generated_parts [OF assms(1)] by blast
qed

lemma combine_ne: "editable E ts \<Longrightarrow> combineBillingExpr (generateExpr E (Some ts)) r \<noteq> []"
  using generated_parts(3, 6) by (auto simp: combineBillingExpr_def Let_def)

lemma rules_read: "\<forall>g\<in>set gs. savableGroup g \<Longrightarrow> ruleGroups E (buildRequestRuleExpr gs) = Inr gs"
  by (simp add: ruleGroups_def parse_rules)

lemma config_read: "editable E ts \<Longrightarrow> parseConfig E (generateExpr E (Some ts)) = Some ts"
  by (simp add: editable_def parse_generated)

section \<open>Renders\<close>

text \<open>What the editor shows and what it has sent.\<close>

definition shows_config :: "VisualConfig \<Rightarrow> RequestRuleGroup list \<Rightarrow> TierEditor \<Rightarrow> bool" where
  "shows_config ts gs s \<longleftrightarrow> visualConfig s = Some ts \<and> requestRuleGroups s = gs"

definition sent :: "tenv \<Rightarrow> VisualConfig \<Rightarrow> RequestRuleGroup list \<Rightarrow> TierEditor \<Rightarrow> bool" where
  "sent E ts gs s \<longleftrightarrow> currentExpr s = generateExpr E (Some ts) \<and> currentRequestRuleExpr s = buildRequestRuleExpr gs"

definition synced :: "tenv \<Rightarrow> TierEditor \<Rightarrow> bool" where
  "synced E s \<longleftrightarrow> (\<exists>ts gs. editable E ts \<and> (\<forall>g\<in>set gs. savableGroup g) \<and> shows_config ts gs s \<and> sent E ts gs s \<and>
     (editorMode s = RawMode \<longrightarrow> rawExpr s = combineBillingExpr (generateExpr E (Some ts)) (buildRequestRuleExpr gs)))"

abbreviation same_texts :: "TierEditor \<Rightarrow> TierEditor \<Rightarrow> bool" where
  "same_texts p s \<equiv> currentExpr p = currentExpr s \<and> currentRequestRuleExpr p = currentRequestRuleExpr s"

lemma init_sent:
  assumes "editorMode s = VisualMode" "shows_config ts gs s" "sent E ts gs s" "editable E ts" "\<forall>g\<in>set gs. savableGroup g"
  shows "\<exists>b r. initEffect E s = Inr (s\<lparr>initRef := b, rawExpr := r\<rparr>)"
proof (cases "initRef s")
  case True
  then show ?thesis by (auto simp: initEffect_def intro!: exI [of _ True] exI [of _ "rawExpr s"])
next
  case False
  have "initEffect E s = Inr (s\<lparr>initRef := True, rawExpr := combineBillingExpr (currentExpr s) (currentRequestRuleExpr s),
      requestRuleGroups := gs, visualConfig := Some ts, editorMode := VisualMode\<rparr>)"
    using assms(3-5) False by (simp add: initEffect_def sent_def rules_read config_read Let_def)
  moreover have "s\<lparr>initRef := True, rawExpr := r, requestRuleGroups := gs, visualConfig := Some ts, editorMode := VisualMode\<rparr> =
      s\<lparr>initRef := True, rawExpr := r\<rparr>" for r
    using assms(1, 2) by (cases s) (simp add: shows_config_def)
  ultimately show ?thesis by auto
qed

lemma effective_visual: "editorMode s = VisualMode \<Longrightarrow> shows_config ts gs s \<Longrightarrow> effectiveExpr E s = Inr (generateExpr E (Some ts))"
  "editorMode s = VisualMode \<Longrightarrow> shows_config ts gs s \<Longrightarrow> sentRules s = buildRequestRuleExpr gs"
  by (simp_all add: effectiveExpr_def sentRules_def shows_config_def)

lemma run_visual:
  assumes s: "editorMode s = VisualMode" "shows_config ts gs s" and ok: "editable E ts" "\<forall>g\<in>set gs. savableGroup g"
    and safe: "sent E ts gs s \<or> (\<exists>p. prev = Some p \<and> same_texts p s)"
  shows "\<exists>b r. runEffects E prev s = Inr (s\<lparr>initRef := b, rawExpr := r,
     currentExpr := generateExpr E (Some ts), currentRequestRuleExpr := buildRequestRuleExpr gs\<rparr>)"
proof -
  have "\<exists>b r. (if textsChanged prev s then initEffect E s else Inr s) = Inr (s\<lparr>initRef := b, rawExpr := r\<rparr>)"
  proof (cases "textsChanged prev s")
    case True
    then have "sent E ts gs s" using safe by (auto simp: textsChanged_def)
    then show ?thesis using init_sent [OF s _ ok] True by simp
  qed (auto intro!: exI [of _ "initRef s"] exI [of _ "rawExpr s"])
  then obtain b r where i: "(if textsChanged prev s then initEffect E s else Inr s) = Inr (s\<lparr>initRef := b, rawExpr := r\<rparr>)" by blast
  have "runEffects E prev s = Inr ((if nameChanged prev s
      then s\<lparr>initRef := b, rawExpr := r\<rparr>\<lparr>initRef := False\<rparr> else s\<lparr>initRef := b, rawExpr := r\<rparr>)
      \<lparr>currentExpr := generateExpr E (Some ts), currentRequestRuleExpr := buildRequestRuleExpr gs\<rparr>)"
    unfolding runEffects_def i effective_visual [OF s] sum.case ..
  then show ?thesis
    by (intro exI [of _ "\<not> nameChanged prev s \<and> b"] exI [of _ r]) (cases s; simp)
qed

text \<open>Nothing changes any more.\<close>

lemma run_quiet:
  assumes "same_texts p s" "modelName p = modelName s" "effectiveExpr E s = Inr (currentExpr s)" "sentRules s = currentRequestRuleExpr s"
  shows "runEffects E (Some p) s = Inr s"
  using assms by (simp add: runEffects_def textsChanged_def nameChanged_def)

lemma settle_quiet:
  assumes "same_texts p s" "modelName p = modelName s" "effectiveExpr E s = Inr (currentExpr s)" "sentRules s = currentRequestRuleExpr s"
  shows "settle (Suc n) E (Some p) s = Some (Inr s)"
  by (simp add: run_quiet [OF assms])

lemma settle_step:
  "runEffects E prev s = Inr t \<Longrightarrow> settle (Suc n) E prev s = (if t\<lparr>initRef := initRef s\<rparr> = s then Some (Inr t) else settle n E (Some s) t)"
  by simp

text \<open>Three renders are enough.\<close>

lemma settle_visual:
  assumes s: "editorMode s = VisualMode" "shows_config ts gs s" and ok: "editable E ts" "\<forall>g\<in>set gs. savableGroup g"
    and safe: "sent E ts gs s \<or> (\<exists>p. prev = Some p \<and> same_texts p s)"
  shows "\<exists>t. settle (Suc (Suc (Suc n))) E prev s = Some (Inr t) \<and> editorMode t = VisualMode \<and> shows_config ts gs t \<and> sent E ts gs t"
proof -
  let ?u = "\<lambda>b r. s\<lparr>initRef := b, rawExpr := r, currentExpr := generateExpr E (Some ts), currentRequestRuleExpr := buildRequestRuleExpr gs\<rparr>"
  have good: "editorMode (?u b r) = VisualMode \<and> shows_config ts gs (?u b r) \<and> sent E ts gs (?u b r)" for b r
    using s by (simp add: shows_config_def sent_def)
  obtain b r where one: "runEffects E prev s = Inr (?u b r)" using run_visual [OF s ok safe] by blast
  obtain b' r' where two: "runEffects E (Some s) (?u b r) = Inr (?u b' r')"
    using run_visual [of "?u b r" ts gs E "Some s", OF _ _ ok] good [where b = b and r = r] by auto
  have three: "settle (Suc n) E (Some (?u b r)) (?u b' r') = Some (Inr (?u b' r'))"
    using effective_visual(1) [of "?u b' r'" ts gs E] effective_visual(2) [of "?u b' r'" ts gs] good [where b = b' and r = r'] by (intro settle_quiet) (simp_all add: sent_def)
  show ?thesis
    unfolding settle_step [OF one] settle_step [OF two] three using good by auto
qed

lemma settle_raw:
  assumes "editorMode s = RawMode" "rawExpr s = combineBillingExpr (generateExpr E (Some ts)) (buildRequestRuleExpr gs)"
    and "sent E ts gs s" "editable E ts" "\<forall>g\<in>set gs. savableGroup g" "same_texts p s"
  shows "\<exists>b. settle (Suc n) E (Some p) s = Some (Inr (s\<lparr>initRef := b\<rparr>))"
proof -
  have "effectiveExpr E s = Inr (currentExpr s)" "sentRules s = currentRequestRuleExpr s"
    using assms split_generated [OF assms(4, 5)] by (simp_all add: effectiveExpr_def sentRules_def sent_def)
  then have "runEffects E (Some p) s = Inr (s\<lparr>initRef := \<not> nameChanged (Some p) s \<and> initRef s\<rparr>)"
    using assms(6) by (cases s) (simp add: runEffects_def textsChanged_def)
  from settle_step [OF this, of n] show ?thesis by (cases s) auto
qed

section \<open>Editing\<close>

lemma raw_of_visual:
  assumes "editable E ts" "visualConfig s = Some ts" "requestRuleGroups s = gs"
  shows "handleModeChange E RawMode s = Inr (s\<lparr>rawExpr := combineBillingExpr (generateExpr E (Some ts)) (buildRequestRuleExpr gs),
     editorMode := RawMode\<rparr>)"
  using assms combine_ne [OF assms(1)] by (simp add: handleModeChange_def Let_def)

lemma visual_of_raw:
  assumes "editable E ts" "\<forall>g\<in>set gs. savableGroup g"
    and "rawExpr s = combineBillingExpr (generateExpr E (Some ts)) (buildRequestRuleExpr gs)"
  shows "handleModeChange E VisualMode s = Inr (s\<lparr>visualConfig := Some ts, requestRuleGroups := gs,
     currentRequestRuleExpr := buildRequestRuleExpr gs, editorMode := VisualMode\<rparr>)"
  using split_generated [OF assms(1, 2)] by (simp add: handleModeChange_def assms(3) rules_read [OF assms(2)] config_read [OF assms(1)])

text \<open>Edits within what both modes can represent: the editor is opened on such texts, tiers and rule groups are replaced
  by others that are read back, the mode is switched and the model is renamed, each followed by the renders that it
  causes. Nothing is lost on the way, whatever the mode.\<close>

inductive plainEditing :: "tenv \<Rightarrow> TierEditor \<Rightarrow> bool" for E where
  opened: "editable E ts \<Longrightarrow> \<forall>g\<in>set gs. savableGroup g \<Longrightarrow>
     openEditor E n name (generateExpr E (Some ts)) (buildRequestRuleExpr gs) = Some (Inr s) \<Longrightarrow> plainEditing E s"
| tiers: "plainEditing E s \<Longrightarrow> editorMode s = VisualMode \<Longrightarrow> editable E ts \<Longrightarrow>
     settle n E (Some s) (handleVisualChange ts s) = Some (Inr t) \<Longrightarrow> plainEditing E t"
| groups: "plainEditing E s \<Longrightarrow> editorMode s = VisualMode \<Longrightarrow> \<forall>g\<in>set gs. savableGroup g \<Longrightarrow>
     settle n E (Some s) (handleRuleGroupsChange gs s) = Some (Inr t) \<Longrightarrow> plainEditing E t"
| mode: "plainEditing E s \<Longrightarrow> editorMode s \<noteq> m \<Longrightarrow> handleModeChange E m s = Inr u \<Longrightarrow>
     settle n E (Some s) u = Some (Inr t) \<Longrightarrow> plainEditing E t"
| renamed: "plainEditing E s \<Longrightarrow> settle n E (Some s) (s\<lparr>modelName := name\<rparr>) = Some (Inr t) \<Longrightarrow> plainEditing E t"

text \<open>A larger bound gives the same result.\<close>

lemma settle_mono: "settle n E prev s = Some x \<Longrightarrow> n \<le> m \<Longrightarrow> settle m E prev s = Some x"
proof (induction n arbitrary: prev s m)
  case (Suc n)
  then obtain k where "m = Suc k" by (cases m) auto
  with Suc show ?case by (auto split: sum.splits if_splits)
qed simp

lemma settle_unique: "settle n E prev s = Some x \<Longrightarrow> settle m E prev s = Some y \<Longrightarrow> x = y"
  by (metis settle_mono nle_le option.inject)

lemma synced_visual:
  assumes "editorMode s = VisualMode" "shows_config ts gs s" "editable E ts" "\<forall>g\<in>set gs. savableGroup g"
    and "sent E ts gs s \<or> (\<exists>p. prev = Some p \<and> same_texts p s)" "settle n E prev s = Some (Inr t)"
  shows "synced E t"
proof -
  obtain u where u: "settle 3 E prev s = Some (Inr u)" "editorMode u = VisualMode" "shows_config ts gs u" "sent E ts gs u"
    using settle_visual [OF assms(1-5), of 0] by (auto simp: eval_nat_numeral)
  have "t = u" using settle_unique [OF assms(6) u(1)] by simp
  then show ?thesis using u assms(3, 4) by (auto simp: synced_def)
qed

lemma synced_raw:
  assumes "editorMode s = RawMode" "rawExpr s = combineBillingExpr (generateExpr E (Some ts)) (buildRequestRuleExpr gs)"
    and "shows_config ts gs s" "sent E ts gs s" "editable E ts" "\<forall>g\<in>set gs. savableGroup g" "same_texts p s"
    and "settle n E (Some p) s = Some (Inr t)"
  shows "synced E t"
proof -
  obtain b where "settle 1 E (Some p) s = Some (Inr (s\<lparr>initRef := b\<rparr>))"
    using settle_raw [OF assms(1, 2, 4-7), of 0] by auto
  then have "t = s\<lparr>initRef := b\<rparr>" using settle_unique [OF assms(8)] by blast
  then show ?thesis using assms(1-6) by (auto simp: synced_def shows_config_def sent_def)
qed

lemma editing_synced: "plainEditing E s \<Longrightarrow> synced E s"
proof (induction rule: plainEditing.induct)
  case (opened ts gs n name s)
  then show ?case
    by (intro synced_visual [OF _ _ opened(1, 2)])
       (auto simp: openEditor_def initialEditor_def rules_read config_read shows_config_def sent_def)
next
  case (tiers s ts n t)
  then obtain us gs where s: "shows_config us gs s" "\<forall>g\<in>set gs. savableGroup g" by (auto simp: synced_def)
  show ?case
    by (rule synced_visual [OF _ _ tiers(3) s(2) _ tiers(4)])
       (use tiers s in \<open>auto simp: handleVisualChange_def shows_config_def\<close>)
next
  case (groups s gs n t)
  then obtain ts hs where s: "shows_config ts hs s" "editable E ts" by (auto simp: synced_def)
  show ?case
    by (rule synced_visual [OF _ _ s(2) groups(3) _ groups(4)])
       (use groups s in \<open>auto simp: handleRuleGroupsChange_def shows_config_def\<close>)
next
  case (mode s m u n t)
  then obtain ts gs where s: "shows_config ts gs s" "sent E ts gs s" "editable E ts" "\<forall>g\<in>set gs. savableGroup g"
    "editorMode s = RawMode \<longrightarrow> rawExpr s = combineBillingExpr (generateExpr E (Some ts)) (buildRequestRuleExpr gs)"
    by (auto simp: synced_def)
  show ?case
  proof (cases m)
    case VisualMode
    then have "editorMode s = RawMode" using mode(2) by (cases "editorMode s") auto
    then have "u = s\<lparr>visualConfig := Some ts, requestRuleGroups := gs, currentRequestRuleExpr := buildRequestRuleExpr gs, editorMode := VisualMode\<rparr>"
      using mode(3) VisualMode visual_of_raw [OF s(3, 4), of s] s(5) by simp
    then show ?thesis
      by (intro synced_visual [OF _ _ s(3, 4) _ mode(4)]) (use s in \<open>auto simp: shows_config_def sent_def\<close>)
  next
    case RawMode
    then have "u = s\<lparr>rawExpr := combineBillingExpr (generateExpr E (Some ts)) (buildRequestRuleExpr gs), editorMode := RawMode\<rparr>"
      using mode(3) raw_of_visual [OF s(3), of s gs] s(1) by (simp add: shows_config_def)
    then show ?thesis
      by (intro synced_raw [OF _ _ _ _ s(3, 4) _ mode(4)]) (use s in \<open>auto simp: shows_config_def sent_def\<close>)
  qed
next
  case (renamed s n name t)
  then obtain ts gs where s: "shows_config ts gs s" "sent E ts gs s" "editable E ts" "\<forall>g\<in>set gs. savableGroup g"
    "editorMode s = RawMode \<longrightarrow> rawExpr s = combineBillingExpr (generateExpr E (Some ts)) (buildRequestRuleExpr gs)"
    by (auto simp: synced_def)
  show ?case
  proof (cases "editorMode s")
    case VisualMode
    then show ?thesis
      by (intro synced_visual [OF _ _ s(3, 4) _ renamed(2)]) (use s in \<open>auto simp: shows_config_def sent_def\<close>)
  next
    case RawMode
    then show ?thesis
      by (intro synced_raw [OF _ _ _ _ s(3, 4) _ renamed(2)]) (use s in \<open>auto simp: shows_config_def sent_def\<close>)
  qed
qed

section \<open>Arbitrary edits\<close>

text \<open>Whatever is done in the editor: any change of tiers or rule groups in the visual mode, any text in the expression
  mode, a switch of the mode, any preset, and a change of what the sheet passes (the model and its two texts).\<close>

inductive editorEdit :: "tenv \<Rightarrow> TierEditor \<Rightarrow> TierEditor \<Rightarrow> bool" for E where
  tiers: "editorMode s = VisualMode \<Longrightarrow> editorEdit E s (handleVisualChange ts s)"
| groups: "editorMode s = VisualMode \<Longrightarrow> editorEdit E s (handleRuleGroupsChange gs s)"
| raw: "editorMode s = RawMode \<Longrightarrow> handleRawChange E v s = Inr u \<Longrightarrow> editorEdit E s u"
| mode: "handleModeChange E m s = Inr u \<Longrightarrow> editorEdit E s u"
| preset: "editorEdit E s (applyPreset E p s)"
| passed: "editorEdit E s (s\<lparr>modelName := name, currentExpr := expr, currentRequestRuleExpr := rules\<rparr>)"

inductive priceEditing :: "tenv \<Rightarrow> TierEditor \<Rightarrow> bool" for E where
  opened: "openEditor E n name expr rules = Some (Inr s) \<Longrightarrow> priceEditing E s"
| edited: "priceEditing E s \<Longrightarrow> editorEdit E s u \<Longrightarrow> settle n E (Some s) u = Some (Inr t) \<Longrightarrow> priceEditing E t"

text \<open>At rest, the sheet holds what the editor shows.\<close>

definition shownSent :: "tenv \<Rightarrow> TierEditor \<Rightarrow> bool" where
  "shownSent E s \<longleftrightarrow> (case editorMode s of
      VisualMode \<Rightarrow> currentExpr s = generateExpr E (visualConfig s) \<and> currentRequestRuleExpr s = buildRequestRuleExpr (requestRuleGroups s)
    | RawMode \<Rightarrow> (\<exists>parts. splitExpr E (rawExpr s) = Inr parts \<and> currentExpr s = billingExpr parts))"

lemma run_texts:
  assumes "runEffects E prev s = Inr t"
  shows "effectiveExpr E s = Inr (currentExpr t)" "currentRequestRuleExpr t = sentRules s" "modelName t = modelName s"
  using assms
  by (auto simp: runEffects_def initEffect_def Let_def split: sum.splits if_splits option.splits)

lemma settled_sent: "settle n E prev s = Some (Inr t) \<Longrightarrow> shownSent E t"
proof (induction n arbitrary: prev s)
  case (Suc n)
  then obtain u where u: "runEffects E prev s = Inr u" by (auto split: sum.splits)
  show ?case
  proof (cases "u\<lparr>initRef := initRef s\<rparr> = s")
    case True
    then have t: "t = u" using Suc.prems u by simp
    have keep: "effectiveExpr E (v\<lparr>initRef := b\<rparr>) = effectiveExpr E v" "sentRules (v\<lparr>initRef := b\<rparr>) = sentRules v" for v b
      by (simp_all add: effectiveExpr_def sentRules_def split: EditorMode.split)
    then have "effectiveExpr E s = effectiveExpr E t" "sentRules s = sentRules t"
      using True t by metis+
    with run_texts(1,2) [OF u] show ?thesis
      by (auto simp: t shownSent_def effectiveExpr_def sentRules_def split: EditorMode.splits sum.splits)
  qed (use Suc u in auto)
qed simp

lemma editing_sent: "priceEditing E s \<Longrightarrow> shownSent E s"
  by (induction rule: priceEditing.induct) (auto simp: openEditor_def settled_sent split: sum.splits)

text \<open>The effects come to rest. With the initialization done, two renders are enough; an initialization in between takes
  at most two more, and the first render may allow one.\<close>

lemma settle_initialized:
  assumes "initRef s" "modelName p = modelName s"
  shows "settle (Suc (Suc n)) E (Some p) s \<noteq> None"
proof -
  have run: "runEffects E (Some q) v = (case effectiveExpr E v of Inl e \<Rightarrow> Inl e
      | Inr x \<Rightarrow> Inr (v\<lparr>currentExpr := x, currentRequestRuleExpr := sentRules v\<rparr>))" if "initRef v" "modelName q = modelName v" for q v
    using that by (simp add: runEffects_def initEffect_def nameChanged_def split: sum.split)
  show ?thesis
  proof (cases "effectiveExpr E s")
    case (Inr x)
    let ?t = "s\<lparr>currentExpr := x, currentRequestRuleExpr := sentRules s\<rparr>"
    have "effectiveExpr E ?t = Inr x" "sentRules ?t = sentRules s"
      using Inr by (simp_all add: effectiveExpr_def sentRules_def split: EditorMode.splits)
    then have "runEffects E (Some s) ?t = Inr ?t" using run [of ?t s] assms by simp
    then show ?thesis using run [OF assms] Inr by simp
  qed (use run [OF assms] in simp)
qed

lemma settle_named:
  assumes "modelName p = modelName s" "initRef s \<or> textsChanged (Some p) s"
  shows "settle (Suc (Suc (Suc n))) E (Some p) s \<noteq> None"
proof (cases "initRef s")
  case True
  then show ?thesis using settle_initialized [OF _ assms(1)] by blast
next
  case False
  show ?thesis
  proof (cases "runEffects E (Some p) s")
    case (Inr t)
    have "initRef t"
      using Inr False assms by (auto simp: runEffects_def initEffect_def nameChanged_def Let_def split: sum.splits if_splits option.splits)
    then show ?thesis
      using settle_initialized [of t s n E] run_texts(3) [OF Inr] settle_step [OF Inr] by simp
  qed simp
qed

lemma settle_four:
  assumes "modelName p = modelName s"
  shows "settle (Suc (Suc (Suc (Suc n)))) E (Some p) s \<noteq> None"
proof (cases "initRef s \<or> textsChanged (Some p) s")
  case True
  then show ?thesis using settle_named [OF assms] by blast
next
  case False
  show ?thesis
  proof (cases "runEffects E (Some p) s")
    case (Inr t)
    then have t: "t = s\<lparr>currentExpr := currentExpr t, currentRequestRuleExpr := currentRequestRuleExpr t\<rparr>"
      using False assms by (auto simp: runEffects_def nameChanged_def split: sum.splits)
    show ?thesis
    proof (cases "textsChanged (Some s) t")
      case True
      then show ?thesis
        using settle_named [of s t n E] run_texts(3) [OF Inr] settle_step [OF Inr] by simp
    next
      case False
      then have "t = s" by (subst t) (simp add: textsChanged_def)
      then show ?thesis using settle_step [OF Inr] by simp
    qed
  qed simp
qed

lemma settle_five: "settle 5 E prev s \<noteq> None"
proof (cases "runEffects E prev s")
  case (Inr t)
  then show ?thesis
    using settle_four [of s t 0 E] run_texts(3) [OF Inr] settle_step [OF Inr] by (simp add: eval_nat_numeral)
qed (simp add: eval_nat_numeral)

text \<open>A change of the cards is taken over in three renders when it can be read back.\<close>

lemma card_edit_settles:
  assumes "shownSent E s" "editorMode s = VisualMode" "u = handleVisualChange us s \<or> u = handleRuleGroupsChange hs s"
    and "visualConfig u = Some ts" "editable E ts" "\<forall>g\<in>set (requestRuleGroups u). savableGroup g"
  shows "\<exists>t. settle 3 E (Some s) u = Some (Inr t) \<and> visualConfig t = visualConfig u \<and> requestRuleGroups t = requestRuleGroups u"
proof -
  have "shows_config ts (requestRuleGroups u) u" "editorMode u = VisualMode" "same_texts s u"
    using assms(2-4) by (auto simp: shows_config_def handleVisualChange_def handleRuleGroupsChange_def)
  with settle_visual [of u ts "requestRuleGroups u" E "Some s" 0] assms(4-6)
  show ?thesis by (auto simp: eval_nat_numeral shows_config_def)
qed

section \<open>Lost texts\<close>

lemma build_none: "buildRequestRuleExpr [] = []"
  by (simp add: buildRequestRuleExpr_def)

text \<open>Rules that the visual editor cannot read are replaced by no rules.\<close>

lemma open_drops_rules:
  assumes "editable E ts" "parseRules E rules = Inr None"
  shows "\<exists>s. openEditor E 4 name (generateExpr E (Some ts)) rules = Some (Inr s) \<and>
     currentExpr s = generateExpr E (Some ts) \<and> currentRequestRuleExpr s = []"
proof -
  let ?g = "generateExpr E (Some ts)"
  define s where "s = \<lparr>editorMode = VisualMode, visualConfig = Some ts, rawExpr = combineBillingExpr ?g rules,
     requestRuleGroups = [], initRef = False, modelName = name, currentExpr = ?g, currentRequestRuleExpr = rules\<rparr>"
  have groups: "ruleGroups E rules = Inr []" using assms(2) by (simp add: ruleGroups_def)
  have "initialEditor E name ?g rules = Inr s"
    using assms(1) groups by (simp add: initialEditor_def s_def config_read)
  moreover have one: "runEffects E None s = Inr (s\<lparr>currentRequestRuleExpr := []\<rparr>)"
    using assms(1) groups
    by (simp add: runEffects_def textsChanged_def nameChanged_def initEffect_def effectiveExpr_def sentRules_def s_def config_read build_none)
  moreover have "rules \<noteq> []" using assms(2) by (auto simp: tryParseRequestRuleExpr_def)
  then have "s\<lparr>currentRequestRuleExpr := []\<rparr> \<noteq> s" by (simp add: s_def)
  moreover have "\<exists>t. settle 3 E (Some s) (s\<lparr>currentRequestRuleExpr := []\<rparr>) = Some (Inr t) \<and> sent E ts [] t"
    using settle_visual [of "s\<lparr>currentRequestRuleExpr := []\<rparr>" ts "[]" E "Some s" 0, OF _ _ assms(1)]
    by (auto simp: s_def shows_config_def sent_def build_none eval_nat_numeral)
  ultimately show ?thesis
    using settle_step [OF one, of 3] by (auto simp: openEditor_def sent_def build_none eval_nat_numeral s_def)
qed

text \<open>The expression of an editor without a configuration: no request costs anything.\<close>

definition zeroExpr :: jsstr where
  "zeroExpr = js ''p * 0 + c * 0''"

lemma zero_generated: "generateExpr E None = zeroExpr"
  by (simp add: generateExprFromVisualConfig_def zeroExpr_def)

lemma no_quote_unread:
  assumes "34 \<notin> set x"
  shows "tryParseVisualConfig nt tn x = None"
proof -
  have "set (tl (dropWhile P r)) \<subseteq> set r" for P and r :: jsstr by (induction r) auto
  then have body: "34 \<notin> set (stripVersion x)"
    using assms by (cases x) (auto simp: stripVersion_def)
  have "needs 34 singleRe" by (simp add: singleRe_def labelR_def)
  then have "match_whole singleRe (stripVersion x) = None" using body by (simp add: match_whole_def needs_none)
  moreover have "exec_all tierRe (stripVersion x) = []" by (rule editor.exec_none [OF body])
  ultimately show ?thesis by (simp add: tryParseVisualConfig_def Let_def)
qed

lemma zero_read: "parseConfig E zeroExpr = None" "zeroExpr \<noteq> []" "combineBillingExpr zeroExpr [] = zeroExpr"
proof -
  show "parseConfig E zeroExpr = None" by (rule no_quote_unread) (simp add: zeroExpr_def js_def jsc_def)
  have "trim zeroExpr = zeroExpr" by (rule trim_id) (simp add: zeroExpr_def js_simps)
  then show "zeroExpr \<noteq> []" "combineBillingExpr zeroExpr [] = zeroExpr" by (simp_all add: combineBillingExpr_def zeroExpr_def)
qed

lemma no_rule: "trim p \<noteq> [] \<Longrightarrow> splitTopLevelMultiply (trim p) = [q] \<Longrightarrow> \<not> prefix (js ''('') q \<Longrightarrow> tryParseRequestRuleExpr j n p = Inr None"
  by (simp add: tryParseRequestRuleExpr_def tryParseRuleGroupFactor_def matchFactor_def)

lemma zero_split: "splitExpr E zeroExpr = Inr \<lparr>billingExpr = zeroExpr, requestRuleExpr = []\<rparr>"
proof -
  let ?ps = "[js ''p'', js ''0 + c'', js ''0'']"
  have piece: "mult.piece p" if "p \<in> set ?ps" for p
  proof (rule mult.piece_plain)
    show "depth p = 0" using that by (intro depth_no_parens) (auto simp: no_parens_def js_simps)
    show "trim p = p" using that by (intro trim_id) (auto simp: js_simps)
    show "jsc CHR ''*'' \<notin> set p" using that by (auto simp: js_simps)
  qed
  have split: "splitTopLevelMultiply (join (js '' * '') ?ps) = ?ps"
    using piece by (intro splitTopLevelMultiply_join) auto
  have z: "zeroExpr = join (js '' * '') ?ps" by (simp add: zeroExpr_def js_append [symmetric])
  have none: "parseRules E p = Inr None" if "p \<in> set ?ps" for p
    using splitTopLevelMultiply_join [of "[p]"] piece [OF that] mult.piece_trim [OF piece [OF that]] that
    by (intro no_rule [of _ p]) (auto simp: js_simps)
  have "trim zeroExpr = zeroExpr" by (rule trim_id) (simp add: zeroExpr_def js_simps)
  moreover have "partitionParts (parseRules E) ?ps = Inr ([], ?ps)" using none by simp
  ultimately show ?thesis
    unfolding splitBillingExprAndRequestRules_def Let_def using split zero_read(2) by (simp add: z)
qed

text \<open>An expression that the visual editor cannot read is replaced when the editor opens: the first render is in the
  visual mode without a configuration and sends the expression without a price, and the initialization, which the
  effect on the name of the model allows to run again, takes that expression over.\<close>

lemma open_zeroes:
  assumes "parseConfig E expr = None" "expr \<noteq> []" "trim expr = expr" "expr \<noteq> zeroExpr"
    and "splitExpr E expr = Inr \<lparr>billingExpr = expr, requestRuleExpr = []\<rparr>"
  shows "\<exists>s. openEditor E 4 name expr [] = Some (Inr s) \<and> editorMode s = RawMode \<and> rawExpr s = zeroExpr \<and> currentExpr s = zeroExpr"
proof -
  define s where "s m r b x = \<lparr>editorMode = m, visualConfig = None, rawExpr = r,
     requestRuleGroups = [], initRef = b, modelName = name, currentExpr = x, currentRequestRuleExpr = []\<rparr>" for m r b x
  have groups: "ruleGroups E [] = Inr []" using rules_read [of "[]" E] by (simp add: build_none)
  have raw: "combineBillingExpr expr [] = expr" using assms(2, 3) by (simp add: combineBillingExpr_def)
  note defs = runEffects_def textsChanged_def nameChanged_def initEffect_def effectiveExpr_def sentRules_def s_def
    zero_read zero_split zero_generated build_none groups raw assms
  have start: "initialEditor E name expr [] = Inr (s VisualMode expr False expr)" by (simp add: initialEditor_def defs)
  have r1: "runEffects E None (s VisualMode expr False expr) = Inr (s RawMode expr False zeroExpr)" by (simp add: defs)
  have r2: "runEffects E (Some (s VisualMode expr False expr)) (s RawMode expr False zeroExpr) = Inr (s RawMode zeroExpr True expr)"
    by (simp add: defs)
  have r3: "runEffects E (Some (s RawMode expr False zeroExpr)) (s RawMode zeroExpr True expr) = Inr (s RawMode zeroExpr True zeroExpr)"
    by (simp add: defs)
  have r4: "runEffects E (Some (s RawMode zeroExpr True expr)) (s RawMode zeroExpr True zeroExpr) = Inr (s RawMode zeroExpr True zeroExpr)"
    by (simp add: defs)
  have "settle 4 E None (s VisualMode expr False expr) = Some (Inr (s RawMode zeroExpr True zeroExpr))"
    using assms(4) by (simp add: eval_nat_numeral r1 r2 r3 r4 del: settle.simps(2) add: settle_step) (simp add: s_def)
  then show ?thesis by (simp add: openEditor_def start s_def)
qed

text \<open>Switching to the expression mode takes a lost rule into the price text, and the rule text keeps it: what the sheet
  then holds applies the factor of the rule twice.\<close>

lemma split_lost_rule:
  assumes "editable E ts" "guarded c" "isNumericLiteral m"
  defines "r \<equiv> buildRequestRuleExpr [\<lparr>conditions = [ParamHeaderCond c], multiplier = m\<rparr>]"
  shows "splitExpr E (combineBillingExpr (generateExpr E (Some ts)) r) =
    Inr \<lparr>billingExpr = combineBillingExpr (generateExpr E (Some ts)) r, requestRuleExpr = []\<rparr>"
proof -
  let ?g = "\<lparr>conditions = [ParamHeaderCond c], multiplier = m\<rparr>"
  have w: "\<forall>h\<in>set [?g]. writtenGroup h" using assms(2,3) by (simp add: writtenGroup_def lostCond_def)
  note base = generated_parts [OF assms(1)]
  note parts = combined_parts [OF w _ base(1) base(6) base(3), folded r_def]
  have "parseRules E (buildRuleGroupFactor ?g) = Inr None"
    using guarded_group [OF assms(2,3)] build_rules [OF w] by simp
  then have "partitionParts (parseRules E) ((js ''('' @ generateExpr E (Some ts) @ js '')'') # map buildRuleGroupFactor [?g]) =
      Inr ([], (js ''('' @ generateExpr E (Some ts) @ js '')'') # map buildRuleGroupFactor [?g])"
    using paren_generated [OF assms(1)] by simp
  then show ?thesis
    unfolding splitBillingExprAndRequestRules_def Let_def using parts(2,3) combine_ne [OF assms(1), of r] by simp
qed

lemma mode_switch_doubles_rule:
  assumes "editable E ts" "guarded c" "isNumericLiteral m" "editorMode s = VisualMode" "initRef s"
    and "visualConfig s = Some ts" "requestRuleGroups s = [\<lparr>conditions = [ParamHeaderCond c], multiplier = m\<rparr>]" "shownSent E s"
    and "handleModeChange E RawMode s = Inr u"
  shows "\<exists>t. settle 2 E (Some s) u = Some (Inr t) \<and> currentRequestRuleExpr t = currentRequestRuleExpr s \<and>
    currentExpr t = combineBillingExpr (currentExpr s) (currentRequestRuleExpr s)"
proof -
  let ?r = "buildRequestRuleExpr [\<lparr>conditions = [ParamHeaderCond c], multiplier = m\<rparr>]"
  let ?x = "combineBillingExpr (generateExpr E (Some ts)) ?r"
  have cur: "currentExpr s = generateExpr E (Some ts)" "currentRequestRuleExpr s = ?r"
    using assms(4,6-8) by (simp_all add: shownSent_def)
  have u: "u = s\<lparr>rawExpr := ?x, editorMode := RawMode\<rparr>"
    using raw_of_visual [OF assms(1,6,7)] assms(9) by simp
  note split = split_lost_rule [OF assms(1-3)]
  have one: "runEffects E (Some s) u = Inr (u\<lparr>currentExpr := ?x\<rparr>)"
    using assms(5) split by (simp add: runEffects_def textsChanged_def nameChanged_def effectiveExpr_def sentRules_def u cur(2) [symmetric])
  have two: "runEffects E (Some u) (u\<lparr>currentExpr := ?x\<rparr>) = Inr (u\<lparr>currentExpr := ?x\<rparr>)"
    using assms(5) split by (simp add: runEffects_def initEffect_def nameChanged_def effectiveExpr_def sentRules_def u)
  have "settle 2 E (Some s) u = Some (Inr (u\<lparr>currentExpr := ?x\<rparr>))"
    using settle_step [OF one, of 1] settle_step [OF two, of 0] by (simp add: eval_nat_numeral del: settle.simps(2))
  then show ?thesis by (simp add: u cur)
qed

text \<open>The state of an editor that has opened, with the initialization still allowed.\<close>

definition openState :: "tenv \<Rightarrow> jsstr \<Rightarrow> VisualConfig \<Rightarrow> RequestRuleGroup list \<Rightarrow> TierEditor" where
  "openState E name ts gs = \<lparr>editorMode = VisualMode, visualConfig = Some ts,
     rawExpr = combineBillingExpr (generateExpr E (Some ts)) (buildRequestRuleExpr gs), requestRuleGroups = gs, initRef = False,
     modelName = name, currentExpr = generateExpr E (Some ts), currentRequestRuleExpr = buildRequestRuleExpr gs\<rparr>"

lemma open_exact:
  assumes "editable E ts" "\<forall>g\<in>set gs. savableGroup g"
  shows "openEditor E (Suc n) name (generateExpr E (Some ts)) (buildRequestRuleExpr gs) = Some (Inr (openState E name ts gs))"
proof -
  note facts = rules_read [OF assms(2)] config_read [OF assms(1)]
  have "initialEditor E name (generateExpr E (Some ts)) (buildRequestRuleExpr gs) = Inr (openState E name ts gs)"
    by (simp add: initialEditor_def openState_def facts)
  moreover have "runEffects E None (openState E name ts gs) = Inr (openState E name ts gs)"
    by (simp add: runEffects_def textsChanged_def nameChanged_def initEffect_def effectiveExpr_def sentRules_def openState_def facts)
  ultimately show ?thesis by (simp add: openEditor_def)
qed

text \<open>A preset with other rules, applied first: its rules are taken over and its prices are not.\<close>

lemma first_preset_lost:
  assumes "editable E ts" "editable E us" "\<forall>g\<in>set gs. savableGroup g" "\<forall>h\<in>set hs. savableGroup h"
    and "buildRequestRuleExpr hs \<noteq> buildRequestRuleExpr gs" "us \<noteq> ts"
  shows "\<exists>t. settle 4 E (Some (openState E name ts gs))
       (applyPreset E \<lparr>preset_key = k, preset_expr = generateExpr E (Some us), preset_rules = hs\<rparr> (openState E name ts gs)) = Some (Inr t) \<and>
     currentExpr t = generateExpr E (Some ts) \<and> currentRequestRuleExpr t = buildRequestRuleExpr hs"
proof -
  let ?s = "openState E name ts gs" and ?r = "buildRequestRuleExpr hs"
  let ?p = "applyPreset E \<lparr>preset_key = k, preset_expr = generateExpr E (Some us), preset_rules = hs\<rparr> ?s"
  define u where "u = \<lparr>editorMode = VisualMode, visualConfig = Some ts, rawExpr = combineBillingExpr (generateExpr E (Some ts)) ?r,
     requestRuleGroups = hs, initRef = True, modelName = name, currentExpr = generateExpr E (Some us), currentRequestRuleExpr = ?r\<rparr>"
  define t where "t = u\<lparr>currentExpr := generateExpr E (Some ts)\<rparr>"
  note facts = config_read [OF assms(1)] config_read [OF assms(2)] rules_read [OF assms(4)]
  have p: "?p = ?s\<lparr>rawExpr := combineBillingExpr (generateExpr E (Some us)) ?r, requestRuleGroups := hs,
      currentRequestRuleExpr := ?r, visualConfig := Some us, editorMode := VisualMode\<rparr>"
    using combine_ne [OF assms(2)] by (simp add: applyPreset_def Let_def facts)
  note run = runEffects_def textsChanged_def nameChanged_def initEffect_def effectiveExpr_def sentRules_def openState_def u_def t_def
  have one: "runEffects E (Some ?s) ?p = Inr u" unfolding p using assms(5) by (simp add: run facts)
  have two: "runEffects E (Some ?p) u = Inr t" unfolding p by (simp add: run)
  have three: "runEffects E (Some u) t = Inr t" by (simp add: run)
  have "u\<lparr>initRef := initRef ?p\<rparr> \<noteq> ?p" unfolding p using assms(6) by (simp add: u_def openState_def)
  then have "settle 4 E (Some ?s) ?p = Some (Inr t)"
    using settle_step [OF one, of 3] settle_step [OF two, of 2] settle_step [OF three, of 1]
    by (cases "t\<lparr>initRef := initRef u\<rparr> = u") (simp_all add: eval_nat_numeral)
  then show ?thesis by (simp add: t_def u_def)
qed

text \<open>A change in the expression editor that keeps the expression readable leaves the expression editor, when it is
  the first change.\<close>

lemma first_raw_edit_leaves:
  assumes "editable E ts" "editable E us" "us \<noteq> ts"
    and "handleModeChange E RawMode (openState E name ts []) = Inr s" "handleRawChange E (generateExpr E (Some us)) s = Inr u"
  shows "\<exists>t. settle 4 E (Some s) u = Some (Inr t) \<and> editorMode t = VisualMode \<and> visualConfig t = Some us"
proof -
  let ?g = "generateExpr E (Some us)"
  have "openState E name ts [] \<lparr>rawExpr := generateExpr E (Some ts), editorMode := RawMode\<rparr> = s"
    using raw_of_visual [OF assms(1), of "openState E name ts []" "[]"] assms(4) combine_none [OF assms(1)]
    by (simp add: openState_def build_none)
  then have s: "s = \<lparr>editorMode = RawMode, visualConfig = Some ts, rawExpr = generateExpr E (Some ts), requestRuleGroups = [],
     initRef = False, modelName = name, currentExpr = generateExpr E (Some ts), currentRequestRuleExpr = []\<rparr>"
    by (simp add: openState_def build_none)
  have split: "splitExpr E ?g = Inr \<lparr>billingExpr = ?g, requestRuleExpr = []\<rparr>"
    using split_generated [OF assms(2), of "[]"] combine_none [OF assms(2)] by (simp add: build_none)
  then have u: "u = s\<lparr>rawExpr := ?g\<rparr>" using assms(5) by (simp add: handleRawChange_def s)
  have groups: "ruleGroups E [] = Inr []" using rules_read [of "[]" E] by (simp add: build_none)
  note run = runEffects_def textsChanged_def nameChanged_def initEffect_def effectiveExpr_def sentRules_def s split groups
    config_read [OF assms(2)] combine_none [OF assms(2)] build_none
  have ne: "generateExpr E (Some ts) \<noteq> ?g"
    using config_read [OF assms(1)] config_read [OF assms(2)] assms(3) by (metis option.inject)
  define v where "v = u\<lparr>currentExpr := ?g\<rparr>"
  define t where "t = v\<lparr>editorMode := VisualMode, visualConfig := Some us, initRef := True\<rparr>"
  have one: "runEffects E (Some s) u = Inr v" by (simp add: run u v_def)
  have two: "runEffects E (Some u) v = Inr t" using ne by (simp add: run u v_def t_def)
  have three: "runEffects E (Some v) t = Inr t" by (simp add: run u v_def t_def)
  have "v\<lparr>initRef := initRef u\<rparr> \<noteq> u" "t\<lparr>initRef := initRef v\<rparr> \<noteq> v" using ne by (simp_all add: s u v_def t_def)
  then have "settle 4 E (Some s) u = Some (Inr t)"
    using settle_step [OF one, of 3] settle_step [OF two, of 2] settle_step [OF three, of 1] by (simp add: eval_nat_numeral)
  then show ?thesis by (simp add: t_def)
qed

section \<open>The handlers of tiers\<close>

lemma dropIndex_eq: "dropIndex i xs = take i xs @ drop (Suc i) xs"
proof -
  have "map snd (filter (\<lambda>(j, _). j \<noteq> k + i) (enumerate k xs)) = take i xs @ drop (Suc i) xs" for k
  proof (induction xs arbitrary: i k)
    case (Cons x xs)
    have all: "filter (\<lambda>(j, _). j \<noteq> k) (enumerate (Suc k) xs) = enumerate (Suc k) xs"
      by (rule filter_True) (auto simp: in_set_enumerate_eq)
    show ?case
    proof (cases i)
      case 0
      then show ?thesis using all by simp
    next
      case (Suc i')
      then show ?thesis using Cons.IH [of "Suc k" i'] by simp
    qed
  qed simp
  from this [of 0] show ?thesis by (simp add: dropIndex_def)
qed

lemma editable_iff:
  "editable E ts \<longleftrightarrow> chain ts \<and> list_all (\<lambda>t. tier_ok (te_text E) (te_num E) t \<and> no_parens (label t)) ts"
  by (auto simp: editable_def config_ok_def list_all_iff chain_iff)

lemma chain_append: "us \<noteq> [] \<Longrightarrow> chain (ts @ us) \<longleftrightarrow> list_all (\<lambda>t. tier_conditions t \<noteq> []) ts \<and> chain us"
  by (auto simp: chain_iff butlast_append)

lemma new_tier_ok:
  assumes "price_ok nt tn 0"
  shows "tier_ok nt tn (newTier n)" "no_parens (label (newTier n))" "tier_conditions (newTier n) = []"
proof -
  have l: "label (newTier n) = js ''tier_'' @ show_nat n" by (simp add: newTier_def normalizeVisualTier_def)
  have "is_digit c \<Longrightarrow> c \<noteq> 34 \<and> c \<noteq> 40 \<and> c \<noteq> 41" for c by (auto simp: is_digit_def word_le_nat_alt)
  then have u: "c \<in> set (label (newTier n)) \<Longrightarrow> c \<noteq> 34 \<and> c \<noteq> 40 \<and> c \<noteq> 41" for c
    using show_nat_digits [of n] unfolding l by (auto simp: js_def jsc_def)
  then show "no_parens (label (newTier n))" by (intro plain_units) auto
  show "tier_ok nt tn (newTier n)"
    using u assms by (auto simp: tier_ok_def l) (simp_all add: newTier_def normalizeVisualTier_def getTierCacheMode_def list_all_iff)
  show "tier_conditions (newTier n) = []" by (simp add: newTier_def normalizeVisualTier_def)
qed

lemma limit_tier_ok:
  assumes "tier_ok nt tn t" "limit_ok nt tn 200000"
  shows "tier_ok nt tn (t\<lparr>tier_conditions := [defaultLimit v]\<rparr>)"
  using assms by (simp add: tier_ok_def defaultLimit_def)

text \<open>A tier is added behind the last one, which gets a condition.\<close>

lemma add_tier:
  assumes "editable E ts"
  shows "handleAddTier (Some ts) = butlast ts @ [last ts\<lparr>tier_conditions := [defaultLimit VarLen]\<rparr>, newTier (length ts + 1)]"
proof -
  have "ts \<noteq> []" "tier_conditions (last ts) = []" using assms by (auto simp: editable_def chain_iff)
  then show ?thesis
    by (cases ts rule: rev_cases) (simp_all add: handleAddTier_def normalize_config Let_def)
qed

lemma add_tier_editable:
  assumes "editable E ts" "price_ok (te_text E) (te_num E) 0" "limit_ok (te_text E) (te_num E) 200000"
  shows "editable E (handleAddTier (Some ts))"
proof -
  obtain us u where ts: "ts = us @ [u]" using assms(1) by (cases ts rule: rev_cases) (auto simp: editable_def)
  have "chain (us @ [u])" "list_all (\<lambda>t. tier_ok (te_text E) (te_num E) t \<and> no_parens (label t)) (us @ [u])"
    using assms(1) by (auto simp: editable_iff ts)
  then show ?thesis
    unfolding add_tier [OF assms(1)] unfolding ts editable_iff
    using new_tier_ok [OF assms(2)] limit_tier_ok [OF _ assms(3)] by (simp add: chain_append)
qed

text \<open>Without its fallback, a price with two tiers charges nothing beyond the limit of the first.\<close>

lemma removed_fallback:
  assumes "label t \<noteq> []" "tier_conditions t \<noteq> []"
  shows "generateExprFromVisualConfig nt (Some (handleRemoveTier 1 (Some [t, u]))) =
    buildConditionStr nt (tier_conditions t) @ js '' ? '' @ quoted nt t @ js '' : '' @ zeroExpr"
  using assms
  by (simp add: handleRemoveTier_def normalize_config dropIndex_eq generateExprFromVisualConfig_def Let_def cond_str_Nil
      quoted_text zeroExpr_def js_append [symmetric])

section \<open>Presets\<close>

text \<open>The rules of every preset are read back.\<close>

lemma preset_rules_savable: "\<forall>ps\<in>set PRESET_GROUPS. \<forall>p\<in>set ps. \<forall>g\<in>set (preset_rules p). savableGroup g"
proof -
  have num: "isNumericLiteral (js ''2'')" "isNumericLiteral (js ''6'')" "isNumericLiteral (js ''0.5'')" "isNumericLiteral (js ''0.8'')"
    "isNumericLiteral (js ''21'')" "isNumericLiteral (js ''0'')"
    by (simp_all add: isNumericLiteral_def mantissaRest_def exponentOk_def span1_def all1_def drop_opt_def js_simps)
  show ?thesis
    by (auto simp: PRESET_GROUPS_def FIXED_PRICE_PRESETS_def TIERED_PRESETS_def MULTIMODAL_PRESETS_def REQUEST_RULE_PRESETS_def
      TIME_PRESETS_def plainPreset_def equalsRule_def timeRule_def savableGroup_def num)
      (auto simp: goodName_def goodValue_def plain_jsc wide_jsc js_simps mode_defs intro!: trim_no_ws)
qed

section \<open>Sample\<close>

definition sampleEnv :: tenv where
  "sampleEnv = \<lparr>te_json = (\<lambda>_. None), te_text = wholeText, te_num = wholeNumber\<rparr>"

lemma sample_editable: "editable sampleEnv sampleTiers"
proof -
  have "no_parens (js s)" if "CHR ''('' \<notin> set s" "CHR '')'' \<notin> set s" for s using that by (simp add: js_units)
  then have "chain sampleTiers" "list_all (\<lambda>t. no_parens (label t)) sampleTiers"
    by (simp_all add: sampleTiers_def sampleTier_def)
  then show ?thesis using sample_ok by (simp add: editable_def sampleEnv_def)
qed

definition numberCondition :: ParamHeaderCondition where
  "numberCondition = \<lparr>ph_source = ParamSource, ph_path = js ''n'', ph_mode = MATCH_GT, ph_value = js ''1''\<rparr>"

lemma sample_rule: "guarded numberCondition" "isNumericLiteral (js ''2'')"
proof -
  have num: "isNumericLiteral (js ''1'')" "isNumericLiteral (js ''2'')"
    by (simp_all add: isNumericLiteral_def mantissaRest_def exponentOk_def span1_def drop_opt_def js_simps)
  then show "isNumericLiteral (js ''2'')" "guarded numberCondition"
    by (simp_all add: numberCondition_def guarded_def goodName_def plain_jsc js_simps) (simp add: trim_no_ws js_simps)
qed

section \<open>Properties\<close>

text \<open>C21: However a price is edited, the editor comes to rest, and then the sheet holds what the editor shows. From an
  editor opened on any texts, through any changes of tiers and rule groups, any typed expressions, mode switches,
  presets and changes of the model: in the visual mode the two texts of the sheet are those of the shown tiers and
  rule groups, in the expression mode the price text is the one typed (without its rules); every further edit
  settles, or raises a parse error, within five renders; and a change of tiers or rule groups that can be read back
  is, after three, what the editor shows and has sent.\<close>

theorem edits_synced:
  assumes "priceEditing E s"
  shows "(case editorMode s of
      VisualMode \<Rightarrow> currentExpr s = generateExprFromVisualConfig (te_text E) (visualConfig s) \<and>
        currentRequestRuleExpr s = buildRequestRuleExpr (requestRuleGroups s)
    | RawMode \<Rightarrow> (\<exists>parts. splitBillingExprAndRequestRules (te_json E) (te_text E) (rawExpr s) = Inr parts \<and>
        currentExpr s = billingExpr parts)) \<and>
   (editorEdit E s u \<longrightarrow> settle 5 E (Some s) u \<noteq> None) \<and>
   (editorMode s = VisualMode \<and> (u = handleVisualChange us s \<or> u = handleRuleGroupsChange hs s) \<and>
      visualConfig u = Some ts \<and> editable E ts \<and> (\<forall>g\<in>set (requestRuleGroups u). savableGroup g) \<longrightarrow>
    (\<exists>t. settle 3 E (Some s) u = Some (Inr t) \<and> priceEditing E t \<and>
       visualConfig t = visualConfig u \<and> requestRuleGroups t = requestRuleGroups u))"
proof (intro conjI impI)
  have sent: "shownSent E s" using assms by (rule editing_sent)
  then show "case editorMode s of
      VisualMode \<Rightarrow> currentExpr s = generateExpr E (visualConfig s) \<and> currentRequestRuleExpr s = buildRequestRuleExpr (requestRuleGroups s)
    | RawMode \<Rightarrow> (\<exists>parts. splitExpr E (rawExpr s) = Inr parts \<and> currentExpr s = billingExpr parts)"
    by (simp add: shownSent_def)
  show "settle 5 E (Some s) u \<noteq> None" by (rule settle_five)
  assume u: "editorMode s = VisualMode \<and> (u = handleVisualChange us s \<or> u = handleRuleGroupsChange hs s) \<and>
      visualConfig u = Some ts \<and> editable E ts \<and> (\<forall>g\<in>set (requestRuleGroups u). savableGroup g)"
  then have "editorEdit E s u" using editorEdit.tiers editorEdit.groups by blast
  with card_edit_settles [OF sent, of u us hs ts] u priceEditing.edited [OF assms]
  show "\<exists>t. settle 3 E (Some s) u = Some (Inr t) \<and> priceEditing E t \<and>
       visualConfig t = visualConfig u \<and> requestRuleGroups t = requestRuleGroups u" by blast
qed

theorem edits_synced_witness:
  "currentRequestRuleExpr (openState sampleEnv (js ''m'') sampleTiers []) = [] \<and>
   settle 5 sampleEnv (Some (openState sampleEnv (js ''m'') sampleTiers []))
     (applyPreset sampleEnv (plainPreset ''k'' ''max(p, c)'') (openState sampleEnv (js ''m'') sampleTiers [])) \<noteq> None \<and>
   (\<exists>t. settle 3 sampleEnv (Some (openState sampleEnv (js ''m'') sampleTiers []))
       (handleVisualChange sampleTiers (openState sampleEnv (js ''m'') sampleTiers [])) = Some (Inr t) \<and> visualConfig t = Some sampleTiers)"
proof -
  let ?s = "openState sampleEnv (js ''m'') sampleTiers []"
  have open_s: "priceEditing sampleEnv ?s"
    by (rule priceEditing.opened) (use open_exact [OF sample_editable, of "[]" 0] in auto)
  have s: "editorMode ?s = VisualMode" "requestRuleGroups ?s = []" by (simp_all add: openState_def)
  have "settle 5 sampleEnv (Some ?s) (applyPreset sampleEnv (plainPreset ''k'' ''max(p, c)'') ?s) \<noteq> None"
    using edits_synced [OF open_s] editorEdit.preset by blast
  moreover have "\<exists>t. settle 3 sampleEnv (Some ?s) (handleVisualChange sampleTiers ?s) = Some (Inr t) \<and> visualConfig t = Some sampleTiers"
    using edits_synced [OF open_s, of "handleVisualChange sampleTiers ?s" sampleTiers "[]" sampleTiers] sample_editable s
    by (auto simp: handleVisualChange_def)
  moreover have "currentRequestRuleExpr ?s = []" using edits_synced [OF open_s] s by (simp add: build_none)
  ultimately show ?thesis by blast
qed

text \<open>C22: Opening a price deletes a rule that the editor itself has written. The text of a rule that compares a parameter with a
  number, or asks whether a parameter contains a text, is one that the rule parser does not accept; the editor
  opens in its visual mode without rule groups and, after four renders at most, has sent an empty rule text,
  although it shows the notice that such rules must be edited in the other mode.\<close>

theorem reopening_deletes_rule:
  assumes "editable E ts" "guarded c" "isNumericLiteral m"
  shows "\<exists>s. openEditor E 4 name (generateExprFromVisualConfig (te_text E) (Some ts))
       (buildRequestRuleExpr [\<lparr>conditions = [ParamHeaderCond c], multiplier = m\<rparr>]) = Some (Inr s) \<and>
     currentExpr s = generateExprFromVisualConfig (te_text E) (Some ts) \<and> currentRequestRuleExpr s = []"
  using open_drops_rules [OF assms(1) guarded_group [OF assms(2, 3)]] .

theorem reopening_deletes_rule_witness:
  "\<exists>s. openEditor sampleEnv 4 (js ''m'') (generateExprFromVisualConfig (te_text sampleEnv) (Some sampleTiers))
       (buildRequestRuleExpr [\<lparr>conditions = [ParamHeaderCond numberCondition], multiplier = js ''2''\<rparr>]) = Some (Inr s) \<and>
     currentExpr s = generateExprFromVisualConfig (te_text sampleEnv) (Some sampleTiers) \<and> currentRequestRuleExpr s = []"
  by (rule reopening_deletes_rule [OF sample_editable sample_rule])

text \<open>C23: Opening a price whose expression the visual editor cannot read replaces that expression by one that charges
  nothing: after four renders the editor is in the expression mode with \<open>p * 0 + c * 0\<close>, and has sent it.\<close>

theorem opening_zeroes_price:
  assumes "tryParseVisualConfig (te_text E) (te_num E) expr = None" "expr \<noteq> []" "trim expr = expr" "expr \<noteq> zeroExpr"
    and "splitBillingExprAndRequestRules (te_json E) (te_text E) expr = Inr \<lparr>billingExpr = expr, requestRuleExpr = []\<rparr>"
  shows "\<exists>s. openEditor E 4 name expr [] = Some (Inr s) \<and> editorMode s = RawMode \<and> rawExpr s = zeroExpr \<and> currentExpr s = zeroExpr"
  using open_zeroes [OF assms] .

theorem opening_zeroes_price_witness:
  "\<exists>s. openEditor sampleEnv 4 (js ''m'') (js ''max(p, c)'') [] = Some (Inr s) \<and> editorMode s = RawMode \<and>
     rawExpr s = zeroExpr \<and> currentExpr s = zeroExpr"
proof (rule opening_zeroes_price)
  let ?x = "js ''max(p, c)''"
  show "tryParseVisualConfig (te_text sampleEnv) (te_num sampleEnv) ?x = None"
    by (rule no_quote_unread) (simp add: js_def jsc_def)
  have x: "?x = js ''max'' @ js ''('' @ js ''p, c'' @ js '')''" by (simp add: js_append [symmetric])
  have "clear ?x" unfolding x
    by (rule clear_append [OF clear_plain clear_paren [OF nested_js]]) (simp_all add: js_units, simp_all add: js_def jsc_def)
  note clear_split [OF this]
  moreover show t: "trim ?x = ?x" by (rule trim_id) (simp add: js_simps)
  ultimately have "splitTopLevelMultiply ?x = [?x]" by (simp add: splitTopLevelMultiply_def)
  then show "splitBillingExprAndRequestRules (te_json sampleEnv) (te_text sampleEnv) ?x = Inr \<lparr>billingExpr = ?x, requestRuleExpr = []\<rparr>"
    by (simp add: splitBillingExprAndRequestRules_def t)
  show "?x \<noteq> []" "?x \<noteq> zeroExpr" by (simp_all add: zeroExpr_def)
qed

end
