(* ===== verification/TierDisplay.thy ===== *)
theory TierDisplay
  imports TierEditorProperties
begin

text \<open>
  The tiers of a price as the pricing pages show them: the tier parser of \<open>features/pricing/lib/billing-expr.ts\<close>,
  which reads any text inside a tier, and its agreement with the price editor on the expressions that the editor
  writes.
\<close>

section \<open>Definitions\<close>

text \<open>The variables with a price field, in the order of the registry: \<open>BILLING_PRICING_VARS\<close>.\<close>

datatype PricingVar = PriceIn | PriceOut | PriceExtra ExtraVar

fun pricingKey :: "PricingVar \<Rightarrow> jsstr" where
  "pricingKey PriceIn = js ''p''"
| "pricingKey PriceOut = js ''c''"
| "pricingKey (PriceExtra v) = extraKey v"

definition BILLING_PRICING_VARS :: "PricingVar list" where
  "BILLING_PRICING_VARS = [PriceIn, PriceOut] @ map PriceExtra BILLING_CACHE_VAR_MAP"

text \<open>\<open>\b(p|c|cr|...)\s*\*\s*([\d.eE+-]+)\<close>.\<close>

fun altR :: "jsstr list \<Rightarrow> rx" where
  "altR [] = Cls (\<lambda>_. False)"
| "altR [k] = Lit k"
| "altR (k # ks) = Alt (Lit k) (altR ks)"

definition afterKeyR :: rx where
  "afterKeyR = Seq wsR (Seq (Lit (js ''*'')) (Seq wsR (Grp 2 (Plus (Cls priceChar)))))"

definition billingVarRegex :: rx where
  "billingVarRegex = Seq WordB (Seq (Grp 1 (altR (map pricingKey BILLING_PRICING_VARS))) afterKeyR)"

record StrippedExpr =
  se_version :: nat
  se_body :: jsstr

definition stripExprVersion :: "jsstr \<Rightarrow> StrippedExpr" where
  "stripExprVersion s = (case s of
      [] \<Rightarrow> \<lparr>se_version = 1, se_body = []\<rparr>
    | c # r \<Rightarrow> if c = 118 \<and> takeWhile is_digit r \<noteq> [] \<and> prefix (js '':'') (dropWhile is_digit r)
        then \<lparr>se_version = parse_digits (takeWhile is_digit r), se_body = tl (dropWhile is_digit r)\<rparr>
        else \<lparr>se_version = 1, se_body = s\<rparr>)"

text \<open>The first factor of a variable counts; a factor that is no number, and a variable without one, count as zero.\<close>

definition firstFactor :: "(jsstr \<Rightarrow> jsnum option) \<Rightarrow> (nat \<times> jsstr) list list \<Rightarrow> PricingVar \<Rightarrow> jsnum" where
  "firstFactor to_num ms v = (case filter (\<lambda>m. cap m 1 = Some (pricingKey v)) ms of
      [] \<Rightarrow> 0 | m # _ \<Rightarrow> nullish (Option.bind (cap m 2) to_num) 0)"

definition parseTierBody :: "(jsstr \<Rightarrow> jsnum option) \<Rightarrow> jsstr \<Rightarrow> PricingVar \<Rightarrow> jsnum" where
  "parseTierBody to_num bodyStr = firstFactor to_num (exec_all billingVarRegex bodyStr)"

record ParsedTier =
  pd_label :: jsstr
  pd_conditions :: "TierConditionInput list"
  pd_price :: "PricingVar \<Rightarrow> jsnum"

definition displayRe :: rx where
  "displayRe = Seq guardR (labelR 2 (Seq (Grp 3 (Plus (Cls (\<lambda>c. c \<noteq> 41)))) (Lit (js '')''))))"

definition parseTiersFromExpr :: "(jsstr \<Rightarrow> jsnum option) \<Rightarrow> jsstr \<Rightarrow> ParsedTier list" where
  "parseTiersFromExpr to_num exprStr = (if exprStr = [] then [] else
     map (\<lambda>m. \<lparr>pd_label = nullish (cap m 2) [], pd_conditions = parseConditions to_num (cap m 1),
        pd_price = parseTierBody to_num (nullish (cap m 3) [])\<rparr>)
       (exec_all displayRe (se_body (stripExprVersion exprStr))))"

section \<open>Lemmas\<close>

subsection \<open>The tiers\<close>

definition displayCaps :: "(jsnum \<Rightarrow> jsstr) \<Rightarrow> VisualTier \<Rightarrow> bool \<Rightarrow> (nat \<times> jsstr) list" where
  "displayCaps nt t withGuard = (3, buildTierBodyExpr nt t) # (2, label t) #
     (if withGuard then [(1, buildConditionStr nt (tier_conditions t))] else [])"

lemma body_no_close: "tier_ok nt tn t \<Longrightarrow> 41 \<notin> set (buildTierBodyExpr nt t)" "buildTierBodyExpr nt t \<noteq> []"
  using body_plain [of nt tn t] by (auto simp: no_parens_def paren_units body_text)

lemma fm_display_label:
  assumes "tier_ok nt tn t"
  shows "fm (labelR 2 (Seq (Grp 3 (Plus (Cls (\<lambda>c. c \<noteq> 41)))) (Lit [41]))) (quoted nt t @ X) C X
     ((3, buildTierBodyExpr nt t) # (2, label t) # C)"
proof -
  let ?b = "buildTierBodyExpr nt t"
  have l: "fm (Grp 2 (Star (Cls (\<lambda>c. c \<noteq> 34)))) (label t @ 34 # Y) D (34 # Y) ((2, label t) # D)" for Y D
    using assms by (intro fm_Grp fm_Star_run) (auto simp: tier_ok_def list_all_iff)
  have "fm (Grp 3 (Plus (Cls (\<lambda>c. c \<noteq> 41)))) (?b @ 41 # X) D (41 # X) ((3, ?b) # D)" for D
    using body_no_close(1) [OF assms] body_no_close(2) by (intro fm_Grp fm_Plus_run) (auto simp: list_all_iff)
  moreover have "breaks is_ws (?b @ 41 # X)" by (simp add: body_text tier_simps)
  ultimately have "fm (Seq wsR (Seq (Grp 3 (Plus (Cls (\<lambda>c. c \<noteq> 41)))) (Lit [41]))) (32 # ?b @ 41 # X) D X ((3, ?b) # D)" for D
    using fm_Seq [OF fm_ws1 fm_Seq [OF _ fm_Lit1]] by blast
  then have "fm (Seq (Lit [34, 44]) (Seq wsR (Seq (Grp 3 (Plus (Cls (\<lambda>c. c \<noteq> 41)))) (Lit [41])))) (34 # 44 # 32 # ?b @ 41 # X) D X
     ((3, ?b) # D)" for D using fm_Seq [OF fm_Lit [of "[34, 44]"]] by simp
  from fm_Seq [OF fm_Lit [of "js ''tier('' @ [34]"] fm_Seq [OF l this]]
  show ?thesis unfolding labelR_def quoted_def by (simp add: tier_simps)
qed

lemma fm_display:
  assumes "tier_ok nt tn t"
  shows "fm displayRe (quoted nt t @ X) [] X (displayCaps nt t False)"
    and "tier_conditions t \<noteq> [] \<Longrightarrow>
      fm displayRe (buildConditionStr nt (tier_conditions t) @ 32 # 63 # 32 # quoted nt t @ X) [] X (displayCaps nt t True)"
proof -
  from fm_Seq [OF guard_none fm_display_label [OF assms]]
  show "fm displayRe (quoted nt t @ X) [] X (displayCaps nt t False)"
    unfolding displayRe_def displayCaps_def tier_simps by simp
  assume "tier_conditions t \<noteq> []"
  from fm_Seq [OF guard_some [OF assms this] fm_display_label [OF assms]]
  show "fm displayRe (buildConditionStr nt (tier_conditions t) @ 32 # 63 # 32 # quoted nt t @ X) [] X (displayCaps nt t True)"
    unfolding displayRe_def displayCaps_def tier_simps by simp
qed

lemma nm_display: "c \<notin> {112, 99, 108, 116} \<Longrightarrow> nm displayRe (c # X)"
  unfolding displayRe_def guardR_def by (intro nm_Seq_Opt nm_guard nm_label) auto

lemma needs_display: "needs 34 displayRe"
  by (simp add: displayRe_def labelR_def guardR_def)

interpretation display: tier_pattern displayRe "displayCaps nt" nt tn for nt tn
  by unfold_locales (use nm_display in blast, rule fm_display(1), assumption, rule fm_display(2), assumption+, rule needs_display)

subsection \<open>The prices of a tier\<close>

lemma fm_alts:
  "k \<in> set ks \<Longrightarrow> (\<And>k'. k' \<in> set ks \<Longrightarrow> k' \<noteq> k \<Longrightarrow> nm (Seq (Grp n (Lit k')) K) X) \<Longrightarrow> fm (Seq (Grp n (Lit k)) K) X C Y D \<Longrightarrow>
     fm (Seq (Grp n (altR ks)) K) X C Y D"
proof (induction ks rule: altR.induct)
  case (3 k' l ks)
  then show ?case by (cases "k' = k") (auto intro: fm_Grp_Alt fm_Grp_Alt_right)
qed auto

lemma nm_alts: "(\<And>k. k \<in> set ks \<Longrightarrow> \<not> prefix k X) \<Longrightarrow> nm (altR ks) X"
proof (induction ks rule: altR.induct)
  case 1
  then show ?case by (auto simp: nm_def split: list.splits)
next
  case (2 k)
  then show ?case by (simp add: nm_Lit)
next
  case (3 k l ks)
  then show ?case by (simp add: nm_Alt nm_Lit)
qed

lemma nm_Grp_Lit:
  assumes "\<And>Y. X = p @ Y \<Longrightarrow> nm b Y"
  shows "nm (Seq (Grp n (Lit p)) b) X"
proof (cases "prefix p X")
  case True
  then obtain Y where "X = p @ Y" by (auto simp: prefix_def)
  then show ?thesis using assms nm_Seq_Grp by auto
next
  case False
  then show ?thesis by (rule nm_Seq [OF nm_Grp [OF nm_Lit]])
qed

lemma nm_afterKey: "breaks is_ws Y \<Longrightarrow> breaks (\<lambda>c. c = 42) Y \<Longrightarrow> nm afterKeyR Y"
  unfolding afterKeyR_def tier_simps by (intro nm_ws0 nm_Seq [OF nm_Lit1])

lemma pricing_exhaust:
  "v = PriceIn \<or> v = PriceOut \<or> v = PriceExtra CacheRead \<or> v = PriceExtra CacheCreate \<or> v = PriceExtra CacheCreate1h \<or>
   v = PriceExtra ImageIn \<or> v = PriceExtra ImageOut \<or> v = PriceExtra AudioIn \<or> v = PriceExtra AudioOut"
proof (cases v)
  case (PriceExtra x)
  then show ?thesis by (cases x) simp_all
qed simp_all

lemma nm_other_key:
  assumes "v' \<noteq> v"
  shows "nm (Seq (Grp n (Lit (pricingKey v'))) afterKeyR) (pricingKey v @ 32 # Z)"
proof (rule nm_Grp_Lit, rule nm_afterKey)
  fix Y assume eq: "pricingKey v @ 32 # Z = pricingKey v' @ Y"
  have "\<not> is_ws 114" by (simp add: is_ws_def)
  then have "breaks is_ws Y \<and> breaks (\<lambda>c. c = 42) Y"
    using pricing_exhaust [of v] pricing_exhaust [of v'] assms eq by (elim disjE) (auto simp: tier_simps)
  then show "breaks is_ws Y" "breaks (\<lambda>c. c = 42) Y" by simp_all
qed

lemma all_pricing: "v \<in> set BILLING_PRICING_VARS"
  using all_extras by (cases v) (auto simp: BILLING_PRICING_VARS_def)

lemma fm_factor:
  assumes "W \<noteq> []" "list_all priceChar W" "breaks priceChar Y"
  shows "fm (Seq (Grp 1 (altR (map pricingKey BILLING_PRICING_VARS))) afterKeyR) (pricingKey v @ 32 # 42 # 32 # W @ Y) C Y
     ((2, W) # (1, pricingKey v) # C)"
proof (rule fm_alts [of "pricingKey v"])
  show "pricingKey v \<in> set (map pricingKey BILLING_PRICING_VARS)" using all_pricing [of v] by simp
  fix k' assume "k' \<in> set (map pricingKey BILLING_PRICING_VARS)" "k' \<noteq> pricingKey v"
  then obtain v' where "k' = pricingKey v'" "v' \<noteq> v" by auto
  then show "nm (Seq (Grp 1 (Lit k')) afterKeyR) (pricingKey v @ 32 # 42 # 32 # W @ Y)" by (simp add: nm_other_key)
next
  have w: "breaks is_ws (W @ Y)" by (rule breaks_run [OF assms(1, 2)]) (simp add: priceChar_not_ws)
  have "fm afterKeyR (32 # 42 # 32 # W @ Y) D Y ((2, W) # D)" for D
    unfolding afterKeyR_def tier_simps
    by (intro fm_Seq [OF fm_ws1] fm_Seq [OF fm_Lit1] fm_Grp fm_Plus_run assms w) (simp add: tier_simps)
  then show "fm (Seq (Grp 1 (Lit (pricingKey v))) afterKeyR) (pricingKey v @ 32 # 42 # 32 # W @ Y) C Y ((2, W) # (1, pricingKey v) # C)"
    by (rule fm_Seq [OF fm_Grp [OF fm_Lit]])
qed

text \<open>A variable after a unit that is no word unit.\<close>

lemma rfind_word:
  assumes "fm r (c # X) [] Y D" "\<not> is_word p" "is_word (Some c)"
  shows "\<exists>t. rfind (Seq WordB r) p (c # X) = Some t \<and> r_rest t = Y \<and> r_caps t = D"
proof -
  let ?s = "\<lparr>r_prev = p, r_rest = c # X, r_caps = []\<rparr>"
  have "\<exists>t. first_match r ?s t \<and> r_rest t = Y \<and> r_caps t = D"
    using assms(1) unfolding fm_def by (elim allE [of _ ?s]) simp
  then obtain t ts where t: "rmatch r ?s = t # ts" "r_rest t = Y" "r_caps t = D" by (auto simp: first_match_def)
  have "rmatch (Seq WordB r) ?s = t # ts" using assms(2, 3) t(1) by simp
  then have "rfind (Seq WordB r) p (c # X) = Some t" by (simp only: rfind.simps list.case)
  then show ?thesis using t by blast
qed

lemma nm_WordB: "nm r X \<Longrightarrow> nm (Seq WordB r) X"
  by (simp add: nm_def)

lemma key_start: "\<exists>c Z. pricingKey v = c # Z \<and> is_word (Some c) \<and> c \<notin> {32, 43}"
  using pricing_exhaust [of v] by (elim disjE) (auto simp: tier_simps is_word_def)

lemma nm_billing: "X = [] \<or> hd X \<in> {32, 43} \<Longrightarrow> nm billingVarRegex X"
proof -
  assume X: "X = [] \<or> hd X \<in> {32, 43}"
  have "\<not> prefix (pricingKey v) X" for v using key_start [of v] X by (cases X) auto
  then show ?thesis unfolding billingVarRegex_def by (intro nm_WordB nm_Seq nm_Grp nm_alts) auto
qed

definition factorText :: "PricingVar \<times> jsstr \<Rightarrow> jsstr" where
  "factorText f = pricingKey (fst f) @ 32 # 42 # 32 # snd f"

definition factorsText :: "(PricingVar \<times> jsstr) list \<Rightarrow> jsstr" where
  "factorsText fs = join [32, 43, 32] (map factorText fs)"

definition factor_ok :: "PricingVar \<times> jsstr \<Rightarrow> bool" where
  "factor_ok f \<longleftrightarrow> snd f \<noteq> [] \<and> list_all priceChar (snd f)"

lemma find_factor:
  assumes "factor_ok f" "\<not> is_word p" "breaks priceChar Y"
  shows "\<exists>t. rfind billingVarRegex p (factorText f @ Y) = Some t \<and> r_rest t = Y \<and> r_caps t = [(2, snd f), (1, pricingKey (fst f))]"
proof -
  obtain c Z where k: "pricingKey (fst f) = c # Z" "is_word (Some c)" using key_start by blast
  have "fm (Seq (Grp 1 (altR (map pricingKey BILLING_PRICING_VARS))) afterKeyR) (c # Z @ 32 # 42 # 32 # snd f @ Y) [] Y
      [(2, snd f), (1, pricingKey (fst f))]"
    using fm_factor [of "snd f" Y "fst f" "[]"] assms k(1) by (simp add: factor_ok_def)
  from rfind_word [OF this assms(2) k(2)] show ?thesis by (simp only: billingVarRegex_def factorText_def k(1) append_Cons append_assoc)
qed

lemma rfind_plus: "rfind billingVarRegex p (32 # 43 # 32 # X) = rfind billingVarRegex (Some 32) X"
  using rfind_nm [OF nm_billing, of 32 _ p] rfind_nm [OF nm_billing, of 43 _ "Some 32"] rfind_nm [OF nm_billing, of 32 _ "Some 43"]
  by (simp del: rfind.simps)

lemma rall_plus: "rall n billingVarRegex p (32 # 43 # 32 # X) = rall n billingVarRegex (Some 32) X"
  by (cases n) (simp_all add: rfind_plus del: rfind.simps)

lemma rall_end: "rall n billingVarRegex p [] = []"
  using nm_billing [of "[]"] by (cases n) (simp_all add: nm_def)

lemma rall_factors:
  "list_all factor_ok fs \<Longrightarrow> \<not> is_word p \<Longrightarrow> length fs \<le> n \<Longrightarrow>
     rall n billingVarRegex p (factorsText fs) = map (\<lambda>f. [(2, snd f), (1, pricingKey (fst f))]) fs"
proof (induction fs arbitrary: p n rule: induct_list012)
  case (2 f)
  then obtain m where m: "n = Suc m" by (cases n) auto
  have ok: "factor_ok f" "\<not> is_word p" using 2 by simp_all
  obtain t where "rfind billingVarRegex p (factorText f) = Some t" "r_rest t = []" "r_caps t = [(2, snd f), (1, pricingKey (fst f))]"
    using find_factor [OF ok, of "[]"] by auto
  then show ?case by (simp add: m factorsText_def rall_end)
next
  case (3 f g fs)
  then obtain m where m: "n = Suc m" by (cases n) auto
  have ok: "factor_ok f" "\<not> is_word p" using 3 by simp_all
  let ?Y = "32 # 43 # 32 # factorsText (g # fs)"
  obtain t where t: "rfind billingVarRegex p (factorText f @ ?Y) = Some t" "r_rest t = ?Y" "r_caps t = [(2, snd f), (1, pricingKey (fst f))]"
    using find_factor [OF ok, of ?Y] by (auto simp: tier_simps)
  have "rall m billingVarRegex (r_prev t) ?Y = map (\<lambda>f. [(2, snd f), (1, pricingKey (fst f))]) (g # fs)"
    unfolding rall_plus by (rule 3(2)) (use 3 m in \<open>auto simp: is_word_def is_digit_def\<close>)
  moreover have "factorsText (f # g # fs) = factorText f @ ?Y" by (simp add: factorsText_def)
  ultimately show ?case by (simp add: m t del: rfind.simps)
qed (simp add: factorsText_def rall_end)

subsection \<open>The shown tiers\<close>

definition factors :: "(jsnum \<Rightarrow> jsstr) \<Rightarrow> VisualTier \<Rightarrow> (PricingVar \<times> jsstr) list" where
  "factors nt t = [(PriceIn, priceText nt (input_unit_cost t)), (PriceOut, priceText nt (output_unit_cost t))] @
     map (\<lambda>v. (PriceExtra v, nt (unit_cost t v))) (filter (\<lambda>v. unit_cost t v \<noteq> 0) BILLING_CACHE_VAR_MAP)"

lemma body_factors: "buildTierBodyExpr nt t = factorsText (factors nt t)"
  by (simp add: buildTierBodyExpr_def factorsText_def factors_def factorText_def priceText_def tier_simps join_Cons comp_def extraPart_def)

lemma factors_ok: "tier_ok nt tn t \<Longrightarrow> list_all factor_ok (factors nt t)"
  using extras_ok [of nt tn t]
  by (auto simp: factors_def factor_ok_def list_all_iff price_ok_def priceText_def elim!: tier_okE)

lemma factors_length: "length (factors nt t) \<le> length (buildTierBodyExpr nt t)"
proof -
  have "length fs \<le> length (factorsText fs)" for fs
    by (induction fs rule: induct_list012) (auto simp: factorsText_def factorText_def)
  then show ?thesis by (simp add: body_factors)
qed

lemma exec_body:
  "tier_ok nt tn t \<Longrightarrow> exec_all billingVarRegex (buildTierBodyExpr nt t) =
     map (\<lambda>f. [(2, snd f), (1, pricingKey (fst f))]) (factors nt t)"
  unfolding exec_all_def body_factors
  by (rule rall_factors) (use factors_ok factors_length [of nt t] in \<open>auto simp: is_word_def body_factors\<close>)

definition shownPrice :: "VisualTier \<Rightarrow> PricingVar \<Rightarrow> jsnum" where
  "shownPrice t v = (case v of PriceIn \<Rightarrow> nullish (input_unit_cost t) 0 | PriceOut \<Rightarrow> nullish (output_unit_cost t) 0
     | PriceExtra x \<Rightarrow> unit_cost t x)"

definition shownTier :: "VisualTier \<Rightarrow> ParsedTier" where
  "shownTier t = \<lparr>pd_label = label t, pd_conditions = tier_conditions t, pd_price = shownPrice t\<rparr>"

lemma pricingKey_inj: "pricingKey v = pricingKey w \<longleftrightarrow> v = w"
  using pricing_exhaust [of v] pricing_exhaust [of w] by (elim disjE) simp_all

lemma filter_one: "distinct xs \<Longrightarrow> filter (\<lambda>y. y = x) xs = (if x \<in> set xs then [x] else [])"
  by (induction xs) auto

lemma factors_of:
  "filter (\<lambda>f. fst f = v) (factors nt t) = (case v of PriceIn \<Rightarrow> [(v, priceText nt (input_unit_cost t))]
     | PriceOut \<Rightarrow> [(v, priceText nt (output_unit_cost t))]
     | PriceExtra x \<Rightarrow> if unit_cost t x \<noteq> 0 then [(v, nt (unit_cost t x))] else [])"
proof (cases v)
  case (PriceExtra x)
  have "filter (\<lambda>y. y = x \<and> unit_cost t y \<noteq> 0) BILLING_CACHE_VAR_MAP = (if unit_cost t x \<noteq> 0 then [x] else [])"
    using filter_one [of "filter (\<lambda>y. unit_cost t y \<noteq> 0) BILLING_CACHE_VAR_MAP" x] distinct_extras(1) all_extras [of x]
    by (simp add: conj_commute)
  then show ?thesis using PriceExtra by (simp add: factors_def filter_map comp_def conj_commute)
qed (simp_all add: factors_def filter_map comp_def)

lemma body_prices:
  assumes "tier_ok nt tn t"
  shows "parseTierBody tn (buildTierBodyExpr nt t) = shownPrice t"
proof
  fix v
  obtain i out where io: "input_unit_cost t = Some i" "output_unit_cost t = Some out" "price_ok nt tn i" "price_ok nt tn out"
    using assms by (rule tier_okE)
  have "filter (\<lambda>m. cap m 1 = Some (pricingKey v)) (exec_all billingVarRegex (buildTierBodyExpr nt t)) =
      map (\<lambda>f. [(2, snd f), (1, pricingKey (fst f))]) (filter (\<lambda>f. fst f = v) (factors nt t))"
    by (simp add: exec_body [OF assms] filter_map comp_def cap_def pricingKey_inj)
  then show "parseTierBody tn (buildTierBodyExpr nt t) v = shownPrice t v"
    unfolding parseTierBody_def firstFactor_def factors_of
    using io extras_ok [OF assms] by (cases v) (auto simp: cap_def shownPrice_def priceText_def price_ok_def)
qed

lemma shown_tier:
  assumes "tier_ok nt tn t"
  shows "(\<lambda>m. \<lparr>pd_label = nullish (cap m 2) [], pd_conditions = parseConditions tn (cap m 1),
      pd_price = parseTierBody tn (nullish (cap m 3) [])\<rparr>) (displayCaps nt t (tier_conditions t \<noteq> [])) = shownTier t"
  using parse_tier_conditions [of "tier_conditions t" nt tn] tier_conds_ok [OF assms] body_prices [OF assms]
  by (auto simp: displayCaps_def cap_def shownTier_def parseConditions_def)

lemma unversioned: "c \<noteq> 118 \<Longrightarrow> se_body (stripExprVersion (c # X)) = c # X"
  by (simp add: stripExprVersion_def)

section \<open>Property\<close>

text \<open>C20: The pages that show a price and the editor that writes it agree: the tier parser of the pages reads the expression
  of a configuration as its tiers, with their names, conditions and prices, although it accepts any text inside
  a tier and collects the prices by their variables.\<close>

theorem display_agrees:
  assumes "editable E ts"
  shows "parseTiersFromExpr (te_num E) (generateExprFromVisualConfig (te_text E) (Some ts)) = map shownTier ts"
proof -
  have ok: "chain ts" "list_all (tier_ok (te_text E) (te_num E)) ts" using assms by (simp_all add: editable_def config_ok_def)
  obtain c X where c: "chainText (te_text E) ts = c # X" "c \<noteq> 118"
    using generated_parts(3, 5) [OF assms] by (cases "chainText (te_text E) ts") (auto simp: editable_text [OF assms])
  then show ?thesis
    unfolding editable_text [OF assms] parseTiersFromExpr_def
    using display.exec_chain [OF ok] ok(2) shown_tier by (simp add: unversioned list_all_iff)
qed

theorem display_agrees_witness:
  "parseTiersFromExpr (te_num sampleEnv) (generateExprFromVisualConfig (te_text sampleEnv) (Some sampleTiers)) = map shownTier sampleTiers"
  by (rule display_agrees [OF sample_editable])

end
