(* ===== verification/Spec2Isabelle.thy ===== *)
theory Spec2Isabelle
  imports HttpStatusRules ChatHandler PlaygroundStateHook FlowDashboard BillingProperties AdvancedCustomEditing RatioSyncSettings ParamOverrideLabels ChannelEditorProperties TierDisplay
begin

text \<open>
  Verification of the web console of halolake (\<open>src/web/new-api/default/src\<close>, TypeScript). Paths below are
  relative to that directory.

  \<^bold>\<open>The program.\<close> halolake is a gateway in front of model providers. Its Rust services relay requests; the
  console is the program with which administrators configure the gateway and users try it out. The
  console computes what it stores on the server (channel settings, override rules, prices, billing
  expressions, status code rules) as texts and JSON values in the browser, and it keeps a conversation with a
  model alive while an answer streams in. These computations are the subject of this development: a wrong
  text silently changes routing or prices, and a wrong transition loses a message.

  \<^bold>\<open>Parts and theories.\<close> Each component is a chain of theories; definitions stand in the order of the code and
  carry its names. State kept by a React component or hook is a \<^theory_text>\<open>record\<close> with one field per \<open>useState\<close> or
  \<open>useRef\<close>; a handler is a function on that record; effects are functions that are composed after the
  handlers that trigger them; the user and the network are \<^theory_text>\<open>inductive\<close> relations over the handlers.
  \<^item> Shared. \<open>JS_Prelude\<close>: strings as lists of UTF-16 code units, the string and array methods in use, the
    insertion-ordered \<open>Map\<close> (locale \<open>js_map\<close>, interpreted by \<open>omap_get\<close> and \<open>omap_set\<close>), the stable sort under
    a comparator (locales \<open>js_ordering\<close> and \<open>js_comparator\<close>). \<open>JS_Matching\<close>: anchored expressions as sequences
    of literals and maximal runs. \<open>JSON_Values\<close>: values of \<open>JSON.parse\<close> and the combinators of zod schemas.
    \<open>JSON_Text\<close>: \<open>JSON.parse\<close> and \<open>JSON.stringify\<close> on whole values, with the round trip as the locale
    \<open>json_codec\<close>, on which the editors rely.
  \<^item> Status code rules (\<open>lib/http-status-code-rules.ts\<close>): \<open>HttpStatusRules\<close>. The parser returns sorted and
    separated ranges that accept exactly the codes of the tokens; its output is a normal form.
  \<^item> Playground (\<open>features/playground\<close>). \<open>PlaygroundMessages\<close>: messages, versions, timing, errors, payloads
    (\<open>types.ts\<close>, \<open>lib/message\<close>). \<open>ThinkTags\<close>: the separation of reasoning segments. \<open>MessageStreaming\<close>: growth,
    completion and repair of an answer. \<open>Conversation\<close>: list operations and handlers
    (\<open>use-playground-conversation.ts\<close>). \<open>StreamRequest\<close>: the event source as a state machine
    (\<open>use-stream-request.ts\<close>). \<open>ChatHandler\<close>: buffered updates and both request modes
    (\<open>use-chat-handler.ts\<close>). \<open>PlaygroundStorage\<close> and \<open>PlaygroundStateHook\<close>: schemas, size limits, debounced
    saving (\<open>lib/storage\<close>, \<open>lib/state\<close>, \<open>use-playground-state.ts\<close>). Every function that rewrites a message
    satisfies the locale \<open>message_updater\<close>; invariants are proved for all reachable states.
  \<^item> Dashboard flow (\<open>features/dashboard/lib/flow.ts\<close>, \<open>flow-selection.ts\<close>). \<open>FlowPaths\<close>: rows, stages, filters.
    \<open>FlowGraph\<close>: nodes, links, colours, node limit, masking; accumulation into a \<open>Map\<close> is the locale
    \<open>flow_accumulator\<close>. \<open>FlowConservation\<close>: every stage and every node conserves the metric, rows that the node
    limit hides are accounted for, and masking hides the labels of persons and channels and nothing else. \<open>FlowDashboard\<close>: filter options and the data as a whole.
  \<^item> Billing expressions (\<open>features/pricing/lib/billing-expr.ts\<close>). \<open>BillingRules\<close>: conditions, groups, builder
    and parser. \<open>BillingSplit\<close>: splitting at a separator outside parentheses (locale \<open>top_separator\<close>, interpreted
    for the separators of products and of conjunctions). \<open>BillingRoundtrip\<close>, \<open>BillingProperties\<close>: what of the
    groups is read back, and which conditions make the parser reject the text.
  \<^item> Tiered prices (\<open>features/pricing/lib/tier-expr.ts\<close>, the tier parser of \<open>billing-expr.ts\<close>, and
    \<open>features/system-settings/models/tiered-pricing-editor.tsx\<close>). \<open>JS_Regex\<close>: regular expressions with captures as
    backtracking matchers, with rules for their first match. \<open>TierExpr\<close>: the visual configuration, its expression,
    the parser. \<open>TierRoundtrip\<close>: the expression is read back; what a pattern of tiers has to provide is the locale
    \<open>tier_pattern\<close>, interpreted by the pattern of the editor and, in \<open>TierDisplay\<close>, by that of the pricing pages,
    which agree. \<open>TierEditor\<close>: the editor, its effects and the renders they cause. \<open>TierEditorProperties\<close>: what
    it shows is what it has sent, whatever the edits; and the cases in which opening a price loses its expression
    or its rules, or a rule is applied twice.
  \<^item> Advanced custom routes (\<open>features/channels/lib/advanced-custom.ts\<close> and its editor dialog).
    \<open>AdvancedCustom\<close>: routes, templates, validation. \<open>AdvancedCustomValidation\<close>: validation against a
    specification by single routes and pairs of routes. \<open>AdvancedCustomEditor\<close>, \<open>AdvancedCustomEditing\<close>: the dialog.
  \<^item> Upstream prices (\<open>features/system-settings/models/upstream-ratio-sync*\<close>). \<open>RatioSync\<close>: differences,
    resolutions, the settings that are sent. \<open>RatioSyncProperties\<close>, \<open>RatioSyncSettings\<close>: resolutions never mix
    billing categories, a bulk selection selects what the table offers, and the synchronization refines a specification by option and model.
  \<^item> Parameter override (\<open>features/channels/components/dialogs/param-override-editor-dialog.tsx\<close>).
    \<open>ParamOverride\<close>: rules, drafts, validation, JSON. \<open>ParamOverrideEditor\<close>: the dialog and its handlers.
    \<open>ParamOverrideInvariant\<close>, \<open>ParamOverrideJson\<close>, \<open>ParamOverrideProperties\<close>, \<open>ParamOverrideLabels\<close>: the reachable
    states, the round trip of the saved text, errors, templates, and the table of fields.
  \<^item> Channels (\<open>features/channels/lib/channel-form.ts\<close>, \<open>model-mapping-validation.ts\<close>,
    \<open>status-code-risk-guard.ts\<close>, \<open>components/drawers/channel-mutate-drawer.tsx\<close>,
    \<open>hooks/use-channel-mutate-form.ts\<close>). \<open>ChannelForm\<close>: schema, values of a channel, settings texts, payloads.
    \<open>ChannelFormProperties\<close>: round trip and safety of the payloads, and the settings text key by key. \<open>ChannelEditor\<close>: the drawer, its checks and
    its submission. \<open>ChannelEditorProperties\<close>: what a submission guarantees.

  \<^bold>\<open>How the parts interact.\<close> The chat handler drives the streaming request through its callbacks and updates the
  messages of the conversation, which the state hook saves through the storage schemas. The channel editor
  contains the channel form, checks the mappings of models and of status codes before a submission, and
  embeds the routes of \<open>AdvancedCustom\<close> in the settings text of the form. The editors of overrides, routes and
  channels all read and write JSON through \<open>JSON_Text\<close>. The price editor holds a configuration of tiers and groups of
  request rules and sends their two texts, which are combined and split by the functions of \<open>BillingRules\<close>. The theories import each other along these calls.

  \<^bold>\<open>Parameters.\<close> Code outside the repository is an argument of the definitions: the conversion between
  numbers and texts (\<open>Number\<close>, \<open>String\<close>, \<open>toFixed\<close>), \<open>new URL\<close>, \<open>toLowerCase\<close>, \<open>localeCompare\<close>, colour
  schemes of the chart library, the clock, \<open>nanoid\<close>, the event source of \<open>sse.js\<close>, the quota of
  \<open>localStorage\<close>. What a theorem needs of them is a hypothesis of that theorem (for numbers: a printed number is
  read back as the same number), and its witness supplies a concrete function.

  \<^bold>\<open>Numbers and loops.\<close> Numbers are rationals, and naturals or integers for positions and counters; the
  rounding of floating point sums is not modelled, and nothing in the modelled code wraps around. Loops
  are structural recursion or have a termination proof. The JSON reader is bounded by the length of its
  text, and the round trip shows that this bound is enough for every printed value. The scanning loop of
  \<open>ThinkTags\<close> is also given as a loop with a bound on its rounds, and \<open>thinkLoop_terminates\<close> shows that one
  round per fifteen units of the content, and one more, is enough. A global regular expression is executed at
  most once per unit of its text, and one more time; every match of the patterns consumes a unit. The renders of
  the price editor are bounded by an argument, and the theorems say how many renders are enough (five after any
  edit, three after one that is kept, four after opening).

  \<^bold>\<open>Not modelled.\<close> The Rust services and crates (\<open>apps/\<close>, \<open>crates/\<close>), which are another program; the classic
  console (\<open>web/new-api/classic\<close>), which this console replaces; markup, tables, styles and translations, which
  have no state of their own; wrappers that build a URL and send a request; the generated route tree. Inside
  modelled components: the chart specification apart from its links, queries, secure verification and
  navigation of the channel drawer and its prefill groups, the toasts, the dialog that chooses the upstream
  channels, and the token estimator of the price editor, which evaluates an expression as JavaScript.
\<close>

end
